(* ===== verification/Go_Prelude.thy ===== *)
theory Go_Prelude
  imports Main "HOL-Library.Word"
begin

text \<open>
  Shared vocabulary of the development: the parts of the Go language and of its standard
  library that the server's packages use.

  \<^item> A Go \<^verbatim>\<open>string\<close> and a \<^verbatim>\<open>[]byte\<close> are byte sequences; both are the HOL type
    \<^typ>\<open>string\<close>, one \<^typ>\<open>char\<close> per byte, so the conversions between them are the identity.
  \<^item> \<open>decode_rune\<close>, \<open>chunks\<close>, \<open>utf8_valid\<close>, \<open>trim_space\<close> and \<open>is_control\<close> are
    \<^verbatim>\<open>utf8.DecodeRuneInString\<close>, the \<^verbatim>\<open>range\<close> loop over a string, \<^verbatim>\<open>utf8.ValidString\<close>,
    \<^verbatim>\<open>strings.TrimSpace\<close> and \<^verbatim>\<open>unicode.IsControl\<close>.
  \<^item> \<^verbatim>\<open>time.Time\<close> is a number of nanoseconds since the zero time (January 1, year 1, UTC), so
    \<^verbatim>\<open>IsZero\<close> is equality with 0 and \<^verbatim>\<open>UTC\<close> is the identity; \<^verbatim>\<open>time.Duration\<close> is a number of
    nanoseconds.
  \<^item> \<open>i64\<close> is the value of an integer expression of type \<^verbatim>\<open>int64\<close> (or \<^verbatim>\<open>int\<close>, 64 bits on every
    supported platform): two's complement wrap-around.  Unsigned fixed-width integers are words.
  \<^item> A function that returns \<^verbatim>\<open>(T, error)\<close> has a sum type with \<open>Inl\<close> for the error.
\<close>

named_theorems go_simps \<open>unfoldings of the Go library model that component proofs evaluate\<close>

type_synonym bytes = string
type_synonym rune = nat
type_synonym go_time = int
type_synonym duration = int
type_synonym u8 = "8 word"
type_synonym u16 = "16 word"
type_synonym u32 = "32 word"
type_synonym u64 = "64 word"

subsection \<open>Integers\<close>

definition i64 :: "int \<Rightarrow> int" where
  "i64 x = signed_take_bit 63 x"

definition max_i64 :: int where
  "max_i64 = 9223372036854775807"

definition min_i64 :: int where
  "min_i64 = - 9223372036854775808"

text \<open>Go's integer division truncates towards zero, unlike \<^const>\<open>divide\<close> on \<^typ>\<open>int\<close>.\<close>

definition quot :: "int \<Rightarrow> int \<Rightarrow> int" where
  "quot a b = sgn a * sgn b * (\<bar>a\<bar> div \<bar>b\<bar>)"

definition rem :: "int \<Rightarrow> int \<Rightarrow> int" where
  "rem a b = a - quot a b * b"

subsection \<open>Time\<close>

abbreviation (input) is_zero_time :: "go_time \<Rightarrow> bool" where
  "is_zero_time t \<equiv> t = 0"

definition microsecond :: duration where "microsecond = 1000"
definition millisecond :: duration where "millisecond = 1000000"
definition second :: duration where "second = 1000000000"
definition minute :: duration where "minute = 60 * second"
definition hour :: duration where "hour = 60 * minute"

text \<open>PostgreSQL's \<^verbatim>\<open>timestamptz\<close> keeps microseconds; the driver drops the rest.\<close>

definition pg_time :: "go_time \<Rightarrow> go_time" where
  "pg_time t = (t div microsecond) * microsecond"

subsection \<open>UTF-8\<close>

definition byte_at :: "string \<Rightarrow> nat \<Rightarrow> nat" where
  "byte_at s i = (if i < length s then of_char (s ! i) else 0)"

definition cont_byte :: "nat \<Rightarrow> bool" where
  "cont_byte b = (0x80 \<le> b \<and> b \<le> 0xBF)"

definition rune_error :: rune where
  "rune_error = 0xFFFD"

text \<open>
  \<^verbatim>\<open>utf8.DecodeRuneInString\<close>: the code point and the width in bytes; an ill-formed or truncated
  sequence is \<open>rune_error\<close> with width 1.
\<close>

definition decode_rune :: "string \<Rightarrow> rune \<times> nat" where
  "decode_rune s =
     (let b0 = byte_at s 0; b1 = byte_at s 1; b2 = byte_at s 2; b3 = byte_at s 3 in
      if b0 < 0x80 then (b0, 1)
      else if 0xC2 \<le> b0 \<and> b0 \<le> 0xDF \<and> cont_byte b1 then ((b0 - 0xC0) * 64 + (b1 - 0x80), 2)
      else if 0xE0 \<le> b0 \<and> b0 \<le> 0xEF
        \<and> (if b0 = 0xE0 then 0xA0 else 0x80) \<le> b1 \<and> b1 \<le> (if b0 = 0xED then 0x9F else 0xBF)
        \<and> cont_byte b2
        then ((b0 - 0xE0) * 4096 + (b1 - 0x80) * 64 + (b2 - 0x80), 3)
      else if 0xF0 \<le> b0 \<and> b0 \<le> 0xF4
        \<and> (if b0 = 0xF0 then 0x90 else 0x80) \<le> b1 \<and> b1 \<le> (if b0 = 0xF4 then 0x8F else 0xBF)
        \<and> cont_byte b2 \<and> cont_byte b3
        then ((b0 - 0xF0) * 262144 + (b1 - 0x80) * 4096 + (b2 - 0x80) * 64 + (b3 - 0x80), 4)
      else (rune_error, 1))"

text \<open>The runes of a string from the left, each with its bytes.\<close>

fun chunks :: "string \<Rightarrow> (rune \<times> string) list" where
  "chunks [] = []"
| "chunks (b # rest) =
     (case decode_rune (b # rest) of
        (r, n) \<Rightarrow> (r, b # take (n - 1) rest) # chunks (drop (n - 1) rest))"

definition runes :: "string \<Rightarrow> rune list" where
  "runes s = map fst (chunks s)"

definition utf8_valid :: "string \<Rightarrow> bool" where
  "utf8_valid s = list_all (\<lambda>(r, bs). \<not> (r = rune_error \<and> length bs = 1)) (chunks s)"

definition is_control :: "rune \<Rightarrow> bool" where
  "is_control r = (r \<le> 0x1F \<or> (0x7F \<le> r \<and> r \<le> 0x9F))"

definition is_space :: "rune \<Rightarrow> bool" where
  "is_space r =
     ((0x09 \<le> r \<and> r \<le> 0x0D) \<or> r = 0x20 \<or> r = 0x85 \<or> r = 0xA0 \<or> r = 0x1680
      \<or> (0x2000 \<le> r \<and> r \<le> 0x200A) \<or> r = 0x2028 \<or> r = 0x2029 \<or> r = 0x202F \<or> r = 0x205F
      \<or> r = 0x3000)"

definition trim_space :: "string \<Rightarrow> string" where
  "trim_space s =
     (let sp = (\<lambda>c. is_space (fst c)) in
      concat (map snd (rev (dropWhile sp (rev (dropWhile sp (chunks s)))))))"

text \<open>What PostgreSQL accepts as a \<^verbatim>\<open>text\<close> value: valid UTF-8 without U+0000.\<close>

definition pg_text :: "string \<Rightarrow> bool" where
  "pg_text v \<longleftrightarrow> utf8_valid v \<and> 0 \<notin> set (runes v)"

text \<open>A \<^verbatim>\<open>CHECK\<close> on a nullable column holds for \<^verbatim>\<open>NULL\<close>.\<close>

definition opt_check :: "('a \<Rightarrow> bool) \<Rightarrow> 'a option \<Rightarrow> bool" where
  "opt_check P v = (case v of None \<Rightarrow> True | Some x \<Rightarrow> P x)"

text \<open>A \<^verbatim>\<open>float64\<close> as far as the code looks at it: finite values are \<open>m * 2 ^ e\<close>.\<close>

datatype f64 = F64NaN | F64Inf bool | F64 int int

definition f64_negative :: "f64 \<Rightarrow> bool" where
  "f64_negative x = (case x of F64NaN \<Rightarrow> False | F64Inf positive \<Rightarrow> \<not> positive | F64 m e \<Rightarrow> m < 0)"

definition f64_above_one :: "f64 \<Rightarrow> bool" where
  "f64_above_one x = (case x of F64NaN \<Rightarrow> False | F64Inf positive \<Rightarrow> positive
     | F64 m e \<Rightarrow> if 0 \<le> e then 1 < m * 2 ^ nat e else 2 ^ nat (- e) < m)"

subsection \<open>ASCII classes, the alphabets of the server's regular expressions\<close>

definition is_digit :: "char \<Rightarrow> bool" where
  "is_digit c = (48 \<le> (of_char c :: nat) \<and> (of_char c :: nat) \<le> 57)"

definition is_lower :: "char \<Rightarrow> bool" where
  "is_lower c = (97 \<le> (of_char c :: nat) \<and> (of_char c :: nat) \<le> 122)"

definition is_upper :: "char \<Rightarrow> bool" where
  "is_upper c = (65 \<le> (of_char c :: nat) \<and> (of_char c :: nat) \<le> 90)"

definition is_letter :: "char \<Rightarrow> bool" where
  "is_letter c = (is_lower c \<or> is_upper c)"

definition is_hex_lower :: "char \<Rightarrow> bool" where
  "is_hex_lower c = (is_digit c \<or> (97 \<le> (of_char c :: nat) \<and> (of_char c :: nat) \<le> 102))"

definition ascii_lower_char :: "char \<Rightarrow> char" where
  "ascii_lower_char c = (if is_upper c then char_of ((of_char c :: nat) + 32) else c)"

text \<open>\<^verbatim>\<open>strings.ToLower\<close> on a string of ASCII bytes.\<close>

definition ascii_lower :: "string \<Rightarrow> string" where
  "ascii_lower s = map ascii_lower_char s"

text \<open>\<^verbatim>\<open>strings.Split\<close> by one byte.\<close>

fun split_on :: "char \<Rightarrow> string \<Rightarrow> string list" where
  "split_on c [] = [[]]"
| "split_on c (x # xs) =
     (if x = c then [] # split_on c xs
      else (case split_on c xs of [] \<Rightarrow> [[x]] | w # ws \<Rightarrow> (x # w) # ws))"

subsection \<open>Lemmas\<close>

lemma i64_id: "min_i64 \<le> x \<Longrightarrow> x \<le> max_i64 \<Longrightarrow> i64 x = x"
  by (simp add: i64_def min_i64_def max_i64_def signed_take_bit_int_eq_self)

lemma i64_small:
  assumes "0 \<le> x" "x < 9223372036854775808"
  shows "i64 x = x"
  using assms by (intro i64_id) (simp_all add: min_i64_def max_i64_def)

lemma i64_range: "min_i64 \<le> i64 x" "i64 x \<le> max_i64"
  using signed_take_bit_int_greater_eq_minus_exp [of 63 x] signed_take_bit_int_less_exp [of 63 x]
  by (simp_all add: i64_def min_i64_def max_i64_def)

lemma int_div_bounds:
  assumes "0 \<le> (a::int)" "0 < b"
  shows "0 \<le> a div b" "a div b \<le> a"
  using assms zdiv_mono2 [of a 1 b] by (simp_all add: pos_imp_zdiv_nonneg_iff)

lemma int_div_lessI:
  assumes "0 < (b::int)" "a < c * b"
  shows "a div b < c"
proof (rule ccontr)
  assume "\<not> a div b < c"
  then have "c * b \<le> a div b * b" using assms(1) by (simp add: mult_right_mono)
  moreover have "a div b * b \<le> a" using assms(1) by (simp add: minus_mod_eq_div_mult [symmetric])
  ultimately show False using assms(2) by linarith
qed

lemma quot_nonneg: "0 \<le> a \<Longrightarrow> 0 < b \<Longrightarrow> quot a b = a div b"
  by (cases "a = 0") (simp_all add: quot_def)

lemma rem_nonneg: "0 \<le> a \<Longrightarrow> 0 < b \<Longrightarrow> rem a b = a mod b"
  by (simp add: rem_def quot_nonneg minus_div_mult_eq_mod)

lemma pg_time_le: "pg_time t \<le> t"
  by (simp add: pg_time_def microsecond_def)

lemma pg_time_idem [simp]: "pg_time (pg_time t) = pg_time t"
  by (simp add: pg_time_def microsecond_def)

lemma pg_time_mono: "s \<le> t \<Longrightarrow> pg_time s \<le> pg_time t"
  by (simp add: pg_time_def microsecond_def zdiv_mono1)

lemma char_of_inj_small: "(m::nat) < 256 \<Longrightarrow> (of_char (char_of m) :: nat) = m"
  by (simp add: of_char_of)

lemma split_on_nonempty [simp]: "split_on c s \<noteq> []"
  by (cases s) (auto split: list.splits)

lemma pg_time_add: "microsecond dvd d \<Longrightarrow> pg_time (t + d) = pg_time t + d"
  by (auto simp: pg_time_def microsecond_def)

lemma runes_length: "length (runes s) \<le> length s"
proof -
  have "length (chunks s) \<le> length s"
    by (induction s rule: chunks.induct) (auto split: prod.splits intro: le_trans)
  then show ?thesis by (simp add: runes_def)
qed

lemma runes_empty [simp]: "runes s = [] \<longleftrightarrow> s = []"
  by (cases s) (auto simp: runes_def split: prod.splits)

lemma split_on_set: "c \<in> set s \<Longrightarrow> c = sep \<or> (\<exists>w\<in>set (split_on sep s). c \<in> set w)"
  by (induction s) (auto split: list.splits)

lemma split_on_head: "length (hd (split_on sep s)) \<le> length s"
  by (induction s) (auto split: list.splits)

lemma find_append: "find P (xs @ ys) = (case find P xs of None \<Rightarrow> find P ys | Some x \<Rightarrow> Some x)"
  by (induction xs) auto

text \<open>Trimming twice is trimming once, for ill-formed text too.\<close>

lemma byte_at_take: "byte_at (take m s) i = (if i < m then byte_at s i else 0)"
  by (simp add: byte_at_def)

lemma decode_rune_width: "decode_rune s = (r, n) \<Longrightarrow> 1 \<le> n \<and> n \<le> 4"
  by (auto simp: decode_rune_def Let_def split: if_splits)

lemma decode_rune_take:
  assumes "decode_rune s = (r, n)" "n \<le> m"
  shows "decode_rune (take m s) = (r, n)"
proof -
  have "m = 0 \<or> m = 1 \<or> m = 2 \<or> m = 3 \<or> 3 < m" by linarith
  moreover have "0 < m" using decode_rune_width [OF assms(1)] assms(2) by linarith
  ultimately show ?thesis
    using assms
    by (elim disjE) (auto simp: decode_rune_def Let_def byte_at_take cont_byte_def split: if_splits)
qed

lemma chunks_bytes: "concat (map snd (chunks s)) = s"
  by (induction s rule: chunks.induct) (auto split: prod.splits)

lemma chunks_front: "chunks s = cs @ ds \<Longrightarrow> chunks (concat (map snd cs)) = cs"
proof (induction s arbitrary: cs rule: chunks.induct)
  case (2 b rest)
  obtain r n where d: "decode_rune (b # rest) = (r, n)" by (rule prod.exhaust)
  note w = decode_rune_width [OF d]
  show ?case
  proof (cases cs)
    case (Cons c cs')
    have c: "c = (r, b # take (n - 1) rest)" and cs': "chunks (drop (n - 1) rest) = cs' @ ds"
      using "2.prems" d Cons by auto
    define tl where "tl = concat (map snd cs')"
    have ih: "chunks tl = cs'" using "2.IH" [OF d [symmetric] cs'] by (simp add: tl_def)
    have bytes: "drop (n - 1) rest = tl @ concat (map snd ds)"
      using chunks_bytes [of "drop (n - 1) rest"] unfolding cs' tl_def by simp
    let ?front = "b # take (n - 1) rest @ tl"
    have rest: "rest = take (n - 1) rest @ tl @ concat (map snd ds)" by (metis append_take_drop_id bytes)
    then have take: "?front = take (length ?front) (b # rest)" by (metis append_Cons append_assoc append_eq_conv_conj)
    show ?thesis
    proof (cases "n - 1 \<le> length rest")
      case True
      have "decode_rune ?front = (r, n)"
        using decode_rune_take [OF d, of "length ?front"] take True w by simp
      then show ?thesis
        using Cons c ih True by (simp add: tl_def [symmetric])
    next
      case False
      then have "tl = []" "take (n - 1) rest = rest" using bytes by auto
      then show ?thesis using Cons c ih d by (simp add: tl_def [symmetric])
    qed
  qed simp
qed simp

lemma chunks_back: "chunks s = cs @ ds \<Longrightarrow> chunks (concat (map snd ds)) = ds"
proof (induction s arbitrary: cs rule: chunks.induct)
  case (2 b rest)
  obtain r n where d: "decode_rune (b # rest) = (r, n)" by (rule prod.exhaust)
  show ?case
  proof (cases cs)
    case Nil
    then show ?thesis using "2.prems" chunks_bytes [of "b # rest"] by (metis append_Nil)
  next
    case (Cons c cs')
    then show ?thesis using "2.prems" "2.IH" [OF d [symmetric], of cs'] d by auto
  qed
qed simp

lemma trim_list:
  assumes "ys = dropWhile P xs" "mid = rev (dropWhile P (rev ys))"
  shows "dropWhile P mid = mid" "dropWhile P (rev mid) = rev mid" "ys = mid @ rev (takeWhile P (rev ys))"
proof -
  show ys: "ys = mid @ rev (takeWhile P (rev ys))"
    unfolding assms(2) by (metis rev_append rev_rev_ident takeWhile_dropWhile_id)
  show "dropWhile P mid = mid"
  proof (cases mid)
    case (Cons c cs)
    then have "ys \<noteq> []" "hd ys = c" using ys by (metis append_is_Nil_conv list.distinct(1), metis append_Cons list.sel(1))
    then have "\<not> P c" using hd_dropWhile [of P xs] assms(1) by metis
    then show ?thesis using Cons by simp
  qed simp
  show "dropWhile P (rev mid) = rev mid"
    using hd_dropWhile [of P "rev ys"] by (cases "dropWhile P (rev ys)") (auto simp: assms(2))
qed

lemma trim_space_idem [simp]: "trim_space (trim_space s) = trim_space s"
proof -
  define P where "P = (\<lambda>c :: rune \<times> string. is_space (fst c))"
  define ys where "ys = dropWhile P (chunks s)"
  define mid where "mid = rev (dropWhile P (rev ys))"
  note t = trim_list [OF ys_def mid_def]
  have trim: "trim_space s = concat (map snd mid)" by (simp add: trim_space_def Let_def P_def ys_def mid_def)
  have "chunks s = takeWhile P (chunks s) @ ys" by (simp add: ys_def)
  from chunks_back [OF this] have "chunks (concat (map snd ys)) = mid @ rev (takeWhile P (rev ys))" using t(3) by simp
  from chunks_front [OF this] have "chunks (trim_space s) = mid" by (simp add: trim)
  then have "trim_space (trim_space s) = concat (map snd (rev (dropWhile P (rev (dropWhile P mid)))))"
    by (simp add: trim_space_def Let_def P_def)
  then show ?thesis using t(1,2) trim by simp
qed

lemma find_SomeD:
  assumes "find P xs = Some x"
  shows "x \<in> set xs" "P x"
  using assms by (induction xs) (auto split: if_splits)

lemma chunks_ascii:
  "list_all (\<lambda>c. (of_char c :: nat) < 128) s \<Longrightarrow> chunks s = map (\<lambda>c. (of_char c, [c])) s"
  by (induction s) (auto simp: decode_rune_def byte_at_def)

lemma trim_ascii:
  assumes "list_all (\<lambda>c. (of_char c :: nat) < 128 \<and> \<not> is_space (of_char c)) s"
  shows "trim_space s = s"
proof -
  have ch: "chunks s = map (\<lambda>c. (of_char c, [c])) s"
    using assms by (intro chunks_ascii) (auto simp: list_all_iff)
  have keep: "dropWhile (\<lambda>c. is_space (fst c)) xs = xs" if "set xs \<subseteq> set (chunks s)" for xs
    using that assms by (cases xs) (auto simp: ch list_all_iff)
  show ?thesis
    unfolding trim_space_def Let_def using keep chunks_bytes [of s] by simp
qed

text \<open>Fixed-width arithmetic that does not wrap is arithmetic on the values.\<close>

lemma u8_bound: "unat (x :: u8) < 256"
  and u16_bound: "unat (x16 :: u16) < 65536"
  and u32_bound: "unat (x32 :: u32) < 4294967296"
  and u64_bound: "unat (x64 :: u64) < 18446744073709551616"
  using unsigned_less [of x] unsigned_less [of x16] unsigned_less [of x32] unsigned_less [of x64]
  by simp_all

lemma unat_add_no_wrap: "\<not> x + y < x \<Longrightarrow> unat (x + y) = unat x + unat y"
  for x y :: "'a::len word"
  by (simp add: unat_plus_simple not_less)

lemma unat_sub_no_wrap: "y \<le> x \<Longrightarrow> unat (x - y) = unat x - unat y"
  for x y :: "'a::len word"
  by (rule unat_sub)

lemma unat_u16_u32 [simp]: "unat (ucast (x :: u16) :: u32) = unat x"
  using u16_bound [of x] by (simp add: unsigned_ucast_eq take_bit_nat_eq_self)

lemma unat_u32_u64 [simp]: "unat (ucast (x :: u32) :: u64) = unat x"
  using u32_bound [of x] by (simp add: unsigned_ucast_eq take_bit_nat_eq_self)

lemma unat_mult_u32_u64: "unat (ucast (x :: u32) * ucast (y :: u32) :: u64) = unat x * unat y"
proof -
  have "unat x * unat y < 4294967296 * 4294967296"
    using u32_bound [of x] u32_bound [of y] by (intro mult_strict_mono) simp_all
  then show ?thesis by (subst unat_mult_lem [THEN iffD1]) simp_all
qed

lemma sint_small_u64:
  assumes "unat (x :: u64) < 9223372036854775808"
  shows "sint x = uint x"
proof -
  have "int (unat x) < 9223372036854775808" using assms by linarith
  moreover have "- (2 ^ 63) \<le> uint x" using uint_ge_0 [of x] by (rule order_trans [rotated]) simp
  ultimately show ?thesis
    using signed_take_bit_int_eq_self [of 63 "uint x"] by (simp add: sint_uint)
qed

lemma uint_u32_u64 [simp]: "uint (ucast (x :: u32) :: u64) = uint x"
  using unat_u32_u64 [of x] by (metis uint_nat)

lemma sint_u32_u64: "sint (ucast (x :: u32) :: u64) = uint x"
  using u32_bound [of x] by (subst sint_small_u64) simp_all

lemma of_char_bound: "(of_char c :: nat) < 256"
  by (metis char_of_char mod_less_divisor of_char_of zero_less_numeral)

lemmas time_units = microsecond_def millisecond_def second_def minute_def hour_def

subsection \<open>Sequences of transactions\<close>

text \<open>
  Transactions that keep an invariant and only move forward: what one does, every sequence of allowed
  ones does.
\<close>

locale transactions =
  fixes run :: "'op \<Rightarrow> 'db \<Rightarrow> 'db" and inv :: "'db \<Rightarrow> bool" and progress :: "'db \<Rightarrow> 'db \<Rightarrow> bool" and allowed :: "'op \<Rightarrow> bool"
  assumes run_inv: "inv db \<Longrightarrow> allowed op \<Longrightarrow> inv (run op db)"
    and run_progress: "inv db \<Longrightarrow> allowed op \<Longrightarrow> progress db (run op db)"
    and progress_refl: "progress db db"
    and progress_trans: "progress a b \<Longrightarrow> progress b c \<Longrightarrow> progress a c"
begin

lemma runs_inv: "inv db \<Longrightarrow> \<forall>op\<in>set ops. allowed op \<Longrightarrow> inv (fold run ops db)"
  by (induction ops arbitrary: db) (simp_all add: run_inv)

lemma runs_progress: "inv db \<Longrightarrow> \<forall>op\<in>set ops. allowed op \<Longrightarrow> progress db (fold run ops db)"
proof (induction ops arbitrary: db)
  case Nil
  then show ?case by (simp add: progress_refl)
next
  case (Cons op ops)
  then have "progress db (run op db)" "progress (run op db) (fold run ops (run op db))"
    using run_inv run_progress by auto
  then show ?case using progress_trans by simp
qed

end

end
