(* ===== verification/Login_Limiter.thy ===== *)
theory Login_Limiter
  imports Go_Prelude "HOL-Library.AList"
begin

text \<open>
  \<^verbatim>\<open>internal/platform/httpapi/login_limiter.go\<close>: the sliding-window limiter in front of the login
  handler.  The map of attempts is an association list with distinct keys, so that \<^verbatim>\<open>len\<close> of the
  map is its length; the mutex makes every operation atomic.  \<^verbatim>\<open>Allow\<close> returns \<open>None\<close> where the code
  panics (indexing an empty slice, possible only with a limit below 1).  The ceiling of the waiting
  time is exact: below \<open>2 ^ 23\<close> seconds the \<^verbatim>\<open>float64\<close> expression of the code has the same ceiling.
\<close>

definition defaultLoginLimiterMaxKeys :: int where "defaultLoginLimiterMaxKeys = 10000"
definition overflowLoginLimiterKey :: string where "overflowLoginLimiterKey = ''__overflow__''"

record loginLimiter =
  l_limit :: int
  l_window :: duration
  l_maxKeys :: int
  l_nextSweep :: go_time
  l_attempts :: "(string \<times> go_time list) list"

definition newLoginLimiter :: "int \<Rightarrow> duration \<Rightarrow> loginLimiter" where
  "newLoginLimiter limit window =
     \<lparr>l_limit = limit, l_window = window, l_maxKeys = defaultLoginLimiterMaxKeys,
      l_nextSweep = 0, l_attempts = []\<rparr>"

text \<open>Reading a missing key of a Go map gives the zero value, the empty slice.\<close>

definition attempts_of :: "string \<Rightarrow> loginLimiter \<Rightarrow> go_time list" where
  "attempts_of key l = (case map_of (l_attempts l) key of None \<Rightarrow> [] | Some ts \<Rightarrow> ts)"

definition kept_after :: "go_time \<Rightarrow> go_time list \<Rightarrow> go_time list" where
  "kept_after cutoff = filter (\<lambda>attemptedAt. attemptedAt > cutoff)"

definition prune :: "loginLimiter \<Rightarrow> go_time \<Rightarrow> go_time \<Rightarrow> loginLimiter" where
  "prune l cutoff now =
     (if \<not> is_zero_time (l_nextSweep l) \<and> now < l_nextSweep l then l
      else l\<lparr>l_attempts := filter (\<lambda>(key, kept). kept \<noteq> [])
               (map (\<lambda>(key, attempts). (key, kept_after cutoff attempts)) (l_attempts l)),
             l_nextSweep := now + l_window l\<rparr>)"

definition bucketKey :: "loginLimiter \<Rightarrow> string \<Rightarrow> string" where
  "bucketKey l key =
     (if map_of (l_attempts l) key \<noteq> None \<or> key = overflowLoginLimiterKey then key
      else if l_maxKeys l \<le> 1 \<or> int (length (l_attempts l)) \<ge> l_maxKeys l - 1 then overflowLoginLimiterKey
      else key)"

definition ceil_seconds :: "duration \<Rightarrow> int" where
  "ceil_seconds d = - ((- d) div second)"

definition Allow :: "loginLimiter \<Rightarrow> string \<Rightarrow> go_time \<Rightarrow> (loginLimiter \<times> bool \<times> int \<times> int) option" where
  "Allow l0 key0 now =
     (let cutoff = now - l_window l0;
          l = prune l0 cutoff now;
          key = bucketKey l key0;
          kept = kept_after cutoff (attempts_of key l)
      in
      if int (length kept) \<ge> l_limit l then
        (case kept of
           [] \<Rightarrow> None
         | oldest # _ \<Rightarrow>
           (let wait = ceil_seconds (oldest + l_window l - now);
                retryAfter = (if wait < 1 then 1 else wait)
            in Some (l\<lparr>l_attempts := AList.update key kept (l_attempts l)\<rparr>, False, 0, retryAfter)))
      else
        (let kept' = kept @ [now] in
         Some (l\<lparr>l_attempts := AList.update key kept' (l_attempts l)\<rparr>, True,
               l_limit l - int (length kept'), 0)))"

definition Reset :: "loginLimiter \<Rightarrow> string \<Rightarrow> loginLimiter" where
  "Reset l key = l\<lparr>l_attempts := AList.delete key (l_attempts l)\<rparr>"

subsection \<open>Runs of the limiter\<close>

text \<open>
  A run: any sequence of \<^verbatim>\<open>Allow\<close> and \<^verbatim>\<open>Reset\<close> calls, \<^verbatim>\<open>Allow\<close> with times that do not decrease.  The
  log records the bucket and the time of every granted attempt since the last reset of the bucket.
\<close>

inductive limiter_run :: "int \<Rightarrow> duration \<Rightarrow> loginLimiter \<Rightarrow> (string \<times> go_time) list \<Rightarrow> go_time \<Rightarrow> bool"
  for limit window where
  new: "limiter_run limit window (newLoginLimiter limit window) [] t"
| granted: "limiter_run limit window l log t \<Longrightarrow> t \<le> now \<Longrightarrow> Allow l key now = Some (l', True, r, a) \<Longrightarrow>
    limiter_run limit window l' (log @ [(bucketKey (prune l (now - window) now) key, now)]) now"
| refused: "limiter_run limit window l log t \<Longrightarrow> t \<le> now \<Longrightarrow> Allow l key now = Some (l', False, r, a) \<Longrightarrow>
    limiter_run limit window l' log now"
| reset: "limiter_run limit window l log t \<Longrightarrow>
    limiter_run limit window (Reset l key) (filter (\<lambda>(b, _). b \<noteq> key) log) t"

definition bucket_times :: "string \<Rightarrow> (string \<times> go_time) list \<Rightarrow> go_time list" where
  "bucket_times b log = map snd (filter (\<lambda>(b', _). b' = b) log)"

definition in_window :: "go_time \<Rightarrow> duration \<Rightarrow> go_time list \<Rightarrow> go_time list" where
  "in_window t window = filter (\<lambda>s. t - window < s \<and> s \<le> t)"

lemma bucket_times_simps [simp]:
  "bucket_times b [] = []"
  "bucket_times b (log @ [(k, s)]) = bucket_times b log @ (if k = b then [s] else [])"
  "bucket_times b (filter (\<lambda>(b', _). b' \<noteq> k) log) = (if k = b then [] else bucket_times b log)"
  by (auto simp: bucket_times_def filter_empty_conv intro: arg_cong [where f = "map snd"] filter_cong)

lemma kept_after_simps [simp]:
  "kept_after c [] = []" "kept_after c (xs @ ys) = kept_after c xs @ kept_after c ys"
  "kept_after c [s] = (if c < s then [s] else [])"
  "kept_after c (kept_after d xs) = kept_after (max c d) xs"
  by (auto simp: kept_after_def intro: filter_cong)

lemma map_of_update [simp]: "map_of (AList.update k v al) x = (if x = k then Some v else map_of al x)"
  by (simp add: update_conv)

lemma map_of_delete [simp]: "map_of (AList.delete k al) x = (if x = k then None else map_of al x)"
  by (simp add: AList.delete_conv)

lemma map_of_kept:
  "distinct (map fst al) \<Longrightarrow>
   map_of (filter (\<lambda>(k, kept). kept \<noteq> []) (map (\<lambda>(k, ts). (k, f ts)) al)) b =
   (case map_of al b of None \<Rightarrow> None | Some ts \<Rightarrow> if f ts = [] then None else Some (f ts))"
proof (induction al)
  case (Cons x al)
  have "map_of al (fst x) = None" using Cons.prems by (simp add: map_of_eq_None_iff)
  then show ?case using Cons by (cases x) (auto split: option.splits)
qed simp

text \<open>The number of buckets other than the overflow bucket.\<close>

definition own_buckets :: "loginLimiter \<Rightarrow> nat" where
  "own_buckets l = length (filter (\<lambda>k. k \<noteq> overflowLoginLimiterKey) (map fst (l_attempts l)))"

text \<open>What the limiter keeps between calls; \<open>t\<close> is the time of the latest \<^verbatim>\<open>Allow\<close>.\<close>

definition limiter_inv :: "int \<Rightarrow> duration \<Rightarrow> loginLimiter \<Rightarrow> (string \<times> go_time) list \<Rightarrow> go_time \<Rightarrow> bool" where
  "limiter_inv limit window l log t \<longleftrightarrow>
     l_limit l = limit \<and> l_window l = window \<and> l_maxKeys l = defaultLoginLimiterMaxKeys \<and>
     distinct (map fst (l_attempts l)) \<and>
     int (own_buckets l) \<le> l_maxKeys l - 1 \<and>
     (\<forall>b c. t - window \<le> c \<longrightarrow> kept_after c (attempts_of b l) = kept_after c (bucket_times b log))"

lemma distinct_one:
  assumes "distinct xs"
  shows "length xs \<le> length (filter (\<lambda>k. k \<noteq> x) xs) + 1"
proof -
  have "length (filter (\<lambda>k. k = x) xs) = card (set (filter (\<lambda>k. k = x) xs))"
    using assms by (intro distinct_card [symmetric] distinct_filter)
  also have "\<dots> \<le> card {x}" by (rule card_mono) auto
  finally show ?thesis using sum_length_filter_compl [of "\<lambda>k. k = x" xs] by simp
qed

lemma prune_same [simp]:
  "l_limit (prune l c now) = l_limit l" "l_window (prune l c now) = l_window l"
  "l_maxKeys (prune l c now) = l_maxKeys l"
  by (simp_all add: prune_def)

lemma prune_kept:
  assumes "distinct (map fst (l_attempts l))" "c \<le> c'"
  shows "kept_after c' (attempts_of b (prune l c now)) = kept_after c' (attempts_of b l)"
proof -
  have "kept_after c' ts = []" if "kept_after c ts = []" for ts
    using that assms(2) by (auto simp: kept_after_def filter_empty_conv)
  then show ?thesis
    using assms(2) by (auto simp: prune_def attempts_of_def map_of_kept [OF assms(1)] max_def split: option.split)
qed

lemma own_buckets_filter:
  "map fst (l_attempts l') = map fst (filter R (l_attempts l)) \<Longrightarrow> own_buckets l' \<le> own_buckets l"
proof -
  have "length (filter P (map fst (filter R al))) \<le> length (filter P (map fst al))"
    for P and al :: "(string \<times> go_time list) list"
    by (induction al) auto
  then show "map fst (l_attempts l') = map fst (filter R (l_attempts l)) \<Longrightarrow> own_buckets l' \<le> own_buckets l"
    unfolding own_buckets_def by simp
qed

lemma prune_filter: "\<exists>R. map fst (l_attempts (prune l c now)) = map fst (filter R (l_attempts l))"
proof (cases "\<not> is_zero_time (l_nextSweep l) \<and> now < l_nextSweep l")
  case True
  then show ?thesis by (intro exI [of _ "\<lambda>_. True"]) (simp add: prune_def)
next
  case False
  have "map fst (filter Q (map (\<lambda>(k, ts). (k, f ts)) al)) = map fst (filter (\<lambda>(k, ts). Q (k, f ts)) al)"
    for Q and f :: "go_time list \<Rightarrow> go_time list" and al :: "(string \<times> go_time list) list"
    by (induction al) auto
  then show ?thesis using False by (auto simp: prune_def)
qed

lemma prune_keys:
  "distinct (map fst (l_attempts l)) \<Longrightarrow> distinct (map fst (l_attempts (prune l c now)))"
  "own_buckets (prune l c now) \<le> own_buckets l"
  using prune_filter [of l c now] own_buckets_filter [of "prune l c now" _ l]
  by (auto simp: distinct_map_filter)

text \<open>Writing a bucket that \<^verbatim>\<open>bucketKey\<close> chose keeps the number of buckets bounded.\<close>

lemma bucketKey_room:
  assumes "int (own_buckets l) \<le> l_maxKeys l - 1"
  shows "int (own_buckets (l\<lparr>l_attempts := AList.update (bucketKey l key) v (l_attempts l)\<rparr>)) \<le> l_maxKeys l - 1"
proof -
  have keys: "map fst (AList.update k v al) = (if k \<in> set (map fst al) then map fst al else map fst al @ [k])" for k al
    by (simp add: AList.update_keys)
  let ?other = "\<lambda>k. k \<noteq> overflowLoginLimiterKey"
  show ?thesis
  proof (cases "bucketKey l key \<in> set (map fst (l_attempts l)) \<or> bucketKey l key = overflowLoginLimiterKey")
    case True
    then show ?thesis using assms by (auto simp: own_buckets_def keys)
  next
    case False
    then have "int (length (l_attempts l)) < l_maxKeys l - 1"
      by (auto simp: bucketKey_def map_of_eq_None_iff split: if_splits)
    moreover have "own_buckets l \<le> length (l_attempts l)"
      using length_filter_le [of ?other "map fst (l_attempts l)"] by (simp add: own_buckets_def)
    moreover have "own_buckets (l\<lparr>l_attempts := AList.update (bucketKey l key) v (l_attempts l)\<rparr>) = own_buckets l + 1"
      unfolding own_buckets_def using False by (simp add: keys)
    ultimately show ?thesis by linarith
  qed
qed

lemma limiter_inv_write:
  assumes inv: "limiter_inv limit window l log t" and "t \<le> now"
    and l': "l' = prune l (now - window) now" and b: "b = bucketKey l' key"
    and v: "\<And>c. now - window \<le> c \<Longrightarrow> kept_after c v = kept_after c (attempts_of b l') @ kept_after c news"
  shows "limiter_inv limit window (l'\<lparr>l_attempts := AList.update b v (l_attempts l')\<rparr>)
    (log @ map (Pair b) news) now"
proof -
  have d: "distinct (map fst (l_attempts l))" using inv by (simp add: limiter_inv_def)
  have d': "distinct (map fst (l_attempts l'))" unfolding l' by (rule prune_keys(1) [OF d])
  have room: "int (own_buckets l') \<le> l_maxKeys l' - 1"
    using inv prune_keys(2) [of l "now - window" now] unfolding limiter_inv_def l' prune_same by linarith
  have times: "bucket_times x (log @ map (Pair b) news) = bucket_times x log @ (if x = b then news else [])" for x
    by (simp add: bucket_times_def comp_def)
  have kept: "kept_after c (attempts_of x l') = kept_after c (bucket_times x log)" if "now - window \<le> c" for c x
    using inv that assms(2) prune_kept [OF d that] by (simp add: limiter_inv_def l')
  show ?thesis
    unfolding limiter_inv_def
  proof (intro conjI allI impI)
    show "int (own_buckets (l'\<lparr>l_attempts := AList.update b v (l_attempts l')\<rparr>)) \<le>
        l_maxKeys (l'\<lparr>l_attempts := AList.update b v (l_attempts l')\<rparr>) - 1"
      using bucketKey_room [OF room] by (simp add: b)
    fix x c assume "now - window \<le> c"
    then show "kept_after c (attempts_of x (l'\<lparr>l_attempts := AList.update b v (l_attempts l')\<rparr>)) =
        kept_after c (bucket_times x (log @ map (Pair b) news))"
      using v kept [of c x] by (auto simp: times attempts_of_def)
  qed (use inv d' in \<open>simp_all add: limiter_inv_def l' AList.distinct_update\<close>)
qed

text \<open>The two outcomes of \<^verbatim>\<open>Allow\<close>.\<close>

lemma Allow_cases:
  assumes "Allow l key now = Some (l', ok, r, a)"
  obtains (allowed) p b where "p = prune l (now - l_window l) now" "b = bucketKey p key" "ok"
      "int (length (kept_after (now - l_window l) (attempts_of b p))) < l_limit l"
      "l' = p\<lparr>l_attempts := AList.update b (kept_after (now - l_window l) (attempts_of b p) @ [now]) (l_attempts p)\<rparr>"
      "r = l_limit l - int (length (kept_after (now - l_window l) (attempts_of b p))) - 1" "a = 0"
  | (blocked) p b where "p = prune l (now - l_window l) now" "b = bucketKey p key" "\<not> ok"
      "int (length (kept_after (now - l_window l) (attempts_of b p))) \<ge> l_limit l"
      "l' = p\<lparr>l_attempts := AList.update b (kept_after (now - l_window l) (attempts_of b p)) (l_attempts p)\<rparr>"
      "r = 0" "a = max 1 (ceil_seconds (hd (kept_after (now - l_window l) (attempts_of b p)) + l_window l - now))"
  using assms
  by (cases "int (length (kept_after (now - l_window l)
        (attempts_of (bucketKey (prune l (now - l_window l) now) key) (prune l (now - l_window l) now)))) \<ge> l_limit l")
    (auto simp: Allow_def Let_def max_def not_less split: list.splits if_splits)

lemma limiter_inv_reset:
  assumes "limiter_inv limit window l log t"
  shows "limiter_inv limit window (Reset l key) (filter (\<lambda>(b, _). b \<noteq> key) log) t"
proof -
  have "own_buckets (Reset l key) \<le> own_buckets l"
    by (rule own_buckets_filter) (simp add: Reset_def AList.delete_eq)
  with assms show ?thesis
    by (auto simp: limiter_inv_def Reset_def attempts_of_def AList.distinct_delete)
qed

lemma limiter_run_inv: "limiter_run limit window l log t \<Longrightarrow> limiter_inv limit window l log t"
proof (induction rule: limiter_run.induct)
  case (new t)
  show ?case by (simp add: limiter_inv_def newLoginLimiter_def own_buckets_def attempts_of_def
        defaultLoginLimiterMaxKeys_def)
next
  case (granted l log t now key l' r a)
  then have w: "l_window l = window" by (simp add: limiter_inv_def)
  from granted.hyps(3) show ?case
  proof (cases rule: Allow_cases)
    case (allowed p b)
    then show ?thesis
      using limiter_inv_write [OF granted.IH granted.hyps(2), of p b key "_ @ [now]" "[now]"] w
      by (auto simp: max_def)
  qed simp
next
  case (refused l log t now key l' r a)
  then have w: "l_window l = window" by (simp add: limiter_inv_def)
  from refused.hyps(3) show ?case
  proof (cases rule: Allow_cases)
    case (blocked p b)
    then show ?thesis
      using limiter_inv_write [OF refused.IH refused.hyps(2), of p b key _ "[]"] w by (auto simp: max_def)
  qed simp
qed (rule limiter_inv_reset)

lemma filter_length_mono: "(\<And>x. P x \<Longrightarrow> Q x) \<Longrightarrow> length (filter P xs) \<le> length (filter Q xs)"
  by (induction xs) auto

lemma kept_after_length: "length (kept_after c ts) \<le> length ts"
  by (simp add: kept_after_def)

lemma prune_length: 
  assumes "distinct (map fst (l_attempts l))"
  shows "length (attempts_of b (prune l c now)) \<le> length (attempts_of b l)"
  by (auto simp: prune_def attempts_of_def map_of_kept [OF assms] kept_after_length split: option.split)

lemma limiter_run_length:
  assumes "limiter_run limit window l log t" "0 \<le> limit"
  shows "int (length (attempts_of b l)) \<le> limit"
  using assms
proof (induction arbitrary: b rule: limiter_run.induct)
  case (new t)
  then show ?case by (simp add: attempts_of_def newLoginLimiter_def)
next
  case (granted l log t now key l' r a)
  have inv: "limiter_inv limit window l log t" by (rule limiter_run_inv [OF granted.hyps(1)])
  then have d: "distinct (map fst (l_attempts l))" "l_limit l = limit" by (simp_all add: limiter_inv_def)
  have le: "int (length (attempts_of b (prune l c now))) \<le> limit" for b c
    using granted.IH [of b] granted.prems prune_length [OF d(1), of b c now] by linarith
  show ?case
    using granted.hyps(3) le by (cases rule: Allow_cases) (auto simp: attempts_of_def d(2) split: if_splits)
next
  case (refused l log t now key l' r a)
  have inv: "limiter_inv limit window l log t" by (rule limiter_run_inv [OF refused.hyps(1)])
  then have d: "distinct (map fst (l_attempts l))" by (simp add: limiter_inv_def)
  have le: "int (length (attempts_of b (prune l c now))) \<le> limit" for b c
    using refused.IH [of b] refused.prems prune_length [OF d, of b c now] by linarith
  have kept: "int (length (kept_after c (attempts_of b (prune l c now)))) \<le> limit" for b c
    using le [of b c] kept_after_length [of c "attempts_of b (prune l c now)"] by linarith
  show ?case
    using refused.hyps(3) le kept by (cases rule: Allow_cases) (auto simp: attempts_of_def split: if_splits)
next
  case (reset l log t key)
  then show ?case using reset.IH [of b] by (auto simp: Reset_def attempts_of_def)
qed

subsection \<open>The guarantees\<close>


text \<open>A concrete run: a limit of one attempt per minute, one attempt by one client.\<close>

definition one_attempt :: loginLimiter where
  "one_attempt = (newLoginLimiter 1 minute)\<lparr>l_nextSweep := second + minute, l_attempts := [(''ip'', [second])]\<rparr>"

lemma one_attempt_run: "limiter_run 1 minute one_attempt [(''ip'', second)] second"
  using limiter_run.granted [OF limiter_run.new [of 1 minute 0], of second "''ip''" one_attempt 0 0]
  by (simp add: Allow_def Let_def newLoginLimiter_def prune_def bucketKey_def attempts_of_def kept_after_def
      overflowLoginLimiterKey_def defaultLoginLimiterMaxKeys_def one_attempt_def second_def minute_def)


text \<open>
  C19: with a positive limit \<^verbatim>\<open>Allow\<close> never panics, keeps at most \<^verbatim>\<open>defaultLoginLimiterMaxKeys\<close> buckets
  whatever keys clients send, and returns consistent headers: after a grant between 0 and
  \<open>limit - 1\<close> attempts remain, after a refusal the client is told to wait for at least a second.
\<close>

theorem Allow_total:
  assumes "limiter_run limit window l log t" "0 < limit" "t \<le> now"
  shows "\<exists>l' ok r a. Allow l key now = Some (l', ok, r, a) \<and>
    int (length (l_attempts l')) \<le> defaultLoginLimiterMaxKeys \<and>
    (if ok then 0 \<le> r \<and> r < limit \<and> a = 0 else r = 0 \<and> 1 \<le> a)"
proof -
  have inv: "limiter_inv limit window l log t" by (rule limiter_run_inv [OF assms(1)])
  then have lw: "l_window l = window" "l_limit l = limit" by (simp_all add: limiter_inv_def)
  obtain l' ok r a where al: "Allow l key now = Some (l', ok, r, a)"
  proof (cases "Allow l key now")
    case None
    then show ?thesis using assms(2) by (auto simp: Allow_def Let_def lw split: list.splits if_splits)
  qed (use that in auto)
  have "limiter_run limit window l' (if ok then log @ [(bucketKey (prune l (now - window) now) key, now)] else log) now"
    using limiter_run.granted [OF assms(1,3)] limiter_run.refused [OF assms(1,3)] al by (cases ok) auto
  then have inv': "limiter_inv limit window l' (if ok then log @ [(bucketKey (prune l (now - window) now) key, now)] else log) now"
    by (rule limiter_run_inv)
  then have "length (map fst (l_attempts l')) \<le> own_buckets l' + 1"
    unfolding own_buckets_def limiter_inv_def by (intro distinct_one) blast
  then have "int (length (l_attempts l')) \<le> defaultLoginLimiterMaxKeys"
    using inv' unfolding limiter_inv_def length_map by linarith
  moreover have "if ok then 0 \<le> r \<and> r < limit \<and> a = 0 else r = 0 \<and> 1 \<le> a"
    using al by (cases rule: Allow_cases) (auto simp: lw)
  ultimately show ?thesis using al by blast
qed

theorem Allow_total_witness:
  "\<exists>l' ok r a. Allow one_attempt ''ip'' (second + second) = Some (l', ok, r, a) \<and>
    int (length (l_attempts l')) \<le> defaultLoginLimiterMaxKeys \<and>
    (if ok then 0 \<le> r \<and> r < 1 \<and> a = 0 else r = 0 \<and> 1 \<le> a)"
  by (rule Allow_total [OF one_attempt_run]) (simp_all add: second_def)

text \<open>
  The advertised waiting time is enough.  A client that is refused with \<^verbatim>\<open>Retry-After: a\<close> and comes
  back \<open>a\<close> seconds later, with no other attempt in between, is granted (unless it has been moved to
  another bucket because the table was full).
\<close>

theorem retry_after_suffices:
  assumes "limiter_run limit window l log t" "0 < limit" "t \<le> now" "Allow l key now = Some (l', False, r, a)"
    and "now + a * second \<le> later"
    and "bucketKey (prune l' (later - window) later) key = bucketKey (prune l (now - window) now) key"
  shows "\<exists>l'' r'. Allow l' key later = Some (l'', True, r', 0)"
proof -
  have inv: "limiter_inv limit window l log t" by (rule limiter_run_inv [OF assms(1)])
  then have lw: "l_window l = window" "l_limit l = limit" by (simp_all add: limiter_inv_def)
  have run': "limiter_run limit window l' log now" by (rule limiter_run.refused [OF assms(1,3,4)])
  have inv': "limiter_inv limit window l' log now" by (rule limiter_run_inv [OF run'])
  then have lw': "l_window l' = window" "l_limit l' = limit" by (simp_all add: limiter_inv_def)
  let ?b = "bucketKey (prune l (now - window) now) key"
  obtain o1 os where kept: "attempts_of ?b l' = o1 # os" and a: "a = max 1 (ceil_seconds (o1 + window - now))"
    using assms(4)
  proof (cases rule: Allow_cases)
    case (blocked p b)
    then have "attempts_of ?b l' = kept_after (now - window) (attempts_of b p)" by (simp add: attempts_of_def lw)
    with blocked assms(2) that show ?thesis by (cases "attempts_of ?b l'") (auto simp: lw)
  qed simp
  have "o1 + window - now \<le> ceil_seconds (o1 + window - now) * second"
    using div_mult_mod_eq [of "- (o1 + window - now)" second] pos_mod_bound [of second "- (o1 + window - now)"]
    by (simp add: ceil_seconds_def second_def)
  also have "\<dots> \<le> a * second" by (simp add: a second_def)
  finally have "\<not> later - window < o1" using assms(5) by linarith
  then have "kept_after (later - window) (attempts_of ?b l') = kept_after (later - window) os"
    by (simp add: kept kept_after_def)
  moreover have "int (length (attempts_of ?b l')) \<le> limit"
    using limiter_run_length [OF run'] assms(2) by simp
  ultimately have lt: "int (length (kept_after (later - window) (attempts_of ?b l'))) < limit"
    using kept_after_length [of "later - window" os] by (simp add: kept)
  have "kept_after (later - window) (attempts_of ?b (prune l' (later - window) later))
      = kept_after (later - window) (attempts_of ?b l')"
    using inv' by (intro prune_kept) (simp_all add: limiter_inv_def)
  then show ?thesis using lt by (simp add: Allow_def Let_def lw' assms(6))
qed

theorem retry_after_suffices_witness:
  "\<exists>l'' r'. Allow (one_attempt\<lparr>l_attempts := [(''ip'', [second])]\<rparr>) ''ip'' (61 * second) = Some (l'', True, r', 0)"
  by (rule retry_after_suffices [OF one_attempt_run, where now = "2 * second" and a = 59 and r = 0])
    (simp_all add: Allow_def Let_def prune_def bucketKey_def attempts_of_def kept_after_def ceil_seconds_def
      one_attempt_def newLoginLimiter_def overflowLoginLimiterKey_def defaultLoginLimiterMaxKeys_def second_def
      minute_def)

end
