(* ===== verification/Identifier.thy ===== *)
theory Identifier
  imports Go_Prelude
begin

text \<open>
  \<^verbatim>\<open>internal/platform/identifier/uuid.go\<close> and \<^verbatim>\<open>internal/auth/permissions.go\<close>: version 4 UUIDs
  drawn from a random source, their canonical spelling, and the scope sets of the roles.

  A random source is what \<^verbatim>\<open>io.ReadFull(random, value[:])\<close> returns: \<open>None\<close> when the read fails,
  otherwise the 16 bytes read.
\<close>

unbundle bit_operations_syntax

subsection \<open>UUIDs\<close>

definition hex_digit :: "nat \<Rightarrow> char" where
  "hex_digit n = (if n < 10 then char_of (48 + n) else char_of (87 + n))"

definition hex_byte :: "char \<Rightarrow> string" where
  "hex_byte c = [hex_digit (of_char c div 16), hex_digit (of_char c mod 16)]"

definition hex_encode :: "string \<Rightarrow> string" where
  "hex_encode bs = concat (map hex_byte bs)"

definition slice :: "nat \<Rightarrow> nat \<Rightarrow> 'a list \<Rightarrow> 'a list" where
  "slice i j xs = take (j - i) (drop i xs)"

datatype id_error = ErrGenerateIdentifier

definition NewUUIDFrom :: "string option \<Rightarrow> id_error + string" where
  "NewUUIDFrom random =
     (case random of
        None \<Rightarrow> Inl ErrGenerateIdentifier
      | Some v0 \<Rightarrow>
          (let v1 = v0[6 := char_of (((of_char (v0 ! 6) :: nat) AND 0x0F) OR 0x40)];
               v = v1[8 := char_of (((of_char (v1 ! 8) :: nat) AND 0x3F) OR 0x80)]
           in Inr (hex_encode (slice 0 4 v) @ ''-'' @ hex_encode (slice 4 6 v) @ ''-''
                @ hex_encode (slice 6 8 v) @ ''-'' @ hex_encode (slice 8 10 v) @ ''-''
                @ hex_encode (slice 10 16 v))))"

definition hyphen_index :: "nat \<Rightarrow> bool" where
  "hyphen_index i = (i = 8 \<or> i = 13 \<or> i = 18 \<or> i = 23)"

definition hex_any :: "char \<Rightarrow> bool" where
  "hex_any c =
     (let b = (of_char c :: nat) in
      (48 \<le> b \<and> b \<le> 57) \<or> (97 \<le> b \<and> b \<le> 102) \<or> (65 \<le> b \<and> b \<le> 70))"

definition IsUUID :: "string \<Rightarrow> bool" where
  "IsUUID v =
     (length v = 36 \<and> v ! 8 = CHR ''-'' \<and> v ! 13 = CHR ''-'' \<and> v ! 18 = CHR ''-'' \<and> v ! 23 = CHR ''-''
      \<and> list_all (\<lambda>i. hyphen_index i \<or> hex_any (v ! i)) [0..<36])"

definition NormalizeUUID :: "string \<Rightarrow> string \<times> bool" where
  "NormalizeUUID v = (if \<not> IsUUID v then ([], False) else (ascii_lower v, True))"

subsection \<open>Scopes and principals\<close>

definition "ScopeAssetsRead = ''assets:read''"
definition "ScopeAudioRead = ''audio:read''"
definition "ScopeAssetsWrite = ''assets:write''"
definition "ScopeTranscriptsRead = ''transcripts:read''"
definition "ScopeTranscriptionsWrite = ''transcriptions:write''"
definition "ScopeCorrectionsWrite = ''corrections:write''"
definition "ScopeMetadataWrite = ''metadata:write''"
definition "ScopeAdminRead = ''admin:read''"
definition "ScopeAdminWrite = ''admin:write''"

lemmas scope_defs = ScopeAssetsRead_def ScopeAudioRead_def ScopeAssetsWrite_def
  ScopeTranscriptsRead_def ScopeTranscriptionsWrite_def ScopeCorrectionsWrite_def
  ScopeMetadataWrite_def ScopeAdminRead_def ScopeAdminWrite_def

definition AllScopes :: "string list" where
  "AllScopes =
     [ScopeAdminRead, ScopeAdminWrite, ScopeAssetsRead, ScopeAssetsWrite, ScopeAudioRead,
      ScopeCorrectionsWrite, ScopeMetadataWrite, ScopeTranscriptionsWrite, ScopeTranscriptsRead]"

fun scope_in :: "string list \<Rightarrow> string \<Rightarrow> bool" where
  "scope_in [] scope = False"
| "scope_in (candidate # rest) scope = (candidate = scope \<or> scope_in rest scope)"

definition ValidScope :: "string \<Rightarrow> bool" where
  "ValidScope scope = scope_in AllScopes scope"

definition ScopesForRole :: "string \<Rightarrow> string list" where
  "ScopesForRole role =
     (if role = ''owner'' \<or> role = ''admin'' then AllScopes
      else if role = ''editor'' then
        [ScopeAssetsRead, ScopeAssetsWrite, ScopeAudioRead, ScopeCorrectionsWrite,
         ScopeMetadataWrite, ScopeTranscriptionsWrite, ScopeTranscriptsRead]
      else if role = ''viewer'' \<or> role = ''agent'' then
        [ScopeAssetsRead, ScopeAudioRead, ScopeTranscriptsRead]
      else [])"

record principal =
  p_UserID :: string
  p_WorkspaceID :: string
  p_Role :: string
  p_Email :: string
  p_Scopes :: "string list"
  p_CredentialType :: string
  p_CredentialID :: string

definition Can :: "principal \<Rightarrow> string \<Rightarrow> bool" where
  "Can p scope = scope_in (p_Scopes p) scope"

subsection \<open>Lemmas\<close>

lemma hex_digit_lower: "n < 16 \<Longrightarrow> is_hex_lower (hex_digit n)"
  by (auto simp: hex_digit_def is_hex_lower_def is_digit_def)

lemma hex_lower_any: "is_hex_lower c \<Longrightarrow> hex_any c"
  by (auto simp: is_hex_lower_def is_digit_def hex_any_def)

lemma hex_lower_fixed [simp]: "is_hex_lower c \<Longrightarrow> ascii_lower_char c = c"
  by (auto simp: is_hex_lower_def is_digit_def ascii_lower_char_def is_upper_def)

lemma of_char_less_256: "(of_char c :: nat) < 256"
  by (metis char_of_char mod_less_divisor of_char_of zero_less_numeral)

lemma hex_byte_lower: "list_all is_hex_lower (hex_byte c)"
  using of_char_less_256 [of c]
  by (simp add: hex_byte_def hex_digit_lower less_mult_imp_div_less)

lemma hex_encode_lower: "list_all is_hex_lower (hex_encode bs)"
  by (induction bs) (simp_all add: hex_encode_def hex_byte_lower)

lemma hex_encode_length [simp]: "length (hex_encode bs) = 2 * length bs"
  by (induction bs) (simp_all add: hex_encode_def hex_byte_def)

lemma slice_length [simp]: "j \<le> length xs \<Longrightarrow> length (slice i j xs) = j - i"
  by (simp add: slice_def)

lemma hex_encode_first: "xs \<noteq> [] \<Longrightarrow> hex_encode xs ! 0 = hex_digit (of_char (hd xs) div 16)"
  by (cases xs) (simp_all add: hex_encode_def hex_byte_def)

lemma hd_slice: "i < j \<Longrightarrow> j \<le> length xs \<Longrightarrow> hd (slice i j xs) = xs ! i"
  by (simp add: slice_def hd_drop_conv_nth hd_take)

lemma slice_not_Nil: "i < j \<Longrightarrow> j \<le> length xs \<Longrightarrow> slice i j xs \<noteq> []"
  by (simp add: slice_def)

lemma scope_in_set [simp]: "scope_in xs s \<longleftrightarrow> s \<in> set xs"
  by (induction xs) auto

text \<open>Five hexadecimal groups of 8, 4, 4, 4 and 12 digits make a UUID.\<close>

lemma hyphen_not_hex: "\<not> is_hex_lower CHR ''-''" "\<not> is_upper CHR ''-''"
  by (simp_all add: is_hex_lower_def is_digit_def is_upper_def)

lemma uuid_groups:
  assumes len: "length a = 8" "length b = 4" "length c = 4" "length d = 4" "length e = 12"
    and hex: "list_all is_hex_lower (a @ b @ c @ d @ e)"
  defines "u \<equiv> a @ ''-'' @ b @ ''-'' @ c @ ''-'' @ d @ ''-'' @ e"
  shows "IsUUID u" and "ascii_lower u = u"
proof -
  have "hyphen_index i \<or> hex_any (u ! i)" if "i < 36" for i
  proof (cases "hyphen_index i")
    case False
    then have "u ! i \<in> set (a @ b @ c @ d @ e)"
      using that len unfolding u_def hyphen_index_def by (auto simp: nth_append nth_Cons')
    with hex show ?thesis by (auto simp: list_all_iff hex_lower_any)
  qed simp
  moreover have "length u = 36" "u ! 8 = CHR ''-''" "u ! 13 = CHR ''-''"
    "u ! 18 = CHR ''-''" "u ! 23 = CHR ''-''"
    using len by (simp_all add: u_def nth_append)
  ultimately show "IsUUID u" by (simp add: IsUUID_def list_all_iff)
  have "ascii_lower_char x = x" if "x \<in> set u" for x
  proof -
    have "x = CHR ''-'' \<or> is_hex_lower x"
      using that hex unfolding u_def by (auto simp: list_all_iff)
    then show ?thesis
      using hex_lower_fixed [of x] by (auto simp: ascii_lower_char_def hyphen_not_hex)
  qed
  then show "ascii_lower u = u"
    by (simp add: ascii_lower_def map_idI)
qed

lemma IsUUID_length: "IsUUID v \<Longrightarrow> length v = 36"
  by (simp add: IsUUID_def)

lemma version_nibble: "((x::nat) AND 0x0F) OR 0x40 = x mod 16 + 64"
proof -
  have "list_all (\<lambda>y::nat. y OR 0x40 = y + 64) [0..<16]" by code_simp
  moreover have "x AND 0x0F = x mod 16"
    using take_bit_eq_mask [of 4 x] by (simp add: take_bit_eq_mod mask_eq_exp_minus_1)
  ultimately show ?thesis by (simp add: list_all_iff)
qed

lemma variant_bits: "((x::nat) AND 0x3F) OR 0x80 = x mod 64 + 128"
proof -
  have "list_all (\<lambda>y::nat. y OR 0x80 = y + 128) [0..<64]" by code_simp
  moreover have "x AND 0x3F = x mod 64"
    using take_bit_eq_mask [of 6 x] by (simp add: take_bit_eq_mod mask_eq_exp_minus_1)
  ultimately show ?thesis by (simp add: list_all_iff)
qed

lemma version_digit: "hex_digit ((x mod 16 + 64) div 16) = CHR ''4''"
proof -
  have "list_all (\<lambda>y::nat. hex_digit ((y + 64) div 16) = CHR ''4'') [0..<16]" by code_simp
  then show ?thesis by (auto simp: list_all_iff)
qed

lemma variant_digit:
  "hex_digit ((x mod 64 + 128) div 16) \<in> {CHR ''8'', CHR ''9'', CHR ''a'', CHR ''b''}"
proof -
  have "list_all (\<lambda>y::nat. hex_digit ((y + 128) div 16) \<in> {CHR ''8'', CHR ''9'', CHR ''a'', CHR ''b''})
     [0..<64]" by code_simp
  then show ?thesis by (auto simp: list_all_iff)
qed

text \<open>
  Every identifier the generator returns, from any 16 random bytes, is a UUID in its canonical
  lowercase spelling (so it survives \<^verbatim>\<open>NormalizeUUID\<close> unchanged), with the version nibble 4 and
  a variant nibble of 8, 9, a or b.
\<close>

theorem NewUUIDFrom_canonical:
  assumes "length v = 16"
  shows "\<exists>u. NewUUIDFrom (Some v) = Inr u \<and> NormalizeUUID u = (u, True) \<and> u ! 14 = CHR ''4''
    \<and> u ! 19 \<in> {CHR ''8'', CHR ''9'', CHR ''a'', CHR ''b''}"
proof -
  define v1 where "v1 = v[6 := char_of ((of_char (v ! 6) :: nat) mod 16 + 64)]"
  define w where "w = v1[8 := char_of ((of_char (v1 ! 8) :: nat) mod 64 + 128)]"
  define u where "u = hex_encode (slice 0 4 w) @ ''-'' @ hex_encode (slice 4 6 w) @ ''-''
    @ hex_encode (slice 6 8 w) @ ''-'' @ hex_encode (slice 8 10 w) @ ''-'' @ hex_encode (slice 10 16 w)"
  have len: "length w = 16" using assms by (simp add: w_def v1_def)
  have "NewUUIDFrom (Some v) = Inr u"
    by (simp add: NewUUIDFrom_def version_nibble variant_bits u_def w_def v1_def Let_def)
  moreover have "IsUUID u" "ascii_lower u = u"
    unfolding u_def by (rule uuid_groups; simp add: len hex_encode_lower)+
  moreover have "u ! 14 = hex_digit (of_char (w ! 6) div 16)"
    "u ! 19 = hex_digit (of_char (w ! 8) div 16)"
    using len by (simp_all add: u_def nth_append nth_Cons' hex_encode_first [simplified] hd_slice
        slice_not_Nil)
  moreover have "w ! 6 = char_of ((of_char (v ! 6) :: nat) mod 16 + 64)"
    "w ! 8 = char_of ((of_char (v ! 8) :: nat) mod 64 + 128)"
    using assms by (simp_all add: w_def v1_def)
  ultimately show ?thesis
    using variant_digit [of "of_char (v ! 8)"] version_digit [of "of_char (v ! 6)"]
    by (simp add: NormalizeUUID_def)
qed

theorem NewUUIDFrom_canonical_witness:
  "\<exists>u. NewUUIDFrom (Some (replicate 16 CHR ''z'')) = Inr u \<and> NormalizeUUID u = (u, True)
    \<and> u ! 14 = CHR ''4'' \<and> u ! 19 \<in> {CHR ''8'', CHR ''9'', CHR ''a'', CHR ''b''}"
  by (rule NewUUIDFrom_canonical) simp

end
