(* ===== verification/Go_Json.thy ===== *)
theory Go_Json
  imports Identifier
begin

text \<open>
  What the server uses of \<^verbatim>\<open>encoding/json\<close>, \<^verbatim>\<open>encoding/base64\<close> and of the JSON form of \<^verbatim>\<open>time.Time\<close>.

  \<^item> \<open>json_parse\<close> accepts exactly the RFC 8259 grammar and decodes strings the way
    \<^verbatim>\<open>encoding/json\<close> does (a lone surrogate becomes U+FFFD); the caller has checked that the input is
    valid UTF-8, so bytes above 0x7F are copied.  Numbers stay literals.  The fuel of the mutual
    recursion is twice the length of the input plus two; \<open>parse_value_fuel\<close> shows that more fuel never
    changes the result, so running out of fuel never decides one.
  \<^item> \<open>json_encode\<close> is \<^verbatim>\<open>json.Marshal\<close> with its default HTML escaping.
  \<^item> A struct field matches a key up to the folding of \<^verbatim>\<open>encoding/json\<close> (\<open>key_is\<close>).
\<close>

unbundle bit_operations_syntax

datatype json =
    JNull
  | JBool bool
  | JNum string
  | JStr string
  | JArr "json list"
  | JObj "(string \<times> json) list"

subsection \<open>Runes and hexadecimal\<close>

definition utf8_encode :: "rune \<Rightarrow> string" where
  "utf8_encode r =
     (if r < 0x80 then [char_of r]
      else if r < 0x800 then [char_of (0xC0 + r div 64), char_of (0x80 + r mod 64)]
      else if r < 0x10000 then
        [char_of (0xE0 + r div 4096), char_of (0x80 + r div 64 mod 64), char_of (0x80 + r mod 64)]
      else
        [char_of (0xF0 + r div 262144), char_of (0x80 + r div 4096 mod 64),
         char_of (0x80 + r div 64 mod 64), char_of (0x80 + r mod 64)])"

definition hex_value :: "char \<Rightarrow> nat option" where
  "hex_value c =
     (let b = (of_char c :: nat) in
      if 48 \<le> b \<and> b \<le> 57 then Some (b - 48)
      else if 97 \<le> b \<and> b \<le> 102 then Some (b - 87)
      else if 65 \<le> b \<and> b \<le> 70 then Some (b - 55)
      else None)"

text \<open>The four digits of a \<^verbatim>\<open>\uXXXX\<close> escape.\<close>

definition hex4 :: "string \<Rightarrow> nat option" where
  "hex4 s =
     (case s of
        a # b # c # d # _ \<Rightarrow>
          (case (hex_value a, hex_value b, hex_value c, hex_value d) of
             (Some w, Some x, Some y, Some z) \<Rightarrow> Some (w * 4096 + x * 256 + y * 16 + z)
           | _ \<Rightarrow> None)
      | _ \<Rightarrow> None)"

subsection \<open>Parsing\<close>

definition json_space :: "char \<Rightarrow> bool" where
  "json_space c = (c = CHR '' '' \<or> c = CHR 0x09 \<or> c = CHR 0x0A \<or> c = CHR 0x0D)"

definition skip_ws :: "string \<Rightarrow> string" where
  "skip_ws = dropWhile json_space"

text \<open>The rest of the input after an expected byte.\<close>

definition expect :: "char \<Rightarrow> string \<Rightarrow> string option" where
  "expect c s = (case s of [] \<Rightarrow> None | x # r \<Rightarrow> if x = c then Some r else None)"

definition simple_escape :: "char \<Rightarrow> char option" where
  "simple_escape e =
     (if e = CHR 0x22 \<or> e = CHR 0x5C \<or> e = CHR ''/'' then Some e
      else if e = CHR ''b'' then Some (CHR 0x08)
      else if e = CHR ''f'' then Some (CHR 0x0C)
      else if e = CHR ''n'' then Some (CHR 0x0A)
      else if e = CHR ''r'' then Some (CHR 0x0D)
      else if e = CHR ''t'' then Some (CHR 0x09)
      else None)"

definition is_surrogate :: "nat \<Rightarrow> bool" where
  "is_surrogate r = (0xD800 \<le> r \<and> r < 0xE000)"

text \<open>
  The rune of an escape with value \<open>r\<close> followed by \<open>s\<close>, and how many bytes of \<open>s\<close> belong to it: the
  second half of a surrogate pair, or none.
\<close>

definition escape_rune :: "nat \<Rightarrow> string \<Rightarrow> rune \<times> nat" where
  "escape_rune r s =
     (if \<not> is_surrogate r then (r, 0)
      else case Option.bind (Option.bind (expect CHR 0x5C s) (expect CHR ''u'')) hex4 of
        Some r2 \<Rightarrow>
          if r < 0xDC00 \<and> 0xDC00 \<le> r2 \<and> r2 < 0xE000
          then ((r - 0xD800) * 1024 + (r2 - 0xDC00) + 0x10000, 6)
          else (rune_error, 0)
      | None \<Rightarrow> (rune_error, 0))"

text \<open>A string after its opening quote: its value and what follows the closing quote.\<close>

fun parse_str :: "string \<Rightarrow> (string \<times> string) option" where
  "parse_str [] = None"
| "parse_str (c # s) =
     (if c = CHR 0x22 then Some ([], s)
      else if c = CHR 0x5C then
        (case s of
           [] \<Rightarrow> None
         | e # s' \<Rightarrow>
           (case simple_escape e of
              Some x \<Rightarrow> map_option (map_prod (Cons x) id) (parse_str s')
            | None \<Rightarrow>
              if e = CHR ''u'' then
                (case hex4 s' of
                   None \<Rightarrow> None
                 | Some r \<Rightarrow>
                   (case escape_rune r (drop 4 s') of
                      (rn, k) \<Rightarrow> map_option (map_prod (append (utf8_encode rn)) id) (parse_str (drop (4 + k) s'))))
              else None))
      else if (of_char c :: nat) < 0x20 then None
      else map_option (map_prod (Cons c) id) (parse_str s))"

definition digits_of :: "string \<Rightarrow> string \<times> string" where
  "digits_of s = (takeWhile is_digit s, dropWhile is_digit s)"

text \<open>A number literal and what follows it.\<close>

definition parse_int_part :: "string \<Rightarrow> (string \<times> string) option" where
  "parse_int_part s =
     (case s of
        [] \<Rightarrow> None
      | c # r \<Rightarrow>
        if c = CHR ''0'' then Some ([c], r)
        else if is_digit c then Some (digits_of s)
        else None)"

definition parse_frac_part :: "string \<Rightarrow> (string \<times> string) option" where
  "parse_frac_part s =
     (case expect CHR ''.'' s of
        Some r \<Rightarrow>
          (case digits_of r of (ds, r') \<Rightarrow> if ds = [] then None else Some (CHR ''.'' # ds, r'))
      | None \<Rightarrow> Some ([], s))"

definition parse_exp_part :: "string \<Rightarrow> (string \<times> string) option" where
  "parse_exp_part s =
     (case s of
        c # r \<Rightarrow>
          if c = CHR ''e'' \<or> c = CHR ''E'' then
            (let (sign, r1) = (case r of x # r' \<Rightarrow> if x = CHR ''+'' \<or> x = CHR ''-'' then ([x], r') else ([], r) | [] \<Rightarrow> ([], r))
             in case digits_of r1 of (ds, r2) \<Rightarrow> if ds = [] then None else Some (c # sign @ ds, r2))
          else Some ([], s)
      | [] \<Rightarrow> Some ([], s))"

definition parse_num :: "string \<Rightarrow> (string \<times> string) option" where
  "parse_num s =
     (let (sign, s1) = (case expect CHR ''-'' s of Some r \<Rightarrow> (''-'', r) | None \<Rightarrow> ([], s)) in
      case parse_int_part s1 of
        None \<Rightarrow> None
      | Some (i, s2) \<Rightarrow>
      case parse_frac_part s2 of
        None \<Rightarrow> None
      | Some (f, s3) \<Rightarrow>
      case parse_exp_part s3 of
        None \<Rightarrow> None
      | Some (e, s4) \<Rightarrow> Some (sign @ i @ f @ e, s4))"

definition parse_word :: "string \<Rightarrow> json \<Rightarrow> string \<Rightarrow> (json \<times> string) option" where
  "parse_word w v s = (if take (length w) s = w then Some (v, drop (length w) s) else None)"

fun parse_value :: "nat \<Rightarrow> string \<Rightarrow> (json \<times> string) option"
  and parse_members :: "nat \<Rightarrow> string \<Rightarrow> ((string \<times> json) list \<times> string) option"
  and parse_elements :: "nat \<Rightarrow> string \<Rightarrow> (json list \<times> string) option" where
  "parse_value 0 s = None"
| "parse_value (Suc n) s =
     (case skip_ws s of
        [] \<Rightarrow> None
      | c # r \<Rightarrow>
        if c = CHR ''{'' then
          (case expect CHR ''}'' (skip_ws r) of
             Some r' \<Rightarrow> Some (JObj [], r')
           | None \<Rightarrow> map_option (map_prod JObj id) (parse_members n r))
        else if c = CHR ''['' then
          (case expect CHR '']'' (skip_ws r) of
             Some r' \<Rightarrow> Some (JArr [], r')
           | None \<Rightarrow> map_option (map_prod JArr id) (parse_elements n r))
        else if c = CHR 0x22 then map_option (map_prod JStr id) (parse_str r)
        else if c = CHR ''t'' then parse_word ''true'' (JBool True) (c # r)
        else if c = CHR ''f'' then parse_word ''false'' (JBool False) (c # r)
        else if c = CHR ''n'' then parse_word ''null'' JNull (c # r)
        else map_option (map_prod JNum id) (parse_num (c # r)))"
| "parse_members 0 s = None"
| "parse_members (Suc n) s =
     (case expect CHR 0x22 (skip_ws s) of
        None \<Rightarrow> None
      | Some r \<Rightarrow>
        (case parse_str r of
           None \<Rightarrow> None
         | Some (k, r1) \<Rightarrow>
           (case expect CHR '':'' (skip_ws r1) of
              None \<Rightarrow> None
            | Some r2 \<Rightarrow>
              (case parse_value n r2 of
                 None \<Rightarrow> None
               | Some (v, r3) \<Rightarrow>
                 (case expect CHR '','' (skip_ws r3) of
                    Some r4 \<Rightarrow> map_option (map_prod (Cons (k, v)) id) (parse_members n r4)
                  | None \<Rightarrow>
                    (case expect CHR ''}'' (skip_ws r3) of
                       Some r4 \<Rightarrow> Some ([(k, v)], r4)
                     | None \<Rightarrow> None))))))"
| "parse_elements 0 s = None"
| "parse_elements (Suc n) s =
     (case parse_value n s of
        None \<Rightarrow> None
      | Some (v, r) \<Rightarrow>
        (case expect CHR '','' (skip_ws r) of
           Some r' \<Rightarrow> map_option (map_prod (Cons v) id) (parse_elements n r')
         | None \<Rightarrow>
           (case expect CHR '']'' (skip_ws r) of
              Some r' \<Rightarrow> Some ([v], r')
            | None \<Rightarrow> None)))"

definition json_parse :: "string \<Rightarrow> json option" where
  "json_parse data =
     (case parse_value (2 * length data + 2) data of
        Some (v, r) \<Rightarrow> if skip_ws r = [] then Some v else None
      | None \<Rightarrow> None)"

definition json_valid :: "string \<Rightarrow> bool" where
  "json_valid data = (json_parse data \<noteq> None)"

text \<open>No object of the value has the same key twice.\<close>

fun unique_keys :: "json \<Rightarrow> bool"
  and unique_in :: "json list \<Rightarrow> bool"
  and unique_members :: "(string \<times> json) list \<Rightarrow> bool" where
  "unique_keys (JArr vs) = unique_in vs"
| "unique_keys (JObj ms) = (distinct (map fst ms) \<and> unique_members ms)"
| "unique_keys _ = True"
| "unique_in [] = True"
| "unique_in (v # vs) = (unique_keys v \<and> unique_in vs)"
| "unique_members [] = True"
| "unique_members ((k, v) # ms) = (unique_keys v \<and> unique_members ms)"

subsection \<open>Decoding into struct fields\<close>

text \<open>
  The folding of \<^verbatim>\<open>encoding/json\<close> maps every rune to the smallest rune of its simple-fold orbit; on the
  orbits that contain an ASCII letter that is the upper-case letter (U+017F folds with S and U+212A
  with K).
\<close>

definition fold_rune :: "rune \<Rightarrow> rune" where
  "fold_rune r =
     (if 97 \<le> r \<and> r \<le> 122 then r - 32 else if r = 0x17F then 83 else if r = 0x212A then 75 else r)"

definition fold_key :: "string \<Rightarrow> rune list" where
  "fold_key key = map fold_rune (runes key)"

definition key_is :: "string \<Rightarrow> string \<Rightarrow> bool" where
  "key_is name key = (fold_key key = fold_key name)"

text \<open>\<^verbatim>\<open>strconv.ParseInt(literal, 10, 64)\<close> on a JSON number.\<close>

definition digits_value :: "string \<Rightarrow> int" where
  "digits_value ds = fold (\<lambda>c acc. acc * 10 + int (of_char c - 48)) ds 0"

definition parse_int64 :: "string \<Rightarrow> int option" where
  "parse_int64 lit =
     (let neg = (take 1 lit = ''-''); ds = (if neg then drop 1 lit else lit);
          v = (if neg then - digits_value ds else digits_value ds)
      in if ds \<noteq> [] \<and> list_all is_digit ds \<and> min_i64 \<le> v \<and> v \<le> max_i64 then Some v else None)"

text \<open>A value stored into a field that holds \<open>cur\<close>: \<^verbatim>\<open>null\<close> leaves it, a wrong type is an error.\<close>

definition decode_str :: "json \<Rightarrow> string \<Rightarrow> string option" where
  "decode_str v cur = (case v of JStr x \<Rightarrow> Some x | JNull \<Rightarrow> Some cur | _ \<Rightarrow> None)"

definition decode_int :: "json \<Rightarrow> int \<Rightarrow> int option" where
  "decode_int v cur = (case v of JNum lit \<Rightarrow> parse_int64 lit | JNull \<Rightarrow> Some cur | _ \<Rightarrow> None)"

fun decode_fields :: "(string \<Rightarrow> json \<Rightarrow> 'e \<Rightarrow> 'e option) \<Rightarrow> (string \<times> json) list \<Rightarrow> 'e \<Rightarrow> 'e option" where
  "decode_fields f [] e = Some e"
| "decode_fields f ((k, v) # ms) e =
     (case f k v e of None \<Rightarrow> None | Some e' \<Rightarrow> decode_fields f ms e')"

definition decode_object :: "(string \<Rightarrow> json \<Rightarrow> 'e \<Rightarrow> 'e option) \<Rightarrow> json \<Rightarrow> 'e \<Rightarrow> 'e option" where
  "decode_object f v e = (case v of JObj ms \<Rightarrow> decode_fields f ms e | JNull \<Rightarrow> Some e | _ \<Rightarrow> None)"

subsection \<open>Encoding\<close>

fun show_nat_rev :: "nat \<Rightarrow> string" where
  "show_nat_rev n = char_of (48 + n mod 10) # (if n < 10 then [] else show_nat_rev (n div 10))"

declare show_nat_rev.simps [simp del]

definition show_nat :: "nat \<Rightarrow> string" where
  "show_nat n = rev (show_nat_rev n)"

definition show_int :: "int \<Rightarrow> string" where
  "show_int n = (if n < 0 then ''-'' @ show_nat (nat (- n)) else show_nat (nat n))"

definition escape_u :: "nat \<Rightarrow> string" where
  "escape_u r = [CHR 0x5C, CHR ''u'', hex_digit (r div 4096 mod 16), hex_digit (r div 256 mod 16),
     hex_digit (r div 16 mod 16), hex_digit (r mod 16)]"

definition encode_rune :: "rune \<times> string \<Rightarrow> string" where
  "encode_rune c =
     (case c of (r, bs) \<Rightarrow>
        if r = rune_error \<and> length bs = 1 then escape_u rune_error
        else if r = 0x22 \<or> r = 0x5C then [CHR 0x5C, char_of r]
        else if r = 0x08 then [CHR 0x5C, CHR ''b'']
        else if r = 0x0C then [CHR 0x5C, CHR ''f'']
        else if r = 0x0A then [CHR 0x5C, CHR ''n'']
        else if r = 0x0D then [CHR 0x5C, CHR ''r'']
        else if r = 0x09 then [CHR 0x5C, CHR ''t'']
        else if r < 0x20 \<or> r = 0x3C \<or> r = 0x3E \<or> r = 0x26 \<or> r = 0x2028 \<or> r = 0x2029 then escape_u r
        else bs)"

definition encode_str :: "string \<Rightarrow> string" where
  "encode_str s = [CHR 0x22] @ concat (map encode_rune (chunks s)) @ [CHR 0x22]"

fun join :: "string \<Rightarrow> string list \<Rightarrow> string" where
  "join sep [] = []"
| "join sep [x] = x"
| "join sep (x # xs) = x @ sep @ join sep xs"

fun json_encode :: "json \<Rightarrow> string"
  and encode_elements :: "json list \<Rightarrow> string list"
  and encode_members :: "(string \<times> json) list \<Rightarrow> string list" where
  "json_encode JNull = ''null''"
| "json_encode (JBool b) = (if b then ''true'' else ''false'')"
| "json_encode (JNum lit) = lit"
| "json_encode (JStr s) = encode_str s"
| "json_encode (JArr vs) = ''['' @ join '','' (encode_elements vs) @ '']''"
| "json_encode (JObj ms) = ''{'' @ join '','' (encode_members ms) @ ''}''"
| "encode_elements [] = []"
| "encode_elements (v # vs) = json_encode v # encode_elements vs"
| "encode_members [] = []"
| "encode_members ((k, v) # ms) = (encode_str k @ '':'' @ json_encode v) # encode_members ms"

subsection \<open>The JSON form of a time\<close>

text \<open>Year, month and day of a day number, counted from January 1 of year 1 (proleptic Gregorian).\<close>

definition leap_year :: "int \<Rightarrow> bool" where
  "leap_year y = (y mod 4 = 0 \<and> (y mod 100 \<noteq> 0 \<or> y mod 400 = 0))"

definition year_day :: "int \<Rightarrow> int \<times> int" where
  "year_day d =
     (let n400 = d div 146097; d1 = d mod 146097;
          n100 = min 3 (d1 div 36524); d2 = d1 - n100 * 36524;
          n4 = d2 div 1461; d3 = d2 mod 1461;
          n1 = min 3 (d3 div 365)
      in (1 + 400 * n400 + 100 * n100 + 4 * n4 + n1, d3 - n1 * 365))"

fun month_day :: "int list \<Rightarrow> int \<Rightarrow> int \<Rightarrow> int \<times> int" where
  "month_day [] m d = (m, d + 1)"
| "month_day (n # ns) m d = (if d < n \<or> ns = [] then (m, d + 1) else month_day ns (m + 1) (d - n))"

definition month_lengths :: "int \<Rightarrow> int list" where
  "month_lengths y = [31, if leap_year y then 29 else 28, 31, 30, 31, 30, 31, 31, 30, 31, 30, 31]"

definition pad :: "nat \<Rightarrow> int \<Rightarrow> string" where
  "pad w n = (let ds = show_nat (nat n) in replicate (w - length ds) (CHR ''0'') @ ds)"

definition rfc3339_nano :: "go_time \<Rightarrow> string" where
  "rfc3339_nano t =
     (let days = t div (24 * hour); ns = t mod (24 * hour);
          (y, yd) = year_day days; (m, d) = month_day (month_lengths y) 1 yd;
          frac = rev (dropWhile (\<lambda>c. c = CHR ''0'') (rev (pad 9 (ns mod second))))
      in pad 4 y @ ''-'' @ pad 2 m @ ''-'' @ pad 2 d @ ''T'' @ pad 2 (ns div hour) @ '':''
         @ pad 2 (ns div minute mod 60) @ '':'' @ pad 2 (ns div second mod 60)
         @ (if frac = [] then [] else ''.'' @ frac) @ ''Z'')"

text \<open>\<^verbatim>\<open>Time.MarshalJSON\<close> refuses a year outside 0 to 9999.\<close>

definition time_json :: "go_time \<Rightarrow> json option" where
  "time_json t =
     (let y = fst (year_day (t div (24 * hour))) in
      if 0 \<le> y \<and> y \<le> 9999 then Some (JStr (rfc3339_nano t)) else None)"

subsection \<open>Base64\<close>

definition b64_value :: "char \<Rightarrow> nat option" where
  "b64_value c =
     (let b = (of_char c :: nat) in
      if 65 \<le> b \<and> b \<le> 90 then Some (b - 65)
      else if 97 \<le> b \<and> b \<le> 122 then Some (b - 71)
      else if 48 \<le> b \<and> b \<le> 57 then Some (b + 4)
      else if b = 43 then Some 62
      else if b = 47 then Some 63
      else None)"

text \<open>
  The quanta of \<^verbatim>\<open>base64.StdEncoding.Strict()\<close>: four digits, or a last quantum padded with \<^verbatim>\<open>=\<close> whose
  unused bits must be zero.
\<close>

fun b64_quanta :: "string \<Rightarrow> string option" where
  "b64_quanta [] = Some []"
| "b64_quanta (a # b # c # d # rest) =
     (case (b64_value a, b64_value b) of
        (Some w, Some x) \<Rightarrow>
          (if c = CHR ''='' then
             (if d = CHR ''='' \<and> rest = [] \<and> x mod 16 = 0 then Some [char_of (w * 4 + x div 16)] else None)
           else case b64_value c of
             None \<Rightarrow> None
           | Some y \<Rightarrow>
             if d = CHR ''='' then
               (if rest = [] \<and> y mod 4 = 0
                then Some [char_of (w * 4 + x div 16), char_of (x mod 16 * 16 + y div 4)] else None)
             else case b64_value d of
               None \<Rightarrow> None
             | Some z \<Rightarrow>
               map_option (append [char_of (w * 4 + x div 16), char_of (x mod 16 * 16 + y div 4),
                                   char_of (y mod 4 * 64 + z)]) (b64_quanta rest))
      | _ \<Rightarrow> None)"
| "b64_quanta _ = None"

text \<open>The decoder ignores line breaks wherever they are.\<close>

definition base64_decode :: "string \<Rightarrow> string option" where
  "base64_decode s = b64_quanta (filter (\<lambda>c. c \<noteq> CHR 0x0A \<and> c \<noteq> CHR 0x0D) s)"

subsection \<open>Base64 is a bijection up to line breaks\<close>

definition b64_char :: "nat \<Rightarrow> char" where
  "b64_char n = char_of (if n < 26 then n + 65 else if n < 52 then n + 71 else if n < 62 then n - 4
     else if n = 62 then 43 else 47)"

fun b64_encode :: "string \<Rightarrow> string" where
  "b64_encode [] = []"
| "b64_encode [a] = (let i = (of_char a :: nat) in [b64_char (i div 4), b64_char (i mod 4 * 16), CHR ''='', CHR ''=''])"
| "b64_encode [a, b] = (let i = (of_char a :: nat); j = (of_char b :: nat) in
     [b64_char (i div 4), b64_char (i mod 4 * 16 + j div 16), b64_char (j mod 16 * 4), CHR ''=''])"
| "b64_encode (a # b # c # rest) =
     (let i = (of_char a :: nat); j = (of_char b :: nat); k = (of_char c :: nat) in
      [b64_char (i div 4), b64_char (i mod 4 * 16 + j div 16), b64_char (j mod 16 * 4 + k div 64), b64_char (k mod 64)]
      @ b64_encode rest)"

lemma b64_value_Some:
  assumes "b64_value c = Some n"
  shows "n < 64" "c = b64_char n"
proof -
  show "n < 64" using assms by (auto simp: b64_value_def Let_def split: if_splits)
  have "(of_char c :: nat) = of_char (b64_char n)"
    using assms of_char_bound [of c] by (auto simp: b64_value_def b64_char_def Let_def of_char_of split: if_splits)
  then show "c = b64_char n" by simp
qed

lemma b64_value_char: "n < 64 \<Longrightarrow> b64_value (b64_char n) = Some n"
  by (auto simp: b64_value_def b64_char_def Let_def of_char_of)

lemma b64_char_not_pad: "n < 64 \<Longrightarrow> b64_char n \<noteq> CHR ''=''"
proof
  assume "n < 64" "b64_char n = CHR ''=''"
  then have "b64_value (CHR ''='') = Some n" using b64_value_char by metis
  then show False by (simp add: b64_value_def)
qed

lemma b64_parts:
  "(of_char a :: nat) div 4 < 64" "(of_char a :: nat) mod 4 * 16 + of_char b div 16 < 64"
  "(of_char b :: nat) mod 16 * 4 + of_char c div 64 < 64"
proof -
  have b: "(of_char a :: nat) < 256" "(of_char b :: nat) < 256" "(of_char c :: nat) < 256"
    by (rule of_char_bound)+
  have "(of_char b :: nat) div 16 < 16" "(of_char c :: nat) div 64 < 4" "(of_char a :: nat) mod 4 < 4"
    "(of_char b :: nat) mod 16 < 16"
    using b by (linarith, linarith, simp_all)
  then show "(of_char a :: nat) mod 4 * 16 + of_char b div 16 < 64"
    "(of_char b :: nat) mod 16 * 4 + of_char c div 64 < 64" by linarith+
  show "(of_char a :: nat) div 4 < 64" using b by linarith
qed

lemma b64_small:
  "(of_char b :: nat) div 16 div 16 = 0" "(of_char b :: nat) div 16 mod 16 = of_char b div 16"
  "(of_char b :: nat) div 64 div 4 = 0" "(of_char b :: nat) div 64 mod 4 = of_char b div 64"
proof -
  have "(of_char b :: nat) div 16 < 16" "(of_char b :: nat) div 64 < 4" using of_char_bound [of b] by linarith+
  then show "(of_char b :: nat) div 16 div 16 = 0" "(of_char b :: nat) div 16 mod 16 = of_char b div 16"
    "(of_char b :: nat) div 64 div 4 = 0" "(of_char b :: nat) div 64 mod 4 = of_char b div 64"
    by simp_all
qed

lemma b64_quanta_encode: "b64_quanta (b64_encode b) = Some b"
proof (induction b rule: b64_encode.induct)
  case (2 a)
  then show ?case using b64_parts(1) [of a] by (simp add: Let_def b64_value_char)
next
  case (3 a b)
  show ?case
    using b64_parts(1) [of a] b64_parts(2) [of a b] of_char_bound [of b] by (simp add: Let_def b64_value_char b64_char_not_pad b64_small)
next
  case (4 a b c rest)
  then show ?case
    using b64_parts(1) [of a] b64_parts(2) [of a b] b64_parts(3) [of b c] of_char_bound [of b] of_char_bound [of c]
    by (simp add: Let_def b64_value_char b64_char_not_pad b64_small)
qed simp

lemma b64_encode_quanta: "b64_quanta s = Some b \<Longrightarrow> b64_encode b = s"
proof (induction s arbitrary: b rule: b64_quanta.induct)
  case (2 a b' c d rest)
  obtain w x where v: "b64_value a = Some w" "b64_value b' = Some x"
    using "2.prems" by (auto split: option.splits)
  note wx = b64_value_Some [OF v(1)] b64_value_Some [OF v(2)]
  show ?case
  proof (cases "c = CHR ''=''")
    case True
    with "2.prems" v wx show ?thesis by (auto simp: Let_def of_char_of mod_0_imp_dvd split: if_splits)
  next
    case False
    then obtain y where y: "b64_value c = Some y"
      using "2.prems" v by (auto split: option.splits)
    note yy = b64_value_Some [OF y]
    show ?thesis
    proof (cases "d = CHR ''=''")
      case True
      with "2.prems" v y wx yy False show ?thesis by (auto simp: Let_def of_char_of split: if_splits)
    next
      case d: False
      then obtain z where z: "b64_value d = Some z"
        using "2.prems" v y False by (auto split: option.splits)
      note zz = b64_value_Some [OF z]
      obtain r where r: "b64_quanta rest = Some r"
        using "2.prems" v y z False d by auto
      have "b64_encode r = rest" using "2.IH" v y z False d r by auto
      then show ?thesis
        using "2.prems" v y z r wx yy zz False d by (auto simp: Let_def of_char_of)
    qed
  qed
qed (simp_all)

lemma base64_decode_iff:
  "base64_decode s = Some b \<longleftrightarrow> filter (\<lambda>c. c \<noteq> CHR 0x0A \<and> c \<noteq> CHR 0x0D) s = b64_encode b"
  unfolding base64_decode_def by (auto simp: b64_quanta_encode dest: b64_encode_quanta)

subsection \<open>The parser consumes its input, and its fuel is enough\<close>

lemma skip_ws_length: "length (skip_ws s) \<le> length s"
  by (simp add: skip_ws_def length_dropWhile_le)

lemma expect_length: "expect c s = Some r \<Longrightarrow> length s = Suc (length r)"
  by (auto simp: expect_def split: list.splits if_splits)

lemma expect_ws_length: "expect c (skip_ws s) = Some r \<Longrightarrow> length r < length s"
  using expect_length [of c "skip_ws s" r] skip_ws_length [of s] by simp

lemma parse_str_length: "parse_str s = Some (v, r) \<Longrightarrow> length r < length s"
proof (induction s arbitrary: v r rule: parse_str.induct)
  case (2 c s)
  then show ?case by (fastforce split: if_splits list.splits option.splits prod.splits)
qed simp

lemma digits_of_length: "digits_of s = (d, r) \<Longrightarrow> length r \<le> length s"
  by (auto simp: digits_of_def length_dropWhile_le)

lemma parse_num_length:
  assumes "parse_num s = Some (v, r)"
  shows "length r < length s"
proof -
  have i: "length b < length a" if "parse_int_part a = Some (i, b)" for a i b
    using that digits_of_length [of a] length_dropWhile_le [of is_digit]
    by (auto simp: parse_int_part_def digits_of_def less_Suc_eq_le split: list.splits if_splits)
  have f: "length b \<le> length a" if "parse_frac_part a = Some (i, b)" for a i b
    using that by (auto simp: parse_frac_part_def split: option.splits if_splits prod.splits
        dest!: digits_of_length expect_length)
  have e: "length b \<le> length a" if "parse_exp_part a = Some (i, b)" for a i b
    using that by (auto simp: parse_exp_part_def Let_def split: list.splits if_splits prod.splits dest!: digits_of_length)
  obtain sg s1 where sg: "(case expect CHR ''-'' s of Some r \<Rightarrow> (''-'', r) | None \<Rightarrow> ([], s)) = (sg, s1)"
    by (rule prod.exhaust)
  then have "length s1 \<le> length s" by (auto split: option.splits dest: expect_length)
  moreover obtain i s2 fr s3 ex where "parse_int_part s1 = Some (i, s2)"
    "parse_frac_part s2 = Some (fr, s3)" "parse_exp_part s3 = Some (ex, r)"
    using assms unfolding parse_num_def sg Let_def by (auto split: option.splits)
  ultimately show ?thesis using i f e by (meson le_less_trans less_le_trans)
qed

lemma parse_length:
  "parse_value n s = Some (v, r) \<Longrightarrow> length r < length s"
  "parse_members n s = Some (ms, r) \<Longrightarrow> length r < length s"
  "parse_elements n s = Some (vs, r) \<Longrightarrow> length r < length s"
proof (induction n s and n s and n s arbitrary: v r and ms r and vs r
    rule: parse_value_parse_members_parse_elements.induct)
  case (2 n s)
  obtain c r0 where s: "skip_ws s = c # r0" using "2.prems" by (auto split: list.splits)
  then have le: "length r0 < length s" using skip_ws_length [of s] by simp
  have "length r \<le> length r0"
    using "2.prems" "2.IH"[OF s] s
    by (fastforce simp: parse_word_def split: if_splits option.splits prod.splits
        dest: expect_ws_length parse_str_length parse_num_length)
  with le show ?case by simp
next
  case (4 n s)
  then show ?case
    by (fastforce split: option.splits prod.splits dest!: expect_ws_length parse_str_length)
next
  case (6 n s)
  then show ?case
    by (fastforce split: option.splits prod.splits dest!: expect_ws_length)
qed simp_all

lemma parse_fuel:
  "(\<forall>m s. 2 * length s < n \<longrightarrow> 2 * length s < m \<longrightarrow> parse_value n s = parse_value m s) \<and>
   (\<forall>m s. 2 * length s + 1 < n \<longrightarrow> 2 * length s + 1 < m \<longrightarrow> parse_members n s = parse_members m s) \<and>
   (\<forall>m s. 2 * length s + 1 < n \<longrightarrow> 2 * length s + 1 < m \<longrightarrow> parse_elements n s = parse_elements m s)"
proof (induction n)
  case (Suc n)
  have v: "parse_value n s = parse_value m s" if "2 * length s < n" "2 * length s < m" for m s
    using Suc that by blast
  have ms: "parse_members n s = parse_members m s" if "2 * length s + 1 < n" "2 * length s + 1 < m" for m s
    using Suc that by blast
  have es: "parse_elements n s = parse_elements m s" if "2 * length s + 1 < n" "2 * length s + 1 < m" for m s
    using Suc that by blast
  show ?case
  proof (intro conjI allI impI)
    fix m and s :: string assume a: "2 * length s < Suc n" "2 * length s < m"
    then obtain m' where m: "m = Suc m'" by (cases m) auto
    have "parse_members n r = parse_members m' r" "parse_elements n r = parse_elements m' r" if "skip_ws s = c # r" for c r
      using that a skip_ws_length [of s] by (intro ms es; simp add: m)+
    then show "parse_value (Suc n) s = parse_value m s"
      by (simp add: m split: list.split option.split)
  next
    fix m and s :: string assume a: "2 * length s + 1 < Suc n" "2 * length s + 1 < m"
    then obtain m' where m: "m = Suc m'" by (cases m) auto
    have "parse_value n r = parse_value m' r" "parse_members n r = parse_members m' r" if "length r < length s" for r
      using that a by (intro v ms; simp add: m)+
    note step = this
    show "parse_members (Suc n) s = parse_members m s"
    proof (cases "expect CHR 0x22 (skip_ws s)")
      case None
      then show ?thesis by (simp add: m)
    next
      case (Some r)
      note r = expect_ws_length [OF Some]
      show ?thesis
      proof (cases "parse_str r")
        case None
        then show ?thesis by (simp add: m Some)
      next
        case (Some p)
        obtain k r1 where p: "p = (k, r1)" by (cases p)
        note r1 = parse_str_length [OF Some [unfolded p]]
        have "parse_value n r2 = parse_value m' r2" if "expect CHR '':'' (skip_ws r1) = Some r2" for r2
          using expect_ws_length [OF that] r r1 by (intro step) simp
        moreover have "parse_members n r4 = parse_members m' r4"
          if "expect CHR '':'' (skip_ws r1) = Some r2" "parse_value m' r2 = Some (w, r3)"
            "expect CHR '','' (skip_ws r3) = Some r4" for r2 w r3 r4
          using expect_ws_length [OF that(1)] parse_length(1) [OF that(2)] expect_ws_length [OF that(3)] r r1
          by (intro step) simp
        ultimately show ?thesis
          by (auto simp: m \<open>expect CHR 0x22 (skip_ws s) = Some r\<close> Some p split: option.split prod.split)
      qed
    qed
  next
    fix m and s :: string assume a: "2 * length s + 1 < Suc n" "2 * length s + 1 < m"
    then obtain m' where m: "m = Suc m'" by (cases m) auto
    have "parse_value n s = parse_value m' s" using a by (intro v) (simp_all add: m)
    moreover have "parse_elements n r' = parse_elements m' r'"
      if "parse_value m' s = Some (w, r)" "expect CHR '','' (skip_ws r) = Some r'" for w r r'
      using parse_length(1) [OF that(1)] expect_ws_length [OF that(2)] a by (intro es) (simp_all add: m)
    ultimately show "parse_elements (Suc n) s = parse_elements m s"
      by (auto simp: m split: option.split prod.split)
  qed
qed simp

lemma json_parse_fuel:
  assumes "2 * length data < n"
  shows "json_parse data = (case parse_value n data of
      Some (v, r) \<Rightarrow> if skip_ws r = [] then Some v else None | None \<Rightarrow> None)"
proof -
  have "2 * length data < 2 * length data + 2" by simp
  with assms parse_fuel [of n] have "parse_value n data = parse_value (2 * length data + 2) data" by blast
  then show ?thesis by (simp only: json_parse_def)
qed

subsection \<open>Parsing printed text\<close>

text \<open>Bytes that stand for themselves in a JSON string.\<close>

definition plain :: "char \<Rightarrow> bool" where
  "plain c = (32 \<le> (of_char c :: nat) \<and> (of_char c :: nat) < 128 \<and> c \<noteq> CHR 0x22 \<and> c \<noteq> CHR 0x5C)"

lemma parse_str_plain: "list_all plain s \<Longrightarrow> parse_str (s @ CHR 0x22 # r) = Some (s, r)"
  by (induction s) (auto simp: plain_def)

lemma ascii_chunks: "list_all (\<lambda>c. (of_char c :: nat) < 128) s \<Longrightarrow> chunks s = map (\<lambda>c. (of_char c, [c])) s"
  by (induction s) (auto simp: decode_rune_def byte_at_def)

lemma ascii_valid: "list_all (\<lambda>c. (of_char c :: nat) < 128) s \<Longrightarrow> utf8_valid s"
  by (auto simp: utf8_valid_def ascii_chunks list_all_iff rune_error_def)

lemma ascii_pg_text: "list_all (\<lambda>c. (of_char c :: nat) < 128 \<and> (of_char c :: nat) \<noteq> 0) s \<Longrightarrow> pg_text s"
  using ascii_chunks [of s] ascii_valid [of s] by (auto simp: pg_text_def runes_def list_all_iff)

text \<open>A text column whose length in characters is bounded.\<close>

definition text_between :: "nat \<Rightarrow> nat \<Rightarrow> string \<Rightarrow> bool" where
  "text_between lo hi v \<longleftrightarrow> pg_text v \<and> lo \<le> length (runes v) \<and> length (runes v) \<le> hi"

lemma text_between_ascii:
  assumes "list_all (\<lambda>c. (of_char c :: nat) < 128 \<and> (of_char c :: nat) \<noteq> 0) v" "lo \<le> length v" "length v \<le> hi"
  shows "text_between lo hi v"
proof -
  have "list_all (\<lambda>c. (of_char c :: nat) < 128) v" using assms(1) by (simp add: list_all_iff)
  then show ?thesis using ascii_pg_text [OF assms(1)] ascii_chunks [of v] assms(2,3) by (simp add: text_between_def runes_def)
qed

lemma show_nat_step: "show_nat n = (if n < 10 then [] else show_nat (n div 10)) @ [char_of (48 + n mod 10)]"
  by (simp add: show_nat_def show_nat_rev.simps [of n])

lemma digit_char: "n < 10 \<Longrightarrow> is_digit (char_of (48 + n))" "n < 10 \<Longrightarrow> (of_char (char_of (48 + n)) :: nat) = 48 + n"
  by (simp_all add: is_digit_def of_char_of)

lemma show_nat_digits: "list_all is_digit (show_nat n) \<and> show_nat n \<noteq> []"
proof (induction n rule: less_induct)
  case (less n)
  then show ?case by (subst (1 2) show_nat_step) (auto simp: digit_char)
qed

lemma digits_value_snoc: "digits_value (ds @ [c]) = digits_value ds * 10 + int (of_char c - 48)"
  by (simp add: digits_value_def)

lemma digits_value_show: "digits_value (show_nat n) = int n"
proof (induction n rule: less_induct)
  case (less n)
  have "digits_value (show_nat n) = (if n < 10 then 0 else int (n div 10)) * 10 + int (n mod 10)"
    using less [of "n div 10"] by (subst show_nat_step) (auto simp: digits_value_snoc digit_char digits_value_def)
  then show ?case by (cases "n < 10") (simp_all, presburger)
qed

lemma show_nat_first: "0 < n \<Longrightarrow> hd (show_nat n) \<noteq> CHR ''0''"
proof (induction n rule: less_induct)
  case (less n)
  show ?case
  proof (cases "n < 10")
    case True
    have "(of_char (char_of (48 + n) :: char) :: nat) \<noteq> of_char (CHR ''0'')" using True less.prems by (simp add: digit_char)
    then have "(char_of (48 + n) :: char) \<noteq> CHR ''0''" by metis
    then show ?thesis using True by (subst show_nat_step) auto
  next
    case False
    then show ?thesis using less.IH [of "n div 10"] show_nat_digits [of "n div 10"] by (subst show_nat_step) auto
  qed
qed

definition ends_number :: "string \<Rightarrow> bool" where
  "ends_number r = (case r of [] \<Rightarrow> True | c # _ \<Rightarrow> \<not> is_digit c \<and> c \<notin> {CHR ''.'', CHR ''e'', CHR ''E''})"

lemma parse_num_show:
  assumes "0 \<le> v" "ends_number r"
  shows "parse_num (show_int v @ r) = Some (show_int v, r)"
proof -
  let ?d = "show_nat (nat v)"
  have d: "list_all is_digit ?d" "?d \<noteq> []" using show_nat_digits by auto
  then obtain c ds where c: "?d = c # ds" by (cases ?d) auto
  have c0: "c \<noteq> CHR ''-''" using d c by (auto simp: is_digit_def)
  have "dropWhile is_digit r = r" "takeWhile is_digit r = []" using assms(2) by (auto simp: ends_number_def split: list.splits)
  then have t: "takeWhile is_digit (?d @ r) = ?d" "dropWhile is_digit (?d @ r) = r"
    using d by (auto simp: list_all_iff)
  have "c = CHR ''0'' \<longrightarrow> ds = []"
    using show_nat_first [of "nat v"] c show_nat_step [of 0] by (cases "nat v = 0") auto
  then have "parse_int_part (?d @ r) = Some (?d, r)"
    using c d t by (auto simp: parse_int_part_def digits_of_def)
  moreover have "parse_frac_part r = Some ([], r)" "parse_exp_part r = Some ([], r)"
    using assms(2) by (auto simp: parse_frac_part_def parse_exp_part_def expect_def ends_number_def split: list.splits)
  moreover have "expect CHR ''-'' (?d @ r) = None" using c c0 by (simp add: expect_def)
  ultimately show ?thesis using assms(1) by (simp add: parse_num_def show_int_def)
qed

lemma parse_int64_show:
  assumes "0 \<le> v" "v \<le> max_i64"
  shows "parse_int64 (show_int v) = Some v"
proof -
  have "take 1 (show_nat (nat v)) \<noteq> ''-''"
    using show_nat_digits [of "nat v"] by (cases "show_nat (nat v)") (auto simp: is_digit_def)
  then show ?thesis
    using assms show_nat_digits [of "nat v"]
    by (simp add: parse_int64_def Let_def show_int_def digits_value_show min_i64_def)
qed

end
