(* ===== verification/Rt_Protocol.thy ===== *)
theory Rt_Protocol
  imports Go_Json
begin

text \<open>
  \<^verbatim>\<open>internal/realtime/protocol.go\<close>: the events of the realtime protocol, their validation and their
  JSON form.  Every failure of \<^verbatim>\<open>DecodeClientEvent\<close> is the error \<^verbatim>\<open>ErrInvalidEvent\<close>, so its stages
  (duplicate keys, envelope, strict decoding, validation) are options here.

  \<^verbatim>\<open>rejectDuplicateJSONKeys\<close> walks the token stream and the two later passes parse the same bytes
  again; all three accept only valid JSON, so the bytes are parsed once into a value
  (\<open>json_parse\<close>) and the passes work on it.
\<close>

definition ProtocolVersion :: string where "ProtocolVersion = ''1''"
definition EncodingPCMS16LE :: string where "EncodingPCMS16LE = ''pcm_s16le''"
definition MaxFrameBytes :: int where "MaxFrameBytes = 64 * 1024"
definition MaxClientMessageBytes :: int where "MaxClientMessageBytes = 96 * 1024"
definition MaxServerMessageBytes :: int where "MaxServerMessageBytes = 320 * 1024"
definition MaxTranscriptBytes :: int where "MaxTranscriptBytes = 256 * 1024"

definition EventStart :: string where "EventStart = ''start''"
definition EventResume :: string where "EventResume = ''resume''"
definition EventAudio :: string where "EventAudio = ''audio''"
definition EventFinish :: string where "EventFinish = ''finish''"
definition EventHeartbeat :: string where "EventHeartbeat = ''heartbeat''"

lemmas event_names = EventStart_def EventResume_def EventAudio_def EventFinish_def EventHeartbeat_def

text \<open>The sentinel errors of the package, and wrapped errors of other packages.\<close>

datatype rt_error =
    ErrInvalidEvent
  | ErrStateConflict | ErrSessionMismatch | ErrSequenceGap | ErrFrameSize | ErrSessionExpired
  | ErrFinalSequence
  | ErrForbidden | ErrNotFound | ErrIdempotencyConflict | ErrVersionConflict
  | ErrStreamAttached | ErrStreamUnavailable | ErrStaleStreamLease
  | ErrRealtimeTransport | ErrProviderStream
  | ErrOther string

subsection \<open>Events\<close>

record StartEvent =
  se_Type :: string
  se_ProtocolVersion :: string
  se_ClientSessionID :: string
  se_IdempotencyKey :: string
  se_Encoding :: string
  se_SampleRateHz :: int
  se_Channels :: int
  se_FrameDurationMS :: int
  se_Language :: string
  se_ProviderProfileID :: string
  se_HotwordSetID :: string

record ResumeEvent =
  re_Type :: string
  re_ProtocolVersion :: string
  re_SessionID :: string
  re_LastAcknowledgedSequence :: int

record AudioEvent =
  ae_Type :: string
  ae_SessionID :: string
  ae_Sequence :: int
  ae_CapturedAtMS :: int
  ae_PCMBase64 :: string

record FinishEvent =
  fe_Type :: string
  fe_SessionID :: string
  fe_FinalSequence :: int
  fe_CapturedDurationMS :: int
  fe_ClientArchiveSHA256 :: string

record HeartbeatEvent =
  he_Type :: string
  he_SessionID :: string
  he_SentAtMS :: int

text \<open>\<^verbatim>\<open>ClientEvent\<close> holds one non-nil pointer, the one its \<^verbatim>\<open>Type\<close> names.\<close>

datatype ClientEvent =
    ClientStart StartEvent
  | ClientResume ResumeEvent
  | ClientAudio AudioEvent
  | ClientFinish FinishEvent
  | ClientHeartbeat HeartbeatEvent

datatype ServerEvent =
    ReadyEvent string int int int go_time
      \<comment> \<open>session, next sequence, max frame bytes, heartbeat interval, expiry\<close>
  | AckEvent string int int
      \<comment> \<open>session, acknowledged sequence, received bytes\<close>
  | HeartbeatAckEvent string go_time
  | PartialTranscriptEvent string int string int
      \<comment> \<open>session, revision, text, final through\<close>
  | FinalTranscriptEvent string string string string
      \<comment> \<open>session, text, language, provider\<close>
  | ErrorEvent string string string bool "int option"
      \<comment> \<open>session, code, message, retriable, expected sequence\<close>
  | ClosedEvent string string
      \<comment> \<open>session, reason\<close>

subsection \<open>Validation\<close>

definition validSampleRate :: "int \<Rightarrow> bool" where
  "validSampleRate v = (v = 8000 \<or> v = 16000 \<or> v = 24000 \<or> v = 48000)"

definition canonicalUUID :: "string \<Rightarrow> bool" where
  "canonicalUUID v = (case NormalizeUUID v of (normalized, ok) \<Rightarrow> ok \<and> normalized = v)"

definition validIdempotencyKey :: "string \<Rightarrow> bool" where
  "validIdempotencyKey v =
     (1 \<le> length v \<and> length v \<le> 200 \<and> utf8_valid v \<and> trim_space v = v
      \<and> list_all (\<lambda>r. \<not> is_control r) (runes v))"

text \<open>The regular expressions of the package.\<close>

definition canonicalSHA256 :: "string \<Rightarrow> bool" where
  "canonicalSHA256 v = (length v = 64 \<and> list_all is_hex_lower v)"

definition languageTagPattern :: "string \<Rightarrow> bool" where
  "languageTagPattern v =
     (case split_on CHR ''-'' v of
        [] \<Rightarrow> False
      | primary # rest \<Rightarrow>
          2 \<le> length primary \<and> length primary \<le> 8 \<and> list_all is_letter primary
          \<and> list_all (\<lambda>sub. 1 \<le> length sub \<and> length sub \<le> 8
                \<and> list_all (\<lambda>c. is_letter c \<or> is_digit c) sub) rest)"

definition StartEvent_validate :: "StartEvent \<Rightarrow> bool" where
  "StartEvent_validate event =
     (se_Type event = EventStart \<and> se_ProtocolVersion event = ProtocolVersion
      \<and> canonicalUUID (se_ClientSessionID event) \<and> validIdempotencyKey (se_IdempotencyKey event)
      \<and> se_Encoding event = EncodingPCMS16LE \<and> se_Channels event = 1
      \<and> 20 \<le> se_FrameDurationMS event \<and> se_FrameDurationMS event \<le> 100
      \<and> validSampleRate (se_SampleRateHz event) \<and> languageTagPattern (se_Language event)
      \<and> (se_ProviderProfileID event \<noteq> [] \<longrightarrow> canonicalUUID (se_ProviderProfileID event))
      \<and> (se_HotwordSetID event \<noteq> [] \<longrightarrow> canonicalUUID (se_HotwordSetID event))
      \<and> quot (se_SampleRateHz event * se_Channels event * 2 * se_FrameDurationMS event) 1000 \<le> MaxFrameBytes)"

definition ResumeEvent_validate :: "ResumeEvent \<Rightarrow> bool" where
  "ResumeEvent_validate event =
     (re_Type event = EventResume \<and> re_ProtocolVersion event = ProtocolVersion
      \<and> canonicalUUID (re_SessionID event) \<and> - 1 \<le> re_LastAcknowledgedSequence event)"

definition PCM :: "AudioEvent \<Rightarrow> rt_error + bytes" where
  "PCM event = (case base64_decode (ae_PCMBase64 event) of None \<Rightarrow> Inl ErrInvalidEvent | Some d \<Rightarrow> Inr d)"

definition AudioEvent_validate :: "AudioEvent \<Rightarrow> bool" where
  "AudioEvent_validate event =
     (ae_Type event = EventAudio \<and> canonicalUUID (ae_SessionID event)
      \<and> 0 \<le> ae_Sequence event \<and> 0 \<le> ae_CapturedAtMS event
      \<and> (case PCM event of
           Inl _ \<Rightarrow> False
         | Inr pcm \<Rightarrow> pcm \<noteq> [] \<and> int (length pcm) \<le> MaxFrameBytes \<and> length pcm mod 2 = 0))"

definition FinishEvent_validate :: "FinishEvent \<Rightarrow> bool" where
  "FinishEvent_validate event =
     (fe_Type event = EventFinish \<and> canonicalUUID (fe_SessionID event)
      \<and> - 1 \<le> fe_FinalSequence event \<and> 0 \<le> fe_CapturedDurationMS event
      \<and> canonicalSHA256 (fe_ClientArchiveSHA256 event))"

definition HeartbeatEvent_validate :: "HeartbeatEvent \<Rightarrow> bool" where
  "HeartbeatEvent_validate event =
     (he_Type event = EventHeartbeat \<and> canonicalUUID (he_SessionID event) \<and> 0 \<le> he_SentAtMS event)"

subsection \<open>Decoding\<close>

definition rejectDuplicateJSONKeys :: "bytes \<Rightarrow> json option" where
  "rejectDuplicateJSONKeys data =
     (case json_parse data of
        None \<Rightarrow> None
      | Some v \<Rightarrow> if unique_keys v then Some v else None)"

definition set_envelope :: "string \<Rightarrow> json \<Rightarrow> string \<Rightarrow> string option" where
  "set_envelope k v typ = (if key_is ''type'' k then decode_str v typ else Some typ)"

text \<open>
  Strict decoding: one field per key, an unknown key is an error.  \<open>store_str\<close> and \<open>store_int\<close> decode
  the value into a field of the event.
\<close>

definition store_str :: "json \<Rightarrow> string \<Rightarrow> (string \<Rightarrow> 'e) \<Rightarrow> 'e option" where
  "store_str v cur upd = map_option upd (decode_str v cur)"

definition store_int :: "json \<Rightarrow> int \<Rightarrow> (int \<Rightarrow> 'e) \<Rightarrow> 'e option" where
  "store_int v cur upd = map_option upd (decode_int v cur)"

definition set_start :: "string \<Rightarrow> json \<Rightarrow> StartEvent \<Rightarrow> StartEvent option" where
  "set_start k v e =
     (if key_is ''type'' k then store_str v (se_Type e) (\<lambda>x. e\<lparr>se_Type := x\<rparr>)
      else if key_is ''protocol_version'' k then store_str v (se_ProtocolVersion e) (\<lambda>x. e\<lparr>se_ProtocolVersion := x\<rparr>)
      else if key_is ''client_session_id'' k then store_str v (se_ClientSessionID e) (\<lambda>x. e\<lparr>se_ClientSessionID := x\<rparr>)
      else if key_is ''idempotency_key'' k then store_str v (se_IdempotencyKey e) (\<lambda>x. e\<lparr>se_IdempotencyKey := x\<rparr>)
      else if key_is ''encoding'' k then store_str v (se_Encoding e) (\<lambda>x. e\<lparr>se_Encoding := x\<rparr>)
      else if key_is ''sample_rate_hz'' k then store_int v (se_SampleRateHz e) (\<lambda>x. e\<lparr>se_SampleRateHz := x\<rparr>)
      else if key_is ''channels'' k then store_int v (se_Channels e) (\<lambda>x. e\<lparr>se_Channels := x\<rparr>)
      else if key_is ''frame_duration_ms'' k then store_int v (se_FrameDurationMS e) (\<lambda>x. e\<lparr>se_FrameDurationMS := x\<rparr>)
      else if key_is ''language'' k then store_str v (se_Language e) (\<lambda>x. e\<lparr>se_Language := x\<rparr>)
      else if key_is ''provider_profile_id'' k then store_str v (se_ProviderProfileID e) (\<lambda>x. e\<lparr>se_ProviderProfileID := x\<rparr>)
      else if key_is ''hotword_set_id'' k then store_str v (se_HotwordSetID e) (\<lambda>x. e\<lparr>se_HotwordSetID := x\<rparr>)
      else None)"

definition set_resume :: "string \<Rightarrow> json \<Rightarrow> ResumeEvent \<Rightarrow> ResumeEvent option" where
  "set_resume k v e =
     (if key_is ''type'' k then store_str v (re_Type e) (\<lambda>x. e\<lparr>re_Type := x\<rparr>)
      else if key_is ''protocol_version'' k then store_str v (re_ProtocolVersion e) (\<lambda>x. e\<lparr>re_ProtocolVersion := x\<rparr>)
      else if key_is ''session_id'' k then store_str v (re_SessionID e) (\<lambda>x. e\<lparr>re_SessionID := x\<rparr>)
      else if key_is ''last_acknowledged_sequence'' k then
        store_int v (re_LastAcknowledgedSequence e) (\<lambda>x. e\<lparr>re_LastAcknowledgedSequence := x\<rparr>)
      else None)"

definition set_audio :: "string \<Rightarrow> json \<Rightarrow> AudioEvent \<Rightarrow> AudioEvent option" where
  "set_audio k v e =
     (if key_is ''type'' k then store_str v (ae_Type e) (\<lambda>x. e\<lparr>ae_Type := x\<rparr>)
      else if key_is ''session_id'' k then store_str v (ae_SessionID e) (\<lambda>x. e\<lparr>ae_SessionID := x\<rparr>)
      else if key_is ''sequence'' k then store_int v (ae_Sequence e) (\<lambda>x. e\<lparr>ae_Sequence := x\<rparr>)
      else if key_is ''captured_at_ms'' k then store_int v (ae_CapturedAtMS e) (\<lambda>x. e\<lparr>ae_CapturedAtMS := x\<rparr>)
      else if key_is ''pcm_base64'' k then store_str v (ae_PCMBase64 e) (\<lambda>x. e\<lparr>ae_PCMBase64 := x\<rparr>)
      else None)"

definition set_finish :: "string \<Rightarrow> json \<Rightarrow> FinishEvent \<Rightarrow> FinishEvent option" where
  "set_finish k v e =
     (if key_is ''type'' k then store_str v (fe_Type e) (\<lambda>x. e\<lparr>fe_Type := x\<rparr>)
      else if key_is ''session_id'' k then store_str v (fe_SessionID e) (\<lambda>x. e\<lparr>fe_SessionID := x\<rparr>)
      else if key_is ''final_sequence'' k then store_int v (fe_FinalSequence e) (\<lambda>x. e\<lparr>fe_FinalSequence := x\<rparr>)
      else if key_is ''captured_duration_ms'' k then
        store_int v (fe_CapturedDurationMS e) (\<lambda>x. e\<lparr>fe_CapturedDurationMS := x\<rparr>)
      else if key_is ''client_archive_sha256'' k then
        store_str v (fe_ClientArchiveSHA256 e) (\<lambda>x. e\<lparr>fe_ClientArchiveSHA256 := x\<rparr>)
      else None)"

definition set_heartbeat :: "string \<Rightarrow> json \<Rightarrow> HeartbeatEvent \<Rightarrow> HeartbeatEvent option" where
  "set_heartbeat k v e =
     (if key_is ''type'' k then store_str v (he_Type e) (\<lambda>x. e\<lparr>he_Type := x\<rparr>)
      else if key_is ''session_id'' k then store_str v (he_SessionID e) (\<lambda>x. e\<lparr>he_SessionID := x\<rparr>)
      else if key_is ''sent_at_ms'' k then store_int v (he_SentAtMS e) (\<lambda>x. e\<lparr>he_SentAtMS := x\<rparr>)
      else None)"

definition zero_start :: StartEvent where
  "zero_start = \<lparr>se_Type = [], se_ProtocolVersion = [], se_ClientSessionID = [], se_IdempotencyKey = [],
     se_Encoding = [], se_SampleRateHz = 0, se_Channels = 0, se_FrameDurationMS = 0, se_Language = [],
     se_ProviderProfileID = [], se_HotwordSetID = []\<rparr>"

definition zero_resume :: ResumeEvent where
  "zero_resume = \<lparr>re_Type = [], re_ProtocolVersion = [], re_SessionID = [], re_LastAcknowledgedSequence = 0\<rparr>"

definition zero_audio :: AudioEvent where
  "zero_audio = \<lparr>ae_Type = [], ae_SessionID = [], ae_Sequence = 0, ae_CapturedAtMS = 0, ae_PCMBase64 = []\<rparr>"

definition zero_finish :: FinishEvent where
  "zero_finish = \<lparr>fe_Type = [], fe_SessionID = [], fe_FinalSequence = 0, fe_CapturedDurationMS = 0,
     fe_ClientArchiveSHA256 = []\<rparr>"

definition zero_heartbeat :: HeartbeatEvent where
  "zero_heartbeat = \<lparr>he_Type = [], he_SessionID = [], he_SentAtMS = 0\<rparr>"

text \<open>\<^verbatim>\<open>decodeStrict\<close> into the zero event, then its \<^verbatim>\<open>validate\<close>.\<close>

definition decodeStrict :: "(string \<Rightarrow> json \<Rightarrow> 'e \<Rightarrow> 'e option) \<Rightarrow> 'e \<Rightarrow> ('e \<Rightarrow> bool) \<Rightarrow> json \<Rightarrow> rt_error + 'e" where
  "decodeStrict setter zero validate v =
     (case decode_object setter v zero of
        None \<Rightarrow> Inl ErrInvalidEvent
      | Some e \<Rightarrow> if validate e then Inr e else Inl ErrInvalidEvent)"

definition DecodeClientEvent :: "bytes \<Rightarrow> rt_error + ClientEvent" where
  "DecodeClientEvent data =
     (if data = [] \<or> int (length data) > MaxClientMessageBytes \<or> \<not> utf8_valid data then Inl ErrInvalidEvent
      else case rejectDuplicateJSONKeys data of
        None \<Rightarrow> Inl ErrInvalidEvent
      | Some v \<Rightarrow>
      case decode_object set_envelope v [] of
        None \<Rightarrow> Inl ErrInvalidEvent
      | Some typ \<Rightarrow>
      if typ = [] then Inl ErrInvalidEvent
      else if typ = EventStart then
        map_sum id ClientStart (decodeStrict set_start zero_start StartEvent_validate v)
      else if typ = EventResume then
        map_sum id ClientResume (decodeStrict set_resume zero_resume ResumeEvent_validate v)
      else if typ = EventAudio then
        map_sum id ClientAudio (decodeStrict set_audio zero_audio AudioEvent_validate v)
      else if typ = EventFinish then
        map_sum id ClientFinish (decodeStrict set_finish zero_finish FinishEvent_validate v)
      else if typ = EventHeartbeat then
        map_sum id ClientHeartbeat (decodeStrict set_heartbeat zero_heartbeat HeartbeatEvent_validate v)
      else Inl ErrInvalidEvent)"

subsection \<open>Encoding\<close>

abbreviation jint :: "int \<Rightarrow> json" where
  "jint n \<equiv> JNum (show_int n)"

fun server_json :: "ServerEvent \<Rightarrow> json option" where
  "server_json (ReadyEvent sid next maxFrame beat expires) =
     map_option (\<lambda>t. JObj [(''type'', JStr ''ready''), (''protocol_version'', JStr ProtocolVersion),
       (''session_id'', JStr sid), (''next_sequence'', jint next), (''max_frame_bytes'', jint maxFrame),
       (''heartbeat_interval_ms'', jint beat), (''expires_at'', t)]) (time_json expires)"
| "server_json (AckEvent sid ack received) =
     Some (JObj [(''type'', JStr ''ack''), (''session_id'', JStr sid),
       (''acknowledged_sequence'', jint ack), (''received_bytes'', jint received)])"
| "server_json (HeartbeatAckEvent sid at) =
     map_option (\<lambda>t. JObj [(''type'', JStr ''heartbeat_ack''), (''session_id'', JStr sid), (''server_at'', t)])
       (time_json at)"
| "server_json (PartialTranscriptEvent sid revision txt through) =
     Some (JObj [(''type'', JStr ''partial_transcript''), (''session_id'', JStr sid), (''revision'', jint revision),
       (''text'', JStr txt), (''final_through_ms'', jint through)])"
| "server_json (FinalTranscriptEvent sid txt lang provider) =
     Some (JObj [(''type'', JStr ''final_transcript''), (''session_id'', JStr sid), (''text'', JStr txt),
       (''language'', JStr lang), (''provider_id'', JStr provider)])"
| "server_json (ErrorEvent sid code msg retriable expected) =
     Some (JObj ([(''type'', JStr ''error'')] @ (if sid = [] then [] else [(''session_id'', JStr sid)])
       @ [(''code'', JStr code), (''message'', JStr msg), (''retriable'', JBool retriable)]
       @ (case expected of None \<Rightarrow> [] | Some n \<Rightarrow> [(''expected_sequence'', jint n)])))"
| "server_json (ClosedEvent sid reason) =
     Some (JObj [(''type'', JStr ''closed''), (''session_id'', JStr sid), (''reason'', JStr reason)])"

definition EncodeServerEvent :: "ServerEvent \<Rightarrow> rt_error + bytes" where
  "EncodeServerEvent event =
     (case server_json event of
        None \<Rightarrow> Inl (ErrOther ''encode realtime server event: %w'')
      | Some v \<Rightarrow>
        (let encoded = json_encode v in
         if int (length encoded) > MaxServerMessageBytes then Inl ErrInvalidEvent else Inr encoded))"

subsection \<open>Accepted events are well formed\<close>

text \<open>The numbers of an event fit the 64-bit integers of the program.\<close>

definition in_i64 :: "int \<Rightarrow> bool" where
  "in_i64 n \<longleftrightarrow> min_i64 \<le> n \<and> n \<le> max_i64"

fun client_event_ok :: "ClientEvent \<Rightarrow> bool" where
  "client_event_ok (ClientStart e) \<longleftrightarrow> StartEvent_validate e"
| "client_event_ok (ClientResume e) \<longleftrightarrow> ResumeEvent_validate e \<and> in_i64 (re_LastAcknowledgedSequence e)"
| "client_event_ok (ClientAudio e) \<longleftrightarrow> AudioEvent_validate e \<and> in_i64 (ae_Sequence e) \<and> in_i64 (ae_CapturedAtMS e)"
| "client_event_ok (ClientFinish e) \<longleftrightarrow>
     FinishEvent_validate e \<and> in_i64 (fe_FinalSequence e) \<and> in_i64 (fe_CapturedDurationMS e)"
| "client_event_ok (ClientHeartbeat e) \<longleftrightarrow> HeartbeatEvent_validate e \<and> in_i64 (he_SentAtMS e)"

lemma decode_fields_inv:
  assumes "decode_fields f ms e = Some e'" "P e" "\<And>k v e e'. f k v e = Some e' \<Longrightarrow> P e \<Longrightarrow> P e'"
  shows "P e'"
  using assms(1,2)
proof (induction ms arbitrary: e)
  case (Cons m ms)
  then show ?case using assms(3) by (cases m) (auto split: option.splits)
qed simp

lemma decode_object_inv:
  assumes "decode_object f v e = Some e'" "P e" "\<And>k v e e'. f k v e = Some e' \<Longrightarrow> P e \<Longrightarrow> P e'"
  shows "P e'"
proof (cases v)
  case (JObj ms)
  then have "decode_fields f ms e = Some e'" using assms(1) by (simp add: decode_object_def)
  then show ?thesis by (rule decode_fields_inv [where P = P, OF _ assms(2,3)])
qed (use assms(1,2) in \<open>auto simp: decode_object_def\<close>)

lemma store_int_SomeD: "store_int v cur upd = Some e \<Longrightarrow> in_i64 cur \<Longrightarrow> \<exists>n. e = upd n \<and> in_i64 n"
  by (auto simp: store_int_def decode_int_def parse_int64_def in_i64_def Let_def split: json.splits if_splits)

lemma store_str_SomeD: "store_str v cur upd = Some e \<Longrightarrow> \<exists>x. e = upd x"
  by (auto simp: store_str_def)

lemmas store_dest = store_int_SomeD store_str_SomeD

lemma in_i64_0 [simp]: "in_i64 0"
  by (simp add: in_i64_def min_i64_def max_i64_def)

lemma decodeStrict_inv:
  assumes "decodeStrict f z val v = Inr e" "P z" "\<And>k v e e'. f k v e = Some e' \<Longrightarrow> P e \<Longrightarrow> P e'"
  shows "val e \<and> P e"
  using assms(1) decode_object_inv [where P = P, OF _ assms(2,3)]
  by (auto simp: decodeStrict_def split: option.splits if_splits)

lemma resume_range: "decodeStrict set_resume zero_resume val v = Inr e \<Longrightarrow> val e \<and> in_i64 (re_LastAcknowledgedSequence e)"
  by (rule decodeStrict_inv) (auto simp: zero_resume_def set_resume_def split: if_splits dest!: store_dest)

lemma audio_range:
  "decodeStrict set_audio zero_audio val v = Inr e \<Longrightarrow> val e \<and> in_i64 (ae_Sequence e) \<and> in_i64 (ae_CapturedAtMS e)"
  by (rule decodeStrict_inv) (auto simp: zero_audio_def set_audio_def split: if_splits dest!: store_dest)

lemma finish_range:
  "decodeStrict set_finish zero_finish val v = Inr e
     \<Longrightarrow> val e \<and> in_i64 (fe_FinalSequence e) \<and> in_i64 (fe_CapturedDurationMS e)"
  by (rule decodeStrict_inv) (auto simp: zero_finish_def set_finish_def split: if_splits dest!: store_dest)

lemma heartbeat_range: "decodeStrict set_heartbeat zero_heartbeat val v = Inr e \<Longrightarrow> val e \<and> in_i64 (he_SentAtMS e)"
  by (rule decodeStrict_inv) (auto simp: zero_heartbeat_def set_heartbeat_def split: if_splits dest!: store_dest)

lemma DecodeClientEvent_ok: "DecodeClientEvent data = Inr ev \<Longrightarrow> client_event_ok ev \<and> int (length data) \<le> MaxClientMessageBytes"
  by (auto simp: DecodeClientEvent_def decodeStrict_def [of set_start] map_sum_def
      dest!: resume_range audio_range finish_range heartbeat_range
      split: if_splits option.splits sum.splits)

subsection \<open>Every well-formed audio event is accepted\<close>

definition quoted :: "string \<Rightarrow> string" where
  "quoted s = CHR 0x22 # s @ [CHR 0x22]"

definition field_text :: "string \<Rightarrow> string \<Rightarrow> string" where
  "field_text k v = quoted k @ '':'' @ v"

text \<open>The message a client sends for a frame.\<close>

definition audio_message :: "string \<Rightarrow> int \<Rightarrow> int \<Rightarrow> bytes \<Rightarrow> bytes" where
  "audio_message sid seq captured pcm =
     ''{'' @ field_text ''type'' (quoted ''audio'') @ '','' @ field_text ''session_id'' (quoted sid) @ '',''
     @ field_text ''sequence'' (show_int seq) @ '','' @ field_text ''captured_at_ms'' (show_int captured) @ '',''
     @ field_text ''pcm_base64'' (quoted (b64_encode pcm)) @ ''}''"

lemma skip_ws_char [simp]: "\<not> json_space c \<Longrightarrow> skip_ws (c # r) = c # r"
  by (simp add: skip_ws_def)

lemma json_space_false [simp]: "\<not> json_space CHR 0x22" "\<not> json_space CHR '':''" "\<not> json_space CHR '',''"
  "\<not> json_space CHR ''{''" "\<not> json_space CHR ''}''"
  by (simp_all add: json_space_def)

lemma expect_simps [simp]: "expect c (x # r) = (if x = c then Some r else None)" "expect c [] = None"
  by (simp_all add: expect_def)

lemma parse_value_quoted: "list_all plain s \<Longrightarrow> parse_value (Suc n) (quoted s @ r) = Some (JStr s, r)"
  by (simp add: quoted_def parse_str_plain)

lemma parse_value_int:
  assumes "0 \<le> v" "ends_number r"
  shows "parse_value (Suc n) (show_int v @ r) = Some (JNum (show_int v), r)"
proof -
  have "show_int v = show_nat (nat v)" using assms(1) by (simp add: show_int_def)
  then obtain c ds where c: "show_int v = c # ds" "is_digit c"
    using show_nat_digits [of "nat v"] by (cases "show_nat (nat v)") auto
  have "\<not> json_space c" using c(2) by (auto simp: is_digit_def json_space_def)
  moreover have "c \<noteq> CHR ''{''" "c \<noteq> CHR ''[''" "c \<noteq> CHR 0x22" "c \<noteq> CHR ''t''" "c \<noteq> CHR ''f''" "c \<noteq> CHR ''n''"
    using c(2) by (auto simp: is_digit_def)
  ultimately show ?thesis using parse_num_show [OF assms] c(1) by simp
qed

lemma parse_members_field:
  assumes "list_all plain k" "parse_value n (v @ '','' @ r) = Some (j, '','' @ r)"
  shows "parse_members (Suc n) (field_text k v @ '','' @ r)
    = map_option (map_prod (Cons (k, j)) id) (parse_members n r)"
  using assms parse_str_plain [OF assms(1), of "CHR '':'' # v @ '','' @ r"]
  by (simp add: field_text_def quoted_def)

lemma parse_members_last:
  assumes "list_all plain k" "parse_value n (v @ ''}'' @ r) = Some (j, ''}'' @ r)"
  shows "parse_members (Suc n) (field_text k v @ ''}'' @ r) = Some ([(k, j)], r)"
  using assms parse_str_plain [OF assms(1), of "CHR '':'' # v @ ''}'' @ r"]
  by (simp add: field_text_def quoted_def)

lemma ends_number_sep [simp]: "ends_number (CHR '','' # r)" "ends_number (CHR ''}'' # r)"
  by (simp_all add: ends_number_def is_digit_def)

lemma members_str:
  "list_all plain k \<Longrightarrow> list_all plain s \<Longrightarrow> parse_members (Suc (Suc n)) (field_text k (quoted s) @ CHR '','' # r)
    = map_option (map_prod (Cons (k, JStr s)) id) (parse_members (Suc n) r)"
  using parse_members_field [OF _ parse_value_quoted, of k s n r] by (simp del: parse_members.simps)

lemma members_last_str:
  "list_all plain k \<Longrightarrow> list_all plain s \<Longrightarrow> parse_members (Suc (Suc n)) (field_text k (quoted s) @ CHR ''}'' # r)
    = Some ([(k, JStr s)], r)"
  using parse_members_last [OF _ parse_value_quoted, of k s n r] by (simp del: parse_members.simps)

lemma members_int:
  "list_all plain k \<Longrightarrow> 0 \<le> v \<Longrightarrow> parse_members (Suc (Suc n)) (field_text k (show_int v) @ CHR '','' # r)
    = map_option (map_prod (Cons (k, JNum (show_int v))) id) (parse_members (Suc n) r)"
  using parse_members_field [OF _ parse_value_int, of k v r n] by (simp del: parse_members.simps)

lemma field_text_start:
  "skip_ws (field_text k v @ r) = field_text k v @ r" "expect CHR ''}'' (field_text k v @ r) = None"
  by (simp_all add: field_text_def quoted_def)

lemma plain_text_eval: "plain (Char b0 b1 b2 b3 b4 b5 b6 b7) \<longleftrightarrow>
   (b5 \<or> b6) \<and> \<not> b7 \<and> Char b0 b1 b2 b3 b4 b5 b6 b7 \<noteq> CHR 0x22 \<and> Char b0 b1 b2 b3 b4 b5 b6 b7 \<noteq> CHR 0x5C"
  by (cases b0; cases b1; cases b2; cases b3; cases b4; cases b5; cases b6; cases b7; simp add: plain_def)

lemma audio_members:
  assumes "list_all plain sid" "list_all plain b" "0 \<le> seq" "0 \<le> captured"
  shows "parse_value (Suc (Suc (Suc (Suc (Suc (Suc (Suc n)))))))
      (''{'' @ field_text ''type'' (quoted ''audio'') @ '','' @ field_text ''session_id'' (quoted sid) @ '',''
     @ field_text ''sequence'' (show_int seq) @ '','' @ field_text ''captured_at_ms'' (show_int captured) @ '',''
     @ field_text ''pcm_base64'' (quoted b) @ ''}'')
    = Some (JObj [(''type'', JStr ''audio''), (''session_id'', JStr sid), (''sequence'', JNum (show_int seq)),
        (''captured_at_ms'', JNum (show_int captured)), (''pcm_base64'', JStr b)], [])"
  using assms
  by (simp del: parse_members.simps add: field_text_start members_str members_last_str members_int plain_text_eval)

lemma hex_any_plain: "hex_any c \<Longrightarrow> plain c"
  by (auto simp: hex_any_def plain_def Let_def)

lemma canonicalUUID_plain: 
  assumes "canonicalUUID v"
  shows "list_all plain v" "length v = 36"
proof -
  have u: "IsUUID v" using assms by (auto simp: canonicalUUID_def NormalizeUUID_def split: if_splits)
  then show l: "length v = 36" by (rule IsUUID_length)
  have "plain (v ! i)" if "i < 36" for i
  proof -
    have "i = 8 \<or> i = 13 \<or> i = 18 \<or> i = 23 \<or> hex_any (v ! i)"
      using u that by (simp add: IsUUID_def list_all_iff hyphen_index_def)
    then show ?thesis using u hex_any_plain by (elim disjE) (simp_all add: IsUUID_def plain_def)
  qed
  then show "list_all plain v" using l by (auto simp: list_all_length)
qed

lemma b64_char_plain: "n < 64 \<Longrightarrow> plain (b64_char n)"
  using b64_value_char [of n] by (auto simp: plain_def b64_value_def Let_def split: if_splits)

lemma b64_encode_plain: "list_all plain (b64_encode b)"
proof (induction b rule: b64_encode.induct)
  case (2 a)
  then show ?case using b64_parts(1) [of a] by (simp add: Let_def b64_char_plain) (simp add: plain_def)
next
  case (3 a b)
  then show ?case using b64_parts(1) [of a] b64_parts(2) [of a b] by (simp add: Let_def b64_char_plain) (simp add: plain_def)
next
  case (4 a b c rest)
  then show ?case
    using b64_parts(1) [of a] b64_parts(2) [of a b] b64_parts(3) [of b c] by (simp add: Let_def b64_char_plain)
qed simp

lemma b64_encode_length: "3 * length (b64_encode b) \<le> 4 * (length b + 2)"
  by (induction b rule: b64_encode.induct) (simp_all add: Let_def)

lemma show_nat_length: "n < 10 ^ k \<Longrightarrow> 0 < k \<Longrightarrow> length (show_nat n) \<le> k"
proof (induction k arbitrary: n)
  case (Suc k)
  then show ?case
    by (cases "n < 10"; cases k) (auto simp: show_nat_step [of n] less_mult_imp_div_less mult.commute)
qed simp

lemma show_int_length: "0 \<le> v \<Longrightarrow> v \<le> max_i64 \<Longrightarrow> length (show_int v) \<le> 19"
  using show_nat_length [of "nat v" 19] by (simp add: show_int_def max_i64_def nat_less_iff)

lemma plain_no_break: "list_all plain s \<Longrightarrow> filter (\<lambda>c. c \<noteq> CHR 0x0A \<and> c \<noteq> CHR 0x0D) s = s"
  by (induction s) (auto simp: plain_def)

lemma base64_decode_encode: "base64_decode (b64_encode pcm) = Some pcm"
  by (simp add: base64_decode_iff plain_no_break b64_encode_plain)

lemma fold_key_ascii: "list_all (\<lambda>c. (of_char c :: nat) < 128) s \<Longrightarrow> fold_key s = map (\<lambda>c. fold_rune (of_char c)) s"
  by (simp add: fold_key_def runes_def ascii_chunks comp_def)

lemma audio_keys [simp]:
  "key_is ''type'' ''type''" "\<not> key_is ''type'' ''session_id''" "\<not> key_is ''type'' ''sequence''"
  "\<not> key_is ''type'' ''captured_at_ms''" "\<not> key_is ''type'' ''pcm_base64''" 
  "key_is ''session_id'' ''session_id''" "\<not> key_is ''session_id'' ''sequence''"
  "\<not> key_is ''session_id'' ''captured_at_ms''" "\<not> key_is ''session_id'' ''pcm_base64''"
  "key_is ''sequence'' ''sequence''" "\<not> key_is ''sequence'' ''captured_at_ms''" "\<not> key_is ''sequence'' ''pcm_base64''"
  "key_is ''captured_at_ms'' ''captured_at_ms''" "\<not> key_is ''captured_at_ms'' ''pcm_base64''"
  "key_is ''pcm_base64'' ''pcm_base64''"
  by (simp_all add: key_is_def fold_key_ascii fold_rune_def)

lemma plain_ascii: "list_all plain s \<Longrightarrow> list_all (\<lambda>c. (of_char c :: nat) < 128) s"
  by (auto simp: list_all_iff plain_def)

lemma digits_plain: "list_all is_digit s \<Longrightarrow> list_all plain s"
  by (auto simp: list_all_iff is_digit_def plain_def)

lemma DecodeClientEvent_audio:
  assumes sid: "canonicalUUID sid" and seq: "0 \<le> seq" "seq \<le> max_i64" and cap: "0 \<le> captured" "captured \<le> max_i64"
    and pcm: "pcm \<noteq> []" "int (length pcm) \<le> MaxFrameBytes" "length pcm mod 2 = 0"
  shows "DecodeClientEvent (audio_message sid seq captured pcm) = Inr (ClientAudio
      \<lparr>ae_Type = ''audio'', ae_SessionID = sid, ae_Sequence = seq, ae_CapturedAtMS = captured,
       ae_PCMBase64 = b64_encode pcm\<rparr>)"
proof -
  let ?m = "audio_message sid seq captured pcm"
  note sidp = canonicalUUID_plain [OF sid]
  have ascii: "list_all (\<lambda>c. (of_char c :: nat) < 128) ?m"
    using plain_ascii [OF sidp(1)] plain_ascii [OF b64_encode_plain [of pcm]] seq(1) cap(1)
      plain_ascii [OF digits_plain [OF conjunct1 [OF show_nat_digits [of "nat seq"]]]]
      plain_ascii [OF digits_plain [OF conjunct1 [OF show_nat_digits [of "nat captured"]]]]
    by (simp add: audio_message_def field_text_def quoted_def show_int_def)
  have "3 * length (b64_encode pcm) \<le> 4 * (65536 + 2)"
    using b64_encode_length [of pcm] pcm(2) by (simp add: MaxFrameBytes_def)
  then have len: "int (length ?m) \<le> MaxClientMessageBytes"
    using show_int_length [OF seq] show_int_length [OF cap] sidp(2)
    by (simp add: audio_message_def field_text_def quoted_def MaxClientMessageBytes_def)
  let ?j = "JObj [(''type'', JStr ''audio''), (''session_id'', JStr sid), (''sequence'', JNum (show_int seq)),
        (''captured_at_ms'', JNum (show_int captured)), (''pcm_base64'', JStr (b64_encode pcm))]"
  have "2 * length ?m < Suc (Suc (Suc (Suc (Suc (Suc (Suc (2 * length ?m)))))))" by simp
  from json_parse_fuel [OF this] have j: "json_parse ?m = Some ?j"
    using audio_members [OF sidp(1) b64_encode_plain seq(1) cap(1), of "2 * length ?m"]
    unfolding audio_message_def [symmetric] by (simp add: skip_ws_def)
  have "AudioEvent_validate \<lparr>ae_Type = ''audio'', ae_SessionID = sid, ae_Sequence = seq,
      ae_CapturedAtMS = captured, ae_PCMBase64 = b64_encode pcm\<rparr>"
    using sid seq cap pcm by (simp add: AudioEvent_validate_def PCM_def EventAudio_def base64_decode_encode)
  then show ?thesis
    using len ascii_valid [OF ascii] parse_int64_show [OF seq] parse_int64_show [OF cap]
    unfolding DecodeClientEvent_def rejectDuplicateJSONKeys_def j
    by (auto simp: audio_message_def decode_object_def set_envelope_def set_audio_def store_str_def store_int_def decode_str_def
        decode_int_def decodeStrict_def zero_audio_def event_names)
qed


subsection \<open>The guarantees of the decoder\<close>

definition sample_uuid :: string where
  "sample_uuid = ''0a1b2c3d-0000-4000-8000-000000000001''"

lemma sample_uuid_canonical: "canonicalUUID sample_uuid"
  by (simp add: canonicalUUID_def NormalizeUUID_def IsUUID_def sample_uuid_def hyphen_index_def hex_any_def
      upt_rec ascii_lower_def ascii_lower_char_def is_upper_def)

lemma sample_audio:
  "DecodeClientEvent (audio_message sample_uuid 7 140 ''abcd'') = Inr (ClientAudio
     \<lparr>ae_Type = ''audio'', ae_SessionID = sample_uuid, ae_Sequence = 7, ae_CapturedAtMS = 140,
      ae_PCMBase64 = b64_encode ''abcd''\<rparr>)"
  by (rule DecodeClientEvent_audio [OF sample_uuid_canonical]) (simp_all add: max_i64_def MaxFrameBytes_def)

text \<open>
  Whatever bytes a client sends, an accepted event satisfies every rule of its type: known
  version and encoding, canonical identifiers, numbers in range and representable in 64 bits, and a
  frame that is non-empty, even and at most 64 KiB; the message itself was at most 96 KiB.
\<close>

theorem DecodeClientEvent_sound:
  assumes "DecodeClientEvent data = Inr ev"
  shows "client_event_ok ev \<and> int (length data) \<le> MaxClientMessageBytes"
  using assms by (rule DecodeClientEvent_ok)

theorem DecodeClientEvent_sound_witness:
  "client_event_ok (ClientAudio \<lparr>ae_Type = ''audio'', ae_SessionID = sample_uuid, ae_Sequence = 7,
      ae_CapturedAtMS = 140, ae_PCMBase64 = b64_encode ''abcd''\<rparr>)"
  using DecodeClientEvent_sound [OF sample_audio] by simp

text \<open>
  The audio of a frame has one encoding.  \<^verbatim>\<open>PCM\<close> returns the bytes \<open>pcm\<close> exactly when the text,
  line breaks aside, is the padded standard base64 of \<open>pcm\<close>; stray bits, missing padding and foreign
  characters are all refused.
\<close>

theorem PCM_canonical:
  "PCM event = Inr pcm \<longleftrightarrow>
   filter (\<lambda>c. c \<noteq> CHR 0x0A \<and> c \<noteq> CHR 0x0D) (ae_PCMBase64 event) = b64_encode pcm"
  unfolding base64_decode_iff [symmetric] by (simp add: PCM_def split: option.split)

text \<open>
  C20: the decoder accepts every frame the protocol allows: the message of a client with a canonical
  session id, non-negative 64-bit sequence and capture time and an even frame of 2 to 65536 bytes
  decodes to exactly that frame.
\<close>

theorem DecodeClientEvent_complete_audio:
  assumes "canonicalUUID sid" "0 \<le> seq" "seq \<le> max_i64" "0 \<le> captured" "captured \<le> max_i64"
    and "pcm \<noteq> []" "int (length pcm) \<le> MaxFrameBytes" "length pcm mod 2 = 0"
  shows "\<exists>e. DecodeClientEvent (audio_message sid seq captured pcm) = Inr (ClientAudio e) \<and>
    ae_SessionID e = sid \<and> ae_Sequence e = seq \<and> ae_CapturedAtMS e = captured \<and> PCM e = Inr pcm"
  using DecodeClientEvent_audio [OF assms]
  by (simp add: PCM_def base64_decode_encode)

theorem DecodeClientEvent_complete_audio_witness:
  "\<exists>e. DecodeClientEvent (audio_message sample_uuid 7 140 ''abcd'') = Inr (ClientAudio e) \<and>
    ae_SessionID e = sample_uuid \<and> ae_Sequence e = 7 \<and> ae_CapturedAtMS e = 140 \<and> PCM e = Inr ''abcd''"
  by (rule DecodeClientEvent_complete_audio [OF sample_uuid_canonical]) (simp_all add: max_i64_def MaxFrameBytes_def)

text \<open>
  The duplicate-key check compares keys byte for byte, while the decoder matches them up to case: a
  message that gives a field twice in different case is accepted, and the last value wins.
\<close>

definition twice_message :: bytes where
  "twice_message = ''{'' @ field_text ''type'' (quoted ''heartbeat'') @ '',''
     @ field_text ''session_id'' (quoted sample_uuid) @ '',''
     @ field_text ''sent_at_ms'' (show_int 1) @ '','' @ field_text ''SENT_AT_MS'' (show_int 2) @ ''}''"

lemma members_last_int:
  "list_all plain k \<Longrightarrow> 0 \<le> v \<Longrightarrow> parse_members (Suc (Suc n)) (field_text k (show_int v) @ CHR ''}'' # r)
    = Some ([(k, JNum (show_int v))], r)"
  using parse_members_last [OF _ parse_value_int, of k v r n] by (simp del: parse_members.simps)

lemma twice_message_accepted:
  "DecodeClientEvent twice_message = Inr (ClientHeartbeat
     \<lparr>he_Type = ''heartbeat'', he_SessionID = sample_uuid, he_SentAtMS = 2\<rparr>)"
proof -
  let ?m = twice_message
  have digits: "show_int 1 = ''1''" "show_int 2 = ''2''"
    by (simp_all add: show_int_def show_nat_step char_of_def bit_iff_odd)
  have ascii: "list_all (\<lambda>c. (of_char c :: nat) < 128) ?m" and len: "length ?m < 200"
    by (simp_all add: twice_message_def field_text_def quoted_def sample_uuid_def digits)
  let ?j = "JObj [(''type'', JStr ''heartbeat''), (''session_id'', JStr sample_uuid), (''sent_at_ms'', jint 1),
        (''SENT_AT_MS'', jint 2)]"
  have "2 * length ?m < Suc (Suc (Suc (Suc (Suc (Suc (2 * length ?m))))))" by simp
  moreover have "parse_value (Suc (Suc (Suc (Suc (Suc (Suc n)))))) ?m = Some (?j, [])" for n
    unfolding twice_message_def
    using canonicalUUID_plain(1) [OF sample_uuid_canonical]
    by (simp del: parse_members.simps add: field_text_start members_str members_last_int members_int plain_text_eval)
  ultimately have j: "json_parse ?m = Some ?j" by (simp only: json_parse_fuel) (simp add: skip_ws_def)
  have n: "parse_int64 (show_int 1) = Some 1" "parse_int64 (show_int 2) = Some 2"
    using parse_int64_show [of 1] parse_int64_show [of 2] by (simp_all add: max_i64_def)
  have k: "\<not> key_is ''type'' ''sent_at_ms''" "\<not> key_is ''type'' ''SENT_AT_MS''" "\<not> key_is ''session_id'' ''sent_at_ms''"
    "\<not> key_is ''session_id'' ''SENT_AT_MS''" "key_is ''sent_at_ms'' ''sent_at_ms''" "key_is ''sent_at_ms'' ''SENT_AT_MS''"
    by (simp_all add: key_is_def fold_key_ascii fold_rune_def)
  have "HeartbeatEvent_validate \<lparr>he_Type = ''heartbeat'', he_SessionID = sample_uuid, he_SentAtMS = 2\<rparr>"
    by (simp add: HeartbeatEvent_validate_def EventHeartbeat_def sample_uuid_canonical)
  then show ?thesis
    using len ascii_valid [OF ascii]
    unfolding DecodeClientEvent_def rejectDuplicateJSONKeys_def j
    by (auto simp: MaxClientMessageBytes_def twice_message_def decode_object_def set_envelope_def set_heartbeat_def
        store_str_def store_int_def decode_str_def decode_int_def decodeStrict_def zero_heartbeat_def event_names n k)
qed

end
