(* ===== verification/Rt_Session.thy ===== *)
theory Rt_Session
  imports Rt_Protocol
begin

text \<open>
  \<^verbatim>\<open>internal/realtime/session.go\<close>: the durable session and its state machine, with
  \<^verbatim>\<open>normalizeProviderResult\<close> of \<^verbatim>\<open>controller.go\<close>, which \<^verbatim>\<open>Complete\<close> calls.  The Go methods have value
  receivers: they return an updated copy, or the unchanged session with an error, which is \<open>Inl\<close>
  here.  Pointers to times are options.

  \<open>session_run n s frames\<close> says that \<open>s\<close> is reached from a new session by \<open>n\<close> transitions that accepted
  the listed frames; \<open>session_inv\<close> is the invariant of all such sessions.
\<close>

definition StateStreaming :: string where "StateStreaming = ''streaming''"
definition StateInterrupted :: string where "StateInterrupted = ''interrupted''"
definition StateFinalizing :: string where "StateFinalizing = ''finalizing''"
definition StateCompleted :: string where "StateCompleted = ''completed''"
definition StateFailed :: string where "StateFailed = ''failed''"
definition StateExpired :: string where "StateExpired = ''expired''"

lemmas state_names = StateStreaming_def StateInterrupted_def StateFinalizing_def StateCompleted_def
  StateFailed_def StateExpired_def

definition DefaultSessionTTL :: duration where "DefaultSessionTTL = 2 * hour"
definition DefaultReconnectWindow :: duration where "DefaultReconnectWindow = 90 * second"

record Session =
  s_ID :: string
  s_WorkspaceID :: string
  s_CreatedBy :: string
  s_ClientSessionID :: string
  s_ProviderProfileID :: string
  s_HotwordSetID :: string
  s_IdempotencyKey :: string
  s_Encoding :: string
  s_SampleRateHz :: int
  s_Channels :: int
  s_FrameDurationMS :: int
  s_Language :: string
  s_State :: string
  s_NextSequence :: int
  s_ReceivedBytes :: int
  s_LastCapturedAtMS :: int
  s_FinalTranscript :: string
  s_FinalLanguage :: string
  s_FinalProviderID :: string
  s_ClientArchiveSHA256 :: string
  s_CapturedDurationMS :: int
  s_LastErrorCode :: string
  s_Version :: int
  s_StartedAt :: go_time
  s_LastFrameAt :: "go_time option"
  s_InterruptedAt :: "go_time option"
  s_ReconnectBy :: "go_time option"
  s_ExpiresAt :: go_time
  s_CompletedAt :: "go_time option"
  s_UpdatedAt :: go_time

record NewSessionParams =
  np_ID :: string
  np_WorkspaceID :: string
  np_CreatedBy :: string
  np_Start :: StartEvent
  np_Now :: go_time
  np_TTL :: duration

datatype FrameDisposition = FrameAccepted | FrameDuplicate

record ProviderResult =
  pr_Text :: string
  pr_Language :: string
  pr_ProviderID :: string

definition providerIDPattern :: "string \<Rightarrow> bool" where
  "providerIDPattern v =
     (case v of
        [] \<Rightarrow> False
      | c # rest \<Rightarrow> (is_lower c \<or> is_digit c) \<and> length rest \<le> 63
          \<and> list_all (\<lambda>x. is_lower x \<or> is_digit x \<or> x = CHR ''_'' \<or> x = CHR ''-'') rest)"

definition normalizeProviderResult :: "ProviderResult \<Rightarrow> ProviderResult \<times> bool" where
  "normalizeProviderResult result0 =
     (let result = \<lparr>pr_Text = trim_space (pr_Text result0), pr_Language = trim_space (pr_Language result0),
                    pr_ProviderID = trim_space (pr_ProviderID result0)\<rparr>
      in (result, pr_Text result \<noteq> [] \<and> int (length (pr_Text result)) \<le> MaxTranscriptBytes
            \<and> utf8_valid (pr_Text result) \<and> languageTagPattern (pr_Language result)
            \<and> providerIDPattern (pr_ProviderID result)))"

definition terminalState :: "string \<Rightarrow> bool" where
  "terminalState state = (state = StateCompleted \<or> state = StateFailed \<or> state = StateExpired)"

definition safeRealtimeErrorCode :: "string \<Rightarrow> bool" where
  "safeRealtimeErrorCode v =
     (v = ''client_closed'' \<or> v = ''internal_error'' \<or> v = ''provider_rejected''
      \<or> v = ''provider_unavailable'' \<or> v = ''stream_timeout'')"

definition AcknowledgedSequence :: "Session \<Rightarrow> int" where
  "AcknowledgedSequence session = i64 (s_NextSequence session - 1)"

definition maximumFrameBytes :: "Session \<Rightarrow> int" where
  "maximumFrameBytes session =
     (let bytes = quot (s_SampleRateHz session * s_Channels session * 2 * s_FrameDurationMS session) 1000
      in if bytes < 1 \<or> bytes > MaxFrameBytes then MaxFrameBytes else bytes)"

subsection \<open>Transitions\<close>

definition NewSession :: "NewSessionParams \<Rightarrow> rt_error + Session" where
  "NewSession params =
     (if \<not> canonicalUUID (np_ID params) \<or> \<not> canonicalUUID (np_WorkspaceID params)
         \<or> \<not> canonicalUUID (np_CreatedBy params) \<or> \<not> StartEvent_validate (np_Start params) then Inl ErrInvalidEvent
      else if is_zero_time (np_Now params) then Inl ErrInvalidEvent
      else
        (let ttl = (if np_TTL params = 0 then DefaultSessionTTL else np_TTL params); start = np_Start params in
         if ttl \<le> 0 \<or> ttl > DefaultSessionTTL then Inl ErrInvalidEvent
         else Inr \<lparr>s_ID = np_ID params, s_WorkspaceID = np_WorkspaceID params, s_CreatedBy = np_CreatedBy params,
                   s_ClientSessionID = se_ClientSessionID start, s_ProviderProfileID = se_ProviderProfileID start,
                   s_HotwordSetID = se_HotwordSetID start, s_IdempotencyKey = se_IdempotencyKey start,
                   s_Encoding = se_Encoding start, s_SampleRateHz = se_SampleRateHz start,
                   s_Channels = se_Channels start, s_FrameDurationMS = se_FrameDurationMS start,
                   s_Language = se_Language start, s_State = StateStreaming, s_NextSequence = 0,
                   s_ReceivedBytes = 0, s_LastCapturedAtMS = 0, s_FinalTranscript = [], s_FinalLanguage = [],
                   s_FinalProviderID = [], s_ClientArchiveSHA256 = [], s_CapturedDurationMS = 0,
                   s_LastErrorCode = [], s_Version = 1, s_StartedAt = np_Now params, s_LastFrameAt = None,
                   s_InterruptedAt = None, s_ReconnectBy = None, s_ExpiresAt = np_Now params + ttl,
                   s_CompletedAt = None, s_UpdatedAt = np_Now params\<rparr>))"

definition ApplyAudio :: "Session \<Rightarrow> AudioEvent \<Rightarrow> go_time \<Rightarrow> rt_error + (Session \<times> FrameDisposition)" where
  "ApplyAudio session event now =
     (if s_State session \<noteq> StateStreaming then Inl ErrStateConflict
      else if \<not> AudioEvent_validate event \<or> is_zero_time now then Inl ErrInvalidEvent
      else if ae_SessionID event \<noteq> s_ID session then Inl ErrSessionMismatch
      else if \<not> now < s_ExpiresAt session then Inl ErrSessionExpired
      else if ae_Sequence event < s_NextSequence session then Inr (session, FrameDuplicate)
      else if ae_Sequence event > s_NextSequence session then Inl ErrSequenceGap
      else if s_NextSequence session > 0 \<and> ae_CapturedAtMS event < s_LastCapturedAtMS session then
        Inl ErrInvalidEvent
      else case PCM event of
        Inl _ \<Rightarrow> Inl ErrFrameSize
      | Inr pcm \<Rightarrow>
        if pcm = [] \<or> length pcm mod 2 \<noteq> 0 \<or> int (length pcm) > maximumFrameBytes session then Inl ErrFrameSize
        else Inr (session\<lparr>s_NextSequence := i64 (s_NextSequence session + 1),
                          s_ReceivedBytes := i64 (s_ReceivedBytes session + int (length pcm)),
                          s_LastCapturedAtMS := ae_CapturedAtMS event,
                          s_LastFrameAt := Some now, s_UpdatedAt := now,
                          s_Version := i64 (s_Version session + 1)\<rparr>, FrameAccepted))"

definition Interrupt :: "Session \<Rightarrow> go_time \<Rightarrow> duration \<Rightarrow> rt_error + Session" where
  "Interrupt session now reconnectWindow0 =
     (if s_State session \<noteq> StateStreaming then Inl ErrStateConflict
      else if is_zero_time now then Inl ErrInvalidEvent
      else
        (let reconnectWindow = (if reconnectWindow0 = 0 then DefaultReconnectWindow else reconnectWindow0) in
         if reconnectWindow \<le> 0 \<or> reconnectWindow > 10 * minute then Inl ErrInvalidEvent
         else if \<not> now < s_ExpiresAt session then Inl ErrSessionExpired
         else
           (let reconnectBy = (if now + reconnectWindow > s_ExpiresAt session then s_ExpiresAt session
                               else now + reconnectWindow)
            in Inr (session\<lparr>s_State := StateInterrupted, s_InterruptedAt := Some now,
                           s_ReconnectBy := Some reconnectBy, s_UpdatedAt := now,
                           s_Version := i64 (s_Version session + 1)\<rparr>))))"

definition Resume :: "Session \<Rightarrow> ResumeEvent \<Rightarrow> go_time \<Rightarrow> rt_error + Session" where
  "Resume session event now =
     (if s_State session \<noteq> StateInterrupted then Inl ErrStateConflict
      else if \<not> ResumeEvent_validate event \<or> is_zero_time now then Inl ErrInvalidEvent
      else if re_SessionID event \<noteq> s_ID session then Inl ErrSessionMismatch
      else if re_LastAcknowledgedSequence event > i64 (s_NextSequence session - 1) then Inl ErrSequenceGap
      else case s_ReconnectBy session of
        None \<Rightarrow> Inl ErrSessionExpired
      | Some reconnectBy \<Rightarrow>
        if now > reconnectBy \<or> \<not> now < s_ExpiresAt session then Inl ErrSessionExpired
        else Inr (session\<lparr>s_State := StateStreaming, s_InterruptedAt := None, s_ReconnectBy := None,
                          s_UpdatedAt := now, s_Version := i64 (s_Version session + 1)\<rparr>))"

definition BeginFinalization :: "Session \<Rightarrow> FinishEvent \<Rightarrow> go_time \<Rightarrow> rt_error + Session" where
  "BeginFinalization session event now =
     (if s_State session \<noteq> StateStreaming \<and> s_State session \<noteq> StateInterrupted then Inl ErrStateConflict
      else if \<not> FinishEvent_validate event \<or> is_zero_time now then Inl ErrInvalidEvent
      else if fe_SessionID event \<noteq> s_ID session then Inl ErrSessionMismatch
      else if fe_FinalSequence event \<noteq> i64 (s_NextSequence session - 1) then Inl ErrFinalSequence
      else if fe_CapturedDurationMS event < s_LastCapturedAtMS session then Inl ErrInvalidEvent
      else if \<not> now < s_ExpiresAt session then Inl ErrSessionExpired
      else Inr (session\<lparr>s_State := StateFinalizing, s_ClientArchiveSHA256 := fe_ClientArchiveSHA256 event,
                        s_CapturedDurationMS := fe_CapturedDurationMS event, s_InterruptedAt := None,
                        s_ReconnectBy := None, s_UpdatedAt := now, s_Version := i64 (s_Version session + 1)\<rparr>))"

definition Complete :: "Session \<Rightarrow> ProviderResult \<Rightarrow> go_time \<Rightarrow> rt_error + Session" where
  "Complete session result0 now =
     (if s_State session \<noteq> StateFinalizing then Inl ErrStateConflict
      else if is_zero_time now then Inl ErrInvalidEvent
      else case normalizeProviderResult result0 of
        (result, valid) \<Rightarrow>
          if \<not> valid then Inl ErrInvalidEvent
          else Inr (session\<lparr>s_State := StateCompleted, s_FinalTranscript := pr_Text result,
                            s_FinalLanguage := pr_Language result, s_FinalProviderID := pr_ProviderID result,
                            s_CompletedAt := Some now, s_UpdatedAt := now,
                            s_Version := i64 (s_Version session + 1)\<rparr>))"

definition Fail :: "Session \<Rightarrow> string \<Rightarrow> rt_error + Session" where
  "Fail session errorCode =
     (if terminalState (s_State session) then Inl ErrStateConflict
      else if \<not> safeRealtimeErrorCode errorCode then Inl ErrInvalidEvent
      else Inr (session\<lparr>s_State := StateFailed, s_LastErrorCode := errorCode, s_InterruptedAt := None,
                        s_ReconnectBy := None, s_Version := i64 (s_Version session + 1)\<rparr>))"

definition Expire :: "Session \<Rightarrow> go_time \<Rightarrow> rt_error + Session" where
  "Expire session now =
     (if terminalState (s_State session) \<or> now < s_ExpiresAt session then Inl ErrStateConflict
      else Inr (session\<lparr>s_State := StateExpired, s_InterruptedAt := None, s_ReconnectBy := None,
                        s_Version := i64 (s_Version session + 1)\<rparr>))"

subsection \<open>The state machine\<close>

text \<open>One transition, with the frame it accepted (sequence number, capture time, audio), if any.\<close>

inductive session_step :: "Session \<Rightarrow> (int \<times> int \<times> bytes) list \<Rightarrow> Session \<Rightarrow> bool" where
  audio: "ApplyAudio s ev now = Inr (s', FrameAccepted) \<Longrightarrow> PCM ev = Inr pcm \<Longrightarrow> in_i64 (ae_CapturedAtMS ev) \<Longrightarrow>
    session_step s [(ae_Sequence ev, ae_CapturedAtMS ev, pcm)] s'"
| interrupt: "Interrupt s now w = Inr s' \<Longrightarrow> session_step s [] s'"
| resume: "Resume s rv now = Inr s' \<Longrightarrow> session_step s [] s'"
| finalize: "BeginFinalization s fev now = Inr s' \<Longrightarrow> in_i64 (fe_CapturedDurationMS fev) \<Longrightarrow> session_step s [] s'"
| complete: "Complete s result now = Inr s' \<Longrightarrow> session_step s [] s'"
| fail: "Fail s code = Inr s' \<Longrightarrow> session_step s [] s'"
| expire: "Expire s now = Inr s' \<Longrightarrow> session_step s [] s'"

inductive session_run :: "nat \<Rightarrow> Session \<Rightarrow> (int \<times> int \<times> bytes) list \<Rightarrow> bool" where
  new: "NewSession p = Inr s \<Longrightarrow> session_run 0 s []"
| step: "session_run n s frames \<Longrightarrow> session_step s fs s' \<Longrightarrow> session_run (Suc n) s' (frames @ fs)"

definition format_ok :: "Session \<Rightarrow> bool" where
  "format_ok s \<longleftrightarrow> canonicalUUID (s_ID s) \<and> canonicalUUID (s_WorkspaceID s) \<and> canonicalUUID (s_CreatedBy s)
     \<and> canonicalUUID (s_ClientSessionID s) \<and> validIdempotencyKey (s_IdempotencyKey s)
     \<and> s_Encoding s = EncodingPCMS16LE \<and> s_Channels s = 1 \<and> validSampleRate (s_SampleRateHz s)
     \<and> 20 \<le> s_FrameDurationMS s \<and> s_FrameDurationMS s \<le> 100 \<and> languageTagPattern (s_Language s)
     \<and> (s_ProviderProfileID s \<noteq> [] \<longrightarrow> canonicalUUID (s_ProviderProfileID s))
     \<and> (s_HotwordSetID s \<noteq> [] \<longrightarrow> canonicalUUID (s_HotwordSetID s))
     \<and> s_StartedAt s < s_ExpiresAt s \<and> s_ExpiresAt s \<le> s_StartedAt s + DefaultSessionTTL"

definition state_ok :: "Session \<Rightarrow> bool" where
  "state_ok s \<longleftrightarrow>
     s_State s \<in> {StateStreaming, StateInterrupted, StateFinalizing, StateCompleted, StateFailed, StateExpired}
     \<and> (if s_State s = StateInterrupted
        then \<exists>i r. s_InterruptedAt s = Some i \<and> s_ReconnectBy s = Some r \<and> i \<le> r \<and> r \<le> s_ExpiresAt s
        else s_InterruptedAt s = None \<and> s_ReconnectBy s = None)
     \<and> (s_ClientArchiveSHA256 s = [] \<longrightarrow> s_CapturedDurationMS s = 0)
     \<and> (s_ClientArchiveSHA256 s \<noteq> [] \<longrightarrow> canonicalSHA256 (s_ClientArchiveSHA256 s)
         \<and> s_LastCapturedAtMS s \<le> s_CapturedDurationMS s \<and> in_i64 (s_CapturedDurationMS s))
     \<and> (s_State s \<in> {StateFinalizing, StateCompleted} \<longrightarrow> s_ClientArchiveSHA256 s \<noteq> [])
     \<and> (s_State s \<in> {StateStreaming, StateInterrupted} \<longrightarrow> s_ClientArchiveSHA256 s = [])
     \<and> (if s_State s = StateCompleted
        then s_FinalTranscript s \<noteq> [] \<and> int (length (s_FinalTranscript s)) \<le> MaxTranscriptBytes \<and> utf8_valid (s_FinalTranscript s)
          \<and> languageTagPattern (s_FinalLanguage s) \<and> providerIDPattern (s_FinalProviderID s)
          \<and> trim_space (s_FinalTranscript s) = s_FinalTranscript s \<and> trim_space (s_FinalLanguage s) = s_FinalLanguage s
          \<and> trim_space (s_FinalProviderID s) = s_FinalProviderID s
          \<and> s_CompletedAt s \<noteq> None
        else s_FinalTranscript s = [] \<and> s_FinalLanguage s = [] \<and> s_FinalProviderID s = [] \<and> s_CompletedAt s = None)
     \<and> (if s_State s = StateFailed then safeRealtimeErrorCode (s_LastErrorCode s) else s_LastErrorCode s = [])"

definition progress_ok :: "nat \<Rightarrow> Session \<Rightarrow> (int \<times> int \<times> bytes) list \<Rightarrow> bool" where
  "progress_ok n s frames \<longleftrightarrow>
     s_Version s = int n + 1 \<and> length frames \<le> n
     \<and> map fst frames = map int [0..<length frames]
     \<and> s_NextSequence s = int (length frames)
     \<and> s_ReceivedBytes s = (\<Sum>(_, _, pcm) \<leftarrow> frames. int (length pcm))
     \<and> list_all (\<lambda>(_, _, pcm). pcm \<noteq> [] \<and> length pcm mod 2 = 0 \<and> int (length pcm) \<le> maximumFrameBytes s) frames
     \<and> sorted (map (\<lambda>(_, captured, _). captured) frames)
     \<and> (if frames = [] then s_LastCapturedAtMS s = 0 \<and> s_LastFrameAt s = None
        else s_LastCapturedAtMS s = fst (snd (last frames)) \<and> s_LastFrameAt s \<noteq> None)
     \<and> 0 \<le> s_LastCapturedAtMS s \<and> in_i64 (s_LastCapturedAtMS s)"

definition session_inv :: "nat \<Rightarrow> Session \<Rightarrow> (int \<times> int \<times> bytes) list \<Rightarrow> bool" where
  "session_inv n s frames \<longleftrightarrow> format_ok s \<and> state_ok s \<and> progress_ok n s frames"

lemma state_distinct [simp]:
  "StateStreaming \<noteq> StateInterrupted" "StateStreaming \<noteq> StateFinalizing" "StateStreaming \<noteq> StateCompleted" "StateStreaming \<noteq> StateFailed" "StateStreaming \<noteq> StateExpired"
  "StateInterrupted \<noteq> StateStreaming" "StateInterrupted \<noteq> StateFinalizing" "StateInterrupted \<noteq> StateCompleted" "StateInterrupted \<noteq> StateFailed" "StateInterrupted \<noteq> StateExpired"
  "StateFinalizing \<noteq> StateStreaming" "StateFinalizing \<noteq> StateInterrupted" "StateFinalizing \<noteq> StateCompleted" "StateFinalizing \<noteq> StateFailed" "StateFinalizing \<noteq> StateExpired"
  "StateCompleted \<noteq> StateStreaming" "StateCompleted \<noteq> StateInterrupted" "StateCompleted \<noteq> StateFinalizing" "StateCompleted \<noteq> StateFailed" "StateCompleted \<noteq> StateExpired"
  "StateFailed \<noteq> StateStreaming" "StateFailed \<noteq> StateInterrupted" "StateFailed \<noteq> StateFinalizing" "StateFailed \<noteq> StateCompleted" "StateFailed \<noteq> StateExpired"
  "StateExpired \<noteq> StateStreaming" "StateExpired \<noteq> StateInterrupted" "StateExpired \<noteq> StateFinalizing" "StateExpired \<noteq> StateCompleted" "StateExpired \<noteq> StateFailed"
  by (simp_all add: state_names)

lemma ApplyAudio_acceptedE:
  assumes "ApplyAudio s ev now = Inr (s', FrameAccepted)"
  obtains pcm where "s_State s = StateStreaming" "AudioEvent_validate ev" "now \<noteq> 0" "ae_SessionID ev = s_ID s"
    "now < s_ExpiresAt s" "ae_Sequence ev = s_NextSequence s"
    "0 < s_NextSequence s \<Longrightarrow> s_LastCapturedAtMS s \<le> ae_CapturedAtMS ev"
    "PCM ev = Inr pcm" "pcm \<noteq> []" "length pcm mod 2 = 0" "int (length pcm) \<le> maximumFrameBytes s"
    "s' = s\<lparr>s_NextSequence := i64 (s_NextSequence s + 1),
            s_ReceivedBytes := i64 (s_ReceivedBytes s + int (length pcm)),
            s_LastCapturedAtMS := ae_CapturedAtMS ev,
            s_LastFrameAt := Some now, s_UpdatedAt := now, s_Version := i64 (s_Version s + 1)\<rparr>"
  using assms by (auto simp: ApplyAudio_def split: if_splits sum.splits)

lemma InterruptE:
  assumes "Interrupt s now w = Inr s'"
  obtains r where "s_State s = StateStreaming" "now \<noteq> 0" "now < s_ExpiresAt s" "now < r" "r \<le> s_ExpiresAt s"
    "r = min (s_ExpiresAt s) (now + (if w = 0 then DefaultReconnectWindow else w))"
    "s' = s\<lparr>s_State := StateInterrupted, s_InterruptedAt := Some now, s_ReconnectBy := Some r, s_UpdatedAt := now,
            s_Version := i64 (s_Version s + 1)\<rparr>"
  using assms by (auto simp: Interrupt_def Let_def min_def DefaultReconnectWindow_def second_def split: if_splits)

lemma ResumeE:
  assumes "Resume s ev now = Inr s'"
  obtains r where "s_State s = StateInterrupted" "ResumeEvent_validate ev" "now \<noteq> 0" "re_SessionID ev = s_ID s"
    "re_LastAcknowledgedSequence ev \<le> i64 (s_NextSequence s - 1)" "s_ReconnectBy s = Some r" "now \<le> r"
    "now < s_ExpiresAt s"
    "s' = s\<lparr>s_State := StateStreaming, s_InterruptedAt := None, s_ReconnectBy := None, s_UpdatedAt := now,
            s_Version := i64 (s_Version s + 1)\<rparr>"
  using assms by (auto simp: Resume_def split: if_splits option.splits)

lemma BeginFinalizationE:
  assumes "BeginFinalization s ev now = Inr s'"
  obtains "s_State s = StateStreaming \<or> s_State s = StateInterrupted" "FinishEvent_validate ev" "now \<noteq> 0"
    "fe_SessionID ev = s_ID s" "fe_FinalSequence ev = i64 (s_NextSequence s - 1)"
    "s_LastCapturedAtMS s \<le> fe_CapturedDurationMS ev" "now < s_ExpiresAt s"
    "s' = s\<lparr>s_State := StateFinalizing, s_ClientArchiveSHA256 := fe_ClientArchiveSHA256 ev,
            s_CapturedDurationMS := fe_CapturedDurationMS ev, s_InterruptedAt := None, s_ReconnectBy := None,
            s_UpdatedAt := now, s_Version := i64 (s_Version s + 1)\<rparr>"
  using assms by (auto simp: BeginFinalization_def split: if_splits)

lemma CompleteE:
  assumes "Complete s result now = Inr s'"
  obtains r where "s_State s = StateFinalizing" "now \<noteq> 0" "normalizeProviderResult result = (r, True)"
    "s' = s\<lparr>s_State := StateCompleted, s_FinalTranscript := pr_Text r, s_FinalLanguage := pr_Language r,
            s_FinalProviderID := pr_ProviderID r, s_CompletedAt := Some now, s_UpdatedAt := now,
            s_Version := i64 (s_Version s + 1)\<rparr>"
proof -
  obtain r v where n: "normalizeProviderResult result = (r, v)" by (rule prod.exhaust)
  then show thesis using assms that by (auto simp: Complete_def split: if_splits)
qed

lemma FailE:
  assumes "Fail s code = Inr s'"
  obtains "\<not> terminalState (s_State s)" "safeRealtimeErrorCode code"
    "s' = s\<lparr>s_State := StateFailed, s_LastErrorCode := code, s_InterruptedAt := None, s_ReconnectBy := None,
            s_Version := i64 (s_Version s + 1)\<rparr>"
  using assms by (auto simp: Fail_def split: if_splits)

lemma ExpireE:
  assumes "Expire s now = Inr s'"
  obtains "\<not> terminalState (s_State s)" "s_ExpiresAt s \<le> now"
    "s' = s\<lparr>s_State := StateExpired, s_InterruptedAt := None, s_ReconnectBy := None,
            s_Version := i64 (s_Version s + 1)\<rparr>"
  using assms by (auto simp: Expire_def split: if_splits)

lemmas transition_elims = ApplyAudio_acceptedE InterruptE ResumeE BeginFinalizationE CompleteE FailE ExpireE

lemma maximumFrameBytes_le: "maximumFrameBytes s \<le> 65536"
  by (simp add: maximumFrameBytes_def Let_def MaxFrameBytes_def)

lemma maximumFrameBytes_update [simp]:
  "maximumFrameBytes (s\<lparr>s_NextSequence := a, s_ReceivedBytes := b, s_LastCapturedAtMS := c, s_LastFrameAt := d,
     s_UpdatedAt := e, s_Version := f\<rparr>) = maximumFrameBytes s"
  by (simp add: maximumFrameBytes_def)

lemma received_bound:
  assumes "progress_ok n s frames"
  shows "0 \<le> s_ReceivedBytes s" "s_ReceivedBytes s \<le> 65536 * int (length frames)"
proof -
  have "list_all (\<lambda>(_, _, pcm). int (length pcm) \<le> 65536) frames"
    using assms maximumFrameBytes_le [of s] by (auto simp: progress_ok_def list_all_iff)
  then have "0 \<le> (\<Sum>(_, _, pcm) \<leftarrow> frames. int (length pcm)) \<and>
     (\<Sum>(_, _, pcm) \<leftarrow> frames. int (length pcm)) \<le> 65536 * int (length frames)"
    by (induction frames) auto
  then show "0 \<le> s_ReceivedBytes s" "s_ReceivedBytes s \<le> 65536 * int (length frames)"
    using assms by (simp_all add: progress_ok_def)
qed

lemma sorted_le_last: "sorted xs \<Longrightarrow> x \<in> set xs \<Longrightarrow> x \<le> last xs"
  by (induction xs) auto

lemma audio_progress:
  assumes "progress_ok n s frames" "ApplyAudio s ev now = Inr (s', FrameAccepted)" "PCM ev = Inr pcm"
    and "n < 2 ^ 46" "in_i64 (ae_CapturedAtMS ev)"
  shows "progress_ok (Suc n) s' (frames @ [(ae_Sequence ev, ae_CapturedAtMS ev, pcm)])"
  using assms(2)
proof (cases rule: ApplyAudio_acceptedE)
  case (1 pcm')
  have "pcm' = pcm" using 1(8) assms(3) by simp
  note p = assms(1) [unfolded progress_ok_def]
  have len: "length frames < 2 ^ 46" using p assms(4) by linarith
  have le: "int (length pcm) \<le> 65536" using 1(11) maximumFrameBytes_le [of s] \<open>pcm' = pcm\<close> by simp
  have n: "i64 (s_NextSequence s + 1) = int (length frames) + 1" "i64 (s_Version s + 1) = int n + 2"
    "i64 (s_ReceivedBytes s + int (length pcm)) = s_ReceivedBytes s + int (length pcm)"
    using p len assms(4) received_bound [OF assms(1)] le by (subst i64_small; simp)+
  have cap: "0 \<le> ae_CapturedAtMS ev" using 1(2) by (simp add: AudioEvent_validate_def)
  have sorted: "sorted (map (\<lambda>(_, captured, _). captured) (frames @ [(ae_Sequence ev, ae_CapturedAtMS ev, pcm)]))"
  proof (cases "frames = []")
    case False
    have "s_LastCapturedAtMS s \<le> ae_CapturedAtMS ev" using 1(7) p False by simp
    moreover have "c \<le> s_LastCapturedAtMS s" if "c \<in> (\<lambda>(_, captured, _). captured) ` set frames" for c
      using sorted_le_last [of "map (\<lambda>(_, captured, _). captured) frames" c] that p False
      by (simp add: last_map case_prod_beta)
    ultimately show ?thesis using p by (fastforce simp: sorted_append)
  qed simp
  show ?thesis
    unfolding progress_ok_def
    using p 1 n sorted cap assms(5) \<open>pcm' = pcm\<close> by (simp add: progress_ok_def)
qed

lemma quiet_progress:
  assumes "progress_ok n s frames" "session_step s [] s'" "n < 2 ^ 46"
  shows "progress_ok (Suc n) s' frames"
proof -
  have v: "i64 (s_Version s + 1) = int n + 2"
    using assms(1,3) by (subst i64_small) (simp_all add: progress_ok_def)
  have "s_NextSequence s' = s_NextSequence s \<and> s_ReceivedBytes s' = s_ReceivedBytes s \<and>
      s_LastCapturedAtMS s' = s_LastCapturedAtMS s \<and> s_LastFrameAt s' = s_LastFrameAt s \<and>
      maximumFrameBytes s' = maximumFrameBytes s \<and> s_Version s' = i64 (s_Version s + 1)"
    using assms(2)
    by (cases rule: session_step.cases) (auto elim!: transition_elims simp: maximumFrameBytes_def)
  then show ?thesis using assms(1) v by (simp add: progress_ok_def)
qed

lemma step_fixed:
  assumes "session_step s fs s'"
  shows "s_ID s' = s_ID s" "s_WorkspaceID s' = s_WorkspaceID s" "s_CreatedBy s' = s_CreatedBy s"
    "s_ClientSessionID s' = s_ClientSessionID s" "s_IdempotencyKey s' = s_IdempotencyKey s"
    "s_Encoding s' = s_Encoding s" "s_Channels s' = s_Channels s" "s_SampleRateHz s' = s_SampleRateHz s"
    "s_FrameDurationMS s' = s_FrameDurationMS s" "s_Language s' = s_Language s"
    "s_ProviderProfileID s' = s_ProviderProfileID s" "s_HotwordSetID s' = s_HotwordSetID s"
    "s_StartedAt s' = s_StartedAt s" "s_ExpiresAt s' = s_ExpiresAt s"
proof -
  have "(s_ID s', s_WorkspaceID s', s_CreatedBy s', s_ClientSessionID s', s_IdempotencyKey s', s_Encoding s', s_Channels s',
      s_SampleRateHz s', s_FrameDurationMS s', s_Language s', s_ProviderProfileID s', s_HotwordSetID s', s_StartedAt s',
      s_ExpiresAt s') = (s_ID s, s_WorkspaceID s, s_CreatedBy s, s_ClientSessionID s, s_IdempotencyKey s, s_Encoding s,
      s_Channels s, s_SampleRateHz s, s_FrameDurationMS s, s_Language s, s_ProviderProfileID s, s_HotwordSetID s,
      s_StartedAt s, s_ExpiresAt s)"
    using assms by (cases rule: session_step.cases) (auto elim!: transition_elims)
  then show "s_ID s' = s_ID s" "s_WorkspaceID s' = s_WorkspaceID s" "s_CreatedBy s' = s_CreatedBy s"
    "s_ClientSessionID s' = s_ClientSessionID s" "s_IdempotencyKey s' = s_IdempotencyKey s"
    "s_Encoding s' = s_Encoding s" "s_Channels s' = s_Channels s" "s_SampleRateHz s' = s_SampleRateHz s"
    "s_FrameDurationMS s' = s_FrameDurationMS s" "s_Language s' = s_Language s"
    "s_ProviderProfileID s' = s_ProviderProfileID s" "s_HotwordSetID s' = s_HotwordSetID s"
    "s_StartedAt s' = s_StartedAt s" "s_ExpiresAt s' = s_ExpiresAt s" by simp_all
qed

lemma step_format: "session_step s fs s' \<Longrightarrow> format_ok s \<Longrightarrow> format_ok s'"
  by (simp add: format_ok_def step_fixed)

lemma canonicalSHA256_nonempty: "canonicalSHA256 v \<Longrightarrow> v \<noteq> []"
  by (auto simp: canonicalSHA256_def)

lemma provider_result_valid:
  assumes "normalizeProviderResult r = (r', True)"
  shows "pr_Text r' \<noteq> []" "int (length (pr_Text r')) \<le> MaxTranscriptBytes" "languageTagPattern (pr_Language r')"
    "providerIDPattern (pr_ProviderID r')" "utf8_valid (pr_Text r')"
    "trim_space (pr_Text r') = pr_Text r'" "trim_space (pr_Language r') = pr_Language r'"
    "trim_space (pr_ProviderID r') = pr_ProviderID r'"
  using assms by (auto simp: normalizeProviderResult_def Let_def)

lemma step_state:
  assumes "session_step s fs s'" "state_ok s" "0 \<le> s_LastCapturedAtMS s"
  shows "state_ok s'"
  using assms(1)
proof (cases rule: session_step.cases)
  case (audio ev now pcm)
  from audio(2) assms(2) show ?thesis
    by (elim ApplyAudio_acceptedE) (auto simp: state_ok_def)
next
  case (interrupt now w)
  from interrupt(2) assms(2) show ?thesis
    by (elim InterruptE) (auto simp: state_ok_def)
next
  case (resume rv now)
  from resume(2) assms(2) show ?thesis
    by (elim ResumeE) (auto simp: state_ok_def)
next
  case (finalize fev now)
  from finalize(2) assms(2) finalize(3) show ?thesis
    by (elim BeginFinalizationE)
      (auto simp: state_ok_def FinishEvent_validate_def canonicalSHA256_nonempty)
next
  case (complete result now)
  from complete(2) assms(2) show ?thesis
  proof (elim CompleteE)
    fix r
    assume n: "normalizeProviderResult result = (r, True)" and s: "state_ok s" "s_State s = StateFinalizing"
      and s': "s' = s\<lparr>s_State := StateCompleted, s_FinalTranscript := pr_Text r, s_FinalLanguage := pr_Language r,
            s_FinalProviderID := pr_ProviderID r, s_CompletedAt := Some now, s_UpdatedAt := now,
            s_Version := i64 (s_Version s + 1)\<rparr>"
    show "state_ok s'"
      using provider_result_valid [OF n] s by (simp add: s' state_ok_def)
  qed
next
  case (fail code)
  from fail(2) assms(2) show ?thesis
    by (elim FailE) (auto simp: state_ok_def terminalState_def)
next
  case (expire now)
  from expire(2) assms(2) show ?thesis
    by (elim ExpireE) (auto simp: state_ok_def terminalState_def)
qed

lemma session_inv_new: "NewSession p = Inr s \<Longrightarrow> session_inv 0 s []"
proof -
  assume a: "NewSession p = Inr s"
  then have v: "canonicalUUID (np_ID p)" "canonicalUUID (np_WorkspaceID p)" "canonicalUUID (np_CreatedBy p)"
    "StartEvent_validate (np_Start p)"
    by (auto simp: NewSession_def split: if_splits)
  obtain ttl where ttl: "0 < ttl" "ttl \<le> DefaultSessionTTL" and
    s: "s = \<lparr>s_ID = np_ID p, s_WorkspaceID = np_WorkspaceID p, s_CreatedBy = np_CreatedBy p,
       s_ClientSessionID = se_ClientSessionID (np_Start p), s_ProviderProfileID = se_ProviderProfileID (np_Start p),
       s_HotwordSetID = se_HotwordSetID (np_Start p), s_IdempotencyKey = se_IdempotencyKey (np_Start p),
       s_Encoding = se_Encoding (np_Start p), s_SampleRateHz = se_SampleRateHz (np_Start p),
       s_Channels = se_Channels (np_Start p), s_FrameDurationMS = se_FrameDurationMS (np_Start p),
       s_Language = se_Language (np_Start p), s_State = StateStreaming, s_NextSequence = 0,
       s_ReceivedBytes = 0, s_LastCapturedAtMS = 0, s_FinalTranscript = [], s_FinalLanguage = [],
       s_FinalProviderID = [], s_ClientArchiveSHA256 = [], s_CapturedDurationMS = 0,
       s_LastErrorCode = [], s_Version = 1, s_StartedAt = np_Now p, s_LastFrameAt = None,
       s_InterruptedAt = None, s_ReconnectBy = None, s_ExpiresAt = np_Now p + ttl,
       s_CompletedAt = None, s_UpdatedAt = np_Now p\<rparr>"
    using a v by (fastforce simp: NewSession_def Let_def split: if_splits)
  have "format_ok s" using v ttl by (simp add: s format_ok_def StartEvent_validate_def)
  moreover have "state_ok s" by (simp add: s state_ok_def)
  moreover have "progress_ok 0 s []" by (simp add: s progress_ok_def)
  ultimately show "session_inv 0 s []" by (simp add: session_inv_def)
qed

lemma session_inv_step:
  assumes "session_inv n s frames" "session_step s fs s'" "n < 2 ^ 46"
  shows "session_inv (Suc n) s' (frames @ fs)"
proof -
  have "progress_ok (Suc n) s' (frames @ fs)"
    using assms(2)
  proof (cases rule: session_step.cases)
    case (audio ev now pcm)
    then show ?thesis using audio_progress [OF _ audio(2,3) assms(3) audio(4)] assms(1) by (simp add: session_inv_def)
  qed (use quiet_progress [of n s frames s'] assms in \<open>simp_all add: session_inv_def\<close>)
  then show ?thesis
    using step_format [OF assms(2)] step_state [OF assms(2)] assms(1) by (simp add: session_inv_def progress_ok_def)
qed

lemma session_run_inv: "session_run n s frames \<Longrightarrow> n \<le> 2 ^ 46 \<Longrightarrow> session_inv n s frames"
  by (induction rule: session_run.induct) (auto intro: session_inv_new session_inv_step)


subsection \<open>A sample session\<close>

definition sample_start :: StartEvent where
  "sample_start = \<lparr>se_Type = ''start'', se_ProtocolVersion = ''1'', se_ClientSessionID = sample_uuid,
     se_IdempotencyKey = ''key-1'', se_Encoding = ''pcm_s16le'', se_SampleRateHz = 16000, se_Channels = 1,
     se_FrameDurationMS = 20, se_Language = ''zh-CN'', se_ProviderProfileID = [], se_HotwordSetID = []\<rparr>"

definition sample_params :: NewSessionParams where
  "sample_params = \<lparr>np_ID = sample_uuid, np_WorkspaceID = sample_uuid, np_CreatedBy = sample_uuid,
     np_Start = sample_start, np_Now = hour, np_TTL = 0\<rparr>"

definition sample_session :: Session where
  "sample_session = \<lparr>s_ID = sample_uuid, s_WorkspaceID = sample_uuid, s_CreatedBy = sample_uuid,
     s_ClientSessionID = sample_uuid, s_ProviderProfileID = [], s_HotwordSetID = [], s_IdempotencyKey = ''key-1'',
     s_Encoding = ''pcm_s16le'', s_SampleRateHz = 16000, s_Channels = 1, s_FrameDurationMS = 20,
     s_Language = ''zh-CN'', s_State = StateStreaming, s_NextSequence = 0, s_ReceivedBytes = 0,
     s_LastCapturedAtMS = 0, s_FinalTranscript = [], s_FinalLanguage = [], s_FinalProviderID = [],
     s_ClientArchiveSHA256 = [], s_CapturedDurationMS = 0, s_LastErrorCode = [], s_Version = 1,
     s_StartedAt = hour, s_LastFrameAt = None, s_InterruptedAt = None, s_ReconnectBy = None,
     s_ExpiresAt = 3 * hour, s_CompletedAt = None, s_UpdatedAt = hour\<rparr>"

definition sample_frame :: AudioEvent where
  "sample_frame = \<lparr>ae_Type = ''audio'', ae_SessionID = sample_uuid, ae_Sequence = 0, ae_CapturedAtMS = 0,
     ae_PCMBase64 = b64_encode ''ab''\<rparr>"

definition sample_streamed :: Session where
  "sample_streamed = sample_session\<lparr>s_NextSequence := 1, s_ReceivedBytes := 2, s_LastFrameAt := Some (2 * hour),
     s_UpdatedAt := 2 * hour, s_Version := 2\<rparr>"

lemma sample_start_valid: "StartEvent_validate sample_start"
proof -
  have "list_all (\<lambda>c. (of_char c :: nat) < 128) ''key-1''" by simp
  note ascii = ascii_chunks [OF this] ascii_valid [OF this]
  have "validIdempotencyKey ''key-1''"
    using ascii by (simp add: validIdempotencyKey_def trim_space_def runes_def is_control_def is_space_def)
  moreover have "languageTagPattern ''zh-CN''"
    by (simp add: languageTagPattern_def is_letter_def is_lower_def is_upper_def)
  moreover have "quot 640000 1000 \<le> 65536" by (simp add: quot_def)
  ultimately show ?thesis
    using sample_uuid_canonical
    by (simp add: StartEvent_validate_def sample_start_def EventStart_def ProtocolVersion_def EncodingPCMS16LE_def
        validSampleRate_def MaxFrameBytes_def)
qed

lemma sample_new: "NewSession sample_params = Inr sample_session"
  using sample_start_valid sample_uuid_canonical
  by (simp add: NewSession_def sample_params_def sample_session_def Let_def DefaultSessionTTL_def time_units)
    (simp add: sample_start_def)

lemma sample_pcm: "PCM sample_frame = Inr ''ab''"
  by (simp add: PCM_def sample_frame_def base64_decode_encode del: b64_encode.simps)

lemma sample_frame_valid: "AudioEvent_validate sample_frame"
  using sample_pcm sample_uuid_canonical
  by (simp add: AudioEvent_validate_def MaxFrameBytes_def) (simp add: sample_frame_def EventAudio_def)

lemma sample_accepted: "ApplyAudio sample_session sample_frame (2 * hour) = Inr (sample_streamed, FrameAccepted)"
  using sample_frame_valid sample_pcm
  by (simp add: ApplyAudio_def sample_session_def sample_streamed_def maximumFrameBytes_def quot_def MaxFrameBytes_def
      i64_small time_units Let_def sample_frame_def)

lemma sample_run: "session_run 1 sample_streamed [(0, 0, ''ab'')]"
  using session_run.step [OF session_run.new [OF sample_new] session_step.audio [OF sample_accepted sample_pcm]]
  by (simp add: sample_frame_def)

subsection \<open>The guarantees of the state machine\<close>

text \<open>
  Every session reached by any sequence of transitions is well formed: the format fixed at the
  start is valid and unchanged, each state carries exactly the fields it needs (deadlines only while
  interrupted and ordered \<open>interrupted \<le> reconnect \<le> expiry\<close>, an archive checksum from finalization
  on, a transcript only when completed, an error code only when failed).  The bound on the number of
  transitions, about \<open>7 * 10 ^ 13\<close>, keeps the 64-bit counters from wrapping.
\<close>

theorem session_wellformed:
  assumes "session_run n s frames" "n \<le> 2 ^ 46"
  shows "format_ok s \<and> state_ok s"
  using session_run_inv [OF assms] by (simp add: session_inv_def)

theorem session_wellformed_witness: "format_ok sample_streamed \<and> state_ok sample_streamed"
  by (rule session_wellformed [OF sample_run]) simp

text \<open>
  C14: frames are counted exactly once and in order.  After any run the accepted frames have the
  sequence numbers \<open>0, 1, ..., k - 1\<close>, \<^verbatim>\<open>NextSequence\<close> is \<open>k\<close>, \<^verbatim>\<open>ReceivedBytes\<close> is the number of audio
  bytes in them, their capture times do not decrease, and \<^verbatim>\<open>Version\<close> counts the transitions.
\<close>

theorem frames_exactly_once:
  assumes "session_run n s frames" "n \<le> 2 ^ 46"
  shows "map fst frames = map int [0..<length frames] \<and> s_NextSequence s = int (length frames) \<and>
    s_ReceivedBytes s = (\<Sum>(_, _, pcm) \<leftarrow> frames. int (length pcm)) \<and>
    sorted (map (\<lambda>(_, captured, _). captured) frames) \<and> s_Version s = int n + 1"
  using session_run_inv [OF assms] by (simp add: session_inv_def progress_ok_def)

theorem frames_exactly_once_witness: "s_NextSequence sample_streamed = 1 \<and> s_ReceivedBytes sample_streamed = 2"
  using frames_exactly_once [OF sample_run] by simp

text \<open>
  Replaying a frame is harmless.  A frame that was accepted and is sent again, as a client does
  when the acknowledgement got lost, is a duplicate and leaves the session untouched.
\<close>

theorem replayed_frame_is_duplicate:
  assumes "session_run n s frames" "n < 2 ^ 46"
    and "ApplyAudio s ev now = Inr (s', FrameAccepted)" "later \<noteq> 0" "later < s_ExpiresAt s"
  shows "ApplyAudio s' ev later = Inr (s', FrameDuplicate)"
proof -
  have p: "progress_ok n s frames" using session_run_inv [OF assms(1)] assms(2) by (simp add: session_inv_def)
  then have "i64 (s_NextSequence s + 1) = s_NextSequence s + 1"
    using assms(2) by (subst i64_small) (auto simp: progress_ok_def)
  with assms(3) show ?thesis
    by (elim ApplyAudio_acceptedE) (simp add: ApplyAudio_def assms(4,5))
qed

theorem replayed_frame_is_duplicate_witness:
  "ApplyAudio sample_streamed sample_frame (2 * hour) = Inr (sample_streamed, FrameDuplicate)"
  by (rule replayed_frame_is_duplicate [OF session_run.new [OF sample_new] _ sample_accepted])
    (simp_all add: sample_session_def time_units)

text \<open>
  The reconnect window.  An interrupted session is resumed by a well-formed request for it that
  acknowledges no frame the server never accepted exactly until the window closes or the session
  expires, whichever is first; it then streams again from the same position.
\<close>

theorem resume_within_window:
  assumes "Interrupt s now w = Inr s'" "ResumeEvent_validate ev" "re_SessionID ev = s_ID s" "later \<noteq> 0"
    and "re_LastAcknowledgedSequence ev \<le> AcknowledgedSequence s"
  shows "(\<exists>s''. Resume s' ev later = Inr s'' \<and> s_State s'' = StateStreaming \<and>
      s_NextSequence s'' = s_NextSequence s \<and> s_ReceivedBytes s'' = s_ReceivedBytes s) \<longleftrightarrow>
    later \<le> now + (if w = 0 then DefaultReconnectWindow else w) \<and> later < s_ExpiresAt s"
  using assms(1)
proof (rule InterruptE)
  fix r
  assume "r = min (s_ExpiresAt s) (now + (if w = 0 then DefaultReconnectWindow else w))"
  then have r: "later \<le> now + (if w = 0 then DefaultReconnectWindow else w) \<and> later < s_ExpiresAt s \<longleftrightarrow>
      later \<le> r \<and> later < s_ExpiresAt s"
    by (simp only: min.bounded_iff) auto
  assume s': "s' = s\<lparr>s_State := StateInterrupted, s_InterruptedAt := Some now, s_ReconnectBy := Some r, s_UpdatedAt := now,
            s_Version := i64 (s_Version s + 1)\<rparr>"
  show ?thesis
    unfolding r using assms(2-5) unfolding s' AcknowledgedSequence_def by (auto simp: Resume_def)
qed

theorem resume_within_window_witness:
  "\<exists>s''. Resume (sample_streamed\<lparr>s_State := StateInterrupted, s_InterruptedAt := Some (2 * hour),
      s_ReconnectBy := Some (2 * hour + 90 * second), s_UpdatedAt := 2 * hour, s_Version := 3\<rparr>)
    \<lparr>re_Type = ''resume'', re_ProtocolVersion = ''1'', re_SessionID = sample_uuid, re_LastAcknowledgedSequence = -1\<rparr>
    (2 * hour + 90 * second) = Inr s'' \<and> s_State s'' = StateStreaming \<and>
    s_NextSequence s'' = s_NextSequence sample_streamed \<and> s_ReceivedBytes s'' = s_ReceivedBytes sample_streamed"
  by (rule resume_within_window [where w = 0 and now = "2 * hour", THEN iffD2])
    (simp_all add: Interrupt_def sample_streamed_def sample_session_def time_units Let_def DefaultReconnectWindow_def
      ResumeEvent_validate_def sample_uuid_canonical EventResume_def ProtocolVersion_def AcknowledgedSequence_def
      i64_small)

text \<open>
  C21: the life cycle.  Every transition follows an edge of the state diagram; in particular a
  completed, failed or expired session never changes again.
\<close>

definition lifecycle :: "(string \<times> string) set" where
  "lifecycle = {(StateStreaming, StateStreaming), (StateStreaming, StateInterrupted), (StateStreaming, StateFinalizing),
     (StateStreaming, StateFailed), (StateStreaming, StateExpired), (StateInterrupted, StateStreaming),
     (StateInterrupted, StateFinalizing), (StateInterrupted, StateFailed), (StateInterrupted, StateExpired),
     (StateFinalizing, StateCompleted), (StateFinalizing, StateFailed), (StateFinalizing, StateExpired)}"

theorem session_lifecycle:
  assumes "session_run n s frames" "n \<le> 2 ^ 46" "session_step s fs s'"
  shows "(s_State s, s_State s') \<in> lifecycle"
proof -
  have "state_ok s" using session_run_inv [OF assms(1,2)] by (simp add: session_inv_def)
  then have "s_State s \<in> {StateStreaming, StateInterrupted, StateFinalizing, StateCompleted, StateFailed, StateExpired}"
    by (simp add: state_ok_def)
  then have open_state: "s_State s = StateStreaming \<or> s_State s = StateInterrupted \<or> s_State s = StateFinalizing"
    if "\<not> terminalState (s_State s)"
    using that by (auto simp: terminalState_def)
  show ?thesis
    using assms(3)
  proof (cases rule: session_step.cases)
    case audio
    from audio(2) show ?thesis by (elim ApplyAudio_acceptedE) (simp add: lifecycle_def)
  next
    case interrupt
    from interrupt(2) show ?thesis by (elim InterruptE) (simp add: lifecycle_def)
  next
    case resume
    from resume(2) show ?thesis by (elim ResumeE) (simp add: lifecycle_def)
  next
    case finalize
    from finalize(2) show ?thesis by (elim BeginFinalizationE) (auto simp: lifecycle_def)
  next
    case complete
    from complete(2) show ?thesis by (elim CompleteE) (simp add: lifecycle_def)
  next
    case fail
    from fail(2) show ?thesis by (elim FailE) (use open_state in \<open>auto simp: lifecycle_def\<close>)
  next
    case expire
    from expire(2) show ?thesis by (elim ExpireE) (use open_state in \<open>auto simp: lifecycle_def\<close>)
  qed
qed

theorem session_lifecycle_witness: "(s_State sample_session, s_State sample_streamed) \<in> lifecycle"
  by (rule session_lifecycle [OF session_run.new [OF sample_new] _ session_step.audio [OF sample_accepted sample_pcm]])
    (simp_all add: sample_frame_def)

end
