(* ===== verification/Rt_Hub.thy ===== *)
theory Rt_Hub
  imports Rt_Session
begin

text \<open>
  \<^verbatim>\<open>internal/realtime/stream_hub.go\<close> and \<^verbatim>\<open>internal/realtime/mock_stream.go\<close>: the hub that owns one
  provider stream per session and hands out leases on it, and the mock provider.

  A provider (the interfaces \<^verbatim>\<open>ProviderStream\<close> and \<^verbatim>\<open>StreamFactory\<close>) is a record of functions on a
  stream state \<open>'p\<close>; the boolean argument says whether the context of the call is cancelled.  A
  \<^verbatim>\<open>*managedStream\<close> is an address in the list of entries of the hub, so that two leases alias the same
  entry and \<^verbatim>\<open>remove\<close> can compare pointers; entries are never freed, only unregistered.  The
  lifetime context of an entry is cancelled explicitly or when its expiry has passed.

  The mutexes make the bodies between \<^verbatim>\<open>Lock\<close> and \<^verbatim>\<open>Unlock\<close> atomic.  \<^verbatim>\<open>Start\<close>, \<^verbatim>\<open>Finish\<close>, \<^verbatim>\<open>Close\<close> and
  \<^verbatim>\<open>Reap\<close> have several such sections, which are separate definitions here; \<open>hub_step\<close> interleaves the
  sections of any number of goroutines.
\<close>

record ProviderFrame =
  pf_Sequence :: int
  pf_CapturedAtMS :: int
  pf_PCM :: bytes

record TranscriptUpdate =
  tu_Revision :: int
  tu_Text :: string
  tu_FinalThroughMS :: int

record 'p provider =
  po_Open :: "Session \<Rightarrow> rt_error + 'p option"
  po_Push :: "bool \<Rightarrow> ProviderFrame \<Rightarrow> 'p \<Rightarrow> (rt_error + TranscriptUpdate option) \<times> 'p"
  po_Finish :: "bool \<Rightarrow> 'p \<Rightarrow> (rt_error + ProviderResult) \<times> 'p"
  po_Close :: "'p \<Rightarrow> rt_error option \<times> 'p"

record 'p managedStream =
  e_stream :: 'p
  e_cancelled :: bool
  e_expiresAt :: go_time
  e_reconnectBy :: go_time
  e_lease :: int
  e_attached :: bool
  e_closed :: bool

record 'p StreamHub =
  h_entries :: "'p managedStream list"
  h_streams :: "(string \<times> nat) list"

record StreamLease =
  le_sessionID :: string
  le_lease :: int
  le_entry :: nat

definition NewStreamHub :: "'p StreamHub" where
  "NewStreamHub = \<lparr>h_entries = [], h_streams = []\<rparr>"

definition lifetime_err :: "'p managedStream \<Rightarrow> go_time \<Rightarrow> bool" where
  "lifetime_err entry now \<longleftrightarrow> e_cancelled entry \<or> e_expiresAt entry \<le> now"

definition entry_at :: "'p StreamHub \<Rightarrow> nat \<Rightarrow> 'p managedStream" where
  "entry_at hub a = h_entries hub ! a"

definition set_entry :: "nat \<Rightarrow> 'p managedStream \<Rightarrow> 'p StreamHub \<Rightarrow> 'p StreamHub" where
  "set_entry a entry hub = hub\<lparr>h_entries := (h_entries hub)[a := entry]\<rparr>"

subsection \<open>Starting and resuming\<close>

definition hub_Start_check :: "'p StreamHub \<Rightarrow> Session \<Rightarrow> go_time \<Rightarrow> rt_error option" where
  "hub_Start_check hub session now =
     (if \<not> canonicalUUID (s_ID session) \<or> is_zero_time now \<or> s_State session \<noteq> StateStreaming
         \<or> \<not> now < s_ExpiresAt session then Some ErrStreamUnavailable
      else if map_of (h_streams hub) (s_ID session) \<noteq> None then Some ErrStreamAttached
      else None)"

text \<open>
  The second critical section of \<^verbatim>\<open>Start\<close>: register the opened stream, unless another goroutine won;
  then the stream just opened is closed (its state is dropped).
\<close>

definition hub_Start_insert :: "'p StreamHub \<Rightarrow> Session \<Rightarrow> 'p \<Rightarrow> 'p StreamHub \<times> (rt_error + StreamLease)" where
  "hub_Start_insert hub session stream =
     (if map_of (h_streams hub) (s_ID session) \<noteq> None then (hub, Inl ErrStreamAttached)
      else
        (let a = length (h_entries hub);
             entry = \<lparr>e_stream = stream, e_cancelled = False, e_expiresAt = s_ExpiresAt session,
                      e_reconnectBy = 0, e_lease = 1, e_attached = True, e_closed = False\<rparr>
         in (\<lparr>h_entries = h_entries hub @ [entry], h_streams = (s_ID session, a) # h_streams hub\<rparr>,
             Inr \<lparr>le_sessionID = s_ID session, le_lease = 1, le_entry = a\<rparr>)))"

definition hub_Start ::
  "'p provider \<Rightarrow> 'p StreamHub \<Rightarrow> Session \<Rightarrow> go_time \<Rightarrow> 'p StreamHub \<times> (rt_error + StreamLease)" where
  "hub_Start prov hub session now =
     (case hub_Start_check hub session now of
        Some e \<Rightarrow> (hub, Inl e)
      | None \<Rightarrow>
        (case po_Open prov session of
           Inl e \<Rightarrow> (hub, Inl e)
         | Inr None \<Rightarrow> (hub, Inl ErrStreamUnavailable)
         | Inr (Some stream) \<Rightarrow> hub_Start_insert hub session stream))"

definition hub_Resume :: "'p StreamHub \<Rightarrow> Session \<Rightarrow> go_time \<Rightarrow> 'p StreamHub \<times> (rt_error + StreamLease)" where
  "hub_Resume hub session now =
     (if is_zero_time now \<or> (s_State session \<noteq> StateInterrupted \<and> s_State session \<noteq> StateStreaming) then
        (hub, Inl ErrStreamUnavailable)
      else case map_of (h_streams hub) (s_ID session) of
        None \<Rightarrow> (hub, Inl ErrStreamUnavailable)
      | Some a \<Rightarrow>
        (let entry = entry_at hub a in
         if e_closed entry \<or> lifetime_err entry now \<or> \<not> now < e_expiresAt entry
            \<or> (\<not> is_zero_time (e_reconnectBy entry) \<and> now > e_reconnectBy entry) then
           (hub, Inl ErrStreamUnavailable)
         else if e_attached entry then (hub, Inl ErrStreamAttached)
         else
           (let lease = (e_lease entry + 1) mod 18446744073709551616 in
            (set_entry a (entry\<lparr>e_lease := lease, e_attached := True, e_reconnectBy := 0\<rparr>) hub,
             Inr \<lparr>le_sessionID = s_ID session, le_lease = lease, le_entry = a\<rparr>))))"

subsection \<open>Operations of a lease\<close>

definition lease_stale :: "'p StreamHub \<Rightarrow> StreamLease \<Rightarrow> bool" where
  "lease_stale hub lease \<longleftrightarrow>
     (let entry = entry_at hub (le_entry lease) in
      e_closed entry \<or> \<not> e_attached entry \<or> e_lease entry \<noteq> le_lease lease)"

definition lease_Push ::
  "'p provider \<Rightarrow> 'p StreamHub \<Rightarrow> StreamLease \<Rightarrow> bool \<Rightarrow> go_time \<Rightarrow> ProviderFrame
     \<Rightarrow> 'p StreamHub \<times> (rt_error + TranscriptUpdate option)" where
  "lease_Push prov hub lease ctxErr now frame =
     (let entry = entry_at hub (le_entry lease) in
      if lease_stale hub lease then (hub, Inl ErrStaleStreamLease)
      else if lifetime_err entry now then (hub, Inl ErrStreamUnavailable)
      else
        (case po_Push prov ctxErr frame (e_stream entry) of
           (result, stream) \<Rightarrow> (set_entry (le_entry lease) (entry\<lparr>e_stream := stream\<rparr>) hub, result)))"

definition lease_Detach :: "'p StreamHub \<Rightarrow> StreamLease \<Rightarrow> go_time \<Rightarrow> 'p StreamHub \<times> rt_error option" where
  "lease_Detach hub lease reconnectBy =
     (let entry = entry_at hub (le_entry lease) in
      if is_zero_time reconnectBy \<or> lease_stale hub lease then (hub, Some ErrStaleStreamLease)
      else
        (set_entry (le_entry lease) (entry\<lparr>e_attached := False,
            e_reconnectBy := (if reconnectBy > e_expiresAt entry then e_expiresAt entry else reconnectBy)\<rparr>) hub,
         None))"

definition hub_remove :: "string \<Rightarrow> nat \<Rightarrow> 'p StreamHub \<Rightarrow> 'p StreamHub" where
  "hub_remove sessionID a hub =
     (if map_of (h_streams hub) sessionID = Some a
      then hub\<lparr>h_streams := filter (\<lambda>(sid, _). sid \<noteq> sessionID) (h_streams hub)\<rparr> else hub)"

text \<open>The critical sections of \<^verbatim>\<open>Finish\<close> and \<^verbatim>\<open>Close\<close> on the entry, then the whole operations.\<close>

definition lease_Finish_entry ::
  "'p provider \<Rightarrow> 'p StreamHub \<Rightarrow> StreamLease \<Rightarrow> bool \<Rightarrow> 'p StreamHub \<times> (rt_error + ProviderResult) \<times> bool" where
  "lease_Finish_entry prov hub lease ctxErr =
     (let entry = entry_at hub (le_entry lease) in
      if lease_stale hub lease then (hub, Inl ErrStaleStreamLease, False)
      else
        (case po_Finish prov ctxErr (e_stream entry) of
           (result, stream1) \<Rightarrow>
        (case po_Close prov stream1 of
           (closeErr, stream2) \<Rightarrow>
             (set_entry (le_entry lease) (entry\<lparr>e_closed := True, e_stream := stream2, e_cancelled := True\<rparr>) hub,
              (case result of
                 Inl e \<Rightarrow> Inl e
               | Inr r \<Rightarrow> (case closeErr of None \<Rightarrow> Inr r | Some e \<Rightarrow> Inl e)), True))))"

definition lease_Finish ::
  "'p provider \<Rightarrow> 'p StreamHub \<Rightarrow> StreamLease \<Rightarrow> bool \<Rightarrow> 'p StreamHub \<times> (rt_error + ProviderResult)" where
  "lease_Finish prov hub lease ctxErr =
     (case lease_Finish_entry prov hub lease ctxErr of
        (hub', result, finished) \<Rightarrow>
          (if finished then hub_remove (le_sessionID lease) (le_entry lease) hub' else hub', result))"

definition lease_Close_entry :: "'p provider \<Rightarrow> 'p StreamHub \<Rightarrow> StreamLease \<Rightarrow> 'p StreamHub \<times> rt_error option \<times> bool" where
  "lease_Close_entry prov hub lease =
     (let entry = entry_at hub (le_entry lease) in
      if e_closed entry \<or> e_lease entry \<noteq> le_lease lease then (hub, Some ErrStaleStreamLease, False)
      else
        (case po_Close prov (e_stream entry) of
           (closeErr, stream) \<Rightarrow>
             (set_entry (le_entry lease) (entry\<lparr>e_closed := True, e_stream := stream, e_cancelled := True\<rparr>) hub,
              closeErr, True)))"

definition lease_Close :: "'p provider \<Rightarrow> 'p StreamHub \<Rightarrow> StreamLease \<Rightarrow> 'p StreamHub \<times> rt_error option" where
  "lease_Close prov hub lease =
     (case lease_Close_entry prov hub lease of
        (hub', err, closed) \<Rightarrow>
          (if closed then hub_remove (le_sessionID lease) (le_entry lease) hub' else hub', err))"

subsection \<open>Reaping\<close>

definition entry_expired :: "'p managedStream \<Rightarrow> go_time \<Rightarrow> bool" where
  "entry_expired entry now \<longleftrightarrow> \<not> now < e_expiresAt entry
     \<or> (\<not> e_attached entry \<and> \<not> is_zero_time (e_reconnectBy entry) \<and> now > e_reconnectBy entry)"

definition reap_entry :: "'p provider \<Rightarrow> go_time \<Rightarrow> nat \<Rightarrow> 'p StreamHub \<Rightarrow> 'p StreamHub \<times> bool" where
  "reap_entry prov now a hub =
     (let entry = entry_at hub a in
      if \<not> e_closed entry \<and> entry_expired entry now then
        (set_entry a (entry\<lparr>e_closed := True, e_stream := snd (po_Close prov (e_stream entry)),
                           e_cancelled := True\<rparr>) hub, True)
      else (hub, False))"

definition reap_one :: "'p provider \<Rightarrow> go_time \<Rightarrow> string \<times> nat \<Rightarrow> 'p StreamHub \<times> int \<Rightarrow> 'p StreamHub \<times> int" where
  "reap_one prov now registered acc =
     (case registered of (sessionID, a) \<Rightarrow>
        (case acc of (hub, reaped) \<Rightarrow>
           (case reap_entry prov now a hub of (hub', expired) \<Rightarrow>
              (if e_closed (entry_at hub' a) then hub_remove sessionID a hub' else hub',
               if expired then reaped + 1 else reaped))))"

definition hub_Reap :: "'p provider \<Rightarrow> 'p StreamHub \<Rightarrow> go_time \<Rightarrow> 'p StreamHub \<times> int" where
  "hub_Reap prov hub now =
     (if is_zero_time now then (hub, 0) else fold (reap_one prov now) (h_streams hub) (hub, 0))"

definition hub_Size :: "'p StreamHub \<Rightarrow> int" where
  "hub_Size hub = int (length (h_streams hub))"

subsection \<open>The mock provider\<close>

record asr_result =
  ar_Language :: string
  ar_Text :: string
  ar_Segments :: "(int \<times> string) list"
  ar_ProviderID :: string

record mockProviderStream =
  ms_result :: asr_result
  ms_frameDurationMS :: int
  ms_maxFrameBytes :: int
  ms_nextSequence :: int
  ms_lastCapturedMS :: int
  ms_emittedSegments :: nat
  ms_revision :: int
  ms_closed :: bool
  ms_finished :: bool

definition isChinese :: "string \<Rightarrow> bool" where
  "isChinese language0 =
     (let language = ascii_lower (trim_space language0) in
      language = ''zh'' \<or> take 3 language = ''zh-'' \<or> take 3 language = ''zh_'')"

text \<open>The decoded fixtures: the end and the text of each segment (the Chinese text in UTF-8).\<close>

definition englishFixture :: asr_result where
  "englishFixture = \<lparr>ar_Language = ''en-US'', ar_Text = ''Welcome to VoiceAsset.'',
     ar_Segments = [(500, ''Welcome to''), (1000, ''VoiceAsset.'')], ar_ProviderID = ''mock_asr''\<rparr>"

definition chineseFirst :: string where
  "chineseFirst = map char_of [0xE6, 0xAC, 0xA2, 0xE8, 0xBF, 0x8E, 0xE4, 0xBD, 0xBF, 0xE7, 0x94, 0xA8 :: nat]"

definition chineseSecond :: string where
  "chineseSecond = map char_of [0xE8, 0xAF, 0xAD, 0xE9, 0x9F, 0xB3, 0xE8, 0xB5, 0x84, 0xE4, 0xBA, 0xA7,
     0xE3, 0x80, 0x82 :: nat]"

definition chineseFixture :: asr_result where
  "chineseFixture = \<lparr>ar_Language = ''zh-CN'', ar_Text = chineseFirst @ chineseSecond,
     ar_Segments = [(450, chineseFirst), (1000, chineseSecond)], ar_ProviderID = ''mock_asr''\<rparr>"

definition mock_Open :: "Session \<Rightarrow> rt_error + mockProviderStream option" where
  "mock_Open session =
     (if s_Encoding session \<noteq> EncodingPCMS16LE \<or> \<not> validSampleRate (s_SampleRateHz session)
         \<or> s_Channels session \<noteq> 1 \<or> s_FrameDurationMS session < 20 \<or> s_FrameDurationMS session > 100 then
        Inl ErrInvalidEvent
      else Inr (Some \<lparr>ms_result = (if isChinese (s_Language session) then chineseFixture else englishFixture),
                      ms_frameDurationMS = s_FrameDurationMS session, ms_maxFrameBytes = maximumFrameBytes session,
                      ms_nextSequence = 0, ms_lastCapturedMS = 0, ms_emittedSegments = 0, ms_revision = 0,
                      ms_closed = False, ms_finished = False\<rparr>))"

text \<open>The loop that advances over the segments that end by \<open>through\<close>.\<close>

fun emit_through :: "(int \<times> string) list \<Rightarrow> int \<Rightarrow> nat" where
  "emit_through [] through = 0"
| "emit_through ((endMS, _) # segments) through =
     (if endMS \<le> through then Suc (emit_through segments through) else 0)"

definition mock_Push ::
  "bool \<Rightarrow> ProviderFrame \<Rightarrow> mockProviderStream \<Rightarrow> (rt_error + TranscriptUpdate option) \<times> mockProviderStream" where
  "mock_Push ctxErr frame stream =
     (if ctxErr then (Inl (ErrOther ''context canceled''), stream)
      else if ms_closed stream \<or> ms_finished stream then (Inl ErrStateConflict, stream)
      else if pf_Sequence frame \<noteq> ms_nextSequence stream then (Inl ErrSequenceGap, stream)
      else if pf_PCM frame = [] \<or> int (length (pf_PCM frame)) > ms_maxFrameBytes stream
         \<or> length (pf_PCM frame) mod 2 \<noteq> 0 \<or> pf_CapturedAtMS frame < 0
         \<or> (pf_Sequence frame > 0 \<and> pf_CapturedAtMS frame < ms_lastCapturedMS stream) then
        (Inl ErrFrameSize, stream)
      else
        (let stream1 = stream\<lparr>ms_nextSequence := i64 (ms_nextSequence stream + 1),
                              ms_lastCapturedMS := pf_CapturedAtMS frame\<rparr>;
             through = i64 (pf_CapturedAtMS frame + ms_frameDurationMS stream);
             segments = ar_Segments (ms_result stream);
             emitted = ms_emittedSegments stream;
             emitThrough = emitted + emit_through (drop emitted segments) through
         in
         if emitThrough = emitted then (Inr None, stream1)
         else
           (let revision = i64 (ms_revision stream + 1);
                separator = (if take 2 (ascii_lower (ar_Language (ms_result stream))) = ''zh'' then [] else '' '')
            in (Inr (Some \<lparr>tu_Revision = revision, tu_Text = join separator (map snd (take emitThrough segments)),
                           tu_FinalThroughMS = fst (segments ! (emitThrough - 1))\<rparr>),
                stream1\<lparr>ms_emittedSegments := emitThrough, ms_revision := revision\<rparr>))))"

definition mock_Finish :: "bool \<Rightarrow> mockProviderStream \<Rightarrow> (rt_error + ProviderResult) \<times> mockProviderStream" where
  "mock_Finish ctxErr stream =
     (if ctxErr then (Inl (ErrOther ''context canceled''), stream)
      else if ms_closed stream \<or> ms_finished stream \<or> ms_nextSequence stream = 0 then (Inl ErrStateConflict, stream)
      else (Inr \<lparr>pr_Text = ar_Text (ms_result stream), pr_Language = ar_Language (ms_result stream),
                 pr_ProviderID = ar_ProviderID (ms_result stream)\<rparr>, stream\<lparr>ms_finished := True\<rparr>))"

definition mock_Close :: "mockProviderStream \<Rightarrow> rt_error option \<times> mockProviderStream" where
  "mock_Close stream = (None, stream\<lparr>ms_closed := True\<rparr>)"

definition mockProvider :: "mockProviderStream provider" where
  "mockProvider = \<lparr>po_Open = mock_Open, po_Push = mock_Push, po_Finish = mock_Finish, po_Close = mock_Close\<rparr>"

subsection \<open>Interleaved operation\<close>

text \<open>
  The atomic sections of the hub, in any order: leases may be used by any goroutine at any time.  A
  lease always refers to an allocated entry, since \<^verbatim>\<open>Start\<close> and \<^verbatim>\<open>Resume\<close> are the only sources of leases.
\<close>

inductive hub_step :: "'p provider \<Rightarrow> 'p StreamHub \<Rightarrow> (nat \<times> int) list \<Rightarrow> 'p StreamHub \<Rightarrow> bool" for prov where
  start: "po_Open prov session = Inr (Some stream) \<Longrightarrow> hub_Start_insert hub session stream = (hub', r) \<Longrightarrow>
    hub_step prov hub [] hub'"
| resume: "hub_Resume hub session now = (hub', r) \<Longrightarrow> hub_step prov hub [] hub'"
| push: "le_entry lease < length (h_entries hub) \<Longrightarrow> lease_Push prov hub lease ctxErr now frame = (hub', r) \<Longrightarrow>
    hub_step prov hub (case r of Inl _ \<Rightarrow> [] | Inr _ \<Rightarrow> [(le_entry lease, pf_Sequence frame)]) hub'"
| detach: "le_entry lease < length (h_entries hub) \<Longrightarrow> lease_Detach hub lease reconnectBy = (hub', e) \<Longrightarrow>
    hub_step prov hub [] hub'"
| finish: "le_entry lease < length (h_entries hub) \<Longrightarrow> lease_Finish_entry prov hub lease ctxErr = (hub', r, b) \<Longrightarrow>
    hub_step prov hub [] hub'"
| close: "le_entry lease < length (h_entries hub) \<Longrightarrow> lease_Close_entry prov hub lease = (hub', e, b) \<Longrightarrow>
    hub_step prov hub [] hub'"
| reap: "a < length (h_entries hub) \<Longrightarrow> reap_entry prov now a hub = (hub', b) \<Longrightarrow> hub_step prov hub [] hub'"
| remove: "a < length (h_entries hub) \<Longrightarrow> e_closed (entry_at hub a) \<Longrightarrow> hub_remove sid a hub = hub' \<Longrightarrow>
    hub_step prov hub [] hub'"

text \<open>Reachable hubs, with the number of sections run and the frames the provider accepted, per entry.\<close>

inductive hub_run :: "'p provider \<Rightarrow> nat \<Rightarrow> 'p StreamHub \<Rightarrow> (nat \<times> int) list \<Rightarrow> bool" for prov where
  new: "hub_run prov 0 NewStreamHub []"
| step: "hub_run prov n hub log \<Longrightarrow> hub_step prov hub evs hub' \<Longrightarrow> hub_run prov (Suc n) hub' (log @ evs)"

text \<open>
  The effect of a section on the entries: at most one entry changes, and in one of five ways.
\<close>

inductive entry_change :: "'p provider \<Rightarrow> 'p managedStream \<Rightarrow> 'p managedStream \<Rightarrow> bool" for prov where
  same: "entry_change prov e e"
| pushed: "\<not> e_closed e \<Longrightarrow> e_attached e \<Longrightarrow> entry_change prov e (e\<lparr>e_stream := snd (po_Push prov c f (e_stream e))\<rparr>)"
| attached: "\<not> e_closed e \<Longrightarrow> \<not> e_attached e \<Longrightarrow>
    entry_change prov e (e\<lparr>e_lease := (e_lease e + 1) mod 18446744073709551616, e_attached := True, e_reconnectBy := 0\<rparr>)"
| detached: "\<not> e_closed e \<Longrightarrow> e_attached e \<Longrightarrow> entry_change prov e (e\<lparr>e_attached := False, e_reconnectBy := r\<rparr>)"
| finished: "\<not> e_closed e \<Longrightarrow> e_attached e \<Longrightarrow> entry_change prov e (e\<lparr>e_closed := True,
    e_stream := snd (po_Close prov (snd (po_Finish prov c (e_stream e)))), e_cancelled := True\<rparr>)"
| closed: "\<not> e_closed e \<Longrightarrow> entry_change prov e
    (e\<lparr>e_closed := True, e_stream := snd (po_Close prov (e_stream e)), e_cancelled := True\<rparr>)"

lemma set_entry_simps [simp]:
  "h_streams (set_entry a e hub) = h_streams hub" "length (h_entries (set_entry a e hub)) = length (h_entries hub)"
  by (simp_all add: set_entry_def)

lemma entry_at_set [simp]:
  "b < length (h_entries hub) \<Longrightarrow> entry_at (set_entry a e hub) b = (if b = a then e else entry_at hub b)"
  by (auto simp: set_entry_def entry_at_def)

lemma hub_remove_simps [simp]:
  "h_entries (hub_remove sid a hub) = h_entries hub" "entry_at (hub_remove sid a hub) b = entry_at hub b"
  by (simp_all add: hub_remove_def entry_at_def)

text \<open>A registered address is an allocated one, each session has one entry, and no entry leaks.\<close>

definition hub_inv :: "'p StreamHub \<Rightarrow> bool" where
  "hub_inv hub \<longleftrightarrow> distinct (map fst (h_streams hub)) \<and> distinct (map snd (h_streams hub))
     \<and> (\<forall>(sid, a) \<in> set (h_streams hub). a < length (h_entries hub))
     \<and> (\<forall>a < length (h_entries hub). \<not> e_closed (entry_at hub a) \<longrightarrow> a \<in> snd ` set (h_streams hub))
     \<and> (\<forall>a < length (h_entries hub). e_closed (entry_at hub a) \<longrightarrow> e_cancelled (entry_at hub a))"

lemma set_entry_change:
  "entry_change prov (entry_at hub a) e \<Longrightarrow> b < length (h_entries hub) \<Longrightarrow>
   entry_change prov (entry_at hub b) (entry_at (set_entry a e hub) b)"
  by (simp add: entry_change.same)

lemma hub_change:
  assumes "hub_step prov hub evs hub'" "hub_inv hub"
  shows "length (h_entries hub) \<le> length (h_entries hub') \<and>
    (\<forall>a < length (h_entries hub). entry_change prov (entry_at hub a) (entry_at hub' a)) \<and>
    (\<forall>a. length (h_entries hub) \<le> a \<longrightarrow> a < length (h_entries hub') \<longrightarrow>
       e_lease (entry_at hub' a) = 1 \<and> \<not> e_closed (entry_at hub' a))"
  using assms(1)
proof (cases rule: hub_step.cases)
  case (start session stream r)
  then show ?thesis
    by (cases "map_of (h_streams hub) (s_ID session) = None")
      (auto simp: hub_Start_insert_def Let_def entry_at_def nth_append less_Suc_eq intro: entry_change.same)
next
  case (resume session now r)
  have "a < length (h_entries hub)" if "map_of (h_streams hub) sid = Some a" for sid a
    using assms(2) map_of_SomeD [OF that] by (auto simp: hub_inv_def)
  with resume show ?thesis
    by (auto simp: hub_Resume_def Let_def split: option.splits if_splits intro: entry_change.intros)
next
  case (push lease ctxErr now frame r)
  then have "hub' = hub \<or> \<not> lease_stale hub lease \<and> hub' = set_entry (le_entry lease)
      ((entry_at hub (le_entry lease))\<lparr>e_stream := snd (po_Push prov ctxErr frame (e_stream (entry_at hub (le_entry lease))))\<rparr>) hub"
    by (auto simp: lease_Push_def Let_def split: prod.splits if_splits)
  then show ?thesis
    by (auto simp del: entry_at_set simp: lease_stale_def Let_def intro: set_entry_change entry_change.same entry_change.pushed)
next
  case (detach lease r e)
  then show ?thesis
    by (auto simp: lease_Detach_def lease_stale_def Let_def split: if_splits intro: entry_change.intros)
next
  case (finish lease ctxErr r b)
  then have "hub' = hub \<or> \<not> lease_stale hub lease \<and> hub' = set_entry (le_entry lease)
      ((entry_at hub (le_entry lease))\<lparr>e_closed := True, e_stream := snd (po_Close prov (snd (po_Finish prov ctxErr
         (e_stream (entry_at hub (le_entry lease)))))), e_cancelled := True\<rparr>) hub"
    by (auto simp: lease_Finish_entry_def Let_def split: prod.splits if_splits)
  then show ?thesis
    by (auto simp del: entry_at_set simp: lease_stale_def Let_def intro: set_entry_change entry_change.same entry_change.finished)
next
  case (close lease e b)
  then have "hub' = hub \<or> \<not> e_closed (entry_at hub (le_entry lease)) \<and> hub' = set_entry (le_entry lease)
      ((entry_at hub (le_entry lease))\<lparr>e_closed := True, e_stream := snd (po_Close prov
         (e_stream (entry_at hub (le_entry lease)))), e_cancelled := True\<rparr>) hub"
    by (auto simp: lease_Close_entry_def Let_def split: prod.splits if_splits)
  then show ?thesis by (auto simp del: entry_at_set intro: set_entry_change entry_change.same entry_change.closed)
next
  case (reap a now b)
  then show ?thesis by (auto simp: reap_entry_def Let_def split: if_splits intro: entry_change.intros)
next
  case (remove a sid)
  then show ?thesis by (auto intro: entry_change.same)
qed

lemma hub_streams_change:
  assumes "hub_step prov hub evs hub'"
  shows "h_streams hub' = h_streams hub \<and> length (h_entries hub') = length (h_entries hub) \<or>
    (\<exists>sid. map_of (h_streams hub) sid = None \<and> h_streams hub' = (sid, length (h_entries hub)) # h_streams hub \<and>
       length (h_entries hub') = Suc (length (h_entries hub))) \<or>
    (\<exists>sid a. map_of (h_streams hub) sid = Some a \<and> e_closed (entry_at hub a) \<and> h_entries hub' = h_entries hub \<and>
       h_streams hub' = filter (\<lambda>(x, _). x \<noteq> sid) (h_streams hub))"
  using assms
proof (cases rule: hub_step.cases)
  case (remove a sid)
  show ?thesis
  proof (cases "map_of (h_streams hub) sid = Some a")
    case True
    with remove show ?thesis
      by (intro disjI2 exI [of _ sid] exI [of _ a]) (auto simp: hub_remove_def)
  qed (use remove in \<open>simp add: hub_remove_def\<close>)
qed (auto simp: hub_Start_insert_def hub_Resume_def lease_Push_def lease_Detach_def lease_Finish_entry_def
      lease_Close_entry_def reap_entry_def Let_def split: if_splits option.splits prod.splits)

lemma entry_change_closed: "entry_change prov e e' \<Longrightarrow> e_closed e \<Longrightarrow> e' = e"
  by (auto elim: entry_change.cases)

lemma entry_change_mono: "entry_change prov e e' \<Longrightarrow> e_closed e \<Longrightarrow> e_closed e'"
  by (drule (1) entry_change_closed) simp

lemma entry_change_cancelled: "entry_change prov e e' \<Longrightarrow> (e_closed e \<Longrightarrow> e_cancelled e) \<Longrightarrow> e_closed e' \<Longrightarrow> e_cancelled e'"
  by (auto elim!: entry_change.cases)

lemma hub_inv_step:
  assumes "hub_step prov hub evs hub'" "hub_inv hub"
  shows "hub_inv hub'"
proof -
  note ch = hub_change [OF assms]
  have open_before: "\<not> e_closed (entry_at hub a)" if "a < length (h_entries hub)" "\<not> e_closed (entry_at hub' a)" for a
    using ch that entry_change_mono by blast
  have canc: "e_cancelled (entry_at hub' a)" if "a < length (h_entries hub')" "e_closed (entry_at hub' a)" for a
  proof (cases "a < length (h_entries hub)")
    case True
    then show ?thesis using ch that(2) assms(2) entry_change_cancelled unfolding hub_inv_def by blast
  qed (use ch that in auto)
  note inv = assms(2) [unfolded hub_inv_def]
  consider (same) "h_streams hub' = h_streams hub" "length (h_entries hub') = length (h_entries hub)"
    | (start) sid where "map_of (h_streams hub) sid = None" "h_streams hub' = (sid, length (h_entries hub)) # h_streams hub"
        "length (h_entries hub') = Suc (length (h_entries hub))"
    | (remove) sid a where "map_of (h_streams hub) sid = Some a" "e_closed (entry_at hub a)"
        "h_entries hub' = h_entries hub" "h_streams hub' = filter (\<lambda>(x, _). x \<noteq> sid) (h_streams hub)"
    using hub_streams_change [OF assms(1)] by blast
  then show ?thesis
  proof cases
    case same
    then show ?thesis using inv open_before canc by (auto simp: hub_inv_def)
  next
    case (start sid)
    then have "sid \<notin> fst ` set (h_streams hub)" "length (h_entries hub) \<notin> snd ` set (h_streams hub)"
      using inv by (auto simp: map_of_eq_None_iff)
    then show ?thesis using start inv open_before canc by (auto simp: hub_inv_def less_Suc_eq)
  next
    case (remove sid a)
    have "b \<in> snd ` set (h_streams hub')" if b: "b < length (h_entries hub')" "\<not> e_closed (entry_at hub' b)" for b
    proof -
      have "\<not> e_closed (entry_at hub b)" using b remove by (simp add: entry_at_def)
      moreover obtain x where x: "(x, b) \<in> set (h_streams hub)"
        using b inv remove by (force simp: entry_at_def)
      moreover have "distinct (map fst (h_streams hub))" using inv by blast
      ultimately have "x \<noteq> sid"
        using remove(1,2) eq_key_imp_eq_value [OF _ map_of_SomeD [OF remove(1)], of b] by metis
      then show ?thesis using x remove(4) by force
    qed
    moreover have "distinct (map fst (h_streams hub'))" "distinct (map snd (h_streams hub'))"
      "set (h_streams hub') \<subseteq> set (h_streams hub)"
      using remove inv by (auto simp: distinct_map_filter)
    ultimately show ?thesis using remove(3) inv canc unfolding hub_inv_def by auto
  qed
qed

lemma hub_run_inv: "hub_run prov n hub log \<Longrightarrow> hub_inv hub"
proof (induction rule: hub_run.induct)
  case new
  show ?case by (simp add: hub_inv_def NewStreamHub_def)
qed (rule hub_inv_step)

subsection \<open>Leases\<close>

lemma hub_run_lease:
  assumes "hub_run prov n hub log" "a < length (h_entries hub)" "n < 2 ^ 63"
  shows "1 \<le> e_lease (entry_at hub a) \<and> e_lease (entry_at hub a) \<le> int n"
  using assms
proof (induction arbitrary: a rule: hub_run.induct)
  case (step n hub log evs hub')
  note ch = hub_change [OF step.hyps(2) hub_run_inv [OF step.hyps(1)]]
  show ?case
  proof (cases "a < length (h_entries hub)")
    case True
    then have e: "entry_change prov (entry_at hub a) (entry_at hub' a)" using ch by blast
    have "1 \<le> e_lease (entry_at hub a)" "e_lease (entry_at hub a) \<le> int n"
      using step.IH [OF True] step.prems by simp_all
    moreover from this step.prems(2) have "(e_lease (entry_at hub a) + 1) mod 18446744073709551616 = e_lease (entry_at hub a) + 1"
      by (intro mod_pos_pos_trivial) auto
    ultimately show ?thesis using e by (auto elim!: entry_change.cases)
  next
    case False
    then show ?thesis using ch step.prems(1) by auto
  qed
qed (simp add: NewStreamHub_def)

text \<open>A lease that was handed out and is no longer the current one.\<close>

definition superseded :: "'p managedStream \<Rightarrow> StreamLease \<Rightarrow> bool" where
  "superseded e lease \<longleftrightarrow> e_closed e \<or> le_lease lease < e_lease e \<or> (le_lease lease = e_lease e \<and> \<not> e_attached e)"

lemma superseded_change:
  assumes "entry_change prov e e'" "superseded e lease" "1 \<le> e_lease e" "e_lease e < 2 ^ 63"
  shows "superseded e' lease"
proof -
  have "(e_lease e + 1) mod 18446744073709551616 = e_lease e + 1"
    using assms(3,4) by (intro mod_pos_pos_trivial) auto
  with assms(1,2) show ?thesis by (auto simp: superseded_def elim!: entry_change.cases)
qed

lemma superseded_stale: "superseded (entry_at hub (le_entry lease)) lease \<Longrightarrow> lease_stale hub lease"
  by (auto simp: superseded_def lease_stale_def Let_def)

lemma stale_refused:
  "lease_stale hub lease \<Longrightarrow> lease_Push prov hub lease c now f = (hub, Inl ErrStaleStreamLease)"
  "lease_stale hub lease \<Longrightarrow> lease_Finish prov hub lease c = (hub, Inl ErrStaleStreamLease)"
  "lease_stale hub lease \<Longrightarrow> lease_Detach hub lease r = (hub, Some ErrStaleStreamLease)"
  by (simp_all add: lease_Push_def lease_Finish_def lease_Finish_entry_def lease_Detach_def Let_def)

text \<open>Steps without their labels, and several of them.\<close>

inductive hub_steps :: "'p provider \<Rightarrow> nat \<Rightarrow> 'p StreamHub \<Rightarrow> 'p StreamHub \<Rightarrow> bool" for prov where
  refl: "hub_steps prov 0 hub hub"
| step: "hub_steps prov n hub hub' \<Longrightarrow> hub_step prov hub' evs hub'' \<Longrightarrow> hub_steps prov (Suc n) hub hub''"

lemma hub_steps_run: "hub_steps prov m hub hub' \<Longrightarrow> hub_run prov n hub log \<Longrightarrow> \<exists>log'. hub_run prov (n + m) hub' log'"
  by (induction rule: hub_steps.induct) (auto intro: hub_run.step)

lemma superseded_forever:
  assumes "hub_steps prov m hub hub'" "hub_run prov n hub log" "n + m < 2 ^ 63"
    and "le_entry lease < length (h_entries hub)" "superseded (entry_at hub (le_entry lease)) lease"
  shows "le_entry lease < length (h_entries hub') \<and> superseded (entry_at hub' (le_entry lease)) lease"
  using assms
proof (induction rule: hub_steps.induct)
  case (step m hub hub' evs hub'')
  then have IH: "le_entry lease < length (h_entries hub')" "superseded (entry_at hub' (le_entry lease)) lease" by simp_all
  obtain log' where run: "hub_run prov (n + m) hub' log'"
    using hub_steps_run [OF step.hyps(1) step.prems(1)] by blast
  have "1 \<le> e_lease (entry_at hub' (le_entry lease))" "e_lease (entry_at hub' (le_entry lease)) < 2 ^ 63"
    using hub_run_lease [OF run IH(1)] step.prems(2) by auto
  moreover note ch = hub_change [OF step.hyps(2) hub_run_inv [OF run]]
  ultimately show ?case
    using superseded_change [OF _ IH(2)] IH(1) by (meson less_le_trans)
qed simp

lemma closed_forever:
  assumes "hub_steps prov m hub hub'" "hub_run prov n hub log" "a < length (h_entries hub)" "e_closed (entry_at hub a)"
  shows "a < length (h_entries hub') \<and> entry_at hub' a = entry_at hub a"
  using assms
proof (induction rule: hub_steps.induct)
  case (step m hub hub' evs hub'')
  obtain log' where run: "hub_run prov (n + m) hub' log'"
    using hub_steps_run [OF step.hyps(1) step.prems(1)] by blast
  note ch = hub_change [OF step.hyps(2) hub_run_inv [OF run]]
  then show ?case using step entry_change_closed by (metis less_le_trans)
qed simp

subsection \<open>Providers that take frames in order\<close>

text \<open>
  The contract between the hub and a provider stream: \<open>accepted\<close> counts the frames a stream took; a
  push succeeds only for the next frame.  The hub's lemmas are proved from it; the mock provider
  satisfies it.
\<close>

locale ordered_provider =
  fixes prov :: "'p provider" and accepted :: "'p \<Rightarrow> int"
  assumes open_none: "po_Open prov s = Inr (Some p) \<Longrightarrow> accepted p = 0"
    and push_next: "po_Push prov c f p = (Inr u, p') \<Longrightarrow> pf_Sequence f = accepted p \<and> accepted p' = i64 (accepted p + 1)"
    and push_refused: "po_Push prov c f p = (Inl e, p') \<Longrightarrow> accepted p' = accepted p"
    and finish_keeps: "accepted (snd (po_Finish prov c p)) = accepted p"
    and close_keeps: "accepted (snd (po_Close prov p)) = accepted p"
begin

lemma push_count:
  assumes "lease_Push prov hub lease c now f = (hub', r)" "le_entry lease < length (h_entries hub)" "a < length (h_entries hub)"
  shows "accepted (e_stream (entry_at hub' a)) =
    (if a = le_entry lease \<and> (\<exists>u. r = Inr u) then i64 (accepted (e_stream (entry_at hub a)) + 1)
     else accepted (e_stream (entry_at hub a)))"
    and "r = Inr u \<Longrightarrow> pf_Sequence f = accepted (e_stream (entry_at hub (le_entry lease)))"
proof -
  let ?e = "entry_at hub (le_entry lease)"
  obtain r0 p' where q: "po_Push prov c f (e_stream ?e) = (r0, p')" by (rule prod.exhaust)
  have push: "(hub' = hub \<and> (\<exists>e. r = Inl e)) \<or> (hub' = set_entry (le_entry lease) (?e\<lparr>e_stream := p'\<rparr>) hub \<and> r = r0)"
    using assms(1) q by (auto simp: lease_Push_def Let_def split: if_splits)
  show "accepted (e_stream (entry_at hub' a)) =
    (if a = le_entry lease \<and> (\<exists>u. r = Inr u) then i64 (accepted (e_stream (entry_at hub a)) + 1)
     else accepted (e_stream (entry_at hub a)))"
  proof (cases r0)
    case (Inl e)
    then show ?thesis using push push_refused [OF q [unfolded Inl]] assms(3) by auto
  next
    case (Inr u)
    then show ?thesis using push push_next [OF q [unfolded Inr]] assms(3) by auto
  qed
  show "pf_Sequence f = accepted (e_stream ?e)" if "r = Inr u"
    using push that q push_next [of c f "e_stream ?e" u p'] by auto
qed

lemma quiet_count:
  assumes "hub_step prov hub [] hub'" "hub_inv hub" "a < length (h_entries hub)"
  shows "accepted (e_stream (entry_at hub' a)) = accepted (e_stream (entry_at hub a))"
  using assms(1)
proof (cases rule: hub_step.cases)
  case (start session stream r)
  then show ?thesis using assms(3)
    by (auto simp: hub_Start_insert_def Let_def entry_at_def nth_append split: if_splits)
next
  case (resume session now r)
  then show ?thesis using assms(3)
    by (auto simp: hub_Resume_def Let_def split: if_splits option.splits)
next
  case (push lease ctxErr now frame r)
  then show ?thesis using push_count(1) [OF push(3,2) assms(3)] by (auto split: sum.splits)
next
  case (detach lease reconnectBy e)
  then show ?thesis using assms(3) by (auto simp: lease_Detach_def Let_def split: if_splits)
next
  case (finish lease ctxErr r b)
  then show ?thesis using assms(3) finish_keeps close_keeps
    by (auto simp: lease_Finish_entry_def Let_def split: if_splits prod.splits) (metis snd_conv)
next
  case (close lease e b)
  then show ?thesis using assms(3) close_keeps
    by (auto simp: lease_Close_entry_def Let_def split: if_splits prod.splits) (metis snd_conv)
next
  case (reap a now b)
  then show ?thesis using assms(3) close_keeps by (auto simp: reap_entry_def Let_def split: if_splits)
next
  case (remove a sid)
  then show ?thesis by auto
qed

lemma new_entry_count:
  assumes "hub_step prov hub evs hub'" "hub_inv hub" "length (h_entries hub) \<le> a" "a < length (h_entries hub')"
  shows "accepted (e_stream (entry_at hub' a)) = 0 \<and> evs = []"
  using assms(1)
proof (cases rule: hub_step.cases)
  case (start session stream r)
  then show ?thesis using assms(3,4) open_none [OF start(2)]
    by (auto simp: hub_Start_insert_def Let_def entry_at_def nth_append less_Suc_eq split: if_splits)
qed (use assms(3,4) in \<open>auto simp: hub_Resume_def lease_Push_def lease_Detach_def lease_Finish_entry_def
    lease_Close_entry_def reap_entry_def Let_def split: if_splits option.splits prod.splits\<close>)

lemma log_in_order:
  assumes "hub_run prov n hub log" "n < 2 ^ 63"
  shows "\<forall>a. map snd (filter (\<lambda>(b, _). b = a) log) = map int [0..<length (filter (\<lambda>(b, _). b = a) log)]
    \<and> length (filter (\<lambda>(b, _). b = a) log) \<le> n
    \<and> (if a < length (h_entries hub)
       then accepted (e_stream (entry_at hub a)) = int (length (filter (\<lambda>(b, _). b = a) log))
       else filter (\<lambda>(b, _). b = a) log = [])"
  using assms
proof (induction rule: hub_run.induct)
  case (step n hub log evs hub')
  note inv = hub_run_inv [OF step.hyps(1)]
  let ?of = "\<lambda>a. filter (\<lambda>(b, _). b = a)"
  have IH: "map snd (?of a log) = map int [0..<length (?of a log)]" "length (?of a log) \<le> n"
    "a < length (h_entries hub) \<Longrightarrow> accepted (e_stream (entry_at hub a)) = int (length (?of a log))"
    "\<not> a < length (h_entries hub) \<Longrightarrow> ?of a log = []" for a
    using step.IH step.prems by (auto split: if_splits)
  note ch = hub_change [OF step.hyps(2) inv]
  show ?case
  proof (cases evs)
    case Nil
    show ?thesis
    proof
      fix a
      show "map snd (?of a (log @ evs)) = map int [0..<length (?of a (log @ evs))] \<and> length (?of a (log @ evs)) \<le> Suc n
        \<and> (if a < length (h_entries hub') then accepted (e_stream (entry_at hub' a)) = int (length (?of a (log @ evs)))
           else ?of a (log @ evs) = [])"
        using IH [of a] quiet_count [OF step.hyps(2) [unfolded Nil] inv, of a]
          new_entry_count [OF step.hyps(2) inv, of a] ch Nil
        by (cases "a < length (h_entries hub)") (auto simp: not_less)
    qed
  next
    case (Cons x xs)
    from step.hyps(2) obtain lease c now f r where
      l: "le_entry lease < length (h_entries hub)" "lease_Push prov hub lease c now f = (hub', r)"
      and evs: "evs = (case r of Inl _ \<Rightarrow> [] | Inr _ \<Rightarrow> [(le_entry lease, pf_Sequence f)])"
      using Cons by (cases rule: hub_step.cases) auto
    then obtain u where u: "r = Inr u" "evs = [(le_entry lease, pf_Sequence f)]" using Cons by (cases r) auto
    have len: "length (h_entries hub') = length (h_entries hub)"
      using l(2) by (auto simp: lease_Push_def Let_def split: if_splits prod.splits)
    show ?thesis
    proof
      fix a
      have seq: "pf_Sequence f = int (length (?of (le_entry lease) log))"
        using push_count(2) [OF l(2,1) l(1) u(1)] IH(3) [OF l(1)] by simp
      have nowrap: "i64 (int (length (?of a log)) + 1) = int (length (?of a log)) + 1"
        using IH(2) [of a] step.prems by (subst i64_small) auto
      show "map snd (?of a (log @ evs)) = map int [0..<length (?of a (log @ evs))] \<and> length (?of a (log @ evs)) \<le> Suc n
        \<and> (if a < length (h_entries hub') then accepted (e_stream (entry_at hub' a)) = int (length (?of a (log @ evs)))
           else ?of a (log @ evs) = [])"
        using IH [of a] push_count(1) [OF l(2,1), of a] seq nowrap l(1) u len by (auto split: if_splits)
    qed
  qed
qed (simp add: NewStreamHub_def)

end

interpretation mock: ordered_provider mockProvider ms_nextSequence
proof
  fix s p
  assume "po_Open mockProvider s = Inr (Some p)"
  then show "ms_nextSequence p = 0" by (auto simp: mockProvider_def mock_Open_def split: if_splits)
next
  fix c f p u p'
  assume "po_Push mockProvider c f p = (Inr u, p')"
  then show "pf_Sequence f = ms_nextSequence p \<and> ms_nextSequence p' = i64 (ms_nextSequence p + 1)"
    by (auto simp: mockProvider_def mock_Push_def Let_def split: if_splits)
next
  fix c f p e p'
  assume "po_Push mockProvider c f p = (Inl e, p')"
  then show "ms_nextSequence p' = ms_nextSequence p"
    by (auto simp: mockProvider_def mock_Push_def Let_def split: if_splits)
qed (auto simp: mockProvider_def mock_Finish_def mock_Close_def)


subsection \<open>Reaping\<close>

definition reapable :: "go_time \<Rightarrow> 'p StreamHub \<Rightarrow> string \<times> nat \<Rightarrow> bool" where
  "reapable now hub x \<longleftrightarrow> \<not> e_closed (entry_at hub (snd x)) \<and> entry_expired (entry_at hub (snd x)) now"

definition reaped_entry :: "'p provider \<Rightarrow> 'p managedStream \<Rightarrow> 'p managedStream" where
  "reaped_entry prov e = e\<lparr>e_closed := True, e_stream := snd (po_Close prov (e_stream e)), e_cancelled := True\<rparr>"

definition kept :: "go_time \<Rightarrow> 'p StreamHub \<Rightarrow> string \<times> nat \<Rightarrow> bool" where
  "kept now hub x \<longleftrightarrow> \<not> e_closed (entry_at hub (snd x)) \<and> \<not> entry_expired (entry_at hub (snd x)) now"

lemma reap_one_eq:
  assumes "map_of (h_streams hub) sid = Some a" "a < length (h_entries hub)"
  shows "reap_one prov now (sid, a) (hub, k) =
    (let hub1 = (if reapable now hub (sid, a) then set_entry a (reaped_entry prov (entry_at hub a)) hub else hub) in
     (if kept now hub (sid, a) then hub1 else hub1\<lparr>h_streams := filter (\<lambda>(x, _). x \<noteq> sid) (h_streams hub)\<rparr>,
      if reapable now hub (sid, a) then k + 1 else k))"
  using assms
  by (auto simp: reap_one_def reap_entry_def reapable_def kept_def reaped_entry_def hub_remove_def Let_def)

lemma fold_reap:
  assumes "distinct (map fst xs)" "distinct (map snd xs)" "distinct (map fst (h_streams hub))"
    and "set xs \<subseteq> set (h_streams hub)" "\<forall>(sid, a) \<in> set xs. a < length (h_entries hub)"
  shows "\<exists>hub'. fold (reap_one prov now) xs (hub, k) = (hub', k + int (length (filter (reapable now hub) xs))) \<and>
    h_streams hub' = filter (\<lambda>x. x \<in> set xs \<longrightarrow> kept now hub x) (h_streams hub) \<and>
    length (h_entries hub') = length (h_entries hub) \<and>
    (\<forall>b < length (h_entries hub). entry_at hub' b =
       (if b \<in> snd ` set (filter (reapable now hub) xs) then reaped_entry prov (entry_at hub b) else entry_at hub b))"
  using assms
proof (induction xs arbitrary: hub k)
  case (Cons x xs)
  obtain sid a where x: "x = (sid, a)" by (cases x)
  have m: "map_of (h_streams hub) sid = Some a" using Cons.prems(3,4) x by (auto intro: map_of_is_SomeI)
  have a: "a < length (h_entries hub)" using Cons.prems(5) x by auto
  define hub1 where "hub1 = (if reapable now hub x then set_entry a (reaped_entry prov (entry_at hub a)) hub else hub)"
  define hub2 where "hub2 = (if kept now hub x then hub1 else hub1\<lparr>h_streams := filter (\<lambda>(y, _). y \<noteq> sid) (h_streams hub)\<rparr>)"
  define k2 where "k2 = (if reapable now hub x then k + 1 else k)"
  have one: "reap_one prov now x (hub, k) = (hub2, k2)"
    by (simp add: x reap_one_eq [OF m a] hub2_def hub1_def k2_def Let_def)
  have len: "length (h_entries hub2) = length (h_entries hub)"
    by (simp add: hub2_def hub1_def)
  have entries: "entry_at hub2 b = (if b = a \<and> reapable now hub x then reaped_entry prov (entry_at hub b) else entry_at hub b)"
    if "b < length (h_entries hub)" for b
    using that by (auto simp: hub2_def hub1_def entry_at_def set_entry_def)
  have streams: "h_streams hub2 = filter (\<lambda>y. y = x \<longrightarrow> kept now hub x) (h_streams hub)"
  proof (cases "kept now hub x")
    case True
    then show ?thesis by (simp add: hub2_def hub1_def)
  next
    case False
    have "filter (\<lambda>(y, _). y \<noteq> sid) (h_streams hub) = filter (\<lambda>y. y \<noteq> x) (h_streams hub)"
      using map_of_SomeD [OF m] Cons.prems(3) x by (intro filter_cong) (auto dest: eq_key_imp_eq_value)
    then show ?thesis using False by (simp add: hub2_def)
  qed
  have other: "snd y \<noteq> a" "y \<noteq> x" "snd y < length (h_entries hub)" if "y \<in> set xs" for y
    using that Cons.prems(2,5) x by (force, force, auto)
  have same: "reapable now hub2 y = reapable now hub y" "kept now hub2 y = kept now hub y" if "y \<in> set xs" for y
    using other [OF that] entries [of "snd y"] by (auto simp: reapable_def kept_def)
  have "set xs \<subseteq> set (h_streams hub2)" using Cons.prems(4) other(2) by (auto simp: streams)
  moreover have "distinct (map fst (h_streams hub2))" using Cons.prems(3) by (simp add: streams distinct_map_filter)
  moreover have "\<forall>(sid, a) \<in> set xs. a < length (h_entries hub2)" using Cons.prems(5) len by auto
  ultimately obtain hub' where IH: "fold (reap_one prov now) xs (hub2, k2) = (hub', k2 + int (length (filter (reapable now hub2) xs)))"
    "h_streams hub' = filter (\<lambda>y. y \<in> set xs \<longrightarrow> kept now hub2 y) (h_streams hub2)"
    "length (h_entries hub') = length (h_entries hub2)"
    "\<forall>b < length (h_entries hub2). entry_at hub' b =
       (if b \<in> snd ` set (filter (reapable now hub2) xs) then reaped_entry prov (entry_at hub2 b) else entry_at hub2 b)"
    using Cons.IH [of hub2 k2] Cons.prems(1,2) by auto
  have fr: "filter (reapable now hub2) xs = filter (reapable now hub) xs" using same by (intro filter_cong) auto
  have fs: "h_streams hub' = filter (\<lambda>y. y \<in> set (x # xs) \<longrightarrow> kept now hub y) (h_streams hub)"
    unfolding IH(2) streams filter_filter using same by (intro filter_cong) auto
  have "a \<notin> snd ` set xs" using other(1) by auto
  then have fe: "\<forall>b < length (h_entries hub). entry_at hub' b = (if b \<in> snd ` set (filter (reapable now hub) (x # xs))
      then reaped_entry prov (entry_at hub b) else entry_at hub b)"
    using IH(4) entries unfolding len fr by (auto simp: x)
  show ?case
    by (rule exI [of _ hub']) (use one IH(1,3) len fr fs fe k2_def in simp)
qed simp

subsection \<open>The guarantees of the hub\<close>

text \<open>A hub with one stream, opened by the mock provider for the sample session.\<close>

definition sample_stream :: mockProviderStream where
  "sample_stream = \<lparr>ms_result = chineseFixture, ms_frameDurationMS = 20, ms_maxFrameBytes = 640, ms_nextSequence = 0,
     ms_lastCapturedMS = 0, ms_emittedSegments = 0, ms_revision = 0, ms_closed = False, ms_finished = False\<rparr>"

definition sample_hub :: "mockProviderStream StreamHub" where
  "sample_hub = \<lparr>h_entries = [\<lparr>e_stream = sample_stream, e_cancelled = False, e_expiresAt = 3 * hour, e_reconnectBy = 0,
     e_lease = 1, e_attached = True, e_closed = False\<rparr>], h_streams = [(sample_uuid, 0)]\<rparr>"

definition sample_lease :: StreamLease where
  "sample_lease = \<lparr>le_sessionID = sample_uuid, le_lease = 1, le_entry = 0\<rparr>"

definition sample_hub_detached :: "mockProviderStream StreamHub" where
  "sample_hub_detached = \<lparr>h_entries = [\<lparr>e_stream = sample_stream, e_cancelled = False, e_expiresAt = 3 * hour,
     e_reconnectBy = 2 * hour, e_lease = 1, e_attached = False, e_closed = False\<rparr>], h_streams = [(sample_uuid, 0)]\<rparr>"

definition sample_pframe :: ProviderFrame where
  "sample_pframe = \<lparr>pf_Sequence = 0, pf_CapturedAtMS = 0, pf_PCM = ''ab''\<rparr>"

definition sample_hub_pushed :: "mockProviderStream StreamHub" where
  "sample_hub_pushed = \<lparr>h_entries = [\<lparr>e_stream = sample_stream\<lparr>ms_nextSequence := 1\<rparr>, e_cancelled = False,
     e_expiresAt = 3 * hour, e_reconnectBy = 0, e_lease = 1, e_attached = True, e_closed = False\<rparr>],
     h_streams = [(sample_uuid, 0)]\<rparr>"

lemma sample_opened: "po_Open mockProvider sample_session = Inr (Some sample_stream)"
proof -
  have "list_all (\<lambda>c. (of_char c :: nat) < 128) ''zh-CN''" by simp
  note ascii = ascii_chunks [OF this]
  have "isChinese ''zh-CN''"
    using ascii by (simp add: isChinese_def trim_space_def is_space_def ascii_lower_def ascii_lower_char_def
        is_upper_def Let_def char_of_def bit_iff_odd)
  then show ?thesis
    by (simp add: mockProvider_def mock_Open_def sample_session_def sample_stream_def EncodingPCMS16LE_def
        validSampleRate_def maximumFrameBytes_def quot_def MaxFrameBytes_def Let_def)
qed

lemma sample_hub_run: "hub_run mockProvider 1 sample_hub []"
proof -
  have "hub_Start_insert NewStreamHub sample_session sample_stream = (sample_hub, Inr sample_lease)"
    by (simp add: hub_Start_insert_def NewStreamHub_def sample_hub_def sample_lease_def sample_session_def)
  from hub_run.step [OF hub_run.new hub_step.start [OF sample_opened this]] show ?thesis by simp
qed

lemma sample_push: "lease_Push mockProvider sample_hub sample_lease False hour sample_pframe = (sample_hub_pushed, Inr None)"
  by (simp add: lease_Push_def lease_stale_def lifetime_err_def sample_hub_def sample_lease_def sample_hub_pushed_def entry_at_def
      set_entry_def time_units mockProvider_def mock_Push_def sample_pframe_def sample_stream_def chineseFixture_def i64_small)

lemma sample_hub_pushed_run: "hub_run mockProvider 2 sample_hub_pushed [(0, 0)]"
proof -
  have "le_entry sample_lease < length (h_entries sample_hub)" by (simp add: sample_lease_def sample_hub_def)
  from hub_run.step [OF sample_hub_run hub_step.push [OF this sample_push]] show ?thesis
    by (simp add: numeral_2_eq_2 sample_lease_def sample_pframe_def)
qed

lemma sample_detach: "lease_Detach sample_hub sample_lease (2 * hour) = (sample_hub_detached, None)"
  by (simp add: lease_Detach_def lease_stale_def sample_hub_def sample_lease_def sample_hub_detached_def entry_at_def
      set_entry_def time_units)

lemma sample_hub_detached_run: "hub_run mockProvider 2 sample_hub_detached []"
proof -
  have "le_entry sample_lease < length (h_entries sample_hub)" by (simp add: sample_lease_def sample_hub_def)
  from hub_run.step [OF sample_hub_run hub_step.detach [OF this sample_detach]] show ?thesis
    by (simp add: numeral_2_eq_2)
qed



text \<open>
  A lost lease stays lost.  Once a lease that the hub handed out is stale (detached, superseded
  by a resume, or its stream closed), then after any further activity of other goroutines it can
  neither push a frame nor finish or detach the stream, and the attempt changes nothing.
\<close>

theorem stale_lease_forever:
  assumes "hub_run prov n hub log" "hub_steps prov m hub hub'" "n + m < 2 ^ 63"
    and "le_entry lease < length (h_entries hub)" "le_lease lease \<le> e_lease (entry_at hub (le_entry lease))"
    and "lease_stale hub lease"
  shows "lease_Push prov hub' lease c now frame = (hub', Inl ErrStaleStreamLease) \<and>
    lease_Finish prov hub' lease c = (hub', Inl ErrStaleStreamLease) \<and>
    lease_Detach hub' lease r = (hub', Some ErrStaleStreamLease)"
proof -
  have "superseded (entry_at hub (le_entry lease)) lease"
    using assms(5,6) by (auto simp: superseded_def lease_stale_def Let_def)
  then have "lease_stale hub' lease"
    using superseded_forever [OF assms(2,1,3,4)] superseded_stale by blast
  then show ?thesis by (simp add: stale_refused)
qed

theorem stale_lease_forever_witness:
  "lease_Push mockProvider sample_hub_detached sample_lease False hour sample_pframe = (sample_hub_detached, Inl ErrStaleStreamLease)
   \<and> lease_Finish mockProvider sample_hub_detached sample_lease False = (sample_hub_detached, Inl ErrStaleStreamLease)
   \<and> lease_Detach sample_hub_detached sample_lease hour = (sample_hub_detached, Some ErrStaleStreamLease)"
  by (rule stale_lease_forever [OF sample_hub_detached_run hub_steps.refl])
    (simp_all add: sample_lease_def sample_hub_detached_def entry_at_def lease_stale_def)

text \<open>
  Reconnecting takes over.  While a stream is detached and its window is open, \<^verbatim>\<open>Resume\<close> succeeds,
  the new lease is the only valid one, and every lease handed out before is stale.
\<close>

theorem resume_takes_over:
  assumes "hub_run prov n hub log" "n < 2 ^ 63" "map_of (h_streams hub) (s_ID session) = Some a"
    and "s_State session = StateInterrupted" "now \<noteq> 0"
    and "\<not> e_closed (entry_at hub a)" "\<not> e_attached (entry_at hub a)" "\<not> lifetime_err (entry_at hub a) now"
    and "e_reconnectBy (entry_at hub a) = 0 \<or> now \<le> e_reconnectBy (entry_at hub a)"
  shows "\<exists>hub' lease. hub_Resume hub session now = (hub', Inr lease) \<and> \<not> lease_stale hub' lease \<and>
    (\<forall>old. le_entry old = a \<longrightarrow> le_lease old \<le> e_lease (entry_at hub a) \<longrightarrow> lease_stale hub' old)"
proof -
  have a: "a < length (h_entries hub)"
    using hub_run_inv [OF assms(1)] map_of_SomeD [OF assms(3)] by (auto simp: hub_inv_def)
  then have e: "(e_lease (entry_at hub a) + 1) mod 18446744073709551616 = e_lease (entry_at hub a) + 1"
    using hub_run_lease [OF assms(1) _ assms(2)] assms(2) by (intro mod_pos_pos_trivial) fastforce+
  show ?thesis
    using assms(3-9) a by (auto simp: hub_Resume_def e Let_def lifetime_err_def lease_stale_def)
qed

theorem resume_takes_over_witness:
  "\<exists>hub' lease. hub_Resume sample_hub_detached (sample_session\<lparr>s_State := StateInterrupted\<rparr>) hour = (hub', Inr lease) \<and>
    \<not> lease_stale hub' lease \<and>
    (\<forall>old. le_entry old = 0 \<longrightarrow> le_lease old \<le> e_lease (entry_at sample_hub_detached 0) \<longrightarrow> lease_stale hub' old)"
  by (rule resume_takes_over [OF sample_hub_detached_run])
    (simp_all add: sample_hub_detached_def sample_session_def entry_at_def lifetime_err_def time_units)

text \<open>
  C21: \<^verbatim>\<open>Reap\<close> closes exactly the streams that are past their expiry or whose reconnect window has passed
  while nobody was attached, returns their number, and unregisters exactly the closed ones; every
  other stream and registration is untouched.
\<close>

theorem Reap_exact:
  assumes "hub_run prov n hub log" "now \<noteq> 0"
  shows "\<exists>hub'. hub_Reap prov hub now = (hub', int (length (filter (reapable now hub) (h_streams hub)))) \<and>
    h_streams hub' = filter (kept now hub) (h_streams hub) \<and>
    (\<forall>b < length (h_entries hub). entry_at hub' b =
       (if b \<in> snd ` set (filter (reapable now hub) (h_streams hub))
        then reaped_entry prov (entry_at hub b) else entry_at hub b))"
proof -
  have "hub_inv hub" by (rule hub_run_inv [OF assms(1)])
  then obtain hub' where "fold (reap_one prov now) (h_streams hub) (hub, 0) =
      (hub', 0 + int (length (filter (reapable now hub) (h_streams hub))))"
    "h_streams hub' = filter (\<lambda>x. x \<in> set (h_streams hub) \<longrightarrow> kept now hub x) (h_streams hub)"
    "\<forall>b < length (h_entries hub). entry_at hub' b =
       (if b \<in> snd ` set (filter (reapable now hub) (h_streams hub)) then reaped_entry prov (entry_at hub b) else entry_at hub b)"
    using fold_reap [of "h_streams hub" hub prov now 0] by (auto simp: hub_inv_def)
  moreover have "filter (\<lambda>x. x \<in> set (h_streams hub) \<longrightarrow> kept now hub x) (h_streams hub) = filter (kept now hub) (h_streams hub)"
    by (rule filter_cong) auto
  ultimately show ?thesis using assms(2) by (auto simp: hub_Reap_def)
qed

theorem Reap_exact_witness:
  "\<exists>hub'. hub_Reap mockProvider sample_hub (3 * hour) = (hub', int (length (filter (reapable (3 * hour) sample_hub) (h_streams sample_hub)))) \<and>
    h_streams hub' = filter (kept (3 * hour) sample_hub) (h_streams sample_hub) \<and>
    (\<forall>b < length (h_entries sample_hub). entry_at hub' b =
       (if b \<in> snd ` set (filter (reapable (3 * hour) sample_hub) (h_streams sample_hub))
        then reaped_entry mockProvider (entry_at sample_hub b) else entry_at sample_hub b))"
  by (rule Reap_exact [OF sample_hub_run]) (simp add: time_units)

text \<open>
  Whatever leases are used concurrently, the mock provider accepts the frames of each stream in
  order, without gap or repetition: the accepted sequence numbers of an entry are \<open>0, 1, 2, ...\<close>.
\<close>

theorem mock_frames_in_order:
  assumes "hub_run mockProvider n hub log" "n < 2 ^ 63"
  shows "map snd (filter (\<lambda>(b, _). b = a) log) = map int [0..<length (filter (\<lambda>(b, _). b = a) log)]"
  using mock.log_in_order [OF assms] by blast

theorem mock_frames_in_order_witness: "map snd (filter (\<lambda>(b, _). b = 0) [(0 :: nat, 0 :: int)]) = map int [0..<1]"
  using mock_frames_in_order [OF sample_hub_pushed_run, of 0] by simp

end
