(* ===== verification/Rt_Repository.thy ===== *)
theory Rt_Repository
  imports Rt_Hub
begin

text \<open>
  \<^verbatim>\<open>internal/realtime/postgres_repository.go\<close> on a model of the tables it uses: the rows of
  \<^verbatim>\<open>recording_sessions\<close> with the constraints of \<^verbatim>\<open>migrations/000013\<close>, the audit log, and the three
  tables it only reads.  A nullable column is an option; a \<^verbatim>\<open>timestamptz\<close> keeps microseconds.

  Each method runs one transaction.  A \<open>fault\<close> names the stage at which the database connection
  fails, if it does; \<open>FCommitLost\<close> is a commit that took effect although the client saw an error.
  \<^verbatim>\<open>Create\<close> reads before it inserts, so its two halves are separate definitions: other transactions may
  commit in between.
\<close>

datatype db_fault = FBegin | FLoad | FRefs | FQuery | FAudit | FCommit | FCommitLost

record Audit =
  au_ID :: string
  au_ActorID :: string
  au_ActorType :: string
  au_Action :: string
  au_Metadata :: bytes

record session_row =
  r_id :: string
  r_workspace_id :: string
  r_created_by :: string
  r_client_session_id :: string
  r_provider_profile_id :: "string option"
  r_hotword_set_id :: "string option"
  r_idempotency_key :: string
  r_request_hash :: string
  r_protocol_version :: string
  r_audio_encoding :: string
  r_sample_rate_hz :: int
  r_channels :: int
  r_frame_duration_ms :: int
  r_language :: string
  r_state :: string
  r_next_sequence :: int
  r_received_bytes :: int
  r_last_captured_at_ms :: "int option"
  r_final_transcript :: "string option"
  r_final_language :: "string option"
  r_final_provider_id :: "string option"
  r_client_archive_sha256 :: "string option"
  r_captured_duration_ms :: "int option"
  r_last_error_code :: "string option"
  r_version :: int
  r_started_at :: go_time
  r_last_frame_at :: "go_time option"
  r_interrupted_at :: "go_time option"
  r_reconnect_by :: "go_time option"
  r_expires_at :: go_time
  r_completed_at :: "go_time option"
  r_updated_at :: go_time

record audit_row =
  al_id :: string
  al_workspace_id :: string
  al_actor_id :: "string option"
  al_actor_type :: string
  al_action :: string
  al_target_id :: string
  al_metadata :: bytes

record rt_db =
  db_sessions :: "session_row list"
  db_audits :: "audit_row list"
  db_memberships :: "(string \<times> string) list"
    \<comment> \<open>workspace, user\<close>
  db_profiles :: "(string \<times> string \<times> string \<times> string) list"
    \<comment> \<open>id, workspace, type, state\<close>
  db_hotwords :: "(string \<times> string \<times> string) list"
    \<comment> \<open>id, workspace, state\<close>

subsection \<open>Columns\<close>

definition nullableUUID :: "string \<Rightarrow> string option" where
  "nullableUUID v = (if trim_space v = [] then None else Some v)"

definition nullableText :: "string \<Rightarrow> string option" where
  "nullableText v = (if v = [] then None else Some v)"

definition nullableLastCapture :: "Session \<Rightarrow> int option" where
  "nullableLastCapture session = (if s_NextSequence session = 0 then None else Some (s_LastCapturedAtMS session))"

definition nullableDuration :: "Session \<Rightarrow> int option" where
  "nullableDuration session =
     (if s_ClientArchiveSHA256 session = [] then None else Some (s_CapturedDurationMS session))"

definition coalesce :: "'a \<Rightarrow> 'a option \<Rightarrow> 'a" where
  "coalesce d v = (case v of None \<Rightarrow> d | Some x \<Rightarrow> x)"

definition scanSession :: "session_row \<Rightarrow> Session" where
  "scanSession row =
     \<lparr>s_ID = r_id row, s_WorkspaceID = r_workspace_id row, s_CreatedBy = r_created_by row,
      s_ClientSessionID = r_client_session_id row,
      s_ProviderProfileID = coalesce [] (r_provider_profile_id row),
      s_HotwordSetID = coalesce [] (r_hotword_set_id row), s_IdempotencyKey = r_idempotency_key row,
      s_Encoding = r_audio_encoding row, s_SampleRateHz = r_sample_rate_hz row, s_Channels = r_channels row,
      s_FrameDurationMS = r_frame_duration_ms row, s_Language = r_language row, s_State = r_state row,
      s_NextSequence = r_next_sequence row, s_ReceivedBytes = r_received_bytes row,
      s_LastCapturedAtMS = coalesce 0 (r_last_captured_at_ms row),
      s_FinalTranscript = coalesce [] (r_final_transcript row),
      s_FinalLanguage = coalesce [] (r_final_language row),
      s_FinalProviderID = coalesce [] (r_final_provider_id row),
      s_ClientArchiveSHA256 = coalesce [] (r_client_archive_sha256 row),
      s_CapturedDurationMS = coalesce 0 (r_captured_duration_ms row),
      s_LastErrorCode = coalesce [] (r_last_error_code row), s_Version = r_version row,
      s_StartedAt = r_started_at row, s_LastFrameAt = r_last_frame_at row,
      s_InterruptedAt = r_interrupted_at row, s_ReconnectBy = r_reconnect_by row,
      s_ExpiresAt = r_expires_at row, s_CompletedAt = r_completed_at row, s_UpdatedAt = r_updated_at row\<rparr>"

text \<open>
  The constraints of the table that concern one row.  \<^verbatim>\<open>length\<close> counts characters, \<^verbatim>\<open>octet_length\<close> bytes;
  a text value must be valid UTF-8 without the character U+0000.
\<close>

definition row_columns_ok :: "session_row \<Rightarrow> bool" where
  "row_columns_ok row \<longleftrightarrow>
     pg_text (r_idempotency_key row) \<and> 1 \<le> length (runes (r_idempotency_key row))
       \<and> length (runes (r_idempotency_key row)) \<le> 200
     \<and> canonicalSHA256 (r_request_hash row)
     \<and> r_protocol_version row = ''1'' \<and> r_audio_encoding row = ''pcm_s16le''
     \<and> r_sample_rate_hz row \<in> {8000, 16000, 24000, 48000} \<and> r_channels row = 1
     \<and> 20 \<le> r_frame_duration_ms row \<and> r_frame_duration_ms row \<le> 100
     \<and> pg_text (r_language row) \<and> 2 \<le> length (runes (r_language row)) \<and> length (runes (r_language row)) \<le> 35
     \<and> r_state row \<in> {StateStreaming, StateInterrupted, StateFinalizing, StateCompleted, StateFailed, StateExpired}
     \<and> 0 \<le> r_next_sequence row \<and> 0 \<le> r_received_bytes row
     \<and> opt_check (\<lambda>v. 0 \<le> v) (r_last_captured_at_ms row)
     \<and> opt_check (\<lambda>v. pg_text v \<and> 1 \<le> length v \<and> length v \<le> 262144) (r_final_transcript row)
     \<and> opt_check (\<lambda>v. pg_text v \<and> 2 \<le> length (runes v) \<and> length (runes v) \<le> 35 \<and> languageTagPattern v)
         (r_final_language row)
     \<and> opt_check (\<lambda>v. pg_text v \<and> providerIDPattern v) (r_final_provider_id row)
     \<and> opt_check canonicalSHA256 (r_client_archive_sha256 row)
     \<and> opt_check (\<lambda>v. 0 \<le> v) (r_captured_duration_ms row)
     \<and> opt_check (\<lambda>v. pg_text v \<and> 1 \<le> length (runes v) \<and> length (runes v) \<le> 64) (r_last_error_code row)
     \<and> 0 < r_version row"

definition row_states_ok :: "session_row \<Rightarrow> bool" where
  "row_states_ok row \<longleftrightarrow>
     r_started_at row < r_expires_at row
     \<and> (r_next_sequence row = 0) = (r_last_frame_at row = None)
     \<and> (r_next_sequence row = 0) = (r_last_captured_at_ms row = None)
     \<and> (if r_state row = StateInterrupted then r_interrupted_at row \<noteq> None \<and> r_reconnect_by row \<noteq> None
        else r_interrupted_at row = None \<and> r_reconnect_by row = None)
     \<and> (r_client_archive_sha256 row = None) = (r_captured_duration_ms row = None)
     \<and> (r_state row \<in> {StateFinalizing, StateCompleted} \<longrightarrow> r_client_archive_sha256 row \<noteq> None)
     \<and> (if r_state row = StateCompleted
        then r_final_transcript row \<noteq> None \<and> r_final_language row \<noteq> None \<and> r_final_provider_id row \<noteq> None
          \<and> r_completed_at row \<noteq> None
        else r_final_transcript row = None \<and> r_final_language row = None \<and> r_final_provider_id row = None
          \<and> r_completed_at row = None)
     \<and> (r_state row = StateFailed) = (r_last_error_code row \<noteq> None)"

definition row_checks :: "session_row \<Rightarrow> bool" where
  "row_checks row \<longleftrightarrow> row_columns_ok row \<and> row_states_ok row"

subsection \<open>Audits\<close>

definition AuditSessionStarted :: string where "AuditSessionStarted = ''recording_session.started''"
definition AuditSessionInterrupted :: string where "AuditSessionInterrupted = ''recording_session.interrupted''"
definition AuditSessionResumed :: string where "AuditSessionResumed = ''recording_session.resumed''"
definition AuditSessionFinalizing :: string where "AuditSessionFinalizing = ''recording_session.finalizing''"
definition AuditSessionCompleted :: string where "AuditSessionCompleted = ''recording_session.completed''"
definition AuditSessionFailed :: string where "AuditSessionFailed = ''recording_session.failed''"

definition validSessionAudit :: "Audit \<Rightarrow> bool" where
  "validSessionAudit audit =
     (canonicalUUID (au_ID audit) \<and> au_ActorType audit = ''user'' \<and> canonicalUUID (au_ActorID audit)
      \<and> json_valid (au_Metadata audit) \<and> length (au_Metadata audit) \<le> 4096
      \<and> 2 \<le> length (trim_space (au_Metadata audit)) \<and> trim_space (au_Metadata audit) ! 0 = CHR ''{''
      \<and> au_Action audit \<in> {AuditSessionStarted, AuditSessionInterrupted, AuditSessionResumed,
           AuditSessionFinalizing, AuditSessionCompleted, AuditSessionFailed})"

definition insertSessionAudit :: "db_fault option \<Rightarrow> session_row \<Rightarrow> Audit \<Rightarrow> rt_db \<Rightarrow> rt_error + rt_db" where
  "insertSessionAudit fault row audit db =
     (if \<not> validSessionAudit audit then Inl ErrInvalidEvent
      else if fault = Some FAudit \<or> au_ID audit \<in> set (map al_id (db_audits db)) then
        Inl (ErrOther ''insert realtime session audit: %w'')
      else Inr (db\<lparr>db_audits := db_audits db @
        [\<lparr>al_id = au_ID audit, al_workspace_id = r_workspace_id row, al_actor_id = nullableUUID (au_ActorID audit),
          al_actor_type = au_ActorType audit, al_action = au_Action audit, al_target_id = r_id row,
          al_metadata = au_Metadata audit\<rparr>]\<rparr>))"

text \<open>The end of a transaction: the new database, or the old one when the commit failed.\<close>

definition pg_commit :: "db_fault option \<Rightarrow> string \<Rightarrow> rt_db \<Rightarrow> rt_db \<Rightarrow> 'a \<Rightarrow> rt_db \<times> (rt_error + 'a)" where
  "pg_commit fault msg old new result =
     (if fault = Some FCommit then (old, Inl (ErrOther msg))
      else if fault = Some FCommitLost then (new, Inl (ErrOther msg))
      else (new, Inr result))"

subsection \<open>Create\<close>

definition loadIdempotentSession :: "rt_db \<Rightarrow> string \<Rightarrow> string \<Rightarrow> (Session \<times> string) option" where
  "loadIdempotentSession db workspaceID idempotencyKey =
     map_option (\<lambda>row. (scanSession row, r_request_hash row))
       (find (\<lambda>row. r_workspace_id row = workspaceID \<and> r_idempotency_key row = idempotencyKey) (db_sessions db))"

definition validateSessionReferences :: "db_fault option \<Rightarrow> rt_db \<Rightarrow> Session \<Rightarrow> rt_error option" where
  "validateSessionReferences fault db session =
     (if s_ProviderProfileID session \<noteq> [] \<and> fault = Some FRefs then
        Some (ErrOther ''validate realtime provider profile: %w'')
      else if s_ProviderProfileID session \<noteq> []
          \<and> (s_ProviderProfileID session, s_WorkspaceID session, ''asr'', ''enabled'') \<notin> set (db_profiles db) then
        Some ErrInvalidEvent
      else if s_HotwordSetID session \<noteq> [] \<and> fault = Some FRefs then
        Some (ErrOther ''validate realtime hotword set: %w'')
      else if s_HotwordSetID session \<noteq> []
          \<and> (s_HotwordSetID session, s_WorkspaceID session, ''enabled'') \<notin> set (db_hotwords db) then
        Some ErrInvalidEvent
      else None)"

definition new_row :: "Session \<Rightarrow> string \<Rightarrow> session_row" where
  "new_row session requestHash =
     \<lparr>r_id = s_ID session, r_workspace_id = s_WorkspaceID session, r_created_by = s_CreatedBy session,
      r_client_session_id = s_ClientSessionID session,
      r_provider_profile_id = nullableUUID (s_ProviderProfileID session),
      r_hotword_set_id = nullableUUID (s_HotwordSetID session), r_idempotency_key = s_IdempotencyKey session,
      r_request_hash = requestHash, r_protocol_version = ProtocolVersion, r_audio_encoding = s_Encoding session,
      r_sample_rate_hz = s_SampleRateHz session, r_channels = s_Channels session,
      r_frame_duration_ms = s_FrameDurationMS session, r_language = s_Language session,
      r_state = s_State session, r_next_sequence = s_NextSequence session,
      r_received_bytes = s_ReceivedBytes session, r_last_captured_at_ms = None, r_final_transcript = None,
      r_final_language = None, r_final_provider_id = None, r_client_archive_sha256 = None,
      r_captured_duration_ms = None, r_last_error_code = None, r_version = 1,
      r_started_at = pg_time (s_StartedAt session), r_last_frame_at = None, r_interrupted_at = None,
      r_reconnect_by = None, r_expires_at = pg_time (s_ExpiresAt session), r_completed_at = None,
      r_updated_at = pg_time (s_StartedAt session)\<rparr>"

text \<open>
  What the \<^verbatim>\<open>INSERT\<close> runs into: the conflict target \<open>(workspace, idempotency key)\<close> makes it a no-op;
  the other unique keys (the id and \<open>(workspace, client session)\<close>) raise a unique violation; a failed
  check or foreign key is another error.
\<close>

definition insert_foreign_ok :: "rt_db \<Rightarrow> Session \<Rightarrow> bool" where
  "insert_foreign_ok db session \<longleftrightarrow>
     (s_WorkspaceID session, s_CreatedBy session) \<in> set (db_memberships db)
     \<and> (case nullableUUID (s_ProviderProfileID session) of None \<Rightarrow> True
        | Some p \<Rightarrow> \<exists>x\<in>set (db_profiles db). fst x = p \<and> fst (snd x) = s_WorkspaceID session)
     \<and> (case nullableUUID (s_HotwordSetID session) of None \<Rightarrow> True
        | Some h \<Rightarrow> \<exists>x\<in>set (db_hotwords db). fst x = h \<and> fst (snd x) = s_WorkspaceID session)"

definition replay_or_conflict :: "(Session \<times> string) option \<Rightarrow> string \<Rightarrow> rt_error + (Session \<times> bool)" where
  "replay_or_conflict existing requestHash =
     (case existing of
        None \<Rightarrow> Inl (ErrOther ''load concurrently created realtime session: %w'')
      | Some (session, existingHash) \<Rightarrow>
        if existingHash \<noteq> requestHash then Inl ErrIdempotencyConflict else Inr (session, True))"

definition pg_Create_insert ::
  "db_fault option \<Rightarrow> Session \<Rightarrow> string \<Rightarrow> Audit \<Rightarrow> rt_db \<Rightarrow> rt_db \<times> (rt_error + (Session \<times> bool))" where
  "pg_Create_insert fault session requestHash audit db =
     (case validateSessionReferences fault db session of
        Some e \<Rightarrow> (db, Inl e)
      | None \<Rightarrow>
      let row = new_row session requestHash in
      if fault = Some FQuery then (db, Inl (ErrOther ''insert realtime session: %w''))
      else if \<not> row_checks row then (db, Inl (ErrOther ''insert realtime session: %w''))
      else if loadIdempotentSession db (s_WorkspaceID session) (s_IdempotencyKey session) \<noteq> None then
        (db, replay_or_conflict (loadIdempotentSession db (s_WorkspaceID session) (s_IdempotencyKey session)) requestHash)
      else if s_ID session \<in> set (map r_id (db_sessions db))
          \<or> (s_WorkspaceID session, s_ClientSessionID session)
              \<in> set (map (\<lambda>row. (r_workspace_id row, r_client_session_id row)) (db_sessions db)) then
        (db, Inl ErrIdempotencyConflict)
      else if \<not> insert_foreign_ok db session then (db, Inl (ErrOther ''insert realtime session: %w''))
      else case insertSessionAudit fault row audit (db\<lparr>db_sessions := db_sessions db @ [row]\<rparr>) of
        Inl e \<Rightarrow> (db, Inl e)
      | Inr db' \<Rightarrow> pg_commit fault ''commit realtime session: %w'' db db' (scanSession row, False))"

definition pg_Create ::
  "db_fault option \<Rightarrow> Session \<Rightarrow> string \<Rightarrow> Audit \<Rightarrow> rt_db \<Rightarrow> rt_db \<times> (rt_error + (Session \<times> bool))" where
  "pg_Create fault session requestHash audit db =
     (if fault = Some FBegin then (db, Inl (ErrOther ''begin realtime session transaction: %w''))
      else if fault = Some FLoad then (db, Inl (ErrOther ''load idempotent realtime session: %w''))
      else case loadIdempotentSession db (s_WorkspaceID session) (s_IdempotencyKey session) of
        Some (existing, existingHash) \<Rightarrow>
          (db, if existingHash \<noteq> requestHash then Inl ErrIdempotencyConflict else Inr (existing, True))
      | None \<Rightarrow> pg_Create_insert fault session requestHash audit db)"

subsection \<open>Get and Update\<close>

definition find_row :: "string \<Rightarrow> string \<Rightarrow> rt_db \<Rightarrow> session_row option" where
  "find_row workspaceID sessionID db =
     find (\<lambda>row. r_id row = sessionID \<and> r_workspace_id row = workspaceID) (db_sessions db)"

definition pg_Get :: "db_fault option \<Rightarrow> string \<Rightarrow> string \<Rightarrow> rt_db \<Rightarrow> rt_error + Session" where
  "pg_Get fault workspaceID sessionID db =
     (if fault = Some FQuery then Inl (ErrOther ''query realtime session: %w'')
      else case find_row workspaceID sessionID db of
        None \<Rightarrow> Inl ErrNotFound
      | Some row \<Rightarrow> Inr (scanSession row))"

definition updated_row :: "go_time \<Rightarrow> Session \<Rightarrow> session_row \<Rightarrow> session_row" where
  "updated_row clock session row =
     row\<lparr>r_state := s_State session, r_next_sequence := s_NextSequence session,
         r_received_bytes := s_ReceivedBytes session, r_last_captured_at_ms := nullableLastCapture session,
         r_final_transcript := nullableText (s_FinalTranscript session),
         r_final_language := nullableText (s_FinalLanguage session),
         r_final_provider_id := nullableText (s_FinalProviderID session),
         r_client_archive_sha256 := nullableText (s_ClientArchiveSHA256 session),
         r_captured_duration_ms := nullableDuration session,
         r_last_error_code := nullableText (s_LastErrorCode session), r_version := s_Version session,
         r_last_frame_at := map_option pg_time (s_LastFrameAt session),
         r_interrupted_at := map_option pg_time (s_InterruptedAt session),
         r_reconnect_by := map_option pg_time (s_ReconnectBy session),
         r_completed_at := map_option pg_time (s_CompletedAt session), r_updated_at := pg_time clock\<rparr>"

definition replace_row :: "session_row \<Rightarrow> rt_db \<Rightarrow> rt_db" where
  "replace_row row db =
     db\<lparr>db_sessions := map (\<lambda>x. if r_id x = r_id row then row else x) (db_sessions db)\<rparr>"

definition pg_Update ::
  "db_fault option \<Rightarrow> go_time \<Rightarrow> int \<Rightarrow> Session \<Rightarrow> Audit option \<Rightarrow> rt_db \<Rightarrow> rt_db \<times> (rt_error + Session)" where
  "pg_Update fault clock expectedVersion session audit db =
     (if s_Version session \<noteq> i64 (expectedVersion + 1) then (db, Inl ErrVersionConflict)
      else if fault = Some FBegin then (db, Inl (ErrOther ''begin realtime update: %w''))
      else if fault = Some FQuery then (db, Inl (ErrOther ''update realtime session: %w''))
      else case find_row (s_WorkspaceID session) (s_ID session) db of
        None \<Rightarrow> (db, Inl ErrVersionConflict)
      | Some row \<Rightarrow>
      if r_version row \<noteq> expectedVersion then (db, Inl ErrVersionConflict)
      else
        (let row' = updated_row clock session row in
         if \<not> row_checks row' then (db, Inl (ErrOther ''update realtime session: %w''))
         else case (case audit of None \<Rightarrow> Inr (replace_row row' db)
                    | Some a \<Rightarrow> insertSessionAudit fault row' a (replace_row row' db)) of
           Inl e \<Rightarrow> (db, Inl e)
         | Inr db' \<Rightarrow> pg_commit fault ''commit realtime update: %w'' db db' (scanSession row')))"

subsection \<open>Text columns\<close>

lemma ascii_text:
  assumes "list_all (\<lambda>c. 0 < (of_char c :: nat) \<and> (of_char c :: nat) < 128) s"
  shows "pg_text s" "length (runes s) = length s"
proof -
  have "list_all (\<lambda>c. (of_char c :: nat) < 128) s" using assms by (auto simp: list_all_iff)
  then show "pg_text s" "length (runes s) = length s"
    using assms by (auto simp: pg_text_def ascii_valid runes_def ascii_chunks list_all_iff)
qed

lemma language_text:
  assumes "languageTagPattern v"
  shows "pg_text v" "length (runes v) = length v" "2 \<le> length v"
proof -
  obtain p rest where sp: "split_on CHR ''-'' v = p # rest" and p: "2 \<le> length p" "list_all is_letter p"
    and rest: "list_all (\<lambda>sub. list_all (\<lambda>c. is_letter c \<or> is_digit c) sub) rest"
    using assms by (auto simp: languageTagPattern_def list_all_iff split: list.splits)
  show "2 \<le> length v" using split_on_head [of "CHR ''-''" v] sp p by simp
  have "0 < (of_char c :: nat) \<and> (of_char c :: nat) < 128" if "c \<in> set v" for c
  proof -
    have "c = CHR ''-'' \<or> is_letter c \<or> is_digit c"
      using split_on_set [OF that, of "CHR ''-''"] sp p rest by (auto simp: list_all_iff)
    then show ?thesis by (auto simp: is_letter_def is_lower_def is_upper_def is_digit_def)
  qed
  then have "list_all (\<lambda>c. 0 < (of_char c :: nat) \<and> (of_char c :: nat) < 128) v" by (simp add: list_all_iff)
  then show "pg_text v" "length (runes v) = length v" by (rule ascii_text)+
qed

lemma provider_text:
  assumes "providerIDPattern v"
  shows "pg_text v"
proof (rule ascii_text(1))
  show "list_all (\<lambda>c. 0 < (of_char c :: nat) \<and> (of_char c :: nat) < 128) v"
    using assms by (auto simp: providerIDPattern_def is_lower_def is_digit_def list_all_iff split: list.splits)
qed

lemma idempotency_text:
  assumes "validIdempotencyKey v"
  shows "pg_text v" "1 \<le> length (runes v)" "length (runes v) \<le> 200"
proof -
  show "pg_text v" using assms by (auto simp: validIdempotencyKey_def pg_text_def list_all_iff is_control_def)
  show "length (runes v) \<le> 200" using assms runes_length [of v] by (simp add: validIdempotencyKey_def)
  show "1 \<le> length (runes v)"
    using assms runes_empty [of v] by (auto simp: validIdempotencyKey_def Suc_le_eq simp del: runes_empty)
qed

lemma error_code_text:
  assumes "safeRealtimeErrorCode v"
  shows "pg_text v" "1 \<le> length (runes v)" "length (runes v) \<le> 64"
proof -
  have "list_all (\<lambda>c. 0 < (of_char c :: nat) \<and> (of_char c :: nat) < 128) v" "1 \<le> length v" "length v \<le> 64"
    using assms by (auto simp: safeRealtimeErrorCode_def)
  then show "pg_text v" "1 \<le> length (runes v)" "length (runes v) \<le> 64"
    using ascii_text [of v] by auto
qed

lemma canonicalUUID_nullable: "canonicalUUID v \<Longrightarrow> nullableUUID v = Some v"
proof -
  assume c: "canonicalUUID v"
  then have "IsUUID v" by (auto simp: canonicalUUID_def NormalizeUUID_def split: if_splits)
  then have "hex_any (v ! 0)" by (auto simp: IsUUID_def list_all_iff hyphen_index_def dest: bspec [where x = 0])
  moreover have "v \<noteq> []" using canonicalUUID_plain(2) [OF c] by auto
  moreover have "list_all (\<lambda>c. (of_char c :: nat) < 128) v"
    using canonicalUUID_plain(1) [OF c] by (auto simp: list_all_iff plain_def)
  ultimately have "\<not> is_space (fst (hd (chunks v)))" "chunks v = map (\<lambda>c. (of_char c, [c])) v" "v \<noteq> []"
    using ascii_chunks [of v] by (auto simp: hd_conv_nth hex_any_def is_space_def Let_def)
  then have "trim_space v \<noteq> []"
    by (cases v) (auto simp: trim_space_def Let_def dropWhile_append split: if_splits)
  then show ?thesis by (simp add: nullableUUID_def)
qed

subsection \<open>Storing a session\<close>

text \<open>What a session becomes by storing and reading it back: its times lose their nanoseconds.\<close>

definition stored :: "go_time \<Rightarrow> Session \<Rightarrow> Session" where
  "stored updated s = s\<lparr>s_StartedAt := pg_time (s_StartedAt s), s_LastFrameAt := map_option pg_time (s_LastFrameAt s),
     s_InterruptedAt := map_option pg_time (s_InterruptedAt s), s_ReconnectBy := map_option pg_time (s_ReconnectBy s),
     s_ExpiresAt := pg_time (s_ExpiresAt s), s_CompletedAt := map_option pg_time (s_CompletedAt s),
     s_UpdatedAt := pg_time updated\<rparr>"

definition pg_times :: "Session \<Rightarrow> bool" where
  "pg_times s \<longleftrightarrow> pg_time (s_StartedAt s) = s_StartedAt s \<and> pg_time (s_ExpiresAt s) = s_ExpiresAt s"

lemma stored_pg_times [simp]: "pg_times (stored t s)"
  by (simp add: pg_times_def stored_def)

lemma stored_fields [simp]:
  "s_ID (stored t s) = s_ID s" "s_WorkspaceID (stored t s) = s_WorkspaceID s" "s_Version (stored t s) = s_Version s"
  "s_State (stored t s) = s_State s" "s_NextSequence (stored t s) = s_NextSequence s"
  "s_IdempotencyKey (stored t s) = s_IdempotencyKey s" "s_FinalTranscript (stored t s) = s_FinalTranscript s"
  by (simp_all add: stored_def)

lemma coalesce_simps [simp]:
  "coalesce d None = d" "coalesce d (Some x) = x" "coalesce [] (nullableText v) = v"
  by (simp_all add: coalesce_def nullableText_def)

lemma coalesce_uuid: "(v \<noteq> [] \<longrightarrow> canonicalUUID v) \<Longrightarrow> coalesce [] (nullableUUID v) = v"
  using canonicalUUID_nullable [of v]
  by (cases "v = []") (simp_all add: nullableUUID_def trim_space_def)

lemma scan_fields [simp]:
  "s_ID (scanSession row) = r_id row" "s_WorkspaceID (scanSession row) = r_workspace_id row"
  "s_Version (scanSession row) = r_version row" "s_IdempotencyKey (scanSession row) = r_idempotency_key row"
  "s_ClientSessionID (scanSession row) = r_client_session_id row" "s_Encoding (scanSession row) = r_audio_encoding row"
  "s_SampleRateHz (scanSession row) = r_sample_rate_hz row" "s_Channels (scanSession row) = r_channels row"
  "s_FrameDurationMS (scanSession row) = r_frame_duration_ms row" "s_Language (scanSession row) = r_language row"
  "s_StartedAt (scanSession row) = r_started_at row" "s_ExpiresAt (scanSession row) = r_expires_at row"
  "s_NextSequence (scanSession row) = r_next_sequence row" "s_ReceivedBytes (scanSession row) = r_received_bytes row"
  "s_State (scanSession row) = r_state row"
  by (simp_all add: scanSession_def)

lemma NewSession_fields:
  assumes "NewSession p = Inr s"
  shows "s_State s = StateStreaming" "s_NextSequence s = 0" "s_ReceivedBytes s = 0" "s_LastCapturedAtMS s = 0"
    "s_FinalTranscript s = []" "s_FinalLanguage s = []" "s_FinalProviderID s = []" "s_ClientArchiveSHA256 s = []"
    "s_CapturedDurationMS s = 0" "s_LastErrorCode s = []" "s_Version s = 1" "s_LastFrameAt s = None"
    "s_InterruptedAt s = None" "s_ReconnectBy s = None" "s_CompletedAt s = None" "s_UpdatedAt s = s_StartedAt s"
    "np_TTL p = 0 \<Longrightarrow> s_ExpiresAt s = s_StartedAt s + DefaultSessionTTL"
  using assms by (auto simp: NewSession_def Let_def split: if_splits)

lemma scan_new_row:
  assumes "NewSession p = Inr s"
  shows "scanSession (new_row s requestHash) = stored (s_StartedAt s) s"
proof -
  have f: "format_ok s" using session_inv_new [OF assms] by (simp add: session_inv_def)
  show ?thesis
    using f NewSession_fields [OF assms]
    by (intro Session.equality)
      (simp_all add: scanSession_def new_row_def stored_def coalesce_uuid format_ok_def)
qed

lemma last_capture_stored:
  assumes "session_inv n s frames"
  shows "coalesce 0 (nullableLastCapture s) = s_LastCapturedAtMS s"
    "coalesce 0 (nullableDuration s) = s_CapturedDurationMS s"
  using assms by (auto simp: session_inv_def progress_ok_def state_ok_def nullableLastCapture_def
      nullableDuration_def split: if_splits)

lemma scan_updated_row:
  assumes "session_step (scanSession row) fs s" "session_inv n s frames" "pg_times (scanSession row)"
  shows "scanSession (updated_row clock s row) = stored clock s"
  using step_fixed [OF assms(1)] last_capture_stored [OF assms(2)] assms(3)
  by (intro Session.equality) (simp_all add: scanSession_def updated_row_def stored_def pg_times_def)

lemma session_inv_stored:
  assumes inv: "session_inv n s frames"
    and times: "pg_time (s_StartedAt s) < pg_time (s_ExpiresAt s)"
      "pg_time (s_ExpiresAt s) \<le> pg_time (s_StartedAt s) + DefaultSessionTTL"
  shows "session_inv n (stored t s) frames"
proof -
  have "format_ok (stored t s)" using inv times by (simp add: session_inv_def format_ok_def stored_def)
  moreover have "state_ok (stored t s)"
  proof -
    have "\<exists>i r. s_InterruptedAt (stored t s) = Some i \<and> s_ReconnectBy (stored t s) = Some r \<and> i \<le> r \<and>
        r \<le> s_ExpiresAt (stored t s)" if i: "s_State s = StateInterrupted"
      using inv i by (auto simp: session_inv_def state_ok_def stored_def pg_time_mono)
    then show ?thesis using inv unfolding session_inv_def state_ok_def by (auto simp: stored_def)
  qed
  moreover have "progress_ok n (stored t s) frames"
    using inv by (auto simp: session_inv_def progress_ok_def stored_def maximumFrameBytes_def)
  ultimately show ?thesis by (simp add: session_inv_def)
qed

lemma session_inv_new_stored:
  assumes "NewSession p = Inr s" "np_TTL p = 0"
  shows "session_inv 0 (stored (s_StartedAt s) s) []"
proof (rule session_inv_stored [OF session_inv_new [OF assms(1)]])
  have "pg_time (s_ExpiresAt s) = pg_time (s_StartedAt s) + DefaultSessionTTL"
    using NewSession_fields(17) [OF assms] by (simp add: pg_time_add DefaultSessionTTL_def time_units)
  then show "pg_time (s_StartedAt s) < pg_time (s_ExpiresAt s)"
    "pg_time (s_ExpiresAt s) \<le> pg_time (s_StartedAt s) + DefaultSessionTTL"
    by (simp_all add: DefaultSessionTTL_def time_units)
qed

lemma session_inv_step_stored:
  assumes "session_inv n cur frames" "session_step cur fs s" "n < 2 ^ 46" "pg_times cur"
  shows "session_inv (Suc n) (stored t s) (frames @ fs)"
proof (rule session_inv_stored [OF session_inv_step [OF assms(1-3)]])
  have "s_StartedAt s = s_StartedAt cur" "s_ExpiresAt s = s_ExpiresAt cur" using step_fixed [OF assms(2)] by simp_all
  then show "pg_time (s_StartedAt s) < pg_time (s_ExpiresAt s)"
    "pg_time (s_ExpiresAt s) \<le> pg_time (s_StartedAt s) + DefaultSessionTTL"
    using assms(1,4) by (simp_all add: session_inv_def format_ok_def pg_times_def)
qed


text \<open>
  Every reachable session satisfies the constraints of the table, provided its language tags have
  at most 35 characters and the transcript does not contain U+0000.
\<close>

definition storable :: "Session \<Rightarrow> bool" where
  "storable s \<longleftrightarrow> length (s_Language s) \<le> 35 \<and> length (s_FinalLanguage s) \<le> 35 \<and> 0 \<notin> set (runes (s_FinalTranscript s))"

lemma sample_rates: "validSampleRate v \<longleftrightarrow> v \<in> {8000, 16000, 24000, 48000}"
  by (auto simp: validSampleRate_def)

lemma updated_row_columns:
  assumes fixed: "r_idempotency_key row = s_IdempotencyKey s" "canonicalSHA256 (r_request_hash row)"
      "r_protocol_version row = ''1''" "r_audio_encoding row = s_Encoding s" "r_sample_rate_hz row = s_SampleRateHz s"
      "r_channels row = s_Channels s" "r_frame_duration_ms row = s_FrameDurationMS s" "r_language row = s_Language s"
    and inv: "session_inv n s frames" and store: "storable s"
  shows "row_columns_ok (updated_row clock s row)"
proof -
  note f = inv [unfolded session_inv_def, THEN conjunct1, unfolded format_ok_def]
  have st: "state_ok s" and pr: "progress_ok n s frames" using inv by (simp_all add: session_inv_def)
  have lang: "languageTagPattern (s_Language s)" using f by simp
  have "opt_check (\<lambda>v. pg_text v \<and> 1 \<le> length v \<and> length v \<le> 262144) (nullableText (s_FinalTranscript s))"
    using st store
    by (auto simp: opt_check_def nullableText_def state_ok_def storable_def pg_text_def MaxTranscriptBytes_def
        Suc_le_eq split: if_splits)
  moreover have "opt_check (\<lambda>v. pg_text v \<and> 2 \<le> length (runes v) \<and> length (runes v) \<le> 35 \<and> languageTagPattern v)
      (nullableText (s_FinalLanguage s))"
    using st store language_text [of "s_FinalLanguage s"]
    by (auto simp: opt_check_def nullableText_def state_ok_def storable_def split: if_splits)
  moreover have "opt_check (\<lambda>v. pg_text v \<and> providerIDPattern v) (nullableText (s_FinalProviderID s))"
    using st provider_text [of "s_FinalProviderID s"]
    by (auto simp: opt_check_def nullableText_def state_ok_def split: if_splits)
  moreover have "opt_check canonicalSHA256 (nullableText (s_ClientArchiveSHA256 s))"
    using st by (auto simp: opt_check_def nullableText_def state_ok_def)
  moreover have "opt_check (\<lambda>v. 0 \<le> v) (nullableDuration s)"
    using st pr by (auto simp: opt_check_def nullableDuration_def state_ok_def progress_ok_def)
  moreover have "opt_check (\<lambda>v. 0 \<le> v) (nullableLastCapture s)"
    using pr by (auto simp: opt_check_def nullableLastCapture_def progress_ok_def)
  moreover have "opt_check (\<lambda>v. pg_text v \<and> 1 \<le> length (runes v) \<and> length (runes v) \<le> 64)
      (nullableText (s_LastErrorCode s))"
    using st error_code_text [of "s_LastErrorCode s"]
    by (auto simp: opt_check_def nullableText_def state_ok_def split: if_splits)
  moreover have "0 \<le> s_ReceivedBytes s" "0 \<le> s_NextSequence s" "0 < s_Version s"
    using received_bound(1) [OF pr] pr by (simp_all add: progress_ok_def)
  moreover have "s_State s \<in> {StateStreaming, StateInterrupted, StateFinalizing, StateCompleted, StateFailed, StateExpired}"
    using st by (simp add: state_ok_def)
  ultimately show ?thesis
    using f fixed idempotency_text [of "s_IdempotencyKey s"] language_text [OF lang] store
    by (simp add: row_columns_ok_def updated_row_def sample_rates EncodingPCMS16LE_def storable_def)
qed

lemma updated_row_states:
  assumes "r_started_at row = s_StartedAt s" "r_expires_at row = s_ExpiresAt s" "session_inv n s frames"
  shows "row_states_ok (updated_row clock s row)"
proof -
  have f: "s_StartedAt s < s_ExpiresAt s" and st: "state_ok s" and pr: "progress_ok n s frames"
    using assms(3) by (simp_all add: session_inv_def format_ok_def)
  have "(s_NextSequence s = 0) = (s_LastFrameAt s = None)" using pr by (auto simp: progress_ok_def split: if_splits)
  moreover have "safeRealtimeErrorCode (s_LastErrorCode s) \<Longrightarrow> s_LastErrorCode s \<noteq> []"
    by (auto simp: safeRealtimeErrorCode_def)
  moreover have "languageTagPattern [] = False" "providerIDPattern [] = False"
    by (simp_all add: languageTagPattern_def providerIDPattern_def)
  ultimately show ?thesis
    using f st assms(1,2)
    by (auto simp: row_states_ok_def updated_row_def state_ok_def nullableText_def nullableDuration_def
        nullableLastCapture_def split: if_splits)
qed

lemma new_row_updated:
  assumes "NewSession p = Inr s"
  shows "new_row s h = updated_row (s_StartedAt s) s (new_row s h)"
  using NewSession_fields [OF assms]
  by (intro session_row.equality)
    (simp_all add: new_row_def updated_row_def nullableText_def nullableDuration_def nullableLastCapture_def)

lemma new_row_checks:
  assumes "NewSession p = Inr s" "np_TTL p = 0" "canonicalSHA256 h" "length (s_Language s) \<le> 35"
  shows "row_checks (new_row s h)"
proof -
  let ?s = "stored (s_StartedAt s) s"
  have inv: "session_inv 0 ?s []" by (rule session_inv_new_stored [OF assms(1,2)])
  have "updated_row (s_StartedAt s) ?s (new_row s h) = new_row s h"
    using NewSession_fields [OF assms(1)]
    by (intro session_row.equality)
      (simp_all add: new_row_def updated_row_def stored_def nullableText_def nullableDuration_def nullableLastCapture_def)
  moreover have "storable ?s"
    using assms(4) NewSession_fields [OF assms(1)] by (simp add: storable_def stored_def runes_def)
  ultimately show ?thesis
    using updated_row_columns [OF _ _ _ _ _ _ _ _ inv, of "new_row s h" "s_StartedAt s"]
      updated_row_states [OF _ _ inv, of "new_row s h" "s_StartedAt s"] assms(3)
    by (simp add: row_checks_def) (simp add: new_row_def stored_def ProtocolVersion_def)
qed

subsection \<open>Optimistic concurrency\<close>

text \<open>
  The contract of a store whose updates name the version they replace, and what its clients may
  conclude.  A snapshot is a value somebody read earlier; it is good when the stored value is at
  least as new, and equal if the versions agree.  Then an update based on a snapshot that takes
  effect replaces exactly that snapshot: nobody's change is overwritten unseen.
\<close>

locale versioned_store =
  fixes wf :: "'db \<Rightarrow> bool"
    and get :: "'db \<Rightarrow> 'k \<Rightarrow> 'v option"
    and key :: "'v \<Rightarrow> 'k"
    and version :: "'v \<Rightarrow> int"
    and update :: "int \<Rightarrow> 'v \<Rightarrow> 'db \<Rightarrow> 'db \<Rightarrow> 'e + 'v \<Rightarrow> bool"
  assumes update_wf: "wf db \<Longrightarrow> update e v db db' r \<Longrightarrow> wf db'"
    and update_frame: "wf db \<Longrightarrow> update e v db db' r \<Longrightarrow> k \<noteq> key v \<Longrightarrow> get db' k = get db k"
    and update_guard: "wf db \<Longrightarrow> update e v db db' r \<Longrightarrow> get db' (key v) \<noteq> get db (key v) \<Longrightarrow>
      \<exists>old new. get db (key v) = Some old \<and> version old = e \<and> get db' (key v) = Some new \<and> e < version new"
    and update_result: "wf db \<Longrightarrow> update e v db db' (Inr v') \<Longrightarrow> get db' (key v) = Some v' \<and> key v' = key v"
begin

definition good_snapshots :: "'v set \<Rightarrow> 'db \<Rightarrow> bool" where
  "good_snapshots held db \<longleftrightarrow>
     (\<forall>v\<in>held. \<exists>w. get db (key v) = Some w \<and> version v \<le> version w \<and> (version v = version w \<longrightarrow> v = w))"

lemma good_read: "good_snapshots held db \<Longrightarrow> get db (key v) = Some v \<Longrightarrow> good_snapshots (insert v held) db"
  by (simp add: good_snapshots_def)

lemma good_update:
  assumes "wf db" "good_snapshots held db" "update e v db db' r"
  shows "good_snapshots (held \<union> (case r of Inl _ \<Rightarrow> {} | Inr v' \<Rightarrow> {v'})) db'"
proof -
  have "good_snapshots held db'"
    unfolding good_snapshots_def
  proof
    fix u assume "u \<in> held"
    then obtain w where w: "get db (key u) = Some w" "version u \<le> version w" "version u = version w \<longrightarrow> u = w"
      using assms(2) by (auto simp: good_snapshots_def)
    show "\<exists>w. get db' (key u) = Some w \<and> version u \<le> version w \<and> (version u = version w \<longrightarrow> u = w)"
    proof (cases "get db' (key u) = get db (key u)")
      case False
      then have k: "key u = key v" using update_frame [OF assms(1,3)] by metis
      then obtain new where "version w = e" "get db' (key u) = Some new" "e < version new"
        using update_guard [OF assms(1,3)] False w(1) by auto
      then show ?thesis using w(2) by auto
    qed (use w in auto)
  qed
  moreover have "get db' (key v') = Some v'" if "r = Inr v'" for v'
    using update_result [OF assms(1)] assms(3) that by auto
  ultimately show ?thesis by (auto simp: good_snapshots_def split: sum.splits)
qed

lemma update_replaces_snapshot:
  assumes "wf db" "good_snapshots held db" "u \<in> held" "key v = key u" "update (version u) v db db' r"
    and "get db' (key u) \<noteq> get db (key u)"
  shows "get db (key u) = Some u"
  using assms update_guard [OF assms(1,5)] by (force simp: good_snapshots_def)

end

definition wf_db :: "rt_db \<Rightarrow> bool" where
  "wf_db db \<longleftrightarrow> distinct (map r_id (db_sessions db)) \<and>
     distinct (map (\<lambda>row. (r_workspace_id row, r_idempotency_key row)) (db_sessions db)) \<and>
     (\<forall>row\<in>set (db_sessions db). row_checks row \<and> in_i64 (r_version row))"

definition session_key :: "Session \<Rightarrow> string \<times> string" where
  "session_key s = (s_WorkspaceID s, s_ID s)"

definition store_get :: "rt_db \<Rightarrow> string \<times> string \<Rightarrow> Session option" where
  "store_get db k = map_option scanSession (find_row (fst k) (snd k) db)"

definition store_update :: "int \<Rightarrow> Session \<Rightarrow> rt_db \<Rightarrow> rt_db \<Rightarrow> rt_error + Session \<Rightarrow> bool" where
  "store_update e s db db' r \<longleftrightarrow> (\<exists>fault clock audit. pg_Update fault clock e s audit db = (db', r))"

lemma find_row_iff:
  assumes "wf_db db"
  shows "find_row w i db = Some row \<longleftrightarrow> row \<in> set (db_sessions db) \<and> r_workspace_id row = w \<and> r_id row = i"
proof
  assume "find_row w i db = Some row"
  then show "row \<in> set (db_sessions db) \<and> r_workspace_id row = w \<and> r_id row = i"
    by (auto simp: find_row_def find_Some_iff)
next
  assume r: "row \<in> set (db_sessions db) \<and> r_workspace_id row = w \<and> r_id row = i"
  then have "find_row w i db \<noteq> None" by (auto simp: find_row_def find_None_iff)
  then obtain row' where row': "find_row w i db = Some row'" by blast
  then have "row' \<in> set (db_sessions db)" "r_id row' = i" by (auto simp: find_row_def find_Some_iff)
  then have "row' = row" using assms r unfolding wf_db_def distinct_map inj_on_def by metis
  with row' show "find_row w i db = Some row" by simp
qed

lemma updated_row_fields [simp]:
  "r_id (updated_row c s row) = r_id row" "r_workspace_id (updated_row c s row) = r_workspace_id row"
  "r_idempotency_key (updated_row c s row) = r_idempotency_key row" "r_version (updated_row c s row) = s_Version s"
  "r_request_hash (updated_row c s row) = r_request_hash row" "r_language (updated_row c s row) = r_language row"
  by (simp_all add: updated_row_def)

lemma replace_row_set:
  assumes "wf_db db" "row \<in> set (db_sessions db)" "r_id row' = r_id row"
  shows "set (db_sessions (replace_row row' db)) = insert row' (set (db_sessions db) - {row})"
proof -
  have "r_id x = r_id row \<longleftrightarrow> x = row" if "x \<in> set (db_sessions db)" for x
    using assms(1,2) that unfolding wf_db_def distinct_map inj_on_def by metis
  then show ?thesis using assms(2,3) by (auto simp: replace_row_def)
qed

lemma replace_row_map:
  assumes "wf_db db" "row \<in> set (db_sessions db)" "r_id row' = r_id row" "f row' = f row"
  shows "map f (db_sessions (replace_row row' db)) = map f (db_sessions db)"
proof -
  have "r_id x = r_id row \<Longrightarrow> x = row" if "x \<in> set (db_sessions db)" for x
    using assms(1,2) that unfolding wf_db_def distinct_map inj_on_def by metis
  then show ?thesis using assms(3,4) by (auto simp: replace_row_def)
qed

lemma pg_UpdateE:
  assumes "pg_Update fault clock e s audit db = (db', r)"
  obtains (refused) err where "db' = db" "r = Inl err"
  | (applied) row where "find_row (s_WorkspaceID s) (s_ID s) db = Some row" "r_version row = e"
      "s_Version s = i64 (e + 1)" "row_checks (updated_row clock s row)"
      "db_sessions db' = db_sessions (replace_row (updated_row clock s row) db)"
      "r = Inr (scanSession (updated_row clock s row)) \<or> (\<exists>err. r = Inl err)"
      "map al_action (db_audits db') = map al_action (db_audits db) @ (case audit of None \<Rightarrow> [] | Some a \<Rightarrow> [au_Action a])"
proof -
  consider "db' = db \<and> (\<exists>err. r = Inl err)"
    | row where "find_row (s_WorkspaceID s) (s_ID s) db = Some row" "r_version row = e"
      "s_Version s = i64 (e + 1)" "row_checks (updated_row clock s row)"
      "db_sessions db' = db_sessions (replace_row (updated_row clock s row) db)"
      "r = Inr (scanSession (updated_row clock s row)) \<or> (\<exists>err. r = Inl err)"
      "map al_action (db_audits db') = map al_action (db_audits db) @ (case audit of None \<Rightarrow> [] | Some a \<Rightarrow> [au_Action a])"
    using assms
    by (fastforce simp: pg_Update_def Let_def pg_commit_def insertSessionAudit_def replace_row_def
        split: if_splits option.splits)
  then show thesis using that by cases auto
qed

lemma i64_succ_positive:
  assumes "in_i64 e" "0 < i64 (e + 1)"
  shows "i64 (e + 1) = e + 1"
proof (cases "e = max_i64")
  case True
  then have "i64 (e + 1) = min_i64" by (simp add: max_i64_def min_i64_def i64_def signed_take_bit_int_greater_eq_minus_exp)
  then show ?thesis using assms(2) by (simp add: min_i64_def)
qed (use assms(1) in \<open>auto simp: in_i64_def intro!: i64_id\<close>)

lemma applied_update:
  assumes "wf_db db" "find_row (s_WorkspaceID s) (s_ID s) db = Some row" "s_Version s = i64 (r_version row + 1)"
    and "row_checks (updated_row clock s row)"
    and "db_sessions db' = db_sessions (replace_row (updated_row clock s row) db)"
  shows "wf_db db'" "s_Version s = r_version row + 1"
    and "store_get db' k = (if k = session_key s then Some (scanSession (updated_row clock s row)) else store_get db k)"
proof -
  let ?row = "updated_row clock s row"
  have row: "row \<in> set (db_sessions db)" "r_workspace_id row = s_WorkspaceID s" "r_id row = s_ID s"
    using assms(1,2) by (auto simp: find_row_iff)
  have "in_i64 (r_version row)" using assms(1) row by (simp add: wf_db_def)
  moreover have "0 < s_Version s" using assms(4) by (simp add: row_checks_def row_columns_ok_def)
  ultimately show v: "s_Version s = r_version row + 1" using assms(3) i64_succ_positive by metis
  note sets = replace_row_set [OF assms(1) row(1), of ?row] and maps = replace_row_map [OF assms(1) row(1), of ?row]
  have "in_i64 (s_Version s)" using i64_range [of "r_version row + 1"] by (simp add: assms(3) in_i64_def)
  then show wf: "wf_db db'"
    using assms(1,4) sets maps [of r_id] maps [of "\<lambda>row. (r_workspace_id row, r_idempotency_key row)"]
    by (auto simp: wf_db_def assms(5))
  have "find_row (fst k) (snd k) db' = (if k = session_key s then Some ?row else find_row (fst k) (snd k) db)"
  proof (cases "k = session_key s")
    case True
    then show ?thesis using find_row_iff [OF wf] row sets by (simp add: assms(5) session_key_def)
  next
    case False
    then have "find_row (fst k) (snd k) db' = Some x \<longleftrightarrow> find_row (fst k) (snd k) db = Some x" for x
      using row sets unfolding find_row_iff [OF wf] find_row_iff [OF assms(1)]
      by (cases k) (auto simp: assms(5) session_key_def)
    then show ?thesis using False by (metis option.exhaust)
  qed
  then show "store_get db' k = (if k = session_key s then Some (scanSession ?row) else store_get db k)"
    by (simp add: store_get_def)
qed

interpretation pg: versioned_store wf_db store_get session_key s_Version store_update
proof
  fix db db' :: rt_db and e v and r :: "rt_error + Session"
  assume wf: "wf_db db" and u: "store_update e v db db' r"
  then obtain f c a where p: "pg_Update f c e v a db = (db', r)" by (auto simp: store_update_def)
  from p show "wf_db db'"
    by (cases rule: pg_UpdateE) (use wf applied_update(1) [OF wf] in auto)
  from p show "store_get db' k = store_get db k" if "k \<noteq> session_key v" for k
    by (cases rule: pg_UpdateE) (use wf applied_update(3) [OF wf, of v _ c db' k] that in auto)
  assume n: "store_get db' (session_key v) \<noteq> store_get db (session_key v)"
  from p show "\<exists>old new. store_get db (session_key v) = Some old \<and> s_Version old = e \<and>
      store_get db' (session_key v) = Some new \<and> e < s_Version new"
  proof (cases rule: pg_UpdateE)
    case (applied row)
    have "s_Version v = i64 (r_version row + 1)" using applied(2,3) by simp
    note u = applied_update [OF wf applied(1) this applied(4,5)]
    have "store_get db (session_key v) = Some (scanSession row)" by (simp add: store_get_def session_key_def applied(1))
    then show ?thesis using u applied(2) by simp
  qed (use n in simp)
next
  fix db db' :: rt_db and e v and v'
  assume wf: "wf_db db" and u: "store_update e v db db' (Inr v' :: rt_error + Session)"
  then obtain f c a where p: "pg_Update f c e v a db = (db', Inr v')" by (auto simp: store_update_def)
  then show "store_get db' (session_key v) = Some v' \<and> session_key v' = session_key v"
  proof (cases rule: pg_UpdateE)
    case (applied row)
    have "s_Version v = i64 (r_version row + 1)" using applied(2,3) by simp
    then show ?thesis
      using applied_update(3) [OF wf applied(1) _ applied(4,5), of "session_key v"] applied(1,6) wf
      by (auto simp: session_key_def find_row_iff)
  qed simp
qed

lemma pg_Create_insertE:
  assumes "pg_Create_insert fault s h audit db = (db', r)"
  obtains (refused) err where "db' = db" "r = Inl err"
  | (replayed) existing where "db' = db" "r = Inr (existing, True)"
      "loadIdempotentSession db (s_WorkspaceID s) (s_IdempotencyKey s) = Some (existing, h)"
  | (inserted) "db_sessions db' = db_sessions db @ [new_row s h]" "row_checks (new_row s h)"
      "s_ID s \<notin> set (map r_id (db_sessions db))"
      "loadIdempotentSession db (s_WorkspaceID s) (s_IdempotencyKey s) = None"
      "r = Inr (scanSession (new_row s h), False) \<or> (\<exists>err. r = Inl err)"
proof -
  consider "db' = db \<and> (\<exists>err. r = Inl err)"
    | existing where "db' = db" "r = Inr (existing, True)"
      "loadIdempotentSession db (s_WorkspaceID s) (s_IdempotencyKey s) = Some (existing, h)"
    | "db_sessions db' = db_sessions db @ [new_row s h]" "row_checks (new_row s h)"
      "s_ID s \<notin> set (map r_id (db_sessions db))"
      "loadIdempotentSession db (s_WorkspaceID s) (s_IdempotencyKey s) = None"
      "r = Inr (scanSession (new_row s h), False) \<or> (\<exists>err. r = Inl err)"
    using assms unfolding pg_Create_insert_def Let_def pg_commit_def insertSessionAudit_def replay_or_conflict_def
    by (fastforce split: if_splits option.splits prod.splits)
  then show thesis using that by cases auto
qed

lemma new_row_fields [simp]:
  "r_id (new_row s h) = s_ID s" "r_workspace_id (new_row s h) = s_WorkspaceID s"
  "r_idempotency_key (new_row s h) = s_IdempotencyKey s" "r_version (new_row s h) = 1"
  "r_request_hash (new_row s h) = h" "r_language (new_row s h) = s_Language s"
  by (simp_all add: new_row_def)

lemma load_None:
  "loadIdempotentSession db w k = None \<longleftrightarrow>
     (w, k) \<notin> set (map (\<lambda>row. (r_workspace_id row, r_idempotency_key row)) (db_sessions db))"
  by (auto simp: loadIdempotentSession_def find_None_iff)

lemma load_Some:
  assumes "wf_db db" "row \<in> set (db_sessions db)" "r_workspace_id row = w" "r_idempotency_key row = k"
  shows "loadIdempotentSession db w k = Some (scanSession row, r_request_hash row)"
proof -
  have "find (\<lambda>row. r_workspace_id row = w \<and> r_idempotency_key row = k) (db_sessions db) \<noteq> None"
    using assms(2-4) by (auto simp: find_None_iff)
  then obtain x where x: "find (\<lambda>row. r_workspace_id row = w \<and> r_idempotency_key row = k) (db_sessions db) = Some x"
    by blast
  then have "x \<in> set (db_sessions db)" "r_workspace_id x = w" "r_idempotency_key x = k" by (auto simp: find_Some_iff)
  then have "x = row"
    using assms unfolding wf_db_def distinct_map inj_on_def by (metis (mono_tags, lifting))
  with x show ?thesis by (simp add: loadIdempotentSession_def)
qed

lemma load_SomeD:
  assumes "loadIdempotentSession db w k = Some (s, h)"
  obtains row where "row \<in> set (db_sessions db)" "s = scanSession row" "r_request_hash row = h"
    "r_workspace_id row = w" "r_idempotency_key row = k"
  using assms by (auto simp: loadIdempotentSession_def find_Some_iff) (metis nth_mem)

lemma inserted_row:
  assumes "wf_db db" "db_sessions db' = db_sessions db @ [new_row s h]" "row_checks (new_row s h)"
    and "s_ID s \<notin> set (map r_id (db_sessions db))"
    and "loadIdempotentSession db (s_WorkspaceID s) (s_IdempotencyKey s) = None"
  shows "wf_db db'"
    and "store_get db' k = (if k = session_key s then Some (scanSession (new_row s h)) else store_get db k)"
proof -
  show wf: "wf_db db'"
    using assms unfolding wf_db_def load_None by (auto simp: in_i64_def min_i64_def max_i64_def)
  have "find_row (fst k) (snd k) db' = (if k = session_key s then Some (new_row s h) else find_row (fst k) (snd k) db)"
  proof (cases "k = session_key s")
    case True
    then have "find (\<lambda>row. r_id row = snd k \<and> r_workspace_id row = fst k) (db_sessions db) = None"
      using assms(4) by (force simp: find_None_iff session_key_def)
    then show ?thesis using True by (simp add: find_row_def find_append assms(2) session_key_def)
  qed (auto simp: find_row_def find_append assms(2) session_key_def prod_eq_iff split: option.split)
  then show "store_get db' k = (if k = session_key s then Some (scanSession (new_row s h)) else store_get db k)"
    by (simp add: store_get_def)
qed

subsection \<open>Interleaved clients\<close>

text \<open>
  Any number of servers and connections work on the database at once.  A client reads a session, or
  keeps one that \<^verbatim>\<open>Create\<close> or \<^verbatim>\<open>Update\<close> returned (the set \<open>held\<close>), decides on a transition of the state
  machine from what it holds, and later asks for the update, whatever happened in between.
  Every statement may hit a fault.  The ghost variable \<open>log\<close> records, per session, the frames of the
  updates that reached the table.
\<close>

inductive rt_run :: "rt_db \<Rightarrow> Session set \<Rightarrow> (string \<Rightarrow> (int \<times> int \<times> bytes) list) \<Rightarrow> nat \<Rightarrow> bool" where
  init: "db_sessions db = [] \<Longrightarrow> rt_run db {} (\<lambda>_. []) 0"
| read: "rt_run db held log n \<Longrightarrow> pg_Get fault w i db = Inr s \<Longrightarrow> rt_run db (insert s held) log n"
| create: "rt_run db held log n \<Longrightarrow> NewSession p = Inr s \<Longrightarrow> np_TTL p = 0 \<Longrightarrow>
    pg_Create_insert fault s h audit db = (db', r) \<Longrightarrow>
    rt_run db' (held \<union> (case r of Inl _ \<Rightarrow> {} | Inr (s', _) \<Rightarrow> {s'})) log n"
| update: "rt_run db held log n \<Longrightarrow> cur \<in> held \<Longrightarrow> session_step cur fs s \<Longrightarrow>
    pg_Update fault clock (s_Version cur) s audit db = (db', r) \<Longrightarrow>
    log' = (if db_sessions db' = db_sessions db then log else log(s_ID cur := log (s_ID cur) @ fs)) \<Longrightarrow>
    rt_run db' (held \<union> (case r of Inl _ \<Rightarrow> {} | Inr s' \<Rightarrow> {s'})) log' (Suc n)"
| other: "rt_run db held log n \<Longrightarrow> db_sessions db' = db_sessions db \<Longrightarrow> rt_run db' held log n"

definition rows_inv :: "rt_db \<Rightarrow> (string \<Rightarrow> (int \<times> int \<times> bytes) list) \<Rightarrow> nat \<Rightarrow> bool" where
  "rows_inv db log n \<longleftrightarrow>
     (\<forall>row\<in>set (db_sessions db). pg_times (scanSession row) \<and> (\<exists>k\<le>n. session_inv k (scanSession row) (log (r_id row))))
     \<and> (\<forall>i. i \<notin> r_id ` set (db_sessions db) \<longrightarrow> log i = [])"

lemma store_get_sessions: "db_sessions db' = db_sessions db \<Longrightarrow> store_get db' k = store_get db k"
  by (simp add: store_get_def find_row_def)

lemma good_snapshots_cong:
  "(\<And>k. store_get db' k = store_get db k) \<Longrightarrow> pg.good_snapshots held db' = pg.good_snapshots held db"
  by (simp add: pg.good_snapshots_def)

lemma store_get_row:
  "wf_db db \<Longrightarrow> row \<in> set (db_sessions db) \<Longrightarrow> store_get db (session_key (scanSession row)) = Some (scanSession row)"
  by (auto simp: store_get_def session_key_def find_row_iff)

lemma rows_inv_insert:
  assumes "rows_inv db log n" "db_sessions db' = db_sessions db @ [new_row s h]" "NewSession p = Inr s" "np_TTL p = 0"
    and "s_ID s \<notin> set (map r_id (db_sessions db))"
  shows "rows_inv db' log n"
proof -
  have "log (s_ID s) = []" using assms(1,5) by (simp add: rows_inv_def)
  then have "session_inv 0 (scanSession (new_row s h)) (log (r_id (new_row s h)))"
    using session_inv_new_stored [OF assms(3,4)] scan_new_row [OF assms(3)] by simp
  moreover have "pg_times (scanSession (new_row s h))" using scan_new_row [OF assms(3)] by simp
  ultimately show ?thesis using assms(1,2) by (auto simp: rows_inv_def)
qed

lemma rows_inv_update:
  assumes wf: "wf_db db" and inv: "rows_inv db log n" and "n < 2 ^ 46"
    and row: "row \<in> set (db_sessions db)" and step: "session_step (scanSession row) fs s"
    and db': "db_sessions db' = db_sessions (replace_row (updated_row clock s row) db)"
  shows "rows_inv db' (log(r_id row := log (r_id row) @ fs)) (Suc n)"
    and "scanSession (updated_row clock s row) = stored clock s"
proof -
  obtain k where k: "k \<le> n" "session_inv k (scanSession row) (log (r_id row))" and t: "pg_times (scanSession row)"
    using inv row by (auto simp: rows_inv_def)
  have small: "k < 2 ^ 46" using k(1) assms(3) by linarith
  show scan: "scanSession (updated_row clock s row) = stored clock s"
    by (rule scan_updated_row [OF step session_inv_step [OF k(2) step small] t])
  have "session_inv (Suc k) (stored clock s) (log (r_id row) @ fs)"
    by (rule session_inv_step_stored [OF k(2) step small t])
  moreover have "r_id x \<noteq> r_id row" if "x \<in> set (db_sessions db)" "x \<noteq> row" for x
    using wf row that unfolding wf_db_def distinct_map inj_on_def by metis
  ultimately show "rows_inv db' (log(r_id row := log (r_id row) @ fs)) (Suc n)"
    using inv k(1) scan row
    unfolding rows_inv_def db' replace_row_set [OF wf row updated_row_fields(1)]
    by (auto simp: Ball_def intro: le_SucI exI [of _ "Suc k"]) (meson le_SucI)+
qed

lemma rt_run_inv:
  assumes "rt_run db held log n" "n \<le> 2 ^ 46"
  shows "wf_db db \<and> rows_inv db log n \<and> pg.good_snapshots held db"
  using assms
proof (induction rule: rt_run.induct)
  case (init db)
  then show ?case by (simp add: wf_db_def rows_inv_def pg.good_snapshots_def)
next
  case (read db held log n fault w i s)
  then obtain row where "find_row w i db = Some row" "s = scanSession row"
    by (auto simp: pg_Get_def split: if_splits option.splits)
  then show ?case using read store_get_row [of db row] pg.good_read [of held db s] by (auto simp: find_row_iff)
next
  case (create db held log n p s fault h audit db' r)
  then have ih: "wf_db db" "rows_inv db log n" "pg.good_snapshots held db" by simp_all
  from create(4) show ?case
  proof (cases rule: pg_Create_insertE)
    case (replayed existing)
    then obtain row where "row \<in> set (db_sessions db)" "existing = scanSession row" by (auto elim: load_SomeD)
    then show ?thesis using replayed ih store_get_row [OF ih(1)] pg.good_read [OF ih(3)] by auto
  next
    case inserted
    note wf = inserted_row [OF ih(1) inserted(1-4)]
    have n: "store_get db (session_key s) = None"
      using inserted(3) by (force simp: store_get_def session_key_def find_row_def find_None_iff)
    have "pg.good_snapshots held db'"
      using ih(3) n unfolding pg.good_snapshots_def wf(2) by force
    moreover have "store_get db' (session_key (scanSession (new_row s h))) = Some (scanSession (new_row s h))"
      by (rule store_get_row [OF wf(1)]) (simp add: inserted(1))
    ultimately have "pg.good_snapshots (held \<union> (case r of Inl _ \<Rightarrow> {} | Inr (s', _) \<Rightarrow> {s'})) db'"
      using inserted(5) pg.good_read by auto
    then show ?thesis using wf(1) rows_inv_insert [OF ih(2) inserted(1) create(2,3) inserted(3)] by simp
  qed (use ih in auto)
next
  case (update db held log n cur fs s fault clock audit db' r log')
  then have ih: "wf_db db" "rows_inv db log n" "pg.good_snapshots held db" and n: "n < 2 ^ 46" by simp_all
  have u: "store_update (s_Version cur) s db db' r" using update(4) by (auto simp: store_update_def)
  have key: "session_key s = session_key cur" using step_fixed [OF update(3)] by (simp add: session_key_def)
  have good: "pg.good_snapshots (held \<union> (case r of Inl _ \<Rightarrow> {} | Inr s' \<Rightarrow> {s'})) db'"
    by (rule pg.good_update [OF ih(1,3) u])
  have wf': "wf_db db'" by (rule pg.update_wf [OF ih(1) u])
  from update(4) have "rows_inv db' log' (Suc n)"
  proof (cases rule: pg_UpdateE)
    case refused
    then show ?thesis using ih(2) update(5) by (auto simp: rows_inv_def) (meson le_SucI)
  next
    case (applied row)
    have v: "s_Version s = i64 (r_version row + 1)" using applied(2,3) by simp
    note a = applied_update [OF ih(1) applied(1) v applied(4,5)]
    have row: "row \<in> set (db_sessions db)" "session_key (scanSession row) = session_key s"
      using applied(1) ih(1) by (auto simp: find_row_iff session_key_def)
    have "store_get db (session_key cur) = Some (scanSession row)"
      using store_get_row [OF ih(1) row(1)] row(2) key by simp
    moreover have changed: "store_get db' (session_key cur) \<noteq> store_get db (session_key cur)"
    proof
      assume "store_get db' (session_key cur) = store_get db (session_key cur)"
      then have "s_Version (scanSession (updated_row clock s row)) = s_Version (scanSession row)"
        using a(3) [of "session_key cur"] key calculation by simp
      then show False using a(2) by simp
    qed
    ultimately have cur: "cur = scanSession row"
      using pg.update_replaces_snapshot [OF ih(1,3) update(2) key u] by simp
    have "db_sessions db' \<noteq> db_sessions db" using changed store_get_sessions by metis
    then show ?thesis
      using rows_inv_update(1) [OF ih(1,2) n row(1) _ applied(5), of fs] update(3,5) cur by simp
  qed
  then show ?case using wf' good by simp
next
  case (other db held log n db')
  then have s: "db_sessions db' = db_sessions db" by simp
  then show ?case
    using other good_snapshots_cong [OF store_get_sessions [OF s]] by (simp add: wf_db_def rows_inv_def)
qed

definition audit_accepted :: "rt_db \<Rightarrow> Audit option \<Rightarrow> bool" where
  "audit_accepted db audit =
     (case audit of None \<Rightarrow> True | Some a \<Rightarrow> validSessionAudit a \<and> au_ID a \<notin> set (map al_id (db_audits db)))"

lemma current_update:
  assumes wf: "wf_db db" and inv: "rows_inv db log n" and "n < 2 ^ 46"
    and row: "row \<in> set (db_sessions db)" and step: "session_step (scanSession row) fs s" and "storable s"
    and "audit_accepted db audit"
  obtains db' where "pg_Update None clock (r_version row) s audit db = (db', Inr (stored clock s))"
    and "\<And>k. store_get db' k = (if k = session_key s then Some (stored clock s) else store_get db k)"
proof -
  obtain k where k: "k \<le> n" "session_inv k (scanSession row) (log (r_id row))" and t: "pg_times (scanSession row)"
    using inv row by (auto simp: rows_inv_def)
  have small: "k < 2 ^ 46" using k(1) assms(3) by linarith
  note inv' = session_inv_step [OF k(2) step small]
  note fixed = step_fixed [OF step]
  have "r_version row = int k + 1" "s_Version s = int k + 2"
    using k(2) inv' by (simp_all add: session_inv_def progress_ok_def)
  then have v: "s_Version s = i64 (r_version row + 1)" using small by (subst i64_small) simp_all
  have "row_checks row" using wf row by (simp add: wf_db_def)
  then have "canonicalSHA256 (r_request_hash row)" "r_protocol_version row = ''1''"
    by (simp_all add: row_checks_def row_columns_ok_def)
  then have checks: "row_checks (updated_row clock s row)"
    using updated_row_columns [OF _ _ _ _ _ _ _ _ inv' assms(6), of row clock] fixed
      updated_row_states [OF _ _ inv', of row clock]
    by (simp add: row_checks_def)
  have find: "find_row (s_WorkspaceID s) (s_ID s) db = Some row" using wf row fixed by (simp add: find_row_iff)
  have scan: "scanSession (updated_row clock s row) = stored clock s"
    by (rule rows_inv_update(2) [OF wf inv assms(3) row step HOL.refl])
  obtain db' where p: "pg_Update None clock (r_version row) s audit db = (db', Inr (stored clock s))"
    and s: "db_sessions db' = db_sessions (replace_row (updated_row clock s row) db)"
    using v find checks scan assms(7)
    by (cases audit) (simp_all add: pg_Update_def Let_def pg_commit_def insertSessionAudit_def audit_accepted_def
        replace_row_def)
  show thesis
    using that [OF p] applied_update(3) [OF wf find v checks s] scan by simp
qed

subsection \<open>A sample database\<close>

definition sample_hash :: string where "sample_hash = replicate 64 CHR ''0''"

definition sample_audit :: Audit where
  "sample_audit = \<lparr>au_ID = sample_uuid, au_ActorID = sample_uuid, au_ActorType = ''user'',
     au_Action = AuditSessionStarted, au_Metadata = ''{}''\<rparr>"

definition sample_db :: rt_db where
  "sample_db = \<lparr>db_sessions = [], db_audits = [], db_memberships = [(sample_uuid, sample_uuid)], db_profiles = [],
     db_hotwords = []\<rparr>"

definition sample_db1 :: rt_db where
  "sample_db1 = fst (pg_Create None sample_session sample_hash sample_audit sample_db)"

lemma sample_hash_ok: "canonicalSHA256 sample_hash"
  by (simp add: canonicalSHA256_def sample_hash_def list_all_iff is_hex_lower_def is_digit_def)

lemma sample_audit_valid: "validSessionAudit sample_audit"
proof -
  have "list_all (\<lambda>c. (of_char c :: nat) < 128) ''{}''" by simp
  then have "trim_space ''{}'' = ''{}''"
    by (simp only: trim_space_def ascii_chunks) (simp add: is_space_def)
  moreover have "json_valid ''{}''" by code_simp
  ultimately show ?thesis
    using sample_uuid_canonical by (simp add: validSessionAudit_def sample_audit_def)
qed

lemma sample_row_scan: "scanSession (new_row sample_session sample_hash) = sample_session"
  using scan_new_row [OF sample_new]
  by (simp add: stored_def) (simp add: sample_session_def pg_time_def time_units)

lemma sample_create:
  "pg_Create_insert None sample_session sample_hash sample_audit sample_db =
     (sample_db1, Inr (scanSession (new_row sample_session sample_hash), False))"
  "db_sessions sample_db1 = [new_row sample_session sample_hash]"
proof -
  have "row_checks (new_row sample_session sample_hash)"
    by (rule new_row_checks [OF sample_new _ sample_hash_ok]) (simp_all add: sample_params_def sample_session_def)
  moreover have "insert_foreign_ok sample_db sample_session"
    by (simp add: insert_foreign_ok_def sample_db_def sample_session_def nullableUUID_def trim_space_def)
  moreover have "validateSessionReferences None sample_db sample_session = None"
    by (simp add: validateSessionReferences_def sample_session_def)
  ultimately show "pg_Create_insert None sample_session sample_hash sample_audit sample_db =
      (sample_db1, Inr (scanSession (new_row sample_session sample_hash), False))"
    "db_sessions sample_db1 = [new_row sample_session sample_hash]"
    by (simp_all add: sample_db1_def pg_Create_def pg_Create_insert_def loadIdempotentSession_def
        insertSessionAudit_def sample_audit_valid pg_commit_def Let_def sample_db_def)
qed

lemma sample_rt_run: "rt_run sample_db1 {sample_session} (\<lambda>_. []) 0"
  using rt_run.create [OF rt_run.init sample_new _ sample_create(1)] sample_row_scan
  by (simp add: sample_db_def sample_params_def)

subsection \<open>The guarantees of the repository\<close>

text \<open>
  C2: exactly-once storage under concurrency.  However the clients interleave, crash or lose a
  commit reply, every stored session is well formed and accounts for exactly the frames whose
  updates reached the table: numbered \<open>0, 1, ...\<close> without gap or repetition, with their bytes counted.
\<close>

theorem stored_frames_exactly_once:
  assumes "rt_run db held log n" "n \<le> 2 ^ 46" "row \<in> set (db_sessions db)"
  shows "format_ok (scanSession row) \<and> state_ok (scanSession row)
    \<and> map fst (log (r_id row)) = map int [0..<length (log (r_id row))]
    \<and> r_next_sequence row = int (length (log (r_id row)))
    \<and> r_received_bytes row = (\<Sum>(_, _, pcm) \<leftarrow> log (r_id row). int (length pcm))"
proof -
  obtain k where "session_inv k (scanSession row) (log (r_id row))"
    using rt_run_inv [OF assms(1,2)] assms(3) by (auto simp: rows_inv_def)
  then show ?thesis by (simp add: session_inv_def progress_ok_def)
qed

theorem stored_frames_exactly_once_witness:
  "r_next_sequence (new_row sample_session sample_hash) = 0 \<and> format_ok (scanSession (new_row sample_session sample_hash))"
  using stored_frames_exactly_once [OF sample_rt_run, of "new_row sample_session sample_hash"] sample_create(2) by simp



text \<open>
  C28: \<^verbatim>\<open>Update\<close> is atomic and confined.  Whatever fails, either nothing at all is changed and an error
  is returned, or exactly the row with the session's id and workspace is replaced, from the version
  named, together with exactly the requested audit entry.
\<close>

theorem Update_atomic:
  assumes "wf_db db" "pg_Update fault clock e s audit db = (db', r)"
  shows "(db' = db \<and> (\<exists>err. r = Inl err)) \<or>
    (\<exists>row\<in>set (db_sessions db). r_id row = s_ID s \<and> r_workspace_id row = s_WorkspaceID s \<and> r_version row = e
      \<and> set (db_sessions db') = insert (updated_row clock s row) (set (db_sessions db) - {row})
      \<and> map al_action (db_audits db') = map al_action (db_audits db) @ map au_Action (case audit of None \<Rightarrow> [] | Some a \<Rightarrow> [a])
      \<and> (\<forall>s'. r = Inr s' \<longrightarrow> s' = scanSession (updated_row clock s row)))"
  using assms(2)
proof (cases rule: pg_UpdateE)
  case (applied row)
  have "row \<in> set (db_sessions db)" "r_id row = s_ID s" "r_workspace_id row = s_WorkspaceID s"
    using applied(1) assms(1) by (simp_all add: find_row_iff)
  then show ?thesis
    using applied replace_row_set [OF assms(1) _ updated_row_fields(1), of row clock s]
    by (intro disjI2 bexI [of _ row]) (auto split: option.splits)
qed simp

theorem Update_atomic_witness: "fst (pg_Update None hour 5 sample_streamed None sample_db1) = sample_db1"
proof -
  have wf: "wf_db sample_db1" using rt_run_inv [OF sample_rt_run] by simp
  obtain db' r where "pg_Update None hour 5 sample_streamed None sample_db1 = (db', r)" by (rule prod.exhaust)
  with Update_atomic [OF wf this] show ?thesis by (simp add: sample_create(2))
qed

text \<open>
  C27: \<^verbatim>\<open>Create\<close> is idempotent.  Once a row with an idempotency key is in the table, however it got
  there and whatever happened to it since, a start request with that key in the same workspace
  returns that session as a replay if the request hash agrees and \<^verbatim>\<open>ErrIdempotencyConflict\<close> if not,
  and changes nothing.  The same holds if the row was committed by another connection after the
  first lookup.
\<close>

theorem Create_idempotent:
  assumes "rt_run db held log n" "n \<le> 2 ^ 46" "row \<in> set (db_sessions db)"
    and "s_WorkspaceID s = r_workspace_id row" "s_IdempotencyKey s = r_idempotency_key row"
  shows "pg_Create None s h audit db =
      (db, if h = r_request_hash row then Inr (scanSession row, True) else Inl ErrIdempotencyConflict)
    \<and> (validateSessionReferences None db s = None \<and> row_checks (new_row s h) \<longrightarrow>
        pg_Create_insert None s h audit db =
          (db, if h = r_request_hash row then Inr (scanSession row, True) else Inl ErrIdempotencyConflict))"
proof -
  have "wf_db db" using rt_run_inv [OF assms(1,2)] by simp
  from load_Some [OF this assms(3)]
  have "loadIdempotentSession db (s_WorkspaceID s) (s_IdempotencyKey s) = Some (scanSession row, r_request_hash row)"
    using assms(4,5) by simp
  then show ?thesis by (auto simp: pg_Create_def pg_Create_insert_def replay_or_conflict_def Let_def)
qed

theorem Create_idempotent_witness:
  "pg_Create None (sample_session\<lparr>s_ID := ''other''\<rparr>) sample_hash sample_audit sample_db1 =
     (sample_db1, Inr (sample_session, True))"
  using Create_idempotent [OF sample_rt_run _ , of "new_row sample_session sample_hash" "sample_session\<lparr>s_ID := ''other''\<rparr>"
      sample_hash sample_audit] sample_row_scan
  by (simp add: sample_create(2))

end
