(* ===== verification/Rt_Service.thy ===== *)
theory Rt_Service
  imports Rt_Repository Go_Sha256 "HOL-Library.Sublist"
begin

text \<open>
  \<^verbatim>\<open>internal/realtime/service.go\<close>: authorization, the state machine and the repository put together.

  The world of an operation is the database and a counter of the calls made to the outside.  The
  environment says, per call, what the clock reads, which random bytes arrive, how the database
  fails, and what other connections did to the database since the previous call.
\<close>

record env =
  env_clock :: "nat \<Rightarrow> go_time"
  env_random :: "nat \<Rightarrow> bytes option"
  env_fault :: "nat \<Rightarrow> db_fault option"
  env_other :: "nat \<Rightarrow> rt_db \<Rightarrow> rt_db"

record world =
  w_tick :: nat
  w_db :: rt_db

definition now_call :: "env \<Rightarrow> 'z world_scheme \<Rightarrow> 'z world_scheme \<times> go_time" where
  "now_call env w = (w\<lparr>w_tick := Suc (w_tick w)\<rparr>, env_clock env (w_tick w))"

definition uuid_call :: "env \<Rightarrow> 'z world_scheme \<Rightarrow> 'z world_scheme \<times> (id_error + string)" where
  "uuid_call env w = (w\<lparr>w_tick := Suc (w_tick w)\<rparr>, NewUUIDFrom (env_random env (w_tick w)))"

definition db_call ::
  "env \<Rightarrow> (db_fault option \<Rightarrow> go_time \<Rightarrow> rt_db \<Rightarrow> rt_db \<times> 'a) \<Rightarrow> 'z world_scheme \<Rightarrow> 'z world_scheme \<times> 'a" where
  "db_call env f w =
     (let t = w_tick w; (db, r) = f (env_fault env t) (env_clock env t) (env_other env t (w_db w))
      in (w\<lparr>w_tick := Suc t, w_db := db\<rparr>, r))"

subsection \<open>The repository as the service calls it\<close>

definition repo_Get :: "env \<Rightarrow> string \<Rightarrow> string \<Rightarrow> 'z world_scheme \<Rightarrow> 'z world_scheme \<times> (rt_error + Session)" where
  "repo_Get env workspaceID sessionID = db_call env (\<lambda>fault _ db. (db, pg_Get fault workspaceID sessionID db))"

definition repo_Update ::
  "env \<Rightarrow> int \<Rightarrow> Session \<Rightarrow> Audit option \<Rightarrow> 'z world_scheme \<Rightarrow> 'z world_scheme \<times> (rt_error + Session)" where
  "repo_Update env expectedVersion session audit =
     db_call env (\<lambda>fault clock db. pg_Update fault clock expectedVersion session audit db)"

definition create_load :: "db_fault option \<Rightarrow> Session \<Rightarrow> rt_db \<Rightarrow> rt_error + (Session \<times> string) option" where
  "create_load fault session db =
     (if fault = Some FBegin then Inl (ErrOther ''begin realtime session transaction: %w'')
      else if fault = Some FLoad then Inl (ErrOther ''load idempotent realtime session: %w'')
      else Inr (loadIdempotentSession db (s_WorkspaceID session) (s_IdempotencyKey session)))"

definition repo_Create ::
  "env \<Rightarrow> Session \<Rightarrow> string \<Rightarrow> Audit \<Rightarrow> 'z world_scheme \<Rightarrow> 'z world_scheme \<times> (rt_error + (Session \<times> bool))" where
  "repo_Create env session requestHash audit w =
     (case db_call env (\<lambda>fault _ db. (db, create_load fault session db)) w of
        (w, Inl e) \<Rightarrow> (w, Inl e)
      | (w, Inr (Some (existing, existingHash))) \<Rightarrow>
          (w, if existingHash \<noteq> requestHash then Inl ErrIdempotencyConflict else Inr (existing, True))
      | (w, Inr None) \<Rightarrow> db_call env (\<lambda>fault _ db. pg_Create_insert fault session requestHash audit db) w)"

subsection \<open>Helpers\<close>

definition mapRepositoryError :: "string \<Rightarrow> rt_error \<Rightarrow> rt_error" where
  "mapRepositoryError operation err =
     (if err \<in> {ErrNotFound, ErrIdempotencyConflict, ErrVersionConflict, ErrInvalidEvent} then err
      else ErrOther (operation @ '': %w''))"

text \<open>The keys of the metadata maps are given in the order in which \<^verbatim>\<open>json.Marshal\<close> writes them.\<close>

definition marshal_map :: "(string \<times> json option) list \<Rightarrow> bytes option" where
  "marshal_map metadata =
     (if list_all (\<lambda>(_, v). v \<noteq> None) metadata then Some (json_encode (JObj (map (map_prod id the) metadata))) else None)"

definition newAudit ::
  "env \<Rightarrow> string \<Rightarrow> string \<Rightarrow> (string \<times> json option) list \<Rightarrow> 'z world_scheme \<Rightarrow> 'z world_scheme \<times> (rt_error + Audit)" where
  "newAudit env actorID action metadata w =
     (case uuid_call env w of
        (w, Inl _) \<Rightarrow> (w, Inl (ErrOther ''generate realtime audit ID: %w''))
      | (w, Inr auditID) \<Rightarrow>
      case marshal_map metadata of
        None \<Rightarrow> (w, Inl (ErrOther ''encode realtime audit metadata: %w''))
      | Some encoded \<Rightarrow>
        (w, Inr \<lparr>au_ID = auditID, au_ActorID = actorID, au_ActorType = ''user'', au_Action = action,
                 au_Metadata = encoded\<rparr>))"

definition startRequestHash :: "StartEvent \<Rightarrow> string" where
  "startRequestHash event =
     hex_encode (Sum256 (json_encode (JObj [
       (''ProtocolVersion'', JStr (se_ProtocolVersion event)), (''ClientSessionID'', JStr (se_ClientSessionID event)),
       (''Encoding'', JStr (se_Encoding event)), (''Language'', JStr (se_Language event)),
       (''SampleRateHz'', jint (se_SampleRateHz event)), (''Channels'', jint (se_Channels event)),
       (''FrameDurationMS'', jint (se_FrameDurationMS event)), (''ProviderProfileID'', JStr (se_ProviderProfileID event)),
       (''HotwordSetID'', JStr (se_HotwordSetID event))])))"

definition saveTransition ::
  "env \<Rightarrow> string \<Rightarrow> Session \<Rightarrow> Session \<Rightarrow> string \<Rightarrow> (string \<times> json option) list \<Rightarrow> 'z world_scheme \<Rightarrow>
     'z world_scheme \<times> (rt_error + Session)" where
  "saveTransition env actorID current updated action metadata w =
     (case newAudit env actorID action metadata w of
        (w, Inl e) \<Rightarrow> (w, Inl e)
      | (w, Inr audit) \<Rightarrow>
      case repo_Update env (s_Version current) updated (Some audit) w of
        (w, Inl e) \<Rightarrow> (w, Inl (mapRepositoryError ''persist realtime transition'' e))
      | (w, Inr saved) \<Rightarrow> (w, Inr saved))"

subsection \<open>Operations\<close>

definition svc_Start :: "env \<Rightarrow> principal \<Rightarrow> StartEvent \<Rightarrow> 'z world_scheme \<Rightarrow> 'z world_scheme \<times> (rt_error + (Session \<times> bool))" where
  "svc_Start env actor event w =
     (if \<not> Can actor ScopeTranscriptionsWrite then (w, Inl ErrForbidden)
      else case uuid_call env w of
        (w, Inl _) \<Rightarrow> (w, Inl (ErrOther ''generate realtime session ID: %w''))
      | (w, Inr sessionID) \<Rightarrow>
      case newAudit env (p_UserID actor) AuditSessionStarted
             [(''channels'', Some (jint (se_Channels event))),
              (''client_session_id'', Some (JStr (se_ClientSessionID event))),
              (''encoding'', Some (JStr (se_Encoding event))), (''language'', Some (JStr (se_Language event))),
              (''sample_rate_hz'', Some (jint (se_SampleRateHz event)))] w of
        (w, Inl e) \<Rightarrow> (w, Inl e)
      | (w, Inr audit) \<Rightarrow>
      case now_call env w of (w, now) \<Rightarrow>
      case NewSession \<lparr>np_ID = sessionID, np_WorkspaceID = p_WorkspaceID actor, np_CreatedBy = p_UserID actor,
                       np_Start = event, np_Now = now, np_TTL = 0\<rparr> of
        Inl _ \<Rightarrow> (w, Inl ErrInvalidEvent)
      | Inr session \<Rightarrow>
      case repo_Create env session (startRequestHash event) audit w of
        (w, Inl e) \<Rightarrow> (w, Inl (mapRepositoryError ''create realtime session'' e))
      | (w, Inr created) \<Rightarrow> (w, Inr created))"

definition svc_Get :: "env \<Rightarrow> principal \<Rightarrow> string \<Rightarrow> 'z world_scheme \<Rightarrow> 'z world_scheme \<times> (rt_error + Session)" where
  "svc_Get env actor sessionID w =
     (if \<not> Can actor ScopeTranscriptionsWrite then (w, Inl ErrForbidden)
      else if \<not> canonicalUUID sessionID then (w, Inl ErrNotFound)
      else case repo_Get env (p_WorkspaceID actor) sessionID w of
        (w, Inl e) \<Rightarrow> (w, Inl (mapRepositoryError ''get realtime session'' e))
      | (w, Inr result) \<Rightarrow> (w, Inr result))"

fun accept_attempts ::
  "env \<Rightarrow> principal \<Rightarrow> AudioEvent \<Rightarrow> nat \<Rightarrow> 'z world_scheme \<Rightarrow> 'z world_scheme \<times> (rt_error + (Session \<times> FrameDisposition))" where
  "accept_attempts env actor event 0 w = (w, Inl ErrVersionConflict)"
| "accept_attempts env actor event (Suc attempts) w =
     (case svc_Get env actor (ae_SessionID event) w of
        (w, Inl e) \<Rightarrow> (w, Inl e)
      | (w, Inr current) \<Rightarrow>
      case now_call env w of (w, now) \<Rightarrow>
      case ApplyAudio current event now of
        Inl e \<Rightarrow> (w, Inl e)
      | Inr (_, FrameDuplicate) \<Rightarrow> (w, Inr (current, FrameDuplicate))
      | Inr (updated, FrameAccepted) \<Rightarrow>
      case repo_Update env (s_Version current) updated None w of
        (w, Inr saved) \<Rightarrow> (w, Inr (saved, FrameAccepted))
      | (w, Inl e) \<Rightarrow>
          if e \<noteq> ErrVersionConflict then (w, Inl (mapRepositoryError ''persist realtime audio progress'' e))
          else accept_attempts env actor event attempts w)"

definition svc_AcceptAudio ::
  "env \<Rightarrow> principal \<Rightarrow> AudioEvent \<Rightarrow> 'z world_scheme \<Rightarrow> 'z world_scheme \<times> (rt_error + (Session \<times> FrameDisposition))" where
  "svc_AcceptAudio env actor event w = accept_attempts env actor event 3 w"

definition svc_Interrupt :: "env \<Rightarrow> principal \<Rightarrow> string \<Rightarrow> 'z world_scheme \<Rightarrow> 'z world_scheme \<times> (rt_error + Session)" where
  "svc_Interrupt env actor sessionID w =
     (case svc_Get env actor sessionID w of
        (w, Inl e) \<Rightarrow> (w, Inl e)
      | (w, Inr current) \<Rightarrow>
      case now_call env w of (w, now) \<Rightarrow>
      case Interrupt current now DefaultReconnectWindow of
        Inl e \<Rightarrow> (w, Inl e)
      | Inr updated \<Rightarrow>
        saveTransition env (p_UserID actor) current updated AuditSessionInterrupted
          [(''acknowledged_sequence'', Some (jint (AcknowledgedSequence updated))),
           (''reconnect_by'', case s_ReconnectBy updated of None \<Rightarrow> Some JNull | Some t \<Rightarrow> time_json t)] w)"

definition svc_Resume :: "env \<Rightarrow> principal \<Rightarrow> ResumeEvent \<Rightarrow> 'z world_scheme \<Rightarrow> 'z world_scheme \<times> (rt_error + Session)" where
  "svc_Resume env actor event w =
     (case svc_Get env actor (re_SessionID event) w of
        (w, Inl e) \<Rightarrow> (w, Inl e)
      | (w, Inr current) \<Rightarrow>
      case now_call env w of (w, now) \<Rightarrow>
      case Resume current event now of
        Inl e \<Rightarrow> (w, Inl e)
      | Inr updated \<Rightarrow>
        saveTransition env (p_UserID actor) current updated AuditSessionResumed
          [(''next_sequence'', Some (jint (s_NextSequence updated)))] w)"

definition svc_BeginFinalization ::
  "env \<Rightarrow> principal \<Rightarrow> FinishEvent \<Rightarrow> 'z world_scheme \<Rightarrow> 'z world_scheme \<times> (rt_error + Session)" where
  "svc_BeginFinalization env actor event w =
     (case svc_Get env actor (fe_SessionID event) w of
        (w, Inl e) \<Rightarrow> (w, Inl e)
      | (w, Inr current) \<Rightarrow>
      case now_call env w of (w, now) \<Rightarrow>
      case BeginFinalization current event now of
        Inl e \<Rightarrow> (w, Inl e)
      | Inr updated \<Rightarrow>
        saveTransition env (p_UserID actor) current updated AuditSessionFinalizing
          [(''captured_duration_ms'', Some (jint (fe_CapturedDurationMS event))),
           (''final_sequence'', Some (jint (fe_FinalSequence event))),
           (''received_bytes'', Some (jint (s_ReceivedBytes updated)))] w)"

definition svc_Complete ::
  "env \<Rightarrow> principal \<Rightarrow> string \<Rightarrow> ProviderResult \<Rightarrow> 'z world_scheme \<Rightarrow> 'z world_scheme \<times> (rt_error + Session)" where
  "svc_Complete env actor sessionID result w =
     (case svc_Get env actor sessionID w of
        (w, Inl e) \<Rightarrow> (w, Inl e)
      | (w, Inr current) \<Rightarrow>
      case now_call env w of (w, now) \<Rightarrow>
      case Complete current result now of
        Inl e \<Rightarrow> (w, Inl e)
      | Inr updated \<Rightarrow>
        saveTransition env (p_UserID actor) current updated AuditSessionCompleted
          [(''language'', Some (JStr (s_FinalLanguage updated))),
           (''provider_id'', Some (JStr (s_FinalProviderID updated))),
           (''received_bytes'', Some (jint (s_ReceivedBytes updated))),
           (''transcript_bytes'', Some (jint (int (length (s_FinalTranscript updated)))))] w)"

definition svc_Fail :: "env \<Rightarrow> principal \<Rightarrow> string \<Rightarrow> string \<Rightarrow> 'z world_scheme \<Rightarrow> 'z world_scheme \<times> (rt_error + Session)" where
  "svc_Fail env actor sessionID errorCode w =
     (case svc_Get env actor sessionID w of
        (w, Inl e) \<Rightarrow> (w, Inl e)
      | (w, Inr current) \<Rightarrow>
      case Fail current errorCode of
        Inl e \<Rightarrow> (w, Inl e)
      | Inr updated \<Rightarrow>
        saveTransition env (p_UserID actor) current updated AuditSessionFailed
          [(''error_code'', Some (JStr errorCode))] w)"

subsection \<open>Requests\<close>

datatype svc_request = ReqStart StartEvent | ReqGet string | ReqAudio AudioEvent | ReqInterrupt string
  | ReqResume ResumeEvent | ReqFinalize FinishEvent | ReqComplete string ProviderResult | ReqFail string string

fun svc_handle :: "env \<Rightarrow> principal \<Rightarrow> svc_request \<Rightarrow> 'z world_scheme \<Rightarrow> 'z world_scheme \<times> (rt_error + Session)" where
  "svc_handle env actor (ReqStart event) w = map_prod id (map_sum id fst) (svc_Start env actor event w)"
| "svc_handle env actor (ReqGet sid) w = svc_Get env actor sid w"
| "svc_handle env actor (ReqAudio event) w = map_prod id (map_sum id fst) (svc_AcceptAudio env actor event w)"
| "svc_handle env actor (ReqInterrupt sid) w = svc_Interrupt env actor sid w"
| "svc_handle env actor (ReqResume event) w = svc_Resume env actor event w"
| "svc_handle env actor (ReqFinalize event) w = svc_BeginFinalization env actor event w"
| "svc_handle env actor (ReqComplete sid result) w = svc_Complete env actor sid result w"
| "svc_handle env actor (ReqFail sid code) w = svc_Fail env actor sid code w"

text \<open>The integers of an event are 64-bit integers, as decoding guarantees.\<close>

fun request_ok :: "svc_request \<Rightarrow> bool" where
  "request_ok (ReqAudio event) = in_i64 (ae_CapturedAtMS event)"
| "request_ok (ReqFinalize event) = in_i64 (fe_CapturedDurationMS event)"
| "request_ok _ = True"

subsection \<open>The service runs the interleaving semantics\<close>

text \<open>
  Other connections behave like clients of the repository: what they do between two calls is again
  a run, which forgets no snapshot and removes no frame.
\<close>

definition extends ::
  "Session set \<times> (string \<Rightarrow> (int \<times> int \<times> bytes) list) \<Rightarrow> Session set \<times> (string \<Rightarrow> (int \<times> int \<times> bytes) list) \<Rightarrow> bool" where
  "extends a b \<longleftrightarrow> fst a \<subseteq> fst b \<and> (\<forall>i. prefix (snd a i) (snd b i))"

definition legal_env :: "env \<Rightarrow> bool" where
  "legal_env env \<longleftrightarrow> (\<forall>t db held log n. rt_run db held log n \<longrightarrow>
     (\<exists>held' log' n'. rt_run (env_other env t db) held' log' n' \<and> extends (held, log) (held', log')))"

definition running :: "'z world_scheme \<Rightarrow> Session set \<times> (string \<Rightarrow> (int \<times> int \<times> bytes) list) \<Rightarrow> bool" where
  "running w a \<longleftrightarrow> (\<exists>n. rt_run (w_db w) (fst a) (snd a) n)"

lemma extends_refl [simp]: "extends a a"
  by (simp add: extends_def)

lemma extends_trans: "extends a b \<Longrightarrow> extends b c \<Longrightarrow> extends a c"
  by (auto simp: extends_def intro: prefix_order.trans)

lemma extends_held: "extends a b \<Longrightarrow> s \<in> fst a \<Longrightarrow> s \<in> fst b"
  by (auto simp: extends_def)

lemma running_tick [simp]: "running (w\<lparr>w_tick := t\<rparr>) a = running w a"
  by (simp add: running_def)

lemma now_call_running: "now_call env w = (w', t) \<Longrightarrow> running w' a = running w a"
  by (auto simp: now_call_def)

lemma newAudit_running: "newAudit env i act m w = (w', r) \<Longrightarrow> running w' a = running w a"
  by (auto simp: newAudit_def uuid_call_def split: sum.splits option.splits)

lemma now_call_db: "now_call env w = (w', t) \<Longrightarrow> w_db w' = w_db w"
  by (auto simp: now_call_def)

lemma db_callE:
  assumes "legal_env env" "running w a" "db_call env f w = (w', r)"
  obtains b n db fault clock where "extends a b" "rt_run db (fst b) (snd b) n" "f fault clock db = (w_db w', r)"
proof -
  obtain n where "rt_run (w_db w) (fst a) (snd a) n" using assms(2) by (auto simp: running_def)
  then obtain held log n' where "rt_run (env_other env (w_tick w) (w_db w)) held log n'" "extends a (held, log)"
    using assms(1) unfolding legal_env_def by (metis prod.collapse)
  moreover have "f (env_fault env (w_tick w)) (env_clock env (w_tick w)) (env_other env (w_tick w) (w_db w)) = (w_db w', r)"
    using assms(3) by (auto simp: db_call_def Let_def split: prod.splits)
  ultimately show thesis using that [of "(held, log)"] by simp
qed

lemma rt_run_wf: "rt_run db held log n \<Longrightarrow> wf_db db"
proof (induction rule: rt_run.induct)
  case (create db held log n p s fault h audit db' r)
  from create(4) show ?case
    by (cases rule: pg_Create_insertE) (use create(5) inserted_row(1) [OF create(5)] in auto)
next
  case (update db held log n cur fs s fault clock audit db' r log')
  then show ?case using pg.update_wf [of db "s_Version cur" s db' r] by (auto simp: store_update_def)
qed (simp_all add: wf_db_def)

lemma svc_GetE:
  assumes "legal_env env" "running w a" "svc_Get env actor sid w = (w', r)"
  obtains b where "extends a b" "running w' b"
    "\<And>s. r = Inr s \<Longrightarrow> s \<in> fst b \<and> s_ID s = sid \<and> s_WorkspaceID s = p_WorkspaceID actor \<and>
      store_get (w_db w') (session_key s) = Some s"
proof (cases "Can actor ScopeTranscriptionsWrite \<and> canonicalUUID sid")
  case True
  obtain r0 where g: "repo_Get env (p_WorkspaceID actor) sid w = (w', r0)" and r0: "\<And>s. r = Inr s \<Longrightarrow> r0 = Inr s"
    using assms(3) True by (auto simp: svc_Get_def split: prod.splits sum.splits)
  from g obtain b n db fault where b: "extends a b" "rt_run db (fst b) (snd b) n"
    "w_db w' = db" "r0 = pg_Get fault (p_WorkspaceID actor) sid db"
    unfolding repo_Get_def by (elim db_callE [OF assms(1,2)]) auto
  show thesis
  proof (cases r0)
    case (Inl e)
    then show thesis using that [OF b(1)] b r0 by (auto simp: running_def)
  next
    case (Inr s)
    then have get: "pg_Get fault (p_WorkspaceID actor) sid db = Inr s" using b(4) by simp
    then obtain row where row: "find_row (p_WorkspaceID actor) sid db = Some row" "s = scanSession row"
      by (auto simp: pg_Get_def split: if_splits option.splits)
    have f: "row \<in> set (db_sessions db)" "r_id row = sid" "r_workspace_id row = p_WorkspaceID actor"
      using row(1) rt_run_wf [OF b(2)] by (auto simp: find_row_iff)
    have run: "rt_run db (insert s (fst b)) (snd b) n" by (rule rt_run.read [OF b(2) get])
    show thesis
    proof (rule that)
      show "extends a (insert s (fst b), snd b)" using b(1) by (auto simp: extends_def)
      show "running w' (insert s (fst b), snd b)" using run b(3) by (auto simp: running_def)
      fix s' assume "r = Inr s'"
      then show "s' \<in> fst (insert s (fst b), snd b) \<and> s_ID s' = sid \<and> s_WorkspaceID s' = p_WorkspaceID actor \<and>
          store_get (w_db w') (session_key s') = Some s'"
        using r0 Inr row(2) f store_get_row [OF rt_run_wf [OF b(2)] f(1)] b(3) by auto
    qed
  qed
next
  case False
  then have "w' = w" "\<exists>e. r = Inl e" using assms(3) by (auto simp: svc_Get_def split: if_splits)
  then show thesis using that [of a] assms(2) by auto
qed

lemma repo_UpdateE:
  assumes "legal_env env" "running w a" "cur \<in> fst a" "session_step cur fs s"
    and "repo_Update env (s_Version cur) s audit w = (w', r)"
  obtains b where "extends a b" "running w' b"
    "\<And>s'. r = Inr s' \<Longrightarrow> s' \<in> fst b \<and> session_key s' = session_key cur \<and> set fs \<subseteq> set (snd b (s_ID cur))"
proof -
  from assms(5) obtain b n db fault clock where b: "extends a b" "rt_run db (fst b) (snd b) n"
    "pg_Update fault clock (s_Version cur) s audit db = (w_db w', r)"
    unfolding repo_Update_def by (elim db_callE [OF assms(1,2)]) auto
  define c where "c = (fst b \<union> (case r of Inl _ \<Rightarrow> {} | Inr s' \<Rightarrow> {s'}),
    if db_sessions (w_db w') = db_sessions db then snd b else (snd b)(s_ID cur := snd b (s_ID cur) @ fs))"
  have cur: "cur \<in> fst b" using extends_held [OF b(1) assms(3)] .
  have run: "rt_run (w_db w') (fst c) (snd c) (Suc n)"
    unfolding c_def fst_conv snd_conv by (rule rt_run.update [OF b(2) cur assms(4) b(3) HOL.refl])
  have "extends b c" by (auto simp: c_def extends_def)
  moreover have "s' \<in> fst c \<and> session_key s' = session_key cur \<and> set fs \<subseteq> set (snd c (s_ID cur))" if r: "r = Inr s'" for s'
    using b(3)
  proof (cases rule: pg_UpdateE)
    case (applied row)
    have "s_Version s = i64 (r_version row + 1)" using applied(2,3) by simp
    note u = applied_update [OF rt_run_wf [OF b(2)] applied(1) this applied(4,5)]
    have "scanSession (updated_row clock s row) \<noteq> scanSession row"
      using u(2) by (auto dest!: arg_cong [where f = s_Version])
    moreover have "store_get db (session_key s) = Some (scanSession row)"
      using applied(1) by (simp add: store_get_def session_key_def)
    ultimately have "store_get (w_db w') (session_key s) \<noteq> store_get db (session_key s)" using u(3) by simp
    then have "db_sessions (w_db w') \<noteq> db_sessions db" using store_get_sessions by metis
    moreover have "session_key s' = session_key cur"
      using applied(1,6) r step_fixed [OF assms(4)] rt_run_wf [OF b(2)] by (auto simp: session_key_def find_row_iff)
    ultimately show ?thesis using r by (simp add: c_def)
  qed (use r in simp)
  ultimately show thesis using that [of c] run extends_trans [OF b(1)] by (auto simp: running_def)
qed

lemma saveTransitionE:
  assumes "legal_env env" "running w a" "cur \<in> fst a" "session_step cur fs s"
    and "saveTransition env i cur s act m w = (w', r)"
  obtains b where "extends a b" "running w' b" "\<And>s'. r = Inr s' \<Longrightarrow> s' \<in> fst b \<and> session_key s' = session_key cur"
proof -
  obtain w1 r1 where n: "newAudit env i act m w = (w1, r1)" by (rule prod.exhaust)
  then have run: "running w1 a" using assms(2) newAudit_running by metis
  show thesis
  proof (cases r1)
    case (Inl e)
    then show thesis using that [of a] assms(5) n run by (auto simp: saveTransition_def)
  next
    case (Inr audit)
    obtain w2 r2 where u: "repo_Update env (s_Version cur) s (Some audit) w1 = (w2, r2)" by (rule prod.exhaust)
    then have "w' = w2" "\<And>s'. r = Inr s' \<Longrightarrow> r2 = Inr s'"
      using assms(5) n Inr by (auto simp: saveTransition_def split: sum.splits)
    then show thesis using repo_UpdateE [OF assms(1) run assms(3,4) u] that by metis
  qed
qed

definition legal_result ::
  "principal \<Rightarrow> Session set \<times> (string \<Rightarrow> (int \<times> int \<times> bytes) list) \<Rightarrow> 'z world_scheme \<times> (rt_error + Session) \<Rightarrow> bool" where
  "legal_result actor a x \<longleftrightarrow> (\<exists>b. extends a b \<and> running (fst x) b \<and>
     (\<forall>s. snd x = Inr s \<longrightarrow> s \<in> fst b \<and> s_WorkspaceID s = p_WorkspaceID actor))"

lemma legal_resultI:
  "extends a b \<Longrightarrow> running w b \<Longrightarrow> (\<And>s. r = Inr s \<Longrightarrow> s \<in> fst b \<and> s_WorkspaceID s = p_WorkspaceID actor) \<Longrightarrow>
    legal_result actor a (w, r)"
  unfolding legal_result_def fst_conv snd_conv by blast

text \<open>An operation that reads a session, applies a transition of the state machine and saves it.\<close>

lemma transition_legal:
  assumes "legal_env env" "running w a"
    and tk: "\<And>(w :: 'z world_scheme) a. running (fst (tk w)) a = running w a"
    and T: "\<And>cur x s. T cur x = Inr s \<Longrightarrow> session_step cur [] s"
  shows "legal_result actor a
     (case svc_Get env actor sid (w :: 'z world_scheme) of
        (w, Inl e) \<Rightarrow> (w, Inl e)
      | (w, Inr cur) \<Rightarrow>
      case tk w of (w, x) \<Rightarrow>
      case T cur x of
        Inl e \<Rightarrow> (w, Inl e)
      | Inr s \<Rightarrow> saveTransition env (p_UserID actor) cur s act (m s) w)"
proof -
  obtain w1 g where g: "svc_Get env actor sid w = (w1, g)" by (rule prod.exhaust)
  obtain b where b: "extends a b" "running w1 b"
    "\<And>s. g = Inr s \<Longrightarrow> s \<in> fst b \<and> s_ID s = sid \<and> s_WorkspaceID s = p_WorkspaceID actor \<and>
      store_get (w_db w1) (session_key s) = Some s"
    using svc_GetE [OF assms(1,2) g] by blast
  show ?thesis
  proof (cases g)
    case (Inl e)
    then show ?thesis using legal_resultI [OF b(1,2), of "Inl e"] g by simp
  next
    case (Inr cur)
    obtain w2 x where x: "tk w1 = (w2, x)" by (rule prod.exhaust)
    have w2: "running w2 b" using tk [of w1 b] b(2) x by simp
    show ?thesis
    proof (cases "T cur x")
      case (Inl e)
      then show ?thesis using legal_resultI [OF b(1) w2, of "Inl e"] g Inr x by simp
    next
      case (Inr s)
      obtain w' r where sv: "saveTransition env (p_UserID actor) cur s act (m s) w2 = (w', r)" by (rule prod.exhaust)
      have "cur \<in> fst b" using b(3) \<open>g = Inr cur\<close> by simp
      from saveTransitionE [OF assms(1) w2 this T [OF Inr] sv] obtain c where c: "extends b c" "running w' c"
        "\<And>s'. r = Inr s' \<Longrightarrow> s' \<in> fst c \<and> session_key s' = session_key cur" by blast
      have "legal_result actor a (w', r)"
        using legal_resultI [OF extends_trans [OF b(1) c(1)] c(2)] c(3) b(3) [OF \<open>g = Inr cur\<close>]
        by (auto simp: session_key_def)
      then show ?thesis using g \<open>g = Inr cur\<close> x Inr sv by simp
    qed
  qed
qed

lemma now_running: "running (fst (now_call env w)) a = running w a"
  by (simp add: now_call_def)

lemma accept_legal:
  assumes "legal_env env" "in_i64 (ae_CapturedAtMS ev)" "running w a" "accept_attempts env actor ev n w = (w', r)"
  shows "\<exists>b. extends a b \<and> running w' b \<and>
    (\<forall>s d. r = Inr (s, d) \<longrightarrow> s \<in> fst b \<and> s_WorkspaceID s = p_WorkspaceID actor \<and> s_ID s = ae_SessionID ev \<and>
      (d = FrameAccepted \<longrightarrow> (\<exists>pcm. PCM ev = Inr pcm \<and> (ae_Sequence ev, ae_CapturedAtMS ev, pcm) \<in> set (snd b (ae_SessionID ev)))) \<and>
      (d = FrameDuplicate \<longrightarrow> store_get (w_db w') (session_key s) = Some s \<and> 0 \<le> ae_Sequence ev \<and> ae_Sequence ev < s_NextSequence s))"
  using assms(3,4)
proof (induction n arbitrary: w a)
  case 0
  then have "w' = w" "r = Inl ErrVersionConflict" by simp_all
  then show ?case using 0(1) extends_refl by blast
next
  case (Suc n)
  obtain w1 g where g: "svc_Get env actor (ae_SessionID ev) w = (w1, g)" by (rule prod.exhaust)
  obtain b where b: "extends a b" "running w1 b"
    "\<And>s. g = Inr s \<Longrightarrow> s \<in> fst b \<and> s_ID s = ae_SessionID ev \<and> s_WorkspaceID s = p_WorkspaceID actor \<and>
      store_get (w_db w1) (session_key s) = Some s"
    using svc_GetE [OF assms(1) Suc.prems(1) g] by blast
  have err: ?case if "running w' b" "r = Inl e" for e
    using that b(1) by blast
  show ?case
  proof (cases g)
    case (Inl e)
    then show ?thesis using err b(2) g Suc.prems(2) by auto
  next
    case (Inr cur)
    obtain w2 now where n: "now_call env w1 = (w2, now)" by (rule prod.exhaust)
    have w2: "running w2 b" "w_db w2 = w_db w1" using now_running [of env w1 b] now_call_db [OF n] b(2) n by auto
    consider (bad) e where "ApplyAudio cur ev now = Inl e"
      | (dup) s' where "ApplyAudio cur ev now = Inr (s', FrameDuplicate)"
      | (acc) s' where "ApplyAudio cur ev now = Inr (s', FrameAccepted)"
      by (metis FrameDisposition.exhaust old.sum.exhaust prod.exhaust)
    then show ?thesis
    proof cases
      case (bad e)
      then have "w' = w2" "r = Inl e" using g Inr n Suc.prems(2) by auto
      then show ?thesis using err w2(1) by simp
    next
      case dup
      then have "w' = w2" "r = Inr (cur, FrameDuplicate)" using g Inr n Suc.prems(2) by auto
      moreover have "0 \<le> ae_Sequence ev" "ae_Sequence ev < s_NextSequence cur"
        using dup by (auto simp: ApplyAudio_def AudioEvent_validate_def split: if_splits sum.splits)
      ultimately show ?thesis using b w2 Inr by fastforce
    next
      case (acc s)
      obtain pcm where pcm: "PCM ev = Inr pcm" using acc by (elim ApplyAudio_acceptedE)
      have step: "session_step cur [(ae_Sequence ev, ae_CapturedAtMS ev, pcm)] s"
        by (rule session_step.audio [OF acc pcm assms(2)])
      obtain w3 u where u: "repo_Update env (s_Version cur) s None w2 = (w3, u)" by (rule prod.exhaust)
      have cur: "cur \<in> fst b" "s_ID cur = ae_SessionID ev" "s_WorkspaceID cur = p_WorkspaceID actor" using b(3) Inr by auto
      from repo_UpdateE [OF assms(1) w2(1) cur(1) step u] obtain c where c: "extends b c" "running w3 c"
        "\<And>s'. u = Inr s' \<Longrightarrow> s' \<in> fst c \<and> session_key s' = session_key cur \<and>
          set [(ae_Sequence ev, ae_CapturedAtMS ev, pcm)] \<subseteq> set (snd c (s_ID cur))" by blast
      note ac = extends_trans [OF b(1) c(1)]
      show ?thesis
      proof (cases u)
        case (Inr s')
        then have "w' = w3" "r = Inr (s', FrameAccepted)" using g \<open>g = Inr cur\<close> n acc u Suc.prems(2) by auto
        then show ?thesis using ac c(2) c(3) [OF Inr] cur pcm by (intro exI [of _ c]) (auto simp: session_key_def)
      next
        case (Inl e)
        show ?thesis
        proof (cases "e = ErrVersionConflict")
          case True
          then have "accept_attempts env actor ev n w3 = (w', r)"
            using g \<open>g = Inr cur\<close> n acc u Inl Suc.prems(2) by simp
          from Suc.IH [OF c(2) this] show ?thesis using extends_trans [OF ac] by blast
        next
          case False
          then have "w' = w3" "\<exists>e. r = Inl e" using g \<open>g = Inr cur\<close> n acc u Inl Suc.prems(2) by auto
          then show ?thesis using ac c(2) by blast
        qed
      qed
    qed
  qed
qed


lemma repo_CreateE:
  assumes "legal_env env" "running w a" "NewSession p = Inr s" "np_TTL p = 0" "repo_Create env s h audit w = (w', r)"
  obtains b where "extends a b" "running w' b"
    "\<And>s' replayed. r = Inr (s', replayed) \<Longrightarrow> s' \<in> fst b \<and> s_WorkspaceID s' = s_WorkspaceID s"
proof -
  obtain w1 r1 where l: "db_call env (\<lambda>fault _ db. (db, create_load fault s db)) w = (w1, r1)" by (rule prod.exhaust)
  from l obtain b n fault where b: "extends a b" "rt_run (w_db w1) (fst b) (snd b) n" "r1 = create_load fault s (w_db w1)"
    by (elim db_callE [OF assms(1,2)]) auto
  have rb: "running w1 b" using b(2) by (auto simp: running_def)
  consider (err) "w' = w1" "\<exists>e. r = Inl e"
    | (hit) s' h' where "w' = w1" "r1 = Inr (Some (s', h'))" "r = Inr (s', True)"
    | (miss) "db_call env (\<lambda>fault _ db. pg_Create_insert fault s h audit db) w1 = (w', r)"
    using assms(5) l by (auto simp: repo_Create_def split: sum.splits option.splits if_splits)
  then show thesis
  proof cases
    case err
    then show thesis using that [OF b(1)] rb by auto
  next
    case hit
    then have "loadIdempotentSession (w_db w1) (s_WorkspaceID s) (s_IdempotencyKey s) = Some (s', h')"
      using b(3) by (auto simp: create_load_def split: if_splits)
    then obtain row where row: "row \<in> set (db_sessions (w_db w1))" "s' = scanSession row" "r_workspace_id row = s_WorkspaceID s"
      by (elim load_SomeD) auto
    have "find_row (r_workspace_id row) (r_id row) (w_db w1) = Some row"
      using row(1) rt_run_wf [OF b(2)] by (simp add: find_row_iff)
    then have "pg_Get None (r_workspace_id row) (r_id row) (w_db w1) = Inr s'" using row(2) by (simp add: pg_Get_def)
    from rt_run.read [OF b(2) this] have "running w' (insert s' (fst b), snd b)" using hit(1) by (auto simp: running_def)
    moreover have "extends a (insert s' (fst b), snd b)" using b(1) by (auto simp: extends_def)
    ultimately show thesis using that [of "(insert s' (fst b), snd b)"] hit(3) row by auto
  next
    case miss
    from miss obtain c n' db fault' where c: "extends b c" "rt_run db (fst c) (snd c) n'"
      "pg_Create_insert fault' s h audit db = (w_db w', r)"
      by (elim db_callE [OF assms(1) rb]) auto
    let ?c = "(fst c \<union> (case r of Inl _ \<Rightarrow> {} | Inr (s', _) \<Rightarrow> {s'}), snd c)"
    have "running w' ?c" using rt_run.create [OF c(2) assms(3,4) c(3)] by (auto simp: running_def)
    moreover have "extends a ?c" using extends_trans [OF b(1) c(1)] by (auto simp: extends_def)
    moreover have "s_WorkspaceID s' = s_WorkspaceID s" if "r = Inr (s', x)" for s' x
      using c(3) by (cases rule: pg_Create_insertE) (use that in \<open>auto elim: load_SomeD\<close>)
    ultimately show thesis using that [of ?c] by auto
  qed
qed

lemma start_legal:
  assumes "legal_env env" "running w a" "svc_Start env actor ev w = (w', r)"
  shows "\<exists>b. extends a b \<and> running w' b \<and>
    (\<forall>s x. r = Inr (s, x) \<longrightarrow> s \<in> fst b \<and> s_WorkspaceID s = p_WorkspaceID actor)"
proof -
  consider (err) "running w' a" "\<exists>e. r = Inl e"
    | (create) p s audit w1 r1 where "running w1 a" "NewSession p = Inr s" "np_TTL p = 0" "s_WorkspaceID s = p_WorkspaceID actor"
        "repo_Create env s (startRequestHash ev) audit w1 = (w', r1)" "\<And>x. r = Inr x \<Longrightarrow> r1 = Inr x"
  proof (cases "Can actor ScopeTranscriptionsWrite")
    case False
    then show thesis using err assms(2,3) by (auto simp: svc_Start_def)
  next
    case True
    obtain w1 u where u: "uuid_call env w = (w1, u)" by (rule prod.exhaust)
    then have w1: "running w1 a" using assms(2) by (auto simp: uuid_call_def)
    obtain m where m: "m = [(''channels'', Some (jint (se_Channels ev))),
              (''client_session_id'', Some (JStr (se_ClientSessionID ev))),
              (''encoding'', Some (JStr (se_Encoding ev))), (''language'', Some (JStr (se_Language ev))),
              (''sample_rate_hz'', Some (jint (se_SampleRateHz ev)))]" by simp
    obtain w2 au where au: "newAudit env (p_UserID actor) AuditSessionStarted m w1 = (w2, au)" by (rule prod.exhaust)
    obtain w3 now where n: "now_call env w2 = (w3, now)" by (rule prod.exhaust)
    have w2: "running w2 a" "running w3 a" using w1 newAudit_running [OF au] now_running [of env w2 a] n by auto
    note run = assms(3) [unfolded svc_Start_def, folded m]
    show thesis
    proof (cases u)
      case (Inl e)
      then show thesis using err w1 run u True by auto
    next
      case uu: (Inr sid)
      show thesis
      proof (cases au)
        case (Inl e)
        then show thesis using err w2 run u uu au True by auto
      next
        case aa: (Inr audit)
        define p where "p = \<lparr>np_ID = sid, np_WorkspaceID = p_WorkspaceID actor, np_CreatedBy = p_UserID actor,
                       np_Start = ev, np_Now = now, np_TTL = 0\<rparr>"
        show thesis
        proof (cases "NewSession p")
          case (Inl e)
          then show thesis using err w2 run u uu au aa n True by (auto simp: p_def)
        next
          case (Inr s)
          obtain w4 r1 where c: "repo_Create env s (startRequestHash ev) audit w3 = (w4, r1)" by (rule prod.exhaust)
          have "s_WorkspaceID s = p_WorkspaceID actor" "np_TTL p = 0"
            using Inr by (auto simp: p_def NewSession_def Let_def split: if_splits)
          moreover have "w' = w4" "\<And>x. r = Inr x \<Longrightarrow> r1 = Inr x"
            using run u uu au aa n True Inr c by (auto simp: p_def split: sum.splits)
          ultimately show thesis using create w2(2) Inr c by blast
        qed
      qed
    qed
  qed
  then show ?thesis
  proof cases
    case err
    then show ?thesis using extends_refl by blast
  next
    case create
    from repo_CreateE [OF assms(1) create(1-3) create(5)] show ?thesis using create(4,6) by (metis)
  qed
qed

lemma handle_legal:
  assumes "legal_env env" "request_ok req" "running w a"
  shows "legal_result actor a (svc_handle env actor req w)"
proof (cases req)
  case (ReqStart ev)
  obtain w' r where r: "svc_Start env actor ev w = (w', r)" by (rule prod.exhaust)
  from start_legal [OF assms(1,3) this] obtain b where "extends a b" "running w' b"
    "\<forall>s x. r = Inr (s, x) \<longrightarrow> s \<in> fst b \<and> s_WorkspaceID s = p_WorkspaceID actor" by blast
  then show ?thesis
    using r ReqStart by (cases r) (auto intro!: legal_resultI)
next
  case (ReqGet sid)
  obtain w' r where r: "svc_Get env actor sid w = (w', r)" by (rule prod.exhaust)
  from svc_GetE [OF assms(1,3) this] show ?thesis using r ReqGet legal_resultI by (metis svc_handle.simps(2))
next
  case (ReqAudio ev)
  obtain w' r where r: "accept_attempts env actor ev 3 w = (w', r)" by (rule prod.exhaust)
  have "in_i64 (ae_CapturedAtMS ev)" using assms(2) ReqAudio by simp
  from accept_legal [OF assms(1) this assms(3) r] obtain b where "extends a b" "running w' b"
    "\<forall>s d. r = Inr (s, d) \<longrightarrow> s \<in> fst b \<and> s_WorkspaceID s = p_WorkspaceID actor" by blast
  then show ?thesis using r ReqAudio by (cases r) (auto simp: svc_AcceptAudio_def intro!: legal_resultI)
next
  case (ReqInterrupt sid)
  then show ?thesis
    using transition_legal [OF assms(1,3) now_running, where T = "\<lambda>cur now. Interrupt cur now DefaultReconnectWindow"]
    by (simp add: svc_Interrupt_def session_step.interrupt)
next
  case (ReqResume ev)
  then show ?thesis
    using transition_legal [OF assms(1,3) now_running, where T = "\<lambda>cur now. Resume cur ev now"]
    by (simp add: svc_Resume_def session_step.resume)
next
  case (ReqFinalize ev)
  then show ?thesis
    using transition_legal [OF assms(1,3) now_running, where T = "\<lambda>cur now. BeginFinalization cur ev now"] assms(2)
    by (simp add: svc_BeginFinalization_def session_step.finalize)
next
  case (ReqComplete sid res)
  then show ?thesis
    using transition_legal [OF assms(1,3) now_running, where T = "\<lambda>cur now. Complete cur res now"]
    by (simp add: svc_Complete_def session_step.complete)
next
  case (ReqFail sid code)
  then show ?thesis
    using transition_legal [OF assms(1,3), where tk = "\<lambda>w. (w, ())" and T = "\<lambda>cur _. Fail cur code"]
    by (simp add: svc_Fail_def session_step.fail)
qed

text \<open>Rows of other workspaces.\<close>

definition foreign_rows :: "string \<Rightarrow> rt_db \<Rightarrow> session_row list" where
  "foreign_rows w db = filter (\<lambda>row. r_workspace_id row \<noteq> w) (db_sessions db)"

lemma filter_map_same:
  "(\<And>x. x \<in> set xs \<Longrightarrow> f x \<noteq> x \<Longrightarrow> \<not> P x \<and> \<not> P (f x)) \<Longrightarrow> filter P (map f xs) = filter P xs"
proof (induction xs)
  case (Cons x xs)
  then have "filter P (map f xs) = filter P xs" by simp
  then show ?case using Cons.prems [of x] by (cases "f x = x") simp_all
qed simp

lemma update_foreign:
  assumes "wf_db db" "s_WorkspaceID s = ws" "pg_Update fault clock e s audit db = (db', r)"
  shows "wf_db db' \<and> foreign_rows ws db' = foreign_rows ws db"
proof -
  have "store_update e s db db' r" using assms(3) by (auto simp: store_update_def)
  then have wf: "wf_db db'" by (rule pg.update_wf [OF assms(1)])
  from assms(3) show ?thesis
  proof (cases rule: pg_UpdateE)
    case (applied row)
    have row: "row \<in> set (db_sessions db)" "r_workspace_id row = ws" using applied(1) assms(1,2) by (auto simp: find_row_iff)
    have "r_id x = r_id row \<longleftrightarrow> x = row" if "x \<in> set (db_sessions db)" for x
      using assms(1) row(1) that unfolding wf_db_def distinct_map inj_on_def by metis
    then have "foreign_rows ws db' = foreign_rows ws db"
      unfolding foreign_rows_def applied(5) replace_row_def using row(2) by (simp, intro filter_map_same) auto
    then show ?thesis using wf by simp
  qed (use wf in simp)
qed


definition still :: "env \<Rightarrow> bool" where
  "still env \<longleftrightarrow> (\<forall>t db. env_other env t db = db)"

definition confined :: "string \<Rightarrow> 'z world_scheme \<Rightarrow> 'z world_scheme \<times> 'a \<Rightarrow> bool" where
  "confined ws w x \<longleftrightarrow> (wf_db (w_db w) \<longrightarrow>
     wf_db (w_db (fst x)) \<and> foreign_rows ws (w_db (fst x)) = foreign_rows ws (w_db w))"

lemma confined_same: "w_db (fst x) = w_db w \<Longrightarrow> confined ws w x"
  by (simp add: confined_def)

lemma svc_Get_still:
  assumes "still env" "svc_Get env actor sid w = (w', r)"
  shows "w_db w' = w_db w" "r = Inr s \<Longrightarrow> s_WorkspaceID s = p_WorkspaceID actor"
proof -
  have "w_db w' = w_db w \<and> (\<forall>s. r = Inr s \<longrightarrow> s_WorkspaceID s = p_WorkspaceID actor)"
    using assms
    by (auto simp: svc_Get_def repo_Get_def db_call_def Let_def still_def pg_Get_def find_row_def find_Some_iff
        split: if_splits sum.splits option.splits)
  then show "w_db w' = w_db w" "r = Inr s \<Longrightarrow> s_WorkspaceID s = p_WorkspaceID actor" by auto
qed

lemma repo_Update_confined:
  assumes "still env" "s_WorkspaceID s = ws"
  shows "confined ws w (repo_Update env e s audit w)"
proof -
  obtain db r where "pg_Update (env_fault env (w_tick w)) (env_clock env (w_tick w)) e s audit (w_db w) = (db, r)"
    by (rule prod.exhaust)
  with update_foreign [OF _ assms(2) this] assms(1) show ?thesis
    by (simp add: confined_def repo_Update_def db_call_def Let_def still_def)
qed

lemma newAudit_db: "newAudit env i act m w = (w', r) \<Longrightarrow> w_db w' = w_db w"
  by (auto simp: newAudit_def uuid_call_def split: sum.splits option.splits)

lemma saveTransition_confined:
  assumes "still env" "s_WorkspaceID s = ws"
  shows "confined ws w (saveTransition env i cur s act m w)"
proof -
  obtain w1 r1 where n: "newAudit env i act m w = (w1, r1)" by (rule prod.exhaust)
  note db = newAudit_db [OF n]
  show ?thesis
  proof (cases r1)
    case (Inr audit)
    then show ?thesis
      using n db repo_Update_confined [OF assms, of w1 "s_Version cur" "Some audit"]
      by (auto simp: saveTransition_def confined_def split: prod.split sum.split)
  qed (use n db in \<open>simp add: saveTransition_def confined_def\<close>)
qed

lemma transition_confined:
  assumes "still env" and tk: "\<And>w :: 'z world_scheme. w_db (fst (tk w)) = w_db w"
    and T: "\<And>cur x s. T cur x = Inr s \<Longrightarrow> s_WorkspaceID s = s_WorkspaceID cur"
  shows "confined (p_WorkspaceID actor) w
     (case svc_Get env actor sid (w :: 'z world_scheme) of
        (w, Inl e) \<Rightarrow> (w, Inl e)
      | (w, Inr cur) \<Rightarrow>
      case tk w of (w, x) \<Rightarrow>
      case T cur x of
        Inl e \<Rightarrow> (w, Inl e)
      | Inr s \<Rightarrow> saveTransition env (p_UserID actor) cur s act (m s) w)"
proof -
  obtain w1 g where g: "svc_Get env actor sid w = (w1, g)" by (rule prod.exhaust)
  note get = svc_Get_still [OF assms(1) g]
  show ?thesis
  proof (cases g)
    case (Inr cur)
    obtain w2 x where x: "tk w1 = (w2, x)" by (rule prod.exhaust)
    have w2: "w_db w2 = w_db w" using tk [of w1] x get(1) by simp
    show ?thesis
    proof (cases "T cur x")
      case s: (Inr s)
      have "s_WorkspaceID s = p_WorkspaceID actor" using T [OF s] get(2) [OF Inr] by simp
      from saveTransition_confined [OF assms(1) this, of w2 "p_UserID actor" cur act "m s"]
      show ?thesis using g Inr x s w2 by (simp add: confined_def)
    qed (use g Inr x w2 in \<open>simp add: confined_def\<close>)
  qed (use g get in \<open>simp add: confined_def\<close>)
qed

lemma now_db: "w_db (fst (now_call env w)) = w_db w"
  by (simp add: now_call_def)

lemma accept_confined:
  assumes "still env"
  shows "confined (p_WorkspaceID actor) w (accept_attempts env actor ev n w)"
proof (induction n arbitrary: w)
  case (Suc n)
  obtain w1 g where g: "svc_Get env actor (ae_SessionID ev) w = (w1, g)" by (rule prod.exhaust)
  note get = svc_Get_still [OF assms(1) g]
  show ?case
  proof (cases g)
    case (Inr cur)
    obtain w2 now where n: "now_call env w1 = (w2, now)" by (rule prod.exhaust)
    have w2: "w_db w2 = w_db w" using now_db [of env w1] n get(1) by simp
    show ?thesis
    proof (cases "\<exists>s. ApplyAudio cur ev now = Inr (s, FrameAccepted)")
      case True
      then obtain s where s: "ApplyAudio cur ev now = Inr (s, FrameAccepted)" by blast
      then have "s_WorkspaceID s = p_WorkspaceID actor" using get(2) [OF Inr] by (elim ApplyAudio_acceptedE) simp
      from repo_Update_confined [OF assms this, of w2 "s_Version cur" None]
      obtain w3 u where u: "repo_Update env (s_Version cur) s None w2 = (w3, u)"
        and c: "confined (p_WorkspaceID actor) w2 (w3, u)" by (metis prod.exhaust)
      show ?thesis
        using g Inr n s u c w2 Suc.IH [of w3] by (cases u) (auto simp: confined_def)
    next
      case False
      then have "w_db (fst (accept_attempts env actor ev (Suc n) w)) = w_db w"
        using g Inr n w2 by (auto split: sum.split prod.split FrameDisposition.split)
      then show ?thesis by (rule confined_same)
    qed
  qed (use g get in \<open>simp add: confined_def\<close>)
qed (simp add: confined_def)

lemma create_insert_confined:
  assumes "wf_db db" "s_WorkspaceID s = ws" "pg_Create_insert fault s h audit db = (db', r)"
  shows "wf_db db' \<and> foreign_rows ws db' = foreign_rows ws db"
  using assms(3)
  by (cases rule: pg_Create_insertE)
    (use assms(1,2) inserted_row(1) [OF assms(1)] in \<open>auto simp: foreign_rows_def\<close>)

lemma repo_Create_confined:
  assumes "still env" "s_WorkspaceID s = ws"
  shows "confined ws w (repo_Create env s h audit w)"
proof -
  define w1 where "w1 = w\<lparr>w_tick := Suc (w_tick w)\<rparr>"
  have l: "db_call env (\<lambda>fault _ db. (db, create_load fault s db)) w =
      (w1, create_load (env_fault env (w_tick w)) s (w_db w))"
    using assms(1) by (simp add: db_call_def Let_def still_def w1_def)
  obtain db r where "pg_Create_insert (env_fault env (w_tick w1)) s h audit (w_db w1) = (db, r)" by (rule prod.exhaust)
  with create_insert_confined [OF _ assms(2) this] assms(1)
  have "confined ws w1 (db_call env (\<lambda>fault _ db. pg_Create_insert fault s h audit db) w1)"
    by (simp add: confined_def db_call_def Let_def still_def)
  moreover have "w_db w1 = w_db w" by (simp add: w1_def)
  ultimately show ?thesis
    using l by (auto simp: repo_Create_def confined_def split: sum.split option.split prod.split)
qed

lemma start_confined:
  assumes "still env"
  shows "confined (p_WorkspaceID actor) w (svc_Start env actor ev w)"
proof -
  have new: "s_WorkspaceID s = np_WorkspaceID p" if "NewSession p = Inr s" for p s
    using that by (auto simp: NewSession_def Let_def split: if_splits)
  have c: "wf_db (w_db w'') \<and> foreign_rows (p_WorkspaceID actor) (w_db w'') = foreign_rows (p_WorkspaceID actor) (w_db w')"
    if "repo_Create env s h audit w' = (w'', r)" "NewSession \<lparr>np_ID = i, np_WorkspaceID = p_WorkspaceID actor,
        np_CreatedBy = u, np_Start = ev, np_Now = t, np_TTL = 0\<rparr> = Inr s" "wf_db (w_db w')"
    for i u t s h audit r and w' w'' :: "'a world_scheme"
    using repo_Create_confined [OF assms(1), of s "p_WorkspaceID actor" w' h audit] new [OF that(2)] that(1,3)
    by (simp add: confined_def)
  have uuid: "w_db w' = w_db w0" if "uuid_call env w0 = (w', x)" for w0 w' :: "'a world_scheme" and x
    using that by (auto simp: uuid_call_def)
  have now: "w_db w' = w_db w0" if "now_call env w0 = (w', x)" for w0 w' :: "'a world_scheme" and x
    using that by (auto simp: now_call_def)
  show ?thesis
    unfolding svc_Start_def
    by (auto simp: confined_def dest!: uuid newAudit_db now split: prod.splits sum.splits) (metis c)+
qed

lemma handle_confined:
  assumes "still env"
  shows "confined (p_WorkspaceID actor) w (svc_handle env actor req w)"
proof (cases req)
  case (ReqStart ev)
  then show ?thesis using start_confined [OF assms, of actor w ev] by (simp add: confined_def)
next
  case (ReqGet sid)
  obtain w' r where "svc_Get env actor sid w = (w', r)" by (rule prod.exhaust)
  with svc_Get_still(1) [OF assms this] show ?thesis using ReqGet by (simp add: confined_def)
next
  case (ReqAudio ev)
  then show ?thesis using accept_confined [OF assms, of actor w ev 3] by (simp add: confined_def svc_AcceptAudio_def)
next
  case (ReqInterrupt sid)
  then show ?thesis
    using transition_confined [OF assms now_db, where T = "\<lambda>cur now. Interrupt cur now DefaultReconnectWindow"]
    by (simp add: svc_Interrupt_def step_fixed(2) [OF session_step.interrupt])
next
  case (ReqResume ev)
  then show ?thesis
    using transition_confined [OF assms now_db, where T = "\<lambda>cur now. Resume cur ev now"]
    by (simp add: svc_Resume_def step_fixed(2) [OF session_step.resume])
next
  case (ReqFinalize ev)
  have "\<And>cur x s. BeginFinalization cur ev x = Inr s \<Longrightarrow> s_WorkspaceID s = s_WorkspaceID cur"
    by (auto elim: BeginFinalizationE)
  then show ?thesis
    using transition_confined [OF assms now_db, where T = "\<lambda>cur now. BeginFinalization cur ev now"] ReqFinalize
    by (simp add: svc_BeginFinalization_def)
next
  case (ReqComplete sid res)
  then show ?thesis
    using transition_confined [OF assms now_db, where T = "\<lambda>cur now. Complete cur res now"]
    by (simp add: svc_Complete_def step_fixed(2) [OF session_step.complete])
next
  case (ReqFail sid code)
  then show ?thesis
    using transition_confined [OF assms, where tk = "\<lambda>w. (w, ())" and T = "\<lambda>cur _. Fail cur code"]
    by (simp add: svc_Fail_def step_fixed(2) [OF session_step.fail])
qed


subsection \<open>A sample environment\<close>

definition sample_env :: env where
  "sample_env = \<lparr>env_clock = (\<lambda>t. 2 * hour), env_random = (\<lambda>t. None), env_fault = (\<lambda>t. None), env_other = (\<lambda>t db. db)\<rparr>"

definition sample_principal :: principal where
  "sample_principal = \<lparr>p_UserID = sample_uuid, p_WorkspaceID = sample_uuid, p_Role = ''owner'', p_Email = ''o@example.com'',
     p_Scopes = [ScopeTranscriptionsWrite], p_CredentialType = ''session'', p_CredentialID = sample_uuid\<rparr>"

definition sample_world :: world where
  "sample_world = \<lparr>w_tick = 0, w_db = sample_db1\<rparr>"

lemma sample_env_still: "still sample_env"
  by (simp add: still_def sample_env_def)

lemma still_legal: "still env \<Longrightarrow> legal_env env"
  using extends_refl by (fastforce simp: still_def legal_env_def)

lemma sample_can: "Can sample_principal ScopeTranscriptionsWrite"
  by (simp add: Can_def sample_principal_def)

lemma accept_first:
  assumes "still env" "env_fault env = (\<lambda>_. None)" "rt_run (w_db w) held log n" "n < 2 ^ 46"
    and "Can actor ScopeTranscriptionsWrite" "canonicalUUID (ae_SessionID ev)" "in_i64 (ae_CapturedAtMS ev)"
    and "store_get (w_db w) (p_WorkspaceID actor, ae_SessionID ev) = Some cur" "length (s_Language cur) \<le> 35"
    and "ApplyAudio cur ev (env_clock env (Suc (w_tick w))) = Inr (s, FrameAccepted)"
  shows "\<exists>w'. svc_AcceptAudio env actor ev w =
      (w', Inr (stored (env_clock env (Suc (Suc (w_tick w)))) s, FrameAccepted)) \<and>
    store_get (w_db w') = (store_get (w_db w))(session_key cur \<mapsto> stored (env_clock env (Suc (Suc (w_tick w)))) s)"
proof -
  let ?clock = "env_clock env (Suc (Suc (w_tick w)))"
  have inv: "wf_db (w_db w)" "rows_inv (w_db w) log n" using rt_run_inv [OF assms(3)] assms(4) by auto
  obtain row where row: "find_row (p_WorkspaceID actor) (ae_SessionID ev) (w_db w) = Some row" "cur = scanSession row"
    using assms(8) by (auto simp: store_get_def)
  have mem: "row \<in> set (db_sessions (w_db w))" using row(1) inv(1) by (simp add: find_row_iff)
  obtain pcm where pcm: "PCM ev = Inr pcm" using assms(10) by (elim ApplyAudio_acceptedE)
  have step: "session_step (scanSession row) [(ae_Sequence ev, ae_CapturedAtMS ev, pcm)] s"
    using session_step.audio [OF assms(10) pcm assms(7)] row(2) by simp
  have "storable s"
  proof -
    obtain k where "state_ok cur" using inv(2) mem row(2) by (auto simp: rows_inv_def session_inv_def)
    moreover have "s_State cur = StateStreaming" "s_Language s = s_Language cur"
      "s_FinalLanguage s = s_FinalLanguage cur" "s_FinalTranscript s = s_FinalTranscript cur"
      using assms(10) by (elim ApplyAudio_acceptedE; simp)+
    ultimately show ?thesis using assms(9) by (simp add: storable_def state_ok_def runes_def)
  qed
  from current_update [OF inv assms(4) mem step this, where audit = None and clock = ?clock]
  obtain db' where u: "pg_Update None ?clock (r_version row) s None (w_db w) = (db', Inr (stored ?clock s))"
    and db': "\<And>k. store_get db' k = (if k = session_key s then Some (stored ?clock s) else store_get (w_db w) k)"
    by (auto simp: audit_accepted_def)
  have g: "svc_Get env actor (ae_SessionID ev) w = (w\<lparr>w_tick := Suc (w_tick w)\<rparr>, Inr cur)"
    using assms(1,2,5,6) row by (simp add: svc_Get_def repo_Get_def db_call_def Let_def still_def pg_Get_def)
  have v: "s_Version cur = r_version row" using row(2) by simp
  have "session_key s = session_key cur" using step_fixed [OF step] row(2) by (simp add: session_key_def)
  then have "store_get db' = (store_get (w_db w))(session_key cur \<mapsto> stored ?clock s)" using db' by (auto simp: fun_eq_iff)
  moreover have "svc_AcceptAudio env actor ev w =
      (w\<lparr>w_tick := Suc (Suc (Suc (w_tick w))), w_db := db'\<rparr>, Inr (stored ?clock s, FrameAccepted))"
    unfolding svc_AcceptAudio_def eval_nat_numeral
    using g assms(1,2,10) u v by (simp add: now_call_def repo_Update_def db_call_def Let_def still_def)
  ultimately show ?thesis by force
qed

lemma sample_stored: "store_get sample_db1 (sample_uuid, sample_uuid) = Some sample_session"
  using sample_row_scan by (simp add: store_get_def find_row_def sample_create(2)) (simp add: sample_session_def)

lemma sample_accept:
  "\<exists>w'. svc_AcceptAudio sample_env sample_principal sample_frame sample_world =
      (w', Inr (stored (2 * hour) sample_streamed, FrameAccepted))"
proof -
  have run: "rt_run (w_db sample_world) {sample_session} (\<lambda>_. []) 0" by (simp add: sample_world_def sample_rt_run)
  have "ApplyAudio sample_session sample_frame (env_clock sample_env (Suc (w_tick sample_world))) = Inr (sample_streamed, FrameAccepted)"
    using sample_accepted by (simp add: sample_env_def)
  from accept_first [OF sample_env_still _ run _ sample_can _ _ _ _ this] show ?thesis
    using sample_stored sample_uuid_canonical
    by (simp add: sample_world_def sample_env_def sample_principal_def sample_frame_def in_i64_def min_i64_def max_i64_def
        sample_session_def) auto
qed

subsection \<open>The guarantees of the service\<close>

lemma run_of: "rt_run (w_db w) held log n \<Longrightarrow> running w (held, log)"
  by (auto simp: running_def)

text \<open>
  C24: every operation of the service is a legal client of the store.  Whatever other connections
  do and whatever fails in between, after the operation the database is again in a state of the
  interleaving semantics, no stored frame has disappeared, and a session that is returned was
  stored and belongs to the caller's workspace.
\<close>

theorem service_operations_legal:
  assumes "legal_env env" "request_ok req" "rt_run (w_db w) held log n"
    and "svc_handle env actor req w = (w', r)"
  shows "\<exists>held' log' n'. rt_run (w_db w') held' log' n' \<and> held \<subseteq> held' \<and> (\<forall>i. prefix (log i) (log' i)) \<and>
    (\<forall>s. r = Inr s \<longrightarrow> s \<in> held' \<and> s_WorkspaceID s = p_WorkspaceID actor)"
proof -
  from handle_legal [OF assms(1,2) run_of [OF assms(3)], of actor] assms(4)
  obtain b where "extends (held, log) b" "running w' b"
    "\<forall>s. r = Inr s \<longrightarrow> s \<in> fst b \<and> s_WorkspaceID s = p_WorkspaceID actor"
    by (auto simp: legal_result_def)
  then show ?thesis unfolding extends_def running_def fst_conv snd_conv by blast
qed

theorem service_operations_legal_witness:
  "\<exists>held' log' n'. rt_run (w_db (fst (svc_handle sample_env sample_principal (ReqGet sample_uuid) sample_world))) held' log' n'"
proof -
  obtain w' r where h: "svc_handle sample_env sample_principal (ReqGet sample_uuid) sample_world = (w', r)"
    by (rule prod.exhaust)
  have "rt_run (w_db sample_world) {sample_session} (\<lambda>_. []) 0" by (simp add: sample_world_def sample_rt_run)
  from service_operations_legal [OF still_legal [OF sample_env_still] _ this h] show ?thesis using h by auto
qed



text \<open>
  A frame that fits is stored.  With no concurrent update and the database up, \<^verbatim>\<open>AcceptAudio\<close> for a
  frame that the state machine accepts on the stored session returns the updated session at the
  first attempt, and that session is what is stored.
\<close>

theorem AcceptAudio_stores:
  assumes "still env" "env_fault env = (\<lambda>_. None)" "rt_run (w_db w) held log n" "n < 2 ^ 46"
    and "Can actor ScopeTranscriptionsWrite" "canonicalUUID (ae_SessionID ev)" "in_i64 (ae_CapturedAtMS ev)"
    and "store_get (w_db w) (p_WorkspaceID actor, ae_SessionID ev) = Some cur" "length (s_Language cur) \<le> 35"
    and "ApplyAudio cur ev (env_clock env (Suc (w_tick w))) = Inr (s, FrameAccepted)"
  shows "\<exists>w'. svc_AcceptAudio env actor ev w =
      (w', Inr (stored (env_clock env (Suc (Suc (w_tick w)))) s, FrameAccepted)) \<and>
    store_get (w_db w') = (store_get (w_db w))(session_key cur \<mapsto> stored (env_clock env (Suc (Suc (w_tick w)))) s)"
  by (rule accept_first [OF assms])

theorem AcceptAudio_stores_witness:
  "\<exists>w'. svc_AcceptAudio sample_env sample_principal sample_frame sample_world =
      (w', Inr (stored (2 * hour) sample_streamed, FrameAccepted))"
proof -
  have run: "rt_run (w_db sample_world) {sample_session} (\<lambda>_. []) 0" by (simp add: sample_world_def sample_rt_run)
  have "ApplyAudio sample_session sample_frame (env_clock sample_env (Suc (w_tick sample_world))) = Inr (sample_streamed, FrameAccepted)"
    using sample_accepted by (simp add: sample_env_def)
  from AcceptAudio_stores [OF sample_env_still _ run _ sample_can _ _ _ _ this] show ?thesis
    using sample_stored sample_uuid_canonical
    by (simp add: sample_world_def sample_env_def sample_principal_def sample_frame_def in_i64_def min_i64_def max_i64_def
        sample_session_def) auto
qed

text \<open>
  C26: workspaces are isolated.  Without the scope \<^verbatim>\<open>transcriptions:write\<close> every operation is refused
  and has no effect; with it, an operation leaves the sessions of every other workspace untouched.
\<close>

theorem workspace_isolation:
  assumes "still env" "wf_db (w_db w)"
  shows "(\<not> Can actor ScopeTranscriptionsWrite \<longrightarrow> svc_handle env actor req w = (w, Inl ErrForbidden)) \<and>
    foreign_rows (p_WorkspaceID actor) (w_db (fst (svc_handle env actor req w))) =
      foreign_rows (p_WorkspaceID actor) (w_db w)"
proof
  show "\<not> Can actor ScopeTranscriptionsWrite \<longrightarrow> svc_handle env actor req w = (w, Inl ErrForbidden)"
    by (cases req) (simp_all add: svc_Start_def svc_Get_def svc_AcceptAudio_def svc_Interrupt_def svc_Resume_def
        svc_BeginFinalization_def svc_Complete_def svc_Fail_def eval_nat_numeral)
  show "foreign_rows (p_WorkspaceID actor) (w_db (fst (svc_handle env actor req w))) =
      foreign_rows (p_WorkspaceID actor) (w_db w)"
    using handle_confined [OF assms(1), of actor w req] assms(2) by (simp add: confined_def)
qed

theorem workspace_isolation_witness:
  "foreign_rows ''w2'' (w_db (fst (svc_handle sample_env (sample_principal\<lparr>p_WorkspaceID := ''w2''\<rparr>) (ReqFail sample_uuid ''internal_error'') sample_world)))
    = db_sessions sample_db1"
proof -
  have "wf_db (w_db sample_world)" using rt_run_wf [OF sample_rt_run] by (simp add: sample_world_def)
  from workspace_isolation [OF sample_env_still this, of "sample_principal\<lparr>p_WorkspaceID := ''w2''\<rparr>" "ReqFail sample_uuid ''internal_error''"]
  have "foreign_rows ''w2'' (w_db (fst (svc_handle sample_env (sample_principal\<lparr>p_WorkspaceID := ''w2''\<rparr>) (ReqFail sample_uuid ''internal_error'') sample_world)))
    = foreign_rows ''w2'' sample_db1" by (simp add: sample_world_def)
  also have "\<dots> = db_sessions sample_db1"
    by (simp add: foreign_rows_def sample_create(2)) (simp add: sample_session_def sample_uuid_def)
  finally show ?thesis .
qed

end
