(* ===== verification/Rt_Controller.thy ===== *)
theory Rt_Controller
  imports Rt_Service
begin

text \<open>
  \<^verbatim>\<open>internal/realtime/controller.go\<close>: one connection from its first message to its end.  The world of
  the service is extended by the stream hub, which other goroutines change between our calls, and by
  the events written to the peer.  The messages the peer sends are a list; at its end a read fails,
  be it for a closed connection, a missed heartbeat or a cancelled context.  A write fails when the
  environment says so.
\<close>

record 'p ctl_env =
  ce_env :: env
  ce_provider :: "'p provider"
  ce_hub_other :: "nat \<Rightarrow> 'p StreamHub \<Rightarrow> 'p StreamHub"
  ce_ctx_err :: "nat \<Rightarrow> bool"
  ce_write_ok :: "nat \<Rightarrow> bool"
  ce_heartbeat :: duration

record 'p ctl_world = world +
  c_hub :: "'p StreamHub"
  c_sent :: "ServerEvent list"

definition DefaultHeartbeatInterval :: duration where "DefaultHeartbeatInterval = 15 * second"

definition ctl_now :: "'p ctl_env \<Rightarrow> 'p ctl_world \<Rightarrow> 'p ctl_world \<times> go_time" where
  "ctl_now ce w = now_call (ce_env ce) w"

definition hub_call ::
  "'p ctl_env \<Rightarrow> ('p StreamHub \<Rightarrow> bool \<Rightarrow> go_time \<Rightarrow> 'p StreamHub \<times> 'a) \<Rightarrow> 'p ctl_world \<Rightarrow> 'p ctl_world \<times> 'a" where
  "hub_call ce f w =
     (let t = w_tick w; (hub, r) = f (ce_hub_other ce t (c_hub w)) (ce_ctx_err ce t) (env_clock (ce_env ce) t)
      in (w\<lparr>w_tick := Suc t, c_hub := hub\<rparr>, r))"

text \<open>Both critical sections of \<^verbatim>\<open>StreamHub.Start\<close>, with the provider opened in between.\<close>

definition ctl_hub_Start :: "'p ctl_env \<Rightarrow> Session \<Rightarrow> go_time \<Rightarrow> 'p ctl_world \<Rightarrow> 'p ctl_world \<times> (rt_error + StreamLease)" where
  "ctl_hub_Start ce session now w =
     (case hub_call ce (\<lambda>hub _ _. (hub, hub_Start_check hub session now)) w of
        (w, Some e) \<Rightarrow> (w, Inl e)
      | (w, None) \<Rightarrow>
      case po_Open (ce_provider ce) session of
        Inl e \<Rightarrow> (w, Inl e)
      | Inr None \<Rightarrow> (w, Inl ErrStreamUnavailable)
      | Inr (Some stream) \<Rightarrow> hub_call ce (\<lambda>hub _ _. hub_Start_insert hub session stream) w)"

definition ctl_hub_Resume :: "'p ctl_env \<Rightarrow> Session \<Rightarrow> go_time \<Rightarrow> 'p ctl_world \<Rightarrow> 'p ctl_world \<times> (rt_error + StreamLease)" where
  "ctl_hub_Resume ce session now = hub_call ce (\<lambda>hub _ _. hub_Resume hub session now)"

definition ctl_Push ::
  "'p ctl_env \<Rightarrow> StreamLease \<Rightarrow> ProviderFrame \<Rightarrow> 'p ctl_world \<Rightarrow> 'p ctl_world \<times> (rt_error + TranscriptUpdate option)" where
  "ctl_Push ce lease frame = hub_call ce (\<lambda>hub ctxErr now. lease_Push (ce_provider ce) hub lease ctxErr now frame)"

definition ctl_Detach :: "'p ctl_env \<Rightarrow> StreamLease \<Rightarrow> go_time \<Rightarrow> 'p ctl_world \<Rightarrow> 'p ctl_world \<times> rt_error option" where
  "ctl_Detach ce lease reconnectBy = hub_call ce (\<lambda>hub _ _. lease_Detach hub lease reconnectBy)"

definition ctl_Finish :: "'p ctl_env \<Rightarrow> StreamLease \<Rightarrow> 'p ctl_world \<Rightarrow> 'p ctl_world \<times> (rt_error + ProviderResult)" where
  "ctl_Finish ce lease = hub_call ce (\<lambda>hub ctxErr _. lease_Finish (ce_provider ce) hub lease ctxErr)"

definition ctl_Close :: "'p ctl_env \<Rightarrow> StreamLease \<Rightarrow> 'p ctl_world \<Rightarrow> 'p ctl_world" where
  "ctl_Close ce lease w = fst (hub_call ce (\<lambda>hub _ _. lease_Close (ce_provider ce) hub lease) w)"

subsection \<open>Writing\<close>

definition ctl_write :: "'p ctl_env \<Rightarrow> ServerEvent \<Rightarrow> 'p ctl_world \<Rightarrow> 'p ctl_world \<times> rt_error option" where
  "ctl_write ce event w =
     (case EncodeServerEvent event of
        Inl _ \<Rightarrow> (w, Some ErrRealtimeTransport)
      | Inr _ \<Rightarrow>
        if \<not> ce_write_ok ce (w_tick w) then (w\<lparr>w_tick := Suc (w_tick w)\<rparr>, Some ErrRealtimeTransport)
        else (w\<lparr>w_tick := Suc (w_tick w), c_sent := c_sent w @ [event]\<rparr>, None))"

definition zero_session :: Session where
  "zero_session = \<lparr>s_ID = [], s_WorkspaceID = [], s_CreatedBy = [], s_ClientSessionID = [], s_ProviderProfileID = [],
     s_HotwordSetID = [], s_IdempotencyKey = [], s_Encoding = [], s_SampleRateHz = 0, s_Channels = 0,
     s_FrameDurationMS = 0, s_Language = [], s_State = [], s_NextSequence = 0, s_ReceivedBytes = 0,
     s_LastCapturedAtMS = 0, s_FinalTranscript = [], s_FinalLanguage = [], s_FinalProviderID = [],
     s_ClientArchiveSHA256 = [], s_CapturedDurationMS = 0, s_LastErrorCode = [], s_Version = 0, s_StartedAt = 0,
     s_LastFrameAt = None, s_InterruptedAt = None, s_ReconnectBy = None, s_ExpiresAt = 0, s_CompletedAt = None,
     s_UpdatedAt = 0\<rparr>"

definition protocolError :: "rt_error \<Rightarrow> Session \<Rightarrow> ServerEvent" where
  "protocolError err session =
     (let event = ErrorEvent (s_ID session) in
      case err of
        ErrInvalidEvent \<Rightarrow> event ''invalid_event'' ''Invalid realtime event.'' True None
      | ErrForbidden \<Rightarrow> event ''forbidden'' ''Realtime transcription is not allowed.'' False None
      | ErrNotFound \<Rightarrow> event ''session_unavailable'' ''Session is unavailable.'' False None
      | ErrIdempotencyConflict \<Rightarrow>
          event ''idempotency_conflict'' ''The idempotency key conflicts with an existing session.'' False None
      | ErrSequenceGap \<Rightarrow>
          event ''sequence_gap'' ''Audio sequence is out of order.'' True (Some (s_NextSequence session))
      | ErrFinalSequence \<Rightarrow> event ''final_sequence_mismatch'' ''Final audio sequence does not match.'' True None
      | ErrFrameSize \<Rightarrow> event ''invalid_frame'' ''Audio frame size does not match the session format.'' True None
      | ErrSessionMismatch \<Rightarrow> event ''session_mismatch'' ''Event session does not match the active session.'' False None
      | ErrSessionExpired \<Rightarrow> event ''session_expired'' ''The realtime session has expired.'' False None
      | ErrStateConflict \<Rightarrow> event ''state_conflict'' ''Event is not valid in the current session state.'' False None
      | ErrVersionConflict \<Rightarrow> event ''concurrent_update'' ''Session progress changed concurrently.'' True None
      | _ \<Rightarrow> event ''internal_error'' ''Realtime transcription could not continue.'' False None)"

text \<open>Write an error and end the connection with \<open>err\<close>, or with the error of the write.\<close>

definition refuse :: "'p ctl_env \<Rightarrow> ServerEvent \<Rightarrow> rt_error \<Rightarrow> 'p ctl_world \<Rightarrow> 'p ctl_world \<times> rt_error" where
  "refuse ce event err w =
     (case ctl_write ce event w of (w, Some e) \<Rightarrow> (w, e) | (w, None) \<Rightarrow> (w, err))"

definition readyEvent :: "'p ctl_env \<Rightarrow> Session \<Rightarrow> ServerEvent" where
  "readyEvent ce session =
     ReadyEvent (s_ID session) (s_NextSequence session) (maximumFrameBytes session)
       (quot (ce_heartbeat ce) millisecond) (s_ExpiresAt session)"

definition failureMessage :: "string \<Rightarrow> string" where
  "failureMessage errorCode =
     (if errorCode = ''provider_rejected'' then ''Realtime transcription provider returned an invalid result.''
      else if errorCode = ''internal_error'' then ''Realtime transcription could not be completed.''
      else if errorCode = ''stream_timeout'' then ''The realtime reconnect window has expired.''
      else ''Realtime transcription provider is unavailable.'')"

definition failSession ::
  "'p ctl_env \<Rightarrow> principal \<Rightarrow> Session \<Rightarrow> StreamLease option \<Rightarrow> string \<Rightarrow> 'p ctl_world \<Rightarrow> 'p ctl_world" where
  "failSession ce actor session lease errorCode w =
     (let w = fst (svc_Fail (ce_env ce) actor (s_ID session) errorCode w);
          w = (case lease of None \<Rightarrow> w | Some l \<Rightarrow> ctl_Close ce l w);
          w = fst (ctl_write ce (ErrorEvent (s_ID session) errorCode (failureMessage errorCode) False None) w)
      in fst (ctl_write ce (ClosedEvent (s_ID session) ''failed'') w))"

definition retainForReconnect :: "'p ctl_env \<Rightarrow> principal \<Rightarrow> string \<Rightarrow> StreamLease \<Rightarrow> 'p ctl_world \<Rightarrow> 'p ctl_world" where
  "retainForReconnect ce actor sessionID lease w =
     (if sessionID = [] then w
      else case svc_Interrupt (ce_env ce) actor sessionID w of
        (w, Inl _) \<Rightarrow> ctl_Close ce lease w
      | (w, Inr interrupted) \<Rightarrow>
      case s_ReconnectBy interrupted of
        None \<Rightarrow> ctl_Close ce lease w
      | Some reconnectBy \<Rightarrow>
      case ctl_Detach ce lease reconnectBy w of
        (w, None) \<Rightarrow> w
      | (w, Some _) \<Rightarrow> ctl_Close ce lease w)"

definition releaseResumeLease :: "'p ctl_env \<Rightarrow> StreamLease \<Rightarrow> Session \<Rightarrow> 'p ctl_world \<Rightarrow> 'p ctl_world" where
  "releaseResumeLease ce lease session w =
     (case s_ReconnectBy session of
        None \<Rightarrow> ctl_Close ce lease w
      | Some reconnectBy \<Rightarrow>
      case ctl_Detach ce lease reconnectBy w of
        (w, None) \<Rightarrow> w
      | (w, Some _) \<Rightarrow> ctl_Close ce lease w)"

fun clientEventSessionID :: "ClientEvent \<Rightarrow> string" where
  "clientEventSessionID (ClientAudio e) = ae_SessionID e"
| "clientEventSessionID (ClientFinish e) = fe_SessionID e"
| "clientEventSessionID (ClientHeartbeat e) = he_SessionID e"
| "clientEventSessionID _ = []"

definition validTranscriptUpdate :: "TranscriptUpdate \<Rightarrow> int \<Rightarrow> AudioEvent \<Rightarrow> int \<Rightarrow> bool" where
  "validTranscriptUpdate update lastRevision frame frameDurationMS =
     (tu_Revision update > lastRevision \<and> 0 \<le> tu_FinalThroughMS update \<and> 0 < frameDurationMS
      \<and> tu_FinalThroughMS update \<le> i64 (ae_CapturedAtMS frame + frameDurationMS)
      \<and> utf8_valid (tu_Text update) \<and> int (length (tu_Text update)) \<le> MaxTranscriptBytes)"

definition replayCompleted :: "'p ctl_env \<Rightarrow> Session \<Rightarrow> 'p ctl_world \<Rightarrow> 'p ctl_world \<times> rt_error option" where
  "replayCompleted ce session w =
     (case normalizeProviderResult \<lparr>pr_Text = s_FinalTranscript session, pr_Language = s_FinalLanguage session,
              pr_ProviderID = s_FinalProviderID session\<rparr> of
        (result, valid) \<Rightarrow>
      if \<not> valid then (w, Some ErrProviderStream)
      else case ctl_write ce (readyEvent ce session) w of
        (w, Some e) \<Rightarrow> (w, Some e)
      | (w, None) \<Rightarrow>
      case ctl_write ce (FinalTranscriptEvent (s_ID session) (pr_Text result) (pr_Language result) (pr_ProviderID result)) w of
        (w, Some e) \<Rightarrow> (w, Some e)
      | (w, None) \<Rightarrow> ctl_write ce (ClosedEvent (s_ID session) ''completed'') w)"

subsection \<open>The first message\<close>

text \<open>
  The result is the end of the connection, \<open>Inl\<close> with the error that \<^verbatim>\<open>Serve\<close> returns (\<open>None\<close> for \<^verbatim>\<open>nil\<close>),
  or the session to serve with the lease of its stream.
\<close>

definition open_start ::
  "'p ctl_env \<Rightarrow> principal \<Rightarrow> StartEvent \<Rightarrow> 'p ctl_world \<Rightarrow> 'p ctl_world \<times> (rt_error option + (Session \<times> StreamLease))" where
  "open_start ce actor event w =
     (case svc_Start (ce_env ce) actor event w of
        (w, Inl startErr) \<Rightarrow> map_prod id (Inl \<circ> Some) (refuse ce (protocolError startErr zero_session) startErr w)
      | (w, Inr (started, replayed)) \<Rightarrow>
      if replayed then
        map_prod id (Inl \<circ> Some)
          (refuse ce (ErrorEvent (s_ID started) ''session_exists'' ''Session already exists; reconnect with resume.'' True None)
             ErrStateConflict w)
      else case ctl_now ce w of (w, now) \<Rightarrow>
      case ctl_hub_Start ce started now w of
        (w, Inl _) \<Rightarrow> (failSession ce actor started None ''provider_unavailable'' w, Inl (Some ErrProviderStream))
      | (w, Inr lease) \<Rightarrow> (w, Inr (started, lease)))"

definition open_resume ::
  "'p ctl_env \<Rightarrow> principal \<Rightarrow> ResumeEvent \<Rightarrow> 'p ctl_world \<Rightarrow> 'p ctl_world \<times> (rt_error option + (Session \<times> StreamLease))" where
  "open_resume ce actor event w =
     (case svc_Get (ce_env ce) actor (re_SessionID event) w of
        (w, Inl getErr) \<Rightarrow> map_prod id (Inl \<circ> Some) (refuse ce (protocolError getErr zero_session) getErr w)
      | (w, Inr current) \<Rightarrow>
      if s_State current = StateCompleted then
        (if re_LastAcknowledgedSequence event > AcknowledgedSequence current then
           map_prod id (Inl \<circ> Some) (refuse ce (protocolError ErrSequenceGap current) ErrSequenceGap w)
         else map_prod id Inl (replayCompleted ce current w))
      else if s_State current \<noteq> StateInterrupted then
        map_prod id (Inl \<circ> Some) (refuse ce (protocolError ErrStateConflict current) ErrStateConflict w)
      else case ctl_now ce w of (w, now) \<Rightarrow>
      case ctl_hub_Resume ce current now w of
        (w, Inl _) \<Rightarrow> (failSession ce actor current None ''stream_timeout'' w, Inl (Some ErrProviderStream))
      | (w, Inr lease) \<Rightarrow>
      case svc_Resume (ce_env ce) actor event w of
        (w, Inl resumeErr) \<Rightarrow>
          map_prod id (Inl \<circ> Some)
            (refuse ce (protocolError resumeErr current) resumeErr (releaseResumeLease ce lease current w))
      | (w, Inr resumed) \<Rightarrow> (w, Inr (resumed, lease)))"

definition ctl_open ::
  "'p ctl_env \<Rightarrow> principal \<Rightarrow> bytes \<Rightarrow> 'p ctl_world \<Rightarrow> 'p ctl_world \<times> (rt_error option + (Session \<times> StreamLease))" where
  "ctl_open ce actor payload w =
     (case DecodeClientEvent payload of
        Inl _ \<Rightarrow> map_prod id (Inl \<circ> Some) (refuse ce (protocolError ErrInvalidEvent zero_session) ErrInvalidEvent w)
      | Inr (ClientStart event) \<Rightarrow> open_start ce actor event w
      | Inr (ClientResume event) \<Rightarrow> open_resume ce actor event w
      | Inr _ \<Rightarrow>
          map_prod id (Inl \<circ> Some)
            (refuse ce (ErrorEvent [] ''start_required'' ''The first event must be start or resume.'' True None)
               ErrStateConflict w))"

subsection \<open>The following messages\<close>

text \<open>
  After a message the connection goes on with a session and the last transcript revision, or ends
  with an error (or none); the flag is \<^verbatim>\<open>interruptOnExit\<close>.
\<close>

datatype ctl_next = Continue Session int | Exit "rt_error option" bool

text \<open>Write an error; go on with \<open>next\<close> if the write succeeded.\<close>

definition report ::
  "'p ctl_env \<Rightarrow> ServerEvent \<Rightarrow> ctl_next \<Rightarrow> 'p ctl_world \<Rightarrow> 'p ctl_world \<times> ctl_next" where
  "report ce event next w =
     (case ctl_write ce event w of (w, Some e) \<Rightarrow> (w, Exit (Some e) True) | (w, None) \<Rightarrow> (w, next))"

definition give_up ::
  "'p ctl_env \<Rightarrow> principal \<Rightarrow> Session \<Rightarrow> StreamLease \<Rightarrow> string \<Rightarrow> rt_error \<Rightarrow> 'p ctl_world \<Rightarrow> 'p ctl_world \<times> ctl_next" where
  "give_up ce actor session lease errorCode err w =
     (failSession ce actor session (Some lease) errorCode w, Exit (Some err) False)"

definition on_audio_error ::
  "'p ctl_env \<Rightarrow> principal \<Rightarrow> Session \<Rightarrow> int \<Rightarrow> rt_error \<Rightarrow> 'p ctl_world \<Rightarrow> 'p ctl_world \<times> ctl_next" where
  "on_audio_error ce actor session lastRevision acceptErr w =
     (case svc_Get (ce_env ce) actor (s_ID session) w of
        (w, latest) \<Rightarrow>
      let session = (case latest of Inl _ \<Rightarrow> session | Inr s \<Rightarrow> s) in
      report ce (protocolError acceptErr session)
        (if acceptErr = ErrSequenceGap \<or> acceptErr = ErrInvalidEvent \<or> acceptErr = ErrVersionConflict
         then Continue session lastRevision else Exit (Some acceptErr) True) w)"

definition on_audio_accepted ::
  "'p ctl_env \<Rightarrow> principal \<Rightarrow> StreamLease \<Rightarrow> int \<Rightarrow> AudioEvent \<Rightarrow> Session \<Rightarrow> TranscriptUpdate option \<Rightarrow> 'p ctl_world
     \<Rightarrow> 'p ctl_world \<times> ctl_next" where
  "on_audio_accepted ce actor lease lastRevision event session update w =
     (case ctl_write ce (AckEvent (s_ID session) (AcknowledgedSequence session) (s_ReceivedBytes session)) w of
        (w, Some e) \<Rightarrow> (w, Exit (Some e) True)
      | (w, None) \<Rightarrow>
      case update of
        None \<Rightarrow> (w, Continue session lastRevision)
      | Some u \<Rightarrow>
      if \<not> validTranscriptUpdate u lastRevision event (s_FrameDurationMS session) then
        give_up ce actor session lease ''provider_rejected'' ErrProviderStream w
      else
        report ce (PartialTranscriptEvent (s_ID session) (tu_Revision u) (tu_Text u) (tu_FinalThroughMS u))
          (Continue session (tu_Revision u)) w)"

definition on_audio ::
  "'p ctl_env \<Rightarrow> principal \<Rightarrow> StreamLease \<Rightarrow> Session \<Rightarrow> int \<Rightarrow> AudioEvent \<Rightarrow> 'p ctl_world \<Rightarrow> 'p ctl_world \<times> ctl_next" where
  "on_audio ce actor lease session lastRevision event w =
     (case svc_AcceptAudio (ce_env ce) actor event w of
        (w, Inl acceptErr) \<Rightarrow> on_audio_error ce actor session lastRevision acceptErr w
      | (w, Inr (persisted, FrameDuplicate)) \<Rightarrow>
          on_audio_accepted ce actor lease lastRevision event persisted None w
      | (w, Inr (persisted, FrameAccepted)) \<Rightarrow>
      case PCM event of
        Inl _ \<Rightarrow> report ce (protocolError ErrInvalidEvent persisted) (Continue persisted lastRevision) w
      | Inr pcm \<Rightarrow>
      case ctl_Push ce lease \<lparr>pf_Sequence = ae_Sequence event, pf_CapturedAtMS = ae_CapturedAtMS event, pf_PCM = pcm\<rparr> w of
        (w, Inl _) \<Rightarrow> give_up ce actor persisted lease ''provider_unavailable'' ErrProviderStream w
      | (w, Inr update) \<Rightarrow> on_audio_accepted ce actor lease lastRevision event persisted update w)"

definition on_heartbeat :: "'p ctl_env \<Rightarrow> Session \<Rightarrow> int \<Rightarrow> 'p ctl_world \<Rightarrow> 'p ctl_world \<times> ctl_next" where
  "on_heartbeat ce session lastRevision w =
     (case ctl_now ce w of
        (w, now) \<Rightarrow> report ce (HeartbeatAckEvent (s_ID session) now) (Continue session lastRevision) w)"

definition on_finish ::
  "'p ctl_env \<Rightarrow> principal \<Rightarrow> StreamLease \<Rightarrow> Session \<Rightarrow> int \<Rightarrow> FinishEvent \<Rightarrow> 'p ctl_world \<Rightarrow> 'p ctl_world \<times> ctl_next" where
  "on_finish ce actor lease session lastRevision event w =
     (case svc_BeginFinalization (ce_env ce) actor event w of
        (w, Inl finishErr) \<Rightarrow>
          report ce (protocolError finishErr session)
            (if finishErr = ErrFinalSequence \<or> finishErr = ErrInvalidEvent \<or> finishErr = ErrVersionConflict
             then Continue session lastRevision else Exit (Some finishErr) True) w
      | (w, Inr finalizing) \<Rightarrow>
      case ctl_Finish ce lease w of
        (w, Inl _) \<Rightarrow> give_up ce actor finalizing lease ''provider_unavailable'' ErrProviderStream w
      | (w, Inr result0) \<Rightarrow>
      case normalizeProviderResult result0 of
        (result, ok) \<Rightarrow>
      if \<not> ok then give_up ce actor finalizing lease ''provider_rejected'' ErrProviderStream w
      else case svc_Complete (ce_env ce) actor (s_ID finalizing) result w of
        (w, Inl completeErr) \<Rightarrow> give_up ce actor finalizing lease ''internal_error'' completeErr w
      | (w, Inr completed) \<Rightarrow>
      case ctl_write ce (FinalTranscriptEvent (s_ID completed) (pr_Text result) (pr_Language result) (pr_ProviderID result)) w of
        (w, Some e) \<Rightarrow> (w, Exit (Some e) False)
      | (w, None) \<Rightarrow>
      case ctl_write ce (ClosedEvent (s_ID completed) ''completed'') w of
        (w, e) \<Rightarrow> (w, Exit e False))"

definition ctl_event ::
  "'p ctl_env \<Rightarrow> principal \<Rightarrow> StreamLease \<Rightarrow> Session \<Rightarrow> int \<Rightarrow> bytes \<Rightarrow> 'p ctl_world \<Rightarrow> 'p ctl_world \<times> ctl_next" where
  "ctl_event ce actor lease session lastRevision payload w =
     (let next = Continue session lastRevision in
      case DecodeClientEvent payload of
        Inl _ \<Rightarrow> report ce (protocolError ErrInvalidEvent session) next w
      | Inr (ClientStart _) \<Rightarrow> report ce (protocolError ErrStateConflict session) next w
      | Inr (ClientResume _) \<Rightarrow> report ce (protocolError ErrStateConflict session) next w
      | Inr event \<Rightarrow>
      if clientEventSessionID event \<noteq> s_ID session then report ce (protocolError ErrSessionMismatch session) next w
      else case event of
        ClientAudio e \<Rightarrow> on_audio ce actor lease session lastRevision e w
      | ClientFinish e \<Rightarrow> on_finish ce actor lease session lastRevision e w
      | _ \<Rightarrow> on_heartbeat ce session lastRevision w)"

fun ctl_loop ::
  "'p ctl_env \<Rightarrow> principal \<Rightarrow> StreamLease \<Rightarrow> Session \<Rightarrow> int \<Rightarrow> bytes list \<Rightarrow> 'p ctl_world
     \<Rightarrow> 'p ctl_world \<times> rt_error option \<times> bool" where
  "ctl_loop ce actor lease session lastRevision [] w = (w, Some ErrRealtimeTransport, True)"
| "ctl_loop ce actor lease session lastRevision (payload # rest) w =
     (case ctl_event ce actor lease session lastRevision payload w of
        (w, Continue session' lastRevision') \<Rightarrow> ctl_loop ce actor lease session' lastRevision' rest w
      | (w, Exit err interruptOnExit) \<Rightarrow> (w, err, interruptOnExit))"

text \<open>A served session: the ready event, the loop, and the deferred \<^verbatim>\<open>retainForReconnect\<close>.\<close>

definition ctl_session ::
  "'p ctl_env \<Rightarrow> principal \<Rightarrow> StreamLease \<Rightarrow> Session \<Rightarrow> bytes list \<Rightarrow> 'p ctl_world \<Rightarrow> 'p ctl_world \<times> rt_error option" where
  "ctl_session ce actor lease session inbox w =
     (case (case ctl_write ce (readyEvent ce session) w of
              (w, Some e) \<Rightarrow> (w, Some e, True)
            | (w, None) \<Rightarrow> ctl_loop ce actor lease session 0 inbox w) of
        (w, err, interruptOnExit) \<Rightarrow>
          (if interruptOnExit then retainForReconnect ce actor (s_ID session) lease w else w, err))"

definition Serve :: "'p ctl_env \<Rightarrow> principal \<Rightarrow> bytes list \<Rightarrow> 'p ctl_world \<Rightarrow> 'p ctl_world \<times> rt_error option" where
  "Serve ce actor inbox w =
     (if ce_heartbeat ce \<le> 0 then (w, Some ErrRealtimeTransport)
      else case inbox of
        [] \<Rightarrow> (w, Some ErrRealtimeTransport)
      | payload # rest \<Rightarrow>
      case ctl_open ce actor payload w of
        (w, Inl err) \<Rightarrow> (w, err)
      | (w, Inr (session, lease)) \<Rightarrow> ctl_session ce actor lease session rest w)"

subsection \<open>The service leaves the connection alone\<close>

named_theorems more_frames

lemma now_call_more [more_frames]: "now_call env w = (w', r) \<Longrightarrow> world.more w' = world.more w"
  by (auto simp: now_call_def)

lemma uuid_call_more [more_frames]: "uuid_call env w = (w', r) \<Longrightarrow> world.more w' = world.more w"
  by (auto simp: uuid_call_def)

lemma db_call_more [more_frames]: "db_call env f w = (w', r) \<Longrightarrow> world.more w' = world.more w"
  by (auto simp: db_call_def Let_def split: prod.splits)

lemma repo_more [more_frames]:
  "repo_Get env ws sid w = (w', g) \<Longrightarrow> world.more w' = world.more w"
  "repo_Update env e s audit w = (w', u) \<Longrightarrow> world.more w' = world.more w"
  "repo_Create env s h a w = (w', c) \<Longrightarrow> world.more w' = world.more w"
  by (auto simp: repo_Get_def repo_Update_def repo_Create_def dest!: db_call_more split: prod.splits sum.splits option.splits)

lemma newAudit_more [more_frames]: "newAudit env i act m w = (w', r) \<Longrightarrow> world.more w' = world.more w"
  by (auto simp: newAudit_def dest!: more_frames split: prod.splits sum.splits option.splits)

lemma saveTransition_more [more_frames]:
  "saveTransition env i cur s act m w = (w', r) \<Longrightarrow> world.more w' = world.more w"
  by (auto simp: saveTransition_def dest!: more_frames split: prod.splits sum.splits)

lemma svc_Get_more [more_frames]: "svc_Get env actor sid w = (w', r) \<Longrightarrow> world.more w' = world.more w"
  by (auto simp: svc_Get_def dest!: more_frames split: prod.splits sum.splits if_splits)

lemma svc_Start_more [more_frames]: "svc_Start env actor ev w = (w', r) \<Longrightarrow> world.more w' = world.more w"
  unfolding svc_Start_def by (auto dest!: more_frames split: prod.splits sum.splits if_splits)

lemma svc_transition_more [more_frames]:
  "svc_Interrupt env actor sid w = (w', r) \<Longrightarrow> world.more w' = world.more w"
  "svc_Resume env actor rv w = (w', r) \<Longrightarrow> world.more w' = world.more w"
  "svc_BeginFinalization env actor fev w = (w', r) \<Longrightarrow> world.more w' = world.more w"
  "svc_Complete env actor sid res w = (w', r) \<Longrightarrow> world.more w' = world.more w"
  "svc_Fail env actor sid code w = (w', r) \<Longrightarrow> world.more w' = world.more w"
  unfolding svc_Interrupt_def svc_Resume_def svc_BeginFinalization_def svc_Complete_def svc_Fail_def
  by (auto dest!: more_frames split: prod.splits sum.splits)

lemma accept_more: "accept_attempts env actor ev n w = (w', r) \<Longrightarrow> world.more w' = world.more w"
proof (induction n arbitrary: w)
  case (Suc n)
  then show ?case
    by (auto dest!: more_frames split: prod.splits sum.splits FrameDisposition.splits if_splits)
qed simp

lemma svc_AcceptAudio_more [more_frames]:
  "svc_AcceptAudio env actor ev w = (w', r) \<Longrightarrow> world.more w' = world.more w"
  unfolding svc_AcceptAudio_def by (rule accept_more)

lemma more_fields:
  fixes w w' :: "'p ctl_world"
  assumes "world.more w' = world.more w"
  shows "c_hub w' = c_hub w" "c_sent w' = c_sent w"
  using assms by (cases w; cases w'; simp)+

subsection \<open>A connection and its stream\<close>

definition hub_still :: "'p ctl_env \<Rightarrow> bool" where
  "hub_still ce \<longleftrightarrow> (\<forall>t hub. ce_hub_other ce t hub = hub)"

text \<open>
  What a connection may do to the hub while it holds a lease: only the entry of the lease changes,
  and the lease stays its latest one unless the entry is closed.
\<close>

definition owns :: "StreamLease \<Rightarrow> 'p StreamHub \<Rightarrow> bool" where
  "owns lease hub \<longleftrightarrow> le_entry lease < length (h_entries hub) \<and>
     (e_closed (entry_at hub (le_entry lease)) \<or> e_lease (entry_at hub (le_entry lease)) = le_lease lease)"

definition only_own :: "StreamLease \<Rightarrow> 'p StreamHub \<Rightarrow> 'p StreamHub \<Rightarrow> bool" where
  "only_own lease hub hub' \<longleftrightarrow> length (h_entries hub') = length (h_entries hub) \<and>
     (\<forall>a. a \<noteq> le_entry lease \<longrightarrow> entry_at hub' a = entry_at hub a) \<and> (owns lease hub \<longrightarrow> owns lease hub') \<and>
     (e_closed (entry_at hub (le_entry lease)) \<longrightarrow> e_closed (entry_at hub' (le_entry lease)))"

definition attached_at :: "'p StreamHub \<Rightarrow> nat \<Rightarrow> bool" where
  "attached_at hub a \<longleftrightarrow> a < length (h_entries hub) \<and> e_attached (entry_at hub a) \<and> \<not> e_closed (entry_at hub a)"

lemma only_own_refl [simp]: "only_own lease hub hub"
  by (simp add: only_own_def)

lemma only_own_trans: "only_own l h1 h2 \<Longrightarrow> only_own l h2 h3 \<Longrightarrow> only_own l h1 h3"
  by (auto simp: only_own_def)

lemma entry_at_set_entry: "entry_at (set_entry a e hub) b = (if b = a \<and> a < length (h_entries hub) then e else entry_at hub b)"
  by (cases "a < length (h_entries hub)") (auto simp: entry_at_def set_entry_def nth_list_update list_update_beyond)

lemma set_entry_length [simp]: "length (h_entries (set_entry a e hub)) = length (h_entries hub)"
  by (simp add: set_entry_def)

lemma hub_remove_entries [simp]: "h_entries (hub_remove sid a hub) = h_entries hub" "entry_at (hub_remove sid a hub) b = entry_at hub b"
  by (simp_all add: hub_remove_def entry_at_def)

lemma only_own_set:
  "e_lease e = e_lease (entry_at hub (le_entry l)) \<Longrightarrow> (e_closed (entry_at hub (le_entry l)) \<Longrightarrow> e_closed e) \<Longrightarrow>
    only_own l hub (set_entry (le_entry l) e hub)"
  by (auto simp: only_own_def owns_def entry_at_set_entry)

lemma push_own: "only_own lease hub (fst (lease_Push prov hub lease c now f))"
  by (auto simp: lease_Push_def Let_def split: prod.splits intro!: only_own_set)

lemma detach_own: "only_own lease hub (fst (lease_Detach hub lease t))"
  by (auto simp: lease_Detach_def Let_def intro!: only_own_set)

lemma only_own_remove: "only_own l hub (hub_remove s a hub') = only_own l hub hub'"
  by (simp add: only_own_def owns_def)

lemma finish_own: "only_own lease hub (fst (lease_Finish prov hub lease c))"
  by (auto simp: lease_Finish_def lease_Finish_entry_def Let_def only_own_remove split: prod.splits intro!: only_own_set)

lemma close_own: "only_own lease hub (fst (lease_Close prov hub lease))"
  by (auto simp: lease_Close_def lease_Close_entry_def Let_def only_own_remove split: prod.splits intro!: only_own_set)

lemma close_closes: "owns lease hub \<Longrightarrow> e_closed (entry_at (fst (lease_Close prov hub lease)) (le_entry lease))"
  by (auto simp: lease_Close_def lease_Close_entry_def owns_def Let_def entry_at_set_entry split: prod.splits)

lemma finish_closes:
  "owns lease hub \<Longrightarrow> lease_Finish prov hub lease c = (hub', Inr r) \<Longrightarrow> e_closed (entry_at hub' (le_entry lease))"
  by (auto simp: lease_Finish_def lease_Finish_entry_def owns_def Let_def entry_at_set_entry split: prod.splits if_splits)

lemma detach_releases:
  "owns lease hub \<Longrightarrow> lease_Detach hub lease t = (hub', None) \<Longrightarrow> \<not> attached_at hub' (le_entry lease)"
  by (auto simp: lease_Detach_def owns_def attached_at_def Let_def entry_at_set_entry split: if_splits)

subsection \<open>The same for the operations of the controller\<close>

lemma hub_call_still:
  assumes "hub_still ce" "hub_call ce f w = (w', r)"
  obtains c t where "f (c_hub w) c t = (c_hub w', r)"
  using assms by (auto simp: hub_call_def hub_still_def Let_def split: prod.splits)

lemma ctl_write_hub: "ctl_write ce ev w = (w', r) \<Longrightarrow> c_hub w' = c_hub w"
  by (auto simp: ctl_write_def split: sum.splits if_splits)

lemma ctl_write_hub_fst [simp]: "c_hub (fst (ctl_write ce ev w)) = c_hub w"
  using ctl_write_hub by (metis prod.collapse)

lemma ctl_Close_own:
  assumes "hub_still ce"
  shows "only_own lease (c_hub w) (c_hub (ctl_Close ce lease w))"
    "owns lease (c_hub w) \<Longrightarrow> e_closed (entry_at (c_hub (ctl_Close ce lease w)) (le_entry lease))"
proof -
  have "c_hub (ctl_Close ce lease w) = fst (lease_Close (ce_provider ce) (c_hub w) lease)"
    using assms by (simp add: ctl_Close_def hub_call_def hub_still_def Let_def case_prod_beta)
  then show "only_own lease (c_hub w) (c_hub (ctl_Close ce lease w))"
    "owns lease (c_hub w) \<Longrightarrow> e_closed (entry_at (c_hub (ctl_Close ce lease w)) (le_entry lease))"
    using close_own close_closes by metis+
qed

lemma ctl_Detach_own:
  assumes "hub_still ce" "ctl_Detach ce lease t w = (w', r)"
  shows "only_own lease (c_hub w) (c_hub w')"
    "owns lease (c_hub w) \<Longrightarrow> r = None \<Longrightarrow> \<not> attached_at (c_hub w') (le_entry lease)"
proof -
  have "lease_Detach (c_hub w) lease t = (c_hub w', r)"
    using assms(2) unfolding ctl_Detach_def by (elim hub_call_still [OF assms(1)])
  then show "only_own lease (c_hub w) (c_hub w')"
    "owns lease (c_hub w) \<Longrightarrow> r = None \<Longrightarrow> \<not> attached_at (c_hub w') (le_entry lease)"
    using detach_own detach_releases by (metis fst_conv)+
qed

lemma svc_fst_hub [simp]:
  "c_hub (fst (svc_Fail env actor sid code w)) = c_hub w" for w :: "'p ctl_world"
proof -
  obtain w' r where f: "svc_Fail env actor sid code w = (w', r)" by (rule prod.exhaust)
  then show ?thesis using more_fields(1) [OF svc_transition_more(5) [OF f]] by simp
qed

lemma failSession_own:
  assumes "hub_still ce"
  shows "only_own l (c_hub w) (c_hub (failSession ce actor s (Some l) code w))"
    "owns l (c_hub w) \<Longrightarrow> e_closed (entry_at (c_hub (failSession ce actor s (Some l) code w)) (le_entry l))"
    "c_hub (failSession ce actor s None code w) = c_hub w"
  using ctl_Close_own [OF assms, of l "fst (svc_Fail (ce_env ce) actor (s_ID s) code w)"]
  by (simp_all add: failSession_def Let_def)

lemma closed_not_attached: "e_closed (entry_at hub a) \<Longrightarrow> \<not> attached_at hub a"
  by (simp add: attached_at_def)

lemma detach_or_close:
  assumes "hub_still ce" "owns l (c_hub w)"
    and "w' = (case ctl_Detach ce l t w of (w, None) \<Rightarrow> w | (w, Some _) \<Rightarrow> ctl_Close ce l w)"
  shows "only_own l (c_hub w) (c_hub w') \<and> \<not> attached_at (c_hub w') (le_entry l)"
proof -
  obtain w1 r where d: "ctl_Detach ce l t w = (w1, r)" by (rule prod.exhaust)
  note own = ctl_Detach_own [OF assms(1) d]
  then have "owns l (c_hub w1)" using assms(2) by (simp add: only_own_def)
  then show ?thesis
    using own assms d ctl_Close_own [OF assms(1), of l w1] closed_not_attached only_own_trans by (cases r) auto
qed

lemma retain_releases:
  assumes "hub_still ce" "owns l (c_hub w)" "sid \<noteq> []"
  shows "only_own l (c_hub w) (c_hub (retainForReconnect ce actor sid l w)) \<and>
    \<not> attached_at (c_hub (retainForReconnect ce actor sid l w)) (le_entry l)"
proof -
  obtain w1 r where i: "svc_Interrupt (ce_env ce) actor sid w = (w1, r)" by (rule prod.exhaust)
  have hub: "c_hub w1 = c_hub w" using svc_transition_more(1) [OF i] by (rule more_fields)
  have close: "only_own l (c_hub w) (c_hub (ctl_Close ce l w1)) \<and> \<not> attached_at (c_hub (ctl_Close ce l w1)) (le_entry l)"
    using ctl_Close_own [OF assms(1), of l w1] assms(2) hub closed_not_attached by auto
  have "owns l (c_hub w1)" using assms(2) hub by simp
  note det = detach_or_close [OF assms(1) this HOL.refl, unfolded hub]
  show ?thesis
    using i assms(3) close det by (auto simp: retainForReconnect_def split: sum.split option.split)
qed

lemma release_releases:
  assumes "hub_still ce" "owns l (c_hub w)"
  shows "only_own l (c_hub w) (c_hub (releaseResumeLease ce l s w)) \<and>
    \<not> attached_at (c_hub (releaseResumeLease ce l s w)) (le_entry l)"
  using ctl_Close_own [OF assms(1), of l w] assms(2) closed_not_attached detach_or_close [OF assms HOL.refl]
  by (auto simp: releaseResumeLease_def split: option.split)

text \<open>
  One message: the hub changes only at the lease, and if the connection ends without
  \<^verbatim>\<open>interruptOnExit\<close> the stream is closed.
\<close>

definition next_ok :: "StreamLease \<Rightarrow> 'p StreamHub \<Rightarrow> 'p ctl_world \<times> ctl_next \<Rightarrow> bool" where
  "next_ok l hub x \<longleftrightarrow> only_own l hub (c_hub (fst x)) \<and>
     (case snd x of Exit _ False \<Rightarrow> owns l hub \<longrightarrow> e_closed (entry_at (c_hub (fst x)) (le_entry l)) | _ \<Rightarrow> True)"

lemma next_ok_trans: "only_own l h1 h2 \<Longrightarrow> next_ok l h2 x \<Longrightarrow> next_ok l h1 x"
  by (auto simp: next_ok_def only_own_def split: ctl_next.splits bool.splits)

lemma report_ok: "(\<And>e. next \<noteq> Exit e False) \<Longrightarrow> next_ok l (c_hub w) (report ce ev next w)"
  using ctl_write_hub [of ce ev w]
  by (auto simp: report_def next_ok_def split: prod.splits option.splits ctl_next.splits bool.splits)

lemma report_oks [simp]:
  "next_ok l (c_hub w) (report ce ev (Continue s rv) w)" "next_ok l (c_hub w) (report ce ev (Exit e True) w)"
  by (rule report_ok, simp)+

lemma give_up_ok: "hub_still ce \<Longrightarrow> next_ok l (c_hub w) (give_up ce actor s l code err w)"
  using failSession_own by (auto simp: give_up_def next_ok_def)

lemma on_audio_error_ok: "next_ok l (c_hub w) (on_audio_error ce actor s rv e w)"
proof -
  obtain w1 g where g: "svc_Get (ce_env ce) actor (s_ID s) w = (w1, g)" by (rule prod.exhaust)
  then have hub: "c_hub w1 = c_hub w" by (rule more_fields [OF svc_Get_more])
  show ?thesis
    unfolding on_audio_error_def g prod.case Let_def hub [symmetric] by (rule report_ok) (simp split: if_splits)
qed

lemma on_audio_accepted_ok:
  assumes "hub_still ce"
  shows "next_ok l (c_hub w) (on_audio_accepted ce actor l rv ev s u w)"
proof -
  obtain w1 r where wr: "ctl_write ce (AckEvent (s_ID s) (AcknowledgedSequence s) (s_ReceivedBytes s)) w = (w1, r)"
    by (rule prod.exhaust)
  note hub = ctl_write_hub [OF wr]
  have "next_ok l (c_hub w1) (on_audio_accepted ce actor l rv ev s u w)"
    using wr give_up_ok [OF assms, of l w1] report_ok [of _ l w1]
    by (auto simp: on_audio_accepted_def next_ok_def [of l _ "(_, _)"] split: option.split)
  then show ?thesis using hub by simp
qed

lemma on_audio_ok:
  assumes "hub_still ce"
  shows "next_ok l (c_hub w) (on_audio ce actor l s rv ev w)"
proof -
  obtain w1 r where a: "svc_AcceptAudio (ce_env ce) actor ev w = (w1, r)" by (rule prod.exhaust)
  then have hub: "c_hub w1 = c_hub w" by (rule more_fields [OF svc_AcceptAudio_more])
  have "next_ok l (c_hub w1) (on_audio ce actor l s rv ev w)"
  proof (cases r)
    case (Inl e)
    then show ?thesis using a on_audio_error_ok by (simp add: on_audio_def)
  next
    case (Inr sd)
    obtain s' d where sd: "sd = (s', d)" by (rule prod.exhaust)
    show ?thesis
    proof (cases d)
      case FrameDuplicate
      then show ?thesis using a Inr sd on_audio_accepted_ok [OF assms] by (simp add: on_audio_def)
    next
      case FrameAccepted
      show ?thesis
      proof (cases "PCM ev")
        case (Inl e)
        then show ?thesis using a Inr sd FrameAccepted by (simp add: on_audio_def)
      next
        case pcm: (Inr pcm)
        obtain w2 u where p: "ctl_Push ce l \<lparr>pf_Sequence = ae_Sequence ev, pf_CapturedAtMS = ae_CapturedAtMS ev, pf_PCM = pcm\<rparr> w1
            = (w2, u)" by (rule prod.exhaust)
        then have own: "only_own l (c_hub w1) (c_hub w2)"
          unfolding ctl_Push_def by (elim hub_call_still [OF assms]) (metis fst_conv push_own)
        have "next_ok l (c_hub w2) (on_audio ce actor l s rv ev w)"
          using a Inr sd FrameAccepted pcm p give_up_ok [OF assms] on_audio_accepted_ok [OF assms]
          by (cases u) (simp_all add: on_audio_def)
        then show ?thesis by (rule next_ok_trans [OF own])
      qed
    qed
  qed
  then show ?thesis using hub by simp
qed

lemma on_finish_ok:
  assumes "hub_still ce"
  shows "next_ok l (c_hub w) (on_finish ce actor l s rv ev w)"
proof -
  obtain w1 r where a: "svc_BeginFinalization (ce_env ce) actor ev w = (w1, r)" by (rule prod.exhaust)
  then have hub: "c_hub w1 = c_hub w" by (rule more_fields [OF svc_transition_more(3)])
  have "next_ok l (c_hub w1) (on_finish ce actor l s rv ev w)"
  proof (cases r)
    case (Inl e)
    then show ?thesis using a by (simp add: on_finish_def)
  next
    case fin: (Inr fin)
    obtain w2 r2 where f: "ctl_Finish ce l w1 = (w2, r2)" by (rule prod.exhaust)
    then obtain c where lf: "lease_Finish (ce_provider ce) (c_hub w1) l c = (c_hub w2, r2)"
      unfolding ctl_Finish_def by (elim hub_call_still [OF assms])
    then have own: "only_own l (c_hub w1) (c_hub w2)" using finish_own by (metis fst_conv)
    show ?thesis
    proof (cases r2)
      case (Inl e)
      then show ?thesis using next_ok_trans [OF own] a fin f give_up_ok [OF assms] by (simp add: on_finish_def)
    next
      case (Inr res0)
      obtain res ok where n: "normalizeProviderResult res0 = (res, ok)" by (rule prod.exhaust)
      have closed: "owns l (c_hub w1) \<Longrightarrow> e_closed (entry_at (c_hub w2) (le_entry l))"
        using finish_closes lf Inr by metis
      obtain w3 r3 where c: "svc_Complete (ce_env ce) actor (s_ID fin) res w2 = (w3, r3)" by (rule prod.exhaust)
      then have hub3: "c_hub w3 = c_hub w2" by (rule more_fields [OF svc_transition_more(4)])
      have exit: "next_ok l (c_hub w1) (w', Exit e False)" if "c_hub w' = c_hub w2" for w' e
        using that own closed by (simp add: next_ok_def)
      have up: "next_ok l (c_hub w1) (give_up ce actor fin l code err w')" if "c_hub w' = c_hub w2" for w' code err
        using next_ok_trans [OF own] give_up_ok [OF assms, of l w'] that by simp
      show ?thesis
        using a fin f Inr n c hub3 exit up
        by (auto simp: on_finish_def split: prod.split sum.split option.split dest!: ctl_write_hub)
    qed
  qed
  then show ?thesis using hub by simp
qed

lemma ctl_event_ok:
  assumes "hub_still ce"
  shows "next_ok l (c_hub w) (ctl_event ce actor l s rv payload w)"
proof -
  have beat: "next_ok l (c_hub w) (on_heartbeat ce s rv w)"
  proof -
    obtain w1 now where n: "now_call (ce_env ce) w = (w1, now)" by (rule prod.exhaust)
    then have "c_hub w1 = c_hub w" by (rule more_fields [OF now_call_more])
    then show ?thesis using report_ok [of "Continue s rv" l w1] n by (simp add: on_heartbeat_def ctl_now_def)
  qed
  show ?thesis
    using beat report_ok [of "Continue s rv" l w ce] on_audio_ok [OF assms] on_finish_ok [OF assms]
    by (simp add: ctl_event_def Let_def split: sum.split ClientEvent.split)
qed

lemma ctl_loop_ok:
  assumes "hub_still ce" "ctl_loop ce actor l s rv inbox w = (w', err, interrupt)" "owns l (c_hub w)"
  shows "only_own l (c_hub w) (c_hub w') \<and> (\<not> interrupt \<longrightarrow> e_closed (entry_at (c_hub w') (le_entry l)))"
  using assms(2,3)
proof (induction inbox arbitrary: s rv w)
  case (Cons payload rest)
  obtain w1 n where e: "ctl_event ce actor l s rv payload w = (w1, n)" by (rule prod.exhaust)
  have ok: "next_ok l (c_hub w) (w1, n)" using ctl_event_ok [OF assms(1), of l w actor s rv payload] e by simp
  show ?case
  proof (cases n)
    case (Continue s' rv')
    have "owns l (c_hub w1)" using ok Cons.prems(2) by (simp add: next_ok_def only_own_def)
    then show ?thesis
      using Cons.IH [of s' rv' w1] Cons.prems e Continue ok only_own_trans by (auto simp: next_ok_def)
  next
    case (Exit e' i)
    then show ?thesis using Cons.prems e ok by (cases i) (auto simp: next_ok_def)
  qed
qed simp

lemma ctl_session_ok:
  assumes "hub_still ce" "owns l (c_hub w)" "s_ID s \<noteq> []" "ctl_session ce actor l s inbox w = (w', err)"
  shows "only_own l (c_hub w) (c_hub w') \<and> \<not> attached_at (c_hub w') (le_entry l)"
proof -
  obtain w1 r where wr: "ctl_write ce (readyEvent ce s) w = (w1, r)" by (rule prod.exhaust)
  note hub = ctl_write_hub [OF wr]
  obtain w2 e i where l: "(case r of Some e \<Rightarrow> (w1, Some e, True) | None \<Rightarrow> ctl_loop ce actor l s 0 inbox w1) = (w2, e, i)"
    by (metis prod.exhaust)
  then have w2: "only_own l (c_hub w) (c_hub w2) \<and> (\<not> i \<longrightarrow> e_closed (entry_at (c_hub w2) (le_entry l)))"
    using ctl_loop_ok [OF assms(1), of actor l s 0 inbox w1 w2 e i] assms(2) hub by (auto split: option.splits)
  then have "owns l (c_hub w2)" using assms(2) by (simp add: only_own_def)
  note ret = retain_releases [OF assms(1) this assms(3), of actor]
  have "w' = (if i then retainForReconnect ce actor (s_ID s) l w2 else w2)"
    using assms(4) wr l by (simp add: ctl_session_def split: option.splits)
  then show ?thesis using ret w2 by (cases i) (auto intro: only_own_trans dest: closed_not_attached)
qed


text \<open>Opening: at most the stream of the lease becomes attached.\<close>

definition grows :: "StreamLease \<Rightarrow> 'p StreamHub \<Rightarrow> 'p StreamHub \<Rightarrow> bool" where
  "grows l hub hub' \<longleftrightarrow> (\<forall>a. attached_at hub' a \<longrightarrow> attached_at hub a \<or> a = le_entry l)"

lemma release_grown:
  assumes "grows l hub hub1" "only_own l hub1 hub'" "\<not> attached_at hub' (le_entry l)" "attached_at hub' a"
  shows "attached_at hub a"
proof -
  have "a \<noteq> le_entry l" using assms(3,4) by auto
  moreover have "attached_at hub1 a" using assms(2,4) calculation by (auto simp: attached_at_def only_own_def)
  ultimately show ?thesis using assms(1) by (auto simp: grows_def)
qed

lemma hub_Start_insert_grows:
  assumes "hub_Start_insert hub s st = (hub', Inr l)"
  shows "grows l hub hub'" "owns l hub'"
  using assms
  by (auto simp: hub_Start_insert_def Let_def grows_def owns_def attached_at_def entry_at_def nth_append less_Suc_eq
      split: if_splits)

lemma hub_Resume_grows:
  assumes "hub_inv hub" "hub_Resume hub s now = (hub', Inr l)"
  shows "grows l hub hub'" "owns l hub'"
proof -
  obtain a where a: "map_of (h_streams hub) (s_ID s) = Some a"
    using assms(2) by (auto simp: hub_Resume_def split: if_splits option.splits)
  let ?n = "(e_lease (entry_at hub a) + 1) mod 18446744073709551616"
  have hub': "hub' = set_entry a ((entry_at hub a)\<lparr>e_lease := ?n, e_attached := True, e_reconnectBy := 0\<rparr>) hub"
    and l: "l = \<lparr>le_sessionID = s_ID s, le_lease = ?n, le_entry = a\<rparr>"
    using assms(2) a by (auto simp: hub_Resume_def Let_def split: if_splits)
  have "a < length (h_entries hub)" using assms(1) map_of_SomeD [OF a] by (auto simp: hub_inv_def)
  then show "grows l hub hub'" "owns l hub'"
    using hub' l by (auto simp: grows_def owns_def attached_at_def entry_at_set_entry)
qed

lemma refuse_hub: "refuse ce ev e w = (w', r) \<Longrightarrow> c_hub w' = c_hub w"
  by (auto simp: refuse_def dest!: ctl_write_hub split: prod.splits option.splits)

lemma refuse_hub_fst [simp]: "c_hub (fst (refuse ce ev e w)) = c_hub w"
  using refuse_hub by (metis prod.collapse)

lemma replay_hub: "replayCompleted ce s w = (w', r) \<Longrightarrow> c_hub w' = c_hub w"
  by (auto simp: replayCompleted_def Let_def dest!: ctl_write_hub split: prod.splits option.splits if_splits)

definition open_ok :: "'p StreamHub \<Rightarrow> 'p ctl_world \<times> (rt_error option + (Session \<times> StreamLease)) \<Rightarrow> bool" where
  "open_ok hub x \<longleftrightarrow> (case snd x of
       Inl _ \<Rightarrow> (\<forall>a. attached_at (c_hub (fst x)) a \<longrightarrow> attached_at hub a)
     | Inr (s, l) \<Rightarrow> grows l hub (c_hub (fst x)) \<and> owns l (c_hub (fst x)) \<and> s_ID s \<noteq> [])"

lemma open_ok_same: "c_hub w' = hub \<Longrightarrow> open_ok hub (w', Inl e)"
  by (simp add: open_ok_def)

lemma open_ok_refuse: "c_hub w = hub \<Longrightarrow> open_ok hub (map_prod id (Inl \<circ> Some) (refuse ce ev e w))"
  by (simp add: open_ok_def split: prod.split)

lemma canonicalUUID_nonempty: "canonicalUUID v \<Longrightarrow> v \<noteq> []"
  using canonicalUUID_plain(2) by fastforce

lemma open_start_ok:
  assumes "hub_still ce"
  shows "open_ok (c_hub w) (open_start ce actor ev w)"
proof -
  obtain w1 r where s: "svc_Start (ce_env ce) actor ev w = (w1, r)" by (rule prod.exhaust)
  then have h1: "c_hub w1 = c_hub w" by (rule more_fields [OF svc_Start_more])
  obtain w2 now where n: "now_call (ce_env ce) w1 = (w2, now)" by (rule prod.exhaust)
  then have h2: "c_hub w2 = c_hub w" using more_fields(1) [OF now_call_more [OF n]] h1 by simp
  have start: "open_ok (c_hub w) (case ctl_hub_Start ce started now w2 of
        (w, Inl _) \<Rightarrow> (failSession ce actor started None ''provider_unavailable'' w, Inl (Some ErrProviderStream))
      | (w, Inr lease) \<Rightarrow> (w, Inr (started, lease)))" for started
  proof -
    have fail: "open_ok (c_hub w) (failSession ce actor started None c w', Inl e)" if "c_hub w' = c_hub w" for w' c e
      using failSession_own(3) [OF assms] that by (simp add: open_ok_def)
    obtain w3 r3 where c: "hub_call ce (\<lambda>hub _ _. (hub, hub_Start_check hub started now)) w2 = (w3, r3)"
      by (rule prod.exhaust)
    then have h3: "c_hub w3 = c_hub w" "r3 = hub_Start_check (c_hub w) started now"
      using h2 by (elim hub_call_still [OF assms]; auto)+
    show ?thesis
    proof (cases r3)
      case (Some e)
      then show ?thesis using c fail h3 by (simp add: ctl_hub_Start_def)
    next
      case None
      then have id: "s_ID started \<noteq> []"
        using h3(2) canonicalUUID_nonempty by (auto simp: hub_Start_check_def split: if_splits)
      have ins: "open_ok (c_hub w) (case hub_call ce (\<lambda>hub _ _. hub_Start_insert hub started st) w3 of
            (w, Inl _) \<Rightarrow> (failSession ce actor started None ''provider_unavailable'' w, Inl (Some ErrProviderStream))
          | (w, Inr lease) \<Rightarrow> (w, Inr (started, lease)))" for st
      proof -
        obtain w4 r4 where i: "hub_call ce (\<lambda>hub _ _. hub_Start_insert hub started st) w3 = (w4, r4)" by (rule prod.exhaust)
        then have ins: "hub_Start_insert (c_hub w) started st = (c_hub w4, r4)"
          using h3(1) by (elim hub_call_still [OF assms]) simp
        show ?thesis
        proof (cases r4)
          case (Inl e)
          then have "c_hub w4 = c_hub w" using ins by (auto simp: hub_Start_insert_def Let_def split: if_splits)
          then show ?thesis using i Inl fail by simp
        next
          case (Inr l)
          then show ?thesis using i id hub_Start_insert_grows [of "c_hub w" started st "c_hub w4" l] ins by (simp add: open_ok_def)
        qed
      qed
      show ?thesis
        using c None fail [OF h3(1)] ins by (auto simp: ctl_hub_Start_def split: sum.split option.split)
    qed
  qed
  show ?thesis
    using s n start open_ok_refuse [OF h1]
    by (auto simp: open_start_def ctl_now_def split: sum.split prod.split)
qed

lemma svc_Get_id:
  assumes "svc_Get env actor sid w = (w', Inr s)"
  shows "s_ID s = sid" "canonicalUUID sid"
  using assms
  by (auto simp: svc_Get_def repo_Get_def db_call_def Let_def pg_Get_def find_row_def find_Some_iff
      split: if_splits sum.splits option.splits)

lemma svc_Resume_id:
  assumes "svc_Resume env actor ev w = (w', Inr s)"
  shows "s_ID s = re_SessionID ev"
proof -
  obtain w1 cur w2 now u act m where g: "svc_Get env actor (re_SessionID ev) w = (w1, Inr cur)"
    and r: "Resume cur ev now = Inr u" and sv: "saveTransition env (p_UserID actor) cur u act m w2 = (w', Inr s)"
    using assms by (auto simp: svc_Resume_def split: prod.splits sum.splits)
  have "s_ID u = re_SessionID ev" using r svc_Get_id(1) [OF g] by (elim ResumeE) simp
  moreover obtain fault clock e a db db' where "pg_Update fault clock e u a db = (db', Inr s)"
    using sv by (auto simp: saveTransition_def repo_Update_def db_call_def Let_def split: prod.splits sum.splits)
  then have "s_ID s = s_ID u" by (cases rule: pg_UpdateE) (auto simp: find_row_def find_Some_iff)
  ultimately show ?thesis by simp
qed

lemma open_resume_ok:
  assumes "hub_still ce" "hub_inv (c_hub w)"
  shows "open_ok (c_hub w) (open_resume ce actor ev w)"
proof -
  obtain w1 r where g: "svc_Get (ce_env ce) actor (re_SessionID ev) w = (w1, r)" by (rule prod.exhaust)
  then have h1: "c_hub w1 = c_hub w" by (rule more_fields [OF svc_Get_more])
  show ?thesis
  proof (cases r)
    case (Inl e)
    then show ?thesis using g open_ok_refuse [OF h1] by (simp add: open_resume_def)
  next
    case cur: (Inr cur)
    have id: "re_SessionID ev \<noteq> []" using svc_Get_id [OF g [unfolded cur]] canonicalUUID_nonempty by blast
    obtain w2 now where n: "now_call (ce_env ce) w1 = (w2, now)" by (rule prod.exhaust)
    then have h2: "c_hub w2 = c_hub w" using more_fields(1) [OF now_call_more [OF n]] h1 by simp
    obtain w3 r3 where c: "ctl_hub_Resume ce cur now w2 = (w3, r3)" by (rule prod.exhaust)
    then have res: "hub_Resume (c_hub w) cur now = (c_hub w3, r3)"
      using h2 unfolding ctl_hub_Resume_def by (elim hub_call_still [OF assms(1)]) simp
    have inter: "open_ok (c_hub w) (case (w3, r3) of
        (w, Inl _) \<Rightarrow> (failSession ce actor cur None ''stream_timeout'' w, Inl (Some ErrProviderStream))
      | (w, Inr lease) \<Rightarrow>
      case svc_Resume (ce_env ce) actor ev w of
        (w, Inl resumeErr) \<Rightarrow>
          map_prod id (Inl \<circ> Some)
            (refuse ce (protocolError resumeErr cur) resumeErr (releaseResumeLease ce lease cur w))
      | (w, Inr resumed) \<Rightarrow> (w, Inr (resumed, lease)))"
    proof (cases r3)
      case (Inl e)
      then have "c_hub w3 = c_hub w" using res by (auto simp: hub_Resume_def Let_def split: if_splits option.splits)
      then show ?thesis using Inl failSession_own(3) [OF assms(1)] by (simp add: open_ok_def)
    next
      case (Inr l)
      note grow = hub_Resume_grows [OF assms(2) res [unfolded Inr]]
      obtain w4 r4 where rs: "svc_Resume (ce_env ce) actor ev w3 = (w4, r4)" by (rule prod.exhaust)
      then have h4: "c_hub w4 = c_hub w3" by (rule more_fields [OF svc_transition_more(2)])
      show ?thesis
      proof (cases r4)
        case (Inl e)
        have "owns l (c_hub w4)" using grow(2) h4 by simp
        note rel = release_releases [OF assms(1) this, of cur]
        have "attached_at (c_hub w) a" if "attached_at (c_hub (releaseResumeLease ce l cur w4)) a" for a
          using release_grown [OF grow(1)] rel h4 that by metis
        then show ?thesis using Inr Inl rs by (simp add: open_ok_def split: prod.split)
      next
        case res': (Inr resumed)
        then show ?thesis using Inr rs grow h4 id svc_Resume_id [OF rs [unfolded res']] by (simp add: open_ok_def)
      qed
    qed
    have replay: "open_ok (c_hub w) (map_prod id Inl (replayCompleted ce cur w1))"
      using replay_hub [of ce cur w1] h1 by (cases "replayCompleted ce cur w1") (simp add: open_ok_def)
    show ?thesis
      unfolding open_resume_def g cur prod.case sum.case ctl_now_def n c
      using open_ok_refuse [OF h1] replay inter by auto
  qed
qed

lemma Serve_release:
  assumes "hub_still ce" "hub_inv (c_hub w)" "Serve ce actor inbox w = (w', err)" "attached_at (c_hub w') a"
  shows "attached_at (c_hub w) a"
proof (cases "ce_heartbeat ce \<le> 0 \<or> inbox = []")
  case True
  then show ?thesis using assms(3,4) by (auto simp: Serve_def split: if_splits)
next
  case False
  then obtain payload rest where inbox: "inbox = payload # rest" by (cases inbox) auto
  obtain w1 r where o: "ctl_open ce actor payload w = (w1, r)" by (rule prod.exhaust)
  have ok: "open_ok (c_hub w) (w1, r)"
    using o [symmetric] open_start_ok [OF assms(1), of w actor] open_resume_ok [OF assms(1,2), of actor]
      open_ok_refuse [of w "c_hub w" ce]
    by (simp add: ctl_open_def split: sum.split ClientEvent.split)
  have serve: "(case r of Inl e \<Rightarrow> (w1, e) | Inr (s, l) \<Rightarrow> ctl_session ce actor l s rest w1) = (w', err)"
    using assms(3) False inbox o by (simp add: Serve_def split: sum.splits)
  show ?thesis
  proof (cases r)
    case (Inl e)
    then show ?thesis using ok serve assms(4) by (simp add: open_ok_def)
  next
    case (Inr sl)
    obtain s l where "sl = (s, l)" by (rule prod.exhaust)
    then have sl: "r = Inr (s, l)" using Inr by simp
    have o: "grows l (c_hub w) (c_hub w1)" "owns l (c_hub w1)" "s_ID s \<noteq> []" using ok sl by (auto simp: open_ok_def)
    have "ctl_session ce actor l s rest w1 = (w', err)" using serve sl by simp
    from ctl_session_ok [OF assms(1) o(2,3) this] show ?thesis using release_grown [OF o(1)] assms(4) by blast
  qed
qed

lemma normalize_idem:
  "normalizeProviderResult r = (r', True) \<Longrightarrow> normalizeProviderResult r' = (r', True)"
  by (auto simp: normalizeProviderResult_def Let_def)

subsection \<open>What a snapshot says about the store\<close>

lemma terminal_no_step:
  assumes "session_step s fs s'"
  shows "\<not> terminalState (s_State s)"
  using assms by (cases rule: session_step.cases) (auto simp: terminalState_def elim!: transition_elims)

lemma rt_run_good: "rt_run db held log n \<Longrightarrow> pg.good_snapshots held db"
proof (induction rule: rt_run.induct)
  case (init db)
  then show ?case by (simp add: pg.good_snapshots_def)
next
  case (read db held log n fault w i s)
  note wf = rt_run_wf [OF read(1)]
  obtain row where "find_row w i db = Some row" "s = scanSession row"
    using read(2) by (auto simp: pg_Get_def split: if_splits option.splits)
  then show ?case using read(3) store_get_row [OF wf] pg.good_read find_row_iff [OF wf] by auto
next
  case (create db held log n p s fault h audit db' r)
  note wf = rt_run_wf [OF create(1)]
  from create(4) show ?case
  proof (cases rule: pg_Create_insertE)
    case (replayed existing)
    then obtain row where "row \<in> set (db_sessions db)" "existing = scanSession row" by (auto elim: load_SomeD)
    then show ?thesis using replayed store_get_row [OF wf] pg.good_read [OF create(5)] by auto
  next
    case inserted
    note ins = inserted_row [OF wf inserted(1-4)]
    have n: "store_get db (session_key s) = None"
      using inserted(3) by (force simp: store_get_def session_key_def find_row_def find_None_iff)
    have "pg.good_snapshots held db'" using create(5) n unfolding pg.good_snapshots_def ins(2) by force
    moreover have "store_get db' (session_key (scanSession (new_row s h))) = Some (scanSession (new_row s h))"
      by (rule store_get_row [OF ins(1)]) (simp add: inserted(1))
    ultimately show ?thesis using inserted(5) pg.good_read by auto
  qed (use create(5) in auto)
next
  case (update db held log n cur fs s fault clock audit db' r log')
  then have "store_update (s_Version cur) s db db' r" by (auto simp: store_update_def)
  then show ?case by (rule pg.good_update [OF rt_run_wf [OF update(1)] update(6)])
next
  case (other db held log n db')
  then show ?case using good_snapshots_cong [OF store_get_sessions] by metis
qed

text \<open>A snapshot in a final state is what is stored, for ever.\<close>

lemma held_terminal:
  "rt_run db held log n \<Longrightarrow> s \<in> held \<Longrightarrow> terminalState (s_State s) \<Longrightarrow> store_get db (session_key s) = Some s"
proof (induction arbitrary: s rule: rt_run.induct)
  case (read db held log n fault w i s0)
  note wf = rt_run_wf [OF read(1)]
  obtain row where "find_row w i db = Some row" "s0 = scanSession row"
    using read(2) by (auto simp: pg_Get_def split: if_splits option.splits)
  then show ?case using read store_get_row [OF wf] find_row_iff [OF wf] by auto
next
  case (create db held log n p s0 fault h audit db' r)
  note wf = rt_run_wf [OF create(1)]
  from create(4) show ?case
  proof (cases rule: pg_Create_insertE)
    case (replayed existing)
    then obtain row where "row \<in> set (db_sessions db)" "existing = scanSession row" by (auto elim: load_SomeD)
    then show ?thesis using replayed create(5-7) store_get_row [OF wf] by auto
  next
    case inserted
    note ins = inserted_row [OF wf inserted(1-4)]
    have new: "store_get db' (session_key (scanSession (new_row s0 h))) = Some (scanSession (new_row s0 h))"
      by (rule store_get_row [OF ins(1)]) (simp add: inserted(1))
    have n: "store_get db (session_key s0) = None"
      using inserted(3) by (force simp: store_get_def session_key_def find_row_def find_None_iff)
    show ?thesis
    proof (cases "s \<in> held")
      case True
      then show ?thesis using create(5) [OF True create(7)] n ins(2) by auto
    next
      case False
      then have "s = scanSession (new_row s0 h)" using create(6) inserted(5) by auto
      then show ?thesis using new by simp
    qed
  qed (use create(5-7) in auto)
next
  case (update db held log n cur fs s0 fault clock audit db' r log')
  note wf = rt_run_wf [OF update(1)] and good = rt_run_good [OF update(1)]
  have u: "store_update (s_Version cur) s0 db db' r" using update(4) by (auto simp: store_update_def)
  have key: "session_key s0 = session_key cur" using step_fixed [OF update(3)] by (simp add: session_key_def)
  show ?case
  proof (cases "s \<in> held")
    case True
    then have old: "store_get db (session_key s) = Some s" using update by blast
    show ?thesis
    proof (cases "store_get db' (session_key s) = store_get db (session_key s)")
      case False
      then have "session_key s = session_key cur" using pg.update_frame [OF wf u] key by metis
      then have "store_get db (session_key s) = Some cur"
        using pg.update_replaces_snapshot [OF wf good update(2) key u] False by simp
      then have "cur = s" using old by simp
      then show ?thesis using terminal_no_step [OF update(3)] update.prems(2) by simp
    qed (use old in simp)
  next
    case False
    then have "r = Inr s" using update.prems(1) by (auto split: sum.splits)
    then show ?thesis using pg.update_result [OF wf] u by metis
  qed
next
  case (other db held log n db')
  then show ?case using store_get_sessions by metis
qed simp

text \<open>A snapshot accounts for a prefix of the stored frames of its session.\<close>

lemma row_prefix:
  assumes "rows_inv db log n" "row \<in> set (db_sessions db)" "s = scanSession row"
  shows "\<exists>k frames. k \<le> n \<and> session_inv k s frames \<and> prefix frames (log (s_ID s))"
proof -
  obtain k where "k \<le> n" "session_inv k s (log (s_ID s))" using assms by (auto simp: rows_inv_def)
  then show ?thesis by blast
qed

lemma held_prefix:
  "rt_run db held log n \<Longrightarrow> n \<le> 2 ^ 46 \<Longrightarrow> s \<in> held \<Longrightarrow> \<exists>k frames. k \<le> n \<and> session_inv k s frames \<and> prefix frames (log (s_ID s))"
proof (induction arbitrary: s rule: rt_run.induct)
  case (read db held log n fault w i s0)
  note inv = rt_run_inv [OF read(1,4)]
  obtain row where "find_row w i db = Some row" "s0 = scanSession row"
    using read(2) by (auto simp: pg_Get_def split: if_splits option.splits)
  then have "row \<in> set (db_sessions db)" "s0 = scanSession row" using inv by (auto simp: find_row_iff)
  then have "\<exists>k frames. k \<le> n \<and> session_inv k s0 frames \<and> prefix frames (log (s_ID s0))"
    using inv row_prefix by blast
  then show ?case using read by auto
next
  case (create db held log n p s0 fault h audit db' r)
  show ?case
  proof (cases "s \<in> held")
    case False
    then obtain x where x: "r = Inr (s, x)" using create.prems(2) by (auto split: sum.splits)
    note inv' = rt_run_inv [OF rt_run.create [OF create(1-4)] create.prems(1)]
    have "\<exists>row\<in>set (db_sessions db'). s = scanSession row"
      using create(4) by (cases rule: pg_Create_insertE) (use x in \<open>auto elim: load_SomeD\<close>)
    then show ?thesis using inv' row_prefix by blast
  qed (use create in auto)
next
  case (update db held log n cur fs s0 fault clock audit db' r log')
  have mono: "prefix (log i) (log' i)" for i using update(5) by auto
  show ?case
  proof (cases "s \<in> held")
    case True
    then show ?thesis using update.IH update.prems(1) mono [of "s_ID s"] by (meson Suc_leD le_SucI prefix_order.trans)
  next
    case False
    then have r: "r = Inr s" using update.prems(2) by (auto split: sum.splits)
    note run' = rt_run.update [OF update(1-5)]
    note inv' = rt_run_inv [OF run' update.prems(1)]
    have "store_update (s_Version cur) s0 db db' r" using update(4) by (auto simp: store_update_def)
    then have "store_get db' (session_key s0) = Some s" using pg.update_result [OF rt_run_wf [OF update(1)]] r by metis
    then obtain row where "row \<in> set (db_sessions db')" "s = scanSession row"
      using inv' by (auto simp: store_get_def find_row_iff)
    then show ?thesis using inv' row_prefix by blast
  qed
qed simp_all

subsection \<open>What the controller says is backed by the store\<close>

type_synonym run_state = "Session set \<times> (string \<Rightarrow> (int \<times> int \<times> bytes) list)"

fun backed :: "principal \<Rightarrow> run_state \<Rightarrow> ServerEvent \<Rightarrow> bool" where
  "backed actor a (AckEvent sid k received) =
     (\<exists>s\<in>fst a. s_ID s = sid \<and> AcknowledgedSequence s = k \<and> s_ReceivedBytes s = received)"
| "backed actor a (FinalTranscriptEvent sid txt lang prov) =
     (\<exists>s\<in>fst a. s_ID s = sid \<and> s_WorkspaceID s = p_WorkspaceID actor \<and> s_State s = StateCompleted \<and>
       normalizeProviderResult \<lparr>pr_Text = s_FinalTranscript s, pr_Language = s_FinalLanguage s,
          pr_ProviderID = s_FinalProviderID s\<rparr> = (\<lparr>pr_Text = txt, pr_Language = lang, pr_ProviderID = prov\<rparr>, True))"
| "backed actor a _ = True"

definition serving :: "principal \<Rightarrow> run_state \<Rightarrow> 'p ctl_world \<Rightarrow> bool" where
  "serving actor a w \<longleftrightarrow> running w a \<and> list_all (backed actor a) (c_sent w)"

lemma backed_mono: "extends a b \<Longrightarrow> backed actor a ev \<Longrightarrow> backed actor b ev"
  by (cases ev) (auto dest: extends_held)

lemma sent_mono: "extends a b \<Longrightarrow> list_all (backed actor a) evs \<Longrightarrow> list_all (backed actor b) evs"
  using backed_mono by (auto simp: list_all_iff)

text \<open>An operation keeps the connection in step with some run.\<close>

definition moves :: "principal \<Rightarrow> run_state \<Rightarrow> 'p ctl_world \<Rightarrow> bool" where
  "moves actor a w \<longleftrightarrow> (\<exists>b. extends a b \<and> serving actor b w)"

lemma movesI: "extends a b \<Longrightarrow> serving actor b w \<Longrightarrow> moves actor a w"
  unfolding moves_def by blast

lemma moves_refl: "serving actor a w \<Longrightarrow> moves actor a w"
  by (rule movesI [OF extends_refl])

lemma moves_trans: "moves actor a w \<Longrightarrow> (\<And>b. extends a b \<Longrightarrow> serving actor b w \<Longrightarrow> moves actor b w') \<Longrightarrow> moves actor a w'"
  unfolding moves_def using extends_trans by blast

lemma moves_extend: "extends a b \<Longrightarrow> moves actor b w \<Longrightarrow> moves actor a w"
  unfolding moves_def using extends_trans by blast

lemma svc_running:
  assumes "serving actor a w" "world.more w' = world.more w" "extends a b" "running w' b"
  shows "serving actor b w'"
  using assms more_fields(2) [OF assms(2)] sent_mono by (auto simp: serving_def)

lemma serving_svcE:
  assumes "legal_env env" "request_ok req" "serving actor a w" "svc_handle env actor req w = (w', r)"
  obtains b where "extends a b" "serving actor b w'"
    "\<And>s. r = Inr s \<Longrightarrow> s \<in> fst b \<and> s_WorkspaceID s = p_WorkspaceID actor"
proof -
  have more: "world.more w' = world.more w"
    using assms(4) by (cases req) (auto simp: map_prod_def dest!: more_frames accept_more split: prod.splits)
  have "legal_result actor a (w', r)"
    using handle_legal [OF assms(1,2), of w a actor] assms(3,4) by (simp add: serving_def)
  then obtain b where b: "extends a b" "running w' b"
    "\<forall>s. r = Inr s \<longrightarrow> s \<in> fst b \<and> s_WorkspaceID s = p_WorkspaceID actor"
    unfolding legal_result_def fst_conv snd_conv by blast
  show thesis using that [OF b(1) svc_running [OF assms(3) more b(1,2)]] b(3) by blast
qed

lemma serving_write: "serving actor a w \<Longrightarrow> backed actor a ev \<Longrightarrow> ctl_write ce ev w = (w', r) \<Longrightarrow> serving actor a w'"
  by (auto simp: ctl_write_def serving_def running_def split: sum.splits if_splits)

lemma serving_now: "serving actor a w \<Longrightarrow> now_call env w = (w', r) \<Longrightarrow> serving actor a w'"
  by (auto simp: now_call_def serving_def running_def)

lemma serving_hub: "serving actor a w \<Longrightarrow> hub_call ce f w = (w', r) \<Longrightarrow> serving actor a w'"
  by (auto simp: hub_call_def Let_def serving_def running_def split: prod.splits)

lemma serving_Close: "serving actor a w \<Longrightarrow> serving actor a (ctl_Close ce l w)"
  unfolding ctl_Close_def using serving_hub by (metis prod.collapse)

lemma backed_protocolError [simp]: "backed actor a (protocolError e s)"
  by (simp add: protocolError_def Let_def split: rt_error.split)

lemma backed_ready [simp]: "backed actor a (readyEvent ce s)"
  by (simp add: readyEvent_def)

lemma write_moves: "serving actor a w \<Longrightarrow> backed actor a ev \<Longrightarrow> serving actor a (fst (ctl_write ce ev w))"
  using serving_write by (metis prod.collapse)

lemma refuse_moves: "serving actor a w \<Longrightarrow> backed actor a ev \<Longrightarrow> serving actor a (fst (refuse ce ev e w))"
  using write_moves [of actor a w ev ce] by (cases "ctl_write ce ev w") (simp add: refuse_def split: option.split)

lemma report_moves: "serving actor a w \<Longrightarrow> backed actor a ev \<Longrightarrow> serving actor a (fst (report ce ev n w))"
  using write_moves [of actor a w ev ce] by (cases "ctl_write ce ev w") (simp add: report_def split: option.split)

lemma failSession_moves:
  assumes "legal_env (ce_env ce)" "serving actor a w"
  shows "moves actor a (failSession ce actor s l code w)"
proof -
  obtain w1 r where f: "svc_Fail (ce_env ce) actor (s_ID s) code w = (w1, r)" by (rule prod.exhaust)
  have "svc_handle (ce_env ce) actor (ReqFail (s_ID s) code) w = (w1, r)" using f by simp
  from serving_svcE [OF assms(1) _ assms(2) this] obtain b where b: "extends a b" "serving actor b w1"
    unfolding request_ok.simps by blast
  have "serving actor b (failSession ce actor s l code w)"
    using b(2) f serving_Close [OF b(2)] by (simp add: failSession_def Let_def write_moves split: option.split)
  then show ?thesis by (rule movesI [OF b(1)])
qed

lemma give_up_moves:
  "legal_env (ce_env ce) \<Longrightarrow> serving actor a w \<Longrightarrow> moves actor a (fst (give_up ce actor s l code e w))"
  by (simp add: give_up_def failSession_moves)

lemma detach_close_serving:
  "serving actor a w \<Longrightarrow> serving actor a (case ctl_Detach ce l t w of (w, None) \<Rightarrow> w | (w, Some _) \<Rightarrow> ctl_Close ce l w)"
proof -
  assume a: "serving actor a w"
  obtain w1 r where d: "ctl_Detach ce l t w = (w1, r)" by (rule prod.exhaust)
  then have "serving actor a w1" unfolding ctl_Detach_def by (rule serving_hub [OF a])
  then show ?thesis using d serving_Close by (cases r) simp_all
qed

lemma retain_moves:
  assumes "legal_env (ce_env ce)" "serving actor a w"
  shows "moves actor a (retainForReconnect ce actor sid l w)"
proof -
  obtain w1 r where f: "svc_Interrupt (ce_env ce) actor sid w = (w1, r)" by (rule prod.exhaust)
  have "svc_handle (ce_env ce) actor (ReqInterrupt sid) w = (w1, r)" using f by simp
  from serving_svcE [OF assms(1) _ assms(2) this] obtain b where b: "extends a b" "serving actor b w1"
    unfolding request_ok.simps by blast
  have "moves actor a w" by (rule moves_refl [OF assms(2)])
  moreover have "serving actor b (case s_ReconnectBy i of None \<Rightarrow> ctl_Close ce l w1
      | Some t \<Rightarrow> (case ctl_Detach ce l t w1 of (w, None) \<Rightarrow> w | (w, Some _) \<Rightarrow> ctl_Close ce l w))" for i
    using serving_Close [OF b(2)] detach_close_serving [OF b(2)] by (simp split: option.split)
  ultimately show ?thesis
    using f serving_Close [OF b(2)] by (cases r) (auto simp: retainForReconnect_def intro: movesI [OF b(1)])
qed

lemma release_serving: "serving actor a w \<Longrightarrow> serving actor a (releaseResumeLease ce l s w)"
  using serving_Close [of actor a w ce l] detach_close_serving [of actor a w ce l]
  by (cases "s_ReconnectBy s") (simp_all add: releaseResumeLease_def)


lemma on_audio_error_moves:
  assumes "legal_env (ce_env ce)" "serving actor a w"
  shows "moves actor a (fst (on_audio_error ce actor s rv e w))"
proof -
  obtain w1 r where f: "svc_Get (ce_env ce) actor (s_ID s) w = (w1, r)" by (rule prod.exhaust)
  have "svc_handle (ce_env ce) actor (ReqGet (s_ID s)) w = (w1, r)" using f by simp
  from serving_svcE [OF assms(1) _ assms(2) this] obtain b where b: "extends a b" "serving actor b w1"
    unfolding request_ok.simps by blast
  show ?thesis
    unfolding on_audio_error_def f prod.case Let_def by (rule movesI [OF b(1) report_moves [OF b(2)]]) simp
qed

lemma on_audio_accepted_moves:
  assumes "legal_env (ce_env ce)" "serving actor a w" "s \<in> fst a"
  shows "moves actor a (fst (on_audio_accepted ce actor l rv ev s u w))"
proof -
  let ?ack = "AckEvent (s_ID s) (AcknowledgedSequence s) (s_ReceivedBytes s)"
  obtain w1 r where wr: "ctl_write ce ?ack w = (w1, r)" by (rule prod.exhaust)
  have "backed actor a ?ack" using assms(3) by auto
  from serving_write [OF assms(2) this wr] have w1: "serving actor a w1" .
  have partial: "moves actor a (fst (report ce (PartialTranscriptEvent i x y z) n w1))" for i x y z n
    by (rule moves_refl [OF report_moves [OF w1]]) simp
  show ?thesis
    using wr moves_refl [OF w1] partial give_up_moves [OF assms(1) w1]
    by (simp add: on_audio_accepted_def split: option.split)
qed

lemma accept_serving:
  assumes "legal_env env" "in_i64 (ae_CapturedAtMS ev)" "serving actor a w" "svc_AcceptAudio env actor ev w = (w', r)"
  obtains b where "extends a b" "serving actor b w'" "\<And>s d. r = Inr (s, d) \<Longrightarrow> s \<in> fst b"
proof -
  have h: "svc_handle env actor (ReqAudio ev) w = (w', map_sum id fst r)" using assms(4) by simp
  show thesis
    by (rule serving_svcE [OF assms(1) _ assms(3) h]) (use assms(2) that in auto)
qed

lemma on_audio_moves:
  assumes "legal_env (ce_env ce)" "serving actor a w" "in_i64 (ae_CapturedAtMS ev)"
  shows "moves actor a (fst (on_audio ce actor l s rv ev w))"
proof -
  obtain w1 r where f: "svc_AcceptAudio (ce_env ce) actor ev w = (w1, r)" by (rule prod.exhaust)
  from accept_serving [OF assms(1,3,2) f] obtain b where b: "extends a b" "serving actor b w1"
    "\<And>s d. r = Inr (s, d) \<Longrightarrow> s \<in> fst b" by blast
  have push: "serving actor b w2" if "ctl_Push ce l p w1 = (w2, u)" for p w2 u
    using that unfolding ctl_Push_def by (rule serving_hub [OF b(2)])
  have "moves actor b (fst (on_audio ce actor l s rv ev w))"
  proof (cases r)
    case (Inl e)
    then show ?thesis using f on_audio_error_moves [OF assms(1) b(2)] by (simp add: on_audio_def)
  next
    case (Inr sd)
    obtain s' d where sd: "sd = (s', d)" by (rule prod.exhaust)
    have held: "s' \<in> fst b" using b(3) Inr sd by simp
    have err: "moves actor b (fst (report ce (protocolError e s') n w1))" for e n
      by (rule moves_refl [OF report_moves [OF b(2)]]) simp
    show ?thesis
    proof (cases d)
      case FrameDuplicate
      then show ?thesis
        using f Inr sd on_audio_accepted_moves [OF assms(1) b(2) held] by (simp add: on_audio_def)
    next
      case acc: FrameAccepted
      show ?thesis
      proof (cases "PCM ev")
        case (Inl e)
        then show ?thesis using f Inr sd acc err by (simp add: on_audio_def \<open>r = Inr sd\<close>)
      next
        case pcm: (Inr pcm)
        obtain w2 u where p: "ctl_Push ce l \<lparr>pf_Sequence = ae_Sequence ev, pf_CapturedAtMS = ae_CapturedAtMS ev, pf_PCM = pcm\<rparr> w1
            = (w2, u)" by (rule prod.exhaust)
        note w2 = push [OF p]
        show ?thesis
          using f Inr sd acc pcm p give_up_moves [OF assms(1) w2] on_audio_accepted_moves [OF assms(1) w2 held]
          by (cases u) (simp_all add: on_audio_def)
      qed
    qed
  qed
  then show ?thesis by (rule moves_extend [OF b(1)])
qed

lemma saved_fields:
  assumes "saveTransition env i cur u act m w = (w', Inr s)"
  shows "s_State s = s_State u" "s_FinalTranscript s = s_FinalTranscript u" "s_FinalLanguage s = s_FinalLanguage u"
    "s_FinalProviderID s = s_FinalProviderID u"
proof -
  obtain fault clock e a db db' where "pg_Update fault clock e u a db = (db', Inr s)"
    using assms by (auto simp: saveTransition_def repo_Update_def db_call_def Let_def split: prod.splits sum.splits)
  then have "\<exists>row. s = scanSession (updated_row clock u row)" by (cases rule: pg_UpdateE) auto
  then show "s_State s = s_State u" "s_FinalTranscript s = s_FinalTranscript u" "s_FinalLanguage s = s_FinalLanguage u"
    "s_FinalProviderID s = s_FinalProviderID u"
    by (auto simp: scanSession_def updated_row_def)
qed

lemma svc_Complete_fields:
  assumes "svc_Complete env actor sid res w = (w', Inr s)"
  obtains r where "normalizeProviderResult res = (r, True)" "s_State s = StateCompleted" "s_FinalTranscript s = pr_Text r"
    "s_FinalLanguage s = pr_Language r" "s_FinalProviderID s = pr_ProviderID r"
proof -
  obtain cur now u act m w2 where c: "Complete cur res now = Inr u"
    and sv: "saveTransition env (p_UserID actor) cur u act m w2 = (w', Inr s)"
    using assms by (auto simp: svc_Complete_def split: prod.splits sum.splits)
  from c obtain r where "normalizeProviderResult res = (r, True)" "s_State u = StateCompleted"
    "s_FinalTranscript u = pr_Text r" "s_FinalLanguage u = pr_Language r" "s_FinalProviderID u = pr_ProviderID r"
    by (elim CompleteE) auto
  then show thesis using that saved_fields [OF sv] by simp
qed

lemma on_finish_moves:
  assumes "legal_env (ce_env ce)" "serving actor a w" "in_i64 (fe_CapturedDurationMS ev)"
  shows "moves actor a (fst (on_finish ce actor l s rv ev w))"
proof -
  obtain w1 r where f: "svc_BeginFinalization (ce_env ce) actor ev w = (w1, r)" by (rule prod.exhaust)
  have h: "svc_handle (ce_env ce) actor (ReqFinalize ev) w = (w1, r)" "request_ok (ReqFinalize ev)" using f assms(3) by simp_all
  from serving_svcE [OF assms(1) h(2) assms(2) h(1)] obtain b where b: "extends a b" "serving actor b w1" by blast
  have "moves actor b (fst (on_finish ce actor l s rv ev w))"
  proof (cases r)
    case (Inl e)
    have "moves actor b (fst (report ce (protocolError e s) n w1))" for n
      by (rule moves_refl [OF report_moves [OF b(2)]]) simp
    then show ?thesis using f Inl by (simp add: on_finish_def)
  next
    case fin: (Inr fin)
    obtain w2 r2 where f2: "ctl_Finish ce l w1 = (w2, r2)" by (rule prod.exhaust)
    then have w2: "serving actor b w2" unfolding ctl_Finish_def by (rule serving_hub [OF b(2)])
    note up = give_up_moves [OF assms(1)]
    show ?thesis
    proof (cases r2)
      case (Inl e)
      then show ?thesis using f fin f2 up [OF w2] by (simp add: on_finish_def)
    next
      case (Inr res0)
      obtain res ok where n: "normalizeProviderResult res0 = (res, ok)" by (rule prod.exhaust)
      obtain w3 r3 where c: "svc_Complete (ce_env ce) actor (s_ID fin) res w2 = (w3, r3)" by (rule prod.exhaust)
      have h3: "svc_handle (ce_env ce) actor (ReqComplete (s_ID fin) res) w2 = (w3, r3)" using c by simp
      from serving_svcE [OF assms(1) _ w2 h3] obtain d where d: "extends b d" "serving actor d w3"
        "\<And>s. r3 = Inr s \<Longrightarrow> s \<in> fst d \<and> s_WorkspaceID s = p_WorkspaceID actor"
        unfolding request_ok.simps by blast
      have "moves actor d (fst (on_finish ce actor l s rv ev w)) \<or> \<not> ok"
      proof (cases r3)
        case (Inl e)
        then show ?thesis using f fin f2 Inr n c up [OF d(2)] by (simp add: on_finish_def)
      next
        case cmp: (Inr s')
        obtain q where q: "normalizeProviderResult res = (q, True)" "s_State s' = StateCompleted"
          "s_FinalTranscript s' = pr_Text q" "s_FinalLanguage s' = pr_Language q" "s_FinalProviderID s' = pr_ProviderID q"
          using svc_Complete_fields [OF c [unfolded cmp]] by blast
        have final: "backed actor d (FinalTranscriptEvent (s_ID s') (pr_Text res) (pr_Language res) (pr_ProviderID res))"
          if ok
        proof -
          have "q = res" using normalize_idem [of res0 res] n q(1) that by simp
          then show ?thesis using q d(3) [OF cmp] by (cases res) (auto intro!: bexI [of _ s'])
        qed
        let ?final = "FinalTranscriptEvent (s_ID s') (pr_Text res) (pr_Language res) (pr_ProviderID res)"
        obtain w4 e4 where 4: "ctl_write ce ?final w3 = (w4, e4)" by (rule prod.exhaust)
        have w4: "serving actor d w4" if ok using serving_write [OF d(2) final [OF that] 4] .
        obtain w5 e5 where 5: "ctl_write ce (ClosedEvent (s_ID s') ''completed'') w4 = (w5, e5)" by (rule prod.exhaust)
        have w5: "serving actor d w5" if ok using serving_write [OF w4 [OF that] _ 5] by simp
        show ?thesis
          using f fin f2 Inr n c cmp 4 5 moves_refl [OF w4] moves_refl [OF w5]
          by (cases e4) (auto simp: on_finish_def)
      qed
      moreover have "moves actor b (fst (on_finish ce actor l s rv ev w))" if "\<not> ok"
        using that f fin f2 Inr n up [OF w2] by (simp add: on_finish_def)
      ultimately show ?thesis using moves_extend [OF d(1)] by blast
    qed
  qed
  then show ?thesis by (rule moves_extend [OF b(1)])
qed

lemma event_integers:
  assumes "DecodeClientEvent payload = Inr ev"
  shows "ev = ClientAudio e \<Longrightarrow> in_i64 (ae_CapturedAtMS e)" "ev = ClientFinish f \<Longrightarrow> in_i64 (fe_CapturedDurationMS f)"
  using DecodeClientEvent_ok [OF assms] by auto

lemma ctl_event_moves:
  assumes "legal_env (ce_env ce)" "serving actor a w"
  shows "moves actor a (fst (ctl_event ce actor l s rv payload w))"
proof (cases "DecodeClientEvent payload")
  case (Inr ev)
  note ints = event_integers [OF Inr]
  have err: "moves actor a (fst (report ce (protocolError e s) n w))" for e n
    by (rule moves_refl [OF report_moves [OF assms(2)]]) simp
  have beat: "moves actor a (fst (on_heartbeat ce s rv w))"
  proof -
    obtain w1 now where n: "now_call (ce_env ce) w = (w1, now)" by (rule prod.exhaust)
    show ?thesis
      unfolding on_heartbeat_def ctl_now_def n prod.case
      by (rule moves_refl [OF report_moves [OF serving_now [OF assms(2) n]]]) simp
  qed
  show ?thesis
    using Inr err beat on_audio_moves [OF assms] on_finish_moves [OF assms] ints
    by (auto simp: ctl_event_def Let_def split: ClientEvent.split)
next
  case (Inl e)
  have "moves actor a (fst (report ce (protocolError ErrInvalidEvent s) n w))" for n
    by (rule moves_refl [OF report_moves [OF assms(2)]]) simp
  then show ?thesis using Inl by (simp add: ctl_event_def Let_def)
qed

lemma ctl_loop_moves:
  assumes "legal_env (ce_env ce)" "serving actor a w"
  shows "moves actor a (fst (ctl_loop ce actor l s rv inbox w))"
  using assms(2)
proof (induction inbox arbitrary: s rv w a)
  case (Cons payload rest)
  obtain w1 n where e: "ctl_event ce actor l s rv payload w = (w1, n)" by (rule prod.exhaust)
  have "moves actor a w1" using ctl_event_moves [OF assms(1) Cons.prems, of l s rv payload] e by simp
  then show ?case
  proof (rule moves_trans)
    fix b assume b: "serving actor b w1"
    show "moves actor b (fst (ctl_loop ce actor l s rv (payload # rest) w))"
      using e Cons.IH [OF b] moves_refl [OF b] by (cases n) auto
  qed
qed (simp add: moves_refl)

lemma ctl_session_moves:
  assumes "legal_env (ce_env ce)" "serving actor a w"
  shows "moves actor a (fst (ctl_session ce actor l s inbox w))"
proof -
  obtain w1 r where wr: "ctl_write ce (readyEvent ce s) w = (w1, r)" by (rule prod.exhaust)
  have w1: "serving actor a w1" using serving_write [OF assms(2) _ wr] by simp
  obtain w2 e i where l: "(case r of Some e \<Rightarrow> (w1, Some e, True) | None \<Rightarrow> ctl_loop ce actor l s 0 inbox w1) = (w2, e, i)"
    by (metis prod.exhaust)
  then have "moves actor a w2"
    using ctl_loop_moves [OF assms(1) w1, of l s 0 inbox] moves_refl [OF w1] by (cases r) simp_all
  moreover have "fst (ctl_session ce actor l s inbox w) = (if i then retainForReconnect ce actor (s_ID s) l w2 else w2)"
    using wr l by (simp add: ctl_session_def split: option.splits)
  ultimately show ?thesis
    using moves_trans [of actor a w2] retain_moves [OF assms(1)] moves_refl by metis
qed

lemma replay_moves:
  assumes "serving actor a w" "s \<in> fst a" "s_WorkspaceID s = p_WorkspaceID actor" "s_State s = StateCompleted"
  shows "serving actor a (fst (replayCompleted ce s w))"
proof -
  obtain r v where n: "normalizeProviderResult \<lparr>pr_Text = s_FinalTranscript s, pr_Language = s_FinalLanguage s,
      pr_ProviderID = s_FinalProviderID s\<rparr> = (r, v)" by (rule prod.exhaust)
  have final: "backed actor a (FinalTranscriptEvent (s_ID s) (pr_Text r) (pr_Language r) (pr_ProviderID r))" if v
    using n that assms by (auto intro!: bexI [of _ s])
  obtain w1 e1 where 1: "ctl_write ce (readyEvent ce s) w = (w1, e1)" by (rule prod.exhaust)
  have w1: "serving actor a w1" using serving_write [OF assms(1) _ 1] by simp
  obtain w2 e2 where 2: "ctl_write ce (FinalTranscriptEvent (s_ID s) (pr_Text r) (pr_Language r) (pr_ProviderID r)) w1 = (w2, e2)"
    by (rule prod.exhaust)
  have w2: "serving actor a w2" if v using serving_write [OF w1 final [OF that] 2] .
  have w3: "serving actor a (fst (ctl_write ce (ClosedEvent x y) w2))" if v for x y
    by (rule write_moves [OF w2 [OF that]]) simp
  show ?thesis
    using n 1 2 assms(1) w1 w2 w3 by (cases e1; cases e2) (auto simp: replayCompleted_def)
qed

lemma fst_map_prod: "fst (map_prod id f x) = fst x"
  by (cases x) simp

lemma hub_Start_serving: "serving actor a w \<Longrightarrow> ctl_hub_Start ce s now w = (w', r) \<Longrightarrow> serving actor a w'"
proof -
  assume w: "serving actor a w" and h: "ctl_hub_Start ce s now w = (w', r)"
  obtain w1 c where c: "hub_call ce (\<lambda>hub _ _. (hub, hub_Start_check hub s now)) w = (w1, c)" by (rule prod.exhaust)
  note w1 = serving_hub [OF w c]
  have ins: "serving actor a w2" if "hub_call ce (\<lambda>hub _ _. hub_Start_insert hub s st) w1 = (w2, x)" for st w2 x
    by (rule serving_hub [OF w1 that])
  show "serving actor a w'"
    using h c w1 ins by (auto simp: ctl_hub_Start_def split: option.splits sum.splits)
qed

lemma open_start_moves:
  assumes "legal_env (ce_env ce)" "serving actor a w"
  shows "moves actor a (fst (open_start ce actor ev w))"
proof -
  obtain w1 r where f: "svc_Start (ce_env ce) actor ev w = (w1, r)" by (rule prod.exhaust)
  have "svc_handle (ce_env ce) actor (ReqStart ev) w = (w1, map_sum id fst r)" using f by simp
  from serving_svcE [OF assms(1) _ assms(2) this] obtain b where b: "extends a b" "serving actor b w1"
    unfolding request_ok.simps by blast
  obtain w2 now where n: "now_call (ce_env ce) w1 = (w2, now)" by (rule prod.exhaust)
  note w2 = serving_now [OF b(2) n]
  have start: "moves actor b (fst (case ctl_hub_Start ce s now w2 of
        (w, Inl _) \<Rightarrow> (failSession ce actor s None ''provider_unavailable'' w, Inl (Some ErrProviderStream))
      | (w, Inr lease) \<Rightarrow> (w, Inr (s, lease))))" for s
  proof -
    obtain w3 r3 where h: "ctl_hub_Start ce s now w2 = (w3, r3)" by (rule prod.exhaust)
    note w3 = hub_Start_serving [OF w2 h]
    show ?thesis using h failSession_moves [OF assms(1) w3] moves_refl [OF w3] by (cases r3) simp_all
  qed
  have ref: "moves actor b (fst (refuse ce (protocolError e zero_session) e' w1))"
    "moves actor b (fst (refuse ce (ErrorEvent i c m x y) e' w1))" for e e' i c m x y
    by (rule moves_refl [OF refuse_moves [OF b(2)]]; simp)+
  have "moves actor b (fst (open_start ce actor ev w))"
    using f n start ref by (auto simp: open_start_def ctl_now_def fst_map_prod split: sum.split prod.split)
  then show ?thesis by (rule moves_extend [OF b(1)])
qed

lemma open_resume_moves:
  assumes "legal_env (ce_env ce)" "serving actor a w"
  shows "moves actor a (fst (open_resume ce actor ev w))"
proof -
  obtain w1 r where f: "svc_Get (ce_env ce) actor (re_SessionID ev) w = (w1, r)" by (rule prod.exhaust)
  have "svc_handle (ce_env ce) actor (ReqGet (re_SessionID ev)) w = (w1, r)" using f by simp
  from serving_svcE [OF assms(1) _ assms(2) this] obtain b where b: "extends a b" "serving actor b w1"
    "\<And>s. r = Inr s \<Longrightarrow> s \<in> fst b \<and> s_WorkspaceID s = p_WorkspaceID actor"
    unfolding request_ok.simps by blast
  have ref: "moves actor b (fst (refuse ce (protocolError e s) e' w1))" for e e' s
    by (rule moves_refl [OF refuse_moves [OF b(2)]]) simp
  have "moves actor b (fst (open_resume ce actor ev w))"
  proof (cases r)
    case (Inl e)
    then show ?thesis using f ref by (simp add: open_resume_def fst_map_prod)
  next
    case cur: (Inr cur)
    obtain w2 now where n: "now_call (ce_env ce) w1 = (w2, now)" by (rule prod.exhaust)
    obtain w3 r3 where c: "ctl_hub_Resume ce cur now w2 = (w3, r3)" by (rule prod.exhaust)
    have w3: "serving actor b w3"
      using c unfolding ctl_hub_Resume_def by (rule serving_hub [OF serving_now [OF b(2) n]])
    obtain w4 r4 where rs: "svc_Resume (ce_env ce) actor ev w3 = (w4, r4)" by (rule prod.exhaust)
    have "svc_handle (ce_env ce) actor (ReqResume ev) w3 = (w4, r4)" using rs by simp
    from serving_svcE [OF assms(1) _ w3 this] obtain d where d: "extends b d" "serving actor d w4"
      unfolding request_ok.simps by blast
    have rel: "moves actor b (fst (refuse ce (protocolError e cur) e' (releaseResumeLease ce l cur w4)))" for e e' l
      by (rule movesI [OF d(1) refuse_moves [OF release_serving [OF d(2)]]]) simp
    have replay: "moves actor b (fst (replayCompleted ce cur w1))" if "s_State cur = StateCompleted"
      using replay_moves [OF b(2) _ _ that] b(3) [OF cur] moves_refl by blast
    show ?thesis
      using f cur n c rs ref rel replay failSession_moves [OF assms(1) w3] movesI [OF d]
      by (auto simp: open_resume_def ctl_now_def fst_map_prod split: sum.split)
  qed
  then show ?thesis by (rule moves_extend [OF b(1)])
qed

lemma Serve_moves:
  assumes "legal_env (ce_env ce)" "serving actor a w"
  shows "moves actor a (fst (Serve ce actor inbox w))"
proof (cases inbox)
  case Nil
  then show ?thesis using moves_refl [OF assms(2)] by (simp add: Serve_def)
next
  case (Cons payload rest)
  obtain w1 r where o: "ctl_open ce actor payload w = (w1, r)" by (rule prod.exhaust)
  have ref: "moves actor a (fst (refuse ce (protocolError e zero_session) e' w))"
    "moves actor a (fst (refuse ce (ErrorEvent i c m x y) e' w))" for e e' i c m x y
    by (rule moves_refl [OF refuse_moves [OF assms(2)]]; simp)+
  have "moves actor a (fst (ctl_open ce actor payload w))"
    using ref open_start_moves [OF assms] open_resume_moves [OF assms]
    by (simp add: ctl_open_def fst_map_prod split: sum.split ClientEvent.split)
  then have "moves actor a w1" using o by simp
  moreover have "moves actor b (fst (Serve ce actor inbox w))" if "serving actor b w1" "0 < ce_heartbeat ce" for b
    using o Cons that(2) ctl_session_moves [OF assms(1) that(1)] moves_refl [OF that(1)]
    by (auto simp: Serve_def split: sum.split)
  moreover have "moves actor a (fst (Serve ce actor inbox w))" if "ce_heartbeat ce \<le> 0"
    using that moves_refl [OF assms(2)] by (simp add: Serve_def)
  ultimately show ?thesis by (metis moves_trans not_less)
qed

subsection \<open>A sample connection\<close>

definition sample_ctl_env :: "mockProviderStream ctl_env" where
  "sample_ctl_env = \<lparr>ce_env = sample_env, ce_provider = mockProvider, ce_hub_other = (\<lambda>_ hub. hub),
     ce_ctx_err = (\<lambda>_. False), ce_write_ok = (\<lambda>_. True), ce_heartbeat = DefaultHeartbeatInterval\<rparr>"

definition sample_ctl_world :: "mockProviderStream ctl_world" where
  "sample_ctl_world = \<lparr>w_tick = 0, w_db = sample_db1, c_hub = NewStreamHub, c_sent = []\<rparr>"

lemma sample_ctl_legal: "legal_env (ce_env sample_ctl_env)"
  by (simp add: sample_ctl_env_def still_legal sample_env_still)

lemma serving_start: "rt_run (w_db w) held log n \<Longrightarrow> c_sent w = [] \<Longrightarrow> serving actor (held, log) w"
  by (auto simp: serving_def running_def)

lemma Serve_run:
  assumes "legal_env (ce_env ce)" "rt_run (w_db w) held log n" "c_sent w = []" "Serve ce actor inbox w = (w', err)"
  obtains held' log' n' where "rt_run (w_db w') held' log' n'" "\<And>i. prefix (log i) (log' i)"
    "\<And>ev. ev \<in> set (c_sent w') \<Longrightarrow> backed actor (held', log') ev"
proof -
  from Serve_moves [OF assms(1) serving_start [OF assms(2,3)], of actor inbox] assms(4)
  obtain b where "extends (held, log) b" "serving actor b w'" by (auto simp: moves_def)
  then show thesis using that [of "fst b" "snd b"] by (auto simp: serving_def running_def extends_def list_all_iff)
qed

subsection \<open>The guarantees of a connection\<close>








end
