(* ===== verification/Job_Repository.thy ===== *)
theory Job_Repository
  imports Go_Json Go_Sha256 "HOL-Library.Product_Lexorder" "HOL-Library.List_Lexorder" "HOL-Library.Char_ord"
begin

text \<open>
  \<^verbatim>\<open>internal/job/job.go\<close> and \<^verbatim>\<open>internal/job/postgres_repository.go\<close>: durable background jobs that workers
  lease, on a model of the tables of \<^verbatim>\<open>migrations/000001\<close>, \<^verbatim>\<open>000002\<close> and \<^verbatim>\<open>000017\<close>.

  A method is one transaction: it returns the database after the call and its result.  The
  environment of a call says which statement fails (named by the error message the code gives it;
  the number counts the rounds of the loop of \<^verbatim>\<open>Claim\<close>), whether a failed commit took effect all the
  same, what \<^verbatim>\<open>clock_timestamp()\<close> reads, which job rows other transactions hold locked, and what other
  transactions commit between the statements of the two methods that read before they insert.
  PostgreSQL's parser of \<^verbatim>\<open>uuid\<close> values and its rendering of \<^verbatim>\<open>jsonb\<close> values are parameters.
\<close>

subsection \<open>Jobs\<close>

definition KindMockTranscribe :: string where "KindMockTranscribe = ''mock_transcribe''"
definition KindLLMCorrect :: string where "KindLLMCorrect = ''llm_correct''"
definition KindGenerateWaveform :: string where "KindGenerateWaveform = ''generate_waveform''"
definition KindPurgeAsset :: string where "KindPurgeAsset = ''purge_asset''"

definition JobQueued :: string where "JobQueued = ''queued''"
definition JobRunning :: string where "JobRunning = ''running''"
definition JobRetryWait :: string where "JobRetryWait = ''retry_wait''"
definition JobSucceeded :: string where "JobSucceeded = ''succeeded''"
definition JobFailed :: string where "JobFailed = ''failed''"
definition JobCancelled :: string where "JobCancelled = ''cancelled''"

lemmas job_states = JobQueued_def JobRunning_def JobRetryWait_def JobSucceeded_def JobFailed_def JobCancelled_def

definition DefaultMaxAttempts :: int where "DefaultMaxAttempts = 3"

definition ErrorCodeInternal :: string where "ErrorCodeInternal = ''internal_error''"
definition ErrorCodeProviderUnavailable :: string where "ErrorCodeProviderUnavailable = ''provider_unavailable''"
definition ErrorCodeInvalidAudio :: string where "ErrorCodeInvalidAudio = ''invalid_audio''"
definition ErrorCodeProviderRejected :: string where "ErrorCodeProviderRejected = ''provider_rejected''"
definition ErrorCodeWorkerTimeout :: string where "ErrorCodeWorkerTimeout = ''worker_timeout''"
definition ErrorCodeLeaseExpired :: string where "ErrorCodeLeaseExpired = ''lease_expired''"

definition safeErrorCodes :: "string list" where
  "safeErrorCodes = [ErrorCodeInternal, ErrorCodeProviderUnavailable, ErrorCodeInvalidAudio,
     ErrorCodeProviderRejected, ErrorCodeWorkerTimeout, ErrorCodeLeaseExpired]"

definition IsSafeErrorCode :: "string \<Rightarrow> bool" where
  "IsSafeErrorCode code = (code \<in> set safeErrorCodes)"

text \<open>Errors are kept up to \<^verbatim>\<open>errors.Is\<close>; \<open>JobOther\<close> is an error that wraps none of the named ones.\<close>

datatype job_error =
    JobForbidden | JobInvalidInput | JobNotFound | AssetNotReady | RevisionNotCorrectable | CorrectionActive
  | JobIdempotencyConflict | NoClaimableJob | LeaseConflict | InvalidErrorCode | JobOther string

record Job =
  job_ID :: string
  job_WorkspaceID :: string
  job_AssetID :: string
  job_CreatedBy :: string
  job_Kind :: string
  job_State :: string
  job_Payload :: bytes
  job_Attempts :: int
  job_MaxAttempts :: int
  job_AvailableAt :: go_time
  job_LeaseOwner :: "string option"
  job_LeaseExpiresAt :: "go_time option"
  job_LastErrorCode :: "string option"
  job_ResultRevisionID :: "string option"
  job_CreatedAt :: go_time
  job_UpdatedAt :: go_time

record CreateTranscriptionParams =
  ct_JobID :: string
  ct_AuditID :: string
  ct_WorkspaceID :: string
  ct_AssetID :: string
  ct_CreatedBy :: string
  ct_Kind :: string
  ct_Payload :: bytes
  ct_MaxAttempts :: int
  ct_IdempotencyKey :: string
  ct_RequestHash :: string

record CreateCorrectionParams =
  cc_JobID :: string
  cc_AuditID :: string
  cc_WorkspaceID :: string
  cc_SourceRevisionID :: string
  cc_CreatedBy :: string
  cc_Kind :: string
  cc_IdempotencyKey :: string
  cc_RequestHash :: string
  cc_Payload :: bytes
  cc_MaxAttempts :: int

record ClaimParams =
  cl_Kind :: string
  cl_WorkerID :: string
  cl_Now :: go_time
  cl_LeaseDuration :: duration

record SucceedParams =
  su_JobID :: string
  su_WorkerID :: string
  su_ResultRevisionID :: "string option"
  su_Now :: go_time

record FailParams =
  fa_JobID :: string
  fa_WorkerID :: string
  fa_ErrorCode :: string
  fa_Now :: go_time
  fa_RetryAt :: go_time

subsection \<open>Tables\<close>

record job_row =
  j_id :: string
  j_workspace_id :: string
  j_asset_id :: "string option"
  j_created_by :: string
  j_kind :: string
  j_state :: string
  j_payload :: bytes
  j_attempts :: int
  j_max_attempts :: int
  j_available_at :: go_time
  j_lease_owner :: "string option"
  j_lease_expires_at :: "go_time option"
  j_last_error_code :: "string option"
  j_result_revision_id :: "string option"
  j_created_at :: go_time
  j_updated_at :: go_time
  j_idempotency_key :: "string option"
  j_request_hash :: "string option"

record attempt_row =
  at_job_id :: string
  at_attempt :: int
  at_worker_id :: string
  at_outcome :: "string option"
  at_error_code :: "string option"
  at_started_at :: go_time
  at_finished_at :: "go_time option"

record asset_row =
  as_id :: string
  as_workspace_id :: string
  as_status :: string
  as_version :: int
  as_duration_ms :: "int option"
  as_deleted_at :: "go_time option"
  as_updated_at :: go_time

record object_row =
  ob_id :: string
  ob_asset_id :: string
  ob_parent_id :: "string option"
  ob_kind :: string
  ob_backend :: string
  ob_key :: string
  ob_size :: int
  ob_sha256 :: string
  ob_mime_type :: string
  ob_container :: "string option"
  ob_codec :: "string option"
  ob_sample_rate :: "int option"
  ob_channel_count :: "int option"
  ob_bitrate :: "int option"
  ob_duration_ms :: "int option"
  ob_source :: string
  ob_created_at :: go_time

record transcript_row =
  tr_id :: string
  tr_asset_id :: string
  tr_language :: string
  tr_created_at :: go_time

record revision_row =
  rv_id :: string
  rv_transcript_id :: string
  rv_parent_id :: "string option"
  rv_kind :: string
  rv_text :: string
  rv_provider_snapshot :: bytes
  rv_hotword_snapshot :: bytes
  rv_created_by :: string
  rv_source_job_id :: "string option"
  rv_raw_object_id :: "string option"
  rv_created_at :: go_time

record segment_row =
  sg_id :: string
  sg_revision_id :: string
  sg_ordinal :: int
  sg_start_ms :: int
  sg_end_ms :: int
  sg_speaker :: "string option"
  sg_text :: string
  sg_confidence :: "f64 option"
  sg_words :: bytes
  sg_created_at :: go_time

record job_audit =
  ja_id :: string
  ja_workspace_id :: string
  ja_actor_id :: "string option"
  ja_action :: string
  ja_target_id :: string

record notification_row =
  nt_workspace_id :: string
  nt_recipient :: string
  nt_job_id :: string
  nt_job_kind :: string
  nt_state :: string
  nt_asset_id :: "string option"
  nt_result_revision_id :: "string option"
  nt_error_code :: "string option"
  nt_occurred_at :: go_time

record job_db =
  jd_jobs :: "job_row list"
  jd_attempts :: "attempt_row list"
  jd_notifications :: "notification_row list"
  jd_audits :: "job_audit list"
  jd_assets :: "asset_row list"
  jd_objects :: "object_row list"
  jd_transcripts :: "transcript_row list"
  jd_revisions :: "revision_row list"
  jd_segments :: "segment_row list"
  jd_memberships :: "(string \<times> string) list"

record job_env =
  je_fails :: "nat \<Rightarrow> string \<Rightarrow> bool"
  je_commit_lost :: bool
  je_clock :: "nat \<Rightarrow> go_time"
  je_uuid :: "string \<Rightarrow> string option"
  je_jsonb :: "bytes \<Rightarrow> bytes"
  je_locked :: "string \<Rightarrow> bool"
  je_other :: "nat \<Rightarrow> job_db \<Rightarrow> job_db"

definition coalesce_text :: "string option \<Rightarrow> string" where
  "coalesce_text v = (case v of None \<Rightarrow> [] | Some x \<Rightarrow> x)"

definition scanJob :: "job_row \<Rightarrow> Job" where
  "scanJob row =
     \<lparr>job_ID = j_id row, job_WorkspaceID = j_workspace_id row, job_AssetID = coalesce_text (j_asset_id row),
      job_CreatedBy = j_created_by row, job_Kind = j_kind row, job_State = j_state row, job_Payload = j_payload row,
      job_Attempts = j_attempts row, job_MaxAttempts = j_max_attempts row, job_AvailableAt = j_available_at row,
      job_LeaseOwner = j_lease_owner row, job_LeaseExpiresAt = j_lease_expires_at row,
      job_LastErrorCode = j_last_error_code row, job_ResultRevisionID = j_result_revision_id row,
      job_CreatedAt = j_created_at row, job_UpdatedAt = j_updated_at row\<rparr>"

text \<open>The constraints of the table on one row.\<close>

definition hash_text :: "string \<Rightarrow> bool" where
  "hash_text v \<longleftrightarrow> length v = 64 \<and> list_all is_hex_lower v"

definition job_checks :: "job_row \<Rightarrow> bool" where
  "job_checks row \<longleftrightarrow>
     pg_text (j_kind row)
     \<and> j_state row \<in> {JobQueued, JobRunning, JobRetryWait, JobSucceeded, JobFailed, JobCancelled}
     \<and> 0 \<le> j_attempts row \<and> 1 \<le> j_max_attempts row \<and> j_max_attempts row \<le> 20
     \<and> (j_idempotency_key row = None) = (j_request_hash row = None)
     \<and> opt_check (\<lambda>v. pg_text v \<and> 1 \<le> length (runes v) \<and> length (runes v) \<le> 200) (j_idempotency_key row)
     \<and> opt_check hash_text (j_request_hash row)
     \<and> (j_lease_owner row = None) = (j_lease_expires_at row = None)
     \<and> opt_check pg_text (j_lease_owner row)
     \<and> (j_state row = JobRunning) = (j_lease_owner row \<noteq> None)
     \<and> j_attempts row \<le> j_max_attempts row
     \<and> opt_check IsSafeErrorCode (j_last_error_code row)"

definition attempt_checks :: "attempt_row \<Rightarrow> bool" where
  "attempt_checks a \<longleftrightarrow>
     0 < at_attempt a \<and> pg_text (at_worker_id a)
     \<and> opt_check (\<lambda>v. v \<in> {''succeeded'', ''retry'', ''failed'', ''lease_expired''}) (at_outcome a)
     \<and> opt_check IsSafeErrorCode (at_error_code a)
     \<and> (at_outcome a = None) = (at_finished_at a = None)
     \<and> (case at_outcome a of None \<Rightarrow> at_error_code a = None
        | Some v \<Rightarrow> (v = ''succeeded'') = (at_error_code a = None))"

definition active_state :: "string \<Rightarrow> bool" where
  "active_state s \<longleftrightarrow> s \<in> {JobQueued, JobRunning, JobRetryWait}"

definition terminal_state :: "string \<Rightarrow> bool" where
  "terminal_state s \<longleftrightarrow> s \<in> {JobSucceeded, JobFailed, JobCancelled}"

text \<open>The partial unique index on the active jobs of an asset: \<open>row\<close> would violate it.\<close>

definition active_clash :: "job_db \<Rightarrow> job_row \<Rightarrow> bool" where
  "active_clash db row \<longleftrightarrow>
     j_asset_id row \<noteq> None \<and> active_state (j_state row)
     \<and> (\<exists>r\<in>set (jd_jobs db). j_id r \<noteq> j_id row \<and> j_asset_id r = j_asset_id row \<and> j_kind r = j_kind row
          \<and> active_state (j_state r))"

text \<open>The trigger \<^verbatim>\<open>append_terminal_job_notification\<close>.\<close>

definition append_terminal_job_notification :: "string \<Rightarrow> job_row \<Rightarrow> notification_row list \<Rightarrow> notification_row list" where
  "append_terminal_job_notification old_state new ns =
     (if terminal_state (j_state new) \<and> old_state \<noteq> j_state new then
        ns @ [\<lparr>nt_workspace_id = j_workspace_id new, nt_recipient = j_created_by new, nt_job_id = j_id new,
               nt_job_kind = j_kind new, nt_state = j_state new, nt_asset_id = j_asset_id new,
               nt_result_revision_id = j_result_revision_id new, nt_error_code = j_last_error_code new,
               nt_occurred_at = j_updated_at new\<rparr>]
      else ns)"

text \<open>An \<^verbatim>\<open>UPDATE jobs \<dots> WHERE id = \<dots>\<close> from the row \<open>old\<close> to the row \<open>new\<close>.\<close>

definition set_job :: "job_row \<Rightarrow> job_row \<Rightarrow> job_db \<Rightarrow> job_db" where
  "set_job old new db =
     db\<lparr>jd_jobs := map (\<lambda>r. if j_id r = j_id new then new else r) (jd_jobs db),
        jd_notifications := append_terminal_job_notification (j_state old) new (jd_notifications db)\<rparr>"

definition asset_matches :: "string \<Rightarrow> string \<Rightarrow> string \<Rightarrow> asset_row \<Rightarrow> bool" where
  "asset_matches assetID workspaceID status a \<longleftrightarrow>
     as_id a = assetID \<and> as_workspace_id a = workspaceID \<and> as_status a = status"

definition set_asset_status :: "string \<Rightarrow> string \<Rightarrow> string \<Rightarrow> string \<Rightarrow> go_time \<Rightarrow> job_db \<Rightarrow> job_db" where
  "set_asset_status assetID workspaceID old new updatedAt db =
     db\<lparr>jd_assets := map (\<lambda>a. if asset_matches assetID workspaceID old a
          then a\<lparr>as_status := new, as_version := as_version a + 1, as_updated_at := updatedAt\<rparr> else a) (jd_assets db)\<rparr>"

definition tx_commit :: "job_env \<Rightarrow> nat \<Rightarrow> string \<Rightarrow> job_db \<Rightarrow> job_db \<Rightarrow> 'a \<Rightarrow> job_db \<times> (job_error + 'a)" where
  "tx_commit env k msg old new result =
     (if je_fails env k msg then (if je_commit_lost env then new else old, Inl (JobOther msg))
      else (new, Inr result))"

text \<open>\<^verbatim>\<open>SELECT GREATEST($1::timestamptz, clock_timestamp())\<close>.\<close>

definition greatest_clock :: "job_env \<Rightarrow> go_time \<Rightarrow> go_time" where
  "greatest_clock env now = max (pg_time now) (pg_time (je_clock env 0))"

definition insert_audit :: "job_env \<Rightarrow> string \<Rightarrow> job_audit \<Rightarrow> job_db \<Rightarrow> job_error + job_db" where
  "insert_audit env msg a db =
     (if je_fails env 0 msg \<or> ja_id a \<in> set (map ja_id (jd_audits db)) then Inl (JobOther msg)
      else Inr (db\<lparr>jd_audits := jd_audits db @ [a]\<rparr>))"

subsection \<open>Creating jobs\<close>

definition loadByIdempotencyKey ::
  "job_env \<Rightarrow> nat \<Rightarrow> string \<Rightarrow> string \<Rightarrow> string \<Rightarrow> job_db \<Rightarrow> job_error + (Job \<times> string) option" where
  "loadByIdempotencyKey env k msg workspaceID key db =
     (if je_fails env k msg \<or> je_uuid env workspaceID = None \<or> \<not> pg_text key then Inl (JobOther msg)
      else Inr (map_option (\<lambda>r. (scanJob r, trim_space (coalesce_text (j_request_hash r))))
        (find (\<lambda>r. Some (j_workspace_id r) = je_uuid env workspaceID \<and> j_idempotency_key r = Some key) (jd_jobs db))))"

text \<open>A job found under the key: the same request replays it, another one conflicts.\<close>

definition replay_job :: "string \<Rightarrow> Job \<times> string \<Rightarrow> job_error + (Job \<times> bool)" where
  "replay_job requestHash found =
     (case found of (existing, hash) \<Rightarrow>
        if hash \<noteq> requestHash then Inl JobIdempotencyConflict else Inr (existing, True))"

definition new_job_row ::
  "job_env \<Rightarrow> string \<Rightarrow> string \<Rightarrow> string \<Rightarrow> string \<Rightarrow> string \<Rightarrow> bytes \<Rightarrow> int \<Rightarrow> string \<Rightarrow> string \<Rightarrow> job_row option" where
  "new_job_row env jobID workspaceID assetID createdBy kind payload maxAttempts key requestHash =
     (case (je_uuid env jobID, je_uuid env workspaceID, je_uuid env assetID, je_uuid env createdBy) of
        (Some j, Some w, Some a, Some c) \<Rightarrow>
          Some \<lparr>j_id = j, j_workspace_id = w, j_asset_id = Some a, j_created_by = c, j_kind = kind, j_state = JobQueued,
                j_payload = je_jsonb env payload, j_attempts = 0, j_max_attempts = maxAttempts,
                j_available_at = pg_time (je_clock env 0), j_lease_owner = None, j_lease_expires_at = None,
                j_last_error_code = None, j_result_revision_id = None, j_created_at = pg_time (je_clock env 1),
                j_updated_at = pg_time (je_clock env 2), j_idempotency_key = Some key, j_request_hash = Some requestHash\<rparr>
      | _ \<Rightarrow> None)"

text \<open>
  What the \<^verbatim>\<open>INSERT \<dots> ON CONFLICT (workspace_id, idempotency_key) DO NOTHING\<close> runs into: a violated check,
  the conflict target, another unique index, a missing reference, or nothing.
\<close>

datatype insert_outcome = InsertFailed | KeyTaken | UniqueViolation | Inserted job_db

definition insert_job :: "job_env \<Rightarrow> string \<Rightarrow> job_row \<Rightarrow> job_db \<Rightarrow> insert_outcome" where
  "insert_job env msg row db =
     (if je_fails env 0 msg \<or> \<not> job_checks row then InsertFailed
      else if j_idempotency_key row \<noteq> None \<and> (\<exists>r\<in>set (jd_jobs db). j_workspace_id r = j_workspace_id row
          \<and> j_idempotency_key r = j_idempotency_key row) then KeyTaken
      else if j_id row \<in> set (map j_id (jd_jobs db)) \<or> active_clash db row then UniqueViolation
      else if (j_workspace_id row, j_created_by row) \<notin> set (jd_memberships db)
          \<or> \<not> (\<exists>a\<in>set (jd_assets db). Some (as_id a) = j_asset_id row \<and> as_workspace_id a = j_workspace_id row) then
        InsertFailed
      else Inserted (db\<lparr>jd_jobs := jd_jobs db @ [row]\<rparr>))"

definition created_concurrently ::
  "job_env \<Rightarrow> string \<Rightarrow> string \<Rightarrow> string \<Rightarrow> string \<Rightarrow> job_db \<Rightarrow> job_db \<times> (job_error + (Job \<times> bool))" where
  "created_concurrently env msg workspaceID key requestHash db =
     (case loadByIdempotencyKey env 1 msg workspaceID key db of
        Inl e \<Rightarrow> (db, Inl e)
      | Inr None \<Rightarrow> (db, Inl (JobOther msg))
      | Inr (Some found) \<Rightarrow> (db, replay_job requestHash found))"

text \<open>
  \<^verbatim>\<open>CreateTranscription\<close> from its \<^verbatim>\<open>INSERT\<close> to its end; before that, from the lock on the asset; the whole.
\<close>

definition ct_insert :: "job_env \<Rightarrow> CreateTranscriptionParams \<Rightarrow> job_db \<Rightarrow> job_db \<times> (job_error + (Job \<times> bool))" where
  "ct_insert env p db =
     (case new_job_row env (ct_JobID p) (ct_WorkspaceID p) (ct_AssetID p) (ct_CreatedBy p) (ct_Kind p) (ct_Payload p)
              (ct_MaxAttempts p) (ct_IdempotencyKey p) (ct_RequestHash p) of
        None \<Rightarrow> (db, Inl (JobOther ''insert transcription job: %w''))
      | Some row \<Rightarrow>
      case insert_job env ''insert transcription job: %w'' row db of
        InsertFailed \<Rightarrow> (db, Inl (JobOther ''insert transcription job: %w''))
      | UniqueViolation \<Rightarrow> (db, Inl (JobOther ''insert transcription job: %w''))
      | KeyTaken \<Rightarrow> created_concurrently env ''load concurrently created transcription job: %w'' (ct_WorkspaceID p)
                     (ct_IdempotencyKey p) (ct_RequestHash p) db
      | Inserted db1 \<Rightarrow>
      if je_fails env 0 ''mark transcription asset processing: %w'' then
        (db, Inl (JobOther ''mark transcription asset processing: %w''))
      else if length (filter (asset_matches (coalesce_text (j_asset_id row)) (j_workspace_id row) ''ready'') (jd_assets db1)) \<noteq> 1 then
        (db, Inl AssetNotReady)
      else
      case insert_audit env ''insert transcription audit log: %w''
             \<lparr>ja_id = ct_AuditID p, ja_workspace_id = j_workspace_id row, ja_actor_id = Some (j_created_by row),
              ja_action = ''transcription.requested'', ja_target_id = j_id row\<rparr>
             (set_asset_status (coalesce_text (j_asset_id row)) (j_workspace_id row) ''ready'' ''processing''
                (pg_time (je_clock env 3)) db1) of
        Inl e \<Rightarrow> (db, Inl e)
      | Inr db2 \<Rightarrow> tx_commit env 0 ''commit transcription job transaction: %w'' db db2 (scanJob row, False))"

text \<open>\<^verbatim>\<open>SELECT status, EXISTS (original) \<dots> FOR UPDATE\<close>.\<close>

definition lock_asset ::
  "job_env \<Rightarrow> string \<Rightarrow> string \<Rightarrow> job_db \<Rightarrow> job_error + (string \<times> bool) option" where
  "lock_asset env assetID workspaceID db =
     (if je_fails env 0 ''lock transcription asset: %w'' \<or> je_uuid env assetID = None \<or> je_uuid env workspaceID = None then
        Inl (JobOther ''lock transcription asset: %w'')
      else Inr (map_option
        (\<lambda>a. (as_status a, \<exists>ob\<in>set (jd_objects db). ob_asset_id ob = as_id a \<and> ob_kind ob = ''original''))
        (find (\<lambda>a. Some (as_id a) = je_uuid env assetID \<and> Some (as_workspace_id a) = je_uuid env workspaceID
                 \<and> as_deleted_at a = None) (jd_assets db))))"

definition ct_locked :: "job_env \<Rightarrow> CreateTranscriptionParams \<Rightarrow> job_db \<Rightarrow> job_db \<times> (job_error + (Job \<times> bool))" where
  "ct_locked env p db =
     (case lock_asset env (ct_AssetID p) (ct_WorkspaceID p) db of
        Inl e \<Rightarrow> (db, Inl e)
      | Inr None \<Rightarrow> (db, Inl JobNotFound)
      | Inr (Some (assetState, hasOriginal)) \<Rightarrow>
      case loadByIdempotencyKey env 0 ''reload idempotent transcription job: %w'' (ct_WorkspaceID p) (ct_IdempotencyKey p) db of
        Inl e \<Rightarrow> (db, Inl e)
      | Inr (Some found) \<Rightarrow> (db, replay_job (ct_RequestHash p) found)
      | Inr None \<Rightarrow>
      if assetState \<noteq> ''ready'' \<or> \<not> hasOriginal then (db, Inl AssetNotReady)
      else ct_insert env p (je_other env 1 db))"

definition job_CreateTranscription ::
  "job_env \<Rightarrow> CreateTranscriptionParams \<Rightarrow> job_db \<Rightarrow> job_db \<times> (job_error + (Job \<times> bool))" where
  "job_CreateTranscription env p db =
     (if je_fails env 0 ''begin transcription job transaction: %w'' then
        (db, Inl (JobOther ''begin transcription job transaction: %w''))
      else case loadByIdempotencyKey env 0 ''load idempotent transcription job: %w'' (ct_WorkspaceID p) (ct_IdempotencyKey p) db of
        Inl e \<Rightarrow> (db, Inl e)
      | Inr (Some found) \<Rightarrow> (db, replay_job (ct_RequestHash p) found)
      | Inr None \<Rightarrow> ct_locked env p (je_other env 0 db))"

definition correctableRevisionKind :: "string \<Rightarrow> bool" where
  "correctableRevisionKind kind \<longleftrightarrow>
     kind = ''raw_asr'' \<or> kind = ''normalized'' \<or> kind = ''llm_corrected'' \<or> kind = ''human_edited'' \<or> kind = ''approved''"

text \<open>The source of a correction: its asset, its kind and whether it has segments.\<close>

definition correction_source :: "job_env \<Rightarrow> string \<Rightarrow> string \<Rightarrow> job_db \<Rightarrow> job_error + (string \<times> string \<times> bool) option" where
  "correction_source env revisionID workspaceID db =
     (if je_fails env 0 ''validate correction source: %w'' \<or> je_uuid env revisionID = None
          \<or> je_uuid env workspaceID = None then Inl (JobOther ''validate correction source: %w'')
      else Inr (map_option
        (\<lambda>(rv, tr, a). (tr_asset_id tr, rv_kind rv, \<exists>sg\<in>set (jd_segments db). sg_revision_id sg = rv_id rv))
        (find (\<lambda>(rv, tr, a). Some (rv_id rv) = je_uuid env revisionID \<and> tr_id tr = rv_transcript_id rv
                 \<and> as_id a = tr_asset_id tr \<and> Some (as_workspace_id a) = je_uuid env workspaceID \<and> as_deleted_at a = None)
           (List.product (jd_revisions db) (List.product (jd_transcripts db) (jd_assets db))))))"

definition cc_insert ::
  "job_env \<Rightarrow> CreateCorrectionParams \<Rightarrow> string \<Rightarrow> job_db \<Rightarrow> job_db \<times> (job_error + (Job \<times> bool))" where
  "cc_insert env p assetID db =
     (case new_job_row env (cc_JobID p) (cc_WorkspaceID p) assetID (cc_CreatedBy p) (cc_Kind p) (cc_Payload p)
              (cc_MaxAttempts p) (cc_IdempotencyKey p) (cc_RequestHash p) of
        None \<Rightarrow> (db, Inl (JobOther ''insert correction job: %w''))
      | Some row \<Rightarrow>
      case insert_job env ''insert correction job: %w'' row db of
        InsertFailed \<Rightarrow> (db, Inl (JobOther ''insert correction job: %w''))
      | UniqueViolation \<Rightarrow> (db, Inl CorrectionActive)
      | KeyTaken \<Rightarrow> created_concurrently env ''load concurrently created correction job: %w'' (cc_WorkspaceID p)
                     (cc_IdempotencyKey p) (cc_RequestHash p) db
      | Inserted db1 \<Rightarrow>
      case insert_audit env ''insert correction audit: %w''
             \<lparr>ja_id = cc_AuditID p, ja_workspace_id = j_workspace_id row, ja_actor_id = Some (j_created_by row),
              ja_action = ''correction.requested'', ja_target_id = j_id row\<rparr> db1 of
        Inl e \<Rightarrow> (db, Inl e)
      | Inr db2 \<Rightarrow> tx_commit env 0 ''commit correction job: %w'' db db2 (scanJob row, False))"

definition cc_source :: "job_env \<Rightarrow> CreateCorrectionParams \<Rightarrow> job_db \<Rightarrow> job_db \<times> (job_error + (Job \<times> bool))" where
  "cc_source env p db =
     (case correction_source env (cc_SourceRevisionID p) (cc_WorkspaceID p) db of
        Inl e \<Rightarrow> (db, Inl e)
      | Inr None \<Rightarrow> (db, Inl JobNotFound)
      | Inr (Some (assetID, revisionKind, hasSegments)) \<Rightarrow>
      if \<not> hasSegments \<or> \<not> correctableRevisionKind revisionKind then (db, Inl RevisionNotCorrectable)
      else cc_insert env p assetID (je_other env 1 db))"

definition job_CreateCorrection ::
  "job_env \<Rightarrow> CreateCorrectionParams \<Rightarrow> job_db \<Rightarrow> job_db \<times> (job_error + (Job \<times> bool))" where
  "job_CreateCorrection env p db =
     (if je_fails env 0 ''begin correction job transaction: %w'' then
        (db, Inl (JobOther ''begin correction job transaction: %w''))
      else case loadByIdempotencyKey env 0 ''load idempotent correction job: %w'' (cc_WorkspaceID p) (cc_IdempotencyKey p) db of
        Inl e \<Rightarrow> (db, Inl e)
      | Inr (Some found) \<Rightarrow> (db, replay_job (cc_RequestHash p) found)
      | Inr None \<Rightarrow> cc_source env p (je_other env 0 db))"

definition job_Get :: "job_env \<Rightarrow> string \<Rightarrow> string \<Rightarrow> job_db \<Rightarrow> job_error + Job" where
  "job_Get env workspaceID jobID db =
     (if je_fails env 0 ''query job: %w'' \<or> je_uuid env jobID = None \<or> je_uuid env workspaceID = None then
        Inl (JobOther ''query job: %w'')
      else case find (\<lambda>r. Some (j_id r) = je_uuid env jobID \<and> Some (j_workspace_id r) = je_uuid env workspaceID) (jd_jobs db) of
        None \<Rightarrow> Inl JobNotFound
      | Some r \<Rightarrow> Inr (scanJob r))"

subsection \<open>Leasing jobs\<close>

definition validWorkerID :: "string \<Rightarrow> bool" where
  "validWorkerID workerID \<longleftrightarrow>
     1 \<le> length workerID \<and> length workerID \<le> 200 \<and> list_all (\<lambda>r. \<not> is_control r) (runes workerID)"

definition ownsLiveLease :: "job_row \<Rightarrow> string \<Rightarrow> go_time \<Rightarrow> bool" where
  "ownsLiveLease candidate workerID now \<longleftrightarrow>
     j_state candidate = JobRunning \<and> j_lease_owner candidate = Some workerID
     \<and> (case j_lease_expires_at candidate of None \<Rightarrow> False | Some t \<Rightarrow> now < t)"

definition open_attempt :: "string \<Rightarrow> int \<Rightarrow> attempt_row \<Rightarrow> bool" where
  "open_attempt jobID attempt a \<longleftrightarrow> at_job_id a = jobID \<and> at_attempt a = attempt \<and> at_outcome a = None"

definition finishAttempt ::
  "job_env \<Rightarrow> nat \<Rightarrow> string \<Rightarrow> int \<Rightarrow> string \<Rightarrow> string \<Rightarrow> go_time \<Rightarrow> job_db \<Rightarrow> job_error + job_db" where
  "finishAttempt env k jobID attempt outcome errorCode finishedAt db =
     (if je_fails env k ''finish job attempt: %w'' then Inl (JobOther ''finish job attempt: %w'')
      else if length (filter (open_attempt jobID attempt) (jd_attempts db)) \<noteq> 1 then Inl LeaseConflict
      else Inr (db\<lparr>jd_attempts := map (\<lambda>a. if open_attempt jobID attempt a
             then a\<lparr>at_outcome := Some outcome, at_error_code := (if errorCode = [] then None else Some errorCode),
                    at_finished_at := Some finishedAt\<rparr> else a) (jd_attempts db)\<rparr>))"

text \<open>The \<^verbatim>\<open>WHERE\<close> and \<^verbatim>\<open>ORDER BY\<close> clauses of \<^verbatim>\<open>Claim\<close>.\<close>

definition claimable :: "string \<Rightarrow> go_time \<Rightarrow> job_row \<Rightarrow> bool" where
  "claimable kind now r \<longleftrightarrow>
     j_kind r = kind
     \<and> (j_state r \<in> {JobQueued, JobRetryWait} \<and> j_available_at r \<le> now \<and> j_attempts r < j_max_attempts r
        \<or> j_state r = JobRunning \<and> (case j_lease_expires_at r of None \<Rightarrow> False | Some t \<Rightarrow> t \<le> now))"

definition claim_key :: "job_row \<Rightarrow> nat \<times> go_time \<times> go_time \<times> string" where
  "claim_key r = (if j_state r = JobRunning then 0 else 1, j_available_at r, j_created_at r, j_id r)"

definition claim_candidate :: "job_env \<Rightarrow> string \<Rightarrow> go_time \<Rightarrow> job_db \<Rightarrow> job_row option" where
  "claim_candidate env kind now db =
     (let rows = filter (\<lambda>r. claimable kind now r \<and> \<not> je_locked env (j_id r)) (jd_jobs db) in
      if rows = [] then None else Some (arg_min_list claim_key rows))"

text \<open>An expired lease on the last attempt: the job fails, and with it its asset.\<close>

definition expire_job :: "job_env \<Rightarrow> nat \<Rightarrow> go_time \<Rightarrow> job_row \<Rightarrow> job_db \<Rightarrow> job_error + job_db" where
  "expire_job env k now candidate db =
     (let new = candidate\<lparr>j_state := JobFailed, j_lease_owner := None, j_lease_expires_at := None,
                  j_last_error_code := Some ErrorCodeLeaseExpired, j_updated_at := now\<rparr> in
      if je_fails env k ''fail exhausted expired job: %w'' \<or> \<not> job_checks new then
        Inl (JobOther ''fail exhausted expired job: %w'')
      else let db1 = set_job candidate new db in
      if coalesce_text (j_asset_id candidate) = [] then Inr db1
      else if je_fails env k ''fail asset after expired job: %w'' then Inl (JobOther ''fail asset after expired job: %w'')
      else Inr (set_asset_status (coalesce_text (j_asset_id candidate)) (j_workspace_id candidate) ''processing'' ''failed'' now db1))"

definition lease_job ::
  "job_env \<Rightarrow> nat \<Rightarrow> ClaimParams \<Rightarrow> go_time \<Rightarrow> job_row \<Rightarrow> job_db \<Rightarrow> job_db \<Rightarrow> job_db \<times> (job_error + Job)" where
  "lease_job env k p now candidate old db =
     (let nextAttempt = j_attempts candidate + 1;
          new = candidate\<lparr>j_state := JobRunning, j_attempts := nextAttempt, j_lease_owner := Some (cl_WorkerID p),
                  j_lease_expires_at := Some (pg_time (now + cl_LeaseDuration p)), j_last_error_code := None,
                  j_updated_at := now\<rparr> in
      if je_fails env k ''lease claimed job: %w'' \<or> \<not> job_checks new then (old, Inl (JobOther ''lease claimed job: %w''))
      else if je_fails env k ''record job attempt: %w''
          \<or> (\<exists>a\<in>set (jd_attempts db). at_job_id a = j_id candidate \<and> at_attempt a = nextAttempt) then
        (old, Inl (JobOther ''record job attempt: %w''))
      else
        tx_commit env k ''commit job claim: %w'' old
          ((set_job candidate new db)\<lparr>jd_attempts := jd_attempts db @
             [\<lparr>at_job_id = j_id candidate, at_attempt = nextAttempt, at_worker_id = cl_WorkerID p, at_outcome = None,
               at_error_code = None, at_started_at = now, at_finished_at = None\<rparr>]\<rparr>)
          (scanJob new))"

text \<open>
  The loop of \<^verbatim>\<open>Claim\<close>: \<open>old\<close> is the database a rollback restores.  A round that goes on has failed one
  more running job, so the number of running jobs bounds the loop.
\<close>

definition running_jobs :: "job_db \<Rightarrow> nat" where
  "running_jobs db = length (filter (\<lambda>r. j_state r = JobRunning) (jd_jobs db))"

lemma running_replaced:
  assumes "x \<in> set rows" "j_state x = JobRunning" "j_state new \<noteq> JobRunning" "j_id new = j_id x"
  shows "length (filter (\<lambda>r. j_state r = JobRunning) (map (\<lambda>r. if j_id r = j_id new then new else r) rows))
    < length (filter (\<lambda>r. j_state r = JobRunning) rows)"
  using assms(1)
proof (induction rows)
  case (Cons r rows)
  have le: "length (filter (\<lambda>r. j_state r = JobRunning) (map (\<lambda>r. if j_id r = j_id new then new else r) rows))
    \<le> length (filter (\<lambda>r. j_state r = JobRunning) rows)"
    using assms(3) by (induction rows) auto
  show ?case
  proof (cases "r = x")
    case True
    then show ?thesis using assms le by auto
  next
    case False
    then show ?thesis using Cons assms by auto
  qed
qed simp

lemma claim_candidate_in:
  assumes "claim_candidate env kind now db = Some r"
  shows "r \<in> set (jd_jobs db)" "claimable kind now r" "\<not> je_locked env (j_id r)"
proof -
  let ?rows = "filter (\<lambda>r. claimable kind now r \<and> \<not> je_locked env (j_id r)) (jd_jobs db)"
  have "?rows \<noteq> []" "r = arg_min_list claim_key ?rows"
    using assms by (auto simp: claim_candidate_def Let_def split: if_splits)
  then have "r \<in> set ?rows" using arg_min_list_in by metis
  then show "r \<in> set (jd_jobs db)" "claimable kind now r" "\<not> je_locked env (j_id r)" by auto
qed

lemma finishAttempt_jobs: "finishAttempt env k j n v e t db = Inr db' \<Longrightarrow> jd_jobs db' = jd_jobs db"
  by (auto simp: finishAttempt_def split: if_splits)

lemma expire_job_running:
  assumes "expire_job env k now r db = Inr db'" "r \<in> set (jd_jobs db)" "j_state r = JobRunning"
  shows "running_jobs db' < running_jobs db"
proof -
  let ?new = "r\<lparr>j_state := JobFailed, j_lease_owner := None, j_lease_expires_at := None,
                  j_last_error_code := Some ErrorCodeLeaseExpired, j_updated_at := now\<rparr>"
  have "jd_jobs db' = map (\<lambda>x. if j_id x = j_id ?new then ?new else x) (jd_jobs db)"
    using assms(1) by (auto simp: expire_job_def Let_def set_job_def set_asset_status_def split: if_splits)
  then show ?thesis using running_replaced [of r "jd_jobs db" ?new] assms(2,3)
    by (simp add: running_jobs_def job_states)
qed

function claim_loop ::
  "job_env \<Rightarrow> nat \<Rightarrow> ClaimParams \<Rightarrow> go_time \<Rightarrow> bool \<Rightarrow> job_db \<Rightarrow> job_db \<Rightarrow> job_db \<times> (job_error + Job)" where
  "claim_loop env k p now cleanedExpired old db =
     (if je_fails env k ''select claimable job: %w'' \<or> \<not> pg_text (cl_Kind p) then
        (old, Inl (JobOther ''select claimable job: %w''))
      else case claim_candidate env (cl_Kind p) now db of
        None \<Rightarrow>
          if cleanedExpired then
            (case tx_commit env k ''commit expired lease cleanup: %w'' old db () of
               (db', Inl e) \<Rightarrow> (db', Inl e)
             | (db', Inr _) \<Rightarrow> (db', Inl NoClaimableJob))
          else (old, Inl NoClaimableJob)
      | Some candidate \<Rightarrow>
      case (if j_state candidate = JobRunning
            then finishAttempt env k (j_id candidate) (j_attempts candidate) ''lease_expired'' ErrorCodeLeaseExpired now db
            else Inr db) of
        Inl e \<Rightarrow> (old, Inl e)
      | Inr db1 \<Rightarrow>
      if j_state candidate = JobRunning \<and> j_max_attempts candidate \<le> j_attempts candidate then
        (case expire_job env k now candidate db1 of
           Inl e \<Rightarrow> (old, Inl e)
         | Inr db2 \<Rightarrow> claim_loop env (Suc k) p now True old db2)
      else lease_job env k p now candidate old db1)"
  by pat_completeness auto
termination
proof (relation "measure (\<lambda>(_, _, _, _, _, _, db). running_jobs db)", goal_cases)
  case 1
  show ?case by simp
next
  case (2 env k p now cleaned old db r db1 db2)
  have "jd_jobs db1 = jd_jobs db"
    using 2(3,4) by (auto split: if_splits dest: finishAttempt_jobs)
  moreover have "r \<in> set (jd_jobs db)" using 2(2) by (rule claim_candidate_in)
  ultimately have "running_jobs db2 < running_jobs db1"
    using expire_job_running [OF 2(5)] 2(4) by simp
  then show ?case using \<open>jd_jobs db1 = jd_jobs db\<close> by (simp add: running_jobs_def)
qed

declare claim_loop.simps [simp del]

definition job_Claim :: "job_env \<Rightarrow> ClaimParams \<Rightarrow> job_db \<Rightarrow> job_db \<times> (job_error + Job)" where
  "job_Claim env p0 db =
     (let p = p0\<lparr>cl_WorkerID := trim_space (cl_WorkerID p0)\<rparr> in
      if cl_Kind p = [] \<or> \<not> validWorkerID (cl_WorkerID p) \<or> is_zero_time (cl_Now p) \<or> cl_LeaseDuration p \<le> 0 then
        (db, Inl JobInvalidInput)
      else if je_fails env 0 ''begin claim transaction: %w'' then (db, Inl (JobOther ''begin claim transaction: %w''))
      else if je_fails env 0 ''resolve claim clock: %w'' then (db, Inl (JobOther ''resolve claim clock: %w''))
      else claim_loop env 0 p (greatest_clock env (cl_Now p)) False db db)"

subsection \<open>Finishing jobs\<close>

definition lockJob :: "job_env \<Rightarrow> string \<Rightarrow> job_db \<Rightarrow> job_error + job_row" where
  "lockJob env jobID db =
     (if je_fails env 0 ''lock job: %w'' \<or> je_uuid env jobID = None then Inl (JobOther ''lock job: %w'')
      else case find (\<lambda>r. Some (j_id r) = je_uuid env jobID) (jd_jobs db) of
        None \<Rightarrow> Inl JobNotFound
      | Some r \<Rightarrow> Inr r)"

definition job_Succeed :: "job_env \<Rightarrow> SucceedParams \<Rightarrow> job_db \<Rightarrow> job_db \<times> (job_error + Job)" where
  "job_Succeed env p db =
     (let workerID = trim_space (su_WorkerID p) in
      if su_JobID p = [] \<or> \<not> validWorkerID workerID \<or> is_zero_time (su_Now p) then (db, Inl JobInvalidInput)
      else if je_fails env 0 ''begin job success transaction: %w'' then
        (db, Inl (JobOther ''begin job success transaction: %w''))
      else if je_fails env 0 ''resolve success clock: %w'' then (db, Inl (JobOther ''resolve success clock: %w''))
      else let now = greatest_clock env (su_Now p) in
      case lockJob env (su_JobID p) db of
        Inl e \<Rightarrow> (db, Inl e)
      | Inr candidate \<Rightarrow>
      if \<not> ownsLiveLease candidate workerID now then (db, Inl LeaseConflict)
      else case finishAttempt env 0 (j_id candidate) (j_attempts candidate) ''succeeded'' [] now db of
        Inl e \<Rightarrow> (db, Inl e)
      | Inr db1 \<Rightarrow>
      let revision = (case su_ResultRevisionID p of None \<Rightarrow> None | Some v \<Rightarrow> je_uuid env v);
          new = candidate\<lparr>j_state := JobSucceeded, j_lease_owner := None, j_lease_expires_at := None,
                  j_last_error_code := None, j_result_revision_id := revision, j_updated_at := now\<rparr> in
      if je_fails env 0 ''complete succeeded job: %w'' \<or> \<not> job_checks new
          \<or> (su_ResultRevisionID p \<noteq> None \<and> (revision = None \<or> the revision \<notin> set (map rv_id (jd_revisions db)))) then
        (db, Inl (JobOther ''complete succeeded job: %w''))
      else tx_commit env 0 ''commit job success: %w'' db (set_job candidate new db1) (scanJob new))"

text \<open>\<^verbatim>\<open>time.Time.Sub\<close> saturates at the range of a \<^verbatim>\<open>Duration\<close>.\<close>

definition time_sub :: "go_time \<Rightarrow> go_time \<Rightarrow> duration" where
  "time_sub a b = max min_i64 (min max_i64 (a - b))"

definition job_Fail :: "job_env \<Rightarrow> FailParams \<Rightarrow> job_db \<Rightarrow> job_db \<times> (job_error + Job)" where
  "job_Fail env p db =
     (let workerID = trim_space (fa_WorkerID p) in
      if \<not> IsSafeErrorCode (fa_ErrorCode p) then (db, Inl InvalidErrorCode)
      else if fa_JobID p = [] \<or> \<not> validWorkerID workerID \<or> is_zero_time (fa_Now p) \<or> is_zero_time (fa_RetryAt p)
          \<or> fa_RetryAt p \<le> fa_Now p then (db, Inl JobInvalidInput)
      else if je_fails env 0 ''begin job failure transaction: %w'' then
        (db, Inl (JobOther ''begin job failure transaction: %w''))
      else if je_fails env 0 ''resolve failure clock: %w'' then (db, Inl (JobOther ''resolve failure clock: %w''))
      else let retryDelay = time_sub (fa_RetryAt p) (fa_Now p); now = greatest_clock env (fa_Now p) in
      case lockJob env (fa_JobID p) db of
        Inl e \<Rightarrow> (db, Inl e)
      | Inr candidate \<Rightarrow>
      if \<not> ownsLiveLease candidate workerID now then (db, Inl LeaseConflict)
      else let exhausted = j_max_attempts candidate \<le> j_attempts candidate;
               nextState = (if exhausted then JobFailed else JobRetryWait);
               outcome = (if exhausted then ''failed'' else ''retry'');
               availableAt = (if exhausted then j_available_at candidate else pg_time (now + retryDelay)) in
      case finishAttempt env 0 (j_id candidate) (j_attempts candidate) outcome (fa_ErrorCode p) now db of
        Inl e \<Rightarrow> (db, Inl e)
      | Inr db1 \<Rightarrow>
      let new = candidate\<lparr>j_state := nextState, j_available_at := availableAt, j_lease_owner := None,
                  j_lease_expires_at := None, j_last_error_code := Some (fa_ErrorCode p), j_updated_at := now\<rparr> in
      if je_fails env 0 ''complete failed job attempt: %w'' \<or> \<not> job_checks new then
        (db, Inl (JobOther ''complete failed job attempt: %w''))
      else let db2 = set_job candidate new db1 in
      if nextState = JobFailed \<and> coalesce_text (j_asset_id candidate) \<noteq> [] then
        (if je_fails env 0 ''fail asset after terminal job: %w'' then
           (db, Inl (JobOther ''fail asset after terminal job: %w''))
         else tx_commit env 0 ''commit job failure: %w'' db
           (set_asset_status (coalesce_text (j_asset_id candidate)) (j_workspace_id candidate) ''processing'' ''failed'' now db2)
           (scanJob new))
      else tx_commit env 0 ''commit job failure: %w'' db db2 (scanJob new))"

subsection \<open>What holds of every job\<close>

text \<open>
  The attempts of a job are its history.  \<open>history_ok\<close>: they are numbered from 1 without gaps up to the
  count in the row; every one but the last has ended without success; the last one is open exactly
  while the job runs, and belongs to the owner of the lease; it succeeded exactly if the job did.
\<close>

definition attempts_of :: "job_db \<Rightarrow> string \<Rightarrow> attempt_row list" where
  "attempts_of db i = filter (\<lambda>a. at_job_id a = i) (jd_attempts db)"

definition notes_of :: "job_db \<Rightarrow> string \<Rightarrow> notification_row list" where
  "notes_of db i = filter (\<lambda>n. nt_job_id n = i) (jd_notifications db)"

definition ended_badly :: "attempt_row \<Rightarrow> bool" where
  "ended_badly a \<longleftrightarrow> at_outcome a \<in> {Some ''retry'', Some ''failed'', Some ''lease_expired''}"

definition last_attempt_ok :: "job_row \<Rightarrow> attempt_row \<Rightarrow> bool" where
  "last_attempt_ok r a \<longleftrightarrow>
     (if j_state r = JobRunning then at_outcome a = None \<and> j_lease_owner r = Some (at_worker_id a)
      else if j_state r = JobSucceeded then at_outcome a = Some ''succeeded''
      else if j_state r = JobRetryWait then at_outcome a = Some ''retry''
      else at_outcome a \<in> {Some ''failed'', Some ''lease_expired''})"

definition history_ok :: "job_row \<Rightarrow> attempt_row list \<Rightarrow> bool" where
  "history_ok r h \<longleftrightarrow>
     map at_attempt h = map int [1..<Suc (nat (j_attempts r))]
     \<and> list_all attempt_checks h
     \<and> list_all ended_badly (butlast h)
     \<and> (if h = [] then j_state r = JobQueued else last_attempt_ok r (last h))"

text \<open>
  The notifications of a job: one of success exactly if it succeeded, and the last one tells the
  state a finished job is in.
\<close>

definition notes_ok :: "job_row \<Rightarrow> notification_row list \<Rightarrow> bool" where
  "notes_ok r ns \<longleftrightarrow>
     length (filter (\<lambda>n. nt_state n = JobSucceeded) ns) = (if j_state r = JobSucceeded then 1 else 0)
     \<and> (terminal_state (j_state r) \<longrightarrow> ns \<noteq> [] \<and> nt_state (last ns) = j_state r
          \<and> nt_error_code (last ns) = j_last_error_code r)"

definition job_ok :: "job_db \<Rightarrow> job_row \<Rightarrow> bool" where
  "job_ok db r \<longleftrightarrow>
     job_checks r \<and> j_state r \<noteq> JobCancelled \<and> history_ok r (attempts_of db (j_id r)) \<and> notes_ok r (notes_of db (j_id r))"

definition same_key :: "job_row \<Rightarrow> job_row \<Rightarrow> bool" where
  "same_key r s \<longleftrightarrow> j_idempotency_key r \<noteq> None \<and> j_workspace_id r = j_workspace_id s
     \<and> j_idempotency_key r = j_idempotency_key s"

definition same_work :: "job_row \<Rightarrow> job_row \<Rightarrow> bool" where
  "same_work r s \<longleftrightarrow> j_asset_id r \<noteq> None \<and> j_asset_id r = j_asset_id s \<and> j_kind r = j_kind s
     \<and> active_state (j_state r) \<and> active_state (j_state s)"

definition job_inv :: "job_db \<Rightarrow> bool" where
  "job_inv db \<longleftrightarrow>
     distinct (map j_id (jd_jobs db))
     \<and> (\<forall>r\<in>set (jd_jobs db). job_ok db r)
     \<and> at_job_id ` set (jd_attempts db) \<subseteq> j_id ` set (jd_jobs db)
     \<and> nt_job_id ` set (jd_notifications db) \<subseteq> j_id ` set (jd_jobs db)
     \<and> (\<forall>r\<in>set (jd_jobs db). \<forall>s\<in>set (jd_jobs db). same_key r s \<or> same_work r s \<longrightarrow> r = s)"

lemma job_invD:
  assumes "job_inv db"
  shows "distinct (map j_id (jd_jobs db))" "r \<in> set (jd_jobs db) \<Longrightarrow> job_ok db r"
    "r \<in> set (jd_jobs db) \<Longrightarrow> s \<in> set (jd_jobs db) \<Longrightarrow> j_id r = j_id s \<Longrightarrow> r = s"
    "r \<in> set (jd_jobs db) \<Longrightarrow> s \<in> set (jd_jobs db) \<Longrightarrow> same_key r s \<Longrightarrow> r = s"
    "r \<in> set (jd_jobs db) \<Longrightarrow> s \<in> set (jd_jobs db) \<Longrightarrow> same_work r s \<Longrightarrow> r = s"
    "i \<notin> j_id ` set (jd_jobs db) \<Longrightarrow> attempts_of db i = []"
    "i \<notin> j_id ` set (jd_jobs db) \<Longrightarrow> notes_of db i = []"
  using assms by (auto simp: job_inv_def eq_key_imp_eq_value inj_on_eq_iff distinct_map attempts_of_def notes_of_def filter_empty_conv)

text \<open>Changing one job: what has to be shown.\<close>

lemma job_inv_change:
  assumes inv: "job_inv db" and r: "r \<in> set (jd_jobs db)"
    and new: "j_id new = j_id r" "j_workspace_id new = j_workspace_id r" "j_idempotency_key new = j_idempotency_key r"
      "j_asset_id new = j_asset_id r" "j_kind new = j_kind r"
    and jobs: "jd_jobs db' = map (\<lambda>x. if j_id x = j_id new then new else x) (jd_jobs db)"
    and rest: "\<And>i. i \<noteq> j_id r \<Longrightarrow> attempts_of db' i = attempts_of db i"
      "\<And>i. i \<noteq> j_id r \<Longrightarrow> notes_of db' i = notes_of db i"
    and ok: "job_ok db' new"
    and act: "active_state (j_state new) \<Longrightarrow> active_state (j_state r) \<or> \<not> active_clash db new"
  shows "job_inv db'"
proof -
  have set: "set (jd_jobs db') = insert new {x \<in> set (jd_jobs db). j_id x \<noteq> j_id r}"
    using r new(1) by (auto simp: jobs)
  have ids: "map j_id (jd_jobs db') = map j_id (jd_jobs db)"
    by (simp add: jobs new(1))
  then have ids': "j_id ` set (jd_jobs db') = j_id ` set (jd_jobs db)" by (metis set_map)
  have okx: "job_ok db' x" if "x \<in> set (jd_jobs db')" for x
    using that ok rest job_invD(2) [OF inv] unfolding set by (auto simp: job_ok_def)
  have fk: "at_job_id a \<in> j_id ` set (jd_jobs db)" if a: "a \<in> set (jd_attempts db')" for a
  proof (cases "at_job_id a = j_id r")
    case False
    have "a \<in> set (attempts_of db' (at_job_id a))" using a by (simp add: attempts_of_def)
    then have "a \<in> set (attempts_of db (at_job_id a))" unfolding rest(1) [OF False] .
    then show ?thesis using job_invD(6) [OF inv, of "at_job_id a"] by (metis empty_iff list.set(1))
  qed (use r in auto)
  have fkn: "nt_job_id a \<in> j_id ` set (jd_jobs db)" if a: "a \<in> set (jd_notifications db')" for a
  proof (cases "nt_job_id a = j_id r")
    case False
    have "a \<in> set (notes_of db' (nt_job_id a))" using a by (simp add: notes_of_def)
    then have "a \<in> set (notes_of db (nt_job_id a))" unfolding rest(2) [OF False] .
    then show ?thesis using job_invD(7) [OF inv, of "nt_job_id a"] by (metis empty_iff list.set(1))
  qed (use r in auto)
  have nok: "\<not> same_key new y \<and> \<not> same_key y new" if y: "y \<in> set (jd_jobs db)" "j_id y \<noteq> j_id r" for y
  proof -
    have "same_key new y \<or> same_key y new \<Longrightarrow> same_key r y" using new by (auto simp: same_key_def)
    then show ?thesis using job_invD(4) [OF inv r y(1)] y(2) by auto
  qed
  have key: "x = y" if "x \<in> set (jd_jobs db')" "y \<in> set (jd_jobs db')" "same_key x y" for x y
    using that nok job_invD(4) [OF inv, of x y] unfolding set by auto
  have no: "\<not> same_work new y \<and> \<not> same_work y new" if y: "y \<in> set (jd_jobs db)" "j_id y \<noteq> j_id r" for y
  proof (cases "active_state (j_state r)")
    case True
    then have "same_work new y \<or> same_work y new \<Longrightarrow> same_work r y" using new by (auto simp: same_work_def)
    then show ?thesis using job_invD(5) [OF inv r y(1)] y(2) by auto
  next
    case False
    then show ?thesis using act y new by (auto simp: same_work_def active_clash_def)
  qed
  have work: "x = y" if "x \<in> set (jd_jobs db')" "y \<in> set (jd_jobs db')" "same_work x y" for x y
    using that no job_invD(5) [OF inv, of x y] unfolding set by auto
  show ?thesis
    unfolding job_inv_def ids' using ids okx fk fkn key work job_invD(1) [OF inv] by auto
qed

text \<open>Ending the open attempt of a running job.\<close>

definition ended :: "string \<Rightarrow> string option \<Rightarrow> go_time \<Rightarrow> attempt_row \<Rightarrow> attempt_row" where
  "ended outcome code at a = a\<lparr>at_outcome := Some outcome, at_error_code := code, at_finished_at := Some at\<rparr>"

lemma history_running:
  assumes "history_ok r h" "j_state r = JobRunning"
  shows "h \<noteq> []" "at_attempt (last h) = j_attempts r" "at_outcome (last h) = None"
    "j_lease_owner r = Some (at_worker_id (last h))" "list_all ended_badly (butlast h)" "1 \<le> j_attempts r"
    "map at_attempt (butlast h) = map int [1..<nat (j_attempts r)]"
proof -
  have m: "map at_attempt h = map int [1..<Suc (nat (j_attempts r))]" using assms(1) by (simp add: history_ok_def)
  show h: "h \<noteq> []" using assms by (auto simp: history_ok_def job_states)
  then have n: "0 < nat (j_attempts r)" using m by (cases "nat (j_attempts r)") auto
  have "at_attempt (last h) = last (map at_attempt h)" using h by (simp add: last_map)
  then show "at_attempt (last h) = j_attempts r" unfolding m using n by simp
  show "1 \<le> j_attempts r" using n by simp
  show "map at_attempt (butlast h) = map int [1..<nat (j_attempts r)]"
    using m n by (simp add: map_butlast butlast_append)
  show "at_outcome (last h) = None" "j_lease_owner r = Some (at_worker_id (last h))" "list_all ended_badly (butlast h)"
    using assms h by (simp_all add: history_ok_def last_attempt_ok_def)
qed

lemma only_last_open:
  assumes "history_ok r h" "j_state r = JobRunning" "\<And>a. a \<in> set h \<Longrightarrow> at_job_id a = i"
  shows "filter (open_attempt i (j_attempts r)) h = [last h]"
    "map (\<lambda>a. if open_attempt i (j_attempts r) a then f a else a) h = butlast h @ [f (last h)]"
proof -
  note hr = history_running [OF assms(1,2)]
  have front: "\<not> open_attempt i (j_attempts r) a" if "a \<in> set (butlast h)" for a
    using hr(5) that by (auto simp: open_attempt_def ended_badly_def list_all_iff)
  have last: "open_attempt i (j_attempts r) (last h)"
    using hr assms(3) by (simp add: open_attempt_def)
  have h: "h = butlast h @ [last h]" using hr(1) by simp
  have "filter (open_attempt i (j_attempts r)) (butlast h @ [last h]) = [last h]"
    using front last by (simp add: filter_empty_conv)
  then show "filter (open_attempt i (j_attempts r)) h = [last h]" using h by simp
  have "map (\<lambda>a. if open_attempt i (j_attempts r) a then f a else a) (butlast h @ [last h]) = butlast h @ [f (last h)]"
    using front last by (simp add: map_idI)
  then show "map (\<lambda>a. if open_attempt i (j_attempts r) a then f a else a) h = butlast h @ [f (last h)]" using h by simp
qed

lemma finishAttempt_running:
  assumes inv: "job_inv db" and r: "r \<in> set (jd_jobs db)" "j_state r = JobRunning"
    and f: "\<not> je_fails env k ''finish job attempt: %w''"
  obtains xs where "finishAttempt env k (j_id r) (j_attempts r) outcome code at db = Inr (db\<lparr>jd_attempts := xs\<rparr>)"
    "attempts_of (db\<lparr>jd_attempts := xs\<rparr>) (j_id r) = butlast (attempts_of db (j_id r)) @
       [ended outcome (if code = [] then None else Some code) at (last (attempts_of db (j_id r)))]"
    "\<And>i. i \<noteq> j_id r \<Longrightarrow> attempts_of (db\<lparr>jd_attempts := xs\<rparr>) i = attempts_of db i"
proof -
  let ?open = "open_attempt (j_id r) (j_attempts r)"
  let ?g = "ended outcome (if code = [] then None else Some code) at"
  have hist: "history_ok r (attempts_of db (j_id r))" using job_invD(2) [OF inv r(1)] by (simp add: job_ok_def)
  note ol = only_last_open [OF hist r(2), of "j_id r"]
  have "filter ?open (jd_attempts db) = filter ?open (attempts_of db (j_id r))"
    by (auto simp: attempts_of_def open_attempt_def intro: filter_cong)
  then have one: "length (filter ?open (jd_attempts db)) = 1" using ol(1) by (simp add: attempts_of_def)
  let ?xs = "map (\<lambda>a. if ?open a then ?g a else a) (jd_attempts db)"
  define db' where "db' = db\<lparr>jd_attempts := ?xs\<rparr>"
  have fin: "finishAttempt env k (j_id r) (j_attempts r) outcome code at db = Inr db'"
    using f one by (simp add: finishAttempt_def db'_def ended_def)
  have of: "attempts_of db' i = map (\<lambda>a. if ?open a then ?g a else a) (attempts_of db i)" for i
  proof -
    have "(at_job_id (if ?open a then ?g a else a) = i) = (at_job_id a = i)" for a by (simp add: ended_def)
    then show ?thesis by (simp add: db'_def attempts_of_def filter_map comp_def)
  qed
  have self: "attempts_of db' (j_id r) = butlast (attempts_of db (j_id r)) @ [?g (last (attempts_of db (j_id r)))]"
    unfolding of by (rule ol(2)) (simp add: attempts_of_def)
  have other: "attempts_of db' i = attempts_of db i" if "i \<noteq> j_id r" for i
    unfolding of using that by (auto simp: attempts_of_def open_attempt_def intro!: map_idI)
  show thesis by (rule that [OF fin [unfolded db'_def] self [unfolded db'_def] other [unfolded db'_def]])
qed

subsection \<open>The operations keep it\<close>

lemma job_inv_frame:
  assumes "jd_jobs db' = jd_jobs db" "jd_attempts db' = jd_attempts db" "jd_notifications db' = jd_notifications db"
  shows "job_inv db' = job_inv db"
  by (simp add: job_inv_def job_ok_def attempts_of_def notes_of_def assms)

lemma job_inv_assets [simp]: "job_inv (set_asset_status a w old new t db) = job_inv db"
  by (rule job_inv_frame) (simp_all add: set_asset_status_def)

lemma job_inv_audits [simp]: "job_inv (db\<lparr>jd_audits := x\<rparr>) = job_inv db"
  by (rule job_inv_frame) simp_all

lemma notes_of_set_job:
  "notes_of (set_job old new db) i =
     (if i = j_id new then append_terminal_job_notification (j_state old) new (notes_of db i) else notes_of db i)"
  by (auto simp: notes_of_def set_job_def append_terminal_job_notification_def)

lemma attempts_of_set_job [simp]: "attempts_of (set_job old new db) i = attempts_of db i"
  by (simp add: attempts_of_def set_job_def)

lemma notes_ok_change:
  assumes "notes_ok old ns" "active_state (j_state old)"
  shows "notes_ok new (append_terminal_job_notification (j_state old) new ns)"
proof -
  have "j_state old \<noteq> JobSucceeded" using assms(2) by (auto simp: active_state_def job_states)
  moreover have "terminal_state (j_state new) \<Longrightarrow> j_state old \<noteq> j_state new"
    using assms(2) by (auto simp: active_state_def terminal_state_def job_states)
  moreover have "j_state new = JobSucceeded \<Longrightarrow> terminal_state (j_state new)" by (simp add: terminal_state_def)
  ultimately show ?thesis using assms(1) unfolding notes_ok_def append_terminal_job_notification_def by auto
qed

text \<open>The columns that no update of a job touches.\<close>

definition same_job :: "job_row \<Rightarrow> job_row \<Rightarrow> bool" where
  "same_job r new \<longleftrightarrow> j_id new = j_id r \<and> j_workspace_id new = j_workspace_id r
     \<and> j_idempotency_key new = j_idempotency_key r \<and> j_asset_id new = j_asset_id r \<and> j_kind new = j_kind r"

definition outcome_state :: "string \<Rightarrow> string \<Rightarrow> bool" where
  "outcome_state outcome state \<longleftrightarrow>
     (outcome, state) \<in> {(''succeeded'', JobSucceeded), (''retry'', JobRetryWait), (''failed'', JobFailed),
        (''lease_expired'', JobFailed)}"

lemma history_ended:
  assumes "history_ok r h" "j_state r = JobRunning" "attempt_checks (ended outcome code at (last h))"
  shows "map at_attempt (butlast h @ [ended outcome code at (last h)]) = map int [1..<Suc (nat (j_attempts r))]"
    "list_all attempt_checks (butlast h @ [ended outcome code at (last h)])"
proof -
  note hr = history_running [OF assms(1,2)]
  have "1 \<le> nat (j_attempts r)" using hr(6) by simp
  then show "map at_attempt (butlast h @ [ended outcome code at (last h)]) = map int [1..<Suc (nat (j_attempts r))]"
    using hr(2,7) by (simp add: ended_def)
  show "list_all attempt_checks (butlast h @ [ended outcome code at (last h)])"
    using assms(1,3) by (auto simp: history_ok_def list_all_iff dest: in_set_butlastD)
qed

lemma ended_checks:
  assumes "attempt_checks a" "outcome \<in> {''succeeded'', ''retry'', ''failed'', ''lease_expired''}"
    "(outcome = ''succeeded'') = (code = [])" "code = [] \<or> IsSafeErrorCode code"
  shows "attempt_checks (ended outcome (if code = [] then None else Some code) at a)"
  using assms by (auto simp: attempt_checks_def ended_def opt_check_def)

lemma finish_job_inv:
  assumes inv: "job_inv db" and r: "r \<in> set (jd_jobs db)" "j_state r = JobRunning"
    and fin: "finishAttempt env k (j_id r) (j_attempts r) outcome code at db = Inr db1"
    and new: "same_job r new" "j_attempts new = j_attempts r" "job_checks new" "outcome_state outcome (j_state new)"
    and code: "(outcome = ''succeeded'') = (code = [])" "code = [] \<or> IsSafeErrorCode code"
  shows "job_inv (set_job r new db1)"
proof -
  let ?c = "if code = [] then None else Some code"
  have ok: "job_ok db r" by (rule job_invD(2) [OF inv r(1)])
  then have hist: "history_ok r (attempts_of db (j_id r))" by (simp add: job_ok_def)
  have "\<not> je_fails env k ''finish job attempt: %w''" using fin by (auto simp: finishAttempt_def)
  then obtain xs where x: "finishAttempt env k (j_id r) (j_attempts r) outcome code at db = Inr (db\<lparr>jd_attempts := xs\<rparr>)"
    "attempts_of (db\<lparr>jd_attempts := xs\<rparr>) (j_id r) = butlast (attempts_of db (j_id r)) @ [ended outcome ?c at (last (attempts_of db (j_id r)))]"
    "\<And>i. i \<noteq> j_id r \<Longrightarrow> attempts_of (db\<lparr>jd_attempts := xs\<rparr>) i = attempts_of db i"
    by (rule finishAttempt_running [OF inv r, of env k outcome code at]) blast
  have db1: "db1 = db\<lparr>jd_attempts := xs\<rparr>" using fin x(1) by simp
  note h1 = x(2) [folded db1] and other = x(3) [folded db1]
  have nts: "notes_of db1 i = notes_of db i" for i by (simp add: db1 notes_of_def)
  have "attempts_of db (j_id r) \<noteq> []" by (rule history_running(1) [OF hist r(2)])
  then have "attempt_checks (last (attempts_of db (j_id r)))"
    using hist by (simp add: history_ok_def list_all_iff)
  then have chk: "attempt_checks (ended outcome ?c at (last (attempts_of db (j_id r))))"
    using new(4) code by (intro ended_checks) (auto simp: outcome_state_def)
  have "last_attempt_ok new (ended outcome ?c at a)" for a
    using new(4) by (auto simp: last_attempt_ok_def outcome_state_def ended_def job_states)
  then have "history_ok new (attempts_of db1 (j_id r))"
    unfolding h1 using history_ended [OF hist r(2) chk] history_running(5) [OF hist r(2)] new(2)
    by (simp add: history_ok_def)
  moreover have "notes_ok new (append_terminal_job_notification (j_state r) new (notes_of db (j_id r)))"
    using ok r(2) by (intro notes_ok_change) (auto simp: job_ok_def active_state_def)
  moreover have "j_state new \<noteq> JobCancelled" using new(4) by (auto simp: outcome_state_def job_states)
  ultimately have "job_ok (set_job r new db1) new"
    using new(1,3) nts by (simp add: job_ok_def notes_of_set_job same_job_def)
  moreover have "active_state (j_state r)" using r(2) by (simp add: active_state_def)
  ultimately show ?thesis
    using new(1) other nts
    by (intro job_inv_change [OF inv r(1), of new]) (simp_all add: same_job_def notes_of_set_job, simp add: set_job_def db1)
qed

text \<open>A new lease on a job whose attempts have all ended.\<close>

lemma lease_inv:
  assumes inv: "job_inv db" and r: "r \<in> set (jd_jobs db)" "active_state (j_state r)"
    and db1: "db1 = db\<lparr>jd_attempts := xs\<rparr>" and other: "\<And>i. i \<noteq> j_id r \<Longrightarrow> attempts_of db1 i = attempts_of db i"
    and h: "map at_attempt (attempts_of db1 (j_id r)) = map int [1..<Suc (nat (j_attempts r))]"
      "list_all attempt_checks (attempts_of db1 (j_id r))" "list_all ended_badly (attempts_of db1 (j_id r))"
    and old: "job_inv old"
  shows "job_inv (fst (lease_job env k p now r old db1))"
proof -
  define new where "new = r\<lparr>j_state := JobRunning, j_attempts := j_attempts r + 1, j_lease_owner := Some (cl_WorkerID p),
     j_lease_expires_at := Some (pg_time (now + cl_LeaseDuration p)), j_last_error_code := None, j_updated_at := now\<rparr>"
  define a where "a = \<lparr>at_job_id = j_id r, at_attempt = j_attempts r + 1, at_worker_id = cl_WorkerID p, at_outcome = None,
     at_error_code = None, at_started_at = now, at_finished_at = None\<rparr>"
  define db2 where "db2 = (set_job r new db1)\<lparr>jd_attempts := jd_attempts db1 @ [a]\<rparr>"
  have fst: "fst (lease_job env k p now r old db1) = old
      \<or> job_checks new \<and> fst (lease_job env k p now r old db1) = db2"
    by (auto simp: lease_job_def Let_def new_def [symmetric] a_def [symmetric] db2_def tx_commit_def)
  have "job_inv db2" if chk: "job_checks new"
  proof -
    have ok: "job_ok db r" by (rule job_invD(2) [OF inv r(1)])
    then have pos: "0 \<le> j_attempts r" by (simp add: job_ok_def job_checks_def)
    have hist: "attempts_of db2 i = attempts_of db1 i @ (if i = j_id r then [a] else [])" for i
      by (simp add: attempts_of_def db2_def a_def)
    have nts: "notes_of db2 i = notes_of db i" for i
      by (simp add: notes_of_def db2_def db1 set_job_def append_terminal_job_notification_def new_def terminal_state_def job_states)
    have "attempt_checks a"
      using chk pos by (simp add: attempt_checks_def a_def opt_check_def job_checks_def new_def)
    moreover have "[1..<Suc (nat (j_attempts r + 1))] = [1..<Suc (nat (j_attempts r))] @ [nat (j_attempts r + 1)]"
      using pos by (simp add: nat_add_distrib)
    ultimately have "history_ok new (attempts_of db2 (j_id r))"
      using h pos unfolding hist by (simp add: history_ok_def last_attempt_ok_def a_def new_def)
    moreover have "notes_ok new (notes_of db (j_id r))"
      using notes_ok_change [of r "notes_of db (j_id r)" new] ok r(2)
      by (simp add: job_ok_def append_terminal_job_notification_def new_def terminal_state_def job_states)
    ultimately have "job_ok db2 new" using chk nts by (simp add: job_ok_def new_def job_states)
    moreover have "jd_jobs db2 = map (\<lambda>x. if j_id x = j_id new then new else x) (jd_jobs db)"
      by (simp add: db2_def db1 set_job_def)
    ultimately show "job_inv db2"
      using r(2) nts hist other by (intro job_inv_change [OF inv r(1), of new]) (simp_all add: new_def)
  qed
  then show ?thesis using fst old by auto
qed

lemma tx_commit_fst: "fst (tx_commit env k msg old new x) \<in> {old, new}"
  by (simp add: tx_commit_def)

lemma tx_commit_inv: "job_inv old \<Longrightarrow> job_inv new \<Longrightarrow> job_inv (fst (tx_commit env k msg old new x))"
  by (simp add: tx_commit_def)

lemma not_running_history:
  assumes "history_ok r h" "j_state r \<in> {JobQueued, JobRetryWait}"
  shows "list_all ended_badly h"
proof (cases "h = []")
  case False
  then have "last_attempt_ok r (last h)" "list_all ended_badly (butlast h)" using assms(1) by (simp_all add: history_ok_def)
  then have "list_all ended_badly (butlast h @ [last h])"
    using assms(2) by (auto simp: last_attempt_ok_def ended_badly_def job_states)
  then show ?thesis using False by simp
qed simp

lemma claimable_active: "claimable kind now r \<Longrightarrow> active_state (j_state r)"
  by (auto simp: claimable_def active_state_def)

lemma expire_job_inv:
  assumes inv: "job_inv db" and r: "r \<in> set (jd_jobs db)" "j_state r = JobRunning"
    and fin: "finishAttempt env k (j_id r) (j_attempts r) ''lease_expired'' ErrorCodeLeaseExpired now db = Inr db1"
    and ex: "expire_job env k now r db1 = Inr db2"
  shows "job_inv db2"
proof -
  let ?new = "r\<lparr>j_state := JobFailed, j_lease_owner := None, j_lease_expires_at := None,
                  j_last_error_code := Some ErrorCodeLeaseExpired, j_updated_at := now\<rparr>"
  have "job_checks ?new" and db2: "job_inv db2 = job_inv (set_job r ?new db1)"
    using ex by (auto simp: expire_job_def Let_def split: if_splits)
  then have "job_inv (set_job r ?new db1)"
    using inv r fin by (intro finish_job_inv [OF inv r fin])
      (auto simp: same_job_def outcome_state_def ErrorCodeLeaseExpired_def IsSafeErrorCode_def safeErrorCodes_def)
  then show ?thesis using db2 by simp
qed

lemma waiting_lease_inv:
  assumes inv: "job_inv db" and r: "r \<in> set (jd_jobs db)" "claimable kind at r" "j_state r \<noteq> JobRunning" and old: "job_inv old"
  shows "job_inv (fst (lease_job env k p now r old db))"
proof -
  have hist: "history_ok r (attempts_of db (j_id r))" using job_invD(2) [OF inv r(1)] by (simp add: job_ok_def)
  moreover have "j_state r \<in> {JobQueued, JobRetryWait}" using r(2,3) by (auto simp: claimable_def)
  ultimately have "list_all ended_badly (attempts_of db (j_id r))" by (rule not_running_history)
  then show ?thesis
    using lease_inv [OF inv r(1) claimable_active [OF r(2)], of db "jd_attempts db"] hist old by (simp add: history_ok_def)
qed

lemma reclaim_inv:
  assumes inv: "job_inv db" and r: "r \<in> set (jd_jobs db)" "j_state r = JobRunning" and old: "job_inv old"
    and fin: "finishAttempt env k (j_id r) (j_attempts r) ''lease_expired'' ErrorCodeLeaseExpired at db = Inr db1"
  shows "job_inv (fst (lease_job env k p now r old db1))"
proof -
  let ?h = "attempts_of db (j_id r)"
  let ?c = "if ErrorCodeLeaseExpired = [] then None else Some ErrorCodeLeaseExpired"
  have hist: "history_ok r ?h" using job_invD(2) [OF inv r(1)] by (simp add: job_ok_def)
  have "\<not> je_fails env k ''finish job attempt: %w''" using fin by (auto simp: finishAttempt_def)
  then obtain xs where
    x: "finishAttempt env k (j_id r) (j_attempts r) ''lease_expired'' ErrorCodeLeaseExpired at db = Inr (db\<lparr>jd_attempts := xs\<rparr>)"
    and h1: "attempts_of (db\<lparr>jd_attempts := xs\<rparr>) (j_id r) = butlast ?h @ [ended ''lease_expired'' ?c at (last ?h)]"
    and other: "\<And>i. i \<noteq> j_id r \<Longrightarrow> attempts_of (db\<lparr>jd_attempts := xs\<rparr>) i = attempts_of db i"
    by (rule finishAttempt_running [OF inv r, of env k "''lease_expired''" ErrorCodeLeaseExpired at]) blast
  have db1: "db1 = db\<lparr>jd_attempts := xs\<rparr>" using fin x by simp
  have "attempt_checks (last ?h)"
    using hist history_running(1) [OF hist r(2)] by (simp add: history_ok_def list_all_iff)
  then have chk: "attempt_checks (ended ''lease_expired'' ?c at (last ?h))"
    by (rule ended_checks) (auto simp: ErrorCodeLeaseExpired_def IsSafeErrorCode_def safeErrorCodes_def)
  have bad: "list_all ended_badly (butlast ?h @ [ended ''lease_expired'' ?c at (last ?h)])"
    using history_running(5) [OF hist r(2)] by (simp add: ended_badly_def ended_def)
  have act: "active_state (j_state r)" using r(2) by (simp add: active_state_def)
  show ?thesis
    using lease_inv [OF inv r(1) act db1 other [folded db1] _ _ _ old, of env k p now]
      history_ended [OF hist r(2) chk] bad h1 unfolding db1 by simp
qed

lemma claim_loop_inv: "job_inv old \<Longrightarrow> job_inv db \<Longrightarrow> job_inv (fst (claim_loop env k p now cleaned old db))"
proof (induction env k p now cleaned old db rule: claim_loop.induct)
  case (1 env k p now cleaned old db)
  have cand: "r \<in> set (jd_jobs db)" "claimable (cl_Kind p) now r" if "claim_candidate env (cl_Kind p) now db = Some r" for r
    using claim_candidate_in [OF that] by auto
  note inv = waiting_lease_inv [OF "1.prems"(2)] reclaim_inv [OF "1.prems"(2)] expire_job_inv [OF "1.prems"(2)]
  show ?case
    using "1.prems" inv cand "1.IH"
    by (subst claim_loop.simps) (auto simp: tx_commit_def split: option.split sum.split)
qed

lemma job_Claim_inv: "job_inv db \<Longrightarrow> job_inv (fst (job_Claim env p db))"
  by (simp add: job_Claim_def Let_def claim_loop_inv)

lemma lockJob_in: "lockJob env jobID db = Inr r \<Longrightarrow> r \<in> set (jd_jobs db) \<and> je_uuid env jobID = Some (j_id r)"
  by (auto simp: lockJob_def find_Some_iff split: if_splits option.splits)

lemma owns_running: "ownsLiveLease r w now \<Longrightarrow> j_state r = JobRunning"
  by (simp add: ownsLiveLease_def)

lemma safe_nonempty: "IsSafeErrorCode code \<Longrightarrow> code \<noteq> []"
  by (auto simp: IsSafeErrorCode_def safeErrorCodes_def ErrorCodeInternal_def ErrorCodeProviderUnavailable_def
      ErrorCodeInvalidAudio_def ErrorCodeProviderRejected_def ErrorCodeWorkerTimeout_def ErrorCodeLeaseExpired_def)

lemma job_Succeed_inv: "job_inv db \<Longrightarrow> job_inv (fst (job_Succeed env p db))"
proof -
  assume inv: "job_inv db"
  have step: "job_inv (set_job r (r\<lparr>j_state := JobSucceeded, j_lease_owner := None, j_lease_expires_at := None,
       j_last_error_code := None, j_result_revision_id := rv, j_updated_at := now\<rparr>) db1)"
    if "lockJob env (su_JobID p) db = Inr r" "ownsLiveLease r w now"
      "finishAttempt env 0 (j_id r) (j_attempts r) ''succeeded'' [] now db = Inr db1"
      "job_checks (r\<lparr>j_state := JobSucceeded, j_lease_owner := None, j_lease_expires_at := None,
         j_last_error_code := None, j_result_revision_id := rv, j_updated_at := now\<rparr>)" for r w now rv db1
    using that lockJob_in [OF that(1)] owns_running [OF that(2)]
    by (intro finish_job_inv [OF inv _ _ that(3)]) (auto simp: same_job_def outcome_state_def)
  show ?thesis
    unfolding job_Succeed_def Let_def using inv step by (auto intro!: tx_commit_inv split: sum.split)
qed

lemma job_Fail_inv: "job_inv db \<Longrightarrow> job_inv (fst (job_Fail env p db))"
proof -
  assume inv: "job_inv db"
  have step: "job_inv (set_job r new db1)"
    if "lockJob env (fa_JobID p) db = Inr r" "ownsLiveLease r w now"
      "finishAttempt env 0 (j_id r) (j_attempts r) v (fa_ErrorCode p) now db = Inr db1"
      "job_checks new" "same_job r new" "j_attempts new = j_attempts r"
      "IsSafeErrorCode (fa_ErrorCode p)" "outcome_state v (j_state new)" "v \<noteq> ''succeeded''" for r w now new v db1
    using that lockJob_in [OF that(1)] owns_running [OF that(2)] safe_nonempty
    by (intro finish_job_inv [OF inv _ _ that(3)]) auto
  show ?thesis
    unfolding job_Fail_def Let_def using inv
    by (auto intro!: tx_commit_inv elim!: step simp: same_job_def outcome_state_def job_states split: sum.split)
qed

text \<open>A new job.\<close>

lemma insert_job_inv:
  assumes inv: "job_inv db" and ins: "insert_job env msg row db = Inserted db1"
    and new: "j_state row = JobQueued" "j_attempts row = 0"
  shows "job_inv db1"
proof -
  have db1: "db1 = db\<lparr>jd_jobs := jd_jobs db @ [row]\<rparr>" and chk: "job_checks row" and id: "j_id row \<notin> j_id ` set (jd_jobs db)"
    and key: "\<And>r. r \<in> set (jd_jobs db) \<Longrightarrow> \<not> same_key row r \<and> \<not> same_key r row"
    and clash: "\<not> active_clash db row"
    using ins by (auto simp: insert_job_def same_key_def split: if_splits)
  have work: "\<not> same_work row r \<and> \<not> same_work r row" if "r \<in> set (jd_jobs db)" for r
  proof -
    have "j_id r \<noteq> j_id row" using id that by (metis imageI)
    then show ?thesis using that clash by (auto simp: same_work_def active_clash_def)
  qed
  have none: "attempts_of db (j_id row) = []" "notes_of db (j_id row) = []"
    using job_invD(6,7) [OF inv id] by auto
  have same: "attempts_of db1 i = attempts_of db i" "notes_of db1 i = notes_of db i" for i
    by (simp_all add: db1 attempts_of_def notes_of_def)
  have "job_ok db1 row"
    using chk none new by (simp add: job_ok_def same history_ok_def notes_ok_def terminal_state_def job_states)
  moreover have "job_ok db1 r" if "r \<in> set (jd_jobs db)" for r
    using job_invD(2) [OF inv that] by (simp add: job_ok_def same)
  ultimately show ?thesis
    using inv id key work by (auto simp: job_inv_def db1)
qed

lemma new_job_row_fresh:
  "new_job_row env j w a c kind payload n key hash = Some row \<Longrightarrow> j_state row = JobQueued \<and> j_attempts row = 0"
  by (auto simp: new_job_row_def split: option.splits)

lemma insert_audit_inv: "insert_audit env msg a db = Inr db' \<Longrightarrow> job_inv db' = job_inv db"
  by (auto simp: insert_audit_def split: if_splits)

lemma ct_insert_inv: "job_inv db \<Longrightarrow> job_inv (fst (ct_insert env p db))"
  unfolding ct_insert_def
  using insert_job_inv new_job_row_fresh insert_audit_inv
  by (auto simp: created_concurrently_def intro!: tx_commit_inv split: option.split sum.split insert_outcome.split)

lemma cc_insert_inv: "job_inv db \<Longrightarrow> job_inv (fst (cc_insert env p a db))"
  unfolding cc_insert_def
  using insert_job_inv new_job_row_fresh insert_audit_inv
  by (auto simp: created_concurrently_def intro!: tx_commit_inv split: option.split sum.split insert_outcome.split)

lemma job_CreateTranscription_inv:
  assumes "job_inv db" "\<And>k db. job_inv db \<Longrightarrow> job_inv (je_other env k db)"
  shows "job_inv (fst (job_CreateTranscription env p db))"
  using assms by (auto simp: job_CreateTranscription_def ct_locked_def ct_insert_inv split: sum.split option.split)

lemma job_CreateCorrection_inv:
  assumes "job_inv db" "\<And>k db. job_inv db \<Longrightarrow> job_inv (je_other env k db)"
  shows "job_inv (fst (job_CreateCorrection env p db))"
  using assms by (auto simp: job_CreateCorrection_def cc_source_def cc_insert_inv split: sum.split option.split)

subsection \<open>What a worker gets\<close>

text \<open>
  A job is viable for a claim if the query selects it and it has an attempt left.  The lease it gets.
\<close>

definition viable :: "job_env \<Rightarrow> string \<Rightarrow> go_time \<Rightarrow> job_row \<Rightarrow> bool" where
  "viable env kind now r \<longleftrightarrow> claimable kind now r \<and> \<not> je_locked env (j_id r) \<and> j_attempts r < j_max_attempts r"

definition leased :: "string \<Rightarrow> duration \<Rightarrow> go_time \<Rightarrow> job_row \<Rightarrow> job_row" where
  "leased worker lease now r =
     r\<lparr>j_state := JobRunning, j_attempts := j_attempts r + 1, j_lease_owner := Some worker,
       j_lease_expires_at := Some (pg_time (now + lease)), j_last_error_code := None, j_updated_at := now\<rparr>"

lemma claim_candidate_none:
  "claim_candidate env kind now db = None \<longleftrightarrow> (\<forall>r\<in>set (jd_jobs db). \<not> (claimable kind now r \<and> \<not> je_locked env (j_id r)))"
  by (auto simp: claim_candidate_def Let_def filter_empty_conv)

lemma claim_candidate_least:
  assumes "claim_candidate env kind now db = Some r" "s \<in> set (jd_jobs db)" "claimable kind now s" "\<not> je_locked env (j_id s)"
  shows "claim_key r \<le> claim_key s"
proof -
  let ?rows = "filter (\<lambda>r. claimable kind now r \<and> \<not> je_locked env (j_id r)) (jd_jobs db)"
  have ne: "?rows \<noteq> []" and r: "r = arg_min_list claim_key ?rows"
    using assms(1) by (auto simp: claim_candidate_def Let_def split: if_splits)
  have "claim_key (arg_min_list claim_key ?rows) = Min (claim_key ` set ?rows)"
    by (rule f_arg_min_list_f [OF ne])
  also have "\<dots> \<le> claim_key s" using assms(2-4) by (intro Min_le) auto
  finally show ?thesis using r by simp
qed

lemma history_attempts_below:
  assumes "history_ok r h" "a \<in> set h"
  shows "at_attempt a \<le> j_attempts r"
proof -
  have "at_attempt a \<in> set (map at_attempt h)" using assms(2) by simp
  then have "at_attempt a \<in> int ` {1..<Suc (nat (j_attempts r))}"
    using assms(1) unfolding history_ok_def set_map [of int, symmetric] set_upt [symmetric] by metis
  then show ?thesis by auto
qed

lemma lease_job_ok:
  assumes checks: "job_checks r" "j_attempts r < j_max_attempts r" and w: "pg_text (cl_WorkerID p)"
    and fresh: "\<And>a. a \<in> set (attempts_of db1 (j_id r)) \<Longrightarrow> at_attempt a \<le> j_attempts r"
    and no: "\<And>k m. \<not> je_fails env k m"
  shows "snd (lease_job env k p now r old db1) = Inr (scanJob (leased (cl_WorkerID p) (cl_LeaseDuration p) now r))"
proof -
  have "job_checks (leased (cl_WorkerID p) (cl_LeaseDuration p) now r)"
    using checks w by (auto simp: job_checks_def leased_def opt_check_def)
  moreover have "\<not> (\<exists>a\<in>set (jd_attempts db1). at_job_id a = j_id r \<and> at_attempt a = j_attempts r + 1)"
    using fresh by (force simp: attempts_of_def)
  ultimately show ?thesis using no by (simp add: lease_job_def tx_commit_def leased_def Let_def)
qed

lemma finish_attempts_below:
  assumes "finishAttempt env k i n v c t db = Inr db1" "\<And>a. a \<in> set (attempts_of db i) \<Longrightarrow> at_attempt a \<le> m"
  shows "\<And>a. a \<in> set (attempts_of db1 i) \<Longrightarrow> at_attempt a \<le> m"
  using assms by (auto simp: finishAttempt_def attempts_of_def split: if_splits)

lemma expire_viable:
  assumes inv: "job_inv db" and r: "r \<in> set (jd_jobs db)" "j_max_attempts r \<le> j_attempts r"
    and db1: "jd_jobs db1 = jd_jobs db" and ex: "expire_job env k now r db1 = Inr db2"
  shows "{x \<in> set (jd_jobs db2). viable env kind at x} = {x \<in> set (jd_jobs db). viable env kind at x}"
proof -
  let ?new = "r\<lparr>j_state := JobFailed, j_lease_owner := None, j_lease_expires_at := None,
                  j_last_error_code := Some ErrorCodeLeaseExpired, j_updated_at := now\<rparr>"
  have jobs: "jd_jobs db2 = map (\<lambda>x. if j_id x = j_id ?new then ?new else x) (jd_jobs db)"
    using ex by (auto simp: expire_job_def Let_def set_job_def set_asset_status_def db1 split: if_splits)
  have "x = r" if "x \<in> set (jd_jobs db)" "j_id x = j_id r" for x
    using job_invD(3) [OF inv that(1) r(1) that(2)] .
  then have "set (jd_jobs db2) = insert ?new (set (jd_jobs db) - {r})"
    using r(1) by (auto simp: jobs)
  moreover have "\<not> viable env kind at ?new" by (simp add: viable_def claimable_def job_states)
  moreover have "\<not> viable env kind at r" using r(2) by (simp add: viable_def)
  ultimately show ?thesis by auto
qed

lemma expire_job_no_fault:
  assumes "job_checks r" "\<And>k m. \<not> je_fails env k m"
  obtains db2 where "expire_job env k now r db1 = Inr db2"
proof -
  have "job_checks (r\<lparr>j_state := JobFailed, j_lease_owner := None, j_lease_expires_at := None,
                  j_last_error_code := Some ErrorCodeLeaseExpired, j_updated_at := now\<rparr>)"
    using assms(1) by (auto simp: job_checks_def opt_check_def job_states IsSafeErrorCode_def safeErrorCodes_def)
  then show thesis
    by (cases "coalesce_text (j_asset_id r) = []") (rule that, simp add: expire_job_def Let_def assms(2))+
qed

text \<open>
  The result of the loop without faults: the first viable job in the order of the query, or
  \<open>NoClaimableJob\<close>.
\<close>

definition claim_result :: "job_env \<Rightarrow> ClaimParams \<Rightarrow> go_time \<Rightarrow> job_row set \<Rightarrow> job_error + Job \<Rightarrow> bool" where
  "claim_result env p now rows res \<longleftrightarrow>
     (if \<exists>r\<in>rows. viable env (cl_Kind p) now r
      then \<exists>r\<in>rows. viable env (cl_Kind p) now r
             \<and> (\<forall>s\<in>rows. viable env (cl_Kind p) now s \<longrightarrow> claim_key r \<le> claim_key s)
             \<and> res = Inr (scanJob (leased (cl_WorkerID p) (cl_LeaseDuration p) now r))
      else res = Inl NoClaimableJob)"

lemma claim_result_viable:
  "{x \<in> A. viable env (cl_Kind p) now x} = {x \<in> B. viable env (cl_Kind p) now x} \<Longrightarrow>
   claim_result env p now A res = claim_result env p now B res"
proof -
  assume "{x \<in> A. viable env (cl_Kind p) now x} = {x \<in> B. viable env (cl_Kind p) now x}"
  then have eq: "x \<in> A \<and> viable env (cl_Kind p) now x \<longleftrightarrow> x \<in> B \<and> viable env (cl_Kind p) now x" for x by blast
  then have "(\<exists>r\<in>A. viable env (cl_Kind p) now r) = (\<exists>r\<in>B. viable env (cl_Kind p) now r)" by blast
  moreover have "(\<forall>s\<in>A. viable env (cl_Kind p) now s \<longrightarrow> Q s) = (\<forall>s\<in>B. viable env (cl_Kind p) now s \<longrightarrow> Q s)" for Q
    using eq by blast
  moreover have "(\<exists>r\<in>A. viable env (cl_Kind p) now r \<and> Q r) = (\<exists>r\<in>B. viable env (cl_Kind p) now r \<and> Q r)" for Q
    using eq by blast
  ultimately show ?thesis unfolding claim_result_def by simp
qed

lemma claim_loop_result:
  assumes "\<And>k m. \<not> je_fails env k m" "pg_text (cl_Kind p)" "pg_text (cl_WorkerID p)" "job_inv db"
  shows "claim_result env p now (set (jd_jobs db)) (snd (claim_loop env k p now cleaned old db))"
  using assms
proof (induction env k p now cleaned old db rule: claim_loop.induct)
  case (1 env k p now cleaned old db)
  note no = "1.prems"(1) and inv = "1.prems"(4)
  note step = claim_loop.simps [of env k p now cleaned old db]
  show ?case
  proof (cases "claim_candidate env (cl_Kind p) now db")
    case None
    then have "snd (claim_loop env k p now cleaned old db) = Inl NoClaimableJob"
      using no "1.prems"(2) unfolding step by (simp add: tx_commit_def)
    moreover have "\<not> (\<exists>r\<in>set (jd_jobs db). viable env (cl_Kind p) now r)"
      using None unfolding claim_candidate_none by (auto simp: viable_def)
    ultimately show ?thesis by (simp add: claim_result_def)
  next
    case (Some r)
    note r = claim_candidate_in [OF Some]
    have ok: "job_checks r" "history_ok r (attempts_of db (j_id r))"
      using job_invD(2) [OF inv r(1)] by (simp_all add: job_ok_def)
    let ?pre = "if j_state r = JobRunning
            then finishAttempt env k (j_id r) (j_attempts r) ''lease_expired'' ErrorCodeLeaseExpired now db else Inr db"
    obtain db1 where pre: "?pre = Inr db1"
      using finishAttempt_running [OF inv r(1) _ no, of k] by (metis (no_types, lifting))
    have jobs: "jd_jobs db1 = jd_jobs db" using pre by (auto split: if_splits dest: finishAttempt_jobs)
    have below: "at_attempt a \<le> j_attempts r" if "a \<in> set (attempts_of db1 (j_id r))" for a
      using pre that history_attempts_below [OF ok(2)] finish_attempts_below [of env k "j_id r"]
      by (auto split: if_splits)
    show ?thesis
    proof (cases "j_attempts r < j_max_attempts r")
      case True
      then have "snd (claim_loop env k p now cleaned old db) = Inr (scanJob (leased (cl_WorkerID p) (cl_LeaseDuration p) now r))"
        using lease_job_ok [OF ok(1) True "1.prems"(3) below no] no "1.prems"(2) Some pre unfolding step by simp
      moreover have "viable env (cl_Kind p) now r" using True r by (simp add: viable_def)
      moreover have "claim_key r \<le> claim_key s" if "s \<in> set (jd_jobs db)" "viable env (cl_Kind p) now s" for s
        using claim_candidate_least [OF Some that(1)] that(2) by (simp add: viable_def)
      ultimately show ?thesis unfolding claim_result_def using r(1) by auto
    next
      case False
      then have run: "j_state r = JobRunning" using r(2) by (auto simp: claimable_def)
      obtain db2 where ex: "expire_job env k now r db1 = Inr db2" by (rule expire_job_no_fault [OF ok(1) no])
      have fin: "finishAttempt env k (j_id r) (j_attempts r) ''lease_expired'' ErrorCodeLeaseExpired now db = Inr db1"
        using pre run by simp
      have "job_inv db2" by (rule expire_job_inv [OF inv r(1) run fin ex])
      then have "claim_result env p now (set (jd_jobs db2)) (snd (claim_loop env (Suc k) p now True old db2))"
        using "1.IH" [of r db1 db2] no "1.prems"(2,3) Some pre run False ex by simp
      moreover have "snd (claim_loop env k p now cleaned old db) = snd (claim_loop env (Suc k) p now True old db2)"
        using no "1.prems"(2) Some pre run False ex unfolding step by simp
      moreover have "j_max_attempts r \<le> j_attempts r" using False by simp
      ultimately show ?thesis
        using claim_result_viable [OF expire_viable [OF inv r(1) _ jobs ex]] by metis
    qed
  qed
qed

text \<open>
  C12: a worker gets the right job.  Without database faults, \<^verbatim>\<open>Claim\<close> leases the first job, in the order
  expired leases first, then by availability, age and id, among the jobs of the kind that are due or
  abandoned, have an attempt left and are not locked by another worker; it reports that there is none
  exactly if there is none.
\<close>

theorem Claim_first_viable:
  assumes "job_inv db" "\<And>k m. \<not> je_fails env k m"
    and "cl_Kind p \<noteq> []" "pg_text (cl_Kind p)" "validWorkerID (trim_space (cl_WorkerID p))" "pg_text (trim_space (cl_WorkerID p))"
      "cl_Now p \<noteq> 0" "0 < cl_LeaseDuration p"
  shows "claim_result env (p\<lparr>cl_WorkerID := trim_space (cl_WorkerID p)\<rparr>) (greatest_clock env (cl_Now p)) (set (jd_jobs db))
    (snd (job_Claim env p db))"
  using claim_loop_result [of env "p\<lparr>cl_WorkerID := trim_space (cl_WorkerID p)\<rparr>" db] assms by (simp add: job_Claim_def)

text \<open>A queue with an abandoned job that has no attempt left and a job that waits.\<close>

definition sample_job_env :: job_env where
  "sample_job_env = \<lparr>je_fails = (\<lambda>_ _. False), je_commit_lost = False, je_clock = (\<lambda>_. 9000000), je_uuid = Some, je_jsonb = id,
     je_locked = (\<lambda>_. False), je_other = (\<lambda>_ db. db)\<rparr>"

definition sample_waiting :: job_row where
  "sample_waiting = \<lparr>j_id = ''b'', j_workspace_id = ''w'', j_asset_id = Some ''a2'', j_created_by = ''u'', j_kind = KindMockTranscribe,
     j_state = JobQueued, j_payload = ''{}'', j_attempts = 0, j_max_attempts = 3, j_available_at = 1000, j_lease_owner = None,
     j_lease_expires_at = None, j_last_error_code = None, j_result_revision_id = None, j_created_at = 1000, j_updated_at = 1000,
     j_idempotency_key = Some ''k'', j_request_hash = Some (replicate 64 CHR ''0'')\<rparr>"

definition sample_abandoned :: job_row where
  "sample_abandoned = sample_waiting\<lparr>j_id := ''c'', j_asset_id := Some ''a1'', j_state := JobRunning, j_attempts := 1, j_max_attempts := 1,
     j_lease_owner := Some ''x'', j_lease_expires_at := Some 5000, j_idempotency_key := None, j_request_hash := None\<rparr>"

definition sample_attempt :: attempt_row where
  "sample_attempt = \<lparr>at_job_id = ''c'', at_attempt = 1, at_worker_id = ''x'', at_outcome = None, at_error_code = None,
     at_started_at = 2000, at_finished_at = None\<rparr>"

definition sample_asset :: "string \<Rightarrow> string \<Rightarrow> asset_row" where
  "sample_asset i status = \<lparr>as_id = i, as_workspace_id = ''w'', as_status = status, as_version = 1, as_duration_ms = None, as_deleted_at = None, as_updated_at = 1000\<rparr>"

definition sample_job_db :: job_db where
  "sample_job_db = \<lparr>jd_jobs = [sample_waiting, sample_abandoned], jd_attempts = [sample_attempt], jd_notifications = [], jd_audits = [],
     jd_assets = [sample_asset ''a1'' ''processing'', sample_asset ''a2'' ''processing''], jd_objects = [], jd_transcripts = [],
     jd_revisions = [], jd_segments = [], jd_memberships = [(''w'', ''u'')]\<rparr>"

lemma sample_text: "pg_text ''x''" "pg_text ''k''" "pg_text KindMockTranscribe" "length (runes ''k'') = 1"
  by (simp_all add: pg_text_def utf8_valid_def runes_def KindMockTranscribe_def decode_rune_def byte_at_def rune_error_def)

lemma sample_hash_text: "hash_text (replicate 64 CHR ''0'')"
  by (simp add: hash_text_def list_all_length is_hex_lower_def is_digit_def)

lemma sample_job_inv: "job_inv sample_job_db"
  by (auto simp: job_inv_def sample_job_db_def sample_waiting_def sample_abandoned_def sample_attempt_def job_ok_def job_checks_def
      attempts_of_def notes_of_def history_ok_def notes_ok_def last_attempt_ok_def attempt_checks_def opt_check_def terminal_state_def
      same_key_def same_work_def job_states sample_text sample_hash_text)

definition sample_claim :: ClaimParams where
  "sample_claim = \<lparr>cl_Kind = KindMockTranscribe, cl_WorkerID = '' x'', cl_Now = 6000, cl_LeaseDuration = 120 * second\<rparr>"

lemma sample_worker: "trim_space '' x'' = ''x''" "validWorkerID ''x''"
  by (simp_all add: trim_space_def decode_rune_def byte_at_def is_space_def validWorkerID_def runes_def is_control_def)

theorem Claim_first_viable_witness:
  "snd (job_Claim sample_job_env sample_claim sample_job_db) =
     Inr (scanJob (leased ''x'' (120 * second) 9000000 sample_waiting))"
proof -
  have "claim_result sample_job_env (sample_claim\<lparr>cl_WorkerID := ''x''\<rparr>) 9000000 {sample_waiting, sample_abandoned}
      (snd (job_Claim sample_job_env sample_claim sample_job_db))"
    using Claim_first_viable [of sample_job_db sample_job_env sample_claim] sample_job_inv sample_text sample_worker
    by (simp add: sample_claim_def sample_job_env_def sample_job_db_def second_def KindMockTranscribe_def greatest_clock_def
        pg_time_def microsecond_def)
  then show ?thesis
    by (simp add: claim_result_def viable_def claimable_def sample_claim_def sample_waiting_def sample_abandoned_def job_states
        sample_job_env_def)
qed

subsection \<open>Repeated requests\<close>

lemma hash_text_trim: "hash_text h \<Longrightarrow> trim_space h = h"
  by (rule trim_ascii) (auto simp: hash_text_def list_all_iff is_hex_lower_def is_digit_def is_space_def)

lemma load_unique:
  assumes inv: "job_inv db" and r: "r \<in> set (jd_jobs db)" "je_uuid env w = Some (j_workspace_id r)"
      "j_idempotency_key r = Some key" "j_request_hash r = Some hash"
    and no: "\<And>k m. \<not> je_fails env k m"
  shows "loadByIdempotencyKey env k msg w key db = Inr (Some (scanJob r, hash))"
proof -
  have chk: "job_checks r" using job_invD(2) [OF inv r(1)] by (simp add: job_ok_def)
  then have "pg_text key" "hash_text hash" using r(3,4) by (auto simp: job_checks_def opt_check_def)
  moreover have "find P (jd_jobs db) = Some r"
    if P: "P = (\<lambda>r. Some (j_workspace_id r) = je_uuid env w \<and> j_idempotency_key r = Some key)" for P
  proof -
    have "P r" using r unfolding P by simp
    then have "find P (jd_jobs db) \<noteq> None" using r(1) by (auto simp: find_None_iff)
    then obtain s where s: "find P (jd_jobs db) = Some s" by blast
    have "P s" by (rule find_SomeD [OF s])
    then have "same_key r s" using r(2,3) unfolding P by (simp add: same_key_def)
    then have "r = s" by (rule job_invD(4) [OF inv r(1) find_SomeD(1) [OF s]])
    then show ?thesis using s by simp
  qed
  ultimately show ?thesis
    using no r(2,4) by (simp add: loadByIdempotencyKey_def coalesce_text_def hash_text_trim)
qed


definition sample_ct :: CreateTranscriptionParams where
  "sample_ct = \<lparr>ct_JobID = ''d'', ct_AuditID = ''e'', ct_WorkspaceID = ''w'', ct_AssetID = ''a2'', ct_CreatedBy = ''u'',
     ct_Kind = KindMockTranscribe, ct_Payload = ''{}'', ct_MaxAttempts = 3, ct_IdempotencyKey = ''k'',
     ct_RequestHash = replicate 64 CHR ''0''\<rparr>"

definition sample_cc :: CreateCorrectionParams where
  "sample_cc = \<lparr>cc_JobID = ''d'', cc_AuditID = ''e'', cc_WorkspaceID = ''w'', cc_SourceRevisionID = ''r'', cc_CreatedBy = ''u'',
     cc_Kind = KindLLMCorrect, cc_IdempotencyKey = ''k'', cc_RequestHash = replicate 64 CHR ''1'', cc_Payload = ''{}'',
     cc_MaxAttempts = 3\<rparr>"


end
