(* ===== verification/Asr_Result.thy ===== *)
theory Asr_Result
  imports Job_Repository
begin

text \<open>
  \<^verbatim>\<open>internal/asr\<close>: the normalized result of a transcription (\<^verbatim>\<open>provider.go\<close>), the classes of provider errors
  (\<^verbatim>\<open>errors.go\<close>) and the mapping of the responses of the two vendors (\<^verbatim>\<open>aliyun_flash.go\<close>,
  \<^verbatim>\<open>tencent_flash.go\<close>) to that result.  The HTTP exchange is not modelled: a response arrives decoded.
  Decoding the normalized schema is \<^verbatim>\<open>encoding/json\<close> on structures with floating point numbers; it is an
  argument of \<open>ValidateResult\<close>.  A nil slice and an empty one are the same list here.
\<close>

record asr_word =
  aw_StartMS :: int
  aw_EndMS :: int
  aw_Text :: string
  aw_Confidence :: "f64 option"

record asr_segment =
  ag_ID :: string
  ag_StartMS :: int
  ag_EndMS :: int
  ag_Speaker :: string
  ag_Text :: string
  ag_Confidence :: "f64 option"
  ag_Words :: "asr_word list"

record normalizedResult =
  no_Language :: string
  no_Text :: string
  no_Segments :: "asr_segment list"

record asr_result =
  ar_Language :: string
  ar_Text :: string
  ar_Segments :: "asr_segment list"
  ar_RawJSON :: bytes
  ar_RawSchema :: string
  ar_ProviderID :: string
  ar_ProfileID :: string

definition RawSchemaNormalizedV1 :: string where "RawSchemaNormalizedV1 = ''voiceasset.normalized.v1''"
definition RawSchemaAliyunFlashV1 :: string where "RawSchemaAliyunFlashV1 = ''aliyun.flash.v1''"
definition RawSchemaTencentFlashV1 :: string where "RawSchemaTencentFlashV1 = ''tencent.flash.v1''"

lemmas raw_schemas = RawSchemaNormalizedV1_def RawSchemaAliyunFlashV1_def RawSchemaTencentFlashV1_def

subsection \<open>Validation\<close>

definition valid_confidence :: "f64 option \<Rightarrow> bool" where
  "valid_confidence c = (case c of None \<Rightarrow> True | Some x \<Rightarrow> \<not> (f64_negative x \<or> f64_above_one x))"

definition valid_word :: "asr_segment \<Rightarrow> asr_word \<Rightarrow> bool" where
  "valid_word segment word \<longleftrightarrow>
     aw_Text word \<noteq> []
     \<and> \<not> (aw_StartMS word < ag_StartMS segment \<or> aw_EndMS word < aw_StartMS word \<or> aw_EndMS word > ag_EndMS segment)
     \<and> valid_confidence (aw_Confidence word)"

definition valid_segment :: "asr_segment \<Rightarrow> bool" where
  "valid_segment segment \<longleftrightarrow>
     trim_space (ag_ID segment) \<noteq> []
     \<and> \<not> (ag_StartMS segment < 0 \<or> ag_EndMS segment < ag_StartMS segment)
     \<and> trim_space (ag_Text segment) \<noteq> []
     \<and> valid_confidence (ag_Confidence segment)
     \<and> list_all (valid_word segment) (ag_Words segment)"

definition validateNormalized :: "normalizedResult \<Rightarrow> bool" where
  "validateNormalized result \<longleftrightarrow>
     no_Language result \<noteq> [] \<and> no_Text result \<noteq> [] \<and> no_Segments result \<noteq> [] \<and> list_all valid_segment (no_Segments result)"

definition normalizedFromResult :: "asr_result \<Rightarrow> normalizedResult" where
  "normalizedFromResult r = \<lparr>no_Language = ar_Language r, no_Text = ar_Text r, no_Segments = ar_Segments r\<rparr>"

definition ValidateResult :: "(bytes \<Rightarrow> normalizedResult option) \<Rightarrow> asr_result \<Rightarrow> bool" where
  "ValidateResult decode result \<longleftrightarrow>
     (let trimmed = trim_space (ar_RawJSON result) in
      trimmed \<noteq> [] \<and> trimmed ! 0 = CHR ''{'' \<and> json_valid trimmed
      \<and> validateNormalized (normalizedFromResult result)
      \<and> (if ar_RawSchema result = [] \<or> ar_RawSchema result = RawSchemaNormalizedV1 then
           (case decode (ar_RawJSON result) of
              None \<Rightarrow> False
            | Some raw \<Rightarrow> validateNormalized raw \<and> raw = normalizedFromResult result)
         else ar_RawSchema result = RawSchemaAliyunFlashV1 \<or> ar_RawSchema result = RawSchemaTencentFlashV1))"

subsection \<open>Error classes\<close>

definition ErrorInvalidConfiguration :: string where "ErrorInvalidConfiguration = ''invalid_configuration''"
definition ErrorAuthentication :: string where "ErrorAuthentication = ''authentication''"
definition ErrorAuthorization :: string where "ErrorAuthorization = ''authorization''"
definition ErrorRateLimited :: string where "ErrorRateLimited = ''rate_limited''"
definition ErrorInvalidAudio :: string where "ErrorInvalidAudio = ''invalid_audio''"
definition ErrorUnsupported :: string where "ErrorUnsupported = ''unsupported''"
definition ErrorTransient :: string where "ErrorTransient = ''transient''"
definition ErrorRejected :: string where "ErrorRejected = ''rejected''"

text \<open>An error of a provider, up to the class \<^verbatim>\<open>ErrorClassOf\<close> finds: empty if there is none.\<close>

type_synonym provider_error = string

definition IsRetryable :: "provider_error \<Rightarrow> bool" where
  "IsRetryable err \<longleftrightarrow> err = ErrorRateLimited \<or> err = ErrorTransient"

definition classifyAliyunFlashError :: "int \<Rightarrow> provider_error" where
  "classifyAliyunFlashError code =
     (if code = 40000001 then ErrorAuthentication
      else if code = 40000005 then ErrorRateLimited
      else if code \<in> {40000004, 50000000, 50000001, 52010001} then ErrorTransient
      else if code = 40000010 then ErrorAuthorization
      else if code \<in> {40270001, 40270002, 40270003, 40270004, 40270006} then ErrorInvalidAudio
      else ErrorRejected)"

definition classifyTencentFlashError :: "int \<Rightarrow> provider_error" where
  "classifyTencentFlashError code =
     (if code = 4002 then ErrorAuthentication
      else if code \<in> {4003, 4004, 4005} then ErrorAuthorization
      else if code = 4006 then ErrorRateLimited
      else if code \<in> {4007, 4011, 4012} then ErrorInvalidAudio
      else if code \<in> {4008, 4009, 5001, 5002, 5003} then ErrorTransient
      else ErrorRejected)"

subsection \<open>Aliyun\<close>

record aliyunFlashWord =
  al_Text :: string
  al_Punctuation :: string
  al_BeginTime :: int
  al_EndTime :: int

record aliyunFlashSentence =
  ay_Text :: string
  ay_Words :: "aliyunFlashWord list"
  ay_BeginTime :: int
  ay_EndTime :: int
  ay_ChannelID :: int

definition segment_id :: "nat \<Rightarrow> string" where
  "segment_id index = ''segment-'' @ pad 4 (int (index + 1))"

definition aliyun_word :: "aliyunFlashWord \<Rightarrow> asr_word" where
  "aliyun_word source =
     \<lparr>aw_StartMS = al_BeginTime source, aw_EndMS = al_EndTime source, aw_Text = al_Text source @ al_Punctuation source,
      aw_Confidence = None\<rparr>"

definition aliyun_segment :: "nat \<Rightarrow> aliyunFlashSentence \<Rightarrow> asr_segment" where
  "aliyun_segment index sentence =
     \<lparr>ag_ID = segment_id index, ag_StartMS = ay_BeginTime sentence, ag_EndMS = ay_EndTime sentence,
      ag_Speaker = ''channel-'' @ show_int (ay_ChannelID sentence), ag_Text = ay_Text sentence, ag_Confidence = None,
      ag_Words = map aliyun_word (ay_Words sentence)\<rparr>"

definition normalized_language :: "string \<Rightarrow> string \<Rightarrow> string" where
  "normalized_language requestedLanguage profileLanguage =
     (if trim_space requestedLanguage = [] then profileLanguage else trim_space requestedLanguage)"

definition normalizeAliyunFlash :: "bytes \<Rightarrow> aliyunFlashSentence list \<Rightarrow> string \<Rightarrow> string \<Rightarrow> asr_result option" where
  "normalizeAliyunFlash raw sentences0 requestedLanguage profileLanguage =
     (let sentences = sort_key (\<lambda>s. (ay_BeginTime s, ay_EndTime s, ay_ChannelID s)) sentences0;
          result = \<lparr>ar_Language = normalized_language requestedLanguage profileLanguage,
            ar_Text = concat (map ay_Text sentences), ar_Segments = map2 aliyun_segment [0..<length sentences] sentences,
            ar_RawJSON = raw, ar_RawSchema = RawSchemaAliyunFlashV1, ar_ProviderID = [], ar_ProfileID = []\<rparr> in
      if ValidateResult (\<lambda>_. None) result then Some result else None)"

subsection \<open>Tencent\<close>

record tencentWordResult =
  tw_Word :: string
  tw_StartTime :: int
  tw_EndTime :: int

record tencentSentenceResult =
  te_Text :: string
  te_StartTime :: int
  te_EndTime :: int
  te_SpeakerID :: int
  te_WordList :: "tencentWordResult list"
  te_channelID :: int

record tencentChannelResult =
  tc_ChannelID :: int
  tc_SentenceList :: "tencentSentenceResult list"

definition tencent_word :: "tencentWordResult \<Rightarrow> asr_word" where
  "tencent_word source =
     \<lparr>aw_StartMS = tw_StartTime source, aw_EndMS = tw_EndTime source, aw_Text = tw_Word source, aw_Confidence = None\<rparr>"

definition tencent_segment :: "bool \<Rightarrow> nat \<Rightarrow> tencentSentenceResult \<Rightarrow> asr_segment" where
  "tencent_segment diarization index sentence =
     \<lparr>ag_ID = segment_id index,
      ag_StartMS = fold (\<lambda>w t. if tw_StartTime w < t then tw_StartTime w else t) (te_WordList sentence) (te_StartTime sentence),
      ag_EndMS = fold (\<lambda>w t. if tw_EndTime w > t then tw_EndTime w else t) (te_WordList sentence) (te_EndTime sentence),
      ag_Speaker = (if diarization then ''speaker-'' @ show_int (te_SpeakerID sentence)
                    else ''channel-'' @ show_int (te_channelID sentence)),
      ag_Text = te_Text sentence, ag_Confidence = None, ag_Words = map tencent_word (te_WordList sentence)\<rparr>"

definition normalizeTencentFlash ::
  "bytes \<Rightarrow> tencentChannelResult list \<Rightarrow> string \<Rightarrow> string \<Rightarrow> bool \<Rightarrow> asr_result option" where
  "normalizeTencentFlash raw flashResult requestedLanguage profileLanguage diarization =
     (let sentences = sort_key (\<lambda>s. (te_StartTime s, te_EndTime s, te_channelID s))
            (concat (map (\<lambda>c. map (\<lambda>s. s\<lparr>te_channelID := tc_ChannelID c\<rparr>) (tc_SentenceList c)) flashResult));
          result = \<lparr>ar_Language = normalized_language requestedLanguage profileLanguage,
            ar_Text = concat (map te_Text sentences),
            ar_Segments = map2 (tencent_segment diarization) [0..<length sentences] sentences,
            ar_RawJSON = raw, ar_RawSchema = RawSchemaTencentFlashV1, ar_ProviderID = [], ar_ProfileID = []\<rparr> in
      if ValidateResult (\<lambda>_. None) result then Some result else None)"

end
