(* ===== verification/Job_Service.thy ===== *)
theory Job_Service
  imports Job_Repository
begin

text \<open>
  \<^verbatim>\<open>internal/job/service.go\<close>, the requests for jobs, and the retry of a failed job by an administrator
  (\<^verbatim>\<open>RetryJob\<close> of \<^verbatim>\<open>internal/operations\<close>), which changes the same tables.  The random bytes of the two
  identifiers a request draws are arguments.
\<close>

subsection \<open>Requests\<close>

definition validIdempotencyKey :: "string \<Rightarrow> bool" where
  "validIdempotencyKey key \<longleftrightarrow> 1 \<le> length key \<and> length key \<le> 200 \<and> list_all (\<lambda>r. \<not> is_control r) (runes key)"

text \<open>The sentinel errors pass, everything else is wrapped.\<close>

definition job_sentinel :: "job_error list \<Rightarrow> string \<Rightarrow> job_error \<Rightarrow> job_error" where
  "job_sentinel sentinels msg e = (if e \<in> set sentinels then e else JobOther msg)"

definition job_requestHash :: "string \<Rightarrow> string \<Rightarrow> string" where
  "job_requestHash kind i = hex_encode (Sum256 (kind @ [CHR 0x00] @ i))"

definition js_CreateTranscription ::
  "job_env \<Rightarrow> bytes option \<Rightarrow> bytes option \<Rightarrow> principal \<Rightarrow> string \<Rightarrow> string \<Rightarrow> job_db \<Rightarrow> job_db \<times> (job_error + (Job \<times> bool))" where
  "js_CreateTranscription env random1 random2 actor assetID0 idempotencyKey0 db =
     (if \<not> Can actor ScopeTranscriptionsWrite then (db, Inl JobForbidden)
      else let assetID = trim_space assetID0; idempotencyKey = trim_space idempotencyKey0 in
      if assetID = [] \<or> \<not> validIdempotencyKey idempotencyKey then (db, Inl JobInvalidInput)
      else case NewUUIDFrom random1 of
        Inl _ \<Rightarrow> (db, Inl (JobOther ''generate identifier''))
      | Inr jobID \<Rightarrow>
      case NewUUIDFrom random2 of
        Inl _ \<Rightarrow> (db, Inl (JobOther ''generate identifier''))
      | Inr auditID \<Rightarrow>
      case job_CreateTranscription env
             \<lparr>ct_JobID = jobID, ct_AuditID = auditID, ct_WorkspaceID = p_WorkspaceID actor, ct_AssetID = assetID,
              ct_CreatedBy = p_UserID actor, ct_Kind = KindMockTranscribe,
              ct_Payload = json_encode (JObj [(''asset_id'', JStr assetID)]), ct_MaxAttempts = DefaultMaxAttempts,
              ct_IdempotencyKey = idempotencyKey, ct_RequestHash = job_requestHash KindMockTranscribe assetID\<rparr> db of
        (db, Inl e) \<Rightarrow> (db, Inl (job_sentinel [JobNotFound, AssetNotReady, JobIdempotencyConflict] ''create transcription job: %w'' e))
      | (db, Inr r) \<Rightarrow> (db, Inr r))"

definition js_CreateCorrection ::
  "job_env \<Rightarrow> bytes option \<Rightarrow> bytes option \<Rightarrow> principal \<Rightarrow> string \<Rightarrow> string \<Rightarrow> job_db \<Rightarrow> job_db \<times> (job_error + (Job \<times> bool))" where
  "js_CreateCorrection env random1 random2 actor sourceRevisionID0 idempotencyKey0 db =
     (if \<not> Can actor ScopeCorrectionsWrite then (db, Inl JobForbidden)
      else let (sourceRevisionID, ok) = NormalizeUUID sourceRevisionID0; idempotencyKey = trim_space idempotencyKey0 in
      if \<not> ok \<or> \<not> validIdempotencyKey idempotencyKey then (db, Inl JobInvalidInput)
      else case NewUUIDFrom random1 of
        Inl _ \<Rightarrow> (db, Inl (JobOther ''generate identifier''))
      | Inr jobID \<Rightarrow>
      case NewUUIDFrom random2 of
        Inl _ \<Rightarrow> (db, Inl (JobOther ''generate identifier''))
      | Inr auditID \<Rightarrow>
      case job_CreateCorrection env
             \<lparr>cc_JobID = jobID, cc_AuditID = auditID, cc_WorkspaceID = p_WorkspaceID actor,
              cc_SourceRevisionID = sourceRevisionID, cc_CreatedBy = p_UserID actor, cc_Kind = KindLLMCorrect,
              cc_IdempotencyKey = idempotencyKey, cc_RequestHash = job_requestHash KindLLMCorrect sourceRevisionID,
              cc_Payload = json_encode (JObj [(''source_revision_id'', JStr sourceRevisionID)]),
              cc_MaxAttempts = DefaultMaxAttempts\<rparr> db of
        (db, Inl e) \<Rightarrow>
          (db, Inl (job_sentinel [JobNotFound, RevisionNotCorrectable, CorrectionActive, JobIdempotencyConflict]
             ''create correction job: %w'' e))
      | (db, Inr r) \<Rightarrow> (db, Inr r))"

definition js_Get :: "job_env \<Rightarrow> principal \<Rightarrow> string \<Rightarrow> job_db \<Rightarrow> job_error + Job" where
  "js_Get env actor jobID0 db =
     (if \<not> Can actor ScopeTranscriptsRead then Inl JobForbidden
      else let jobID = trim_space jobID0 in
      if jobID = [] then Inl JobNotFound
      else case job_Get env (p_WorkspaceID actor) jobID db of
        Inl e \<Rightarrow> Inl (job_sentinel [JobNotFound] ''get job: %w'' e)
      | Inr r \<Rightarrow> Inr r)"

subsection \<open>Retrying a failed job\<close>

datatype ops_error = OpsForbidden | OpsInvalidInput | OpsNotFound | NotRetryable | RetryLimit | OpsOther string

record RetryJobParams =
  rj_JobID :: string
  rj_AuditID :: string
  rj_WorkspaceID :: string
  rj_ActorID :: string
  rj_RequestID :: string
  rj_AvailableAt :: go_time

definition retry_eligible :: "string \<Rightarrow> asset_row \<Rightarrow> bool" where
  "retry_eligible kind a \<longleftrightarrow>
     (if kind = KindMockTranscribe then as_status a = ''failed'' \<and> as_deleted_at a = None
      else if kind = KindLLMCorrect \<or> kind = KindGenerateWaveform then as_status a = ''ready'' \<and> as_deleted_at a = None
      else if kind = KindPurgeAsset then as_status a = ''purging''
      else False)"

definition requeued :: "go_time \<Rightarrow> job_row \<Rightarrow> job_row" where
  "requeued availableAt r =
     r\<lparr>j_state := JobQueued, j_max_attempts := j_max_attempts r + 1, j_available_at := availableAt, j_lease_owner := None,
       j_lease_expires_at := None, j_last_error_code := None, j_updated_at := availableAt\<rparr>"

definition retry_update ::
  "job_env \<Rightarrow> RetryJobParams \<Rightarrow> go_time \<Rightarrow> job_row \<Rightarrow> job_db \<Rightarrow> job_db \<Rightarrow> job_db \<times> (ops_error + job_row)" where
  "retry_update env p availableAt current old db =
     (let new = requeued availableAt current in
      if je_fails env 0 ''queue operations job retry: %w'' \<or> \<not> job_checks new then
        (old, Inl (OpsOther ''queue operations job retry: %w''))
      else if active_clash db new then (old, Inl NotRetryable)
      else case insert_audit env ''insert operations job retry audit: %w''
             \<lparr>ja_id = rj_AuditID p, ja_workspace_id = j_workspace_id current, ja_actor_id = Some (rj_ActorID p),
              ja_action = ''admin.job.retried'', ja_target_id = j_id current\<rparr> (set_job current new db) of
        Inl _ \<Rightarrow> (old, Inl (OpsOther ''insert operations job retry audit: %w''))
      | Inr db' \<Rightarrow>
      case tx_commit env 0 ''commit operations job retry: %w'' old db' new of
        (db', Inl _) \<Rightarrow> (db', Inl (OpsOther ''commit operations job retry: %w''))
      | (db', Inr r) \<Rightarrow> (db', Inr r))"

definition ops_RetryJob :: "job_env \<Rightarrow> RetryJobParams \<Rightarrow> job_db \<Rightarrow> job_db \<times> (ops_error + job_row)" where
  "ops_RetryJob env p db =
     (if je_fails env 0 ''begin operations job retry: %w'' then (db, Inl (OpsOther ''begin operations job retry: %w''))
      else if je_fails env 0 ''resolve operations retry clock: %w'' then
        (db, Inl (OpsOther ''resolve operations retry clock: %w''))
      else let availableAt = greatest_clock env (rj_AvailableAt p) in
      if je_fails env 0 ''lock operations job retry: %w'' \<or> je_uuid env (rj_JobID p) = None
          \<or> je_uuid env (rj_WorkspaceID p) = None then (db, Inl (OpsOther ''lock operations job retry: %w''))
      else case find (\<lambda>r. Some (j_id r) = je_uuid env (rj_JobID p)
                 \<and> Some (j_workspace_id r) = je_uuid env (rj_WorkspaceID p)) (jd_jobs db) of
        None \<Rightarrow> (db, Inl OpsNotFound)
      | Some current \<Rightarrow>
      if j_state current \<noteq> JobFailed \<or> j_result_revision_id current \<noteq> None \<or> coalesce_text (j_asset_id current) = [] then
        (db, Inl NotRetryable)
      else if 20 \<le> j_max_attempts current then (db, Inl RetryLimit)
      else if je_fails env 0 ''lock operations retry asset: %w'' then (db, Inl (OpsOther ''lock operations retry asset: %w''))
      else case find (\<lambda>a. Some (as_id a) = j_asset_id current \<and> as_workspace_id a = j_workspace_id current) (jd_assets db) of
        None \<Rightarrow> (db, Inl NotRetryable)
      | Some a \<Rightarrow>
      if \<not> retry_eligible (j_kind current) a then (db, Inl NotRetryable)
      else if j_kind current = KindMockTranscribe then
        (if je_fails env 0 ''restore retried transcription asset: %w'' then
           (db, Inl (OpsOther ''restore retried transcription asset: %w''))
         else if length (filter (\<lambda>x. asset_matches (as_id a) (as_workspace_id a) ''failed'' x \<and> as_deleted_at x = None)
             (jd_assets db)) \<noteq> 1 then (db, Inl NotRetryable)
         else retry_update env p availableAt current db
           (set_asset_status (as_id a) (as_workspace_id a) ''failed'' ''processing'' availableAt db))
      else retry_update env p availableAt current db db)"

subsection \<open>Retrying as an administrator\<close>

definition authorizeWrite :: "principal \<Rightarrow> (string \<times> string) option" where
  "authorizeWrite actor =
     (if \<not> Can actor ScopeAdminWrite then None
      else let (workspaceID, validWorkspace) = NormalizeUUID (p_WorkspaceID actor);
               (actorID, validActor) = NormalizeUUID (p_UserID actor) in
      if \<not> validWorkspace \<or> \<not> validActor then None else Some (workspaceID, actorID))"

definition svc_RetryJob ::
  "job_env \<Rightarrow> bytes option \<Rightarrow> go_time \<Rightarrow> principal \<Rightarrow> string \<Rightarrow> string \<Rightarrow> job_db \<Rightarrow> job_db \<times> (ops_error + job_row)" where
  "svc_RetryJob env random now actor jobID0 requestID db =
     (case authorizeWrite actor of
        None \<Rightarrow> (db, Inl OpsForbidden)
      | Some (workspaceID, actorID) \<Rightarrow>
      let (jobID, validID) = NormalizeUUID jobID0 in
      if \<not> validID then (db, Inl OpsNotFound)
      else if requestID = [] \<or> 200 < length requestID then (db, Inl OpsInvalidInput)
      else case NewUUIDFrom random of
        Inl _ \<Rightarrow> (db, Inl (OpsOther ''generate job retry audit identifier: %w''))
      | Inr auditID \<Rightarrow>
      case ops_RetryJob env \<lparr>rj_JobID = jobID, rj_AuditID = auditID, rj_WorkspaceID = workspaceID, rj_ActorID = actorID,
             rj_RequestID = requestID, rj_AvailableAt = now\<rparr> db of
        (db, Inl e) \<Rightarrow> (db, Inl (if e \<in> {OpsNotFound, NotRetryable, RetryLimit} then e else OpsOther ''retry operations job: %w''))
      | (db, Inr r) \<Rightarrow> (db, Inr r))"

subsection \<open>What a retry changes\<close>

lemma ops_RetryJob_cases:
  assumes "ops_RetryJob env p db = (db', res)"
  obtains (same) "db' = db" "\<exists>e. res = Inl e"
  | (requeued) r assets audits availableAt where
      "r \<in> set (jd_jobs db)" "j_state r = JobFailed" "j_max_attempts r < 20" "job_checks (requeued availableAt r)"
      "\<not> active_clash db (requeued availableAt r)"
      "db' = (set_job r (requeued availableAt r) (db\<lparr>jd_assets := assets\<rparr>))\<lparr>jd_audits := audits\<rparr>"
      "res = Inr (requeued availableAt r) \<or> (res = Inl (OpsOther ''commit operations job retry: %w'') \<and> je_commit_lost env)"
proof -
  have clash: "active_clash (db\<lparr>jd_assets := a\<rparr>) x = active_clash db x" for a x by (simp add: active_clash_def)
  have self: "db = db\<lparr>jd_assets := jd_assets db\<rparr>" by simp
  have upd: "(db' = db \<and> (\<exists>e. res = Inl e)) \<or> (job_checks (requeued t r) \<and> \<not> active_clash db (requeued t r)
      \<and> (\<exists>audits. db' = (set_job r (requeued t r) (db\<lparr>jd_assets := assets\<rparr>))\<lparr>jd_audits := audits\<rparr>)
      \<and> (res = Inr (requeued t r) \<or> (res = Inl (OpsOther ''commit operations job retry: %w'') \<and> je_commit_lost env)))"
    if "retry_update env p t r db (db\<lparr>jd_assets := assets\<rparr>) = (db', res)" for t r assets
    using that
    by (auto simp: retry_update_def Let_def insert_audit_def tx_commit_def clash split: if_splits)
  have "(db' = db \<and> (\<exists>e. res = Inl e))
    \<or> (\<exists>r assets t. r \<in> set (jd_jobs db) \<and> j_state r = JobFailed \<and> j_max_attempts r < 20
         \<and> retry_update env p t r db (db\<lparr>jd_assets := assets\<rparr>) = (db', res))"
    using assms unfolding ops_RetryJob_def Let_def set_asset_status_def
    by (auto split: if_splits option.splits dest: find_SomeD simp: self [symmetric]) (metis find_SomeD(1) self not_le)+
  then show thesis using upd same requeued by blast
qed

lemma ops_RetryJob_inv: "job_inv db \<Longrightarrow> job_inv (fst (ops_RetryJob env p db))"
proof -
  assume inv: "job_inv db"
  obtain db' res where c: "ops_RetryJob env p db = (db', res)" by (rule prod.exhaust)
  then show ?thesis
  proof (cases rule: ops_RetryJob_cases)
    case same
    then show ?thesis using inv c by simp
  next
    case (requeued r assets audits t)
    let ?new = "requeued t r" and ?db = "db\<lparr>jd_assets := assets\<rparr>"
    have ok: "job_ok db r" by (rule job_invD(2) [OF inv requeued(1)])
    have at: "attempts_of ?db i = attempts_of db i" "notes_of ?db i = notes_of db i" for i
      by (simp_all add: attempts_of_def notes_of_def)
    have n: "append_terminal_job_notification (j_state r) ?new ns = ns" for ns
      by (simp add: append_terminal_job_notification_def requeued_def terminal_state_def job_states)
    have new: "j_id ?new = j_id r" "j_state ?new = JobQueued" "j_attempts ?new = j_attempts r"
      "j_workspace_id ?new = j_workspace_id r" "j_idempotency_key ?new = j_idempotency_key r" "j_asset_id ?new = j_asset_id r"
      "j_kind ?new = j_kind r"
      by (simp_all add: requeued_def)
    have "history_ok ?new (attempts_of db (j_id r))"
      using ok requeued(2) by (auto simp: job_ok_def history_ok_def last_attempt_ok_def requeued_def job_states)
    moreover have "notes_ok ?new (notes_of db (j_id r))"
      using ok requeued(2) by (auto simp: job_ok_def notes_ok_def new terminal_state_def job_states)
    ultimately have "job_ok (set_job r ?new ?db) ?new"
      using requeued(4) by (simp add: job_ok_def new notes_of_set_job at n job_states)
    then have "job_inv (set_job r ?new ?db)"
      using requeued(5) new
      by (intro job_inv_change [OF inv requeued(1), of ?new]) (simp_all add: at notes_of_set_job, simp add: set_job_def)
    then show ?thesis using c requeued(6) by simp
  qed
qed

end
