(* ===== verification/Transcription.thy ===== *)
theory Transcription
  imports Asr_Result Job_Service
begin

text \<open>
  \<^verbatim>\<open>internal/transcription\<close>: the worker that transcribes (\<^verbatim>\<open>processor.go\<close>) and the transaction that publishes
  its result (\<^verbatim>\<open>postgres_committer.go\<close>), on the tables of \<open>Job_Repository\<close>.
\<close>

subsection \<open>What is committed\<close>

record tr_segment =
  ts_ID :: string
  ts_Ordinal :: int
  ts_StartMS :: int
  ts_EndMS :: int
  ts_Speaker :: "string option"
  ts_Text :: string
  ts_Confidence :: "f64 option"
  ts_Words :: bytes

record storage_object =
  so_Backend :: string
  so_Key :: string
  so_Size :: int
  so_SHA256 :: string

record CommitRawParams =
  cr_JobID :: string
  cr_WorkerID :: string
  cr_WorkspaceID :: string
  cr_AssetID :: string
  cr_ActorID :: string
  cr_TranscriptID :: string
  cr_RevisionID :: string
  cr_NormalizedRevisionID :: string
  cr_RawObjectID :: string
  cr_AuditID :: string
  cr_Language :: string
  cr_Text :: string
  cr_ProviderID :: string
  cr_ProviderSnapshot :: bytes
  cr_HotwordSnapshot :: bytes
  cr_RawObject :: storage_object
  cr_Segments :: "tr_segment list"
  cr_NormalizedSegments :: "tr_segment list"
  cr_Now :: go_time

definition commitProviderID :: "string \<Rightarrow> bool" where
  "commitProviderID v \<longleftrightarrow>
     2 \<le> length v \<and> length v \<le> 64 \<and> is_lower (v ! 0)
     \<and> list_all (\<lambda>c. is_lower c \<or> is_digit c \<or> c = CHR ''_'') (tl v)"

definition validJSONObject :: "bytes \<Rightarrow> bool" where
  "validJSONObject value \<longleftrightarrow>
     (let trimmed = trim_space value in 1 < length trimmed \<and> trimmed ! 0 = CHR ''{'' \<and> json_valid trimmed)"

text \<open>\<^verbatim>\<open>json.Unmarshal\<close> into a \<^verbatim>\<open>[]json.RawMessage\<close>.\<close>

definition unmarshals_to_array :: "bytes \<Rightarrow> bool" where
  "unmarshals_to_array data \<longleftrightarrow> (case json_parse data of Some (JArr _) \<Rightarrow> True | Some JNull \<Rightarrow> True | _ \<Rightarrow> False)"

definition valid_raw_segment :: "nat \<Rightarrow> tr_segment \<Rightarrow> bool" where
  "valid_raw_segment ordinal s \<longleftrightarrow>
     \<not> (ts_ID s = [] \<or> ts_Ordinal s \<noteq> int ordinal \<or> ts_StartMS s < 0 \<or> ts_EndMS s < ts_StartMS s \<or> ts_Text s = []
        \<or> (case ts_Confidence s of None \<Rightarrow> True | Some c \<Rightarrow> f64_negative c \<or> f64_above_one c)
        \<or> \<not> unmarshals_to_array (ts_Words s))"

definition valid_normalized_segment :: "nat \<Rightarrow> tr_segment \<Rightarrow> tr_segment \<Rightarrow> bool" where
  "valid_normalized_segment ordinal raw s \<longleftrightarrow>
     \<not> (ts_ID s = [] \<or> ts_ID s = ts_ID raw \<or> ts_Ordinal s \<noteq> int ordinal \<or> ts_StartMS s \<noteq> ts_StartMS raw
        \<or> ts_EndMS s \<noteq> ts_EndMS raw \<or> ts_Text s \<noteq> ts_Text raw \<or> ts_Words s \<noteq> ts_Words raw)"

definition validateCommit :: "CommitRawParams \<Rightarrow> bool" where
  "validateCommit p \<longleftrightarrow>
     \<not> (cr_JobID p = [] \<or> cr_WorkerID p = [] \<or> cr_WorkspaceID p = [] \<or> cr_AssetID p = [] \<or> cr_ActorID p = []
        \<or> cr_TranscriptID p = [] \<or> cr_RevisionID p = [] \<or> cr_NormalizedRevisionID p = [] \<or> cr_RawObjectID p = []
        \<or> cr_AuditID p = [] \<or> cr_Language p = [] \<or> cr_Text p = [] \<or> is_zero_time (cr_Now p)
        \<or> \<not> commitProviderID (cr_ProviderID p) \<or> so_Key (cr_RawObject p) = [] \<or> so_Size (cr_RawObject p) \<le> 0
        \<or> \<not> hash_text (so_SHA256 (cr_RawObject p))
        \<or> \<not> validJSONObject (cr_ProviderSnapshot p) \<or> \<not> validJSONObject (cr_HotwordSnapshot p)
        \<or> cr_Segments p = [] \<or> length (cr_NormalizedSegments p) \<noteq> length (cr_Segments p))
     \<and> list_all (\<lambda>(i, s). valid_raw_segment i s) (enumerate 0 (cr_Segments p))
     \<and> list_all (\<lambda>(i, raw, s). valid_normalized_segment i raw s) (enumerate 0 (zip (cr_Segments p) (cr_NormalizedSegments p)))"

subsection \<open>Inserting\<close>

datatype commit_error = InvalidCommit | CommitNotFound | CommitLeaseConflict | CommitOther string

text \<open>
  An identifier as the database stores it.  A statement with an identifier that is no \<^verbatim>\<open>uuid\<close> fails.
\<close>

definition pg_id :: "job_env \<Rightarrow> string \<Rightarrow> string" where
  "pg_id env i = (case je_uuid env i of None \<Rightarrow> i | Some u \<Rightarrow> u)"

text \<open>The constraints on the media columns of an object.\<close>

definition media_checks :: "object_row \<Rightarrow> bool" where
  "media_checks row \<longleftrightarrow>
     pg_text (ob_mime_type row) \<and> opt_check pg_text (ob_container row) \<and> opt_check pg_text (ob_codec row)
     \<and> opt_check (\<lambda>v. 0 < v \<and> v < 2 ^ 31) (ob_sample_rate row) \<and> opt_check (\<lambda>v. 0 < v \<and> v < 2 ^ 15) (ob_channel_count row)
     \<and> opt_check (\<lambda>v. 0 \<le> v \<and> v < 2 ^ 63) (ob_bitrate row) \<and> opt_check (\<lambda>v. 0 \<le> v) (ob_duration_ms row)"

definition insert_object :: "job_env \<Rightarrow> string \<Rightarrow> object_row \<Rightarrow> job_db \<Rightarrow> commit_error + job_db" where
  "insert_object env msg row db =
     (if je_fails env 0 msg \<or> je_uuid env (ob_id row) = None
         \<or> ob_backend row \<notin> {''local'', ''s3''} \<or> ob_size row < 0 \<or> \<not> hash_text (ob_sha256 row) \<or> \<not> pg_text (ob_key row)
         \<or> \<not> media_checks row
         \<or> ob_id row \<in> set (map ob_id (jd_objects db))
         \<or> (ob_backend row, ob_key row) \<in> set (map (\<lambda>x. (ob_backend x, ob_key x)) (jd_objects db))
         \<or> (ob_kind row \<in> {''original'', ''waveform''}
             \<and> (\<exists>x\<in>set (jd_objects db). ob_asset_id x = ob_asset_id row \<and> ob_kind x = ob_kind row)) then
        Inl (CommitOther msg)
      else Inr (db\<lparr>jd_objects := jd_objects db @ [row]\<rparr>))"

definition insert_transcript :: "job_env \<Rightarrow> string \<Rightarrow> transcript_row \<Rightarrow> job_db \<Rightarrow> commit_error + job_db" where
  "insert_transcript env msg row db =
     (if je_fails env 0 msg \<or> je_uuid env (tr_id row) = None \<or> \<not> pg_text (tr_language row)
         \<or> tr_id row \<in> set (map tr_id (jd_transcripts db)) then Inl (CommitOther msg)
      else Inr (db\<lparr>jd_transcripts := jd_transcripts db @ [row]\<rparr>))"

definition insert_revision :: "job_env \<Rightarrow> string \<Rightarrow> revision_row \<Rightarrow> job_db \<Rightarrow> commit_error + job_db" where
  "insert_revision env msg row db =
     (if je_fails env 0 msg \<or> je_uuid env (rv_id row) = None \<or> \<not> pg_text (rv_text row)
         \<or> rv_id row \<in> set (map rv_id (jd_revisions db))
         \<or> rv_transcript_id row \<notin> set (map tr_id (jd_transcripts db))
         \<or> (case rv_parent_id row of None \<Rightarrow> False | Some i \<Rightarrow> i \<notin> set (map rv_id (jd_revisions db)))
         \<or> (case rv_raw_object_id row of None \<Rightarrow> False | Some i \<Rightarrow> i \<notin> set (map ob_id (jd_objects db)))
         \<or> (rv_kind row = ''raw_asr'' \<and> rv_source_job_id row \<noteq> None
             \<and> (\<exists>x\<in>set (jd_revisions db). rv_kind x = ''raw_asr'' \<and> rv_source_job_id x = rv_source_job_id row)) then
        Inl (CommitOther msg)
      else Inr (db\<lparr>jd_revisions := jd_revisions db @ [row]\<rparr>))"

definition segment_row_of :: "job_env \<Rightarrow> string \<Rightarrow> go_time \<Rightarrow> tr_segment \<Rightarrow> segment_row" where
  "segment_row_of env revisionID at s =
     \<lparr>sg_id = pg_id env (ts_ID s), sg_revision_id = revisionID, sg_ordinal = ts_Ordinal s, sg_start_ms = ts_StartMS s,
      sg_end_ms = ts_EndMS s, sg_speaker = ts_Speaker s, sg_text = ts_Text s, sg_confidence = ts_Confidence s,
      sg_words = je_jsonb env (ts_Words s), sg_created_at = at\<rparr>"

definition segment_checks :: "tr_segment \<Rightarrow> bool" where
  "segment_checks s \<longleftrightarrow>
     0 \<le> ts_Ordinal s \<and> 0 \<le> ts_StartMS s \<and> ts_StartMS s \<le> ts_EndMS s \<and> opt_check pg_text (ts_Speaker s) \<and> pg_text (ts_Text s)
     \<and> opt_check (\<lambda>c. c \<noteq> F64NaN \<and> \<not> f64_negative c \<and> \<not> f64_above_one c) (ts_Confidence s)
     \<and> (case json_parse (ts_Words s) of Some (JArr _) \<Rightarrow> True | _ \<Rightarrow> False)"

fun insert_segments :: "job_env \<Rightarrow> string \<Rightarrow> string \<Rightarrow> go_time \<Rightarrow> tr_segment list \<Rightarrow> job_db \<Rightarrow> commit_error + job_db" where
  "insert_segments env msg revisionID at [] db = Inr db"
| "insert_segments env msg revisionID at (s # rest) db =
     (let row = segment_row_of env revisionID at s in
      if je_fails env 0 msg \<or> je_uuid env (ts_ID s) = None \<or> \<not> segment_checks s
         \<or> sg_id row \<in> set (map sg_id (jd_segments db))
         \<or> (revisionID, ts_Ordinal s) \<in> set (map (\<lambda>x. (sg_revision_id x, sg_ordinal x)) (jd_segments db)) then
        Inl (CommitOther msg)
      else insert_segments env msg revisionID at rest (db\<lparr>jd_segments := jd_segments db @ [row]\<rparr>))"

subsection \<open>CommitRaw\<close>

text \<open>The job row, locked and checked against the claim.\<close>

definition lock_leased_job ::
  "job_env \<Rightarrow> string \<Rightarrow> string \<Rightarrow> string \<Rightarrow> string \<Rightarrow> string \<Rightarrow> string \<Rightarrow> go_time \<Rightarrow> job_db \<Rightarrow> commit_error + job_row" where
  "lock_leased_job env msg jobID workerID workspaceID assetID actorID now db =
     (if je_fails env 0 msg \<or> je_uuid env jobID = None then Inl (CommitOther msg)
      else case find (\<lambda>r. Some (j_id r) = je_uuid env jobID) (jd_jobs db) of
        None \<Rightarrow> Inl CommitNotFound
      | Some r \<Rightarrow>
      case j_asset_id r of
        None \<Rightarrow> Inl (CommitOther msg)
      | Some a \<Rightarrow>
      if j_workspace_id r \<noteq> workspaceID \<or> a \<noteq> assetID \<or> j_created_by r \<noteq> actorID \<or> \<not> ownsLiveLease r workerID now then
        Inl CommitLeaseConflict
      else Inr r)"

text \<open>The end of the three transactions that complete a job: its attempt and its row.\<close>

definition succeed_job ::
  "job_env \<Rightarrow> string \<Rightarrow> string \<Rightarrow> job_row \<Rightarrow> string option \<Rightarrow> go_time \<Rightarrow> job_db \<Rightarrow> commit_error + job_db" where
  "succeed_job env attemptMsg jobMsg r revision at db =
     (if je_fails env 0 attemptMsg then Inl (CommitOther attemptMsg)
      else if length (filter (open_attempt (j_id r) (j_attempts r)) (jd_attempts db)) \<noteq> 1 then Inl CommitLeaseConflict
      else let new = r\<lparr>j_state := JobSucceeded, j_lease_owner := None, j_lease_expires_at := None, j_last_error_code := None,
                 j_result_revision_id := revision, j_updated_at := at\<rparr> in
      if je_fails env 0 jobMsg \<or> \<not> job_checks new then Inl (CommitOther jobMsg)
      else Inr (set_job r new (db\<lparr>jd_attempts := map (\<lambda>a. if open_attempt (j_id r) (j_attempts r) a
             then a\<lparr>at_outcome := Some ''succeeded'', at_error_code := None, at_finished_at := Some at\<rparr> else a) (jd_attempts db)\<rparr>)))"

definition first_transcript :: "string \<Rightarrow> job_db \<Rightarrow> transcript_row option" where
  "first_transcript assetID db =
     (let rows = filter (\<lambda>t. tr_asset_id t = assetID) (jd_transcripts db) in
      if rows = [] then None else Some (arg_min_list (\<lambda>t. (tr_created_at t, tr_id t)) rows))"

definition raw_revision :: "job_env \<Rightarrow> CommitRawParams \<Rightarrow> job_row \<Rightarrow> string \<Rightarrow> go_time \<Rightarrow> revision_row" where
  "raw_revision env p r transcriptID now =
     \<lparr>rv_id = pg_id env (cr_RevisionID p), rv_transcript_id = transcriptID, rv_parent_id = None, rv_kind = ''raw_asr'',
      rv_text = cr_Text p, rv_provider_snapshot = je_jsonb env (cr_ProviderSnapshot p),
      rv_hotword_snapshot = je_jsonb env (cr_HotwordSnapshot p), rv_created_by = j_created_by r, rv_source_job_id = Some (j_id r),
      rv_raw_object_id = Some (pg_id env (cr_RawObjectID p)), rv_created_at = now\<rparr>"

definition normalized_revision :: "job_env \<Rightarrow> CommitRawParams \<Rightarrow> job_row \<Rightarrow> string \<Rightarrow> go_time \<Rightarrow> revision_row" where
  "normalized_revision env p r transcriptID normalizedAt =
     \<lparr>rv_id = pg_id env (cr_NormalizedRevisionID p), rv_transcript_id = transcriptID,
      rv_parent_id = Some (pg_id env (cr_RevisionID p)), rv_kind = ''normalized'', rv_text = cr_Text p,
      rv_provider_snapshot = je_jsonb env (cr_ProviderSnapshot p), rv_hotword_snapshot = je_jsonb env (cr_HotwordSnapshot p),
      rv_created_by = j_created_by r, rv_source_job_id = Some (j_id r), rv_raw_object_id = None, rv_created_at = normalizedAt\<rparr>"

record Revision =
  vn_ID :: string
  vn_TranscriptID :: string
  vn_AssetID :: string
  vn_ParentRevisionID :: string
  vn_Kind :: string
  vn_Language :: string
  vn_Text :: string
  vn_ProviderSnapshot :: bytes
  vn_HotwordSnapshot :: bytes
  vn_Diff :: bytes
  vn_ValidationResult :: bytes
  vn_SourceJobID :: string
  vn_CreatedBy :: string
  vn_CreatedByType :: string
  vn_ReviewStatus :: string
  vn_CreatedAt :: go_time
  vn_Segments :: "tr_segment list"

definition committed_revision :: "CommitRawParams \<Rightarrow> string \<Rightarrow> go_time \<Rightarrow> Revision" where
  "committed_revision p transcriptID normalizedAt =
     \<lparr>vn_ID = cr_NormalizedRevisionID p, vn_TranscriptID = transcriptID, vn_AssetID = cr_AssetID p,
      vn_ParentRevisionID = cr_RevisionID p, vn_Kind = ''normalized'', vn_Language = cr_Language p, vn_Text = cr_Text p,
      vn_ProviderSnapshot = cr_ProviderSnapshot p, vn_HotwordSnapshot = cr_HotwordSnapshot p,
      vn_Diff = json_encode (JObj [(''changes'', JArr [])]),
      vn_ValidationResult = json_encode (JObj [(''normalizer'', JStr ''identity_v1''), (''valid'', JBool True)]),
      vn_SourceJobID = cr_JobID p, vn_CreatedBy = cr_ActorID p, vn_CreatedByType = ''system'', vn_ReviewStatus = ''pending'',
      vn_CreatedAt = normalizedAt, vn_Segments = cr_NormalizedSegments p\<rparr>"

text \<open>The statements that publish the result, from the provider's response to the segments.\<close>

definition publish_transcript ::
  "job_env \<Rightarrow> CommitRawParams \<Rightarrow> job_row \<Rightarrow> go_time \<Rightarrow> job_db \<Rightarrow> commit_error + (job_db \<times> string)" where
  "publish_transcript env p r now db =
     (let assetID = coalesce_text (j_asset_id r); normalizedAt = pg_time (now + microsecond) in
      case insert_object env ''insert provider raw object: %w''
             \<lparr>ob_id = pg_id env (cr_RawObjectID p), ob_asset_id = assetID, ob_parent_id = None, ob_kind = ''provider_raw_response'',
              ob_backend = so_Backend (cr_RawObject p), ob_key = so_Key (cr_RawObject p), ob_size = so_Size (cr_RawObject p),
              ob_sha256 = so_SHA256 (cr_RawObject p), ob_mime_type = ''application/json'', ob_container = None, ob_codec = None,
              ob_sample_rate = None, ob_channel_count = None, ob_bitrate = None, ob_duration_ms = None, ob_source = cr_ProviderID p, ob_created_at = now\<rparr> db of
        Inl e \<Rightarrow> Inl e
      | Inr db1 \<Rightarrow>
      if je_fails env 0 ''find asset transcript: %w'' then Inl (CommitOther ''find asset transcript: %w'')
      else case (case first_transcript assetID db1 of
          Some t \<Rightarrow> Inr (tr_id t, db1)
        | None \<Rightarrow>
          (case insert_transcript env ''insert transcript: %w''
              \<lparr>tr_id = pg_id env (cr_TranscriptID p), tr_asset_id = assetID, tr_language = cr_Language p, tr_created_at = now\<rparr> db1 of
            Inl e \<Rightarrow> Inl e
          | Inr db2 \<Rightarrow> Inr (pg_id env (cr_TranscriptID p), db2))) of
        Inl e \<Rightarrow> Inl e
      | Inr (transcriptID, db2) \<Rightarrow>
      case insert_revision env ''insert raw transcript revision: %w'' (raw_revision env p r transcriptID now) db2 of
        Inl e \<Rightarrow> Inl e
      | Inr db3 \<Rightarrow>
      case insert_segments env ''insert transcript segment: %w'' (pg_id env (cr_RevisionID p)) now (cr_Segments p) db3 of
        Inl e \<Rightarrow> Inl e
      | Inr db4 \<Rightarrow>
      case insert_revision env ''insert normalized transcript revision: %w'' (normalized_revision env p r transcriptID normalizedAt) db4 of
        Inl e \<Rightarrow> Inl e
      | Inr db5 \<Rightarrow>
      case insert_segments env ''insert normalized transcript segment: %w'' (pg_id env (cr_NormalizedRevisionID p)) normalizedAt
             (cr_NormalizedSegments p) db5 of
        Inl e \<Rightarrow> Inl e
      | Inr db6 \<Rightarrow> Inr (db6, transcriptID))"

definition CommitRaw :: "job_env \<Rightarrow> CommitRawParams \<Rightarrow> job_db \<Rightarrow> job_db \<times> (commit_error + Revision)" where
  "CommitRaw env p db =
     (if \<not> validateCommit p then (db, Inl InvalidCommit)
      else if je_fails env 0 ''begin transcript commit: %w'' then (db, Inl (CommitOther ''begin transcript commit: %w''))
      else if je_fails env 0 ''resolve transcript commit clock: %w'' then
        (db, Inl (CommitOther ''resolve transcript commit clock: %w''))
      else let now = greatest_clock env (cr_Now p); normalizedAt = pg_time (now + microsecond) in
      case lock_leased_job env ''lock transcript job: %w'' (cr_JobID p) (cr_WorkerID p) (cr_WorkspaceID p) (cr_AssetID p) (cr_ActorID p) now db of
        Inl e \<Rightarrow> (db, Inl e)
      | Inr r \<Rightarrow>
      if je_fails env 0 ''lock transcript asset: %w'' then (db, Inl (CommitOther ''lock transcript asset: %w''))
      else case find (\<lambda>a. as_id a = cr_AssetID p \<and> as_workspace_id a = cr_WorkspaceID p \<and> as_deleted_at a = None) (jd_assets db) of
        None \<Rightarrow> (db, Inl CommitNotFound)
      | Some a \<Rightarrow>
      if as_status a \<noteq> ''processing'' then (db, Inl InvalidCommit)
      else case publish_transcript env p r now db of
        Inl e \<Rightarrow> (db, Inl e)
      | Inr (db1, transcriptID) \<Rightarrow>
      case succeed_job env ''finish transcript job attempt: %w'' ''succeed transcript job: %w'' r
             (Some (pg_id env (cr_NormalizedRevisionID p))) normalizedAt db1 of
        Inl e \<Rightarrow> (db, Inl e)
      | Inr db2 \<Rightarrow>
      if je_fails env 0 ''mark transcribed asset ready: %w'' then (db, Inl (CommitOther ''mark transcribed asset ready: %w''))
      else if length (filter (asset_matches (cr_AssetID p) (cr_WorkspaceID p) ''processing'') (jd_assets db2)) \<noteq> 1 then
        (db, Inl InvalidCommit)
      else case insert_audit env ''insert transcription audit log: %w''
             \<lparr>ja_id = cr_AuditID p, ja_workspace_id = j_workspace_id r, ja_actor_id = None, ja_action = ''transcription.completed'',
              ja_target_id = pg_id env (cr_NormalizedRevisionID p)\<rparr>
             (set_asset_status (cr_AssetID p) (cr_WorkspaceID p) ''processing'' ''ready'' normalizedAt db2) of
        Inl _ \<Rightarrow> (db, Inl (CommitOther ''insert transcription audit log: %w''))
      | Inr db3 \<Rightarrow>
      case tx_commit env 0 ''commit raw transcript: %w'' db db3 (committed_revision p transcriptID normalizedAt) of
        (db4, Inl _) \<Rightarrow> (db4, Inl (CommitOther ''commit raw transcript: %w''))
      | (db4, Inr revision) \<Rightarrow> (db4, Inr revision))"

subsection \<open>The worker\<close>

text \<open>
  What a cycle of the worker meets: the database environment of its three calls and what others commit
  in between, the clock and random bytes, and the answers of the components behind the interfaces of
  \<^verbatim>\<open>Processor\<close> (all of them are set in \<^verbatim>\<open>cmd/worker\<close>).  The JSON text of a floating point number is a
  parameter; it is \<open>None\<close> where \<^verbatim>\<open>json.Marshal\<close> fails.
\<close>

record 'h transcribe_input =
  ti_AssetID :: string
  ti_Language :: string
  ti_DurationMS :: int
  ti_Hotwords :: 'h

record 'h worker_env =
  we_claim :: job_env
  we_commit :: job_env
  we_fail :: job_env
  we_between :: "nat \<Rightarrow> job_db \<Rightarrow> job_db"
  we_now :: "nat \<Rightarrow> go_time"
  we_random :: "nat \<Rightarrow> bytes option"
  we_worker :: string
  we_asset :: "string \<Rightarrow> string \<Rightarrow> (string \<times> string \<times> int option) option"
    \<comment> \<open>id, language, duration\<close>
  we_provider :: "string \<Rightarrow> ('h transcribe_input \<Rightarrow> provider_error + asr_result) option"
  we_audio :: "string \<Rightarrow> string \<Rightarrow> bool"
  we_hotwords :: "string \<Rightarrow> string \<Rightarrow> ('h \<times> bytes) option"
  we_put :: "string \<Rightarrow> string \<Rightarrow> bytes \<Rightarrow> storage_object option"
  we_decode :: "bytes \<Rightarrow> normalizedResult option"
  we_float :: "f64 \<Rightarrow> string option"

definition DefaultLeaseDuration :: duration where "DefaultLeaseDuration = 2 * minute"
definition DefaultRetryDelay :: duration where "DefaultRetryDelay = 30 * second"

definition providerJobErrorCode :: "provider_error \<Rightarrow> string" where
  "providerJobErrorCode err =
     (if err = ErrorInvalidAudio then ErrorCodeInvalidAudio
      else if err = ErrorRejected \<or> err = ErrorUnsupported \<or> err = ErrorInvalidConfiguration then ErrorCodeProviderRejected
      else ErrorCodeProviderUnavailable)"

definition normalizedProviderID :: "asr_result \<Rightarrow> string" where
  "normalizedProviderID result = (if ar_ProviderID result = [] then ''unknown'' else ar_ProviderID result)"

definition buildProviderSnapshot :: "asr_result \<Rightarrow> bytes" where
  "buildProviderSnapshot result =
     json_encode (JObj ([(''provider_id'', JStr (normalizedProviderID result))]
       @ (if ar_ProfileID result = [] then [] else [(''profile_id'', JStr (ar_ProfileID result))])
       @ [(''raw_schema'', JStr (ar_RawSchema result)), (''version'', JStr ''1'')]))"

definition word_json :: "(f64 \<Rightarrow> string option) \<Rightarrow> asr_word \<Rightarrow> json option" where
  "word_json fj w =
     map_option (\<lambda>c. JObj [(''start_ms'', JNum (show_int (aw_StartMS w))), (''end_ms'', JNum (show_int (aw_EndMS w))),
                           (''text'', JStr (aw_Text w)), (''confidence'', c)])
       (case aw_Confidence w of None \<Rightarrow> Some JNull | Some x \<Rightarrow> map_option JNum (fj x))"

definition marshal_words :: "(f64 \<Rightarrow> string option) \<Rightarrow> asr_word list \<Rightarrow> bytes option" where
  "marshal_words fj ws = map_option (\<lambda>js. json_encode (JArr js)) (those (map (word_json fj) ws))"

definition convert_segment :: "nat \<Rightarrow> string \<Rightarrow> bytes \<Rightarrow> asr_segment \<Rightarrow> tr_segment" where
  "convert_segment ordinal segmentID ws source =
     \<lparr>ts_ID = segmentID, ts_Ordinal = int ordinal, ts_StartMS = ag_StartMS source, ts_EndMS = ag_EndMS source,
      ts_Speaker = (if ag_Speaker source = [] then None else Some (ag_Speaker source)), ts_Text = ag_Text source,
      ts_Confidence = ag_Confidence source, ts_Words = ws\<rparr>"

text \<open>Segment \<open>n\<close> draws the \<open>n\<close>-th random identifier.\<close>

fun convertSegments ::
  "(f64 \<Rightarrow> string option) \<Rightarrow> (nat \<Rightarrow> bytes option) \<Rightarrow> nat \<Rightarrow> asr_segment list \<Rightarrow> tr_segment list option" where
  "convertSegments fj random ordinal [] = Some []"
| "convertSegments fj random ordinal (source # rest) =
     (case NewUUIDFrom (random ordinal) of
        Inl _ \<Rightarrow> None
      | Inr segmentID \<Rightarrow>
      case marshal_words fj (ag_Words source) of
        None \<Rightarrow> None
      | Some ws \<Rightarrow>
      map_option (\<lambda>segs. convert_segment ordinal segmentID ws source # segs) (convertSegments fj random (Suc ordinal) rest))"

fun cloneSegmentsWithNewIDs :: "(nat \<Rightarrow> bytes option) \<Rightarrow> nat \<Rightarrow> tr_segment list \<Rightarrow> tr_segment list option" where
  "cloneSegmentsWithNewIDs random k [] = Some []"
| "cloneSegmentsWithNewIDs random k (s # rest) =
     (case NewUUIDFrom (random k) of
        Inl _ \<Rightarrow> None
      | Inr segmentID \<Rightarrow> map_option (\<lambda>segs. s\<lparr>ts_ID := segmentID\<rparr> # segs) (cloneSegmentsWithNewIDs random (Suc k) rest))"

definition worker_fail :: "'h worker_env \<Rightarrow> Job \<Rightarrow> string \<Rightarrow> string \<Rightarrow> job_db \<Rightarrow> job_db \<times> bool \<times> string option" where
  "worker_fail we claimed code stage db =
     (let now = we_now we 2 in
      case job_Fail (we_fail we) \<lparr>fa_JobID = job_ID claimed, fa_WorkerID = we_worker we, fa_ErrorCode = code, fa_Now = now,
              fa_RetryAt = now + DefaultRetryDelay\<rparr> (we_between we 1 db) of
        (db, Inl _) \<Rightarrow> (db, True, Some (stage @ ''; could not record safe failure''))
      | (db, Inr _) \<Rightarrow> (db, True, Some stage))"

definition commit_params :: "'h worker_env \<Rightarrow> Job \<Rightarrow> asr_result \<Rightarrow> bytes \<Rightarrow> storage_object \<Rightarrow> string \<Rightarrow> string \<Rightarrow> tr_segment list \<Rightarrow> tr_segment list \<Rightarrow> CommitRawParams" where
  "commit_params we claimed result hotwordSnapshot rawObject normalizedRevisionID auditID segments normalizedSegments =
     \<lparr>cr_JobID = job_ID claimed, cr_WorkerID = we_worker we, cr_WorkspaceID = job_WorkspaceID claimed,
      cr_AssetID = job_AssetID claimed, cr_ActorID = job_CreatedBy claimed, cr_TranscriptID = job_AssetID claimed,
      cr_RevisionID = job_ID claimed, cr_NormalizedRevisionID = normalizedRevisionID, cr_RawObjectID = job_ID claimed,
      cr_AuditID = auditID, cr_Language = ar_Language result, cr_Text = ar_Text result,
      cr_ProviderID = normalizedProviderID result, cr_ProviderSnapshot = buildProviderSnapshot result,
      cr_HotwordSnapshot = hotwordSnapshot, cr_RawObject = rawObject, cr_Segments = segments,
      cr_NormalizedSegments = normalizedSegments, cr_Now = we_now we 1\<rparr>"

text \<open>What the worker does with a valid result: store the response, build the timeline and commit.\<close>

definition store_result :: "'h worker_env \<Rightarrow> Job \<Rightarrow> asr_result \<Rightarrow> bytes \<Rightarrow> job_db \<Rightarrow> job_db \<times> bool \<times> string option" where
  "store_result we claimed result hotwordSnapshot db =
     (case we_put we (job_AssetID claimed) (job_ID claimed) (ar_RawJSON result) of
        None \<Rightarrow> worker_fail we claimed ErrorCodeInternal ''store raw response'' db
      | Some rawObject \<Rightarrow>
      case convertSegments (we_float we) (we_random we) 0 (ar_Segments result) of
        None \<Rightarrow> worker_fail we claimed ErrorCodeInternal ''prepare transcript timeline'' db
      | Some segments \<Rightarrow>
      case NewUUIDFrom (we_random we (length segments)) of
        Inl _ \<Rightarrow> worker_fail we claimed ErrorCodeInternal ''generate normalized revision identifier'' db
      | Inr normalizedRevisionID \<Rightarrow>
      case cloneSegmentsWithNewIDs (we_random we) (Suc (length segments)) segments of
        None \<Rightarrow> worker_fail we claimed ErrorCodeInternal ''prepare normalized timeline'' db
      | Some normalizedSegments \<Rightarrow>
      case NewUUIDFrom (we_random we (Suc (2 * length segments))) of
        Inl _ \<Rightarrow> worker_fail we claimed ErrorCodeInternal ''generate audit identifier'' db
      | Inr auditID \<Rightarrow>
      case CommitRaw (we_commit we) (commit_params we claimed result hotwordSnapshot rawObject normalizedRevisionID auditID
              segments normalizedSegments) (we_between we 0 db) of
        (db, Inl e) \<Rightarrow>
          if e = CommitLeaseConflict then (db, True, Some ''worker lease was lost'')
          else worker_fail we claimed ErrorCodeInternal ''commit transcript'' db
      | (db, Inr _) \<Rightarrow> (db, True, None))"

definition transcribe_job :: "'h worker_env \<Rightarrow> Job \<Rightarrow> job_db \<Rightarrow> job_db \<times> bool \<times> string option" where
  "transcribe_job we claimed db =
     (case we_asset we (job_WorkspaceID claimed) (job_AssetID claimed) of
        None \<Rightarrow> worker_fail we claimed ErrorCodeInternal ''load asset'' db
      | Some (sourceID, language, duration) \<Rightarrow>
      case we_provider we (job_WorkspaceID claimed) of
        None \<Rightarrow> worker_fail we claimed ErrorCodeProviderUnavailable ''resolve provider route'' db
      | Some transcribe \<Rightarrow>
      if \<not> we_audio we (job_WorkspaceID claimed) (job_AssetID claimed) then
        worker_fail we claimed ErrorCodeInvalidAudio ''load source audio'' db
      else case we_hotwords we (job_WorkspaceID claimed) (job_AssetID claimed) of
        None \<Rightarrow> worker_fail we claimed ErrorCodeInternal ''resolve hotwords'' db
      | Some (hotwords, hotwordSnapshot) \<Rightarrow>
      case transcribe \<lparr>ti_AssetID = sourceID, ti_Language = language,
             ti_DurationMS = (case duration of None \<Rightarrow> 0 | Some d \<Rightarrow> d), ti_Hotwords = hotwords\<rparr> of
        Inl err \<Rightarrow> worker_fail we claimed (providerJobErrorCode err) ''provider unavailable'' db
      | Inr result \<Rightarrow>
      if \<not> ValidateResult (we_decode we) result then
        worker_fail we claimed ErrorCodeProviderRejected ''provider returned an invalid result'' db
      else store_result we claimed result hotwordSnapshot db)"

definition transcription_RunOnce :: "'h worker_env \<Rightarrow> job_db \<Rightarrow> job_db \<times> bool \<times> string option" where
  "transcription_RunOnce we db =
     (case job_Claim (we_claim we) \<lparr>cl_Kind = KindMockTranscribe, cl_WorkerID = we_worker we, cl_Now = we_now we 0,
              cl_LeaseDuration = DefaultLeaseDuration\<rparr> db of
        (db, Inl NoClaimableJob) \<Rightarrow> (db, False, None)
      | (db, Inl _) \<Rightarrow> (db, False, Some ''claim job'')
      | (db, Inr claimed) \<Rightarrow> transcribe_job we claimed db)"

subsection \<open>What a commit changes\<close>

lemma insert_object_Inr:
  "insert_object env msg row db = Inr db' \<Longrightarrow> db' = db\<lparr>jd_objects := jd_objects db @ [row]\<rparr>"
  by (auto simp: insert_object_def split: if_splits)

lemma insert_transcript_Inr:
  "insert_transcript env msg row db = Inr db' \<Longrightarrow> db' = db\<lparr>jd_transcripts := jd_transcripts db @ [row]\<rparr>"
  by (auto simp: insert_transcript_def split: if_splits)

lemma insert_revision_Inr:
  "insert_revision env msg row db = Inr db' \<Longrightarrow> db' = db\<lparr>jd_revisions := jd_revisions db @ [row]\<rparr>"
  by (auto simp: insert_revision_def split: if_splits)

lemma insert_segments_Inr:
  "insert_segments env msg i at segs db = Inr db' \<Longrightarrow>
   db' = db\<lparr>jd_segments := jd_segments db @ map (segment_row_of env i at) segs\<rparr>"
  by (induction env msg i at segs db rule: insert_segments.induct) (auto simp: Let_def split: if_splits)

lemma publish_transcript_Inr:
  assumes "publish_transcript env p r now db = Inr (db', transcriptID)"
  shows "jd_jobs db' = jd_jobs db" "jd_attempts db' = jd_attempts db" "jd_notifications db' = jd_notifications db"
    "jd_assets db' = jd_assets db" "jd_audits db' = jd_audits db" "job_inv db' = job_inv db"
    "jd_revisions db' = jd_revisions db @ [raw_revision env p r transcriptID now,
       normalized_revision env p r transcriptID (pg_time (now + microsecond))]"
    "jd_segments db' = jd_segments db @ map (segment_row_of env (pg_id env (cr_RevisionID p)) now) (cr_Segments p)
       @ map (segment_row_of env (pg_id env (cr_NormalizedRevisionID p)) (pg_time (now + microsecond))) (cr_NormalizedSegments p)"
proof -
  let ?same = "jd_jobs db' = jd_jobs db \<and> jd_attempts db' = jd_attempts db \<and> jd_notifications db' = jd_notifications db
    \<and> jd_assets db' = jd_assets db \<and> jd_audits db' = jd_audits db"
  let ?new = "jd_revisions db' = jd_revisions db @ [raw_revision env p r transcriptID now,
       normalized_revision env p r transcriptID (pg_time (now + microsecond))]
    \<and> jd_segments db' = jd_segments db @ map (segment_row_of env (pg_id env (cr_RevisionID p)) now) (cr_Segments p)
       @ map (segment_row_of env (pg_id env (cr_NormalizedRevisionID p)) (pg_time (now + microsecond))) (cr_NormalizedSegments p)"
  have *: "?same \<and> ?new"
    using assms
    by (auto simp: publish_transcript_def Let_def split: sum.splits option.splits if_splits
        dest!: insert_object_Inr insert_transcript_Inr insert_revision_Inr insert_segments_Inr)
  show "job_inv db' = job_inv db" using * by (intro job_inv_frame) simp_all
  show "jd_jobs db' = jd_jobs db" "jd_attempts db' = jd_attempts db" "jd_notifications db' = jd_notifications db"
    "jd_assets db' = jd_assets db" "jd_audits db' = jd_audits db"
    "jd_revisions db' = jd_revisions db @ [raw_revision env p r transcriptID now,
       normalized_revision env p r transcriptID (pg_time (now + microsecond))]"
    "jd_segments db' = jd_segments db @ map (segment_row_of env (pg_id env (cr_RevisionID p)) now) (cr_Segments p)
       @ map (segment_row_of env (pg_id env (cr_NormalizedRevisionID p)) (pg_time (now + microsecond))) (cr_NormalizedSegments p)"
    using * by simp_all
qed
text \<open>Completing a job is finishing its attempt and updating its row, as in \<^verbatim>\<open>Succeed\<close>.\<close>

definition succeeded_row :: "string option \<Rightarrow> go_time \<Rightarrow> job_row \<Rightarrow> job_row" where
  "succeeded_row revision at r =
     r\<lparr>j_state := JobSucceeded, j_lease_owner := None, j_lease_expires_at := None, j_last_error_code := None,
       j_result_revision_id := revision, j_updated_at := at\<rparr>"

lemma succeed_job_Inr:
  assumes "succeed_job env m1 m2 r revision at db = Inr db'"
  obtains env' db1 where "finishAttempt env' 0 (j_id r) (j_attempts r) ''succeeded'' [] at db = Inr db1"
    "job_checks (succeeded_row revision at r)" "db' = set_job r (succeeded_row revision at r) db1"
proof -
  let ?env = "env\<lparr>je_fails := \<lambda>_ _. False\<rparr>"
  from assms show thesis
    by (intro that [of ?env]) (auto simp: succeed_job_def finishAttempt_def succeeded_row_def Let_def split: if_splits)
qed

lemma succeed_job_inv:
  assumes inv: "job_inv db" and r: "r \<in> set (jd_jobs db)" "j_state r = JobRunning"
    and suc: "succeed_job env m1 m2 r revision at db = Inr db'"
  shows "job_inv db'"
proof -
  obtain env' db1 where f: "finishAttempt env' 0 (j_id r) (j_attempts r) ''succeeded'' [] at db = Inr db1"
    "job_checks (succeeded_row revision at r)" "db' = set_job r (succeeded_row revision at r) db1"
    by (rule succeed_job_Inr [OF suc])
  show ?thesis
    unfolding f(3) using f(2)
    by (intro finish_job_inv [OF inv r f(1)]) (auto simp: succeeded_row_def same_job_def outcome_state_def)
qed

lemma lock_leased_job_Inr:
  assumes "lock_leased_job env msg i w ws a actor now db = Inr r"
  shows "r \<in> set (jd_jobs db)" "je_uuid env i = Some (j_id r)" "j_workspace_id r = ws" "j_asset_id r = Some a"
    "j_created_by r = actor" "ownsLiveLease r w now"
  using assms by (auto simp: lock_leased_job_def split: if_splits option.splits dest: find_SomeD)

lemma CommitRaw_cases:
  assumes "CommitRaw env p db = (db', res)"
  obtains (same) "db' = db" "\<exists>e. res = Inl e"
  | (published) r db1 db2 audits transcriptID where
      "lock_leased_job env ''lock transcript job: %w'' (cr_JobID p) (cr_WorkerID p) (cr_WorkspaceID p) (cr_AssetID p) (cr_ActorID p)
         (greatest_clock env (cr_Now p)) db = Inr r"
      "validateCommit p"
      "publish_transcript env p r (greatest_clock env (cr_Now p)) db = Inr (db1, transcriptID)"
      "succeed_job env ''finish transcript job attempt: %w'' ''succeed transcript job: %w'' r
         (Some (pg_id env (cr_NormalizedRevisionID p))) (pg_time (greatest_clock env (cr_Now p) + microsecond)) db1 = Inr db2"
      "db' = (set_asset_status (cr_AssetID p) (cr_WorkspaceID p) ''processing'' ''ready''
         (pg_time (greatest_clock env (cr_Now p) + microsecond)) db2)\<lparr>jd_audits := audits\<rparr>"
      "res = Inr (committed_revision p transcriptID (pg_time (greatest_clock env (cr_Now p) + microsecond)))
        \<or> (res = Inl (CommitOther ''commit raw transcript: %w'') \<and> je_commit_lost env)"
  using assms
  by (simp add: CommitRaw_def Let_def insert_audit_def tx_commit_def split: if_splits sum.splits option.splits prod.splits) auto

lemma CommitRaw_inv: "job_inv db \<Longrightarrow> job_inv (fst (CommitRaw env p db))"
proof -
  assume inv: "job_inv db"
  obtain db' res where c: "CommitRaw env p db = (db', res)" by (rule prod.exhaust)
  then show ?thesis
  proof (cases rule: CommitRaw_cases)
    case same
    then show ?thesis using inv c by simp
  next
    case (published r db1 db2 audits transcriptID)
    note publish_transcript_Inr [OF published(3)]
    moreover have "r \<in> set (jd_jobs db)" "j_state r = JobRunning"
      using lock_leased_job_Inr [OF published(1)] owns_running by auto
    ultimately have "job_inv db2" using succeed_job_inv [OF _ _ _ published(4)] inv by simp
    then show ?thesis using c published(5) by simp
  qed
qed

lemma succeed_job_effect:
  assumes inv: "job_inv db" and r: "r \<in> set (jd_jobs db)" "j_state r = JobRunning"
    and suc: "succeed_job env m1 m2 r revision at db = Inr db'"
  shows "succeeded_row revision at r \<in> set (jd_jobs db')"
    "attempts_of db' (j_id r) = butlast (attempts_of db (j_id r)) @ [ended ''succeeded'' None at (last (attempts_of db (j_id r)))]"
    "length (notes_of db' (j_id r)) = Suc (length (notes_of db (j_id r)))"
    "jd_revisions db' = jd_revisions db" "jd_segments db' = jd_segments db" "jd_assets db' = jd_assets db"
proof -
  obtain env' db1 where f: "finishAttempt env' 0 (j_id r) (j_attempts r) ''succeeded'' [] at db = Inr db1"
    "db' = set_job r (succeeded_row revision at r) db1"
    by (rule succeed_job_Inr [OF suc])
  have "\<not> je_fails env' 0 ''finish job attempt: %w''" using f(1) by (auto simp: finishAttempt_def)
  then obtain xs where x: "finishAttempt env' 0 (j_id r) (j_attempts r) ''succeeded'' [] at db = Inr (db\<lparr>jd_attempts := xs\<rparr>)"
    "attempts_of (db\<lparr>jd_attempts := xs\<rparr>) (j_id r) = butlast (attempts_of db (j_id r)) @
       [ended ''succeeded'' (if [] = ([]::string) then None else Some []) at (last (attempts_of db (j_id r)))]"
    by (rule finishAttempt_running [OF inv r, of env' 0 "''succeeded''" "[]" at]) blast
  have db1: "db1 = db\<lparr>jd_attempts := xs\<rparr>" using f(1) x(1) by simp
  show "attempts_of db' (j_id r) = butlast (attempts_of db (j_id r)) @ [ended ''succeeded'' None at (last (attempts_of db (j_id r)))]"
    using x(2) by (simp add: f(2) db1)
  show "succeeded_row revision at r \<in> set (jd_jobs db')"
    using r(1) by (auto simp: f(2) db1 set_job_def succeeded_row_def)
  show "length (notes_of db' (j_id r)) = Suc (length (notes_of db (j_id r)))"
    using r(2) by (simp add: f(2) db1 set_job_def succeeded_row_def append_terminal_job_notification_def terminal_state_def
        job_states notes_of_def)
  show "jd_revisions db' = jd_revisions db" "jd_segments db' = jd_segments db" "jd_assets db' = jd_assets db"
    by (simp_all add: f(2) db1 set_job_def)
qed

text \<open>What a successful commit leaves behind.\<close>

definition transcript_published :: "job_env \<Rightarrow> CommitRawParams \<Rightarrow> job_row \<Rightarrow> string \<Rightarrow> job_db \<Rightarrow> job_db \<Rightarrow> bool" where
  "transcript_published env p r transcriptID db db' \<longleftrightarrow>
     (let now = greatest_clock env (cr_Now p); normalizedAt = pg_time (now + microsecond); h = attempts_of db (j_id r) in
      jd_revisions db' = jd_revisions db @ [raw_revision env p r transcriptID now, normalized_revision env p r transcriptID normalizedAt]
      \<and> jd_segments db' = jd_segments db @ map (segment_row_of env (pg_id env (cr_RevisionID p)) now) (cr_Segments p)
          @ map (segment_row_of env (pg_id env (cr_NormalizedRevisionID p)) normalizedAt) (cr_NormalizedSegments p)
      \<and> succeeded_row (Some (pg_id env (cr_NormalizedRevisionID p))) normalizedAt r \<in> set (jd_jobs db')
      \<and> at_worker_id (last h) = cr_WorkerID p
      \<and> attempts_of db' (j_id r) = butlast h @ [ended ''succeeded'' None normalizedAt (last h)]
      \<and> length (notes_of db' (j_id r)) = Suc (length (notes_of db (j_id r)))
      \<and> (\<forall>a\<in>set (jd_assets db'). as_id a = cr_AssetID p \<and> as_workspace_id a = cr_WorkspaceID p \<longrightarrow> as_status a \<noteq> ''processing''))"

lemma owned_attempt:
  assumes "job_inv db" "r \<in> set (jd_jobs db)" "ownsLiveLease r w now"
  shows "at_worker_id (last (attempts_of db (j_id r))) = w"
proof -
  have "history_ok r (attempts_of db (j_id r))" using job_invD(2) [OF assms(1,2)] by (simp add: job_ok_def)
  from history_running(4) [OF this owns_running [OF assms(3)]] show ?thesis using assms(3) by (simp add: ownsLiveLease_def)
qed

text \<open>
  C6: publishing a transcript is all or nothing.  If \<^verbatim>\<open>CommitRaw\<close> reports success, the worker held the
  live lease of the job, the raw and the normalized revision and all their segments are stored, the
  attempt and the job are completed once with one notification, and the asset is no longer processing.
  If it reports an error, the database is unchanged, unless the error is that of a commit whose reply
  was lost, in which case the result is published in full or not at all.
\<close>

theorem CommitRaw_all_or_nothing:
  assumes "job_inv db" "CommitRaw env p db = (db', res)"
  shows "(db' = db \<and> (\<exists>e. res = Inl e))
    \<or> (\<exists>r transcriptID. r \<in> set (jd_jobs db) \<and> je_uuid env (cr_JobID p) = Some (j_id r)
        \<and> ownsLiveLease r (cr_WorkerID p) (greatest_clock env (cr_Now p)) \<and> transcript_published env p r transcriptID db db'
        \<and> (res = Inr (committed_revision p transcriptID (pg_time (greatest_clock env (cr_Now p) + microsecond)))
           \<or> res = Inl (CommitOther ''commit raw transcript: %w'') \<and> je_commit_lost env))"
  using assms(2)
proof (cases rule: CommitRaw_cases)
  case same
  then show ?thesis by simp
next
  case (published r db1 db2 audits transcriptID)
  note l = lock_leased_job_Inr [OF published(1)] and pub = publish_transcript_Inr [OF published(3)]
  have run: "j_state r = JobRunning" using l(6) by (rule owns_running)
  have inv1: "job_inv db1" "r \<in> set (jd_jobs db1)" using pub l(1) assms(1) by simp_all
  note eff = succeed_job_effect [OF inv1 run published(4)]
  have att: "attempts_of db1 i = attempts_of db i" "notes_of db1 i = notes_of db i" for i
    by (simp_all add: attempts_of_def notes_of_def pub)
  have "as_status a \<noteq> ''processing''"
    if "a \<in> set (jd_assets db')" "as_id a = cr_AssetID p" "as_workspace_id a = cr_WorkspaceID p" for a
    using that unfolding published(5) by (auto simp: set_asset_status_def asset_matches_def)
  moreover have "jd_jobs db' = jd_jobs db2" "attempts_of db' i = attempts_of db2 i" "notes_of db' i = notes_of db2 i"
    "jd_revisions db' = jd_revisions db2" "jd_segments db' = jd_segments db2" for i
    by (simp_all add: published(5) set_asset_status_def attempts_of_def notes_of_def)
  ultimately have "transcript_published env p r transcriptID db db'"
    using eff pub att owned_attempt [OF assms(1) l(1,6)] by (auto simp: transcript_published_def Let_def)
  then show ?thesis using l published(6) by blast
qed

lemma convertSegments_confidence:
  "convertSegments fj random n segs = Some ss \<Longrightarrow> map ts_Confidence ss = map ag_Confidence segs"
  by (induction fj random n segs arbitrary: ss rule: convertSegments.induct)
    (auto simp: convert_segment_def split: sum.splits option.splits)

lemma no_confidence_invalid:
  assumes "segs \<noteq> []" "\<forall>s\<in>set segs. ts_Confidence s = None" "cr_Segments p = segs"
  shows "\<not> validateCommit p"
proof -
  obtain s rest where "segs = s # rest" using assms(1) by (cases segs) auto
  then show ?thesis using assms(2,3) by (simp add: validateCommit_def valid_raw_segment_def)
qed

lemma store_result_no_confidence:
  assumes "ar_Segments result \<noteq> []" "\<forall>s\<in>set (ar_Segments result). ag_Confidence s = None"
  shows "\<exists>stage db1. store_result we claimed result snapshot db = worker_fail we claimed ErrorCodeInternal stage db1
    \<and> db1 \<in> {db, we_between we 0 db}"
proof -
  have "\<not> validateCommit (commit_params we claimed result snapshot rawObject nid aid segs nsegs)"
    if c: "convertSegments (we_float we) (we_random we) 0 (ar_Segments result) = Some segs" for rawObject nid aid segs nsegs
  proof (rule no_confidence_invalid)
    have m: "map ts_Confidence segs = map ag_Confidence (ar_Segments result)" by (rule convertSegments_confidence [OF c])
    then show "segs \<noteq> []" using assms(1) by auto
    have "set (map ts_Confidence segs) \<subseteq> {None}" unfolding m using assms(2) by auto
    then show "\<forall>s\<in>set segs. ts_Confidence s = None" by auto
  qed (simp add: commit_params_def)
  then show ?thesis
    by (auto simp: store_result_def CommitRaw_def split: option.split sum.split)
qed

lemma vendor_no_confidence:
  assumes "normalizeAliyunFlash raw sentences l1 l2 = Some result \<or> normalizeTencentFlash raw channels l1 l2 diarization = Some result"
  shows "\<forall>s\<in>set (ar_Segments result). ag_Confidence s = None" "ar_Segments result \<noteq> []" "ValidateResult decode result"
proof -
  have v: "ValidateResult (\<lambda>_. None) result" "ar_RawSchema result \<in> {RawSchemaAliyunFlashV1, RawSchemaTencentFlashV1}"
    using assms by (auto simp: normalizeAliyunFlash_def normalizeTencentFlash_def Let_def split: if_splits)
  then show "ValidateResult decode result" by (auto simp: ValidateResult_def Let_def raw_schemas)
  show "ar_Segments result \<noteq> []"
    using v(1) by (simp add: ValidateResult_def Let_def validateNormalized_def normalizedFromResult_def)
  show "\<forall>s\<in>set (ar_Segments result). ag_Confidence s = None"
    using assms by (auto simp: normalizeAliyunFlash_def normalizeTencentFlash_def Let_def aliyun_segment_def tencent_segment_def
        set_zip split: if_splits)
qed

text \<open>
  C30: the two vendors' transcriptions are never published.  Both adapters leave the confidence of
  every segment out, which \<^verbatim>\<open>ValidateResult\<close> accepts and \<^verbatim>\<open>validateCommit\<close> refuses: whatever the database
  does, the cycle ends in \<^verbatim>\<open>Fail\<close> with an internal error.
\<close>

theorem vendor_results_never_published:
  assumes "normalizeAliyunFlash raw sentences l1 l2 = Some result \<or> normalizeTencentFlash raw channels l1 l2 diarization = Some result"
  shows "ValidateResult decode result
    \<and> (\<exists>stage db1. store_result we claimed result snapshot db = worker_fail we claimed ErrorCodeInternal stage db1
        \<and> db1 \<in> {db, we_between we 0 db})"
  using vendor_no_confidence [OF assms] store_result_no_confidence [of result we claimed snapshot db] by blast

subsection \<open>Samples\<close>

lemma json_samples: "json_parse ''{}'' = Some (JObj [])" "json_parse ''[]'' = Some (JArr [])" "trim_space ''{}'' = ''{}''"
  by (simp_all add: json_parse_def numeral_eq_Suc skip_ws_def json_space_def expect_def trim_space_def decode_rune_def byte_at_def is_space_def)

definition sample_running :: job_row where
  "sample_running = leased ''x'' (120 * second) 9000000 sample_waiting"

definition sample_running_db :: job_db where
  "sample_running_db = sample_job_db\<lparr>jd_jobs := [sample_running], jd_attempts := [sample_attempt\<lparr>at_job_id := ''b''\<rparr>]\<rparr>"

lemma sample_running_inv: "job_inv sample_running_db"
  by (auto simp: job_inv_def sample_running_db_def sample_job_db_def sample_running_def leased_def sample_waiting_def
      sample_attempt_def job_ok_def job_checks_def attempts_of_def notes_of_def history_ok_def notes_ok_def last_attempt_ok_def
      attempt_checks_def opt_check_def terminal_state_def same_key_def same_work_def job_states sample_text sample_hash_text)

definition sample_tr_segment :: "string \<Rightarrow> tr_segment" where
  "sample_tr_segment i = \<lparr>ts_ID = i, ts_Ordinal = 0, ts_StartMS = 0, ts_EndMS = 5, ts_Speaker = None, ts_Text = ''x'',
     ts_Confidence = Some (F64 1 (- 1)), ts_Words = ''[]''\<rparr>"

definition sample_commit :: CommitRawParams where
  "sample_commit = \<lparr>cr_JobID = ''b'', cr_WorkerID = ''x'', cr_WorkspaceID = ''w'', cr_AssetID = ''a2'', cr_ActorID = ''u'',
     cr_TranscriptID = ''a2'', cr_RevisionID = ''b'', cr_NormalizedRevisionID = ''n'', cr_RawObjectID = ''b'', cr_AuditID = ''q'',
     cr_Language = ''x'', cr_Text = ''x'', cr_ProviderID = ''mo'', cr_ProviderSnapshot = ''{}'', cr_HotwordSnapshot = ''{}'',
     cr_RawObject = \<lparr>so_Backend = ''local'', so_Key = ''x'', so_Size = 2, so_SHA256 = replicate 64 CHR ''0''\<rparr>,
     cr_Segments = [sample_tr_segment ''s''], cr_NormalizedSegments = [sample_tr_segment ''t''], cr_Now = 9000000\<rparr>"

lemma sample_commit_valid: "validateCommit sample_commit"
  by (simp add: validateCommit_def sample_commit_def sample_tr_segment_def commitProviderID_def is_lower_def validJSONObject_def
      json_samples json_valid_def valid_raw_segment_def valid_normalized_segment_def unmarshals_to_array_def f64_negative_def
      f64_above_one_def sample_hash_text)

lemma sample_lock:
  "lock_leased_job sample_job_env msg ''b'' ''x'' ''w'' ''a2'' ''u'' 9000000 sample_running_db = Inr sample_running"
  by (simp add: lock_leased_job_def sample_job_env_def sample_running_db_def sample_running_def leased_def sample_waiting_def
      ownsLiveLease_def pg_time_def microsecond_def second_def)

lemma sample_CommitRaw:
  "\<exists>revision. snd (CommitRaw sample_job_env sample_commit sample_running_db) = Inr revision"
proof -
  let ?now = "9000000 :: int"
  have now: "greatest_clock sample_job_env (cr_Now sample_commit) = ?now"
    by (simp add: greatest_clock_def sample_job_env_def sample_commit_def pg_time_def microsecond_def)
  have "segment_checks (sample_tr_segment i)" for i
    by (simp add: segment_checks_def sample_tr_segment_def opt_check_def sample_text json_samples f64_negative_def f64_above_one_def)
  then obtain db1 where pub: "publish_transcript sample_job_env sample_commit sample_running ?now sample_running_db = Inr (db1, ''a2'')"
    by (simp add: publish_transcript_def sample_commit_def sample_tr_segment_def sample_job_env_def sample_running_db_def sample_job_db_def
        sample_running_def leased_def sample_waiting_def insert_object_def insert_transcript_def insert_revision_def media_checks_def
        ascii_pg_text opt_check_def first_transcript_def pg_id_def sample_hash_text sample_text raw_revision_def normalized_revision_def Let_def
        segment_row_of_def coalesce_text_def)
  note fr = publish_transcript_Inr [OF pub]
  have "job_checks (succeeded_row (Some ''n'') t sample_running)" for t
    by (simp add: succeeded_row_def sample_running_def leased_def sample_waiting_def job_checks_def opt_check_def job_states
        sample_text sample_hash_text)
  moreover have "filter (open_attempt ''b'' 1) (jd_attempts db1) = [sample_attempt\<lparr>at_job_id := ''b''\<rparr>]"
    by (simp add: fr sample_running_db_def open_attempt_def sample_attempt_def)
  moreover have "j_id sample_running = ''b''" "j_attempts sample_running = 1"
    by (simp_all add: sample_running_def leased_def sample_waiting_def)
  moreover have "\<not> je_fails sample_job_env k m" for k m by (simp add: sample_job_env_def)
  ultimately have "\<exists>db2. succeed_job sample_job_env m1 m2 sample_running (Some ''n'') t db1 = Inr db2 \<and> jd_assets db2 = jd_assets db1
      \<and> jd_audits db2 = jd_audits db1" for m1 m2 t
    by (simp add: succeed_job_def Let_def succeeded_row_def set_job_def)
  then obtain db2 where suc: "succeed_job sample_job_env ''finish transcript job attempt: %w'' ''succeed transcript job: %w'' sample_running
       (Some ''n'') (pg_time (?now + microsecond)) db1 = Inr db2"
    and as: "jd_assets db2 = jd_assets db1" "jd_audits db2 = jd_audits db1" by blast
  have as': "jd_assets db2 = [sample_asset ''a1'' ''processing'', sample_asset ''a2'' ''processing'']" "jd_audits db2 = []"
    using as fr(4,5) by (simp_all add: sample_running_db_def sample_job_db_def)
  have find: "find (\<lambda>a. as_id a = ''a2'' \<and> as_workspace_id a = ''w'' \<and> as_deleted_at a = None) (jd_assets sample_running_db)
      = Some (sample_asset ''a2'' ''processing'')"
    by (simp add: sample_running_db_def sample_job_db_def sample_asset_def)
  have fields: "cr_JobID sample_commit = ''b''" "cr_WorkerID sample_commit = ''x''" "cr_WorkspaceID sample_commit = ''w''"
    "cr_AssetID sample_commit = ''a2''" "cr_ActorID sample_commit = ''u''" "pg_id sample_job_env (cr_NormalizedRevisionID sample_commit) = ''n''"
    by (simp_all add: sample_commit_def pg_id_def sample_job_env_def)
  have status: "as_status (sample_asset ''a2'' ''processing'') = ''processing''" by (simp add: sample_asset_def)
  have one: "filter (asset_matches ''a2'' ''w'' ''processing'') (jd_assets db2) = [sample_asset ''a2'' ''processing'']"
    by (simp add: as' asset_matches_def sample_asset_def)
  have no: "\<not> je_fails sample_job_env k m" for k m by (simp add: sample_job_env_def)
  show ?thesis
    unfolding CommitRaw_def Let_def now fields sample_lock find option.case sum.case pub prod.case suc
    using no one status by (simp add: sample_commit_valid insert_audit_def set_asset_status_def as' tx_commit_def)
qed

theorem CommitRaw_all_or_nothing_witness:
  "\<exists>t db'. fst (CommitRaw sample_job_env sample_commit sample_running_db) = db'
     \<and> transcript_published sample_job_env sample_commit sample_running t sample_running_db db'"
proof -
  obtain db' res where c: "CommitRaw sample_job_env sample_commit sample_running_db = (db', res)" by (rule prod.exhaust)
  then have ok: "\<not> (\<exists>e. res = Inl e)" using sample_CommitRaw by auto
  have one: "r = sample_running" if "r \<in> set (jd_jobs sample_running_db)" for r using that by (simp add: sample_running_db_def)
  from CommitRaw_all_or_nothing [OF sample_running_inv c] ok one c show ?thesis by auto
qed

definition sample_sentence :: aliyunFlashSentence where
  "sample_sentence = \<lparr>ay_Text = ''x'', ay_Words = [], ay_BeginTime = 0, ay_EndTime = 5, ay_ChannelID = 0\<rparr>"

lemma sample_vendor: "\<exists>result. normalizeAliyunFlash ''{}'' [sample_sentence] ''x'' [] = Some result"
proof -
  have "trim_space ''x'' = ''x''" by (simp add: trim_space_def decode_rune_def byte_at_def is_space_def)
  moreover have "show_nat 1 = ''1''" by (subst show_nat_step) (simp add: char_of_def bit_0)
  then have "pad 4 1 = ''0001''" by (simp add: pad_def Let_def eval_nat_numeral)
  then have "segment_id 0 = ''segment-0001''" by (simp add: segment_id_def)
  moreover have "trim_space ''segment-0001'' = ''segment-0001''" by (rule trim_ascii) (simp_all add: is_space_def)
  ultimately show ?thesis
    by (simp add: normalizeAliyunFlash_def sample_sentence_def normalized_language_def ValidateResult_def json_samples json_valid_def
        validateNormalized_def normalizedFromResult_def aliyun_segment_def valid_segment_def valid_confidence_def raw_schemas)
qed

theorem vendor_results_never_published_witness:
  "\<exists>result. normalizeAliyunFlash ''{}'' [sample_sentence] ''x'' [] = Some result
     \<and> (\<forall>(we :: unit worker_env) claimed snapshot db. \<exists>stage db1.
          store_result we claimed result snapshot db = worker_fail we claimed ErrorCodeInternal stage db1)"
  using sample_vendor vendor_results_never_published [OF disjI1, of "''{}''" "[sample_sentence]" "''x''" "[]"] by blast

lemma Fail_asset_not_processing:
  assumes "job_Fail env p db = (db', Inr job)" "job_State job = JobFailed" "job_AssetID job \<noteq> []"
    "a \<in> set (jd_assets db')" "as_id a = job_AssetID job" "as_workspace_id a = job_WorkspaceID job"
  shows "as_status a \<noteq> ''processing''"
  using assms
  by (auto simp: job_Fail_def Let_def tx_commit_def scanJob_def set_asset_status_def asset_matches_def job_states
      split: if_splits sum.splits)


definition sample_exhausted_db :: job_db where
  "sample_exhausted_db = sample_running_db\<lparr>jd_jobs := [sample_running\<lparr>j_max_attempts := 1\<rparr>]\<rparr>"

definition sample_fail :: FailParams where
  "sample_fail = \<lparr>fa_JobID = ''b'', fa_WorkerID = ''x'', fa_ErrorCode = ErrorCodeInternal, fa_Now = 9000000, fa_RetryAt = 9000001\<rparr>"

lemma sample_fail_job:
  "\<exists>db' job. job_Fail sample_job_env sample_fail sample_exhausted_db = (db', Inr job) \<and> job_State job = JobFailed
     \<and> job_AssetID job = ''a2'' \<and> job_WorkspaceID job = ''w''"
proof -
  have "trim_space ''x'' = ''x''" by (simp add: trim_space_def decode_rune_def byte_at_def is_space_def)
  moreover have "job_checks (r\<lparr>j_state := JobFailed, j_available_at := t, j_lease_owner := None, j_lease_expires_at := None,
      j_last_error_code := Some ErrorCodeInternal, j_updated_at := t'\<rparr>)" if "r = sample_running\<lparr>j_max_attempts := 1\<rparr>" for r t t'
    using that by (simp add: sample_running_def leased_def sample_waiting_def job_checks_def opt_check_def job_states
        sample_text sample_hash_text IsSafeErrorCode_def safeErrorCodes_def)
  moreover have "IsSafeErrorCode ErrorCodeInternal" by (simp add: IsSafeErrorCode_def safeErrorCodes_def)
  ultimately show ?thesis
    by (simp add: job_Fail_def Let_def sample_fail_def sample_worker sample_exhausted_db_def sample_running_db_def lockJob_def
       sample_job_env_def sample_running_def leased_def sample_waiting_def ownsLiveLease_def pg_time_def greatest_clock_def
       microsecond_def second_def finishAttempt_def open_attempt_def sample_attempt_def tx_commit_def scanJob_def coalesce_text_def
       job_states job_checks_def opt_check_def sample_text sample_hash_text time_sub_def max_i64_def min_i64_def)
qed


end
