(* ===== verification/Waveform.thy ===== *)
theory Waveform
  imports Transcription
begin

text \<open>
  \<^verbatim>\<open>internal/waveform\<close>: the worker that draws waveforms (\<^verbatim>\<open>processor.go\<close>) and the transaction that stores one
  (\<^verbatim>\<open>Commit\<close> of \<^verbatim>\<open>postgres.go\<close>).  The renderer is a process of its own; it, the source audio and the storage
  are the answers of their interfaces.
\<close>

subsection \<open>Waveforms\<close>

definition Width :: int where "Width = 1600"
definition Height :: int where "Height = 256"

record WaveformCommitParams =
  wc_JobID :: string
  wc_WorkerID :: string
  wc_WorkspaceID :: string
  wc_AssetID :: string
  wc_ActorID :: string
  wc_AuditID :: string
  wc_Object :: storage_object
  wc_Width :: int
  wc_Height :: int
  wc_Now :: go_time

text \<open>\<^verbatim>\<open>hex.DecodeString\<close> accepts both cases; 32 bytes have 64 digits.\<close>

definition valid_waveform_commit :: "WaveformCommitParams \<Rightarrow> bool" where
  "valid_waveform_commit p \<longleftrightarrow>
     \<not> (wc_JobID p = [] \<or> wc_WorkerID p = [] \<or> wc_WorkspaceID p = [] \<or> wc_AssetID p = [] \<or> wc_ActorID p = []
        \<or> wc_AuditID p = [] \<or> so_Key (wc_Object p) = [] \<or> so_Size (wc_Object p) \<le> 0
        \<or> \<not> (list_all hex_any (so_SHA256 (wc_Object p)) \<and> length (so_SHA256 (wc_Object p)) = 64)
        \<or> wc_Width p \<noteq> Width \<or> wc_Height p \<noteq> Height \<or> is_zero_time (wc_Now p))"

text \<open>The original recording of an asset of the workspace.\<close>

definition original_object :: "string \<Rightarrow> string \<Rightarrow> job_db \<Rightarrow> object_row option" where
  "original_object assetID workspaceID db =
     find (\<lambda>x. ob_asset_id x = assetID \<and> ob_kind x = ''original''
        \<and> list_ex (\<lambda>a. as_id a = assetID \<and> as_workspace_id a = workspaceID) (jd_assets db)) (jd_objects db)"

text \<open>\<^verbatim>\<open>COALESCE(original.duration_ms, asset.duration_ms, 0)\<close>.\<close>

definition waveform_duration :: "object_row \<Rightarrow> job_db \<Rightarrow> int" where
  "waveform_duration original db =
     (case ob_duration_ms original of
        Some d \<Rightarrow> d
      | None \<Rightarrow>
      case find (\<lambda>a. as_id a = ob_asset_id original) (jd_assets db) of
        None \<Rightarrow> 0
      | Some a \<Rightarrow> case as_duration_ms a of None \<Rightarrow> 0 | Some d \<Rightarrow> d)"

definition waveform_object :: "job_env \<Rightarrow> WaveformCommitParams \<Rightarrow> string \<Rightarrow> int \<Rightarrow> go_time \<Rightarrow> object_row" where
  "waveform_object env p parentObjectID durationMS now =
     \<lparr>ob_id = pg_id env (wc_JobID p), ob_asset_id = wc_AssetID p, ob_parent_id = Some parentObjectID, ob_kind = ''waveform'',
      ob_backend = so_Backend (wc_Object p), ob_key = so_Key (wc_Object p), ob_size = so_Size (wc_Object p),
      ob_sha256 = so_SHA256 (wc_Object p), ob_mime_type = ''image/png'', ob_container = Some ''png'', ob_codec = Some ''png'',
      ob_sample_rate = None, ob_channel_count = None, ob_bitrate = None, ob_duration_ms = Some durationMS, ob_source = ''worker_waveform'', ob_created_at = now\<rparr>"

definition waveform_Commit :: "job_env \<Rightarrow> WaveformCommitParams \<Rightarrow> job_db \<Rightarrow> job_db \<times> (commit_error + unit)" where
  "waveform_Commit env p db =
     (if \<not> valid_waveform_commit p then (db, Inl InvalidCommit)
      else if je_fails env 0 ''begin waveform commit: %w'' then (db, Inl (CommitOther ''begin waveform commit: %w''))
      else if je_fails env 0 ''resolve waveform commit clock: %w'' then
        (db, Inl (CommitOther ''resolve waveform commit clock: %w''))
      else let now = greatest_clock env (wc_Now p) in
      case lock_leased_job env ''lock waveform job: %w'' (wc_JobID p) (wc_WorkerID p) (wc_WorkspaceID p) (wc_AssetID p) (wc_ActorID p) now db of
        Inl e \<Rightarrow> (db, Inl e)
      | Inr r \<Rightarrow>
      if j_kind r \<noteq> KindGenerateWaveform then (db, Inl CommitLeaseConflict)
      else if je_fails env 0 ''lock waveform source: %w'' then (db, Inl (CommitOther ''lock waveform source: %w''))
      else case original_object (wc_AssetID p) (wc_WorkspaceID p) db of
        None \<Rightarrow> (db, Inl CommitNotFound)
      | Some original \<Rightarrow>
      case insert_object env ''insert waveform object: %w'' (waveform_object env p (ob_id original) (waveform_duration original db) now) db of
        Inl e \<Rightarrow> (db, Inl e)
      | Inr db1 \<Rightarrow>
      case succeed_job env ''finish waveform attempt: %w'' ''succeed waveform job: %w'' r (j_result_revision_id r) now db1 of
        Inl e \<Rightarrow> (db, Inl e)
      | Inr db2 \<Rightarrow>
      case insert_audit env ''insert waveform audit: %w''
             \<lparr>ja_id = wc_AuditID p, ja_workspace_id = j_workspace_id r, ja_actor_id = None, ja_action = ''waveform.generated'',
              ja_target_id = j_id r\<rparr> db2 of
        Inl _ \<Rightarrow> (db, Inl (CommitOther ''insert waveform audit: %w''))
      | Inr db3 \<Rightarrow>
      case tx_commit env 0 ''commit waveform: %w'' db db3 () of
        (db4, Inl _) \<Rightarrow> (db4, Inl (CommitOther ''commit waveform: %w''))
      | (db4, Inr _) \<Rightarrow> (db4, Inr ()))"

subsection \<open>The waveform worker\<close>

record ('a, 'c) waveform_env =
  wv_claim :: job_env
  wv_commit :: job_env
  wv_fail :: job_env
  wv_between :: "nat \<Rightarrow> job_db \<Rightarrow> job_db"
  wv_now :: "nat \<Rightarrow> go_time"
  wv_random :: "bytes option"
  wv_worker :: string
  wv_source :: "string \<Rightarrow> string \<Rightarrow> 'a option"
  wv_render :: "'a \<Rightarrow> ('c \<times> int \<times> int) option"
    \<comment> \<open>content, width, height\<close>
  wv_put :: "string \<Rightarrow> string \<Rightarrow> 'c \<Rightarrow> storage_object option"

definition waveform_fail :: "('a, 'c) waveform_env \<Rightarrow> Job \<Rightarrow> string \<Rightarrow> string \<Rightarrow> job_db \<Rightarrow> job_db \<times> bool \<times> string option" where
  "waveform_fail we claimed code stage db =
     (let now = wv_now we 2 in
      case job_Fail (wv_fail we) \<lparr>fa_JobID = job_ID claimed, fa_WorkerID = wv_worker we, fa_ErrorCode = code, fa_Now = now,
              fa_RetryAt = now + DefaultRetryDelay\<rparr> (wv_between we 1 db) of
        (db, Inl _) \<Rightarrow> (db, True, Some (stage @ ''; could not record safe failure''))
      | (db, Inr _) \<Rightarrow> (db, True, Some stage))"

definition draw_waveform :: "('a, 'c) waveform_env \<Rightarrow> Job \<Rightarrow> job_db \<Rightarrow> job_db \<times> bool \<times> string option" where
  "draw_waveform we claimed db =
     (case wv_source we (job_WorkspaceID claimed) (job_AssetID claimed) of
        None \<Rightarrow> waveform_fail we claimed ErrorCodeInvalidAudio ''load source audio'' db
      | Some source \<Rightarrow>
      case wv_render we source of
        None \<Rightarrow> waveform_fail we claimed ErrorCodeInvalidAudio ''render waveform'' db
      | Some (content, w, h) \<Rightarrow>
      case wv_put we (job_AssetID claimed) (job_ID claimed) content of
        None \<Rightarrow> waveform_fail we claimed ErrorCodeInternal ''store waveform'' db
      | Some object \<Rightarrow>
      case NewUUIDFrom (wv_random we) of
        Inl _ \<Rightarrow> waveform_fail we claimed ErrorCodeInternal ''generate audit identifier'' db
      | Inr auditID \<Rightarrow>
      case waveform_Commit (wv_commit we)
             \<lparr>wc_JobID = job_ID claimed, wc_WorkerID = wv_worker we, wc_WorkspaceID = job_WorkspaceID claimed,
              wc_AssetID = job_AssetID claimed, wc_ActorID = job_CreatedBy claimed, wc_AuditID = auditID, wc_Object = object,
              wc_Width = w, wc_Height = h, wc_Now = wv_now we 1\<rparr> (wv_between we 0 db) of
        (db, Inl e) \<Rightarrow>
          if e = CommitLeaseConflict then (db, True, Some ''worker lease was lost'')
          else waveform_fail we claimed ErrorCodeInternal ''commit waveform'' db
      | (db, Inr _) \<Rightarrow> (db, True, None))"

definition waveform_RunOnce :: "('a, 'c) waveform_env \<Rightarrow> job_db \<Rightarrow> job_db \<times> bool \<times> string option" where
  "waveform_RunOnce we db =
     (case job_Claim (wv_claim we) \<lparr>cl_Kind = KindGenerateWaveform, cl_WorkerID = wv_worker we, cl_Now = wv_now we 0,
              cl_LeaseDuration = DefaultLeaseDuration\<rparr> db of
        (db, Inl NoClaimableJob) \<Rightarrow> (db, False, None)
      | (db, Inl _) \<Rightarrow> (db, False, Some ''claim job'')
      | (db, Inr claimed) \<Rightarrow> draw_waveform we claimed db)"

subsection \<open>What the commit changes\<close>

lemma waveform_Commit_cases:
  assumes "waveform_Commit env p db = (db', res)"
  obtains (same) "db' = db" "\<exists>e. res = Inl e"
  | (stored) r original db1 db2 audits where
      "lock_leased_job env ''lock waveform job: %w'' (wc_JobID p) (wc_WorkerID p) (wc_WorkspaceID p) (wc_AssetID p) (wc_ActorID p)
         (greatest_clock env (wc_Now p)) db = Inr r"
      "j_kind r = KindGenerateWaveform"
      "original_object (wc_AssetID p) (wc_WorkspaceID p) db = Some original"
      "insert_object env ''insert waveform object: %w'' (waveform_object env p (ob_id original) (waveform_duration original db) (greatest_clock env (wc_Now p))) db = Inr db1"
      "succeed_job env ''finish waveform attempt: %w'' ''succeed waveform job: %w'' r (j_result_revision_id r)
         (greatest_clock env (wc_Now p)) db1 = Inr db2"
      "db' = db2\<lparr>jd_audits := audits\<rparr>"
      "res = Inr () \<or> (res = Inl (CommitOther ''commit waveform: %w'') \<and> je_commit_lost env)"
  using assms
  by (simp add: waveform_Commit_def Let_def insert_audit_def tx_commit_def split: if_splits sum.splits option.splits prod.splits) auto

lemma insert_object_frame:
  assumes "insert_object env msg row db = Inr db1"
  shows "jd_jobs db1 = jd_jobs db" "jd_attempts db1 = jd_attempts db" "jd_notifications db1 = jd_notifications db"
    "job_inv db1 = job_inv db"
proof -
  have *: "jd_jobs db1 = jd_jobs db" "jd_attempts db1 = jd_attempts db" "jd_notifications db1 = jd_notifications db"
    using insert_object_Inr [OF assms] by simp_all
  then show "jd_jobs db1 = jd_jobs db" "jd_attempts db1 = jd_attempts db" "jd_notifications db1 = jd_notifications db"
    "job_inv db1 = job_inv db" using job_inv_frame [OF *] by simp_all
qed

lemma waveform_Commit_inv: "job_inv db \<Longrightarrow> job_inv (fst (waveform_Commit env p db))"
proof -
  assume inv: "job_inv db"
  obtain db' res where c: "waveform_Commit env p db = (db', res)" by (rule prod.exhaust)
  then show ?thesis
  proof (cases rule: waveform_Commit_cases)
    case same
    then show ?thesis using inv c by simp
  next
    case (stored r original db1 db2 audits)
    note fr = insert_object_frame [OF stored(4)] and l = lock_leased_job_Inr [OF stored(1)]
    have "job_inv db2"
      using succeed_job_inv [OF _ _ _ stored(5)] fr l(1) owns_running [OF l(6)] inv by simp
    then show ?thesis using c stored(6) by simp
  qed
qed

end
