(* ===== verification/Upload_Repository.thy ===== *)
theory Upload_Repository
  imports Waveform
begin

text \<open>
  \<^verbatim>\<open>internal/upload/postgres_repository.go\<close>: upload sessions and their parts, on the tables of
  \<^verbatim>\<open>migrations/000002\<close> beside the tables of the jobs and assets.  As there, a method is one transaction, or
  one statement that commits by itself, and its environment says what fails and what the clock reads.
  Where a method reads before it writes without a lock on what it read, an argument says what others
  commit in between.
\<close>

subsection \<open>Sessions and parts\<close>

definition StateActive :: string where "StateActive = ''active''"
definition StateAssembling :: string where "StateAssembling = ''assembling''"
definition StateCompleted :: string where "StateCompleted = ''completed''"
definition StateCancelled :: string where "StateCancelled = ''cancelled''"
definition StateFailed :: string where "StateFailed = ''failed''"

lemmas upload_states = StateActive_def StateAssembling_def StateCompleted_def StateCancelled_def StateFailed_def

datatype upload_error =
    UploadForbidden | UploadInvalidInput | UploadNotFound | UploadIdempotencyConflict | UploadStateConflict | UploadExpired
  | UploadInvalidPart | UploadPartTooLarge | UploadPartConflict | UploadChecksumMismatch | UploadIncomplete
  | UploadUnsupportedMedia | UploadOther string

record UploadPart =
  part_Number :: int
  part_SizeBytes :: int
  part_SHA256 :: string
  part_CreatedAt :: go_time
  part_StorageKey :: string

record UploadSession =
  ses_ID :: string
  ses_AssetID :: string
  ses_WorkspaceID :: string
  ses_Filename :: string
  ses_MIMEType :: string
  ses_ExpectedSize :: int
  ses_ExpectedSHA256 :: string
  ses_PartSize :: int
  ses_State :: string
  ses_ExpiresAt :: go_time
  ses_CreatedAt :: go_time
  ses_UpdatedAt :: go_time
  ses_CompletedAt :: "go_time option"
  ses_ErrorCode :: "string option"
  ses_Parts :: "UploadPart list"

record CreateUploadParams =
  cu_SessionID :: string
  cu_AuditID :: string
  cu_WorkspaceID :: string
  cu_CreatedBy :: string
  cu_AssetID :: string
  cu_Filename :: string
  cu_MIMEType :: string
  cu_ExpectedSize :: int
  cu_ExpectedSHA256 :: string
  cu_PartSize :: int
  cu_IdempotencyKey :: string
  cu_RequestHash :: string
  cu_ExpiresAt :: go_time

record RecordPartParams =
  rp_WorkspaceID :: string
  rp_UploadID :: string
  rp_Part :: UploadPart

record OriginalObject =
  og_ID :: string
  og_StorageBackend :: string
  og_StorageKey :: string
  og_MIMEType :: string
  og_Container :: string
  og_Codec :: string
  og_SampleRate :: int
  og_ChannelCount :: int
  og_Bitrate :: int
  og_DurationMS :: int
  og_FileSize :: int
  og_SHA256 :: string

record FinishParams =
  fi_WorkspaceID :: string
  fi_UploadID :: string
  fi_ActorID :: string
  fi_AuditID :: string
  fi_WaveformJobID :: string
  fi_Object :: OriginalObject

record FailureParams =
  fu_WorkspaceID :: string
  fu_UploadID :: string
  fu_ActorID :: string
  fu_AuditID :: string
  fu_ErrorCode :: string

subsection \<open>Tables\<close>

record session_row =
  us_id :: string
  us_workspace_id :: string
  us_asset_id :: string
  us_created_by :: string
  us_filename :: string
  us_mime_type :: string
  us_expected_size :: int
  us_expected_sha256 :: string
  us_part_size :: int
  us_idempotency_key :: string
  us_request_hash :: string
  us_state :: string
  us_error_code :: "string option"
  us_expires_at :: go_time
  us_created_at :: go_time
  us_updated_at :: go_time
  us_completed_at :: "go_time option"

record part_row =
  pt_session_id :: string
  pt_number :: int
  pt_storage_key :: string
  pt_size :: int
  pt_sha256 :: string
  pt_created_at :: go_time

record upload_db =
  ud_tables :: job_db
  ud_sessions :: "session_row list"
  ud_parts :: "part_row list"

definition session_checks :: "session_row \<Rightarrow> bool" where
  "session_checks row \<longleftrightarrow>
     text_between 1 255 (us_filename row) \<and> text_between 1 100 (us_mime_type row)
     \<and> 0 < us_expected_size row \<and> hash_text (us_expected_sha256 row)
     \<and> 65536 \<le> us_part_size row \<and> us_part_size row \<le> 16777216
     \<and> text_between 1 200 (us_idempotency_key row) \<and> hash_text (us_request_hash row)
     \<and> us_state row \<in> {StateActive, StateAssembling, StateCompleted, StateCancelled, StateFailed}
     \<and> opt_check pg_text (us_error_code row)
     \<and> us_created_at row < us_expires_at row
     \<and> (us_state row = StateCompleted) = (us_completed_at row \<noteq> None)
     \<and> (us_state row = StateFailed) = (us_error_code row \<noteq> None)"

definition part_checks :: "part_row \<Rightarrow> bool" where
  "part_checks row \<longleftrightarrow>
     1 \<le> pt_number row \<and> pt_number row \<le> 10000 \<and> pg_text (pt_storage_key row)
     \<and> 0 < pt_size row \<and> pt_size row < 2 ^ 31 \<and> hash_text (pt_sha256 row)"

definition scan_upload :: "session_row \<Rightarrow> UploadSession" where
  "scan_upload row =
     \<lparr>ses_ID = us_id row, ses_AssetID = us_asset_id row, ses_WorkspaceID = us_workspace_id row, ses_Filename = us_filename row,
      ses_MIMEType = us_mime_type row, ses_ExpectedSize = us_expected_size row, ses_ExpectedSHA256 = us_expected_sha256 row,
      ses_PartSize = us_part_size row, ses_State = us_state row, ses_ExpiresAt = us_expires_at row,
      ses_CreatedAt = us_created_at row, ses_UpdatedAt = us_updated_at row, ses_CompletedAt = us_completed_at row,
      ses_ErrorCode = us_error_code row, ses_Parts = []\<rparr>"

definition scan_part :: "part_row \<Rightarrow> UploadPart" where
  "scan_part row = \<lparr>part_Number = pt_number row, part_SizeBytes = pt_size row, part_SHA256 = pt_sha256 row,
     part_CreatedAt = pt_created_at row, part_StorageKey = pt_storage_key row\<rparr>"

text \<open>The session of an identifier in a workspace, both as the database parses them.\<close>

definition session_of :: "job_env \<Rightarrow> string \<Rightarrow> string \<Rightarrow> upload_db \<Rightarrow> session_row option" where
  "session_of env workspaceID uploadID db =
     find (\<lambda>r. Some (us_id r) = je_uuid env uploadID \<and> Some (us_workspace_id r) = je_uuid env workspaceID) (ud_sessions db)"

text \<open>A statement that names the session fails or finds it, or not.\<close>

definition query_session :: "job_env \<Rightarrow> string \<Rightarrow> string \<Rightarrow> string \<Rightarrow> upload_db \<Rightarrow> upload_error + session_row option" where
  "query_session env msg workspaceID uploadID db =
     (if je_fails env 0 msg \<or> je_uuid env uploadID = None \<or> je_uuid env workspaceID = None then Inl (UploadOther msg)
      else Inr (session_of env workspaceID uploadID db))"

definition set_session :: "session_row \<Rightarrow> upload_db \<Rightarrow> upload_db" where
  "set_session row db = db\<lparr>ud_sessions := map (\<lambda>r. if us_id r = us_id row then row else r) (ud_sessions db)\<rparr>"

definition upload_audit :: "job_env \<Rightarrow> string \<Rightarrow> job_audit \<Rightarrow> upload_db \<Rightarrow> upload_error + upload_db" where
  "upload_audit env msg a db =
     (if je_uuid env (ja_id a) = None then Inl (UploadOther msg)
      else case insert_audit env msg (a\<lparr>ja_id := pg_id env (ja_id a)\<rparr>) (ud_tables db) of
        Inl _ \<Rightarrow> Inl (UploadOther msg)
      | Inr tables \<Rightarrow> Inr (db\<lparr>ud_tables := tables\<rparr>))"

definition upload_commit :: "job_env \<Rightarrow> string \<Rightarrow> upload_db \<Rightarrow> upload_db \<Rightarrow> 'a \<Rightarrow> upload_db \<times> (upload_error + 'a)" where
  "upload_commit env msg old new result =
     (if je_fails env 0 msg then (if je_commit_lost env then new else old, Inl (UploadOther msg)) else (new, Inr result))"

definition update_asset :: "string \<Rightarrow> string \<Rightarrow> (asset_row \<Rightarrow> asset_row) \<Rightarrow> job_db \<Rightarrow> job_db" where
  "update_asset assetID workspaceID f db =
     db\<lparr>jd_assets := map (\<lambda>a. if as_id a = assetID \<and> as_workspace_id a = workspaceID then f a else a) (jd_assets db)\<rparr>"

definition touch_asset :: "string \<Rightarrow> go_time \<Rightarrow> asset_row \<Rightarrow> asset_row" where
  "touch_asset status at a = a\<lparr>as_status := status, as_version := as_version a + 1, as_updated_at := at\<rparr>"

subsection \<open>Create\<close>

definition new_session :: "job_env \<Rightarrow> CreateUploadParams \<Rightarrow> session_row option" where
  "new_session env p =
     (case (je_uuid env (cu_SessionID p), je_uuid env (cu_WorkspaceID p), je_uuid env (cu_AssetID p), je_uuid env (cu_CreatedBy p)) of
        (Some i, Some w, Some a, Some c) \<Rightarrow>
          Some \<lparr>us_id = i, us_workspace_id = w, us_asset_id = a, us_created_by = c, us_filename = cu_Filename p,
                us_mime_type = cu_MIMEType p, us_expected_size = cu_ExpectedSize p, us_expected_sha256 = cu_ExpectedSHA256 p,
                us_part_size = cu_PartSize p, us_idempotency_key = cu_IdempotencyKey p, us_request_hash = cu_RequestHash p,
                us_state = StateActive, us_error_code = None, us_expires_at = pg_time (cu_ExpiresAt p),
                us_created_at = pg_time (je_clock env 0), us_updated_at = pg_time (je_clock env 1), us_completed_at = None\<rparr>
      | _ \<Rightarrow> None)"

definition insert_session :: "job_env \<Rightarrow> session_row \<Rightarrow> upload_db \<Rightarrow> upload_error + upload_db" where
  "insert_session env row db =
     (if je_fails env 0 ''insert upload session: %w'' \<or> \<not> session_checks row
         \<or> us_id row \<in> set (map us_id (ud_sessions db))
         \<or> (\<exists>r\<in>set (ud_sessions db). us_workspace_id r = us_workspace_id row \<and> us_idempotency_key r = us_idempotency_key row)
         \<or> (us_workspace_id row, us_created_by row) \<notin> set (jd_memberships (ud_tables db)) then
        Inl (UploadOther ''insert upload session: %w'')
      else Inr (db\<lparr>ud_sessions := ud_sessions db @ [row]\<rparr>))"

definition open_upload :: "session_row \<Rightarrow> bool" where
  "open_upload r \<longleftrightarrow> us_state r \<in> {StateActive, StateAssembling}"

definition create_session ::
  "job_env \<Rightarrow> CreateUploadParams \<Rightarrow> asset_row \<Rightarrow> upload_db \<Rightarrow> upload_db \<times> (upload_error + (UploadSession \<times> bool))" where
  "create_session env p asset db =
     (case new_session env p of
        None \<Rightarrow> (db, Inl (UploadOther ''insert upload session: %w''))
      | Some row \<Rightarrow>
      case insert_session env row db of
        Inl e \<Rightarrow> (db, Inl e)
      | Inr db1 \<Rightarrow>
      if as_status asset = ''draft'' \<and> je_fails env 0 ''mark asset uploading: %w'' then
        (db, Inl (UploadOther ''mark asset uploading: %w''))
      else let db2 = (if as_status asset = ''draft''
          then db1\<lparr>ud_tables := update_asset (as_id asset) (as_workspace_id asset) (touch_asset ''uploading'' (pg_time (je_clock env 2))) (ud_tables db1)\<rparr>
          else db1) in
      case upload_audit env ''insert upload audit log: %w''
             \<lparr>ja_id = cu_AuditID p, ja_workspace_id = us_workspace_id row, ja_actor_id = Some (us_created_by row),
              ja_action = ''upload.started'', ja_target_id = us_id row\<rparr> db2 of
        Inl e \<Rightarrow> (db, Inl e)
      | Inr db3 \<Rightarrow> upload_commit env ''commit upload transaction: %w'' db db3 (scan_upload row, False))"

text \<open>
  The asset stays locked; before the insertion other transactions may commit sessions of other assets.
\<close>

definition upload_Create ::
  "job_env \<Rightarrow> (upload_db \<Rightarrow> upload_db) \<Rightarrow> CreateUploadParams \<Rightarrow> upload_db \<Rightarrow> upload_db \<times> (upload_error + (UploadSession \<times> bool))" where
  "upload_Create env others p db =
     (if je_fails env 0 ''begin upload transaction: %w'' then (db, Inl (UploadOther ''begin upload transaction: %w''))
      else if je_fails env 0 ''lock upload asset: %w'' \<or> je_uuid env (cu_AssetID p) = None \<or> je_uuid env (cu_WorkspaceID p) = None then
        (db, Inl (UploadOther ''lock upload asset: %w''))
      else case find (\<lambda>a. Some (as_id a) = je_uuid env (cu_AssetID p) \<and> Some (as_workspace_id a) = je_uuid env (cu_WorkspaceID p)
                       \<and> as_deleted_at a = None) (jd_assets (ud_tables db)) of
        None \<Rightarrow> (db, Inl UploadNotFound)
      | Some asset \<Rightarrow>
      if je_fails env 0 ''query idempotent upload: %w'' \<or> \<not> pg_text (cu_IdempotencyKey p) then
        (db, Inl (UploadOther ''query idempotent upload: %w''))
      else case find (\<lambda>r. us_workspace_id r = as_workspace_id asset \<and> us_idempotency_key r = cu_IdempotencyKey p) (ud_sessions db) of
        Some r \<Rightarrow> (db, if us_request_hash r \<noteq> cu_RequestHash p then Inl UploadIdempotencyConflict else Inr (scan_upload r, True))
      | None \<Rightarrow>
      if as_status asset \<noteq> ''draft'' \<and> as_status asset \<noteq> ''uploading'' then (db, Inl UploadStateConflict)
      else if je_fails env 0 ''query open upload: %w'' then (db, Inl (UploadOther ''query open upload: %w''))
      else if \<exists>r\<in>set (ud_sessions db). us_asset_id r = as_id asset \<and> us_workspace_id r = as_workspace_id asset \<and> open_upload r then
        (db, Inl UploadStateConflict)
      else create_session env p asset (others db))"

subsection \<open>Get and RecordPart\<close>

text \<open>Two statements; \<open>others\<close> may commit between them.\<close>

definition upload_Get ::
  "job_env \<Rightarrow> (upload_db \<Rightarrow> upload_db) \<Rightarrow> string \<Rightarrow> string \<Rightarrow> upload_db \<Rightarrow> upload_db \<times> (upload_error + (UploadSession \<times> UploadPart list))" where
  "upload_Get env others workspaceID uploadID db =
     (case query_session env ''query upload session: %w'' workspaceID uploadID db of
        Inl e \<Rightarrow> (db, Inl e)
      | Inr None \<Rightarrow> (db, Inl UploadNotFound)
      | Inr (Some r) \<Rightarrow>
      let db1 = others db in
      if je_fails env 0 ''query upload parts: %w'' then (db1, Inl (UploadOther ''query upload parts: %w''))
      else let parts = map scan_part (sort_key pt_number (filter (\<lambda>q. Some (pt_session_id q) = je_uuid env uploadID) (ud_parts db1))) in
      (db1, Inr ((scan_upload r)\<lparr>ses_Parts := parts\<rparr>, parts)))"

definition insert_part :: "job_env \<Rightarrow> part_row \<Rightarrow> upload_db \<Rightarrow> upload_error + upload_db option" where
  "insert_part env row db =
     (if je_fails env 0 ''insert upload part: %w'' \<or> \<not> part_checks row then Inl (UploadOther ''insert upload part: %w'')
      else if \<exists>q\<in>set (ud_parts db). pt_session_id q = pt_session_id row \<and> pt_number q = pt_number row then Inr None
      else if pt_storage_key row \<in> set (map pt_storage_key (ud_parts db)) then Inl (UploadOther ''insert upload part: %w'')
      else Inr (Some (db\<lparr>ud_parts := ud_parts db @ [row]\<rparr>)))"

definition part_row_of :: "job_env \<Rightarrow> string \<Rightarrow> UploadPart \<Rightarrow> part_row" where
  "part_row_of env sessionID part =
     \<lparr>pt_session_id = sessionID, pt_number = part_Number part, pt_storage_key = part_StorageKey part, pt_size = part_SizeBytes part,
      pt_sha256 = part_SHA256 part, pt_created_at = pg_time (je_clock env 1)\<rparr>"

definition upload_RecordPart :: "job_env \<Rightarrow> RecordPartParams \<Rightarrow> upload_db \<Rightarrow> upload_db \<times> (upload_error + (UploadPart \<times> bool))" where
  "upload_RecordPart env p db =
     (if je_fails env 0 ''begin part transaction: %w'' then (db, Inl (UploadOther ''begin part transaction: %w''))
      else case query_session env ''lock upload session: %w'' (rp_WorkspaceID p) (rp_UploadID p) db of
        Inl e \<Rightarrow> (db, Inl e)
      | Inr None \<Rightarrow> (db, Inl UploadNotFound)
      | Inr (Some r) \<Rightarrow>
      if us_state r \<noteq> StateActive then (db, Inl UploadStateConflict)
      else if \<not> us_expires_at r > pg_time (je_clock env 0) then (db, Inl UploadExpired)
      else let row = part_row_of env (us_id r) (rp_Part p) in
      case insert_part env row db of
        Inl e \<Rightarrow> (db, Inl e)
      | Inr None \<Rightarrow>
          if je_fails env 0 ''load existing upload part: %w'' then (db, Inl (UploadOther ''load existing upload part: %w''))
          else (case find (\<lambda>q. pt_session_id q = us_id r \<and> pt_number q = part_Number (rp_Part p)) (ud_parts db) of
             None \<Rightarrow> (db, Inl (UploadOther ''load existing upload part: %w''))
           | Some q \<Rightarrow>
               (db, if pt_size q \<noteq> part_SizeBytes (rp_Part p) \<or> pt_sha256 q \<noteq> part_SHA256 (rp_Part p)
                      \<or> pt_storage_key q \<noteq> part_StorageKey (rp_Part p) then Inl UploadPartConflict
                    else Inr (scan_part q, True)))
      | Inr (Some db1) \<Rightarrow>
          if je_fails env 0 ''touch upload session: %w'' then (db, Inl (UploadOther ''touch upload session: %w''))
          else upload_commit env ''commit part transaction: %w'' db
                 (set_session (r\<lparr>us_updated_at := pg_time (je_clock env 2)\<rparr>) db1) (scan_part row, False))"

subsection \<open>The transitions of a session\<close>

text \<open>
  An \<^verbatim>\<open>UPDATE\<close> that commits by itself: it may take effect although the client sees an error.
\<close>

definition update_session ::
  "job_env \<Rightarrow> string \<Rightarrow> string \<Rightarrow> string \<Rightarrow> (session_row \<Rightarrow> bool) \<Rightarrow> (session_row \<Rightarrow> session_row) \<Rightarrow> upload_db
     \<Rightarrow> upload_db \<times> (upload_error + bool)" where
  "update_session env msg workspaceID uploadID guard f db =
     (if je_uuid env uploadID = None \<or> je_uuid env workspaceID = None then (db, Inl (UploadOther msg))
      else let new = (case session_of env workspaceID uploadID db of
               Some r \<Rightarrow> if guard r then Some (set_session (f r) db) else None
             | None \<Rightarrow> None) in
      if je_fails env 0 msg then (if je_commit_lost env then (case new of None \<Rightarrow> db | Some db1 \<Rightarrow> db1) else db, Inl (UploadOther msg))
      else case new of None \<Rightarrow> (db, Inr False) | Some db1 \<Rightarrow> (db1, Inr True))"

definition classifyTransition :: "job_env \<Rightarrow> string \<Rightarrow> string \<Rightarrow> upload_db \<Rightarrow> upload_error" where
  "classifyTransition env workspaceID uploadID db =
     (case query_session env ''classify upload state: %w'' workspaceID uploadID db of
        Inl e \<Rightarrow> e
      | Inr None \<Rightarrow> UploadNotFound
      | Inr (Some r) \<Rightarrow>
          if \<not> us_expires_at r > pg_time (je_clock env 2) \<and> us_state r = StateActive then UploadExpired else UploadStateConflict)"

definition upload_MarkAssembling ::
  "job_env \<Rightarrow> (upload_db \<Rightarrow> upload_db) \<Rightarrow> string \<Rightarrow> string \<Rightarrow> upload_db \<Rightarrow> upload_db \<times> (upload_error + unit)" where
  "upload_MarkAssembling env others workspaceID uploadID db =
     (case update_session env ''mark upload assembling: %w'' workspaceID uploadID
             (\<lambda>r. us_state r = StateActive \<and> us_expires_at r > pg_time (je_clock env 0))
             (\<lambda>r. r\<lparr>us_state := StateAssembling, us_updated_at := pg_time (je_clock env 1)\<rparr>) db of
        (db1, Inl e) \<Rightarrow> (db1, Inl e)
      | (db1, Inr True) \<Rightarrow> (db1, Inr ())
      | (db1, Inr False) \<Rightarrow> (let db2 = others db1 in (db2, Inl (classifyTransition env workspaceID uploadID db2))))"

definition upload_ResetToActive :: "job_env \<Rightarrow> string \<Rightarrow> string \<Rightarrow> upload_db \<Rightarrow> upload_db \<times> (upload_error + unit)" where
  "upload_ResetToActive env workspaceID uploadID db =
     (case update_session env ''reset upload active: %w'' workspaceID uploadID (\<lambda>r. us_state r = StateAssembling)
             (\<lambda>r. r\<lparr>us_state := StateActive, us_error_code := None, us_updated_at := pg_time (je_clock env 0)\<rparr>) db of
        (db1, Inl e) \<Rightarrow> (db1, Inl e)
      | (db1, Inr True) \<Rightarrow> (db1, Inr ())
      | (db1, Inr False) \<Rightarrow> (db1, Inl UploadStateConflict))"

definition original_row :: "job_env \<Rightarrow> string \<Rightarrow> OriginalObject \<Rightarrow> object_row" where
  "original_row env assetID og =
     \<lparr>ob_id = pg_id env (og_ID og), ob_asset_id = assetID, ob_parent_id = None, ob_kind = ''original'',
      ob_backend = og_StorageBackend og, ob_key = og_StorageKey og, ob_size = og_FileSize og, ob_sha256 = og_SHA256 og,
      ob_mime_type = og_MIMEType og, ob_container = Some (og_Container og), ob_codec = Some (og_Codec og),
      ob_sample_rate = Some (og_SampleRate og), ob_channel_count = Some (og_ChannelCount og), ob_bitrate = Some (og_Bitrate og),
      ob_duration_ms = Some (og_DurationMS og), ob_source = ''upload'', ob_created_at = pg_time (je_clock env 0)\<rparr>"

definition waveform_job :: "job_env \<Rightarrow> string \<Rightarrow> string \<Rightarrow> FinishParams \<Rightarrow> job_row" where
  "waveform_job env workspaceID assetID p =
     \<lparr>j_id = pg_id env (fi_WaveformJobID p), j_workspace_id = workspaceID, j_asset_id = Some assetID, j_created_by = pg_id env (fi_ActorID p),
      j_kind = KindGenerateWaveform, j_state = JobQueued, j_payload = je_jsonb env (json_encode (JObj [(''asset_id'', JStr assetID)])),
      j_attempts = 0, j_max_attempts = 3, j_available_at = pg_time (je_clock env 2), j_lease_owner = None, j_lease_expires_at = None,
      j_last_error_code = None, j_result_revision_id = None, j_created_at = pg_time (je_clock env 3),
      j_updated_at = pg_time (je_clock env 4), j_idempotency_key = None, j_request_hash = None\<rparr>"

text \<open>The object, the asset and the job: the part of \<^verbatim>\<open>Finish\<close> on the tables of the jobs.\<close>

definition finish_tables :: "job_env \<Rightarrow> FinishParams \<Rightarrow> string \<Rightarrow> string \<Rightarrow> job_db \<Rightarrow> upload_error + job_db" where
  "finish_tables env p workspaceID assetID db =
     (case insert_object env ''insert original object: %w'' (original_row env assetID (fi_Object p)) db of
        Inl _ \<Rightarrow> Inl (UploadOther ''insert original object: %w'')
      | Inr db1 \<Rightarrow>
      if je_fails env 0 ''mark asset ready: %w'' \<or> og_DurationMS (fi_Object p) < 0 then Inl (UploadOther ''mark asset ready: %w'')
      else let db2 = update_asset assetID workspaceID
             (\<lambda>a. (touch_asset ''ready'' (pg_time (je_clock env 1)) a)\<lparr>as_duration_ms := Some (og_DurationMS (fi_Object p))\<rparr>) db1 in
      if je_uuid env (fi_WaveformJobID p) = None \<or> je_uuid env (fi_ActorID p) = None then
        Inl (UploadOther ''enqueue waveform generation: %w'')
      else case insert_job env ''enqueue waveform generation: %w'' (waveform_job env workspaceID assetID p) db2 of
        Inserted db3 \<Rightarrow> Inr db3
      | _ \<Rightarrow> Inl (UploadOther ''enqueue waveform generation: %w''))"

definition completed_row :: "job_env \<Rightarrow> session_row \<Rightarrow> session_row" where
  "completed_row env r = r\<lparr>us_state := StateCompleted, us_error_code := None, us_completed_at := Some (pg_time (je_clock env 5)),
     us_updated_at := pg_time (je_clock env 6)\<rparr>"

definition upload_Finish :: "job_env \<Rightarrow> FinishParams \<Rightarrow> upload_db \<Rightarrow> upload_db \<times> (upload_error + UploadSession)" where
  "upload_Finish env p db =
     (if je_fails env 0 ''begin completion transaction: %w'' then (db, Inl (UploadOther ''begin completion transaction: %w''))
      else case query_session env ''lock upload completion: %w'' (fi_WorkspaceID p) (fi_UploadID p) db of
        Inl e \<Rightarrow> (db, Inl e)
      | Inr None \<Rightarrow> (db, Inl UploadNotFound)
      | Inr (Some r) \<Rightarrow>
      if us_state r \<noteq> StateAssembling then (db, Inl UploadStateConflict)
      else case finish_tables env p (us_workspace_id r) (us_asset_id r) (ud_tables db) of
        Inl e \<Rightarrow> (db, Inl e)
      | Inr tables \<Rightarrow>
      if je_fails env 0 ''mark upload completed: %w'' then (db, Inl (UploadOther ''mark upload completed: %w''))
      else let row = completed_row env r in
      case upload_audit env ''insert completion audit log: %w''
             \<lparr>ja_id = fi_AuditID p, ja_workspace_id = us_workspace_id r, ja_actor_id = Some (pg_id env (fi_ActorID p)),
              ja_action = ''upload.completed'', ja_target_id = us_asset_id r\<rparr> (set_session row (db\<lparr>ud_tables := tables\<rparr>)) of
        Inl e \<Rightarrow> (db, Inl e)
      | Inr db1 \<Rightarrow>
      if je_fails env 0 ''load completed upload: %w'' then (db, Inl (UploadOther ''load completed upload: %w''))
      else upload_commit env ''commit upload completion: %w'' db db1 (scan_upload row))"

definition failed_row :: "job_env \<Rightarrow> string \<Rightarrow> session_row \<Rightarrow> session_row" where
  "failed_row env code r = r\<lparr>us_state := StateFailed, us_error_code := Some code, us_updated_at := pg_time (je_clock env 0)\<rparr>"

definition upload_MarkFailed :: "job_env \<Rightarrow> FailureParams \<Rightarrow> upload_db \<Rightarrow> upload_db \<times> (upload_error + unit)" where
  "upload_MarkFailed env p db =
     (if je_fails env 0 ''begin upload failure transaction: %w'' then (db, Inl (UploadOther ''begin upload failure transaction: %w''))
      else case query_session env ''lock failed upload: %w'' (fu_WorkspaceID p) (fu_UploadID p) db of
        Inl e \<Rightarrow> (db, Inl e)
      | Inr None \<Rightarrow> (db, Inl UploadNotFound)
      | Inr (Some r) \<Rightarrow>
      if us_state r \<noteq> StateAssembling then (db, Inl UploadStateConflict)
      else if je_fails env 0 ''mark upload failed: %w'' \<or> \<not> pg_text (fu_ErrorCode p) then (db, Inl (UploadOther ''mark upload failed: %w''))
      else if je_fails env 0 ''mark asset failed: %w'' then (db, Inl (UploadOther ''mark asset failed: %w''))
      else let db1 = set_session (failed_row env (fu_ErrorCode p) r) db;
               db2 = db1\<lparr>ud_tables := update_asset (us_asset_id r) (us_workspace_id r)
                 (touch_asset ''failed'' (pg_time (je_clock env 1))) (ud_tables db1)\<rparr> in
      if je_uuid env (fu_ActorID p) = None then (db, Inl (UploadOther ''insert upload failure audit: %w''))
      else case upload_audit env ''insert upload failure audit: %w''
             \<lparr>ja_id = fu_AuditID p, ja_workspace_id = us_workspace_id r, ja_actor_id = Some (pg_id env (fu_ActorID p)),
              ja_action = ''upload.failed'', ja_target_id = us_id r\<rparr> db2 of
        Inl e \<Rightarrow> (db, Inl e)
      | Inr db3 \<Rightarrow> upload_commit env ''commit upload failure: %w'' db db3 ())"

subsection \<open>The invariant of the tables\<close>

definition same_upload :: "session_row \<Rightarrow> session_row \<Rightarrow> bool" where
  "same_upload r s \<longleftrightarrow>
     us_id s = us_id r \<and> us_workspace_id s = us_workspace_id r \<and> us_asset_id s = us_asset_id r \<and> us_created_by s = us_created_by r
     \<and> us_filename s = us_filename r \<and> us_mime_type s = us_mime_type r \<and> us_expected_size s = us_expected_size r
     \<and> us_expected_sha256 s = us_expected_sha256 r \<and> us_part_size s = us_part_size r \<and> us_idempotency_key s = us_idempotency_key r
     \<and> us_request_hash s = us_request_hash r \<and> us_expires_at s = us_expires_at r \<and> us_created_at s = us_created_at r"

definition has_original :: "job_db \<Rightarrow> string \<Rightarrow> bool" where
  "has_original db assetID \<longleftrightarrow> (\<exists>x\<in>set (jd_objects db). ob_asset_id x = assetID \<and> ob_kind x = ''original'')"

definition upload_key :: "session_row \<Rightarrow> string \<times> string" where
  "upload_key r = (us_workspace_id r, us_idempotency_key r)"

definition part_key :: "part_row \<Rightarrow> string \<times> int" where
  "part_key q = (pt_session_id q, pt_number q)"

definition upload_inv :: "upload_db \<Rightarrow> bool" where
  "upload_inv db \<longleftrightarrow>
     distinct (map us_id (ud_sessions db)) \<and> distinct (map upload_key (ud_sessions db))
     \<and> (\<forall>r\<in>set (ud_sessions db). session_checks r \<and> (us_state r = StateCompleted \<longrightarrow> has_original (ud_tables db) (us_asset_id r)))
     \<and> (\<forall>r\<in>set (ud_sessions db). \<forall>s\<in>set (ud_sessions db).
          us_asset_id r = us_asset_id s \<and> us_workspace_id r = us_workspace_id s \<and> open_upload r \<and> open_upload s \<longrightarrow> us_id r = us_id s)
     \<and> (\<forall>r\<in>set (ud_sessions db). \<forall>s\<in>set (ud_sessions db).
          us_asset_id r = us_asset_id s \<and> us_state r = StateCompleted \<and> us_state s = StateCompleted \<longrightarrow> us_id r = us_id s)
     \<and> distinct (map part_key (ud_parts db)) \<and> distinct (map pt_storage_key (ud_parts db))
     \<and> (\<forall>q\<in>set (ud_parts db). part_checks q \<and> pt_session_id q \<in> set (map us_id (ud_sessions db)))"

text \<open>A session moves along \<^verbatim>\<open>active\<close>, \<^verbatim>\<open>assembling\<close>, and from there back or to an end.\<close>

definition upload_step :: "session_row \<Rightarrow> session_row \<Rightarrow> bool" where
  "upload_step r s \<longleftrightarrow> same_upload r s
     \<and> (if us_state r = StateActive then us_state s \<in> {StateActive, StateAssembling}
        else if us_state r = StateAssembling then us_state s \<in> {StateAssembling, StateActive, StateCompleted, StateFailed}
        else s = r)"

definition kept_upload :: "session_row \<Rightarrow> session_row \<Rightarrow> bool" where
  "kept_upload r s \<longleftrightarrow> same_upload r s \<and> (us_state r \<notin> {StateActive, StateAssembling} \<longrightarrow> s = r)"

definition upload_progress :: "upload_db \<Rightarrow> upload_db \<Rightarrow> bool" where
  "upload_progress db db' \<longleftrightarrow>
     (\<forall>r\<in>set (ud_sessions db). \<exists>s\<in>set (ud_sessions db'). kept_upload r s) \<and> set (ud_parts db) \<subseteq> set (ud_parts db')
     \<and> set (jd_objects (ud_tables db)) \<subseteq> set (jd_objects (ud_tables db'))"

lemma same_upload_refl [simp]: "same_upload r r"
  by (simp add: same_upload_def)

lemma same_upload_trans: "same_upload r s \<Longrightarrow> same_upload s t \<Longrightarrow> same_upload r t"
  by (simp add: same_upload_def)

lemma kept_upload_trans: "kept_upload r s \<Longrightarrow> kept_upload s t \<Longrightarrow> kept_upload r t"
  unfolding kept_upload_def using same_upload_trans by blast

lemma kept_upload_refl [simp]: "kept_upload r r"
  by (simp add: kept_upload_def)

lemma progress_superset:
  assumes "set (ud_sessions db) \<subseteq> set (ud_sessions db')" "set (ud_parts db) \<subseteq> set (ud_parts db')"
    and "set (jd_objects (ud_tables db)) \<subseteq> set (jd_objects (ud_tables db'))"
  shows "upload_progress db db'"
  using assms kept_upload_refl unfolding upload_progress_def by blast

lemma upload_progress_refl [simp]: "upload_progress db db"
  by (rule progress_superset) simp_all

lemma upload_invD:
  assumes "upload_inv db"
  shows "distinct (map us_id (ud_sessions db))" "distinct (map upload_key (ud_sessions db))"
    "r \<in> set (ud_sessions db) \<Longrightarrow> session_checks r"
    "r \<in> set (ud_sessions db) \<Longrightarrow> us_state r = StateCompleted \<Longrightarrow> has_original (ud_tables db) (us_asset_id r)"
    "r \<in> set (ud_sessions db) \<Longrightarrow> s \<in> set (ud_sessions db) \<Longrightarrow> us_asset_id r = us_asset_id s \<Longrightarrow>
       us_workspace_id r = us_workspace_id s \<Longrightarrow> open_upload r \<Longrightarrow> open_upload s \<Longrightarrow> us_id r = us_id s"
    "r \<in> set (ud_sessions db) \<Longrightarrow> s \<in> set (ud_sessions db) \<Longrightarrow> us_asset_id r = us_asset_id s \<Longrightarrow>
       us_state r = StateCompleted \<Longrightarrow> us_state s = StateCompleted \<Longrightarrow> us_id r = us_id s"
    "distinct (map part_key (ud_parts db))" "distinct (map pt_storage_key (ud_parts db))"
    "q \<in> set (ud_parts db) \<Longrightarrow> part_checks q" "q \<in> set (ud_parts db) \<Longrightarrow> pt_session_id q \<in> set (map us_id (ud_sessions db))"
  using assms unfolding upload_inv_def by blast+

lemma upload_progress_trans: "upload_progress a b \<Longrightarrow> upload_progress b c \<Longrightarrow> upload_progress a c"
  unfolding upload_progress_def using kept_upload_trans by (meson subset_trans)

lemma upload_inv_session:
  assumes "upload_inv db" "r \<in> set (ud_sessions db)" "s \<in> set (ud_sessions db)" "us_id r = us_id s"
  shows "r = s"
  using upload_invD(1) [OF assms(1)] assms(2-4) by (auto simp: distinct_map dest: inj_onD)

lemma session_of_Some:
  assumes "session_of env w u db = Some r"
  shows "r \<in> set (ud_sessions db)" "je_uuid env u = Some (us_id r)" "je_uuid env w = Some (us_workspace_id r)"
  using assms by (auto simp: session_of_def find_Some_iff)

lemma query_session_Some:
  assumes "query_session env msg w u db = Inr (Some r)"
  shows "r \<in> set (ud_sessions db)" "je_uuid env u = Some (us_id r)" "je_uuid env w = Some (us_workspace_id r)"
  using assms session_of_Some by (auto simp: query_session_def split: if_splits)

text \<open>Replacing a row by one that \<open>upload_step\<close> allows.\<close>

lemma map_replace:
  assumes "\<And>r. r \<in> set xs \<Longrightarrow> us_id r = us_id row \<Longrightarrow> r = old" "f row = f old"
  shows "map f (map (\<lambda>r. if us_id r = us_id row then row else r) xs) = map f xs"
  using assms by (auto intro!: map_cong)

lemma set_session_mem:
  assumes "upload_inv db" "old \<in> set (ud_sessions db)" "us_id row = us_id old"
  shows "set (ud_sessions (set_session row db)) = insert row (set (ud_sessions db) - {old})"
proof -
  have "r = old" if "r \<in> set (ud_sessions db)" "us_id r = us_id row" for r
    using upload_inv_session [OF assms(1) that(1) assms(2)] that assms by simp
  then show ?thesis using assms by (auto simp: set_session_def)
qed

lemma set_session_inv:
  assumes inv: "upload_inv db" and old: "old \<in> set (ud_sessions db)" and same: "same_upload old row"
    and checks: "session_checks row" and opens: "open_upload row \<Longrightarrow> open_upload old"
    and completed: "us_state row = StateCompleted \<Longrightarrow> has_original (ud_tables db) (us_asset_id old)
      \<and> (us_state old = StateCompleted \<or> (\<forall>s\<in>set (ud_sessions db). us_asset_id s = us_asset_id old \<longrightarrow> us_state s \<noteq> StateCompleted))"
  shows "upload_inv (set_session row db)"
proof -
  have id: "us_id row = us_id old" using same by (simp add: same_upload_def)
  have u: "r = old" if "r \<in> set (ud_sessions db)" "us_id r = us_id row" for r
    using upload_inv_session [OF inv that(1) old] that id by simp
  note mem = set_session_mem [OF inv old id]
  have maps: "map us_id (ud_sessions (set_session row db)) = map us_id (ud_sessions db)"
    "map upload_key (ud_sessions (set_session row db)) = map upload_key (ud_sessions db)"
    using map_replace [of "ud_sessions db" row old us_id, OF u] map_replace [of "ud_sessions db" row old upload_key, OF u] same
    by (simp_all add: set_session_def same_upload_def upload_key_def del: map_map)
  have *: "ud_tables (set_session row db) = ud_tables db" "ud_parts (set_session row db) = ud_parts db"
    by (simp_all add: set_session_def)
  have all: "session_checks r \<and> (us_state r = StateCompleted \<longrightarrow> has_original (ud_tables db) (us_asset_id r))"
    if "r \<in> set (ud_sessions (set_session row db))" for r
    using that upload_invD(3,4) [OF inv, of r] checks completed same by (auto simp: mem same_upload_def)
  have open1: "us_id r = us_id s"
    if "r \<in> set (ud_sessions (set_session row db))" "s \<in> set (ud_sessions (set_session row db))"
      "us_asset_id r = us_asset_id s" "us_workspace_id r = us_workspace_id s" "open_upload r" "open_upload s" for r s
  proof -
    have "\<exists>r'\<in>set (ud_sessions db). us_id r' = us_id r \<and> us_asset_id r' = us_asset_id r \<and> us_workspace_id r' = us_workspace_id r \<and> open_upload r'"
      if "r \<in> set (ud_sessions (set_session row db))" "open_upload r" for r
      using that opens old same by (auto simp: mem same_upload_def)
    from this [OF that(1,5)] this [OF that(2,6)] that(3,4) show ?thesis using upload_invD(5) [OF inv] by metis
  qed
  have compl: "us_id r = us_id s"
    if "r \<in> set (ud_sessions (set_session row db))" "s \<in> set (ud_sessions (set_session row db))"
      "us_asset_id r = us_asset_id s" "us_state r = StateCompleted" "us_state s = StateCompleted" for r s
  proof (cases "us_state old = StateCompleted")
    case True
    have "\<exists>r'\<in>set (ud_sessions db). us_id r' = us_id r \<and> us_asset_id r' = us_asset_id r \<and> us_state r' = StateCompleted"
      if "r \<in> set (ud_sessions (set_session row db))" "us_state r = StateCompleted" for r
      using that True old same by (auto simp: mem same_upload_def)
    from this [OF that(1,4)] this [OF that(2,5)] that(3) show ?thesis using upload_invD(6) [OF inv] by metis
  next
    case False
    then show ?thesis using that completed same upload_invD(6) [OF inv, of r s] by (auto simp: mem same_upload_def)
  qed
  have parts: "part_checks q \<and> pt_session_id q \<in> set (map us_id (ud_sessions (set_session row db)))" if "q \<in> set (ud_parts db)" for q
    unfolding maps using that upload_invD(9,10) [OF inv] by blast
  show ?thesis
    unfolding upload_inv_def * maps using all open1 compl parts upload_invD(1,2,7,8) [OF inv] unfolding maps by blast
qed

lemma set_session_progress:
  assumes "upload_inv db" "old \<in> set (ud_sessions db)" "upload_step old row"
  shows "upload_progress db (set_session row db)"
proof -
  have "kept_upload old row" using assms(3) by (auto simp: upload_step_def kept_upload_def split: if_splits)
  moreover have "us_id row = us_id old" using assms(3) by (simp add: upload_step_def same_upload_def)
  ultimately have "\<exists>s\<in>set (ud_sessions (set_session row db)). kept_upload r s" if "r \<in> set (ud_sessions db)" for r
    using that kept_upload_refl unfolding set_session_mem [OF assms(1,2) \<open>us_id row = us_id old\<close>] by (cases "r = old") blast+
  then show ?thesis by (simp add: upload_progress_def set_session_def)
qed

text \<open>The tables of the jobs may change under the sessions as long as no object disappears.\<close>

lemma has_original_mono: "set (jd_objects db) \<subseteq> set (jd_objects db') \<Longrightarrow> has_original db a \<Longrightarrow> has_original db' a"
  by (auto simp: has_original_def)

lemma tables_inv:
  assumes "upload_inv db" "set (jd_objects (ud_tables db)) \<subseteq> set (jd_objects t)"
  shows "upload_inv (db\<lparr>ud_tables := t\<rparr>)" "upload_progress db (db\<lparr>ud_tables := t\<rparr>)"
proof -
  have fr: "ud_sessions (db\<lparr>ud_tables := t\<rparr>) = ud_sessions db" "ud_parts (db\<lparr>ud_tables := t\<rparr>) = ud_parts db"
    "ud_tables (db\<lparr>ud_tables := t\<rparr>) = t" by simp_all
  show "upload_inv (db\<lparr>ud_tables := t\<rparr>)"
    using assms(1) has_original_mono [OF assms(2)] unfolding upload_inv_def fr by blast
  show "upload_progress db (db\<lparr>ud_tables := t\<rparr>)"
    using assms(2) by (intro progress_superset) simp_all
qed

subsection \<open>Every method keeps the tables consistent\<close>

definition sound_step :: "upload_db \<Rightarrow> upload_db \<Rightarrow> bool" where
  "sound_step db db' \<longleftrightarrow> upload_inv db' \<and> upload_progress db db'"

lemma sound_step_refl: "upload_inv db \<Longrightarrow> sound_step db db"
  by (simp add: sound_step_def)

lemma sound_step_trans: "sound_step a b \<Longrightarrow> sound_step b c \<Longrightarrow> sound_step a c"
  unfolding sound_step_def using upload_progress_trans by blast

lemma tables_step:
  assumes "upload_inv db" "set (jd_objects (ud_tables db)) \<subseteq> set (jd_objects t)"
  shows "sound_step db (db\<lparr>ud_tables := t\<rparr>)"
  using tables_inv [OF assms] by (simp add: sound_step_def)

lemma session_step:
  assumes "upload_inv db" "old \<in> set (ud_sessions db)" "upload_step old row" "session_checks row"
    and "us_state row = StateCompleted \<Longrightarrow> us_state old = StateCompleted
      \<or> (has_original (ud_tables db) (us_asset_id old) \<and> (\<forall>s\<in>set (ud_sessions db). us_asset_id s = us_asset_id old \<longrightarrow> us_state s \<noteq> StateCompleted))"
  shows "sound_step db (set_session row db)"
proof -
  have "same_upload old row" "open_upload row \<Longrightarrow> open_upload old"
    using assms(3) by (auto simp: upload_step_def open_upload_def split: if_splits)
  moreover have "us_state row = StateCompleted \<Longrightarrow> has_original (ud_tables db) (us_asset_id old)
      \<and> (us_state old = StateCompleted \<or> (\<forall>s\<in>set (ud_sessions db). us_asset_id s = us_asset_id old \<longrightarrow> us_state s \<noteq> StateCompleted))"
    using assms(5) upload_invD(4) [OF assms(1,2)] by blast
  ultimately show ?thesis
    using set_session_inv [OF assms(1,2)] set_session_progress [OF assms(1-3)] assms(4) by (simp add: sound_step_def)
qed

lemma upload_audit_Inr:
  assumes "upload_audit env msg a db = Inr db1"
  shows "ud_sessions db1 = ud_sessions db" "ud_parts db1 = ud_parts db" "jd_objects (ud_tables db1) = jd_objects (ud_tables db)"
    "jd_jobs (ud_tables db1) = jd_jobs (ud_tables db)" "jd_assets (ud_tables db1) = jd_assets (ud_tables db)"
    "\<exists>t. db1 = db\<lparr>ud_tables := t\<rparr>"
  using assms by (auto simp: upload_audit_def insert_audit_def split: if_splits sum.splits)

lemma upload_audit_step: "upload_inv db \<Longrightarrow> upload_audit env msg a db = Inr db1 \<Longrightarrow> sound_step db db1"
  using upload_audit_Inr [of env msg a db db1] tables_step [of db] by (metis order_refl upload_db.select_convs(1) upload_db.simps(4) upload_db.surjective upload_db.update_convs(1))

lemma upload_commit_step:
  assumes "upload_inv old" "sound_step old new"
  shows "sound_step old (fst (upload_commit env msg old new x))"
  using assms sound_step_refl by (simp add: upload_commit_def)

lemma update_asset_frame [simp]:
  "jd_objects (update_asset a w f db) = jd_objects db" "jd_jobs (update_asset a w f db) = jd_jobs db"
  "jd_attempts (update_asset a w f db) = jd_attempts db" "jd_notifications (update_asset a w f db) = jd_notifications db"
  "jd_audits (update_asset a w f db) = jd_audits db" "jd_memberships (update_asset a w f db) = jd_memberships db"
  by (simp_all add: update_asset_def)

text \<open>A new session.\<close>

lemma insert_session_step:
  assumes inv: "upload_inv db" and ins: "insert_session env row db = Inr db1" and active: "us_state row = StateActive"
    and free: "\<forall>r\<in>set (ud_sessions db). us_asset_id r = us_asset_id row \<and> us_workspace_id r = us_workspace_id row \<longrightarrow> \<not> open_upload r"
  shows "sound_step db db1"
proof -
  have db1: "db1 = db\<lparr>ud_sessions := ud_sessions db @ [row]\<rparr>" and new: "session_checks row" "us_id row \<notin> set (map us_id (ud_sessions db))"
      "upload_key row \<notin> set (map upload_key (ud_sessions db))"
    using ins by (auto simp: insert_session_def upload_key_def split: if_splits)
  have fr: "ud_sessions db1 = ud_sessions db @ [row]" "ud_parts db1 = ud_parts db" "ud_tables db1 = ud_tables db" by (simp_all add: db1)
  have nc: "us_state row \<noteq> StateCompleted" using active by (simp add: upload_states)
  have "upload_inv db1"
    unfolding upload_inv_def fr
  proof (intro conjI)
    show "\<forall>r\<in>set (ud_sessions db @ [row]). \<forall>s\<in>set (ud_sessions db @ [row]).
        us_asset_id r = us_asset_id s \<and> us_workspace_id r = us_workspace_id s \<and> open_upload r \<and> open_upload s \<longrightarrow> us_id r = us_id s"
    proof (intro ballI impI, elim conjE)
      fix r s
      assume "r \<in> set (ud_sessions db @ [row])" "s \<in> set (ud_sessions db @ [row])" "us_asset_id r = us_asset_id s"
        "us_workspace_id r = us_workspace_id s" "open_upload r" "open_upload s"
      then show "us_id r = us_id s"
        using upload_invD(5) [OF inv, of r s] bspec [OF free, of r] bspec [OF free, of s] by auto
    qed
    show "\<forall>r\<in>set (ud_sessions db @ [row]). \<forall>s\<in>set (ud_sessions db @ [row]).
        us_asset_id r = us_asset_id s \<and> us_state r = StateCompleted \<and> us_state s = StateCompleted \<longrightarrow> us_id r = us_id s"
      using upload_invD(6) [OF inv] nc unfolding set_append set_simps ball_Un by blast
    show "\<forall>r\<in>set (ud_sessions db @ [row]). session_checks r \<and> (us_state r = StateCompleted \<longrightarrow> has_original (ud_tables db) (us_asset_id r))"
      using upload_invD(3,4) [OF inv] new nc unfolding set_append set_simps ball_Un by blast
    show "\<forall>q\<in>set (ud_parts db). part_checks q \<and> pt_session_id q \<in> set (map us_id (ud_sessions db @ [row]))"
      using upload_invD(9,10) [OF inv] by simp
  qed (use upload_invD(1,2,7,8) [OF inv] new in simp_all)
  moreover have "upload_progress db db1" by (rule progress_superset) (auto simp: fr)
  ultimately show ?thesis by (simp add: sound_step_def)
qed

text \<open>
  What others commit while \<^verbatim>\<open>Create\<close> holds the lock on the asset: they keep the tables consistent, and no
  session of this asset is opened.
\<close>

definition respects_lock :: "string option \<Rightarrow> string option \<Rightarrow> (upload_db \<Rightarrow> upload_db) \<Rightarrow> bool" where
  "respects_lock assetID workspaceID others \<longleftrightarrow>
     (\<forall>db. upload_inv db \<longrightarrow> sound_step db (others db)
        \<and> (\<forall>r\<in>set (ud_sessions (others db)). Some (us_asset_id r) = assetID \<and> Some (us_workspace_id r) = workspaceID \<and> open_upload r \<longrightarrow>
             (\<exists>s\<in>set (ud_sessions db). us_asset_id s = us_asset_id r \<and> us_workspace_id s = us_workspace_id r \<and> open_upload s)))"

lemma new_session_row:
  assumes "new_session env p = Some row"
  shows "je_uuid env (cu_AssetID p) = Some (us_asset_id row)" "je_uuid env (cu_WorkspaceID p) = Some (us_workspace_id row)"
    "us_state row = StateActive" "us_expected_size row = cu_ExpectedSize p" "us_expected_sha256 row = cu_ExpectedSHA256 p"
    "us_mime_type row = cu_MIMEType p" "us_filename row = cu_Filename p" "us_part_size row = cu_PartSize p"
    "us_idempotency_key row = cu_IdempotencyKey p" "us_request_hash row = cu_RequestHash p"
  using assms by (auto simp: new_session_def split: option.splits)

lemma create_session_step:
  assumes inv: "upload_inv db"
    and free: "\<forall>r\<in>set (ud_sessions db). Some (us_asset_id r) = je_uuid env (cu_AssetID p) \<and> Some (us_workspace_id r) = je_uuid env (cu_WorkspaceID p) \<longrightarrow> \<not> open_upload r"
  shows "sound_step db (fst (create_session env p asset db))"
proof -
  have "sound_step db db3"
    if "new_session env p = Some row" "insert_session env row db = Inr db1" "upload_audit env msg a db2 = Inr db3"
      "db2 = db1 \<or> db2 = db1\<lparr>ud_tables := update_asset x y f (ud_tables db1)\<rparr>" for row db1 msg a db2 db3 x y f
  proof -
    have 1: "sound_step db db1" using insert_session_step [OF inv that(2)] new_session_row [OF that(1)] free by simp
    then have "upload_inv db1" by (simp add: sound_step_def)
    then have 2: "sound_step db1 db2" using that(4) tables_step [of db1 "update_asset x y f (ud_tables db1)"] sound_step_refl by auto
    then have "upload_inv db2" by (simp add: sound_step_def)
    then show ?thesis using 1 2 upload_audit_step [OF _ that(3)] sound_step_trans by blast
  qed
  then have "sound_step db db3"
    if "new_session env p = Some row" "insert_session env row db = Inr db1" "upload_audit env msg a db1 = Inr db3
      \<or> upload_audit env msg a (db1\<lparr>ud_tables := update_asset x y f (ud_tables db1)\<rparr>) = Inr db3" for row db1 msg a db3 x y f
    using that by blast
  note commit = upload_commit_step [OF inv this]
  show ?thesis
    unfolding create_session_def Let_def
    by (auto simp: sound_step_refl [OF inv] split: option.split sum.split intro: commit)
qed

lemma upload_Create_step:
  assumes inv: "upload_inv db" and others: "respects_lock (je_uuid env (cu_AssetID p)) (je_uuid env (cu_WorkspaceID p)) others"
  shows "sound_step db (fst (upload_Create env others p db))"
proof -
  have "sound_step db (fst (create_session env p asset (others db)))"
    if "Some (as_id asset) = je_uuid env (cu_AssetID p)" "Some (as_workspace_id asset) = je_uuid env (cu_WorkspaceID p)"
      "\<forall>r\<in>set (ud_sessions db). us_asset_id r = as_id asset \<and> us_workspace_id r = as_workspace_id asset \<longrightarrow> \<not> open_upload r" for asset
  proof -
    have 1: "sound_step db (others db)" using others inv by (simp add: respects_lock_def)
    have "\<forall>r\<in>set (ud_sessions (others db)). Some (us_asset_id r) = je_uuid env (cu_AssetID p)
        \<and> Some (us_workspace_id r) = je_uuid env (cu_WorkspaceID p) \<longrightarrow> \<not> open_upload r"
      using others inv that unfolding respects_lock_def by (metis option.inject)
    then have "sound_step (others db) (fst (create_session env p asset (others db)))"
      using 1 by (intro create_session_step) (simp_all add: sound_step_def)
    with 1 show ?thesis by (rule sound_step_trans)
  qed
  note create = this
  show ?thesis
  proof (cases "find (\<lambda>a. Some (as_id a) = je_uuid env (cu_AssetID p) \<and> Some (as_workspace_id a) = je_uuid env (cu_WorkspaceID p)
      \<and> as_deleted_at a = None) (jd_assets (ud_tables db))")
    case (Some asset)
    then have "Some (as_id asset) = je_uuid env (cu_AssetID p)" "Some (as_workspace_id asset) = je_uuid env (cu_WorkspaceID p)"
      by (auto simp: find_Some_iff)
    from create [OF this] show ?thesis
      unfolding upload_Create_def Some using sound_step_refl [OF inv] by (simp split: option.split)
  qed (simp add: upload_Create_def sound_step_refl [OF inv])
qed

text \<open>A new part, and the transitions.\<close>

lemma insert_part_step:
  assumes inv: "upload_inv db" and ins: "insert_part env row db = Inr (Some db1)" and "pt_session_id row \<in> set (map us_id (ud_sessions db))"
  shows "sound_step db db1"
proof -
  have db1: "db1 = db\<lparr>ud_parts := ud_parts db @ [row]\<rparr>"
    and new: "part_checks row" "part_key row \<notin> set (map part_key (ud_parts db))" "pt_storage_key row \<notin> set (map pt_storage_key (ud_parts db))"
    using ins by (auto simp: insert_part_def part_key_def split: if_splits)
  have fr: "ud_sessions db1 = ud_sessions db" "ud_parts db1 = ud_parts db @ [row]" "ud_tables db1 = ud_tables db" by (simp_all add: db1)
  have "distinct (map part_key (ud_parts db @ [row]))" "distinct (map pt_storage_key (ud_parts db @ [row]))"
    "\<forall>q\<in>set (ud_parts db @ [row]). part_checks q \<and> pt_session_id q \<in> set (map us_id (ud_sessions db))"
    using upload_invD(7-10) [OF inv] new assms(3) by simp_all
  with inv have "upload_inv db1" unfolding upload_inv_def fr by blast
  moreover have "upload_progress db db1" by (rule progress_superset) (auto simp: fr)
  ultimately show ?thesis by (simp add: sound_step_def)
qed

lemma query_checks:
  assumes "upload_inv db" "query_session env msg w u db = Inr (Some r)"
  shows "session_checks r" "r \<in> set (ud_sessions db)"
  using query_session_Some(1) [OF assms(2)] upload_invD(3) [OF assms(1)] by blast+

lemma upload_RecordPart_step:
  assumes inv: "upload_inv db"
  shows "sound_step db (fst (upload_RecordPart env p db))"
proof -
  have "sound_step db (set_session (r\<lparr>us_updated_at := t\<rparr>) db1)"
    if r: "query_session env ''lock upload session: %w'' (rp_WorkspaceID p) (rp_UploadID p) db = Inr (Some r)"
      and ins: "insert_part env (part_row_of env (us_id r) (rp_Part p)) db = Inr (Some db1)" and active: "us_state r = StateActive"
    for r db1 t
  proof -
    have 1: "sound_step db db1" using insert_part_step [OF inv ins] query_checks [OF inv r] by (simp add: part_row_of_def)
    have "r \<in> set (ud_sessions db1)" using ins query_checks [OF inv r] by (auto simp: insert_part_def split: if_splits)
    moreover have "upload_step r (r\<lparr>us_updated_at := t\<rparr>)" "session_checks (r\<lparr>us_updated_at := t\<rparr>)"
      using active query_checks [OF inv r] by (simp_all add: upload_step_def same_upload_def session_checks_def)
    ultimately have "sound_step db1 (set_session (r\<lparr>us_updated_at := t\<rparr>) db1)"
      using 1 by (intro session_step [of db1 r]) (simp_all add: sound_step_def)
    with 1 show ?thesis by (rule sound_step_trans)
  qed
  note commit = upload_commit_step [OF inv this]
  show ?thesis
    unfolding upload_RecordPart_def Let_def
    by (simp add: sound_step_refl [OF inv] commit split: option.split sum.split)
qed

lemma update_session_step:
  assumes inv: "upload_inv db"
    and step: "\<And>r. session_checks r \<Longrightarrow> guard r \<Longrightarrow> upload_step r (f r) \<and> session_checks (f r) \<and> us_state (f r) \<noteq> StateCompleted"
  shows "sound_step db (fst (update_session env msg w u guard f db))"
proof -
  have "sound_step db (set_session (f r) db)" if "session_of env w u db = Some r" "guard r" for r
    using session_step [OF inv, of r "f r"] session_of_Some(1) [OF that(1)] step [of r] upload_invD(3) [OF inv, of r] that(2) by blast
  then show ?thesis
    unfolding update_session_def Let_def by (auto simp: sound_step_refl [OF inv] split: option.split)
qed

lemma upload_MarkAssembling_step:
  assumes inv: "upload_inv db" and others: "\<And>d. upload_inv d \<Longrightarrow> sound_step d (others d)"
  shows "sound_step db (fst (upload_MarkAssembling env others w u db))"
proof -
  let ?u = "update_session env ''mark upload assembling: %w'' w u
      (\<lambda>r. us_state r = StateActive \<and> us_expires_at r > pg_time (je_clock env 0))
      (\<lambda>r. r\<lparr>us_state := StateAssembling, us_updated_at := pg_time (je_clock env 1)\<rparr>) db"
  have 1: "sound_step db (fst ?u)"
    by (rule update_session_step [OF inv]) (auto simp: upload_step_def same_upload_def session_checks_def upload_states)
  then have "sound_step db (others (fst ?u))" using others sound_step_trans by (auto simp: sound_step_def)
  with 1 show ?thesis unfolding upload_MarkAssembling_def by (auto simp: Let_def split: prod.split sum.split bool.split)
qed

lemma upload_ResetToActive_step:
  assumes inv: "upload_inv db"
  shows "sound_step db (fst (upload_ResetToActive env w u db))"
proof -
  have "sound_step db (fst (update_session env ''reset upload active: %w'' w u (\<lambda>r. us_state r = StateAssembling)
      (\<lambda>r. r\<lparr>us_state := StateActive, us_error_code := None, us_updated_at := pg_time (je_clock env 0)\<rparr>) db))"
    by (rule update_session_step [OF inv]) (auto simp: upload_step_def same_upload_def session_checks_def upload_states opt_check_def)
  then show ?thesis unfolding upload_ResetToActive_def by (auto split: prod.split sum.split bool.split)
qed

lemma finish_tables_Inr:
  assumes "finish_tables env p w a db = Inr t"
  shows "\<not> has_original db a" "jd_objects t = jd_objects db @ [original_row env a (fi_Object p)]"
    "jd_jobs t = jd_jobs db @ [waveform_job env w a p]"
    "jd_assets t = jd_assets (update_asset a w
       (\<lambda>x. (touch_asset ''ready'' (pg_time (je_clock env 1)) x)\<lparr>as_duration_ms := Some (og_DurationMS (fi_Object p))\<rparr>) db)"
    "\<exists>d. insert_job env ''enqueue waveform generation: %w'' (waveform_job env w a p) d = Inserted t
       \<and> jd_jobs d = jd_jobs db \<and> jd_attempts d = jd_attempts db \<and> jd_notifications d = jd_notifications db"
    "jd_attempts t = jd_attempts db" "jd_notifications t = jd_notifications db"
proof -
  obtain db1 db2 where s: "insert_object env ''insert original object: %w'' (original_row env a (fi_Object p)) db = Inr db1"
    "db2 = update_asset a w (\<lambda>x. (touch_asset ''ready'' (pg_time (je_clock env 1)) x)\<lparr>as_duration_ms := Some (og_DurationMS (fi_Object p))\<rparr>) db1"
    "insert_job env ''enqueue waveform generation: %w'' (waveform_job env w a p) db2 = Inserted t"
    using assms by (auto simp: finish_tables_def Let_def split: sum.splits if_splits insert_outcome.splits)
  have db1: "db1 = db\<lparr>jd_objects := jd_objects db @ [original_row env a (fi_Object p)]\<rparr>" and "\<not> has_original db a"
    using s(1) by (auto simp: insert_object_def has_original_def original_row_def split: if_splits)
  moreover have "t = db2\<lparr>jd_jobs := jd_jobs db2 @ [waveform_job env w a p]\<rparr>"
    using s(3) by (auto simp: insert_job_def split: if_splits)
  ultimately show "\<not> has_original db a" "jd_objects t = jd_objects db @ [original_row env a (fi_Object p)]"
    "jd_jobs t = jd_jobs db @ [waveform_job env w a p]" "jd_attempts t = jd_attempts db" "jd_notifications t = jd_notifications db"
    "jd_assets t = jd_assets (update_asset a w
       (\<lambda>x. (touch_asset ''ready'' (pg_time (je_clock env 1)) x)\<lparr>as_duration_ms := Some (og_DurationMS (fi_Object p))\<rparr>) db)"
    by (simp_all add: s(2) update_asset_def)
  show "\<exists>d. insert_job env ''enqueue waveform generation: %w'' (waveform_job env w a p) d = Inserted t
       \<and> jd_jobs d = jd_jobs db \<and> jd_attempts d = jd_attempts db \<and> jd_notifications d = jd_notifications db"
    using s(3) by (intro exI [of _ db2]) (simp add: s(2) db1)
qed

text \<open>What \<^verbatim>\<open>Finish\<close> does: nothing, or everything.\<close>

lemma upload_Finish_cases:
  assumes "upload_Finish env p db = (db', res)"
  obtains (same) "db' = db" "\<exists>e. res = Inl e"
  | (stored) r t where
      "query_session env ''lock upload completion: %w'' (fi_WorkspaceID p) (fi_UploadID p) db = Inr (Some r)"
      "us_state r = StateAssembling" "finish_tables env p (us_workspace_id r) (us_asset_id r) (ud_tables db) = Inr t"
      "\<exists>msg a. upload_audit env msg a (set_session (completed_row env r) (db\<lparr>ud_tables := t\<rparr>)) = Inr db'"
      "res = Inr (scan_upload (completed_row env r)) \<or> (je_commit_lost env \<and> (\<exists>e. res = Inl e))"
  using assms unfolding upload_Finish_def Let_def upload_commit_def
  by (auto split: if_splits sum.splits option.splits) blast

lemma finish_step:
  assumes inv: "upload_inv db" and r: "r \<in> set (ud_sessions db)" "us_state r = StateAssembling"
    and t: "finish_tables env p (us_workspace_id r) (us_asset_id r) (ud_tables db) = Inr t"
  shows "sound_step db (set_session (completed_row env r) (db\<lparr>ud_tables := t\<rparr>))"
proof -
  note fin = finish_tables_Inr [OF t]
  have 1: "sound_step db (db\<lparr>ud_tables := t\<rparr>)" using fin(2) by (intro tables_step [OF inv]) auto
  have no: "\<forall>s\<in>set (ud_sessions db). us_asset_id s = us_asset_id r \<longrightarrow> us_state s \<noteq> StateCompleted"
    using upload_invD(4) [OF inv] fin(1) by metis
  have orig: "has_original t (us_asset_id r)" by (simp add: has_original_def fin(2) original_row_def)
  have "sound_step (db\<lparr>ud_tables := t\<rparr>) (set_session (completed_row env r) (db\<lparr>ud_tables := t\<rparr>))"
  proof (rule session_step)
    show "upload_inv (db\<lparr>ud_tables := t\<rparr>)" using 1 by (simp add: sound_step_def)
    show "upload_step r (completed_row env r)" "session_checks (completed_row env r)"
      using r upload_invD(3) [OF inv r(1)] by (simp_all add: completed_row_def upload_step_def same_upload_def session_checks_def upload_states opt_check_def)
  qed (use r no orig in simp_all)
  with 1 show ?thesis by (rule sound_step_trans)
qed

lemma upload_Finish_step:
  assumes inv: "upload_inv db"
  shows "sound_step db (fst (upload_Finish env p db))"
proof -
  obtain db' res where f: "upload_Finish env p db = (db', res)" by (rule prod.exhaust)
  then show ?thesis
  proof (cases rule: upload_Finish_cases)
    case same
    then show ?thesis using f sound_step_refl [OF inv] by simp
  next
    case (stored r t)
    have 1: "sound_step db (set_session (completed_row env r) (db\<lparr>ud_tables := t\<rparr>))"
      using finish_step [OF inv _ stored(2,3)] query_checks [OF inv stored(1)] by blast
    then have "sound_step (set_session (completed_row env r) (db\<lparr>ud_tables := t\<rparr>)) db'"
      using stored(4) upload_audit_step by (auto simp: sound_step_def)
    with 1 show ?thesis using f sound_step_trans by simp
  qed
qed

lemma upload_MarkFailed_cases:
  assumes "upload_MarkFailed env p db = (db', res)"
  obtains (same) "db' = db" "\<exists>e. res = Inl e"
  | (failed) r where
      "query_session env ''lock failed upload: %w'' (fu_WorkspaceID p) (fu_UploadID p) db = Inr (Some r)"
      "us_state r = StateAssembling" "pg_text (fu_ErrorCode p)"
      "\<exists>msg a. upload_audit env msg a ((set_session (failed_row env (fu_ErrorCode p) r) db)\<lparr>ud_tables :=
         update_asset (us_asset_id r) (us_workspace_id r) (touch_asset ''failed'' (pg_time (je_clock env 1)))
           (ud_tables (set_session (failed_row env (fu_ErrorCode p) r) db))\<rparr>) = Inr db'"
      "res = Inr () \<or> (je_commit_lost env \<and> (\<exists>e. res = Inl e))"
  using assms unfolding upload_MarkFailed_def Let_def upload_commit_def
  by (auto split: if_splits sum.splits option.splits)

lemma upload_MarkFailed_step:
  assumes inv: "upload_inv db"
  shows "sound_step db (fst (upload_MarkFailed env p db))"
proof -
  obtain db' res where f: "upload_MarkFailed env p db = (db', res)" by (rule prod.exhaust)
  then show ?thesis
  proof (cases rule: upload_MarkFailed_cases)
    case same
    then show ?thesis using f sound_step_refl [OF inv] by simp
  next
    case (failed r)
    let ?d = "set_session (failed_row env (fu_ErrorCode p) r) db"
    let ?e = "?d\<lparr>ud_tables := update_asset (us_asset_id r) (us_workspace_id r) (touch_asset ''failed'' (pg_time (je_clock env 1))) (ud_tables ?d)\<rparr>"
    have "upload_step r (failed_row env (fu_ErrorCode p) r)" "session_checks (failed_row env (fu_ErrorCode p) r)"
      "us_state (failed_row env (fu_ErrorCode p) r) \<noteq> StateCompleted"
      using failed(2,3) query_checks(1) [OF inv failed(1)]
      by (simp_all add: failed_row_def upload_step_def same_upload_def session_checks_def upload_states opt_check_def)
    then have 1: "sound_step db ?d"
      using query_checks(2) [OF inv failed(1)] by (intro session_step [OF inv, of r]) simp_all
    then have 2: "sound_step ?d ?e" by (intro tables_step) (simp_all add: sound_step_def)
    then have "sound_step ?e db'" using failed(4) upload_audit_step by (auto simp: sound_step_def)
    from sound_step_trans [OF 1 sound_step_trans [OF 2 this]] show ?thesis using f by simp
  qed
qed

subsection \<open>All methods together\<close>

datatype upload_tx =
    UpCreate job_env "upload_db \<Rightarrow> upload_db" CreateUploadParams
  | UpRecordPart job_env RecordPartParams
  | UpMarkAssembling job_env string string
  | UpResetToActive job_env string string
  | UpFinish job_env FinishParams
  | UpMarkFailed job_env FailureParams
  | UpTables "job_db \<Rightarrow> job_db"
    \<comment> \<open>other parts of the program\<close>

fun run_upload :: "upload_tx \<Rightarrow> upload_db \<Rightarrow> upload_db" where
  "run_upload (UpCreate env others p) db = fst (upload_Create env others p db)"
| "run_upload (UpRecordPart env p) db = fst (upload_RecordPart env p db)"
| "run_upload (UpMarkAssembling env w u) db = fst (upload_MarkAssembling env id w u db)"
| "run_upload (UpResetToActive env w u) db = fst (upload_ResetToActive env w u db)"
| "run_upload (UpFinish env p) db = fst (upload_Finish env p db)"
| "run_upload (UpMarkFailed env p) db = fst (upload_MarkFailed env p db)"
| "run_upload (UpTables f) db = db\<lparr>ud_tables := f (ud_tables db)\<rparr>"

text \<open>The lock on the asset during \<^verbatim>\<open>Create\<close> is respected, and nothing else deletes rows of objects.\<close>

fun allowed_upload :: "upload_tx \<Rightarrow> bool" where
  "allowed_upload (UpCreate env others p) = respects_lock (je_uuid env (cu_AssetID p)) (je_uuid env (cu_WorkspaceID p)) others"
| "allowed_upload (UpTables f) = (\<forall>t. set (jd_objects t) \<subseteq> set (jd_objects (f t)))"
| "allowed_upload _ = True"

lemma run_upload_step: "upload_inv db \<Longrightarrow> allowed_upload tx \<Longrightarrow> sound_step db (run_upload tx db)"
  using upload_MarkAssembling_step [of db id] sound_step_refl
  by (cases tx) (simp_all add: upload_Create_step upload_RecordPart_step upload_ResetToActive_step upload_Finish_step
      upload_MarkFailed_step tables_step)

interpretation uploads: transactions run_upload upload_inv upload_progress allowed_upload
  using run_upload_step upload_progress_trans by unfold_locales (auto simp: sound_step_def)

definition empty_uploads :: "job_db \<Rightarrow> upload_db" where
  "empty_uploads t = \<lparr>ud_tables = t, ud_sessions = [], ud_parts = []\<rparr>"

lemma empty_uploads_inv: "upload_inv (empty_uploads t)"
  by (simp add: upload_inv_def empty_uploads_def)


subsection \<open>Samples\<close>

definition sample_upload_env :: job_env where
  "sample_upload_env = \<lparr>je_fails = \<lambda>_ _. False, je_commit_lost = False, je_clock = \<lambda>_. 5000, je_uuid = Some, je_jsonb = id,
     je_locked = \<lambda>_. False, je_other = \<lambda>_. id\<rparr>"

definition sample_create :: CreateUploadParams where
  "sample_create = \<lparr>cu_SessionID = ''s'', cu_AuditID = ''q'', cu_WorkspaceID = ''w'', cu_CreatedBy = ''u'', cu_AssetID = ''a'',
     cu_Filename = ''f'', cu_MIMEType = ''audio/wav'', cu_ExpectedSize = 100, cu_ExpectedSHA256 = replicate 64 CHR ''0'',
     cu_PartSize = 65536, cu_IdempotencyKey = ''k'', cu_RequestHash = replicate 64 CHR ''0'', cu_ExpiresAt = 900000\<rparr>"

definition sample_tables :: job_db where
  "sample_tables = sample_job_db\<lparr>jd_jobs := [], jd_attempts := [], jd_assets := [sample_asset ''a'' ''draft'']\<rparr>"

definition sample_session :: session_row where
  "sample_session = the (new_session sample_upload_env sample_create)"

lemma sample_session_checks: "session_checks sample_session"
  by (simp add: session_checks_def sample_session_def new_session_def sample_upload_env_def sample_create_def text_between_ascii
      sample_hash_text upload_states opt_check_def pg_time_def microsecond_def)

lemma sample_created:
  "ud_sessions (run_upload (UpCreate sample_upload_env id sample_create) (empty_uploads sample_tables)) = [sample_session]"
proof -
  have row: "new_session sample_upload_env sample_create = Some sample_session"
    by (simp add: sample_session_def new_session_def sample_upload_env_def sample_create_def)
  have ids: "us_id sample_session = ''s''" "us_workspace_id sample_session = ''w''" "us_created_by sample_session = ''u''"
    by (simp_all add: sample_session_def new_session_def sample_upload_env_def sample_create_def)
  have "\<not> je_fails sample_upload_env k m" for k m by (simp add: sample_upload_env_def)
  moreover have "pg_text (cu_IdempotencyKey sample_create)" by (simp add: sample_create_def ascii_pg_text)
  moreover have "insert_session sample_upload_env sample_session (empty_uploads sample_tables)
      = Inr ((empty_uploads sample_tables)\<lparr>ud_sessions := [sample_session]\<rparr>)"
    using sample_session_checks ids
    by (simp add: insert_session_def empty_uploads_def sample_tables_def sample_job_db_def sample_upload_env_def)
  ultimately show ?thesis
    by (simp add: upload_Create_def create_session_def row Let_def upload_audit_def insert_audit_def upload_commit_def empty_uploads_def
        sample_tables_def sample_job_db_def sample_asset_def update_asset_def touch_asset_def)
      (simp add: sample_upload_env_def sample_create_def pg_id_def)
qed


end
