(* ===== verification/Job_System.thy ===== *)
theory Job_System
  imports Upload_Repository
begin

text \<open>
  The job tables under everything that changes them: creation, claims, completion, failure, retries
  and the publishing transactions, in any order and with any faults, interleaved with arbitrary changes
  to other tables.  The permanent deletion of an asset, which also deletes its jobs, is not one of them.
\<close>

subsection \<open>What never changes\<close>

text \<open>Rows keep their place, and the row at a place stays related to the one it was.\<close>

definition grown :: "('a \<Rightarrow> 'a \<Rightarrow> bool) \<Rightarrow> 'a list \<Rightarrow> 'a list \<Rightarrow> bool" where
  "grown R xs ys \<longleftrightarrow> length xs \<le> length ys \<and> (\<forall>i<length xs. R (xs ! i) (ys ! i))"

lemma grown_refl: "(\<And>x. R x x) \<Longrightarrow> grown R xs xs"
  by (simp add: grown_def)

lemma grown_trans:
  assumes "grown R xs ys" "grown R ys zs" "\<And>x y z. R x y \<Longrightarrow> R y z \<Longrightarrow> R x z"
  shows "grown R xs zs"
  using assms(1,2) unfolding grown_def by (auto intro: assms(3))

lemma grown_append: "(\<And>x. R x x) \<Longrightarrow> grown R xs (xs @ ys)"
  by (simp add: grown_def nth_append)

lemma grown_map: "(\<And>x. x \<in> set xs \<Longrightarrow> R x (f x)) \<Longrightarrow> grown R xs (map f xs)"
  by (simp add: grown_def)

lemma grown_elem: "grown R xs ys \<Longrightarrow> x \<in> set xs \<Longrightarrow> \<exists>y\<in>set ys. R x y"
  unfolding grown_def in_set_conv_nth by (metis less_le_trans nth_mem)

lemma grown_eq: "grown (=) xs ys \<longleftrightarrow> take (length xs) ys = xs"
  by (auto simp: grown_def list_eq_iff_nth_eq)

text \<open>A job keeps its identity and its request, and a success is final.  So is the end of an attempt.\<close>

definition kept_job :: "job_row \<Rightarrow> job_row \<Rightarrow> bool" where
  "kept_job r s \<longleftrightarrow>
     same_job r s \<and> j_created_by s = j_created_by r \<and> j_payload s = j_payload r \<and> j_created_at s = j_created_at r
     \<and> j_request_hash s = j_request_hash r \<and> j_attempts r \<le> j_attempts s \<and> j_max_attempts r \<le> j_max_attempts s
     \<and> (j_state r = JobSucceeded \<longrightarrow> s = r)"

definition kept_attempt :: "attempt_row \<Rightarrow> attempt_row \<Rightarrow> bool" where
  "kept_attempt a b \<longleftrightarrow>
     at_job_id b = at_job_id a \<and> at_attempt b = at_attempt a \<and> at_worker_id b = at_worker_id a \<and> at_started_at b = at_started_at a
     \<and> (at_outcome a \<noteq> None \<longrightarrow> b = a)"

definition job_progress :: "job_db \<Rightarrow> job_db \<Rightarrow> bool" where
  "job_progress db db' \<longleftrightarrow>
     grown kept_job (jd_jobs db) (jd_jobs db') \<and> grown kept_attempt (jd_attempts db) (jd_attempts db')
     \<and> grown (=) (jd_notifications db) (jd_notifications db')"

lemma kept_refl [simp]: "kept_job r r" "kept_attempt a a"
  by (simp_all add: kept_job_def kept_attempt_def same_job_def)

lemma kept_job_trans: "kept_job r s \<Longrightarrow> kept_job s t \<Longrightarrow> kept_job r t"
  by (auto simp: kept_job_def same_job_def)

lemma kept_attempt_trans: "kept_attempt a b \<Longrightarrow> kept_attempt b c \<Longrightarrow> kept_attempt a c"
  by (auto simp: kept_attempt_def)

lemma progress_refl [simp]: "job_progress db db"
  by (simp add: job_progress_def grown_refl)

lemma progress_trans: "job_progress a b \<Longrightarrow> job_progress b c \<Longrightarrow> job_progress a c"
  unfolding job_progress_def by (blast intro: grown_trans kept_job_trans kept_attempt_trans elim: grown_trans)

lemma progress_frame:
  assumes "jd_jobs db1 = jd_jobs db" "jd_attempts db1 = jd_attempts db" "jd_notifications db1 = jd_notifications db"
  shows "job_progress db db1" "job_progress db1 db' = job_progress db db'" "job_progress db' db1 = job_progress db' db"
  by (simp_all add: job_progress_def assms grown_refl)

lemma progress_frames [simp]:
  "job_progress db (set_asset_status a w old new t db') = job_progress db db'"
  "job_progress db (db'\<lparr>jd_audits := x\<rparr>) = job_progress db db'"
  "job_progress db (db'\<lparr>jd_assets := y\<rparr>) = job_progress db db'"
  by (rule progress_frame; simp add: set_asset_status_def)+

subsection \<open>The single changes\<close>

lemma set_job_progress:
  assumes "distinct (map j_id (jd_jobs db))" "r \<in> set (jd_jobs db)" "kept_job r new"
  shows "job_progress db (set_job r new db)" "distinct (map j_id (jd_jobs (set_job r new db)))"
proof -
  have id: "j_id new = j_id r" using assms(3) by (simp add: kept_job_def same_job_def)
  have "kept_job x new" if "x \<in> set (jd_jobs db)" "j_id x = j_id r" for x
    using assms that by (metis distinct_map inj_onD)
  then show "job_progress db (set_job r new db)"
    using assms(3) unfolding job_progress_def
    by (auto simp: set_job_def id append_terminal_job_notification_def intro!: grown_map grown_refl grown_append)
  have "map j_id (jd_jobs (set_job r new db)) = map j_id (jd_jobs db)" by (simp add: set_job_def id)
  then show "distinct (map j_id (jd_jobs (set_job r new db)))" using assms(1) by simp
qed

lemma finishAttempt_progress:
  assumes "finishAttempt env k i n outcome code t db = Inr db1"
  shows "job_progress db db1" "jd_jobs db1 = jd_jobs db"
  using assms
  by (auto simp: finishAttempt_def job_progress_def kept_attempt_def open_attempt_def split: if_splits
      intro!: grown_map grown_refl)

lemma insert_job_progress: "insert_job env msg row db = Inserted db1 \<Longrightarrow> job_progress db db1"
  by (auto simp: insert_job_def job_progress_def split: if_splits intro!: grown_append grown_refl)

lemma lease_job_progress:
  assumes "distinct (map j_id (jd_jobs db))" "r \<in> set (jd_jobs db)" "j_state r \<noteq> JobSucceeded"
  shows "fst (lease_job env k p now r old db) = old \<or> job_progress db (fst (lease_job env k p now r old db))"
proof -
  have app: "job_progress d (d\<lparr>jd_attempts := jd_attempts d @ x\<rparr>)" for d x
    by (simp add: job_progress_def grown_refl grown_append)
  let ?new = "r\<lparr>j_state := JobRunning, j_attempts := j_attempts r + 1, j_lease_owner := Some (cl_WorkerID p),
     j_lease_expires_at := Some (pg_time (now + cl_LeaseDuration p)), j_last_error_code := None, j_updated_at := now\<rparr>"
  have "kept_job r ?new" using assms(3) by (simp add: kept_job_def same_job_def)
  then have "job_progress db (set_job r ?new db)" by (rule set_job_progress(1) [OF assms(1,2)])
  then have "job_progress db ((set_job r ?new db)\<lparr>jd_attempts := jd_attempts (set_job r ?new db) @ x\<rparr>)" for x
    using app by (rule progress_trans)
  then show ?thesis by (simp add: lease_job_def Let_def tx_commit_def set_job_def)
qed

lemma expire_job_progress:
  assumes "expire_job env k now r db = Inr db'" "distinct (map j_id (jd_jobs db))" "r \<in> set (jd_jobs db)" "j_state r = JobRunning"
  shows "job_progress db db'" "distinct (map j_id (jd_jobs db'))"
proof -
  let ?new = "r\<lparr>j_state := JobFailed, j_lease_owner := None, j_lease_expires_at := None,
                  j_last_error_code := Some ErrorCodeLeaseExpired, j_updated_at := now\<rparr>"
  have "kept_job r ?new" using assms(4) by (simp add: kept_job_def same_job_def job_states)
  note s = set_job_progress [OF assms(2,3) this]
  have "db' = set_job r ?new db \<or> (\<exists>a w t. db' = set_asset_status a w ''processing'' ''failed'' t (set_job r ?new db))"
    using assms(1) by (auto simp: expire_job_def Let_def split: if_splits)
  then show "job_progress db db'" "distinct (map j_id (jd_jobs db'))" using s by (auto simp: set_asset_status_def)
qed

subsection \<open>The transactions\<close>

lemma claim_loop_progress:
  assumes "distinct (map j_id (jd_jobs db))" "job_progress old db"
  shows "job_progress old (fst (claim_loop env k p now cleaned old db))"
  using assms
proof (induction env k p now cleaned old db rule: claim_loop.induct)
  case (1 env k p now cleaned old db)
  note dist = "1.prems"(1) and prog = "1.prems"(2)
  have fin: "job_progress old db1 \<and> jd_jobs db1 = jd_jobs db"
    if "finishAttempt env k i n outcome code t db = Inr db1" for i n outcome code t db1
    using finishAttempt_progress [OF that] progress_trans [OF prog] by auto
  have lease: "job_progress old (fst (lease_job env k p now r old db1))"
    if "claim_candidate env (cl_Kind p) now db = Some r" "job_progress old db1" "jd_jobs db1 = jd_jobs db" for r db1
  proof -
    have "r \<in> set (jd_jobs db1)" "j_state r \<noteq> JobSucceeded" "distinct (map j_id (jd_jobs db1))"
      using claim_candidate_in [OF that(1)] that(3) dist by (auto simp: claimable_def job_states)
    from lease_job_progress [OF this(3,1,2), of env k p now old] show ?thesis using that(2) progress_trans by auto
  qed
  have ex: "job_progress old db2 \<and> distinct (map j_id (jd_jobs db2))"
    if "claim_candidate env (cl_Kind p) now db = Some r" "j_state r = JobRunning" "job_progress old db1" "jd_jobs db1 = jd_jobs db"
      "expire_job env k now r db1 = Inr db2" for r db1 db2
    using expire_job_progress [OF that(5)] claim_candidate_in(1) [OF that(1)] that(2,3,4) dist progress_trans by auto
  show ?case
  proof (cases "claim_candidate env (cl_Kind p) now db")
    case None
    then show ?thesis using prog by (subst claim_loop.simps) (auto simp: tx_commit_def)
  next
    case (Some r)
    note cand = Some
    let ?step = "if j_state r = JobRunning
      then finishAttempt env k (j_id r) (j_attempts r) ''lease_expired'' ErrorCodeLeaseExpired now db else Inr db"
    show ?thesis
    proof (cases ?step)
      case (Inl e)
      then show ?thesis using cand by (subst claim_loop.simps) simp
    next
      case (Inr db1)
      then have db1: "job_progress old db1" "jd_jobs db1 = jd_jobs db" using fin prog by (auto split: if_splits)
      show ?thesis
        using "1.IH" [OF _ cand Inr] cand Inr db1 lease [OF cand db1] ex [OF cand _ db1]
        by (subst claim_loop.simps) (auto split: sum.split)
    qed
  qed
qed

lemma job_Claim_progress: "job_inv db \<Longrightarrow> job_progress db (fst (job_Claim env p db))"
  by (simp add: job_Claim_def Let_def claim_loop_progress job_invD(1))

lemma finish_progress:
  assumes "job_inv db" "r \<in> set (jd_jobs db)" "kept_job r new"
    and "finishAttempt env k i n outcome code t db = Inr db1"
  shows "job_progress db (set_job r new db1)"
proof -
  note f = finishAttempt_progress [OF assms(4)]
  have "job_progress db1 (set_job r new db1)" using assms(1-3) f(2) by (intro set_job_progress(1)) (simp_all add: job_invD(1))
  then show ?thesis using f(1) progress_trans by blast
qed

lemma job_Succeed_progress: "job_inv db \<Longrightarrow> job_progress db (fst (job_Succeed env p db))"
  unfolding job_Succeed_def Let_def
  by (auto simp: tx_commit_def job_states kept_job_def same_job_def split: sum.split
      intro!: finish_progress dest!: lockJob_in owns_running)

lemma job_Fail_progress: "job_inv db \<Longrightarrow> job_progress db (fst (job_Fail env p db))"
  unfolding job_Fail_def Let_def
  by (auto simp: tx_commit_def job_states kept_job_def same_job_def split: sum.split
      intro!: finish_progress dest!: lockJob_in owns_running)

lemma succeed_job_progress:
  assumes "job_inv db" "r \<in> set (jd_jobs db)" "j_state r = JobRunning" "succeed_job env m1 m2 r revision at db = Inr db'"
  shows "job_progress db db'"
proof -
  have "kept_job r (succeeded_row revision at r)"
    using assms(3) by (simp add: succeeded_row_def kept_job_def same_job_def job_states)
  then show ?thesis
    using succeed_job_Inr [OF assms(4)] finish_progress [OF assms(1,2)] by metis
qed

lemma insert_audit_progress: "insert_audit env msg a db = Inr db' \<Longrightarrow> job_progress d db' = job_progress d db"
  by (auto simp: insert_audit_def split: if_splits)

lemma ct_insert_progress: "job_progress db (fst (ct_insert env p db))"
  unfolding ct_insert_def
  by (auto simp: created_concurrently_def tx_commit_def insert_audit_progress insert_job_progress
      split: option.split sum.split insert_outcome.split)

lemma cc_insert_progress: "job_progress db (fst (cc_insert env p a db))"
  unfolding cc_insert_def
  by (auto simp: created_concurrently_def tx_commit_def insert_audit_progress insert_job_progress
      split: option.split sum.split insert_outcome.split)

lemma CommitRaw_progress: "job_inv db \<Longrightarrow> job_progress db (fst (CommitRaw env p db))"
proof -
  assume inv: "job_inv db"
  obtain db' res where c: "CommitRaw env p db = (db', res)" by (rule prod.exhaust)
  then show ?thesis
  proof (cases rule: CommitRaw_cases)
    case same
    then show ?thesis using c by simp
  next
    case (published r db1 db2 audits transcriptID)
    note pub = publish_transcript_Inr [OF published(3)] and l = lock_leased_job_Inr [OF published(1)]
    have "job_progress db1 db2"
      using succeed_job_progress [OF _ _ owns_running [OF l(6)] published(4)] pub l(1) inv by simp
    then show ?thesis using c published(5) progress_frame(2) [OF pub(1-3)] by simp
  qed
qed

lemma waveform_Commit_progress: "job_inv db \<Longrightarrow> job_progress db (fst (waveform_Commit env p db))"
proof -
  assume inv: "job_inv db"
  obtain db' res where c: "waveform_Commit env p db = (db', res)" by (rule prod.exhaust)
  then show ?thesis
  proof (cases rule: waveform_Commit_cases)
    case same
    then show ?thesis using c by simp
  next
    case (stored r original db1 db2 audits)
    note fr = insert_object_frame [OF stored(4)] and l = lock_leased_job_Inr [OF stored(1)]
    have "job_progress db1 db2"
      using succeed_job_progress [OF _ _ owns_running [OF l(6)] stored(5)] fr l(1) inv by simp
    then show ?thesis using c stored(6) progress_frame(2) [OF fr(1-3)] by simp
  qed
qed

lemma ops_RetryJob_progress: "job_inv db \<Longrightarrow> job_progress db (fst (ops_RetryJob env p db))"
proof -
  assume inv: "job_inv db"
  obtain db' res where c: "ops_RetryJob env p db = (db', res)" by (rule prod.exhaust)
  then show ?thesis
  proof (cases rule: ops_RetryJob_cases)
    case same
    then show ?thesis using c by simp
  next
    case (requeued r assets audits t)
    have k: "kept_job r (requeued t r)" using requeued(2) by (simp add: requeued_def kept_job_def same_job_def job_states)
    have "job_progress (db\<lparr>jd_assets := assets\<rparr>) (set_job r (requeued t r) (db\<lparr>jd_assets := assets\<rparr>))"
      using k inv requeued(1) by (intro set_job_progress(1)) (simp_all add: job_invD(1))
    then show ?thesis using c requeued(6) progress_frame(2) [of "db\<lparr>jd_assets := assets\<rparr>" db] by simp
  qed
qed

subsection \<open>The contract of a transaction\<close>

text \<open>
  Every transaction on the job tables keeps the invariant and only adds to the history, and so does
  every sequence of them.
\<close>

datatype job_tx =
    TxCreateTranscription job_env CreateTranscriptionParams
  | TxCreateCorrection job_env CreateCorrectionParams string
  | TxClaim job_env ClaimParams
  | TxSucceed job_env SucceedParams
  | TxFail job_env FailParams
  | TxRetry job_env RetryJobParams
  | TxCommitRaw job_env CommitRawParams
  | TxCommitWaveform job_env WaveformCommitParams
  | TxFinishUpload job_env FinishParams string string
  | TxOther "job_db \<Rightarrow> job_db"
    \<comment> \<open>assets, objects, transcripts, audits, memberships\<close>

fun run_tx :: "job_tx \<Rightarrow> job_db \<Rightarrow> job_db" where
  "run_tx (TxCreateTranscription env p) db = fst (ct_insert env p db)"
| "run_tx (TxCreateCorrection env p assetID) db = fst (cc_insert env p assetID db)"
| "run_tx (TxClaim env p) db = fst (job_Claim env p db)"
| "run_tx (TxSucceed env p) db = fst (job_Succeed env p db)"
| "run_tx (TxFail env p) db = fst (job_Fail env p db)"
| "run_tx (TxRetry env p) db = fst (ops_RetryJob env p db)"
| "run_tx (TxCommitRaw env p) db = fst (CommitRaw env p db)"
| "run_tx (TxCommitWaveform env p) db = fst (waveform_Commit env p db)"
| "run_tx (TxFinishUpload env p workspaceID assetID) db =
     (case finish_tables env p workspaceID assetID db of Inl _ \<Rightarrow> db | Inr db1 \<Rightarrow> db1)"
| "run_tx (TxOther f) db =
     (f db)\<lparr>jd_jobs := jd_jobs db, jd_attempts := jd_attempts db, jd_notifications := jd_notifications db\<rparr>"

lemmas tx_inv = ct_insert_inv cc_insert_inv job_Claim_inv job_Succeed_inv job_Fail_inv ops_RetryJob_inv CommitRaw_inv
  waveform_Commit_inv

lemmas tx_progress = ct_insert_progress cc_insert_progress job_Claim_progress job_Succeed_progress job_Fail_progress
  ops_RetryJob_progress CommitRaw_progress waveform_Commit_progress

lemma finish_tables_inv:
  assumes "job_inv db" "finish_tables env p w a db = Inr t"
  shows "job_inv t" "job_progress db t"
proof -
  obtain d where d: "insert_job env ''enqueue waveform generation: %w'' (waveform_job env w a p) d = Inserted t"
      "jd_jobs d = jd_jobs db" "jd_attempts d = jd_attempts db" "jd_notifications d = jd_notifications db"
    using finish_tables_Inr(5) [OF assms(2)] by blast
  have "job_inv d" using job_inv_frame [of d db] d(2-4) assms(1) by simp
  then show "job_inv t" using insert_job_inv [OF _ d(1)] by (simp add: waveform_job_def)
  have "job_progress db d" using progress_frame(1) [of d db] d(2-4) by simp
  then show "job_progress db t" using insert_job_progress [OF d(1)] by (rule progress_trans)
qed

interpretation jobs: transactions run_tx job_inv job_progress "\<lambda>_. True"
proof
  fix db and op assume inv: "job_inv db"
  show "job_inv (run_tx op db)"
    using inv tx_inv finish_tables_inv(1) job_inv_frame [of "run_tx op db" db] by (cases op) (simp_all split: sum.split)
  show "job_progress db (run_tx op db)"
    using inv tx_progress finish_tables_inv(2) progress_frame(1) [of "run_tx op db" db] by (cases op) (simp_all split: sum.split)
next
  show "job_progress db db" for db by simp
  show "job_progress a b \<Longrightarrow> job_progress b c \<Longrightarrow> job_progress a c" for a b c by (rule progress_trans)
qed

definition empty_job_db :: job_db where
  "empty_job_db = \<lparr>jd_jobs = [], jd_attempts = [], jd_notifications = [], jd_audits = [], jd_assets = [], jd_objects = [],
     jd_transcripts = [], jd_revisions = [], jd_segments = [], jd_memberships = []\<rparr>"

lemma empty_job_inv: "job_inv empty_job_db"
  by (simp add: job_inv_def empty_job_db_def)

text \<open>
  C7: the job tables are consistent after every sequence of transactions, whatever fails in between:
  identifiers, idempotency keys and active work are unique, and every job satisfies its table's checks
  and has its complete history, with numbered attempts, at most the last one open, exactly one success
  notification if it succeeded, and the final state in its last notification.
\<close>

theorem job_tables_consistent: "job_inv (fold run_tx txs empty_job_db)"
  using jobs.runs_inv [OF empty_job_inv] by simp

text \<open>
  C32: history is append-only.  Take the tables after any of these transactions on consistent ones,
  and again after any more: every job is still there with its request, unchanged if it had succeeded;
  every attempt is still there, unchanged if it had ended; and the notifications were only appended to.
  (The deletion of a whole asset, which removes its jobs, is not among them.)
\<close>

theorem job_history_append_only:
  assumes "job_inv db" "earlier = fold run_tx txs db" "later = fold run_tx txs2 earlier"
  shows "(\<forall>r\<in>set (jd_jobs earlier). \<exists>s\<in>set (jd_jobs later). kept_job r s)
    \<and> (\<forall>a\<in>set (jd_attempts earlier). \<exists>b\<in>set (jd_attempts later). kept_attempt a b)
    \<and> take (length (jd_notifications earlier)) (jd_notifications later) = jd_notifications earlier"
proof -
  have "job_inv earlier" using assms(1,2) jobs.runs_inv by simp
  then have "job_progress earlier later" using assms(3) jobs.runs_progress by simp
  then show ?thesis unfolding job_progress_def by (auto simp: grown_eq dest: grown_elem)
qed

theorem job_history_append_only_witness:
  "\<exists>s\<in>set (jd_jobs (run_tx (TxCommitRaw sample_job_env sample_commit) sample_running_db)). kept_job sample_running s"
proof -
  have "sample_running \<in> set (jd_jobs sample_running_db)" by (simp add: sample_running_db_def)
  then show ?thesis
    using job_history_append_only [OF sample_running_inv, of sample_running_db "[]"
        "run_tx (TxCommitRaw sample_job_env sample_commit) sample_running_db" "[TxCommitRaw sample_job_env sample_commit]"]
    by (simp del: run_tx.simps)
qed

subsection \<open>The workers run transactions\<close>

definition by_transactions :: "job_db \<Rightarrow> job_db \<Rightarrow> bool" where
  "by_transactions db db' \<longleftrightarrow> (\<exists>txs. db' = fold run_tx txs db)"

lemma by_transactions_refl [simp]: "by_transactions db db"
  unfolding by_transactions_def by (rule exI [of _ "[]"]) simp

lemma by_transactions_trans: "by_transactions a b \<Longrightarrow> by_transactions b c \<Longrightarrow> by_transactions a c"
  unfolding by_transactions_def by (metis fold_append comp_apply)

lemma by_transactions_step: "by_transactions db (run_tx tx db)"
  unfolding by_transactions_def by (rule exI [of _ "[tx]"]) simp

lemmas tx_steps = by_transactions_step [of _ "TxClaim env p" for env p, simplified]
  by_transactions_step [of _ "TxFail env p" for env p, simplified]
  by_transactions_step [of _ "TxCommitRaw env p" for env p, simplified]
  by_transactions_step [of _ "TxCommitWaveform env p" for env p, simplified]

lemma by_transactions_after:
  "by_transactions a b \<Longrightarrow> f b = (c, x) \<Longrightarrow> by_transactions b (fst (f b)) \<Longrightarrow> by_transactions a c"
  using by_transactions_trans by (metis fst_conv)

lemma worker_fail_tx:
  assumes "\<And>k d. by_transactions d (we_between we k d)"
  shows "by_transactions db (fst (worker_fail we claimed code stage db))"
  using by_transactions_trans [OF assms tx_steps(2)]
  by (auto simp: worker_fail_def Let_def split: prod.split sum.split) (metis fst_conv)+

lemma transcription_RunOnce_tx:
  assumes "\<And>k d. by_transactions d (we_between we k d)"
  shows "by_transactions db (fst (transcription_RunOnce we db))"
proof -
  note fail = worker_fail_tx [OF assms]
  have commit: "by_transactions d db1" if "CommitRaw env p (we_between we k d) = (db1, res)" for d env p k db1 res
    using by_transactions_trans [OF assms tx_steps(3)] that by (metis fst_conv)
  have after: "by_transactions d (fst (worker_fail we claimed code stage db1))"
    if "CommitRaw env p (we_between we k d) = (db1, res)" for d env p k db1 res claimed code stage
    by (rule by_transactions_trans [OF commit [OF that] fail])
  have "by_transactions d (fst (store_result we claimed result snapshot d))" for d claimed result snapshot
    by (simp add: store_result_def fail commit after split: prod.split sum.split option.split)
  then have job: "by_transactions d (fst (transcribe_job we claimed d))" for d claimed
    by (simp add: transcribe_job_def fail split: prod.split sum.split option.split)
  have claim: "by_transactions db db1" if "job_Claim env p db = (db1, res)" for env p db1 res
    using tx_steps(1) [of db env p] that by simp
  show ?thesis
    unfolding transcription_RunOnce_def
    by (auto simp: claim split: prod.split sum.split job_error.split intro: by_transactions_trans [OF claim job])
qed

lemma waveform_fail_tx:
  assumes "\<And>k d. by_transactions d (wv_between we k d)"
  shows "by_transactions db (fst (waveform_fail we claimed code stage db))"
  using by_transactions_trans [OF assms tx_steps(2)]
  by (auto simp: waveform_fail_def Let_def split: prod.split sum.split) (metis fst_conv)+

lemma waveform_RunOnce_tx:
  assumes "\<And>k d. by_transactions d (wv_between we k d)"
  shows "by_transactions db (fst (waveform_RunOnce we db))"
proof -
  note fail = waveform_fail_tx [OF assms]
  have commit: "by_transactions d db1" if "waveform_Commit env p (wv_between we k d) = (db1, res)" for d env p k db1 res
    using by_transactions_trans [OF assms tx_steps(4)] that by (metis fst_conv)
  have after: "by_transactions d (fst (waveform_fail we claimed code stage db1))"
    if "waveform_Commit env p (wv_between we k d) = (db1, res)" for d env p k db1 res claimed code stage
    by (rule by_transactions_trans [OF commit [OF that] fail])
  have job: "by_transactions d (fst (draw_waveform we claimed d))" for d claimed
    by (simp add: draw_waveform_def fail commit after split: prod.split sum.split option.split)
  have claim: "by_transactions db db1" if "job_Claim env p db = (db1, res)" for env p db1 res
    using tx_steps(1) [of db env p] that by simp
  show ?thesis
    unfolding waveform_RunOnce_def
    by (auto simp: claim split: prod.split sum.split job_error.split intro: by_transactions_trans [OF claim job])
qed

subsection \<open>What a cycle reports\<close>

definition settled :: "job_env \<Rightarrow> string \<Rightarrow> string set \<Rightarrow> job_db \<Rightarrow> bool" where
  "settled env jobID states db \<longleftrightarrow> (\<exists>r\<in>set (jd_jobs db). je_uuid env jobID = Some (j_id r) \<and> j_state r \<in> states)"

lemma job_Fail_settles:
  assumes "job_Fail env p db = (db', Inr job)"
  shows "settled env (fa_JobID p) {JobRetryWait, JobFailed} db'"
proof -
  obtain r where l: "lockJob env (fa_JobID p) db = Inr r"
    using assms by (auto simp: job_Fail_def Let_def split: if_splits sum.splits)
  define new where "new = r\<lparr>j_state := (if j_max_attempts r \<le> j_attempts r then JobFailed else JobRetryWait),
     j_available_at := (if j_max_attempts r \<le> j_attempts r then j_available_at r
        else pg_time (greatest_clock env (fa_Now p) + time_sub (fa_RetryAt p) (fa_Now p))),
     j_lease_owner := None, j_lease_expires_at := None, j_last_error_code := Some (fa_ErrorCode p),
     j_updated_at := greatest_clock env (fa_Now p)\<rparr>"
  have "jd_jobs db' = map (\<lambda>x. if j_id x = j_id new then new else x) (jd_jobs db)"
    using assms unfolding job_Fail_def Let_def l
    by (auto simp: new_def tx_commit_def set_asset_status_def set_job_def split: if_splits sum.splits dest: finishAttempt_jobs)
  moreover have "r \<in> set (jd_jobs db)" "je_uuid env (fa_JobID p) = Some (j_id r)" using lockJob_in [OF l] by auto
  moreover have "j_id new = j_id r" "j_state new \<in> {JobRetryWait, JobFailed}" by (simp_all add: new_def)
  ultimately show ?thesis unfolding settled_def by (intro bexI [of _ new]) force+
qed

lemma CommitRaw_settles:
  assumes "job_inv db" "CommitRaw env p db = (db', Inr revision)"
  shows "settled env (cr_JobID p) {JobSucceeded} db'"
  using assms(2)
proof (cases rule: CommitRaw_cases)
  case (published r db1 db2 audits transcriptID)
  note l = lock_leased_job_Inr [OF published(1)] and pub = publish_transcript_Inr [OF published(3)]
  have "job_inv db1" "r \<in> set (jd_jobs db1)" using pub l(1) assms(1) by simp_all
  from succeed_job_effect(1) [OF this owns_running [OF l(6)] published(4)]
  have "succeeded_row (Some (pg_id env (cr_NormalizedRevisionID p))) (pg_time (greatest_clock env (cr_Now p) + microsecond)) r
      \<in> set (jd_jobs db')" by (simp add: published(5) set_asset_status_def)
  then show ?thesis unfolding settled_def by (rule bexI [rotated]) (simp add: succeeded_row_def l(2))
qed simp

definition unrecorded :: "string option \<Rightarrow> bool" where
  "unrecorded res \<longleftrightarrow> res = Some ''worker lease was lost'' \<or> (\<exists>stage. res = Some (stage @ ''; could not record safe failure''))"

definition cycle_outcome :: "'h worker_env \<Rightarrow> Job \<Rightarrow> job_db \<times> bool \<times> string option \<Rightarrow> bool" where
  "cycle_outcome we claimed outcome =
     (case outcome of (db', processed, res) \<Rightarrow>
        processed \<and>
        (unrecorded res
         \<or> (res = None \<and> settled (we_commit we) (job_ID claimed) {JobSucceeded} db')
         \<or> (res \<noteq> None \<and> settled (we_fail we) (job_ID claimed) {JobRetryWait, JobFailed} db')))"

lemma worker_fail_outcome: "cycle_outcome we claimed (worker_fail we claimed code stage db)"
proof -
  obtain db' res where f: "job_Fail (we_fail we) \<lparr>fa_JobID = job_ID claimed, fa_WorkerID = we_worker we, fa_ErrorCode = code,
      fa_Now = we_now we 2, fa_RetryAt = we_now we 2 + DefaultRetryDelay\<rparr> (we_between we 1 db) = (db', res)" by (rule prod.exhaust)
  show ?thesis
  proof (cases res)
    case (Inr job)
    with f have "settled (we_fail we) (job_ID claimed) {JobRetryWait, JobFailed} db'" using job_Fail_settles by fastforce
    then show ?thesis unfolding worker_fail_def Let_def f Inr by (simp add: cycle_outcome_def)
  next
    case (Inl e)
    then show ?thesis unfolding worker_fail_def Let_def f by (auto simp: cycle_outcome_def unrecorded_def)
  qed
qed

lemma transcribe_job_outcome:
  assumes "job_inv db" "\<forall>k d. job_inv d \<longrightarrow> job_inv (we_between we k d)"
  shows "cycle_outcome we claimed (transcribe_job we claimed db)"
proof -
  note fail = worker_fail_outcome [of we claimed]
  have ok: "cycle_outcome we claimed (db', True, None)"
    if "CommitRaw (we_commit we) (commit_params we claimed a b c d e f g) (we_between we 0 db) = (db', Inr revision)"
    for a b c d e f g db' revision
    using CommitRaw_settles [OF _ that] assms by (simp add: cycle_outcome_def commit_params_def)
  have lost: "cycle_outcome we claimed (d, True, Some ''worker lease was lost'')" for d
    by (simp add: cycle_outcome_def unrecorded_def)
  have "cycle_outcome we claimed (store_result we claimed result snapshot db)" for result snapshot
    by (simp add: store_result_def fail ok lost split: option.split sum.split prod.split)
  then show ?thesis
    by (simp add: transcribe_job_def fail split: option.split sum.split prod.split)
qed

text \<open>
  C33: the worker's report is true.  A cycle of the transcription worker that claims a job ends with the
  job completed in the database if it reports success, and with the job back in the queue or failed if
  it reports a failure, unless it says that it lost the lease or could not record the failure.  The
  lease may be taken over and the database may fail at any statement in between.
\<close>

theorem transcription_cycle_outcome:
  assumes "job_inv db" "\<forall>k d. job_inv d \<longrightarrow> job_inv (we_between we k d)"
    and "transcription_RunOnce we db = (db', True, res)"
  shows "\<exists>claimed. snd (job_Claim (we_claim we) \<lparr>cl_Kind = KindMockTranscribe, cl_WorkerID = we_worker we, cl_Now = we_now we 0,
            cl_LeaseDuration = DefaultLeaseDuration\<rparr> db) = Inr claimed
    \<and> (unrecorded res
       \<or> (res = None \<and> settled (we_commit we) (job_ID claimed) {JobSucceeded} db')
       \<or> (res \<noteq> None \<and> settled (we_fail we) (job_ID claimed) {JobRetryWait, JobFailed} db'))"
proof -
  let ?p = "\<lparr>cl_Kind = KindMockTranscribe, cl_WorkerID = we_worker we, cl_Now = we_now we 0, cl_LeaseDuration = DefaultLeaseDuration\<rparr>"
  obtain db1 r where c: "job_Claim (we_claim we) ?p db = (db1, r)" by (rule prod.exhaust)
  obtain claimed where claimed: "r = Inr claimed" "transcribe_job we claimed db1 = (db', True, res)"
    using assms(3) c by (cases r) (auto simp: transcription_RunOnce_def split: job_error.splits)
  have "job_inv db1" using job_Claim_inv [OF assms(1), of "we_claim we" ?p] c by simp
  from transcribe_job_outcome [OF this assms(2), of claimed] claimed c show ?thesis by (auto simp: cycle_outcome_def)
qed

definition sample_worker_env :: "unit worker_env" where
  "sample_worker_env = \<lparr>we_claim = sample_job_env, we_commit = sample_job_env, we_fail = sample_job_env, we_between = (\<lambda>_ d. d),
     we_now = (\<lambda>_. 9000000), we_random = (\<lambda>_. None), we_worker = ''x'', we_asset = (\<lambda>_ _. None), we_provider = (\<lambda>_. None),
     we_audio = (\<lambda>_ _. True), we_hotwords = (\<lambda>_ _. None), we_put = (\<lambda>_ _ _. None), we_decode = (\<lambda>_. None), we_float = (\<lambda>_. None)\<rparr>"

definition sample_queue :: job_db where
  "sample_queue = sample_job_db\<lparr>jd_jobs := [sample_waiting], jd_attempts := []\<rparr>"

lemma sample_queue_inv: "job_inv sample_queue"
  by (auto simp: job_inv_def sample_queue_def sample_job_db_def sample_waiting_def job_ok_def job_checks_def
      attempts_of_def notes_of_def history_ok_def notes_ok_def opt_check_def terminal_state_def
      same_key_def same_work_def job_states sample_text sample_hash_text)

lemma worker_fail_processed: "\<exists>db' res. worker_fail we claimed code stage db = (db', True, res)"
  by (auto simp: worker_fail_def Let_def split: prod.split sum.split)

lemma sample_cycle: "\<exists>db' res. transcription_RunOnce sample_worker_env sample_queue = (db', True, res)"
proof -
  have "trim_space ''x'' = ''x''" by (simp add: trim_space_def decode_rune_def byte_at_def is_space_def)
  moreover have "job_checks (leased ''x'' (2 * minute) 9000000 sample_waiting)"
    by (simp add: leased_def sample_waiting_def job_checks_def opt_check_def job_states sample_text sample_hash_text)
  moreover have "claim_candidate sample_job_env KindMockTranscribe 9000000 sample_queue = Some sample_waiting"
    by (simp add: claim_candidate_def sample_queue_def claimable_def sample_waiting_def sample_job_env_def)
  ultimately have "\<exists>db1. job_Claim sample_job_env \<lparr>cl_Kind = KindMockTranscribe, cl_WorkerID = ''x'', cl_Now = 9000000,
      cl_LeaseDuration = 2 * minute\<rparr> sample_queue = (db1, Inr (scanJob (leased ''x'' (2 * minute) 9000000 sample_waiting)))"
    by (simp add: job_Claim_def Let_def sample_worker claim_loop.simps sample_job_env_def greatest_clock_def pg_time_def microsecond_def
        minute_def second_def sample_text lease_job_def leased_def tx_commit_def sample_waiting_def sample_queue_def job_states
        sample_text(3) [unfolded KindMockTranscribe_def] KindMockTranscribe_def)
  then show ?thesis
    using worker_fail_processed
    by (auto simp: transcription_RunOnce_def sample_worker_env_def transcribe_job_def DefaultLeaseDuration_def)
qed

theorem transcription_cycle_outcome_witness:
  "\<exists>db' res (claimed :: Job). transcription_RunOnce sample_worker_env sample_queue = (db', True, res)
     \<and> (unrecorded res
       \<or> (res = None \<and> settled (we_commit sample_worker_env) (job_ID claimed) {JobSucceeded} db')
       \<or> (res \<noteq> None \<and> settled (we_fail sample_worker_env) (job_ID claimed) {JobRetryWait, JobFailed} db'))"
proof -
  obtain db' res where r: "transcription_RunOnce sample_worker_env sample_queue = (db', True, res)" using sample_cycle by blast
  have "\<forall>k d. job_inv d \<longrightarrow> job_inv (we_between sample_worker_env k d)" by (simp add: sample_worker_env_def)
  from transcription_cycle_outcome [OF sample_queue_inv this r] r show ?thesis by blast
qed

end
