(* ===== verification/Storage_Local.thy ===== *)
theory Storage_Local
  imports Identifier Go_Json Go_Sha256
begin

text \<open>
  \<^verbatim>\<open>internal/storage/local.go\<close>: objects that are written once, in a directory of the file system.

  The tree below the root is a map from relative paths to nodes.  An operation acts on it step by step;
  the environment supplies the faults of the steps, the random names of temporary files and what other
  processes do to the tree in between.  A source is the bytes it delivers and whether reading it ends in
  an error.
\<close>

subsection \<open>Paths\<close>

fun split_slash :: "string \<Rightarrow> string list" where
  "split_slash [] = [[]]"
| "split_slash (c # s) =
     (if c = CHR ''/'' then [] # split_slash s
      else case split_slash s of [] \<Rightarrow> [[c]] | x # xs \<Rightarrow> (c # x) # xs)"

fun join_slash :: "string list \<Rightarrow> string" where
  "join_slash [] = []"
| "join_slash [x] = x"
| "join_slash (x # y # ys) = x @ ''/'' @ join_slash (y # ys)"

text \<open>\<^verbatim>\<open>path.Clean\<close>: the components from the left, with the ones kept so far in reverse.\<close>

definition clean_step :: "bool \<Rightarrow> string \<Rightarrow> string list \<Rightarrow> string list" where
  "clean_step rooted c kept =
     (if c = [] \<or> c = ''.'' then kept
      else if c \<noteq> ''..'' then c # kept
      else case kept of [] \<Rightarrow> if rooted then [] else [''..''] | x # rest \<Rightarrow> if x = ''..'' then ''..'' # kept else rest)"

definition path_Clean :: "string \<Rightarrow> string" where
  "path_Clean p =
     (let rooted = take 1 p = ''/''; out = join_slash (rev (fold (clean_step rooted) (split_slash p) [])) in
      if rooted then CHR ''/'' # out else if out = [] then ''.'' else out)"

definition path_Join :: "string list \<Rightarrow> string" where
  "path_Join elems =
     (let parts = filter (\<lambda>e. e \<noteq> []) elems in if parts = [] then [] else path_Clean (join_slash parts))"

definition path_Dir :: "string \<Rightarrow> string" where
  "path_Dir p = path_Clean (join_slash (butlast (split_slash p) @ (if length (split_slash p) = 1 then [] else [[]])))"

definition validateKey :: "string \<Rightarrow> bool" where
  "validateKey key \<longleftrightarrow>
     \<not> (key = [] \<or> CHR 0x00 \<in> set key \<or> CHR 0x5C \<in> set key \<or> CHR '':'' \<in> set key)
     \<and> \<not> (take 1 key = ''/'' \<or> path_Clean key \<noteq> key \<or> key = ''.'' \<or> key = ''..'' \<or> take 3 key = ''../'')"

text \<open>The paths of a directory and its ancestors, from the top.\<close>

definition ancestors :: "string \<Rightarrow> string list" where
  "ancestors p = map (\<lambda>n. join_slash (take n (split_slash p))) [1..<Suc (length (split_slash p))]"

subsection \<open>Keys\<close>

datatype storage_error =
    StInvalidArgument | StInvalidKey | StTooLarge | StChecksumMismatch | StSizeMismatch | StPartConflict | StObjectConflict
  | StPartsOutOfOrder | StNotExist | StOther string

definition identifierDigest :: "string \<Rightarrow> string option" where
  "identifierDigest i = (if trim_space i = [] then None else Some (hex_encode (Sum256 i)))"

definition generatedPartKey :: "string \<Rightarrow> int \<Rightarrow> string option" where
  "generatedPartKey uploadID partNumber =
     (if partNumber \<le> 0 then None
      else map_option (\<lambda>digest. path_Join [''parts'', take 2 digest, digest, show_int partNumber @ ''.part''])
        (identifierDigest uploadID))"

definition generatedObjectKey :: "string \<Rightarrow> string option" where
  "generatedObjectKey assetID =
     map_option (\<lambda>digest. path_Join [''objects'', take 2 digest, digest, ''original'']) (identifierDigest assetID)"

definition validateImmutableObjectKind :: "string \<Rightarrow> bool" where
  "validateImmutableObjectKind kind \<longleftrightarrow> kind \<in> {''provider_raw_response'', ''clip'', ''export'', ''waveform''}"

definition generatedImmutableObjectKey :: "string \<Rightarrow> string \<Rightarrow> string \<Rightarrow> string option" where
  "generatedImmutableObjectKey assetID objectID kind =
     (if \<not> validateImmutableObjectKind kind then None
      else case (identifierDigest assetID, identifierDigest objectID) of
        (Some assetDigest, Some objectDigest) \<Rightarrow>
          Some (path_Join [''objects'', take 2 assetDigest, assetDigest, ''derived'', kind, objectDigest])
      | _ \<Rightarrow> None)"

definition upload_directory :: "string \<Rightarrow> string option" where
  "upload_directory uploadID = map_option (\<lambda>digest. path_Join [''parts'', take 2 digest, digest]) (identifierDigest uploadID)"

text \<open>\<^verbatim>\<open>hex.DecodeString\<close> accepts both cases.\<close>

definition normalizeSHA256 :: "string \<Rightarrow> string option" where
  "normalizeSHA256 value = (if length value \<noteq> 64 \<or> \<not> list_all hex_any value then None else Some (ascii_lower value))"

definition validateLimit :: "int \<Rightarrow> bool" where
  "validateLimit limit \<longleftrightarrow> \<not> (limit \<le> 0 \<or> limit = max_i64)"

subsection \<open>The file system\<close>

datatype fs_node = FsDir | FsFile bytes | FsLink | FsOther

type_synonym fs = "string \<Rightarrow> fs_node option"

record storage_env =
  se_fails :: "nat \<Rightarrow> string \<Rightarrow> bool"
  se_random :: "nat \<Rightarrow> bytes option"
  se_other :: "nat \<Rightarrow> fs \<Rightarrow> fs"
  se_removed :: "string \<Rightarrow> bool"
    \<comment> \<open>what a failing \<^verbatim>\<open>RemoveAll\<close> has removed\<close>

fun mkdir_path :: "storage_env \<Rightarrow> string list \<Rightarrow> fs \<Rightarrow> fs \<times> storage_error option" where
  "mkdir_path env [] fs = (fs, None)"
| "mkdir_path env (p # ps) fs =
     (case fs p of
        None \<Rightarrow>
          if se_fails env 0 (''mkdir '' @ p) then (fs, Some (StOther ''mkdir'')) else mkdir_path env ps (fs(p \<mapsto> FsDir))
      | Some FsDir \<Rightarrow> if se_fails env 0 (''lstat '' @ p) then (fs, Some (StOther ''lstat'')) else mkdir_path env ps fs
      | Some _ \<Rightarrow> (fs, Some StInvalidKey))"

definition secureMkdirAll :: "storage_env \<Rightarrow> string \<Rightarrow> fs \<Rightarrow> fs \<times> storage_error option" where
  "secureMkdirAll env directory fs =
     (if directory = ''.'' then (fs, None)
      else if \<not> validateKey directory then (fs, Some StInvalidKey)
      else mkdir_path env (ancestors directory) fs)"

fun no_symlinks :: "storage_env \<Rightarrow> string list \<Rightarrow> fs \<Rightarrow> storage_error option" where
  "no_symlinks env [] fs = None"
| "no_symlinks env (p # ps) fs =
     (case fs p of
        None \<Rightarrow> Some StNotExist
      | Some FsLink \<Rightarrow> Some StInvalidKey
      | Some node \<Rightarrow>
          if se_fails env 0 (''lstat '' @ p) then Some (StOther ''lstat'')
          else if ps \<noteq> [] \<and> node \<noteq> FsDir then Some StInvalidKey
          else no_symlinks env ps fs)"

definition ensureNoSymlinks :: "storage_env \<Rightarrow> string \<Rightarrow> fs \<Rightarrow> storage_error option" where
  "ensureNoSymlinks env key fs =
     (if key = ''.'' then None else if \<not> validateKey key then Some StInvalidKey else no_symlinks env (ancestors key) fs)"

text \<open>Up to a hundred random names; the name of try \<open>i\<close> comes from the \<open>i\<close>-th random bytes.\<close>

fun create_temporary :: "storage_env \<Rightarrow> nat \<Rightarrow> nat \<Rightarrow> string \<Rightarrow> string \<Rightarrow> fs \<Rightarrow> storage_error + string" where
  "create_temporary env 0 i directory pre fs = Inl (StOther ''create collision-free temporary file: %w'')"
| "create_temporary env (Suc tries) i directory pre fs =
     (case se_random env i of
        None \<Rightarrow> Inl (StOther ''random'')
      | Some value \<Rightarrow>
      let key = path_Join [directory, pre @ hex_encode value] in
      if fs key \<noteq> None then create_temporary env tries (Suc i) directory pre fs
      else if se_fails env 0 ''open temporary'' then Inl (StOther ''open temporary'')
      else Inr key)"

definition createTemporary :: "storage_env \<Rightarrow> string \<Rightarrow> string \<Rightarrow> fs \<Rightarrow> storage_error + string" where
  "createTemporary env directory pre fs = create_temporary env 100 0 directory pre fs"

definition hashString :: "bytes \<Rightarrow> string" where
  "hashString data = hex_encode (Sum256 data)"

definition copyBounded :: "storage_env \<Rightarrow> nat \<Rightarrow> bytes \<times> bool \<Rightarrow> int \<Rightarrow> storage_error + bytes" where
  "copyBounded env k source maxBytes =
     (case source of (data, broken) \<Rightarrow>
      if se_fails env k ''copy'' then Inl (StOther ''copy'')
      else if int (length data) > maxBytes then Inl StTooLarge
      else if broken then Inl (StOther ''read'')
      else Inr data)"

text \<open>Whether the file matches, and whether there is one.\<close>

definition fileMatchesRoot :: "storage_env \<Rightarrow> string \<Rightarrow> int \<Rightarrow> string \<Rightarrow> fs \<Rightarrow> storage_error + (bool \<times> bool)" where
  "fileMatchesRoot env key expectedSize expectedHash fs =
     (case ensureNoSymlinks env key fs of
        Some StNotExist \<Rightarrow> Inr (False, False)
      | Some e \<Rightarrow> Inl e
      | None \<Rightarrow>
      case fs key of
        None \<Rightarrow> Inr (False, False)
      | Some (FsFile data) \<Rightarrow>
          if int (length data) \<noteq> expectedSize then Inr (False, True)
          else if se_fails env 0 ''read object'' then Inl (StOther ''read object'')
          else Inr (hashString data = expectedHash, True)
      | Some _ \<Rightarrow> Inr (False, True))"

text \<open>
  \<^verbatim>\<open>publishNoReplace\<close>: a hard link from the temporary file, which fails if the target exists.  The file is
  published although removing the temporary name or flushing the directory may still fail.
\<close>

definition publishNoReplace ::
  "storage_env \<Rightarrow> string \<Rightarrow> string \<Rightarrow> int \<Rightarrow> string \<Rightarrow> storage_error \<Rightarrow> fs \<Rightarrow> fs \<times> (storage_error + bool)" where
  "publishNoReplace env temporaryKey targetKey expectedSize expectedHash conflict fs =
     (if se_fails env 1 ''context'' then (fs, Inl (StOther ''context''))
      else if se_fails env 0 ''link'' \<or> fs temporaryKey = None then (fs, Inl (StOther ''link''))
      else if fs targetKey = None then
        (let fs1 = fs(targetKey := fs temporaryKey) in
         if se_fails env 0 ''remove temporary'' then (fs1, Inl (StOther ''remove published temporary link: %w''))
         else let fs2 = fs1(temporaryKey := None) in
         if se_fails env 0 ''sync directory'' then (fs2, Inl (StOther ''sync directory'')) else (fs2, Inr False))
      else case fileMatchesRoot env targetKey expectedSize expectedHash fs of
        Inl e \<Rightarrow> (fs, Inl e)
      | Inr (match, exists) \<Rightarrow>
      if \<not> exists \<or> \<not> match then (fs, Inl conflict)
      else if se_fails env 0 ''sync directory'' then (fs, Inl (StOther ''sync directory''))
      else (fs, Inr True))"

subsection \<open>The operations\<close>

record PutPartOptions =
  po_ExpectedSize :: int
  po_ExpectedSHA256 :: string
  po_MaxBytes :: int

record stored_part =
  sp_Number :: int
  sp_Key :: string
  sp_Size :: int
  sp_SHA256 :: string
  sp_Reused :: bool

record PartRef =
  pr_Number :: int
  pr_Key :: string
  pr_Size :: int
  pr_SHA256 :: string

record stored_object =
  sj_Backend :: string
  sj_Key :: string
  sj_Size :: int
  sj_SHA256 :: string
  sj_Reused :: bool

text \<open>The deferred removal of the temporary name, and what is left when an operation gives up on it.\<close>

definition drop_temporary :: "storage_env \<Rightarrow> string \<Rightarrow> fs \<Rightarrow> fs" where
  "drop_temporary env temporaryKey fs = (if se_fails env 1 ''remove temporary'' then fs else fs(temporaryKey := None))"

definition abandon :: "storage_env \<Rightarrow> string \<Rightarrow> fs \<Rightarrow> fs" where
  "abandon env temporaryKey fs = drop_temporary env temporaryKey (fs(temporaryKey \<mapsto> FsFile []))"

text \<open>From the filled temporary file to the published one; other processes act before the lock is taken.\<close>

definition flush_and_publish ::
  "storage_env \<Rightarrow> string \<Rightarrow> string \<Rightarrow> bytes \<Rightarrow> storage_error \<Rightarrow> fs \<Rightarrow> fs \<times> (storage_error + bool)" where
  "flush_and_publish env temporaryKey key data conflict fs =
     (let fs1 = fs(temporaryKey \<mapsto> FsFile data) in
      if se_fails env 0 ''context'' then (drop_temporary env temporaryKey fs1, Inl (StOther ''context''))
      else if se_fails env 0 ''flush temporary'' then (drop_temporary env temporaryKey fs1, Inl (StOther ''flush temporary''))
      else case publishNoReplace env temporaryKey key (int (length data)) (hashString data) conflict (se_other env 0 fs1) of
        (fs2, r) \<Rightarrow> (drop_temporary env temporaryKey fs2, r))"

text \<open>
  What \<^verbatim>\<open>PutPart\<close>, \<^verbatim>\<open>PutImmutable\<close> and \<^verbatim>\<open>PutSnapshot\<close> share: stream the source into a temporary file beside
  the target, check it and publish it.
\<close>

definition store_stream ::
  "storage_env \<Rightarrow> string \<Rightarrow> string \<Rightarrow> bytes \<times> bool \<Rightarrow> int \<Rightarrow> (bytes \<Rightarrow> storage_error option) \<Rightarrow> storage_error \<Rightarrow> fs
     \<Rightarrow> fs \<times> (storage_error + (bytes \<times> bool))" where
  "store_stream env key pre src maxBytes check conflict fs =
     (if \<not> validateKey key then (fs, Inl StInvalidKey)
      else if se_fails env 0 ''open root'' then (fs, Inl (StOther ''open storage root: %w''))
      else case secureMkdirAll env (path_Dir key) fs of
        (fs1, Some e) \<Rightarrow> (fs1, Inl e)
      | (fs1, None) \<Rightarrow>
      case createTemporary env (path_Dir key) pre fs1 of
        Inl e \<Rightarrow> (fs1, Inl e)
      | Inr temporaryKey \<Rightarrow>
      case copyBounded env 0 src maxBytes of
        Inl e \<Rightarrow> (abandon env temporaryKey fs1, Inl e)
      | Inr data \<Rightarrow>
      case check data of
        Some e \<Rightarrow> (abandon env temporaryKey fs1, Inl e)
      | None \<Rightarrow>
      case flush_and_publish env temporaryKey key data conflict fs1 of
        (fs2, Inl e) \<Rightarrow> (fs2, Inl e)
      | (fs2, Inr reused) \<Rightarrow> (fs2, Inr (data, reused)))"

definition local_PutPart ::
  "storage_env \<Rightarrow> string \<Rightarrow> int \<Rightarrow> bytes \<times> bool \<Rightarrow> PutPartOptions \<Rightarrow> fs \<Rightarrow> fs \<times> (storage_error + stored_part)" where
  "local_PutPart env uploadID partNumber src opts fs =
     (if se_fails env 2 ''context'' then (fs, Inl (StOther ''context''))
      else if partNumber \<le> 0 then (fs, Inl StInvalidArgument)
      else case normalizeSHA256 (po_ExpectedSHA256 opts) of
        None \<Rightarrow> (fs, Inl StInvalidArgument)
      | Some expectedHash \<Rightarrow>
      if \<not> validateLimit (po_MaxBytes opts) then (fs, Inl StInvalidArgument)
      else if po_ExpectedSize opts < 0 then (fs, Inl StInvalidArgument)
      else if po_ExpectedSize opts > po_MaxBytes opts then (fs, Inl StTooLarge)
      else case generatedPartKey uploadID partNumber of
        None \<Rightarrow> (fs, Inl StInvalidArgument)
      | Some key \<Rightarrow>
      case store_stream env key ''.tmp-part-'' src (po_MaxBytes opts)
             (\<lambda>data. if 0 < po_ExpectedSize opts \<and> int (length data) \<noteq> po_ExpectedSize opts then Some StSizeMismatch
                     else if hashString data \<noteq> expectedHash then Some StChecksumMismatch else None) StPartConflict fs of
        (fs1, Inl e) \<Rightarrow> (fs1, Inl e)
      | (fs1, Inr (data, reused)) \<Rightarrow>
          (fs1, Inr \<lparr>sp_Number = partNumber, sp_Key = key, sp_Size = int (length data), sp_SHA256 = hashString data, sp_Reused = reused\<rparr>))"

definition local_PutImmutable ::
  "storage_env \<Rightarrow> string \<Rightarrow> string \<Rightarrow> string \<Rightarrow> bytes \<times> bool \<Rightarrow> int \<Rightarrow> fs \<Rightarrow> fs \<times> (storage_error + stored_object)" where
  "local_PutImmutable env assetID objectID kind src maxBytes fs =
     (if se_fails env 2 ''context'' then (fs, Inl (StOther ''context''))
      else if \<not> validateLimit maxBytes then (fs, Inl StInvalidArgument)
      else case generatedImmutableObjectKey assetID objectID kind of
        None \<Rightarrow> (fs, Inl StInvalidArgument)
      | Some key \<Rightarrow>
      case store_stream env key ''.tmp-immutable-'' src maxBytes (\<lambda>_. None) StObjectConflict fs of
        (fs1, Inl e) \<Rightarrow> (fs1, Inl e)
      | (fs1, Inr (data, reused)) \<Rightarrow>
          (fs1, Inr \<lparr>sj_Backend = ''local'', sj_Key = key, sj_Size = int (length data), sj_SHA256 = hashString data, sj_Reused = reused\<rparr>))"

definition maxS3ObjectBytes :: int where "maxS3ObjectBytes = 512 * 1024 * 1024"

definition local_PutSnapshot ::
  "storage_env \<Rightarrow> string \<Rightarrow> bytes \<times> bool \<Rightarrow> int \<Rightarrow> string \<Rightarrow> fs \<Rightarrow> fs \<times> (storage_error + stored_object)" where
  "local_PutSnapshot env key src expectedSize expectedSHA256 fs =
     (if se_fails env 2 ''context'' then (fs, Inl (StOther ''context''))
      else if expectedSize < 0 then (fs, Inl StInvalidArgument)
      else case normalizeSHA256 expectedSHA256 of
        None \<Rightarrow> (fs, Inl StInvalidArgument)
      | Some expectedHash \<Rightarrow>
      if expectedSize > maxS3ObjectBytes then (fs, Inl StTooLarge)
      else case store_stream env key ''.tmp-snapshot-'' src expectedSize
             (\<lambda>data. if int (length data) \<noteq> expectedSize \<or> hashString data \<noteq> expectedHash then Some StChecksumMismatch else None)
             StObjectConflict fs of
        (fs1, Inl e) \<Rightarrow> (fs1, Inl e)
      | (fs1, Inr (data, reused)) \<Rightarrow>
          (fs1, Inr \<lparr>sj_Backend = ''local'', sj_Key = key, sj_Size = int (length data), sj_SHA256 = hashString data, sj_Reused = reused\<rparr>))"

text \<open>The content of a file that is opened and read.\<close>

definition local_Open :: "storage_env \<Rightarrow> string \<Rightarrow> fs \<Rightarrow> storage_error + bytes" where
  "local_Open env key fs =
     (if se_fails env 3 ''context'' then Inl (StOther ''context'')
      else if \<not> validateKey key then Inl StInvalidKey
      else if se_fails env 1 ''open root'' then Inl (StOther ''open storage root: %w'')
      else case ensureNoSymlinks env key fs of
        Some e \<Rightarrow> Inl e
      | None \<Rightarrow>
      case fs key of
        Some (FsFile data) \<Rightarrow> if se_fails env 0 ''open'' then Inl (StOther ''open storage key: %w'') else Inr data
      | _ \<Rightarrow> Inl (StOther ''open storage key: %w''))"

fun check_part_refs :: "string \<Rightarrow> int \<Rightarrow> int \<Rightarrow> int \<Rightarrow> PartRef list \<Rightarrow> storage_error + int" where
  "check_part_refs uploadID maxBytes previous declaredSize [] = Inr declaredSize"
| "check_part_refs uploadID maxBytes previous declaredSize (part # parts) =
     (if pr_Number part \<le> previous then Inl StPartsOutOfOrder
      else case generatedPartKey uploadID (pr_Number part) of
        None \<Rightarrow> Inl StInvalidArgument
      | Some expectedKey \<Rightarrow>
      if pr_Key part \<noteq> expectedKey then Inl StInvalidKey
      else if pr_Size part < 0 \<or> declaredSize > max_i64 - pr_Size part then Inl StInvalidArgument
      else if normalizeSHA256 (pr_SHA256 part) \<noteq> Some (pr_SHA256 part) then Inl StInvalidArgument
      else if declaredSize + pr_Size part > maxBytes then Inl StTooLarge
      else check_part_refs uploadID maxBytes (pr_Number part) (declaredSize + pr_Size part) parts)"

definition validatePartRefs :: "string \<Rightarrow> PartRef list \<Rightarrow> PutPartOptions \<Rightarrow> storage_error option" where
  "validatePartRefs uploadID parts opts =
     (case check_part_refs uploadID (po_MaxBytes opts) 0 0 parts of
        Inl e \<Rightarrow> Some e
      | Inr declaredSize \<Rightarrow> if declaredSize \<noteq> po_ExpectedSize opts then Some StSizeMismatch else None)"

text \<open>The loop of \<^verbatim>\<open>Assemble\<close>; other processes act before each part is opened.\<close>

fun read_parts ::
  "storage_env \<Rightarrow> nat \<Rightarrow> int \<Rightarrow> bytes \<Rightarrow> PartRef list \<Rightarrow> fs \<Rightarrow> fs \<times> (storage_error + bytes)" where
  "read_parts env k maxBytes acc [] fs = (fs, Inr acc)"
| "read_parts env k maxBytes acc (part # parts) fs0 =
     (let fs = se_other env (k + 2) fs0 in
      case local_Open env (pr_Key part) fs of
        Inl e \<Rightarrow> (fs, Inl e)
      | Inr content \<Rightarrow>
      case copyBounded env (k + 1) (content, False) (maxBytes - int (length acc)) of
        Inl e \<Rightarrow> (fs, Inl e)
      | Inr data \<Rightarrow>
      if se_fails env (k + 1) ''close part'' then (fs, Inl (StOther ''close part %d: %w''))
      else if int (length data) \<noteq> pr_Size part then (fs, Inl StSizeMismatch)
      else if hashString data \<noteq> pr_SHA256 part then (fs, Inl StChecksumMismatch)
      else read_parts env (Suc k) maxBytes (acc @ data) parts fs)"

definition assemble_new ::
  "storage_env \<Rightarrow> string \<Rightarrow> PartRef list \<Rightarrow> PutPartOptions \<Rightarrow> string \<Rightarrow> fs \<Rightarrow> fs \<times> (storage_error + bool)" where
  "assemble_new env key parts opts expectedHash fs =
     (case createTemporary env (path_Dir key) ''.tmp-object-'' fs of
        Inl e \<Rightarrow> (fs, Inl e)
      | Inr temporaryKey \<Rightarrow>
      case read_parts env 0 (po_MaxBytes opts) [] parts (fs(temporaryKey \<mapsto> FsFile [])) of
        (fs1, Inl e) \<Rightarrow> (drop_temporary env temporaryKey fs1, Inl e)
      | (fs1, Inr data) \<Rightarrow>
      if int (length data) \<noteq> po_ExpectedSize opts then (drop_temporary env temporaryKey fs1, Inl StSizeMismatch)
      else if hashString data \<noteq> expectedHash then (drop_temporary env temporaryKey fs1, Inl StChecksumMismatch)
      else flush_and_publish env temporaryKey key data StObjectConflict fs1)"

definition local_Assemble ::
  "storage_env \<Rightarrow> string \<Rightarrow> string \<Rightarrow> PartRef list \<Rightarrow> PutPartOptions \<Rightarrow> fs \<Rightarrow> fs \<times> (storage_error + stored_object)" where
  "local_Assemble env assetID uploadID parts opts fs =
     (if se_fails env 2 ''context'' then (fs, Inl (StOther ''context''))
      else if parts = [] \<or> po_ExpectedSize opts < 0 then (fs, Inl StInvalidArgument)
      else if \<not> validateLimit (po_MaxBytes opts) then (fs, Inl StInvalidArgument)
      else if po_ExpectedSize opts > po_MaxBytes opts then (fs, Inl StTooLarge)
      else case normalizeSHA256 (po_ExpectedSHA256 opts) of
        None \<Rightarrow> (fs, Inl StInvalidArgument)
      | Some expectedHash \<Rightarrow>
      case validatePartRefs uploadID parts opts of
        Some e \<Rightarrow> (fs, Inl e)
      | None \<Rightarrow>
      case generatedObjectKey assetID of
        None \<Rightarrow> (fs, Inl StInvalidArgument)
      | Some key \<Rightarrow>
      if \<not> validateKey key then (fs, Inl StInvalidKey)
      else if se_fails env 0 ''open root'' then (fs, Inl (StOther ''open storage root: %w''))
      else case secureMkdirAll env (path_Dir key) fs of
        (fs1, Some e) \<Rightarrow> (fs1, Inl e)
      | (fs1, None) \<Rightarrow>
      let object = (\<lambda>reused. \<lparr>sj_Backend = ''local'', sj_Key = key, sj_Size = po_ExpectedSize opts, sj_SHA256 = expectedHash,
                      sj_Reused = reused\<rparr>) in
      case fileMatchesRoot env key (po_ExpectedSize opts) expectedHash fs1 of
        Inl e \<Rightarrow> (fs1, Inl e)
      | Inr (match, exists) \<Rightarrow>
      if exists then (fs1, if match then Inr (object True) else Inl StObjectConflict)
      else case assemble_new env key parts opts expectedHash (se_other env 1 fs1) of
        (fs2, Inl e) \<Rightarrow> (fs2, Inl e)
      | (fs2, Inr reused) \<Rightarrow> (fs2, Inr (object reused)))"

definition below :: "string \<Rightarrow> string \<Rightarrow> bool" where
  "below directory p \<longleftrightarrow> p = directory \<or> take (Suc (length directory)) p = directory @ ''/''"

definition local_DeleteParts :: "storage_env \<Rightarrow> string \<Rightarrow> fs \<Rightarrow> fs \<times> storage_error option" where
  "local_DeleteParts env uploadID fs =
     (if se_fails env 2 ''context'' then (fs, Some (StOther ''context''))
      else case upload_directory uploadID of
        None \<Rightarrow> (fs, Some StInvalidArgument)
      | Some key \<Rightarrow>
      if \<not> validateKey key then (fs, Some StInvalidKey)
      else if se_fails env 0 ''open root'' then (fs, Some (StOther ''open storage root: %w''))
      else if ensureNoSymlinks env key fs \<notin> {None, Some StNotExist} then (fs, ensureNoSymlinks env key fs)
      else if se_fails env 0 ''remove all'' then
        (\<lambda>p. if below key p \<and> se_removed env p then None else fs p, Some (StOther ''delete upload parts: %w''))
      else let fs1 = (\<lambda>p. if below key p then None else fs p) in
      if se_fails env 0 ''sync directory'' then (fs1, Some (StOther ''sync upload parts deletion: %w'')) else (fs1, None))"

definition local_DeleteObject :: "storage_env \<Rightarrow> string \<Rightarrow> int \<Rightarrow> string \<Rightarrow> fs \<Rightarrow> fs \<times> storage_error option" where
  "local_DeleteObject env key expectedSize expectedSHA256 fs =
     (if se_fails env 2 ''context'' then (fs, Some (StOther ''context''))
      else if expectedSize < 0 then (fs, Some StInvalidArgument)
      else case normalizeSHA256 expectedSHA256 of
        None \<Rightarrow> (fs, Some StInvalidArgument)
      | Some expectedHash \<Rightarrow>
      if \<not> validateKey key then (fs, Some StInvalidKey)
      else if se_fails env 0 ''open root'' then (fs, Some (StOther ''open storage root: %w''))
      else case fileMatchesRoot env key expectedSize expectedHash fs of
        Inl e \<Rightarrow> (fs, Some e)
      | Inr (match, exists) \<Rightarrow>
      if \<not> exists then (fs, None)
      else if \<not> match then (fs, Some StObjectConflict)
      else if se_fails env 0 ''remove'' then (fs, Some (StOther ''delete uncommitted object: %w''))
      else let fs1 = fs(key := None) in
      if se_fails env 0 ''sync directory'' then (fs1, Some (StOther ''sync object deletion: %w'')) else (fs1, None))"

subsection \<open>Paths, names and temporary files\<close>

lemma split_slash_nonempty [simp]: "split_slash s \<noteq> []"
  by (induction s) (auto split: list.split)

lemma split_slash_free: "c \<in> set (split_slash s) \<Longrightarrow> CHR ''/'' \<notin> set c"
  by (induction s arbitrary: c) (auto split: list.splits if_splits)

lemma split_slash_simple: "CHR ''/'' \<notin> set s \<Longrightarrow> split_slash s = [s]"
  by (induction s) auto

lemma split_slash_append: "CHR ''/'' \<notin> set a \<Longrightarrow> split_slash (a @ ''/'' @ s) = a # split_slash s"
  by (induction a) (auto split: list.split)

lemma split_join: "xs \<noteq> [] \<Longrightarrow> \<forall>x\<in>set xs. CHR ''/'' \<notin> set x \<Longrightarrow> split_slash (join_slash xs) = xs"
  by (induction xs rule: join_slash.induct)
    (simp_all add: split_slash_simple split_slash_append [unfolded append_Cons append_Nil])

lemma join_split: "join_slash (split_slash s) = s"
proof (induction s)
  case (Cons c s)
  then show ?case by (cases "split_slash s") (auto, (cases "tl (split_slash s)"; auto)+)
qed simp

definition simple_name :: "string \<Rightarrow> bool" where
  "simple_name n \<longleftrightarrow> n \<noteq> [] \<and> n \<noteq> ''.'' \<and> n \<noteq> ''..'' \<and> CHR ''/'' \<notin> set n"

lemma clean_simple: "simple_name n \<Longrightarrow> clean_step rooted n kept = n # kept"
  by (simp add: clean_step_def simple_name_def)

lemma split_snoc: "CHR ''/'' \<notin> set n \<Longrightarrow> split_slash (d @ ''/'' @ n) = split_slash d @ [n]"
  by (induction d) (auto simp: split_slash_simple split: list.split)

lemma clean_free:
  "\<forall>x\<in>set xs. CHR ''/'' \<notin> set x \<Longrightarrow> \<forall>x\<in>set kept. CHR ''/'' \<notin> set x \<Longrightarrow>
   \<forall>x\<in>set (fold (clean_step rooted) xs kept). CHR ''/'' \<notin> set x"
proof (induction xs arbitrary: kept)
  case (Cons c xs)
  have "\<forall>x\<in>set (clean_step rooted c kept). CHR ''/'' \<notin> set x"
    using Cons.prems by (auto simp: clean_step_def split: list.splits if_splits)
  then show ?case using Cons by simp
qed simp

definition base_name :: "string \<Rightarrow> string" where
  "base_name p = last (split_slash p)"

lemma join_slash_snoc: "xs \<noteq> [] \<Longrightarrow> join_slash (xs @ [n]) = join_slash xs @ ''/'' @ n"
  by (induction xs rule: join_slash.induct) simp_all

lemma base_name_join: "simple_name n \<Longrightarrow> base_name (path_Join (ds @ [n])) = n"
proof -
  assume n: "simple_name n"
  then have free: "CHR ''/'' \<notin> set n" and ne: "n \<noteq> []" by (simp_all add: simple_name_def)
  have last: "base_name (path_Clean p) = n" if "split_slash p = split_slash d' @ [n] \<or> p = n" for p d'
  proof -
    define kept where "kept = fold (clean_step (take 1 p = ''/'')) (if p = n then [] else split_slash d') []"
    have eq: "fold (clean_step (take 1 p = ''/'')) (split_slash p) [] = n # kept"
      using that free n by (auto simp: kept_def clean_simple split_slash_simple)
    have "\<forall>x\<in>set kept. CHR ''/'' \<notin> set x" unfolding kept_def by (rule clean_free) (auto dest: split_slash_free)
    then have "split_slash (join_slash (rev kept @ [n])) = rev kept @ [n]" using free by (intro split_join) auto
    moreover have "join_slash (rev kept @ [n]) \<noteq> []"
      using ne calculation by (metis split_slash_simple empty_iff list.set(1) last_snoc last.simps)
    ultimately show ?thesis unfolding path_Clean_def Let_def eq by (auto simp: base_name_def)
  qed
  let ?ds = "filter (\<lambda>e. e \<noteq> []) ds"
  have parts: "filter (\<lambda>e. e \<noteq> []) (ds @ [n]) = ?ds @ [n]" using ne by simp
  show ?thesis
  proof (cases "?ds = []")
    case True
    then show ?thesis using last [of n] parts by (simp add: path_Join_def)
  next
    case False
    then show ?thesis
      using last [of "join_slash ?ds @ ''/'' @ n" "join_slash ?ds"] split_snoc [OF free, of "join_slash ?ds"] parts
      by (simp add: path_Join_def join_slash_snoc)
  qed
qed

definition is_temporary :: "string \<Rightarrow> bool" where
  "is_temporary p \<longleftrightarrow> take 5 (base_name p) = ''.tmp-''"

lemma create_temporary_Inr:
  assumes "create_temporary env tries i directory pre fs = Inr key"
  shows "fs key = None \<and> (\<exists>bs. key = path_Join [directory, pre @ hex_encode bs])"
  using assms
proof (induction tries arbitrary: i)
  case (Suc tries)
  then show ?case by (cases "se_random env i") (auto simp: Let_def split: if_splits)
qed simp

lemma temporary_name:
  assumes "createTemporary env directory pre fs = Inr key" "take 5 pre = ''.tmp-''" "CHR ''/'' \<notin> set pre"
  shows "fs key = None" "is_temporary key"
proof -
  obtain bs where k: "fs key = None" "key = path_Join [directory, pre @ hex_encode bs]"
    using create_temporary_Inr [OF assms(1) [unfolded createTemporary_def]] by blast
  have len: "5 \<le> length pre" using arg_cong [OF assms(2), of length] by simp
  have "CHR ''/'' \<notin> set (hex_encode bs)"
    using hex_encode_lower [of bs] by (auto simp: list_all_iff is_hex_lower_def is_digit_def)
  then have "simple_name (pre @ hex_encode bs)" using len assms(3) by (cases pre) (auto simp: simple_name_def dest: arg_cong [of _ _ length])
  then have "base_name key = pre @ hex_encode bs" unfolding k(2) using base_name_join [of _ "[directory]"] by simp
  then show "fs key = None" "is_temporary key" using k(1) assms(2) len by (simp_all add: is_temporary_def)
qed

subsection \<open>What an operation leaves alone\<close>

text \<open>The objects of the store: the files that are not temporary.\<close>

definition object_at :: "fs \<Rightarrow> string \<Rightarrow> bytes option" where
  "object_at fs p = (if is_temporary p then None else case fs p of Some (FsFile data) \<Rightarrow> Some data | _ \<Rightarrow> None)"

lemma object_at_Some: "object_at fs p = Some data \<longleftrightarrow> fs p = Some (FsFile data) \<and> \<not> is_temporary p"
  by (auto simp: object_at_def split: option.splits fs_node.splits)

lemma mkdir_path_node:
  "fst (mkdir_path env ps fs) p = fs p \<or> (fs p = None \<and> fst (mkdir_path env ps fs) p = Some FsDir)"
proof (induction ps arbitrary: fs)
  case (Cons q ps)
  show ?case
  proof (cases "fs q")
    case None
    define fs1 where "fs1 = fs(q \<mapsto> FsDir)"
    have "fs1 q = Some FsDir" "p \<noteq> q \<Longrightarrow> fs1 p = fs p" by (simp_all add: fs1_def)
    then show ?thesis using Cons.IH [of fs1] None by (cases "p = q") (auto simp: fs1_def [symmetric])
  next
    case (Some node)
    then show ?thesis using Cons.IH [of fs] by (cases node) auto
  qed
qed simp

lemma secureMkdirAll_node:
  "fst (secureMkdirAll env d fs) p = fs p \<or> (fs p = None \<and> fst (secureMkdirAll env d fs) p = Some FsDir)"
  using mkdir_path_node [of env "ancestors d" fs p] by (simp add: secureMkdirAll_def)

lemma mkdir_object: "secureMkdirAll env d fs = (fs1, e) \<Longrightarrow> object_at fs1 p = object_at fs p"
  using secureMkdirAll_node [of env d fs p] by (auto simp: object_at_def)

lemma temporary_object [simp]:
  "is_temporary t \<Longrightarrow> object_at (fs(t := x)) p = object_at fs p"
  "is_temporary t \<Longrightarrow> object_at (drop_temporary env t fs) p = object_at fs p"
  "is_temporary t \<Longrightarrow> object_at (abandon env t fs) p = object_at fs p"
  by (auto simp: object_at_def drop_temporary_def abandon_def)

lemma fileMatches_True:
  assumes "fileMatchesRoot env key n sha fs = Inr (True, exists)"
  shows "\<exists>b. fs key = Some (FsFile b) \<and> int (length b) = n \<and> hashString b = sha"
proof -
  have "ensureNoSymlinks env key fs = None"
    using assms by (auto simp: fileMatchesRoot_def split: option.splits storage_error.splits)
  then show ?thesis using assms by (auto simp: fileMatchesRoot_def split: option.splits fs_node.splits if_splits)
qed

text \<open>\<^verbatim>\<open>publishNoReplace\<close> either adds the temporary file's content at a free target or leaves the objects alone.\<close>

lemma publish_objects:
  assumes "publishNoReplace env t key n sha conflict fs = (fs', r)" "is_temporary t" "fs t = Some (FsFile data)" "\<not> is_temporary key"
  shows "(\<forall>p. object_at fs' p = object_at fs p) \<and> (r = Inr True \<longrightarrow> (\<exists>b. object_at fs key = Some b \<and> int (length b) = n \<and> hashString b = sha))
      \<and> r \<noteq> Inr False
    \<or> fs key = None \<and> (\<forall>p. object_at fs' p = (if p = key then Some data else object_at fs p)) \<and> r \<noteq> Inr True"
proof (cases "fs key = None")
  case True
  have "object_at (fs(key := fs t)) p = (if p = key then Some data else object_at fs p)" for p
    using assms(3,4) by (simp add: object_at_def)
  then show ?thesis
    using assms True by (auto simp: publishNoReplace_def Let_def split: if_splits)
next
  case False
  have "fs' = fs \<and> (r = Inr True \<longrightarrow> fileMatchesRoot env key n sha fs = Inr (True, True)) \<and> r \<noteq> Inr False"
    using assms(1) False by (auto simp: publishNoReplace_def split: if_splits sum.splits)
  then show ?thesis using fileMatches_True assms(4) by (auto simp: object_at_Some)
qed

text \<open>Other processes leave a temporary file alone: its name is random.\<close>

definition leaves_temporaries :: "storage_env \<Rightarrow> bool" where
  "leaves_temporaries env \<longleftrightarrow> (\<forall>k fs t. is_temporary t \<longrightarrow> se_other env k fs t = fs t)"

lemma flush_objects:
  assumes "flush_and_publish env t key data conflict fs = (fs', r)" "leaves_temporaries env" "is_temporary t" "\<not> is_temporary key"
  shows "(\<exists>fs1. fs1 \<in> {fs, se_other env 0 (fs(t \<mapsto> FsFile data))} \<and> (\<forall>p. object_at fs' p = object_at fs1 p)
        \<and> (r = Inr True \<longrightarrow> (\<exists>b. object_at fs1 key = Some b \<and> length b = length data \<and> hashString b = hashString data)) \<and> r \<noteq> Inr False)
    \<or> (\<exists>fs1. fs1 = se_other env 0 (fs(t \<mapsto> FsFile data)) \<and> fs1 key = None
        \<and> (\<forall>p. object_at fs' p = (if p = key then Some data else object_at fs1 p)) \<and> r \<noteq> Inr True)"
proof -
  let ?fs = "se_other env 0 (fs(t \<mapsto> FsFile data))"
  have t: "?fs t = Some (FsFile data)" using assms(2,3) by (simp add: leaves_temporaries_def)
  obtain fs2 r2 where pub: "publishNoReplace env t key (int (length data)) (hashString data) conflict ?fs = (fs2, r2)"
    by (rule prod.exhaust)
  have eq: "(fs', r) = (if se_fails env 0 ''context'' then (drop_temporary env t (fs(t \<mapsto> FsFile data)), Inl (StOther ''context''))
      else if se_fails env 0 ''flush temporary'' then (drop_temporary env t (fs(t \<mapsto> FsFile data)), Inl (StOther ''flush temporary''))
      else (drop_temporary env t fs2, r2))"
    using assms(1) unfolding flush_and_publish_def Let_def pub prod.case by simp
  consider (early) "\<forall>p. object_at fs' p = object_at fs p" "\<exists>e. r = Inl e"
    | (published) "publishNoReplace env t key (int (length data)) (hashString data) conflict ?fs = (fs2, r)"
        "fs' = drop_temporary env t fs2"
    using eq assms(3) pub by (cases "se_fails env 0 ''context''"; cases "se_fails env 0 ''flush temporary''") simp_all
  then show ?thesis
  proof cases
    case early
    then show ?thesis by auto
  next
    case published
    define fs1 where "fs1 = ?fs"
    have same: "object_at fs' p = object_at fs2 p" for p using assms(3) by (simp add: published(2))
    from publish_objects [OF published(1) assms(3) t assms(4)] show ?thesis
      unfolding fs1_def [symmetric] same by (elim disjE) (rule disjI1, rule exI [of _ fs1], simp, rule disjI2, rule exI [of _ fs1], simp)
  qed
qed

definition others_keep :: "storage_env \<Rightarrow> string \<Rightarrow> bytes \<Rightarrow> bool" where
  "others_keep env p b \<longleftrightarrow> (\<forall>k fs. object_at fs p = Some b \<longrightarrow> object_at (se_other env k fs) p = Some b)"

definition quiet :: "storage_env \<Rightarrow> bool" where
  "quiet env \<longleftrightarrow> (\<forall>k fs. se_other env k fs = fs)"

lemma quiet_others: "quiet env \<Longrightarrow> others_keep env p b" "quiet env \<Longrightarrow> leaves_temporaries env"
  by (simp_all add: quiet_def others_keep_def leaves_temporaries_def)

text \<open>What publishing does to the objects, with the three views the clients need.\<close>

lemma flush_keeps:
  assumes "flush_and_publish env t key data conflict fs = (fs', r)" "leaves_temporaries env" "is_temporary t" "\<not> is_temporary key"
    and "object_at fs p = Some b" "others_keep env p b"
  shows "object_at fs' p = Some b"
proof -
  let ?fs = "se_other env 0 (fs(t \<mapsto> FsFile data))"
  have o: "object_at ?fs p = Some b" using assms(3,5,6) by (simp add: others_keep_def)
  then have "?fs key = None \<Longrightarrow> p \<noteq> key" by (auto simp: object_at_Some)
  with flush_objects [OF assms(1-4)] o assms(5) show ?thesis by auto
qed

lemma flush_stored:
  assumes "flush_and_publish env t key data conflict fs = (fs', Inr reused)" "leaves_temporaries env" "is_temporary t" "\<not> is_temporary key"
  shows "\<exists>b. object_at fs' key = Some b \<and> length b = length data \<and> hashString b = hashString data \<and> (\<not> reused \<longrightarrow> b = data)"
  using flush_objects [OF assms] by (cases reused) auto

lemma flush_only:
  assumes "flush_and_publish env t key data conflict fs = (fs', r)" "quiet env" "is_temporary t" "\<not> is_temporary key"
    and "object_at fs' p \<noteq> object_at fs p"
  shows "p = key \<and> object_at fs' p = Some data \<and> object_at fs p = None"
proof -
  let ?fs = "se_other env 0 (fs(t \<mapsto> FsFile data))"
  have same: "object_at ?fs q = object_at fs q" for q using assms(2,3) by (simp add: quiet_def)
  have none: "?fs key = None \<Longrightarrow> object_at fs key = None" unfolding same [symmetric] by (simp add: object_at_def)
  from flush_objects [OF assms(1) quiet_others(2) [OF assms(2)] assms(3,4)] show ?thesis
  proof (elim disjE exE conjE)
    fix fs1 assume "fs1 \<in> {fs, ?fs}" "\<forall>p. object_at fs' p = object_at fs1 p"
    then have "object_at fs' p = object_at fs p" using same by auto
    then show ?thesis using assms(5) by contradiction
  next
    fix fs1 assume "fs1 = ?fs" "fs1 key = None" "\<forall>p. object_at fs' p = (if p = key then Some data else object_at fs1 p)"
    then show ?thesis using assms(5) same none by (cases "p = key") auto
  qed
qed

lemma store_stream_cases:
  assumes "store_stream env key pre src maxBytes check conflict fs = (fs', r)" "take 5 pre = ''.tmp-''" "CHR ''/'' \<notin> set pre"
  obtains (early) "\<forall>p. object_at fs' p = object_at fs p" "\<exists>e. r = Inl e"
  | (flushed) fs1 t r1 where "\<forall>p. object_at fs1 p = object_at fs p" "is_temporary t" "check (fst src) = None" "int (length (fst src)) \<le> maxBytes"
      "flush_and_publish env t key (fst src) conflict fs1 = (fs', r1)"
      "r = (case r1 of Inl e \<Rightarrow> Inl e | Inr reused \<Rightarrow> Inr (fst src, reused))"
proof -
  obtain fs1 m where mk: "secureMkdirAll env (path_Dir key) fs = (fs1, m)" by (rule prod.exhaust)
  have o: "object_at fs1 p = object_at fs p" for p by (rule mkdir_object [OF mk])
  have early': ?thesis if "fs' = fs \<or> fs' = fs1" "\<exists>e. r = Inl e" by (rule early) (use that o in auto)
  show ?thesis
  proof (cases "validateKey key \<and> \<not> se_fails env 0 ''open root'' \<and> m = None")
    case False
    then have "(fs' = fs \<or> fs' = fs1) \<and> (\<exists>e. r = Inl e)"
      using assms(1) unfolding store_stream_def mk by (auto split: if_splits option.splits)
    then show ?thesis using early' by blast
  next
    case True
    show ?thesis
    proof (cases "createTemporary env (path_Dir key) pre fs1")
      case (Inl e)
      then have "fs' = fs1 \<and> r = Inl e" using True assms(1) unfolding store_stream_def mk by simp
      then show ?thesis using early' by blast
    next
      case (Inr t)
      note tmp = temporary_name [OF Inr assms(2,3)]
      show ?thesis
      proof (cases "\<exists>data. copyBounded env 0 src maxBytes = Inr data \<and> check data = None")
        case False
        then have "fs' = abandon env t fs1 \<and> (\<exists>e. r = Inl e)"
          using True assms(1) Inr unfolding store_stream_def mk by (auto split: sum.splits option.splits)
        then show ?thesis using early tmp(2) o by simp
      next
        case ok: True
        then obtain data where d: "copyBounded env 0 src maxBytes = Inr data" "check data = None" by blast
        then have src: "data = fst src" "int (length data) \<le> maxBytes" by (auto simp: copyBounded_def split: prod.splits if_splits)
        obtain fs2 r1 where f: "flush_and_publish env t key data conflict fs1 = (fs2, r1)" by (rule prod.exhaust)
        have "fs' = fs2 \<and> r = (case r1 of Inl e \<Rightarrow> Inl e | Inr reused \<Rightarrow> Inr (data, reused))"
          using True assms(1) Inr d f unfolding store_stream_def mk by (auto split: sum.splits)
        then show ?thesis using flushed [of fs1 t r1] o tmp(2) d(2) src(2) f unfolding src(1) by simp
      qed
    qed
  qed
qed

subsection \<open>A store that is written once\<close>

text \<open>
  What the clients of the store rely on: a put never changes or removes an object, adds at most the
  content at its key, and after a success the key holds content of the same size and hash; a conflict
  or an error leaves any content in place.
\<close>

locale write_once =
  fixes get :: "'st \<Rightarrow> string \<Rightarrow> bytes option"
    and put :: "'e \<Rightarrow> string \<Rightarrow> bytes \<Rightarrow> 'st \<Rightarrow> 'st \<times> (storage_error + bool)"
    and sound :: "'e \<Rightarrow> string \<Rightarrow> bool"
  assumes put_keeps: "sound e key \<Longrightarrow> get st k = Some b \<Longrightarrow> get (fst (put e key data st)) k = Some b"
    and put_only: "sound e key \<Longrightarrow> get (fst (put e key data st)) k \<noteq> get st k \<Longrightarrow>
      k = key \<and> get (fst (put e key data st)) k = Some data"
    and put_stored: "sound e key \<Longrightarrow> put e key data st = (st', Inr reused) \<Longrightarrow>
      \<exists>b. get st' key = Some b \<and> length b = length data \<and> hashString b = hashString data"
begin

definition puts :: "('e \<times> string \<times> bytes) list \<Rightarrow> 'st \<Rightarrow> 'st" where
  "puts ops st = fold (\<lambda>(e, key, data) st. fst (put e key data st)) ops st"

lemma puts_keep:
  "\<forall>(e, key, data)\<in>set ops. sound e key \<Longrightarrow> get st k = Some b \<Longrightarrow> get (puts ops st) k = Some b"
  by (induction ops arbitrary: st) (auto simp: puts_def put_keeps)

lemma puts_origin:
  "\<forall>(e, key, data)\<in>set ops. sound e key \<Longrightarrow> get (puts ops st) k = Some b \<Longrightarrow>
   get st k = Some b \<or> (\<exists>e. (e, k, b) \<in> set ops)"
proof (induction ops arbitrary: st)
  case (Cons op ops)
  obtain e key data where op: "op = (e, key, data)" by (cases op)
  let ?st = "fst (put e key data st)"
  have "get ?st k = Some b \<or> (\<exists>e. (e, k, b) \<in> set ops)"
    using Cons.IH [of ?st] Cons.prems by (simp add: op puts_def)
  then show ?case using put_only [of e key data st k] Cons.prems(1) op by (metis (mono_tags) case_prodD list.set_intros(1,2) option.inject)
qed (simp add: puts_def)

end

text \<open>The parameters of \<open>store_stream\<close> that the three operations choose.\<close>

type_synonym stream_params = "storage_env \<times> string \<times> bool \<times> int \<times> (bytes \<Rightarrow> storage_error option) \<times> storage_error"

definition stream_put :: "stream_params \<Rightarrow> string \<Rightarrow> bytes \<Rightarrow> fs \<Rightarrow> fs \<times> (storage_error + bool)" where
  "stream_put e key data fs =
     (case e of (env, pre, broken, maxBytes, check, conflict) \<Rightarrow>
      case store_stream env key pre (data, broken) maxBytes check conflict fs of
        (fs', Inl err) \<Rightarrow> (fs', Inl err)
      | (fs', Inr (_, reused)) \<Rightarrow> (fs', Inr reused))"

definition stream_sound :: "stream_params \<Rightarrow> string \<Rightarrow> bool" where
  "stream_sound e key =
     (case e of (env, pre, _) \<Rightarrow>
        quiet env \<and> take 5 pre = ''.tmp-'' \<and> CHR ''/'' \<notin> set pre \<and> \<not> is_temporary key)"

lemma store_stream_keeps:
  assumes "store_stream env key pre src maxBytes check conflict fs = (fs', r)" "take 5 pre = ''.tmp-''" "CHR ''/'' \<notin> set pre"
    and "leaves_temporaries env" "\<not> is_temporary key" "object_at fs p = Some b" "others_keep env p b"
  shows "object_at fs' p = Some b"
  using assms(1-3)
proof (cases rule: store_stream_cases)
  case (flushed fs1 t r1)
  then show ?thesis using flush_keeps [OF flushed(5) assms(4) flushed(2) assms(5)] assms(6,7) by simp
qed (simp add: assms(6))

lemma store_stream_stored:
  assumes "store_stream env key pre src maxBytes check conflict fs = (fs', Inr (data, reused))"
    and "take 5 pre = ''.tmp-''" "CHR ''/'' \<notin> set pre" "leaves_temporaries env" "\<not> is_temporary key"
  shows "\<exists>b. object_at fs' key = Some b \<and> length b = length data \<and> hashString b = hashString data"
    "data = fst src" "check data = None" "int (length data) \<le> maxBytes"
proof -
  from assms(1-3) have "(\<exists>b. object_at fs' key = Some b \<and> length b = length data \<and> hashString b = hashString data)
    \<and> data = fst src \<and> check data = None \<and> int (length data) \<le> maxBytes"
  proof (cases rule: store_stream_cases)
    case (flushed fs1 t r1)
    then obtain u where u: "r1 = Inr u" "data = fst src" by (auto split: sum.splits)
    from flush_stored [OF flushed(5) [unfolded u(1)] assms(4) flushed(2) assms(5)] flushed(3,4) u(2)
    show ?thesis by auto
  qed simp
  then show "\<exists>b. object_at fs' key = Some b \<and> length b = length data \<and> hashString b = hashString data"
    "data = fst src" "check data = None" "int (length data) \<le> maxBytes" by blast+
qed

lemma store_stream_only:
  assumes "store_stream env key pre src maxBytes check conflict fs = (fs', r)" "take 5 pre = ''.tmp-''" "CHR ''/'' \<notin> set pre"
    and "quiet env" "\<not> is_temporary key" "object_at fs' p \<noteq> object_at fs p"
  shows "p = key \<and> object_at fs' p = Some (fst src)"
  using assms(1-3)
proof (cases rule: store_stream_cases)
  case (flushed fs1 t r1)
  then have "object_at fs' p \<noteq> object_at fs1 p" using assms(6) by simp
  from flush_only [OF flushed(5) assms(4) flushed(2) assms(5) this] show ?thesis by blast
qed (use assms(6) in simp)

interpretation local_store: write_once object_at stream_put stream_sound
proof
  fix e :: stream_params and key k b data and st :: fs
  obtain env pre broken n check conflict where e: "e = (env, pre, broken, n, check, conflict)" by (cases e)
  obtain st' r where s: "store_stream env key pre (data, broken) n check conflict st = (st', r)" by (rule prod.exhaust)
  have fst: "fst (stream_put e key data st) = st'" by (auto simp: stream_put_def e s split: sum.split)
  assume sound: "stream_sound e key"
  then have c: "take 5 pre = ''.tmp-''" "CHR ''/'' \<notin> set pre" "quiet env" "\<not> is_temporary key" by (simp_all add: stream_sound_def e)
  show "object_at st k = Some b \<Longrightarrow> object_at (fst (stream_put e key data st)) k = Some b"
    using store_stream_keeps [OF s c(1,2) quiet_others(2) [OF c(3)] c(4)] quiet_others(1) [OF c(3)] fst by simp
  show "object_at (fst (stream_put e key data st)) k \<noteq> object_at st k \<Longrightarrow>
      k = key \<and> object_at (fst (stream_put e key data st)) k = Some data"
    using store_stream_only [OF s c(1,2,3,4)] fst by auto
  fix st'' reused assume "stream_put e key data st = (st'', Inr reused)"
  then obtain d where "r = Inr (d, reused)" "st'' = st'" by (auto simp: stream_put_def e s split: sum.splits)
  with store_stream_stored [OF _ c(1,2) quiet_others(2) [OF c(3)] c(4)] s
  show "\<exists>b. object_at st'' key = Some b \<and> length b = length data \<and> hashString b = hashString data" by fastforce
qed

subsection \<open>Generated keys\<close>

lemma hex_name: "simple_name (hex_encode (Sum256 s))" "take 5 (hex_encode (Sum256 s)) \<noteq> ''.tmp-''"
proof -
  let ?h = "hex_encode (Sum256 s)"
  have len: "length ?h = 64" by (simp add: Sum256_length)
  have low: "list_all is_hex_lower ?h" by (rule hex_encode_lower)
  have "\<not> is_hex_lower CHR ''/''" "\<not> is_hex_lower CHR ''.''" by (simp_all add: is_hex_lower_def is_digit_def)
  then have no: "CHR ''/'' \<notin> set ?h" "CHR ''.'' \<notin> set ?h" using low by (auto simp: list_all_iff)
  moreover have "?h \<noteq> []" by (metis len list.size(3) zero_neq_numeral)
  ultimately show "simple_name ?h" by (auto simp: simple_name_def)
  show "take 5 ?h \<noteq> ''.tmp-''" using no(2) by (metis in_set_takeD list.set_intros(1))
qed

lemma generated_not_temporary:
  "generatedObjectKey a = Some key \<Longrightarrow> \<not> is_temporary key"
  "generatedImmutableObjectKey a i kind = Some key \<Longrightarrow> \<not> is_temporary key"
  "generatedPartKey u n = Some key \<Longrightarrow> \<not> is_temporary key"
proof -
  have base: "base_name (path_Join (ds @ [x])) = x" if "simple_name x" for ds x using that by (rule base_name_join)
  show "\<not> is_temporary key" if "generatedObjectKey a = Some key"
    using that base [of "''original''" "[''objects'', _, _]"]
    by (auto simp: generatedObjectKey_def is_temporary_def simple_name_def)
  show "\<not> is_temporary key" if "generatedImmutableObjectKey a i kind = Some key"
    using that base [OF hex_name(1), of "[''objects'', _, _, ''derived'', kind]" i] hex_name(2) [of i]
    by (auto simp: generatedImmutableObjectKey_def is_temporary_def identifierDigest_def split: if_splits option.splits)
  show "\<not> is_temporary key" if k: "generatedPartKey u n = Some key"
  proof -
    have n: "0 < n" using k by (auto simp: generatedPartKey_def split: if_splits)
    then have "list_all is_digit (show_int n)" "show_int n \<noteq> []" using show_nat_digits [of "nat n"] by (simp_all add: show_int_def)
    then have d: "is_digit (hd (show_int n))" "CHR ''/'' \<notin> set (show_int n)" "show_int n \<noteq> []"
      by (auto simp: list_all_iff is_digit_def)
    then have simple: "simple_name (show_int n @ ''.part'')" by (cases "show_int n") (auto simp: simple_name_def)
    have "take 5 (show_int n @ ''.part'') \<noteq> ''.tmp-''" using d(1,3) by (cases "show_int n") (auto simp: is_digit_def)
    then show ?thesis
      using k n base [OF simple, of "[''parts'', _, _]"] by (auto simp: generatedPartKey_def is_temporary_def)
  qed
qed

subsection \<open>Assembling\<close>

lemma read_parts_keeps:
  assumes "object_at fs p = Some b" "others_keep env p b"
  shows "object_at (fst (read_parts env k n acc parts fs)) p = Some b"
  using assms(1)
proof (induction parts arbitrary: k acc fs)
  case (Cons part parts)
  have "object_at (se_other env (k + 2) fs) p = Some b" using Cons.prems assms(2) by (simp add: others_keep_def)
  then show ?case using Cons.IH by (auto simp: Let_def split: sum.split)
qed simp

lemma read_parts_temporary:
  assumes "leaves_temporaries env" "is_temporary t"
  shows "fst (read_parts env k n acc parts fs) t = fs t"
proof (induction parts arbitrary: k acc fs)
  case (Cons part parts)
  then show ?case using assms by (auto simp: Let_def leaves_temporaries_def split: sum.split)
qed simp

text \<open>The bytes read are those of the declared parts, in order.\<close>

lemma read_parts_data:
  "read_parts env k n acc parts fs = (fs', Inr data) \<Longrightarrow>
   \<exists>ds. data = acc @ concat ds \<and> list_all2 (\<lambda>d part. int (length d) = pr_Size part \<and> hashString d = pr_SHA256 part) ds parts"
proof (induction parts arbitrary: k acc fs)
  case (Cons part parts)
  let ?fs = "se_other env (k + 2) fs"
  from Cons.prems obtain content d where
    "read_parts env (Suc k) n (acc @ d) parts ?fs = (fs', Inr data)" "int (length d) = pr_Size part" "hashString d = pr_SHA256 part"
    by (auto simp: Let_def split: sum.splits if_splits)
  then obtain ds where "data = (acc @ d) @ concat ds"
    "list_all2 (\<lambda>d part. int (length d) = pr_Size part \<and> hashString d = pr_SHA256 part) ds parts"
    using Cons.IH by blast
  then show ?case using \<open>int (length d) = _\<close> \<open>hashString d = _\<close> by (intro exI [of _ "d # ds"]) simp
qed simp

lemma assemble_new_cases:
  assumes "assemble_new env key parts opts sha fs = (fs', r)"
  obtains (early) "fs' = fs" "\<exists>e. r = Inl e"
  | (dropped) t fs1 r1 where "is_temporary t" "read_parts env 0 (po_MaxBytes opts) [] parts (fs(t \<mapsto> FsFile [])) = (fs1, r1)"
      "fs' = drop_temporary env t fs1" "\<exists>e. r = Inl e"
  | (flushed) t fs1 data where "is_temporary t" "read_parts env 0 (po_MaxBytes opts) [] parts (fs(t \<mapsto> FsFile [])) = (fs1, Inr data)"
      "int (length data) = po_ExpectedSize opts" "hashString data = sha"
      "flush_and_publish env t key data StObjectConflict fs1 = (fs', r)"
proof (cases "createTemporary env (path_Dir key) ''.tmp-object-'' fs")
  case (Inl e)
  then have "fs' = fs \<and> r = Inl e" using assms by (simp add: assemble_new_def)
  then show ?thesis using early by blast
next
  case (Inr t)
  have t: "is_temporary t" using temporary_name(2) [OF Inr] by simp
  obtain fs1 r1 where rd: "read_parts env 0 (po_MaxBytes opts) [] parts (fs(t \<mapsto> FsFile [])) = (fs1, r1)" by (rule prod.exhaust)
  show ?thesis
  proof (cases "\<exists>data. r1 = Inr data \<and> int (length data) = po_ExpectedSize opts \<and> hashString data = sha")
    case True
    then obtain data where "r1 = Inr data" "int (length data) = po_ExpectedSize opts" "hashString data = sha" by blast
    then show ?thesis using assms flushed [OF t] rd unfolding assemble_new_def Inr by simp
  next
    case False
    then have "fs' = drop_temporary env t fs1 \<and> (\<exists>e. r = Inl e)"
      using assms unfolding assemble_new_def Inr sum.case rd by (auto split: sum.splits if_splits)
    then show ?thesis using dropped [OF t rd] by blast
  qed
qed

lemma assemble_new_keeps:
  assumes "assemble_new env key parts opts sha fs = (fs', r)" "leaves_temporaries env" "\<not> is_temporary key"
    and "object_at fs p = Some b" "others_keep env p b"
  shows "object_at fs' p = Some b"
  using assms(1)
proof (cases rule: assemble_new_cases)
  case early
  then show ?thesis using assms(4) by simp
next
  case (dropped t fs1 r1)
  then show ?thesis using read_parts_keeps [of "fs(t \<mapsto> FsFile [])" p b env 0 "po_MaxBytes opts" "[]" parts] assms(4,5) by simp
next
  case (flushed t fs1 data)
  have "object_at fs1 p = Some b"
    using read_parts_keeps [of "fs(t \<mapsto> FsFile [])" p b env 0 "po_MaxBytes opts" "[]" parts] assms(4,5) flushed(1,2) by simp
  then show ?thesis using flush_keeps [OF flushed(5) assms(2) flushed(1) assms(3)] assms(5) by blast
qed

lemma assemble_new_stored:
  assumes "assemble_new env key parts opts sha fs = (fs', Inr reused)" "leaves_temporaries env" "\<not> is_temporary key"
  shows "\<exists>b. object_at fs' key = Some b \<and> int (length b) = po_ExpectedSize opts \<and> hashString b = sha"
  using assms(1)
proof (cases rule: assemble_new_cases)
  case (flushed t fs1 data)
  from flush_stored [OF flushed(5) assms(2) flushed(1) assms(3)] flushed(3,4) show ?thesis by auto
qed simp_all

subsection \<open>The operations on the objects\<close>

lemma local_Assemble_cases:
  assumes "local_Assemble env assetID uploadID parts opts fs = (fs', r)"
  obtains (early) "\<forall>p. object_at fs' p = object_at fs p" "\<exists>e. r = Inl e"
  | (reused) fs1 key sha where "\<forall>p. object_at fs1 p = object_at fs p" "fs' = fs1" "generatedObjectKey assetID = Some key"
      "normalizeSHA256 (po_ExpectedSHA256 opts) = Some sha" "fileMatchesRoot env key (po_ExpectedSize opts) sha fs1 = Inr (True, True)"
      "r = Inr \<lparr>sj_Backend = ''local'', sj_Key = key, sj_Size = po_ExpectedSize opts, sj_SHA256 = sha, sj_Reused = True\<rparr>"
  | (fresh) fs1 key sha r1 where "\<forall>p. object_at fs1 p = object_at fs p" "generatedObjectKey assetID = Some key"
      "normalizeSHA256 (po_ExpectedSHA256 opts) = Some sha"
      "assemble_new env key parts opts sha (se_other env 1 fs1) = (fs', r1)"
      "r = (case r1 of Inl e \<Rightarrow> Inl e
        | Inr u \<Rightarrow> Inr \<lparr>sj_Backend = ''local'', sj_Key = key, sj_Size = po_ExpectedSize opts, sj_SHA256 = sha, sj_Reused = u\<rparr>)"
proof (cases "generatedObjectKey assetID")
  case None
  then have "fs' = fs \<and> (\<exists>e. r = Inl e)"
    using assms by (auto simp: local_Assemble_def split: if_splits option.splits)
  then show ?thesis using early by simp
next
  case key: (Some key)
  show ?thesis
  proof (cases "normalizeSHA256 (po_ExpectedSHA256 opts)")
    case None
    then have "fs' = fs \<and> (\<exists>e. r = Inl e)" using assms by (auto simp: local_Assemble_def split: if_splits)
    then show ?thesis using early by simp
  next
    case sha: (Some sha)
    obtain fs1 m where mk: "secureMkdirAll env (path_Dir key) fs = (fs1, m)" by (rule prod.exhaust)
    have o: "\<forall>p. object_at fs1 p = object_at fs p" using mkdir_object [OF mk] by simp
    obtain fs2 r1 where an: "assemble_new env key parts opts sha (se_other env 1 fs1) = (fs2, r1)" by (rule prod.exhaust)
    note simps = local_Assemble_def key sha mk an Let_def
    have "(fs' = fs \<or> fs' = fs1) \<and> (\<exists>e. r = Inl e)
      \<or> fs' = fs1 \<and> fileMatchesRoot env key (po_ExpectedSize opts) sha fs1 = Inr (True, True)
          \<and> r = Inr \<lparr>sj_Backend = ''local'', sj_Key = key, sj_Size = po_ExpectedSize opts, sj_SHA256 = sha, sj_Reused = True\<rparr>
      \<or> fs' = fs2 \<and> r = (case r1 of Inl e \<Rightarrow> Inl e
        | Inr u \<Rightarrow> Inr \<lparr>sj_Backend = ''local'', sj_Key = key, sj_Size = po_ExpectedSize opts, sj_SHA256 = sha, sj_Reused = u\<rparr>)"
      using assms unfolding simps
      by (simp add: mk an [simplified] split: if_splits option.splits sum.splits prod.splits) auto
    then show ?thesis using early reused [OF o _ key sha] fresh [OF o key sha] an o by blast
  qed
qed

lemma local_Assemble_keeps:
  assumes "leaves_temporaries env" "object_at fs p = Some b" "others_keep env p b"
  shows "object_at (fst (local_Assemble env assetID uploadID parts opts fs)) p = Some b"
proof -
  obtain fs' r where a: "local_Assemble env assetID uploadID parts opts fs = (fs', r)" by (rule prod.exhaust)
  then show ?thesis
  proof (cases rule: local_Assemble_cases)
    case (fresh fs1 key sha r1)
    have "object_at (se_other env 1 fs1) p = Some b" using fresh(1) assms(2,3) by (simp add: others_keep_def)
    from assemble_new_keeps [OF fresh(4) assms(1) generated_not_temporary(1) [OF fresh(2)] this assms(3)] a show ?thesis by simp
  qed (use a assms(2) in simp_all)
qed

lemma local_Assemble_stored:
  assumes "local_Assemble env assetID uploadID parts opts fs = (fs', Inr object)" "leaves_temporaries env"
  shows "\<exists>b. object_at fs' (sj_Key object) = Some b \<and> int (length b) = sj_Size object \<and> hashString b = sj_SHA256 object"
    "sj_Size object = po_ExpectedSize opts" "normalizeSHA256 (po_ExpectedSHA256 opts) = Some (sj_SHA256 object)"
    "generatedObjectKey assetID = Some (sj_Key object)" "sj_Backend object = ''local''"
proof -
  have "(\<exists>b. object_at fs' (sj_Key object) = Some b \<and> int (length b) = sj_Size object \<and> hashString b = sj_SHA256 object)
    \<and> sj_Size object = po_ExpectedSize opts \<and> normalizeSHA256 (po_ExpectedSHA256 opts) = Some (sj_SHA256 object)
    \<and> generatedObjectKey assetID = Some (sj_Key object) \<and> sj_Backend object = ''local''"
    using assms(1)
  proof (cases rule: local_Assemble_cases)
    case (reused fs1 key sha)
    obtain b where "fs1 key = Some (FsFile b)" "int (length b) = po_ExpectedSize opts" "hashString b = sha"
      using fileMatches_True [OF reused(5)] by blast
    moreover from this(1) have "object_at fs1 key = Some b" using generated_not_temporary(1) [OF reused(3)] by (simp add: object_at_Some)
    ultimately show ?thesis using reused(2-4,6) by simp
  next
    case (fresh fs1 key sha r1)
    then obtain u where u: "r1 = Inr u" by (auto split: sum.splits)
    from assemble_new_stored [OF fresh(4) [unfolded u] assms(2) generated_not_temporary(1) [OF fresh(2)]] fresh u
    show ?thesis by auto
  qed simp
  then show "\<exists>b. object_at fs' (sj_Key object) = Some b \<and> int (length b) = sj_Size object \<and> hashString b = sj_SHA256 object"
    "sj_Size object = po_ExpectedSize opts" "normalizeSHA256 (po_ExpectedSHA256 opts) = Some (sj_SHA256 object)"
    "generatedObjectKey assetID = Some (sj_Key object)" "sj_Backend object = ''local''" by blast+
qed

text \<open>The three operations on \<open>store_stream\<close>.\<close>

lemma put_keeps_object:
  assumes "leaves_temporaries env" "object_at fs p = Some b" "others_keep env p b"
  shows "object_at (fst (local_PutPart env uploadID n src opts fs)) p = Some b"
    "object_at (fst (local_PutImmutable env assetID objectID kind src limit fs)) p = Some b"
    "\<not> is_temporary key \<Longrightarrow> object_at (fst (local_PutSnapshot env key src sz sha fs)) p = Some b"
proof -
  have keep: "object_at fs' p = Some b"
    if "store_stream env key pre src m check conflict fs = (fs', r)" "\<not> is_temporary key" "take 5 pre = ''.tmp-''" "CHR ''/'' \<notin> set pre"
    for key pre m check conflict fs' r src
    by (rule store_stream_keeps [OF that(1,3,4) assms(1) that(2) assms(2,3)])
  show "object_at (fst (local_PutPart env uploadID n src opts fs)) p = Some b"
    using keep [OF _ generated_not_temporary(3)] assms(2)
    by (auto simp: local_PutPart_def split: option.split prod.split sum.split)
  show "object_at (fst (local_PutImmutable env assetID objectID kind src limit fs)) p = Some b"
    using keep [OF _ generated_not_temporary(2)] assms(2)
    by (auto simp: local_PutImmutable_def split: option.split prod.split sum.split)
  show "object_at (fst (local_PutSnapshot env key src sz sha fs)) p = Some b" if "\<not> is_temporary key"
    using keep [OF _ that] assms(2)
    by (auto simp: local_PutSnapshot_def split: option.split prod.split sum.split)
qed

lemma local_PutPart_stored:
  assumes "local_PutPart env uploadID n src opts fs = (fs', Inr part)" "leaves_temporaries env"
  shows "\<exists>b. object_at fs' (sp_Key part) = Some b \<and> int (length b) = sp_Size part \<and> hashString b = sp_SHA256 part"
    "generatedPartKey uploadID n = Some (sp_Key part)" "sp_Number part = n" "sp_Size part = int (length (fst src))"
    "normalizeSHA256 (po_ExpectedSHA256 opts) = Some (sp_SHA256 part)" "0 < po_ExpectedSize opts \<Longrightarrow> sp_Size part = po_ExpectedSize opts"
proof -
  obtain key sha data reused where k: "generatedPartKey uploadID n = Some key" "normalizeSHA256 (po_ExpectedSHA256 opts) = Some sha"
    and s: "store_stream env key ''.tmp-part-'' src (po_MaxBytes opts)
         (\<lambda>data. if 0 < po_ExpectedSize opts \<and> int (length data) \<noteq> po_ExpectedSize opts then Some StSizeMismatch
                 else if hashString data \<noteq> sha then Some StChecksumMismatch else None) StPartConflict fs = (fs', Inr (data, reused))"
    and part: "part = \<lparr>sp_Number = n, sp_Key = key, sp_Size = int (length data), sp_SHA256 = hashString data, sp_Reused = reused\<rparr>"
    using assms(1) by (auto simp: local_PutPart_def split: if_splits option.splits prod.splits sum.splits)
  note st = store_stream_stored [OF s _ _ assms(2) generated_not_temporary(3) [OF k(1)]]
  show "\<exists>b. object_at fs' (sp_Key part) = Some b \<and> int (length b) = sp_Size part \<and> hashString b = sp_SHA256 part"
    "generatedPartKey uploadID n = Some (sp_Key part)" "sp_Number part = n" "sp_Size part = int (length (fst src))"
    "normalizeSHA256 (po_ExpectedSHA256 opts) = Some (sp_SHA256 part)"
    "0 < po_ExpectedSize opts \<Longrightarrow> sp_Size part = po_ExpectedSize opts"
    using st k part by (auto split: if_splits)
qed

lemma local_DeleteParts_keeps:
  assumes "object_at fs p = Some b" "case upload_directory uploadID of None \<Rightarrow> True | Some d \<Rightarrow> \<not> below d p"
  shows "object_at (fst (local_DeleteParts env uploadID fs)) p = Some b"
  using assms by (auto simp: local_DeleteParts_def Let_def object_at_Some split: option.splits)

lemma local_DeleteObject_keeps:
  assumes "object_at fs p = Some b" "\<not> (key = p \<and> int (length b) = sz \<and> normalizeSHA256 sha = Some (hashString b))"
  shows "object_at (fst (local_DeleteObject env key sz sha fs)) p = Some b"
proof -
  obtain fs' r where d: "local_DeleteObject env key sz sha fs = (fs', r)" by (rule prod.exhaust)
  have "fs' = fs \<or> fs' = fs(key := None) \<and> (\<exists>h. normalizeSHA256 sha = Some h \<and> fileMatchesRoot env key sz h fs = Inr (True, True))"
    using d by (auto simp: local_DeleteObject_def Let_def split: if_splits option.splits sum.splits)
  then show ?thesis
  proof
    assume "fs' = fs(key := None) \<and> (\<exists>h. normalizeSHA256 sha = Some h \<and> fileMatchesRoot env key sz h fs = Inr (True, True))"
    then obtain c where "fs' = fs(key := None)" "fs key = Some (FsFile c)" "int (length c) = sz" "normalizeSHA256 sha = Some (hashString c)"
      using fileMatches_True by blast
    then show ?thesis using assms d by (cases "p = key") (auto simp: object_at_Some)
  qed (use d assms(1) in simp)
qed

subsection \<open>The store over its lifetime\<close>

datatype storage_op =
    OpPutPart storage_env string int "bytes \<times> bool" PutPartOptions
  | OpAssemble storage_env string string "PartRef list" PutPartOptions
  | OpPutImmutable storage_env string string string "bytes \<times> bool" int
  | OpPutSnapshot storage_env string "bytes \<times> bool" int string
  | OpDeleteParts storage_env string
  | OpDeleteObject storage_env string int string

fun run_storage :: "storage_op \<Rightarrow> fs \<Rightarrow> fs" where
  "run_storage (OpPutPart env u n src opts) fs = fst (local_PutPart env u n src opts fs)"
| "run_storage (OpAssemble env a u parts opts) fs = fst (local_Assemble env a u parts opts fs)"
| "run_storage (OpPutImmutable env a i kind src limit) fs = fst (local_PutImmutable env a i kind src limit fs)"
| "run_storage (OpPutSnapshot env key src sz sha) fs = fst (local_PutSnapshot env key src sz sha fs)"
| "run_storage (OpDeleteParts env u) fs = fst (local_DeleteParts env u fs)"
| "run_storage (OpDeleteObject env key sz sha) fs = fst (local_DeleteObject env key sz sha fs)"

text \<open>
  An operation that does not delete the object: any put, a deletion of parts of another upload, a
  deletion with another key, size or checksum.  The processes that run in between do not delete it
  either.
\<close>

fun spares :: "string \<Rightarrow> bytes \<Rightarrow> storage_op \<Rightarrow> bool" where
  "spares p b (OpPutPart env u n src opts) \<longleftrightarrow> leaves_temporaries env \<and> others_keep env p b"
| "spares p b (OpAssemble env a u parts opts) \<longleftrightarrow> leaves_temporaries env \<and> others_keep env p b"
| "spares p b (OpPutImmutable env a i kind src limit) \<longleftrightarrow> leaves_temporaries env \<and> others_keep env p b"
| "spares p b (OpPutSnapshot env key src sz sha) \<longleftrightarrow> leaves_temporaries env \<and> others_keep env p b \<and> \<not> is_temporary key"
| "spares p b (OpDeleteParts env u) \<longleftrightarrow> (case upload_directory u of None \<Rightarrow> True | Some d \<Rightarrow> \<not> below d p)"
| "spares p b (OpDeleteObject env key sz sha) \<longleftrightarrow>
     \<not> (key = p \<and> int (length b) = sz \<and> normalizeSHA256 sha = Some (hashString b))"

lemma spares_keeps:
  assumes "object_at fs p = Some b" "spares p b op"
  shows "object_at (run_storage op fs) p = Some b"
  using assms
  by (cases op) (simp_all add: put_keeps_object local_Assemble_keeps local_DeleteParts_keeps local_DeleteObject_keeps)

text \<open>
  C3: objects are immutable.  Whatever is put, assembled, restored or deleted, in any order, with any
  I/O fault at any step and other processes in between, an object keeps its bytes until an operation
  deletes it that names its key, its size and its checksum, or the upload it is a part of.
\<close>

theorem objects_immutable:
  assumes "object_at fs p = Some b" "\<forall>op\<in>set ops. spares p b op"
  shows "object_at (fold run_storage ops fs) p = Some b"
  using assms
proof (induction ops arbitrary: fs)
  case (Cons op ops)
  then show ?case using spares_keeps [of fs p b op] by simp
qed simp

text \<open>
  C13: what the store reports is what it holds.  When \<^verbatim>\<open>Assemble\<close> succeeds, fresh or by reuse, the key it
  returns is the one derived from the asset, and the file there has exactly the declared size and
  SHA-256; so no reader of the key can see a partial or a different recording.
\<close>

theorem Assemble_integrity:
  assumes "local_Assemble env assetID uploadID parts opts fs = (fs', Inr object)" "leaves_temporaries env"
  shows "generatedObjectKey assetID = Some (sj_Key object)
    \<and> (\<exists>b. fs' (sj_Key object) = Some (FsFile b) \<and> int (length b) = po_ExpectedSize opts
        \<and> normalizeSHA256 (po_ExpectedSHA256 opts) = Some (hashString b)
        \<and> sj_Size object = int (length b) \<and> sj_SHA256 object = hashString b)"
  using local_Assemble_stored [OF assms] by (auto simp: object_at_Some)

subsection \<open>Samples\<close>

definition plain_name :: "string \<Rightarrow> bool" where
  "plain_name n \<longleftrightarrow> simple_name n \<and> CHR 0x00 \<notin> set n \<and> CHR 0x5C \<notin> set n \<and> CHR '':'' \<notin> set n"

lemma fold_clean_simple: "\<forall>x\<in>set xs. simple_name x \<Longrightarrow> fold (clean_step rooted) xs kept = rev xs @ kept"
  by (induction xs arbitrary: kept) (simp_all add: clean_simple)

lemma set_join: "set (join_slash xs) \<subseteq> insert (CHR ''/'') (\<Union>(set ` set xs))"
  by (induction xs rule: join_slash.induct) auto

lemma plain_path:
  assumes "xs \<noteq> []" "\<forall>x\<in>set xs. plain_name x"
  shows "split_slash (join_slash xs) = xs" "path_Join xs = join_slash xs" "validateKey (join_slash xs)"
    "2 \<le> length xs \<Longrightarrow> path_Dir (join_slash xs) = join_slash (butlast xs)"
proof -
  have simple: "\<forall>x\<in>set xs. simple_name x" using assms(2) by (simp add: plain_name_def)
  show split: "split_slash (join_slash xs) = xs" using assms(1) simple by (intro split_join) (auto simp: simple_name_def)
  obtain y ys where xs: "xs = y # ys" using assms(1) by (cases xs) auto
  have y: "simple_name y" using simple xs by simp
  have ne: "join_slash xs \<noteq> []" using y xs by (cases ys) (auto simp: simple_name_def)
  have first: "take 1 (join_slash xs) \<noteq> ''/''"
    using y xs by (cases y; cases ys) (auto simp: simple_name_def)
  have clean: "path_Clean (join_slash xs) = join_slash xs"
    using first ne simple by (simp add: path_Clean_def Let_def split fold_clean_simple)
  have "filter (\<lambda>e. e \<noteq> []) xs = xs" using simple by (auto simp: simple_name_def intro: filter_True)
  then show "path_Join xs = join_slash xs" using clean assms(1) by (simp add: path_Join_def)
  have dots: "join_slash xs \<noteq> ''.''" "join_slash xs \<noteq> ''..''"
    using split y xs by (auto simp: simple_name_def)
  have "take 3 (join_slash xs) \<noteq> ''../''"
  proof
    assume "take 3 (join_slash xs) = ''../''"
    then have "join_slash xs = ''..'' @ ''/'' @ drop 3 (join_slash xs)" by (metis append_Cons append_Nil append_take_drop_id)
    then have "split_slash (join_slash xs) = ''..'' # split_slash (drop 3 (join_slash xs))"
      using split_slash_append [of "''..''" "drop 3 (join_slash xs)"] by simp
    then have "xs = ''..'' # split_slash (drop 3 (join_slash xs))" unfolding split .
    then show False using y xs by (auto simp: simple_name_def)
  qed
  moreover have "CHR 0x00 \<notin> set (join_slash xs) \<and> CHR 0x5C \<notin> set (join_slash xs) \<and> CHR '':'' \<notin> set (join_slash xs)"
    using set_join [of xs] assms(2) by (auto simp: plain_name_def)
  ultimately show "validateKey (join_slash xs)" using first clean ne dots by (simp add: validateKey_def)
  show "path_Dir (join_slash xs) = join_slash (butlast xs)" if "2 \<le> length xs"
  proof -
    define zs where "zs = butlast xs"
    have "1 \<le> length zs" using that by (simp add: zs_def)
    then have zs: "zs \<noteq> []" by auto
    have zsimple: "\<forall>z\<in>set zs. simple_name z" using simple by (auto simp: zs_def dest: in_set_butlastD)
    note zs = zs zsimple
    have "split_slash (join_slash (zs @ [[]])) = zs @ [[]]" using zs by (intro split_join) (auto simp: simple_name_def)
    moreover have "clean_step r [] kept = kept" for r kept by (simp add: clean_step_def)
    moreover obtain w ws where w: "zs = w # ws" using zs(1) by (cases zs) auto
    have "join_slash zs \<noteq> []" "take 1 (join_slash (zs @ [[]])) \<noteq> ''/''"
      using zs(2) w by (cases w; cases ws; auto simp: simple_name_def)+
    ultimately have "path_Clean (join_slash (zs @ [[]])) = join_slash zs"
      using zs(2) by (simp add: path_Clean_def Let_def fold_clean_simple)
    then show ?thesis using that by (simp add: path_Dir_def split zs_def)
  qed
qed

lemma plain_hex: "plain_name (hex_encode (Sum256 s))" "plain_name (take 2 (hex_encode (Sum256 s)))"
proof -
  let ?h = "hex_encode (Sum256 s)"
  have no: "\<not> is_hex_lower CHR ''/''" "\<not> is_hex_lower CHR ''.''" "\<not> is_hex_lower CHR 0x00" "\<not> is_hex_lower CHR 0x5C"
    "\<not> is_hex_lower CHR '':''" by (simp_all add: is_hex_lower_def is_digit_def)
  have low: "\<And>c. c \<in> set ?h \<Longrightarrow> is_hex_lower c" using hex_encode_lower [of "Sum256 s"] by (simp add: list_all_iff)
  have plain: "plain_name x" if "x \<noteq> []" "set x \<subseteq> set ?h" for x
    using that low no unfolding plain_name_def simple_name_def by (metis list.set_intros(1) subsetD)
  have "length ?h = 64" by (simp add: Sum256_length)
  then have "?h \<noteq> []" by (metis list.size(3) zero_neq_numeral)
  then show "plain_name ?h" "plain_name (take 2 ?h)" by (auto intro!: plain dest: in_set_takeD)
qed

definition sample_original :: string where
  "sample_original = join_slash [''objects'', take 2 (hashString ''a''), hashString ''a'', ''original'']"

lemma sample_original:
  "generatedObjectKey ''a'' = Some sample_original" "validateKey sample_original" "\<not> is_temporary sample_original"
  "path_Dir sample_original = join_slash [''objects'', take 2 (hashString ''a''), hashString ''a'']"
  "validateKey (path_Dir sample_original)"
proof -
  let ?xs = "[''objects'', take 2 (hashString ''a''), hashString ''a'', ''original'']"
  have plain: "\<forall>x\<in>set ?xs. plain_name x" using plain_hex [of "''a''"] by (auto simp: hashString_def plain_name_def simple_name_def)
  note p = plain_path [OF _ plain]
  have a: "trim_space ''a'' = ''a''" by (rule trim_ascii) (simp add: is_space_def)
  show k: "generatedObjectKey ''a'' = Some sample_original"
    using p(2) by (simp add: generatedObjectKey_def identifierDigest_def a sample_original_def hashString_def)
  show "validateKey sample_original" using p(3) by (simp add: sample_original_def)
  show "\<not> is_temporary sample_original" by (rule generated_not_temporary(1) [OF k])
  show d: "path_Dir sample_original = join_slash [''objects'', take 2 (hashString ''a''), hashString ''a'']"
    using p(4) by (simp add: sample_original_def)
  show "validateKey (path_Dir sample_original)" unfolding d using plain by (intro plain_path(3)) auto
qed

text \<open>A tree where every path is a directory but the original of the asset.\<close>

definition sample_fs :: "bytes \<Rightarrow> fs" where
  "sample_fs b p = (if p = sample_original then Some (FsFile b) else Some FsDir)"

definition sample_storage_env :: storage_env where
  "sample_storage_env = \<lparr>se_fails = (\<lambda>_ _. False), se_random = (\<lambda>_. None), se_other = (\<lambda>_ fs. fs), se_removed = (\<lambda>_. False)\<rparr>"

lemma sample_quiet: "quiet sample_storage_env" "leaves_temporaries sample_storage_env" "others_keep sample_storage_env p b"
  by (simp_all add: quiet_def leaves_temporaries_def others_keep_def sample_storage_env_def)

theorem objects_immutable_witness:
  "object_at (fold run_storage [OpPutImmutable sample_storage_env ''a'' ''i'' ''clip'' (''z'', False) 5,
      OpDeleteObject sample_storage_env sample_original 3 (hashString ''xy'')] (sample_fs ''xy'')) sample_original = Some ''xy''"
proof -
  have o: "object_at (sample_fs ''xy'') sample_original = Some ''xy''" using sample_original(3) by (simp add: sample_fs_def object_at_Some)
  define A where "A = OpPutImmutable sample_storage_env ''a'' ''i'' ''clip'' (''z'', False) 5"
  define B where "B = OpDeleteObject sample_storage_env sample_original 3 (hashString ''xy'')"
  have "spares sample_original ''xy'' A" unfolding A_def spares.simps using sample_quiet by blast
  moreover have "spares sample_original ''xy'' B" unfolding B_def spares.simps by simp
  ultimately have "\<forall>op\<in>set [A, B]. spares sample_original ''xy'' op" by simp
  from objects_immutable [OF o this] show ?thesis unfolding A_def B_def .
qed

lemma join_slash_inj:
  assumes "join_slash xs = join_slash ys" "xs \<noteq> []" "ys \<noteq> []" "\<forall>x\<in>set xs \<union> set ys. CHR ''/'' \<notin> set x"
  shows "xs = ys"
proof -
  have "xs = split_slash (join_slash xs)" using assms(2,4) by (intro split_join [symmetric]) auto
  also have "\<dots> = ys" unfolding assms(1) using assms(3,4) by (intro split_join) auto
  finally show ?thesis .
qed

lemma proper_ancestor: "n < length (split_slash p) \<Longrightarrow> 1 \<le> n \<Longrightarrow> join_slash (take n (split_slash p)) \<noteq> p"
proof
  assume n: "n < length (split_slash p)" "1 \<le> n" and eq: "join_slash (take n (split_slash p)) = p"
  have "split_slash (join_slash (take n (split_slash p))) = take n (split_slash p)"
    using n by (intro split_join) (auto dest: in_set_takeD split_slash_free)
  then show False using n eq by (metis length_take min.absorb4 nat_neq_iff)
qed

lemma no_symlinks_dirs:
  assumes "\<And>q. q \<in> set (butlast ps) \<Longrightarrow> fs q = Some FsDir" "ps \<noteq> [] \<Longrightarrow> fs (last ps) = Some FsDir \<or> (\<exists>b. fs (last ps) = Some (FsFile b))"
    and "\<And>l. \<not> se_fails env 0 l"
  shows "no_symlinks env ps fs = None"
  using assms(1,2)
proof (induction ps)
  case (Cons q ps)
  then show ?case using assms(3) by (cases ps) auto
qed simp

lemma ancestors_snoc: "ancestors p = map (\<lambda>n. join_slash (take n (split_slash p))) [1..<length (split_slash p)] @ [p]"
  by (cases "length (split_slash p)") (simp_all add: ancestors_def join_split)

lemma normalize_hash: "normalizeSHA256 (hashString d) = Some (hashString d)"
proof -
  have low: "list_all is_hex_lower (hashString d)" "length (hashString d) = 64"
    by (simp_all add: hashString_def hex_encode_lower Sum256_length)
  then have "list_all hex_any (hashString d)" "map ascii_lower_char (hashString d) = hashString d"
    by (auto simp: list_all_iff hex_lower_any intro!: map_idI)
  then show ?thesis using low(2) by (simp add: normalizeSHA256_def ascii_lower_def)
qed

lemma sample_faultless: "\<not> se_fails sample_storage_env k l"
  by (simp add: sample_storage_env_def)

lemma sample_no_symlinks: "ensureNoSymlinks sample_storage_env sample_original (sample_fs b) = None"
proof -
  have "sample_fs b q = Some FsDir" if "q \<in> set (butlast (ancestors sample_original))" for q
    using that proper_ancestor [of _ sample_original] by (auto simp: ancestors_snoc sample_fs_def)
  then have "no_symlinks sample_storage_env (ancestors sample_original) (sample_fs b) = None"
    using sample_faultless by (intro no_symlinks_dirs) (auto simp: ancestors_snoc sample_fs_def)
  moreover have "sample_original \<noteq> ''.''" using sample_original(2) by (auto simp: validateKey_def)
  ultimately show ?thesis using sample_original(2) by (simp add: ensureNoSymlinks_def)
qed

lemma sample_Open: "local_Open sample_storage_env sample_original (sample_fs b) = Inr b"
  using sample_no_symlinks sample_original(2) by (simp add: local_Open_def sample_faultless sample_fs_def)

lemma sample_parent: "sample_original \<notin> set (ancestors (path_Dir sample_original))"
proof -
  define xs where "xs = [''objects'', take 2 (hashString ''a''), hashString ''a'']"
  have o: "sample_original = join_slash (xs @ [''original''])" "path_Dir sample_original = join_slash xs"
    by (simp add: sample_original_def xs_def) (simp add: sample_original(4) xs_def)
  have free: "\<forall>x\<in>set (xs @ [''original'']). CHR ''/'' \<notin> set x" and ne: "xs \<noteq> []"
    using plain_hex [of "''a''"] by (auto simp: hashString_def plain_name_def simple_name_def xs_def)
  have split: "split_slash (path_Dir sample_original) = xs" unfolding o(2) using free ne by (intro split_join) auto
  have "join_slash (take n xs) \<noteq> sample_original" if n: "1 \<le> n" for n
  proof
    assume "join_slash (take n xs) = sample_original"
    moreover have "\<forall>x\<in>set (take n xs) \<union> set (xs @ [''original'']). CHR ''/'' \<notin> set x"
      using free in_set_takeD [of _ n xs] by fastforce
    ultimately have "take n xs = xs @ [''original'']" unfolding o(1) using n ne by (intro join_slash_inj) auto
    then have "length (take n xs) = Suc (length xs)" by simp
    then show False by simp
  qed
  then have "sample_original \<noteq> join_slash (take n xs)" if "1 \<le> n" for n using that by metis
  then show ?thesis unfolding ancestors_def split by fastforce
qed

lemma sample_Assemble:
  assumes "opts = \<lparr>po_ExpectedSize = int (length b), po_ExpectedSHA256 = hashString b, po_MaxBytes = limit\<rparr>"
    and "validatePartRefs u parts opts = None" "parts \<noteq> []"
    and "int (length b) \<le> limit" "0 < limit" "limit < max_i64"
  shows "local_Assemble sample_storage_env ''a'' u parts opts (sample_fs b) =
    (sample_fs b, Inr \<lparr>sj_Backend = ''local'', sj_Key = sample_original, sj_Size = int (length b), sj_SHA256 = hashString b, sj_Reused = True\<rparr>)"
proof -
  have m: "fileMatchesRoot sample_storage_env sample_original (int (length b)) (hashString b) (sample_fs b) = Inr (True, True)"
    using sample_no_symlinks sample_original(2) by (simp add: fileMatchesRoot_def sample_faultless sample_fs_def)
  have "mkdir_path sample_storage_env ps (sample_fs b) = (sample_fs b, None)" if "sample_original \<notin> set ps" for ps
    using that by (induction ps) (auto simp: sample_fs_def sample_faultless)
  then have mk: "secureMkdirAll sample_storage_env (path_Dir sample_original) (sample_fs b) = (sample_fs b, None)"
    using sample_parent sample_original(5) by (simp add: secureMkdirAll_def)
  show ?thesis
    unfolding local_Assemble_def using assms sample_faultless normalize_hash [of b] m mk sample_original(1,2)
    by (simp add: Let_def validateLimit_def max_i64_def)
qed

definition sample_ref :: PartRef where
  "sample_ref = \<lparr>pr_Number = 1, pr_Key = the (generatedPartKey ''u'' 1), pr_Size = 2, pr_SHA256 = hashString ''xy''\<rparr>"

theorem Assemble_integrity_witness:
  "\<exists>b. sample_fs ''xy'' sample_original = Some (FsFile b) \<and> int (length b) = 2 \<and> normalizeSHA256 (hashString ''xy'') = Some (hashString b)"
proof -
  let ?opts = "\<lparr>po_ExpectedSize = 2, po_ExpectedSHA256 = hashString ''xy'', po_MaxBytes = 5\<rparr>"
  have "trim_space ''u'' = ''u''" by (rule trim_ascii) (simp add: is_space_def)
  then obtain key where key: "generatedPartKey ''u'' 1 = Some key"
    by (simp add: generatedPartKey_def identifierDigest_def)
  have ref: "pr_Number sample_ref = 1" "pr_Key sample_ref = key" "pr_Size sample_ref = 2" "pr_SHA256 sample_ref = hashString ''xy''"
    using key by (simp_all add: sample_ref_def)
  have refs: "validatePartRefs ''u'' [sample_ref] ?opts = None"
    using key ref by (simp add: validatePartRefs_def normalize_hash max_i64_def)
  show ?thesis
    using Assemble_integrity [OF sample_Assemble [where b = "''xy''" and limit = 5 and u = "''u''" and parts = "[sample_ref]" and opts = ?opts] sample_quiet(2)] refs
    by (auto simp: max_i64_def)
qed

end
