(* ===== verification/Audio_Wav.thy ===== *)
theory Audio_Wav
  imports Go_Prelude
begin

text \<open>
  \<^verbatim>\<open>internal/audio/wav.go\<close>: the RIFF/WAVE metadata parser that validates an upload.

  An \<^verbatim>\<open>io.ReaderAt\<close> is a function from an offset and a length to the bytes one \<^verbatim>\<open>ReadAt\<close> call
  delivers; fewer bytes than asked for stand for a short read or an I/O error, so the parser is
  verified against readers that fail or lie, not only against intact files.  Offsets and sizes
  are 64-bit words with the wrap-around the Go code guards against.  The loop over the chunks is a
  terminating recursion: \<open>wav_chunk_progress\<close> is its measure.
\<close>

type_synonym reader = "int \<Rightarrow> nat \<Rightarrow> bytes"

datatype audio_error = InvalidWAV string | InvalidM4A string | UnsupportedMedia string

record Metadata =
  m_Container :: string
  m_Codec :: string
  m_SampleRate :: u32
  m_Channels :: u16
  m_Bitrate :: u64
  m_DurationMS :: int
  m_DataBytes :: int

record wavFormat =
  wf_codec :: string
  wf_channels :: u16
  wf_sampleRate :: u32
  wf_byteRate :: u32
  wf_blockAlign :: u16

subsection \<open>Byte access\<close>

fun le_nat :: "bytes \<Rightarrow> nat" where
  "le_nat [] = 0"
| "le_nat (b # bs) = of_char b + 256 * le_nat bs"

definition be_nat :: "bytes \<Rightarrow> nat" where
  "be_nat bs = le_nat (rev bs)"

definition sub_bytes :: "nat \<Rightarrow> nat \<Rightarrow> bytes \<Rightarrow> bytes" where
  "sub_bytes i j bs = take (j - i) (drop i bs)"

definition readAt :: "reader \<Rightarrow> nat \<Rightarrow> int \<Rightarrow> bytes option" where
  "readAt rd n offset = (let got = rd offset n in if length got = n then Some got else None)"

definition minWAVSampleRate :: u32 where "minWAVSampleRate = 1000"
definition maxWAVSampleRate :: u32 where "maxWAVSampleRate = 768000"
definition maxWAVChannels :: u16 where "maxWAVChannels = 64"

subsection \<open>The fmt chunk\<close>

definition wavCodec :: "u16 \<Rightarrow> u16 \<Rightarrow> string \<times> bool" where
  "wavCodec formatTag bitsPerSample =
     (if formatTag = 1 then
        (if bitsPerSample = 8 then (''pcm_u8'', True)
         else if bitsPerSample = 16 then (''pcm_s16le'', True)
         else if bitsPerSample = 24 then (''pcm_s24le'', True)
         else if bitsPerSample = 32 then (''pcm_s32le'', True)
         else ([], False))
      else if formatTag = 3 then
        (if bitsPerSample = 32 then (''pcm_f32le'', True)
         else if bitsPerSample = 64 then (''pcm_f64le'', True)
         else ([], False))
      else ([], False))"

definition parseWAVFormat :: "bytes \<Rightarrow> audio_error + wavFormat" where
  "parseWAVFormat data =
     (let formatTag = of_nat (le_nat (sub_bytes 0 2 data)) :: u16;
          channels = of_nat (le_nat (sub_bytes 2 4 data)) :: u16;
          sampleRate = of_nat (le_nat (sub_bytes 4 8 data)) :: u32;
          byteRate = of_nat (le_nat (sub_bytes 8 12 data)) :: u32;
          blockAlign = of_nat (le_nat (sub_bytes 12 14 data)) :: u16;
          bitsPerSample = of_nat (le_nat (sub_bytes 14 16 data)) :: u16
      in
      if channels = 0 \<or> channels > maxWAVChannels then
        Inl (InvalidWAV ''channel count %d is outside 1..%d'')
      else if sampleRate < minWAVSampleRate \<or> sampleRate > maxWAVSampleRate then
        Inl (InvalidWAV ''sample rate %d is outside %d..%d'')
      else case wavCodec formatTag bitsPerSample of (codec, validBits) \<Rightarrow>
        if \<not> validBits then
          Inl (InvalidWAV ''unsupported format tag %d with %d bits per sample'')
        else
          (let expectedBlockAlign = (ucast channels * ucast bitsPerSample div 8 :: u32) in
           if expectedBlockAlign = 0 \<or> expectedBlockAlign > ucast (mask 16 :: u16)
              \<or> (ucast blockAlign :: u32) \<noteq> expectedBlockAlign then
             Inl (InvalidWAV ''block align %d is inconsistent with the format'')
           else
             (let expectedByteRate = (ucast sampleRate * ucast expectedBlockAlign :: u64) in
              if expectedByteRate > ucast (mask 32 :: u32) \<or> (ucast byteRate :: u64) \<noteq> expectedByteRate then
                Inl (InvalidWAV ''byte rate %d is inconsistent with the format'')
              else
                Inr \<lparr>wf_codec = codec, wf_channels = channels, wf_sampleRate = sampleRate,
                     wf_byteRate = byteRate, wf_blockAlign = blockAlign\<rparr>)))"

subsection \<open>The chunk loop\<close>

text \<open>
  One iteration of the loop in \<^verbatim>\<open>ProbeWAV\<close>: the next offset and what has been found so far
  (\<open>None\<close> while \<^verbatim>\<open>foundFmt\<close>, \<^verbatim>\<open>foundData\<close> are false).
\<close>

definition wav_chunk ::
  "reader \<Rightarrow> u64 \<Rightarrow> u64 \<Rightarrow> wavFormat option \<Rightarrow> int option
     \<Rightarrow> audio_error + (u64 \<times> wavFormat option \<times> int option)" where
  "wav_chunk rd declaredEnd offset fmt data =
     (if declaredEnd - offset < 8 then Inl (InvalidWAV ''truncated chunk header at offset %d'')
      else case readAt rd 8 (sint offset) of
        None \<Rightarrow> Inl (InvalidWAV ''read chunk header at offset %d: %v'')
      | Some chunkHeader \<Rightarrow>
        (let chunkID = sub_bytes 0 4 chunkHeader;
             chunkSize = ucast (of_nat (le_nat (sub_bytes 4 8 chunkHeader)) :: u32) :: u64;
             dataStart = offset + 8;
             dataEnd = dataStart + chunkSize
         in
         if dataEnd < dataStart \<or> dataEnd > declaredEnd then
           Inl (InvalidWAV ''chunk %q exceeds its RIFF boundary'')
         else
           (let paddedEnd = dataEnd + chunkSize mod 2 in
            if paddedEnd < dataEnd \<or> paddedEnd > declaredEnd then
              Inl (InvalidWAV ''chunk %q is missing its alignment byte'')
            else if chunkID = ''fmt '' then
              (if fmt \<noteq> None then Inl (InvalidWAV ''duplicate fmt chunk'')
               else if chunkSize < 16 then Inl (InvalidWAV ''fmt chunk is shorter than 16 bytes'')
               else case readAt rd 16 (sint dataStart) of
                 None \<Rightarrow> Inl (InvalidWAV ''read fmt chunk: %v'')
               | Some formatBytes \<Rightarrow>
                 (case parseWAVFormat formatBytes of
                    Inl e \<Rightarrow> Inl e
                  | Inr parsed \<Rightarrow> Inr (paddedEnd, Some parsed, data)))
            else if chunkID = ''data'' then
              (if data \<noteq> None then Inl (InvalidWAV ''duplicate data chunk'')
               else Inr (paddedEnd, fmt, Some (sint chunkSize)))
            else Inr (paddedEnd, fmt, data))))"

lemma wav_chunk_cases:
  assumes "wav_chunk rd e off fmt data = Inr (off', fmt', data')" "off < e"
  obtains c32 :: u32 and p :: u64 where
    "unat off + 8 + unat c32 + unat p = unat off'" "unat off' \<le> unat e"
    "fmt' = fmt \<or> (\<exists>b f. parseWAVFormat b = Inr f \<and> fmt' = Some f)"
    "data' = data \<or> data' = Some (sint (ucast c32 :: u64))"
proof -
  obtain c32 :: u32 and c p :: u64 where
    c: "c = ucast c32" and off': "off' = off + 8 + c + p"
    and g: "\<not> e - off < 8" "\<not> off + 8 + c < off + 8" "\<not> off + 8 + c + p < off + 8 + c"
      "\<not> e < off + 8 + c + p"
    and fd: "fmt' = fmt \<or> (\<exists>b f. parseWAVFormat b = Inr f \<and> fmt' = Some f)"
      "data' = data \<or> data' = Some (sint (ucast c32 :: u64))"
    using assms(1)
    by (fastforce simp: wav_chunk_def Let_def split: if_splits option.splits sum.splits)
  have "8 \<le> unat e - unat off"
    using g(1) assms(2) by (simp add: word_less_nat_alt unat_sub_no_wrap word_le_nat_alt)
  then have "unat (off + 8) = unat off + 8"
    using u64_bound [of e] by (subst unat_add_lem [THEN iffD1]) simp_all
  moreover note unat_add_no_wrap [OF g(2)] unat_add_no_wrap [OF g(3)]
  ultimately have "unat off + 8 + unat c32 + unat p = unat off'"
    by (simp add: c off')
  with fd g(4) show thesis
    using that by (simp add: off' word_less_nat_alt not_less)
qed

lemma wav_chunk_progress:
  assumes "wav_chunk rd e off fmt data = Inr (off', fmt', data')" "off < e"
  shows "unat off + 8 \<le> unat off'" "unat off' \<le> unat e"
  using assms by (auto elim!: wav_chunk_cases)

function wav_loop ::
  "reader \<Rightarrow> u64 \<Rightarrow> u64 \<Rightarrow> wavFormat option \<Rightarrow> int option
     \<Rightarrow> audio_error + (wavFormat option \<times> int option)" where
  "wav_loop rd declaredEnd offset fmt data =
     (if offset < declaredEnd then
        (case wav_chunk rd declaredEnd offset fmt data of
           Inl e \<Rightarrow> Inl e
         | Inr (offset', fmt', data') \<Rightarrow> wav_loop rd declaredEnd offset' fmt' data')
      else Inr (fmt, data))"
  by pat_completeness auto
termination
  by (relation "measure (\<lambda>(rd, e, off, fmt, data). unat e - unat off)")
    (fastforce dest: wav_chunk_progress simp: word_less_nat_alt)+

declare wav_loop.simps [simp del]

definition ProbeWAV :: "reader option \<Rightarrow> int \<Rightarrow> audio_error + Metadata" where
  "ProbeWAV reader sz =
     (case reader of
        None \<Rightarrow> Inl (InvalidWAV ''reader is nil'')
      | Some rd \<Rightarrow>
      if sz < 12 then Inl (InvalidWAV ''file is shorter than the RIFF header'')
      else case readAt rd 12 0 of
        None \<Rightarrow> Inl (InvalidWAV ''read RIFF header: %v'')
      | Some header \<Rightarrow>
      if sub_bytes 0 4 header \<noteq> ''RIFF'' then Inl (InvalidWAV ''missing RIFF signature'')
      else if sub_bytes 8 12 header \<noteq> ''WAVE'' then Inl (InvalidWAV ''missing WAVE form type'')
      else
        (let declaredEnd = ucast (of_nat (le_nat (sub_bytes 4 8 header)) :: u32) + 8 :: u64 in
         if declaredEnd < 12 then Inl (InvalidWAV ''RIFF declaration is shorter than its header'')
         else if declaredEnd \<noteq> of_int sz then
           Inl (InvalidWAV ''RIFF declaration does not match the available input'')
         else case wav_loop rd declaredEnd 12 None None of
           Inl e \<Rightarrow> Inl e
         | Inr (None, _) \<Rightarrow> Inl (InvalidWAV ''missing fmt chunk'')
         | Inr (Some _, None) \<Rightarrow> Inl (InvalidWAV ''missing data chunk'')
         | Inr (Some format, Some dataBytes) \<Rightarrow>
           if rem dataBytes (uint (wf_blockAlign format)) \<noteq> 0 then
             Inl (InvalidWAV ''data chunk does not contain complete audio frames'')
           else
             (let frameCount = quot dataBytes (uint (wf_blockAlign format));
                  rate = uint (wf_sampleRate format);
                  durationMS = i64 (i64 (quot frameCount rate * 1000)
                                    + quot (i64 (rem frameCount rate * 1000)) rate)
              in Inr \<lparr>m_Container = ''wav'', m_Codec = wf_codec format,
                      m_SampleRate = wf_sampleRate format, m_Channels = wf_channels format,
                      m_Bitrate = ucast (wf_byteRate format) * 8,
                      m_DurationMS = durationMS, m_DataBytes = dataBytes\<rparr>)))"

subsection \<open>Lemmas\<close>

lemma le_nat_bound: "le_nat bs < 256 ^ length bs"
proof (induction bs)
  case (Cons b bs)
  have *: "x + 256 * y < 256 * z" if "y < z" "x < 256" for x y z :: nat
    using that by linarith
  show ?case using * [OF Cons of_char_bound] by simp
qed simp

text \<open>Whole milliseconds are computed without overflow and without losing a fraction.\<close>

lemma split_scaled_div:
  assumes "0 < (b::int)"
  shows "a div b * k + (a mod b) * k div b = a * k div b"
proof -
  have "a * k = (a mod b) * k + (a div b * k) * b"
    by (metis add.commute distrib_right div_mult_mod_eq mult.assoc mult.commute)
  with assms show ?thesis by simp
qed

text \<open>The duration computed by \<^verbatim>\<open>ProbeWAV\<close> for a frame count below \<open>2 ^ 32\<close>.\<close>

lemma wav_duration:
  assumes "0 \<le> fc" "fc < 4294967296" "1000 \<le> rate" "rate \<le> 768000"
  shows "i64 (i64 (quot fc rate * 1000) + quot (i64 (rem fc rate * 1000)) rate) = fc * 1000 div rate"
proof -
  have q: "0 \<le> fc div rate" "fc div rate < 4294967296"
    using assms int_div_bounds [of fc rate] by simp_all
  have r: "0 \<le> fc mod rate" "fc mod rate < rate"
    using assms pos_mod_bound [of rate fc] pos_mod_sign [of rate fc] by linarith+
  then have s: "0 \<le> (fc mod rate) * 1000 div rate" "(fc mod rate) * 1000 div rate < 1000"
    using assms by (simp_all add: pos_imp_zdiv_nonneg_iff int_div_lessI)
  have m: "i64 (fc mod rate * 1000) = fc mod rate * 1000"
    by (rule i64_small; use r assms(4) in linarith)
  have d: "i64 (fc div rate * 1000) = fc div rate * 1000"
    by (rule i64_small; use q in linarith)
  have "i64 (fc div rate * 1000 + fc mod rate * 1000 div rate)
      = fc div rate * 1000 + fc mod rate * 1000 div rate"
    by (rule i64_small; use q s in linarith)
  then show ?thesis
    using assms r m d split_scaled_div [of rate fc 1000] by (simp add: quot_nonneg rem_nonneg)
qed

definition wavFormat_ok :: "wavFormat \<Rightarrow> bool" where
  "wavFormat_ok f \<longleftrightarrow> 1 \<le> uint (wf_channels f) \<and> uint (wf_channels f) \<le> 64
     \<and> 1000 \<le> uint (wf_sampleRate f) \<and> uint (wf_sampleRate f) \<le> 768000
     \<and> 0 < uint (wf_blockAlign f)
     \<and> uint (wf_byteRate f) = uint (wf_sampleRate f) * uint (wf_blockAlign f)"

lemma parseWAVFormat_ok: "parseWAVFormat d = Inr f \<Longrightarrow> wavFormat_ok f"
proof -
  assume a: "parseWAVFormat d = Inr f"
  obtain bits :: u16 where
    c: "wf_channels f \<noteq> 0" "wf_channels f \<le> 64" "1000 \<le> wf_sampleRate f" "wf_sampleRate f \<le> 768000"
    and eb: "ucast (wf_channels f) * ucast bits div (8 :: u32) \<noteq> 0"
      "(ucast (wf_blockAlign f) :: u32) = ucast (wf_channels f) * ucast bits div 8"
    and br: "(ucast (wf_byteRate f) :: u64)
      = ucast (wf_sampleRate f) * ucast (ucast (wf_channels f) * ucast bits div 8 :: u32)"
    using a by (auto simp: parseWAVFormat_def Let_def maxWAVChannels_def minWAVSampleRate_def
        maxWAVSampleRate_def not_less split: if_splits prod.splits)
  have "unat (ucast (wf_byteRate f) :: u64)
      = unat (wf_sampleRate f) * unat (ucast (wf_blockAlign f) :: u32)"
    unfolding br eb(2) by (rule unat_mult_u32_u64)
  then have "int (unat (wf_byteRate f)) = int (unat (wf_sampleRate f) * unat (wf_blockAlign f))"
    by simp
  moreover have "unat (ucast (wf_blockAlign f) :: u32) \<noteq> 0"
    using eb by (simp add: unat_eq_0)
  ultimately show ?thesis
    using c uint_ge_0 [of "wf_channels f"]
    by (simp add: wavFormat_ok_def word_le_def unat_eq_0 word_neq_0_conv
        uint_0_iff [symmetric] order_less_le int_one_le_iff_zero_less)
qed

text \<open>What the loop has collected when it reaches an offset.\<close>

definition wav_found_ok :: "u64 \<Rightarrow> wavFormat option \<Rightarrow> int option \<Rightarrow> bool" where
  "wav_found_ok off fmt data \<longleftrightarrow> (\<forall>f. fmt = Some f \<longrightarrow> wavFormat_ok f)
     \<and> (\<forall>n. data = Some n \<longrightarrow> 0 \<le> n \<and> nat n < 4294967296 \<and> nat n + 20 \<le> unat off)"

lemma wav_chunk_found_ok:
  assumes "wav_chunk rd e off fmt data = Inr (off', fmt', data')" "off < e" "12 \<le> unat off"
    and "wav_found_ok off fmt data"
  shows "wav_found_ok off' fmt' data'"
proof -
  from assms(1,2) obtain c32 :: u32 and p :: u64 where
    "unat off + 8 + unat c32 + unat p = unat off'"
    "fmt' = fmt \<or> (\<exists>b f. parseWAVFormat b = Inr f \<and> fmt' = Some f)"
    "data' = data \<or> data' = Some (sint (ucast c32 :: u64))"
    by (elim wav_chunk_cases)
  with assms(3,4) u32_bound [of c32] show ?thesis
    by (auto simp: wav_found_ok_def sint_u32_u64 parseWAVFormat_ok)
qed

lemma wav_loop_found_ok:
  assumes "wav_loop rd e off fmt data = Inr (fmt', data')" "off \<le> e" "12 \<le> unat off"
    and "wav_found_ok off fmt data"
  shows "wav_found_ok e fmt' data'"
  using assms
proof (induction rd e off fmt data rule: wav_loop.induct)
  case (1 rd e off fmt data)
  show ?case
  proof (cases "off < e")
    case False
    with "1.prems" show ?thesis by (auto simp: wav_loop.simps [of rd e off])
  next
    case True
    with "1.prems"(1) obtain off' f' d' where
      c: "wav_chunk rd e off fmt data = Inr (off', f', d')" and
      l: "wav_loop rd e off' f' d' = Inr (fmt', data')"
      by (auto simp: wav_loop.simps [of rd e off] split: sum.splits)
    have "off' \<le> e" "12 \<le> unat off'"
      using wav_chunk_progress [OF c True] "1.prems"(3) by (simp_all add: word_le_nat_alt)
    with "1.IH" [OF True c refl refl l] wav_chunk_found_ok [OF c True "1.prems"(3,4)]
    show ?thesis by simp
  qed
qed


subsection \<open>Reading stays inside the input\<close>

text \<open>Two readers that deliver the same bytes for every range inside the first \<open>sz\<close> bytes.\<close>

definition same_within :: "int \<Rightarrow> reader \<Rightarrow> reader \<Rightarrow> bool" where
  "same_within sz rd rd' \<longleftrightarrow> (\<forall>off n. 0 \<le> off \<and> off + int n \<le> sz \<longrightarrow> rd off n = rd' off n)"

lemma readAt_same:
  "same_within sz rd rd' \<Longrightarrow> 0 \<le> off \<Longrightarrow> off + int n \<le> sz \<Longrightarrow> readAt rd n off = readAt rd' n off"
  by (simp add: same_within_def readAt_def)

lemma readAt_same_word:
  assumes "same_within sz rd rd'" "int (unat (off :: u64)) + int n \<le> sz" "sz \<le> max_i64"
  shows "readAt rd n (sint off) = readAt rd' n (sint off)"
proof -
  have "unat off < 9223372036854775808"
    using assms(2,3) unfolding max_i64_def by linarith
  then have "sint off = int (unat off)" by (subst sint_small_u64) simp_all
  then show ?thesis
    using assms by (intro readAt_same [OF assms(1)]) (simp_all only: of_nat_0_le_iff)
qed

lemma unat_add_inside:
  assumes "(o1 :: u64) < e" "\<not> e - o1 < k"
  shows "unat (o1 + k) = unat o1 + unat k" "unat o1 + unat k \<le> unat e"
proof -
  have le: "unat o1 + unat k \<le> unat e"
    using assms by (simp add: word_less_nat_alt unat_sub_no_wrap word_le_nat_alt)
  then show "unat o1 + unat k \<le> unat e" .
  show "unat (o1 + k) = unat o1 + unat k"
    using le u64_bound [of e] by (subst unat_add_lem [THEN iffD1]) simp_all
qed

lemma wav_chunk_same:
  assumes same: "same_within sz rd rd'" and sz: "int (unat e) \<le> sz" "sz \<le> max_i64" and off: "off < e"
  shows "wav_chunk rd e off fmt data = wav_chunk rd' e off fmt data"
proof (cases "e - off < 8")
  case True
  then show ?thesis by (simp add: wav_chunk_def)
next
  case False
  have in8: "unat (off + 8) = unat off + 8" "unat off + 8 \<le> unat e"
    using unat_add_inside [OF off False] by simp_all
  have h: "readAt rd 8 (sint off) = readAt rd' 8 (sint off)"
    by (rule readAt_same_word [OF same _ sz(2)]) (use in8(2) sz(1) in linarith)
  have f: "readAt rd 16 (sint (off + 8)) = readAt rd' 16 (sint (off + 8))"
    if "\<not> off + 8 + c < off + 8" "\<not> e < off + 8 + c" "\<not> c < 16" for c
  proof (rule readAt_same_word [OF same _ sz(2)])
    have "unat (off + 8) + unat c \<le> unat e" "16 \<le> unat c"
      using that by (simp_all add: unat_add_no_wrap [symmetric] not_less word_le_nat_alt)
    then show "int (unat (off + 8)) + int 16 \<le> sz" using sz(1) by linarith
  qed
  show ?thesis
    unfolding wav_chunk_def h by (auto simp: Let_def f split: option.split)
qed

lemma wav_loop_same:
  assumes "same_within sz rd rd'" "int (unat e) \<le> sz" "sz \<le> max_i64"
  shows "wav_loop rd e off fmt data = wav_loop rd' e off fmt data"
  using assms(1,2)
proof (induction rd e off fmt data rule: wav_loop.induct)
  case (1 rd e off fmt data)
  show ?case
    using "1.IH" wav_chunk_same [OF "1.prems"(1,2) assms(3), of off fmt data] "1.prems"
    by (auto simp: wav_loop.simps [of _ e off] split: sum.split)
qed

text \<open>
  C16: the WAV parser never reads outside the declared input.  Its result is determined by the bytes
  of the first \<open>sz\<close> positions: two readers that agree there cannot be told apart, whatever they
  deliver elsewhere, so no chunk size in the file can steer a read past the end.
\<close>

theorem ProbeWAV_reads_within:
  assumes "same_within sz rd rd'" "sz \<le> max_i64"
  shows "ProbeWAV (Some rd) sz = ProbeWAV (Some rd') sz"
proof (cases "sz < 12")
  case True
  then show ?thesis by (simp add: ProbeWAV_def)
next
  case False
  then have h: "readAt rd 12 0 = readAt rd' 12 0"
    by (intro readAt_same [OF assms(1)]) simp_all
  have "wav_loop rd (of_int sz) off fmt data = wav_loop rd' (of_int sz) off fmt data" for off fmt data
    by (rule wav_loop_same [OF assms(1) _ assms(2)])
      (use False assms(2) in \<open>simp add: max_i64_def uint_word_of_int_eq take_bit_int_eq_self\<close>)
  then show ?thesis
    unfolding ProbeWAV_def option.case h by (auto simp: Let_def split: option.split)
qed

subsection \<open>Well-formed files are accepted\<close>

text \<open>A regular file: a read delivers what is there.\<close>

definition file_reader :: "bytes \<Rightarrow> reader" where
  "file_reader content off n = (if 0 \<le> off then take n (drop (nat off) content) else [])"

fun le_bytes :: "nat \<Rightarrow> nat \<Rightarrow> bytes" where
  "le_bytes 0 v = []"
| "le_bytes (Suc n) v = char_of (v mod 256) # le_bytes n (v div 256)"

definition wav_header :: "nat \<Rightarrow> nat \<Rightarrow> nat \<Rightarrow> nat \<Rightarrow> nat \<Rightarrow> bytes" where
  "wav_header tag channels rate bits n =
     ''RIFF'' @ le_bytes 4 (36 + n + n mod 2) @ ''WAVE'' @ ''fmt '' @ le_bytes 4 16
     @ le_bytes 2 tag @ le_bytes 2 channels @ le_bytes 4 rate
     @ le_bytes 4 (rate * (channels * bits div 8)) @ le_bytes 2 (channels * bits div 8)
     @ le_bytes 2 bits @ ''data'' @ le_bytes 4 n"

text \<open>The canonical 44-byte header, the samples and the alignment byte of an odd payload.\<close>

definition wav_file :: "nat \<Rightarrow> nat \<Rightarrow> nat \<Rightarrow> nat \<Rightarrow> bytes \<Rightarrow> bytes" where
  "wav_file tag channels rate bits payload =
     wav_header tag channels rate bits (length payload) @ payload
     @ replicate (length payload mod 2) (char_of (0::nat))"

lemma le_bytes_length [simp]: "length (le_bytes n v) = n"
  by (induction n arbitrary: v) simp_all

lemma le_nat_le_bytes: "v < 256 ^ n \<Longrightarrow> le_nat (le_bytes n v) = v"
  by (induction n arbitrary: v) (simp_all add: less_mult_imp_div_less mult.commute)

lemma le_nat_le_bytes_num [simp]:
  "v < 65536 \<Longrightarrow> le_nat (le_bytes 2 v) = v" "v < 4294967296 \<Longrightarrow> le_nat (le_bytes 4 v) = v"
  by (simp_all add: le_nat_le_bytes)

lemma readAt_file:
  "readAt (file_reader (pre @ x @ post)) (length x) (int (length pre)) = Some x"
  by (simp add: readAt_def file_reader_def Let_def)

lemma u64_of_nat_less [simp]:
  "a < 18446744073709551616 \<Longrightarrow> b < 18446744073709551616 \<Longrightarrow> (of_nat a :: u64) < of_nat b \<longleftrightarrow> a < b"
  by (simp add: word_of_nat_less_iff take_bit_nat_eq_self)

lemma wav_header_length [simp]: "length (wav_header tag channels rate bits n) = 44"
  by (simp add: wav_header_def)

lemma sub_bytes_append:
  "length a = i \<Longrightarrow> length x = j - i \<Longrightarrow> sub_bytes i j (a @ x @ b) = x"
  by (simp add: sub_bytes_def)

lemma wavCodec_bits:
  assumes "wavCodec t b = (codec, True)"
  shows "b = 8 \<or> b = 16 \<or> b = 24 \<or> b = 32 \<or> b = 64"
  using assms by (auto simp: wavCodec_def split: if_splits)

lemma block_align_word:
  assumes "channels \<le> 64" "bits \<le> 64"
  shows "(ucast (of_nat channels :: u16) * ucast (of_nat bits :: u16) div 8 :: u32)
    = of_nat (channels * bits div 8)"
proof -
  have m: "channels * bits \<le> 64 * 64" using assms by (intro mult_le_mono)
  have "unat (ucast (of_nat channels :: u16) * ucast (of_nat bits :: u16) :: u32) = channels * bits"
    using m assms by (subst unat_mult_lem [THEN iffD1]) (simp_all add: unat_of_nat take_bit_nat_eq_self)
  then show ?thesis
    using m by (intro word_unat_eq_iff [THEN iffD2]) (simp add: unat_div unat_of_nat take_bit_nat_eq_self)
qed

lemma parseWAVFormat_encoded:
  assumes c: "wavCodec (of_nat tag) (of_nat bits) = (codec, True)" "tag < 65536" "bits < 65536"
    and r: "1 \<le> channels" "channels \<le> 64" "1000 \<le> rate" "rate \<le> 768000"
  defines "ba \<equiv> channels * bits div 8"
  shows "0 < ba" "ba \<le> 512" "parseWAVFormat (le_bytes 2 tag @ le_bytes 2 channels @ le_bytes 4 rate
     @ le_bytes 4 (rate * ba) @ le_bytes 2 ba @ le_bytes 2 bits)
   = Inr \<lparr>wf_codec = codec, wf_channels = of_nat channels, wf_sampleRate = of_nat rate,
          wf_byteRate = of_nat (rate * ba), wf_blockAlign = of_nat ba\<rparr>"
proof -
  have "unat b \<in> {8, 16, 24, 32, 64}" if "b = 8 \<or> b = 16 \<or> b = 24 \<or> b = 32 \<or> b = 64" for b :: u16
    using that by auto
  from this [OF wavCodec_bits [OF c(1)]] have "unat (of_nat bits :: u16) \<in> {8, 16, 24, 32, 64}" .
  then have bits: "bits \<in> {8, 16, 24, 32, 64}"
    using c(3) by (simp add: unat_of_nat take_bit_nat_eq_self)
  then have m: "channels * bits \<le> 64 * 64" using r by (intro mult_le_mono) auto
  show ba: "0 < ba" "ba \<le> 512"
    using bits r m by (auto simp: ba_def)
  have rb: "rate * ba \<le> 768000 * 512" using r ba by (intro mult_le_mono)
  have e: "(ucast (of_nat channels :: u16) * ucast (of_nat bits :: u16) div 8 :: u32) = of_nat ba"
    unfolding ba_def using bits r by (intro block_align_word) auto
  have p: "(ucast (of_nat rate :: u32) * ucast (of_nat ba :: u32) :: u64) = of_nat (rate * ba)"
  proof (rule word_unat_eq_iff [THEN iffD2])
    have "unat (of_nat (rate * ba) :: u64) = rate * ba"
      unfolding unat_of_nat by (rule mod_less) (use rb in simp)
    then show "unat (ucast (of_nat rate :: u32) * ucast (of_nat ba :: u32) :: u64)
        = unat (of_nat (rate * ba) :: u64)"
      using unat_mult_u32_u64 [of "of_nat rate" "of_nat ba"] ba r
      by (simp only:) (simp add: unat_of_nat take_bit_nat_eq_self)
  qed
  define br where "br = rate * ba"
  have br: "br \<le> 393216000" using rb by (simp add: br_def)
  show "parseWAVFormat (le_bytes 2 tag @ le_bytes 2 channels @ le_bytes 4 rate
     @ le_bytes 4 (rate * ba) @ le_bytes 2 ba @ le_bytes 2 bits)
   = Inr \<lparr>wf_codec = codec, wf_channels = of_nat channels, wf_sampleRate = of_nat rate,
          wf_byteRate = of_nat (rate * ba), wf_blockAlign = of_nat ba\<rparr>"
    using c r ba bits br unfolding br_def [symmetric] p [unfolded br_def [symmetric]]
    by (auto simp: parseWAVFormat_def Let_def sub_bytes_def e p [unfolded br_def [symmetric]]
        maxWAVChannels_def minWAVSampleRate_def maxWAVSampleRate_def word_less_nat_alt
        word_unat_eq_iff unat_of_nat take_bit_nat_eq_self unsigned_ucast_eq mask_eq_exp_minus_1)
qed

lemma file_at:
  assumes "f = pre @ x @ post" "length x = n" "length pre = k"
  shows "readAt (file_reader f) n (int k) = Some x"
  using readAt_file [of pre x post] assms by simp

lemma sint_of_nat_u64: "k < 9223372036854775808 \<Longrightarrow> sint (of_nat k :: u64) = int k"
  by (subst sint_small_u64) (simp_all add: unsigned_of_nat take_bit_nat_eq_self)

lemma u64_not_less_num: "8 \<le> x \<Longrightarrow> x < 18446744073709551616 \<Longrightarrow> \<not> (of_nat x :: u64) < 8"
  by (simp add: word_less_nat_alt unat_of_nat take_bit_nat_eq_self)

text \<open>One iteration over a chunk whose place in the file is known.\<close>

lemma wav_chunk_at:
  assumes f: "f = pre @ (cid @ le_bytes 4 n) @ body" "length pre = k" "length cid = 4"
    and e: "e = length f" "k + 8 + n + n mod 2 \<le> e" "e < 4294967296"
  shows "wav_chunk (file_reader f) (of_nat e) (of_nat k) fmt data =
    (let e' = of_nat (k + 8 + n + n mod 2) in
     if cid = ''fmt '' then
       (if fmt \<noteq> None then Inl (InvalidWAV ''duplicate fmt chunk'')
        else if n < 16 then Inl (InvalidWAV ''fmt chunk is shorter than 16 bytes'')
        else case parseWAVFormat (take 16 body) of
             Inl er \<Rightarrow> Inl er | Inr p \<Rightarrow> Inr (e', Some p, data))
     else if cid = ''data'' then
       (if data \<noteq> None then Inl (InvalidWAV ''duplicate data chunk'')
        else Inr (e', fmt, Some (int n)))
     else Inr (e', fmt, data))"
proof -
  have h: "readAt (file_reader f) 8 (sint (of_nat k :: u64)) = Some (cid @ le_bytes 4 n)"
    using f e by (subst sint_of_nat_u64) (auto intro!: file_at)
  have n: "n < 4294967296" using e by simp
  have c: "(ucast (of_nat (le_nat (le_bytes 4 n)) :: u32) :: u64) = of_nat n"
    using n by (intro word_unat_eq_iff [THEN iffD2]) (simp add: unat_of_nat take_bit_nat_eq_self)
  have m: "(of_nat n mod 2 :: u64) = of_nat (n mod 2)"
    using n by (intro word_unat_eq_iff [THEN iffD2]) (simp add: unat_mod unat_of_nat take_bit_nat_eq_self)
  have s: "(of_nat e - of_nat k :: u64) = of_nat (e - k)" using e by simp
  have g: "\<not> (of_nat (e - k) :: u64) < 8"
    by (rule u64_not_less_num) (use e in linarith)+
  have t: "(of_nat n :: u64) < 16 \<longleftrightarrow> n < 16"
    using n by (simp add: word_less_nat_alt unat_of_nat take_bit_nat_eq_self)
  have p16: "readAt (file_reader f) 16 (sint (of_nat (k + 8) :: u64)) = Some (take 16 body)" if "16 \<le> n"
  proof -
    have "readAt (file_reader f) 16 (int (k + 8)) = Some (take 16 body)"
      by (rule file_at [of f "pre @ cid @ le_bytes 4 n" "take 16 body" "drop 16 body"])
        (use f e that in auto)
    then show ?thesis using e by (subst sint_of_nat_u64) simp_all
  qed
  have o8: "(of_nat k + 8 :: u64) = of_nat (k + 8)" by simp
  have on: "(of_nat (k + 8) + of_nat n :: u64) = of_nat (k + 8 + n)" by simp
  have op: "(of_nat (k + 8 + n) + of_nat (n mod 2) :: u64) = of_nat (k + 8 + n + n mod 2)" by simp
  have ls: "\<not> (of_nat (k + 8 + n) :: u64) < of_nat (k + 8)" "\<not> (of_nat e :: u64) < of_nat (k + 8 + n)"
    "\<not> (of_nat (k + 8 + n + n mod 2) :: u64) < of_nat (k + 8 + n)"
    "\<not> (of_nat e :: u64) < of_nat (k + 8 + n + n mod 2)"
    using e by (subst u64_of_nat_less; linarith)+
  have sn: "sint (of_nat n :: u64) = int n" using n by (intro sint_of_nat_u64) simp
  have ids: "sub_bytes 0 4 (cid @ le_bytes 4 n) = cid" "sub_bytes 4 8 (cid @ le_bytes 4 n) = le_bytes 4 n"
    using f(3) by (simp_all add: sub_bytes_def)
  show ?thesis
    unfolding wav_chunk_def Let_def s h option.case ids c o8 on m op sn
    using g t p16 ls by (simp only: if_False not_less if_cancel) auto
qed

lemma ProbeWAV_wav_file:
  assumes c: "wavCodec (of_nat tag) (of_nat bits) = (codec, True)" "tag < 65536" "bits < 65536"
    and r: "1 \<le> channels" "channels \<le> 64" "1000 \<le> rate" "rate \<le> 768000"
    and n: "length payload < 4294967000" "length payload mod (channels * bits div 8) = 0"
  shows "ProbeWAV (Some (file_reader (wav_file tag channels rate bits payload)))
      (int (length (wav_file tag channels rate bits payload)))
    = Inr \<lparr>m_Container = ''wav'', m_Codec = codec, m_SampleRate = of_nat rate,
           m_Channels = of_nat channels, m_Bitrate = of_nat (rate * (channels * bits div 8) * 8),
           m_DurationMS = int (length payload div (channels * bits div 8) * 1000 div rate),
           m_DataBytes = int (length payload)\<rparr>"
proof -
  define f n ba where "f = wav_file tag channels rate bits payload" and "n = length payload"
    and "ba = channels * bits div 8"
  define fmt where "fmt = le_bytes 2 tag @ le_bytes 2 channels @ le_bytes 4 rate
     @ le_bytes 4 (rate * ba) @ le_bytes 2 ba @ le_bytes 2 bits"
  define tl where "tl = payload @ replicate (n mod 2) (char_of (0::nat))"
  define wf where "wf = \<lparr>wf_codec = codec, wf_channels = of_nat channels, wf_sampleRate = of_nat rate,
          wf_byteRate = of_nat (rate * ba), wf_blockAlign = of_nat ba\<rparr>"
  have ok: "0 < ba" "ba \<le> 512" "parseWAVFormat fmt = Inr wf"
    unfolding fmt_def wf_def ba_def by (rule parseWAVFormat_encoded [OF c r])+
  have f: "f = (''RIFF'' @ le_bytes 4 (36 + n + n mod 2) @ ''WAVE'') @ (''fmt '' @ le_bytes 4 16)
      @ (fmt @ ''data'' @ le_bytes 4 n @ tl)"
    "f = (''RIFF'' @ le_bytes 4 (36 + n + n mod 2) @ ''WAVE'' @ ''fmt '' @ le_bytes 4 16 @ fmt)
      @ (''data'' @ le_bytes 4 n) @ tl"
    by (simp_all add: f_def wav_file_def wav_header_def n_def ba_def fmt_def tl_def)
  have len: "length f = 44 + n + n mod 2" "length fmt = 16" "n + n mod 2 + 44 < 4294967296"
    using n(1) by (simp_all add: f fmt_def tl_def n_def)
  have c1: "wav_chunk (file_reader f) (of_nat (length f)) (of_nat 12) None None
      = Inr (of_nat 36, Some wf, None)"
    using len by (subst wav_chunk_at [OF f(1) _ _ refl]) (simp_all add: ok(3))
  have c2: "wav_chunk (file_reader f) (of_nat (length f)) (of_nat 36) (Some wf) None
      = Inr (of_nat (length f), Some wf, Some (int n))"
    using len by (subst wav_chunk_at [OF f(2) _ _ refl]) (simp_all add: Let_def)
  have lt: "(of_nat 12 :: u64) < of_nat (length f)" "(of_nat 36 :: u64) < of_nat (length f)"
    using len by (subst u64_of_nat_less; simp)+
  have loop: "wav_loop (file_reader f) (of_nat (length f)) (of_nat 12) None None
      = Inr (Some wf, Some (int n))"
    using lt c1 c2 by (simp only: wav_loop.simps [of "file_reader f" "of_nat (length f)"] if_True
        sum.case prod.case less_irrefl if_False)
  have hd12: "readAt (file_reader f) 12 0 = Some (''RIFF'' @ le_bytes 4 (36 + n + n mod 2) @ ''WAVE'')"
    by (rule file_at [of f "[]" _ _ 12 0, simplified]) (simp_all add: f(1))
  have de: "(ucast (of_nat (36 + n + n mod 2) :: u32) + 8 :: u64) = of_nat (length f)"
    using len by (intro word_unat_eq_iff [THEN iffD2])
      (simp add: unat_word_ariths unat_of_nat take_bit_nat_eq_self del: of_nat_add)
  have rate: "uint (of_nat rate :: u32) = int rate" "uint (of_nat ba :: u16) = int ba"
    using r ok by (simp_all add: unsigned_of_nat take_bit_nat_eq_self)
  have nn: "n < 4294967296" "n mod ba = 0" using n by (simp_all add: n_def ba_def)
  have dur: "i64 (i64 (quot (int n div int ba) (int rate) * 1000)
      + quot (i64 (rem (int n div int ba) (int rate) * 1000)) (int rate)) = int (n div ba * 1000 div rate)"
    using wav_duration [of "int n div int ba" "int rate"] r nn int_div_bounds [of "int n" "int ba"] ok
    by (simp add: zdiv_int)
  have bitr: "(ucast (of_nat (rate * ba) :: u32) * 8 :: u64) = of_nat (rate * ba * 8)"
  proof (rule word_unat_eq_iff [THEN iffD2])
    define br where "br = rate * ba"
    have "br \<le> 768000 * 512" unfolding br_def using r ok by (intro mult_le_mono)
    then show "unat (ucast (of_nat (rate * ba) :: u32) * 8 :: u64) = unat (of_nat (rate * ba * 8) :: u64)"
      unfolding br_def [symmetric]
      by (simp add: unat_word_ariths unat_of_nat take_bit_nat_eq_self del: of_nat_mult)
  qed
  have qr: "rem (int n) (int ba) = 0" "quot (int n) (int ba) = int n div int ba"
    using nn ok by (simp_all add: rem_nonneg quot_nonneg flip: zmod_int)
  have ge: "\<not> (of_nat (44 + n + n mod 2) :: u64) < 12"
    using lt(1) len(1) by (simp del: of_nat_add add: not_less order_less_imp_le)
  show ?thesis
    unfolding f_def [symmetric] n_def [symmetric] ba_def [symmetric] ProbeWAV_def option.case hd12
    using len loop
    by (simp add: sub_bytes_def Let_def de rate wf_def qr ge dur bitr del: of_nat_mult of_nat_add)
qed

lemma file_reader_prefix: "same_within (int (length c)) (file_reader (c @ x)) (file_reader c)"
proof -
  have "n \<le> length c - nat off" if "0 \<le> off" "off + int n \<le> int (length c)" for off n
    using that by linarith
  then show ?thesis by (auto simp: same_within_def file_reader_def)
qed

text \<open>
  C17: every canonical WAV file is accepted and described correctly, for all supported formats,
  1 to 64 channels, 1 kHz to 768 kHz and any whole number of frames (including an odd payload with
  its alignment byte): parsing what the encoder wrote gives back its parameters.
\<close>

theorem ProbeWAV_roundtrip:
  assumes c: "wavCodec (of_nat tag) (of_nat bits) = (codec, True)" "tag < 65536" "bits < 65536"
    and r: "1 \<le> channels" "channels \<le> 64" "1000 \<le> rate" "rate \<le> 768000"
    and n: "length payload < 4294967000" "length payload mod (channels * bits div 8) = 0"
  shows "ProbeWAV (Some (file_reader (wav_file tag channels rate bits payload)))
      (int (length (wav_file tag channels rate bits payload)))
    = Inr \<lparr>m_Container = ''wav'', m_Codec = codec, m_SampleRate = of_nat rate,
           m_Channels = of_nat channels, m_Bitrate = of_nat (rate * (channels * bits div 8) * 8),
           m_DurationMS = int (length payload div (channels * bits div 8) * 1000 div rate),
           m_DataBytes = int (length payload)\<rparr>"
  by (rule ProbeWAV_wav_file [OF assms])


theorem ProbeWAV_reads_within_witness:
  "ProbeWAV (Some (file_reader (wav_file 1 1 8000 8 ''ab'' @ ''trailing''))) 46
     = ProbeWAV (Some (file_reader (wav_file 1 1 8000 8 ''ab''))) 46"
proof (rule ProbeWAV_reads_within)
  have "int (length (wav_file 1 1 8000 8 ''ab'')) = 46" by (simp add: wav_file_def)
  then show "same_within 46 (file_reader (wav_file 1 1 8000 8 ''ab'' @ ''trailing''))
      (file_reader (wav_file 1 1 8000 8 ''ab''))"
    using file_reader_prefix [of "wav_file 1 1 8000 8 ''ab''"] by metis
qed (simp add: max_i64_def)

theorem ProbeWAV_roundtrip_witness:
  "ProbeWAV (Some (file_reader (wav_file 1 2 48000 16 (replicate 8 CHR ''a''))))
      (int (length (wav_file 1 2 48000 16 (replicate 8 CHR ''a''))))
    = Inr \<lparr>m_Container = ''wav'', m_Codec = ''pcm_s16le'', m_SampleRate = of_nat 48000,
           m_Channels = of_nat 2, m_Bitrate = of_nat (48000 * (2 * 16 div 8) * 8),
           m_DurationMS = int (8 div (2 * 16 div 8) * 1000 div 48000), m_DataBytes = 8\<rparr>"
  using ProbeWAV_roundtrip [of 1 16 "''pcm_s16le''" 2 48000 "replicate 8 CHR ''a''"]
  by (simp add: wavCodec_def)

end
