(* ===== verification/Audio_M4A.thy ===== *)
theory Audio_M4A
  imports Audio_Wav
begin

text \<open>
  \<^verbatim>\<open>internal/audio/m4a.go\<close> and \<^verbatim>\<open>internal/audio/probe.go\<close>: the ISO BMFF (MP4) parser that accepts
  a file with exactly one AAC track, and the dispatch on the declared media type.

  The callback of \<^verbatim>\<open>walkISOBoxes\<close> closes over local variables of its caller; here it is a function
  from a box and those variables to an error or their new values.  Both loops of the package (over
  sibling boxes and over descriptors) are terminating recursions whose measure is the distance to
  the boundary: \<open>readISOBox_within\<close> and \<open>readDescriptor_progress\<close> show that each step moves forward
  and stays inside.
\<close>

unbundle bit_operations_syntax

definition minM4ASampleRate :: u32 where "minM4ASampleRate = 1000"
definition maxM4ASampleRate :: u32 where "maxM4ASampleRate = 192000"
definition maxM4AChannels :: u16 where "maxM4AChannels = 64"
definition maxBrandBytes :: u64 where "maxBrandBytes = 4 * 1024"
definition maxESDSBytes :: u64 where "maxESDSBytes = 64 * 1024"
definition maxSampleEntries :: u32 where "maxSampleEntries = 128"

record isoBox =
  b_kind :: string
  b_start :: u64
  b_payloadStart :: u64
  b_end :: u64

record m4aTrack =
  t_timescale :: u32
  t_duration :: u64
  t_sampleRate :: u32
  t_channels :: u16

abbreviation badM4A :: "string \<Rightarrow> audio_error + 'a" where
  "badM4A msg \<equiv> Inl (InvalidM4A msg)"

subsection \<open>Boxes\<close>

definition readISOBox :: "reader \<Rightarrow> u64 \<Rightarrow> u64 \<Rightarrow> audio_error + isoBox" where
  "readISOBox rd offset boundary =
     (if boundary - offset < 8 then badM4A ''truncated box header at offset %d''
      else case readAt rd 8 (sint offset) of
        None \<Rightarrow> badM4A ''read box header at offset %d: %v''
      | Some header \<Rightarrow>
        (let size0 = ucast (of_nat (be_nat (sub_bytes 0 4 header)) :: u32) :: u64;
             kind = sub_bytes 4 8 header;
             finish = (\<lambda>(sz :: u64) (headerSize :: u64).
               if sz < headerSize \<or> sz > boundary - offset then badM4A ''box %q exceeds its boundary''
               else Inr \<lparr>b_kind = kind, b_start = offset, b_payloadStart = offset + headerSize,
                         b_end = offset + sz\<rparr>)
         in
         if size0 = 0 then finish (boundary - offset) 8
         else if size0 = 1 then
           (if boundary - offset < 16 then badM4A ''truncated extended box header at offset %d''
            else case readAt rd 8 (sint (offset + 8)) of
              None \<Rightarrow> badM4A ''read extended box header at offset %d: %v''
            | Some ext \<Rightarrow> finish (of_nat (be_nat ext)) 16)
         else finish size0 8))"

text \<open>A box between an offset and a boundary, on the values of the words.\<close>

definition box_within :: "nat \<Rightarrow> nat \<Rightarrow> isoBox \<Rightarrow> bool" where
  "box_within lo hi b \<longleftrightarrow> lo \<le> unat (b_start b) \<and> unat (b_start b) + 8 \<le> unat (b_payloadStart b)
     \<and> unat (b_payloadStart b) \<le> unat (b_end b) \<and> unat (b_end b) \<le> hi"

lemma readISOBox_within:
  assumes "readISOBox rd off bnd = Inr b" "off < bnd"
  shows "b_start b = off" "box_within (unat off) (unat bnd) b"
proof -
  obtain sz h :: u64 where b: "b_start b = off" "b_payloadStart b = off + h" "b_end b = off + sz"
    and g: "\<not> sz < h" "\<not> bnd - off < sz" "h = 8 \<or> h = 16"
    using assms(1) that [where h = 8 and sz = "bnd - off"]
    by (auto simp: readISOBox_def Let_def split: if_splits option.splits)
  then show "b_start b = off" by simp
  have "unat (off + sz) = unat off + unat sz" "unat off + unat sz \<le> unat bnd"
    using unat_add_inside [OF assms(2) g(2)] by simp_all
  moreover have "unat h \<le> unat sz" "8 \<le> unat h" using g by (auto simp: word_less_nat_alt)
  moreover have "unat (off + h) = unat off + unat h"
  proof (rule unat_add_inside [OF assms(2)])
    show "\<not> bnd - off < h" using g(1,2) by auto
  qed
  ultimately show "box_within (unat off) (unat bnd) b"
    by (simp add: box_within_def b)
qed

function walk_loop ::
  "reader \<Rightarrow> u64 \<Rightarrow> u64 \<Rightarrow> (isoBox \<Rightarrow> 's \<Rightarrow> audio_error + 's) \<Rightarrow> 's \<Rightarrow> audio_error + 's" where
  "walk_loop rd offset bound visit st =
     (if offset < bound then
        (case readISOBox rd offset bound of
           Inl e \<Rightarrow> Inl e
         | Inr current \<Rightarrow>
           (case visit current st of
              Inl e \<Rightarrow> Inl e
            | Inr st' \<Rightarrow> walk_loop rd (b_end current) bound visit st'))
      else Inr st)"
  by pat_completeness auto
termination
  by (relation "measure (\<lambda>(rd, off, e, v, st). unat e - unat off)")
    (auto dest!: readISOBox_within simp: box_within_def word_less_nat_alt)

declare walk_loop.simps [simp del]

definition walkISOBoxes ::
  "reader \<Rightarrow> u64 \<Rightarrow> u64 \<Rightarrow> (isoBox \<Rightarrow> 's \<Rightarrow> audio_error + 's) \<Rightarrow> 's \<Rightarrow> audio_error + 's" where
  "walkISOBoxes rd start bound visit st =
     (if start > bound then badM4A ''invalid ISO box boundary'' else walk_loop rd start bound visit st)"

text \<open>The callbacks that keep the one child of a kind and refuse a second one.\<close>

definition visit_unique :: "string \<Rightarrow> string \<Rightarrow> isoBox \<Rightarrow> isoBox option \<Rightarrow> audio_error + isoBox option" where
  "visit_unique kind msg child found =
     (if b_kind child = kind then (if found \<noteq> None then badM4A msg else Inr (Some child))
      else Inr found)"

definition supportedM4ABrand :: "string \<Rightarrow> bool" where
  "supportedM4ABrand brand =
     (brand = ''M4A '' \<or> brand = ''isom'' \<or> brand = ''iso2'' \<or> brand = ''mp41'' \<or> brand = ''mp42'')"

text \<open>The loop over the compatible brands, four bytes at a time from offset 8.\<close>

fun any_brand :: "bytes \<Rightarrow> bool" where
  "any_brand (a # b # c # d # rest) = (supportedM4ABrand [a, b, c, d] \<or> any_brand rest)"
| "any_brand _ = False"

definition validateFileType :: "reader \<Rightarrow> isoBox \<Rightarrow> audio_error + unit" where
  "validateFileType rd box =
     (let payloadSize = b_end box - b_payloadStart box in
      if payloadSize < 8 \<or> payloadSize > maxBrandBytes \<or> payloadSize mod 4 \<noteq> 0 then
        badM4A ''invalid ftyp payload length''
      else case readAt rd (unat payloadSize) (sint (b_payloadStart box)) of
        None \<Rightarrow> badM4A ''read ftyp payload: %v''
      | Some payload \<Rightarrow>
        if supportedM4ABrand (sub_bytes 0 4 payload) \<or> any_brand (drop 8 payload) then Inr ()
        else badM4A ''ftyp does not declare a supported ISO BMFF brand'')"

subsection \<open>Descriptors and the audio specific configuration\<close>

text \<open>The length field of a descriptor: at most four bytes, seven bits each.\<close>

fun descriptor_length :: "bytes \<Rightarrow> nat \<Rightarrow> nat \<Rightarrow> nat \<Rightarrow> (nat \<times> nat \<times> bool) option" where
  "descriptor_length data 0 offset len = Some (len, offset, False)"
| "descriptor_length data (Suc k) offset len =
     (if offset \<ge> length data then None
      else
        (let current = (of_char (data ! offset) :: nat);
             len' = push_bit 7 len OR (current AND 0x7F)
         in if current AND 0x80 = 0 then Some (len', offset + 1, True)
            else descriptor_length data k (offset + 1) len'))"

definition readDescriptor :: "bytes \<Rightarrow> nat \<Rightarrow> (nat \<times> bytes \<times> nat) option" where
  "readDescriptor data offset =
     (if offset \<ge> length data then None
      else case descriptor_length data 4 (offset + 1) 0 of
        None \<Rightarrow> None
      | Some (len, offset', terminated) \<Rightarrow>
        if \<not> terminated \<or> len > length data - offset' then None
        else Some (of_char (data ! offset), sub_bytes offset' (offset' + len) data, offset' + len))"

definition aacSampleRates :: "u32 list" where
  "aacSampleRates = [96000, 88200, 64000, 48000, 44100, 32000, 24000, 22050, 16000, 12000, 11025, 8000, 7350]"

text \<open>\<^verbatim>\<open>bitReader.read\<close>: the value of the next \<open>count\<close> bits and the new bit offset.\<close>

fun bits_loop :: "bytes \<Rightarrow> nat \<Rightarrow> nat \<Rightarrow> u32 \<Rightarrow> u32 \<times> nat" where
  "bits_loop data 0 bitOffset acc = (acc, bitOffset)"
| "bits_loop data (Suc k) bitOffset acc =
     (let bit = (drop_bit (7 - bitOffset mod 8) (of_char (data ! (bitOffset div 8)) :: nat)) AND 1 in
      bits_loop data k (bitOffset + 1) (push_bit 1 acc OR of_nat bit))"

definition bits_read :: "bytes \<Rightarrow> nat \<Rightarrow> nat \<Rightarrow> (u32 \<times> nat) option" where
  "bits_read data bitOffset count =
     (if count < 1 \<or> count > 24 \<or> bitOffset + count > length data * 8 then None
      else Some (bits_loop data count bitOffset 0))"

definition readAudioObjectType :: "bytes \<Rightarrow> nat \<Rightarrow> (int \<times> nat) option" where
  "readAudioObjectType data bitOffset =
     (case bits_read data bitOffset 5 of
        None \<Rightarrow> None
      | Some (v, o1) \<Rightarrow>
        if v \<noteq> 31 then Some (uint v, o1)
        else (case bits_read data o1 6 of
                None \<Rightarrow> None
              | Some (ext, o2) \<Rightarrow> Some (32 + uint ext, o2)))"

definition parseAudioSpecificConfig :: "bytes \<Rightarrow> (int \<times> u32 \<times> u16) option" where
  "parseAudioSpecificConfig data =
     (case readAudioObjectType data 0 of
        None \<Rightarrow> None
      | Some (audioObjectType, o1) \<Rightarrow>
     case bits_read data o1 4 of
        None \<Rightarrow> None
      | Some (frequencyIndex, o2) \<Rightarrow>
     case (if frequencyIndex = 15 then
             (case bits_read data o2 24 of
                None \<Rightarrow> None
              | Some (explicit, o3) \<Rightarrow>
                if explicit < minM4ASampleRate \<or> explicit > maxM4ASampleRate then None
                else Some (explicit, o3))
           else if unat frequencyIndex \<ge> length aacSampleRates then None
           else Some (aacSampleRates ! unat frequencyIndex, o2)) of
        None \<Rightarrow> None
      | Some (sampleRate, o3) \<Rightarrow>
     case bits_read data o3 4 of
        None \<Rightarrow> None
      | Some (channelConfiguration, _) \<Rightarrow>
        if channelConfiguration = 0 \<or> channelConfiguration > 7 then None
        else Some (audioObjectType, sampleRate,
                   if channelConfiguration = 7 then 8 else ucast channelConfiguration))"

definition supportedAACObjectType :: "int \<Rightarrow> bool" where
  "supportedAACObjectType t = (t \<in> {1, 2, 3, 4, 6, 17, 19, 20, 23, 39})"

lemma descriptor_length_offset:
  "descriptor_length data k offset len = Some (len', offset', t) \<Longrightarrow> offset \<le> offset'"
  by (induction k arbitrary: offset len) (auto simp: Let_def split: if_splits dest: Suc_leD)

lemma readDescriptor_progress:
  assumes "readDescriptor data offset = Some (tag, payload, next)"
  shows "offset < next" "next \<le> length data"
proof -
  from assms obtain len offset' where
    d: "descriptor_length data 4 (offset + 1) 0 = Some (len, offset', True)"
    and n: "next = offset' + len" "len \<le> length data - offset'" "offset < length data"
    by (auto simp: readDescriptor_def split: if_splits option.splits)
  have le: "offset' \<le> length data" if "descriptor_length data k o1 l = Some (len, offset', True)" for k o1 l
    using that by (induction k arbitrary: o1 l) (auto simp: Let_def split: if_splits)
  show "offset < next" "next \<le> length data"
    using descriptor_length_offset [OF d] le [OF d] n by linarith+
qed

text \<open>The loop of \<^verbatim>\<open>validateAACDecoderConfig\<close> over the descriptors from offset 13.\<close>

function find_asc :: "bytes \<Rightarrow> nat \<Rightarrow> bytes option \<Rightarrow> audio_error + bytes option" where
  "find_asc payload offset found =
     (if offset < length payload then
        (case readDescriptor payload offset of
           None \<Rightarrow> badM4A ''decoder configuration contains an invalid descriptor''
         | Some (tag, descriptorPayload, next) \<Rightarrow>
           if tag = 0x05 then
             (if found \<noteq> None then badM4A ''decoder configuration contains duplicate AudioSpecificConfig''
              else find_asc payload next (Some descriptorPayload))
           else find_asc payload next found)
      else Inr found)"
  by pat_completeness auto
termination
  by (relation "measure (\<lambda>(p, off, f). length p - off)") (fastforce dest: readDescriptor_progress)+

declare find_asc.simps [simp del]

definition validateAACDecoderConfig :: "bytes \<Rightarrow> u32 \<Rightarrow> u16 \<Rightarrow> audio_error + unit" where
  "validateAACDecoderConfig payload expectedSampleRate expectedChannels =
     (if length payload < 13 then badM4A ''decoder configuration is too short''
      else
        (let p0 = (of_char (payload ! 0) :: nat); p1 = (of_char (payload ! 1) :: nat) in
         if p0 \<noteq> 0x40 \<or> drop_bit 2 p1 \<noteq> 0x05 \<or> p1 AND 0x01 = 0 then
           badM4A ''mp4a decoder is not MPEG-4 audio''
         else case find_asc payload 13 None of
           Inl e \<Rightarrow> Inl e
         | Inr None \<Rightarrow> badM4A ''decoder configuration is missing AudioSpecificConfig''
         | Inr (Some asc) \<Rightarrow>
           (case parseAudioSpecificConfig asc of
              None \<Rightarrow> badM4A ''AudioSpecificConfig does not declare supported AAC''
            | Some (audioObjectType, sampleRate, channels) \<Rightarrow>
              if \<not> supportedAACObjectType audioObjectType then
                badM4A ''AudioSpecificConfig does not declare supported AAC''
              else if sampleRate \<noteq> expectedSampleRate \<or> channels \<noteq> expectedChannels then
                badM4A ''AudioSpecificConfig conflicts with the mp4a sample entry''
              else Inr ())))"

definition validateESDescriptor :: "bytes \<Rightarrow> u32 \<Rightarrow> u16 \<Rightarrow> audio_error + unit" where
  "validateESDescriptor payload expectedSampleRate expectedChannels =
     (if length payload < 3 then badM4A ''ES descriptor is too short''
      else
        (let flags = (of_char (payload ! 2) :: nat);
             o1 = (if flags AND 0x80 \<noteq> 0 then 5 else 3)
         in
         if flags AND 0x40 \<noteq> 0 \<and> o1 \<ge> length payload then
           badM4A ''ES descriptor URL length is missing''
         else
           (let o2 = (if flags AND 0x40 \<noteq> 0 then o1 + 1 + of_char (payload ! o1) else o1);
                o3 = (if flags AND 0x20 \<noteq> 0 then o2 + 2 else o2)
            in
            if o3 \<ge> length payload then badM4A ''ES descriptor is missing decoder configuration''
            else case readDescriptor payload o3 of
              None \<Rightarrow> badM4A ''ES descriptor is missing a valid decoder configuration''
            | Some (tag, decoderConfig, _) \<Rightarrow>
              if tag \<noteq> 0x04 then badM4A ''ES descriptor is missing a valid decoder configuration''
              else validateAACDecoderConfig decoderConfig expectedSampleRate expectedChannels)))"

definition validateAACDescriptor :: "reader \<Rightarrow> isoBox \<Rightarrow> u32 \<Rightarrow> u16 \<Rightarrow> audio_error + unit" where
  "validateAACDescriptor rd audioEntry expectedSampleRate expectedChannels =
     (case walkISOBoxes rd (b_start audioEntry + 36) (b_end audioEntry)
             (visit_unique ''esds'' ''duplicate esds box in mp4a sample entry'') None of
        Inl e \<Rightarrow> Inl e
      | Inr None \<Rightarrow> badM4A ''mp4a sample entry is missing esds''
      | Inr (Some esds) \<Rightarrow>
        (let payloadSize = b_end esds - b_payloadStart esds in
         if payloadSize < 6 \<or> payloadSize > maxESDSBytes then badM4A ''esds payload length is invalid''
         else case readAt rd (unat payloadSize) (sint (b_payloadStart esds)) of
           None \<Rightarrow> badM4A ''read esds payload: %v''
         | Some payload \<Rightarrow>
           if (of_char (payload ! 0) :: nat) \<noteq> 0 \<or> (of_char (payload ! 1) :: nat) \<noteq> 0
              \<or> (of_char (payload ! 2) :: nat) \<noteq> 0 \<or> (of_char (payload ! 3) :: nat) \<noteq> 0 then
             badM4A ''unsupported esds version or flags''
           else case readDescriptor (drop 4 payload) 0 of
             None \<Rightarrow> badM4A ''esds does not contain one valid ES descriptor''
           | Some (tag, esPayload, next) \<Rightarrow>
             if tag \<noteq> 0x03 \<or> next \<noteq> length payload - 4 then
               badM4A ''esds does not contain one valid ES descriptor''
             else validateESDescriptor esPayload expectedSampleRate expectedChannels))"

subsection \<open>The audio track\<close>

definition readHandlerType :: "reader \<Rightarrow> isoBox \<Rightarrow> audio_error + string" where
  "readHandlerType rd box =
     (if b_end box - b_payloadStart box < 12 then badM4A ''hdlr box is too short''
      else case readAt rd 12 (sint (b_payloadStart box)) of
        None \<Rightarrow> badM4A ''read hdlr box: %v''
      | Some header \<Rightarrow> Inr (sub_bytes 8 12 header))"

definition readMediaDuration :: "reader \<Rightarrow> isoBox \<Rightarrow> audio_error + (u32 \<times> u64)" where
  "readMediaDuration rd box =
     (if b_end box - b_payloadStart box < 20 then badM4A ''mdhd box is too short''
      else case readAt rd 1 (sint (b_payloadStart box)) of
        None \<Rightarrow> badM4A ''read mdhd version: %v''
      | Some ver \<Rightarrow>
        (let version = (of_char (ver ! 0) :: nat);
             positive = (\<lambda>(timescale :: u32) (duration :: u64).
               if timescale = 0 \<or> duration = 0 then badM4A ''mdhd timescale and duration must be positive''
               else Inr (timescale, duration))
         in
         if version = 0 then
           (case readAt rd 20 (sint (b_payloadStart box)) of
              None \<Rightarrow> badM4A ''read version 0 mdhd box: %v''
            | Some flds \<Rightarrow>
              (let timescale = of_nat (be_nat (sub_bytes 12 16 flds));
                   duration = ucast (of_nat (be_nat (sub_bytes 16 20 flds)) :: u32) :: u64
               in if duration = ucast (mask 32 :: u32) then badM4A ''mdhd duration is unspecified''
                  else positive timescale duration))
         else if version = 1 then
           (if b_end box - b_payloadStart box < 32 then badM4A ''version 1 mdhd box is too short''
            else case readAt rd 32 (sint (b_payloadStart box)) of
              None \<Rightarrow> badM4A ''read version 1 mdhd box: %v''
            | Some flds \<Rightarrow>
              (let timescale = of_nat (be_nat (sub_bytes 20 24 flds));
                   duration = of_nat (be_nat (sub_bytes 24 32 flds)) :: u64
               in if duration = mask 64 then badM4A ''mdhd duration is unspecified''
                  else positive timescale duration))
         else badM4A ''unsupported mdhd version %d''))"

text \<open>The sample entries: how many were seen, and the one \<^verbatim>\<open>mp4a\<close> entry.\<close>

definition visit_entry :: "isoBox \<Rightarrow> u32 \<times> isoBox option \<Rightarrow> audio_error + (u32 \<times> isoBox option)" where
  "visit_entry child st =
     (case st of (seenEntries, audioEntry) \<Rightarrow>
        if b_kind child = ''mp4a'' then
          (if audioEntry \<noteq> None then badM4A ''duplicate mp4a sample entry''
           else Inr (seenEntries + 1, Some child))
        else Inr (seenEntries + 1, audioEntry))"

definition read_mp4a_entry :: "reader \<Rightarrow> isoBox \<Rightarrow> audio_error + (u32 \<times> u16)" where
  "read_mp4a_entry rd audioEntry =
     (if b_end audioEntry - b_start audioEntry < 36 then badM4A ''mp4a sample entry is too short''
      else case readAt rd 2 (sint (b_start audioEntry + 16)) of
        None \<Rightarrow> badM4A ''read mp4a sample entry version: %v''
      | Some version \<Rightarrow>
      if (of_nat (be_nat version) :: u16) \<noteq> 0 then badM4A ''unsupported mp4a sample entry version''
      else case readAt rd 12 (sint (b_start audioEntry + 24)) of
        None \<Rightarrow> badM4A ''read mp4a sample entry: %v''
      | Some flds \<Rightarrow>
        (let channels = of_nat (be_nat (sub_bytes 0 2 flds)) :: u16;
             fixedSampleRate = of_nat (be_nat (sub_bytes 8 12 flds)) :: u32;
             sampleRate = drop_bit 16 fixedSampleRate
         in
         if fixedSampleRate AND 0xFFFF \<noteq> 0 \<or> sampleRate < minM4ASampleRate \<or> sampleRate > maxM4ASampleRate then
           badM4A ''mp4a sample rate is invalid''
         else if channels = 0 \<or> channels > maxM4AChannels then badM4A ''mp4a channel count is invalid''
         else case validateAACDescriptor rd audioEntry sampleRate channels of
           Inl e \<Rightarrow> Inl e
         | Inr _ \<Rightarrow> Inr (sampleRate, channels)))"

definition read_sample_description :: "reader \<Rightarrow> isoBox \<Rightarrow> audio_error + (u32 \<times> u16)" where
  "read_sample_description rd stsd =
     (if b_end stsd - b_payloadStart stsd < 8 then badM4A ''audio track is missing a valid stsd box''
      else case readAt rd 8 (sint (b_payloadStart stsd)) of
        None \<Rightarrow> badM4A ''read stsd header: %v''
      | Some stsdHeader \<Rightarrow>
        (let entryCount = of_nat (be_nat (sub_bytes 4 8 stsdHeader)) :: u32 in
         if entryCount = 0 \<or> entryCount > maxSampleEntries then badM4A ''stsd entry count is invalid''
         else case walkISOBoxes rd (b_payloadStart stsd + 8) (b_end stsd) visit_entry (0, None) of
           Inl e \<Rightarrow> Inl e
         | Inr (seenEntries, None) \<Rightarrow> badM4A ''stsd does not contain one declared mp4a entry''
         | Inr (seenEntries, Some audioEntry) \<Rightarrow>
           if seenEntries \<noteq> entryCount then badM4A ''stsd does not contain one declared mp4a entry''
           else read_mp4a_entry rd audioEntry))"

definition readAudioSampleEntry :: "reader \<Rightarrow> isoBox \<Rightarrow> audio_error + (u32 \<times> u16)" where
  "readAudioSampleEntry rd mediaInfo =
     (case walkISOBoxes rd (b_payloadStart mediaInfo) (b_end mediaInfo)
             (visit_unique ''stbl'' ''duplicate stbl box'') None of
        Inl e \<Rightarrow> Inl e
      | Inr None \<Rightarrow> badM4A ''audio track is missing stbl''
      | Inr (Some sampleTable) \<Rightarrow>
        (case walkISOBoxes rd (b_payloadStart sampleTable) (b_end sampleTable)
                (visit_unique ''stsd'' ''duplicate stsd box'') None of
           Inl e \<Rightarrow> Inl e
         | Inr None \<Rightarrow> badM4A ''audio track is missing a valid stsd box''
         | Inr (Some stsd) \<Rightarrow> read_sample_description rd stsd))"

text \<open>\<^verbatim>\<open>parseMedia\<close>: the state of its walk is \<^verbatim>\<open>mediaHeader\<close>, \<^verbatim>\<open>handler\<close>, \<^verbatim>\<open>mediaInfo\<close>.\<close>

definition visit_media ::
  "isoBox \<Rightarrow> isoBox option \<times> isoBox option \<times> isoBox option
     \<Rightarrow> audio_error + (isoBox option \<times> isoBox option \<times> isoBox option)" where
  "visit_media child st =
     (case st of (mdhd, hdlr, minf) \<Rightarrow>
        if b_kind child = ''mdhd'' then
          (if mdhd \<noteq> None then badM4A ''duplicate %s box in media track'' else Inr (Some child, hdlr, minf))
        else if b_kind child = ''hdlr'' then
          (if hdlr \<noteq> None then badM4A ''duplicate %s box in media track'' else Inr (mdhd, Some child, minf))
        else if b_kind child = ''minf'' then
          (if minf \<noteq> None then badM4A ''duplicate %s box in media track'' else Inr (mdhd, hdlr, Some child))
        else Inr st)"

definition parseMedia :: "reader \<Rightarrow> isoBox \<Rightarrow> audio_error + m4aTrack option" where
  "parseMedia rd media =
     (case walkISOBoxes rd (b_payloadStart media) (b_end media) visit_media (None, None, None) of
        Inl e \<Rightarrow> Inl e
      | Inr (mediaHeader, None, mediaInfo) \<Rightarrow> Inr None
      | Inr (mediaHeader, Some handler, mediaInfo) \<Rightarrow>
     case readHandlerType rd handler of
        Inl e \<Rightarrow> Inl e
      | Inr handlerType \<Rightarrow>
     if handlerType \<noteq> ''soun'' then Inr None
     else case (mediaHeader, mediaInfo) of
        (Some mdhd, Some minf) \<Rightarrow>
          (case readMediaDuration rd mdhd of
             Inl e \<Rightarrow> Inl e
           | Inr (timescale, duration) \<Rightarrow>
             (case readAudioSampleEntry rd minf of
                Inl e \<Rightarrow> Inl e
              | Inr (sampleRate, channels) \<Rightarrow>
                Inr (Some \<lparr>t_timescale = timescale, t_duration = duration,
                          t_sampleRate = sampleRate, t_channels = channels\<rparr>)))
      | _ \<Rightarrow> badM4A ''audio track is missing mdhd or minf'')"

text \<open>\<^verbatim>\<open>parseTrack\<close> and \<^verbatim>\<open>parseMedia\<close> return \<open>None\<close> where the code returns \<^verbatim>\<open>isAudio = false\<close>.\<close>

definition parseTrack :: "reader \<Rightarrow> isoBox \<Rightarrow> audio_error + m4aTrack option" where
  "parseTrack rd trackBox =
     (case walkISOBoxes rd (b_payloadStart trackBox) (b_end trackBox)
             (visit_unique ''mdia'' ''audio track contains duplicate mdia boxes'') None of
        Inl e \<Rightarrow> Inl e
      | Inr None \<Rightarrow> Inr None
      | Inr (Some media) \<Rightarrow> parseMedia rd media)"

definition visit_trak :: "reader \<Rightarrow> isoBox \<Rightarrow> m4aTrack list \<Rightarrow> audio_error + m4aTrack list" where
  "visit_trak rd child audioTracks =
     (if b_kind child \<noteq> ''trak'' then Inr audioTracks
      else case parseTrack rd child of
        Inl e \<Rightarrow> Inl e
      | Inr None \<Rightarrow> Inr audioTracks
      | Inr (Some track) \<Rightarrow> Inr (audioTracks @ [track]))"

definition parseAudioTrack :: "reader \<Rightarrow> isoBox \<Rightarrow> audio_error + m4aTrack" where
  "parseAudioTrack rd movie =
     (case walkISOBoxes rd (b_payloadStart movie) (b_end movie) (visit_trak rd) [] of
        Inl e \<Rightarrow> Inl e
      | Inr audioTracks \<Rightarrow>
        (case audioTracks of
           [track] \<Rightarrow> Inr track
         | _ \<Rightarrow> badM4A ''expected exactly one AAC audio track''))"

subsection \<open>The file\<close>

definition milliseconds :: "u64 \<Rightarrow> u32 \<Rightarrow> int" where
  "milliseconds duration timescale =
     (let whole = duration div ucast timescale;
          remainder = duration mod ucast timescale
      in
      if whole > mask 64 div 1000 then 0
      else
        (let v = whole * 1000 + remainder * 1000 div ucast timescale in
         if v > drop_bit 1 (mask 64) then 0 else sint v))"

definition visit_top ::
  "reader \<Rightarrow> isoBox \<Rightarrow> bool \<times> isoBox option \<times> u64 \<Rightarrow> audio_error + (bool \<times> isoBox option \<times> u64)" where
  "visit_top rd current st =
     (case st of (foundFileType, movie, mediaBytes) \<Rightarrow>
        if b_kind current = ''ftyp'' then
          (if foundFileType then badM4A ''duplicate ftyp box''
           else case validateFileType rd current of
             Inl e \<Rightarrow> Inl e
           | Inr _ \<Rightarrow> Inr (True, movie, mediaBytes))
        else if b_kind current = ''moov'' then
          (if movie \<noteq> None then badM4A ''duplicate moov box''
           else Inr (foundFileType, Some current, mediaBytes))
        else if b_kind current = ''mdat'' then
          (let payloadSize = b_end current - b_payloadStart current in
           if payloadSize = 0 \<or> mediaBytes > mask 64 - payloadSize then badM4A ''invalid media payload size''
           else Inr (foundFileType, movie, mediaBytes + payloadSize))
        else Inr st)"

definition ProbeM4A :: "reader option \<Rightarrow> int \<Rightarrow> audio_error + Metadata" where
  "ProbeM4A reader sz =
     (case reader of
        None \<Rightarrow> badM4A ''reader is nil''
      | Some rd \<Rightarrow>
      if sz < 8 then badM4A ''file is shorter than an ISO box header''
      else case walkISOBoxes rd 0 (of_int sz) (visit_top rd) (False, None, 0) of
        Inl e \<Rightarrow> Inl e
      | Inr (foundFileType, movie, mediaBytes) \<Rightarrow>
      if \<not> foundFileType then badM4A ''missing ftyp box''
      else case movie of
        None \<Rightarrow> badM4A ''missing moov box''
      | Some moov \<Rightarrow>
      if mediaBytes = 0 then badM4A ''missing non-empty mdat box''
      else case parseAudioTrack rd moov of
        Inl e \<Rightarrow> Inl e
      | Inr track \<Rightarrow>
        (let durationMS = milliseconds (t_duration track) (t_timescale track) in
         if durationMS \<le> 0 then badM4A ''audio duration rounds to zero milliseconds''
         else if mediaBytes > mask 64 div 8000 then badM4A ''media payload is too large''
         else Inr \<lparr>m_Container = ''m4a'', m_Codec = ''aac'', m_SampleRate = t_sampleRate track,
                   m_Channels = t_channels track,
                   m_Bitrate = mediaBytes * 8000 div of_int durationMS,
                   m_DurationMS = durationMS, m_DataBytes = sint mediaBytes\<rparr>))"

subsection \<open>Dispatch on the media type\<close>

text \<open>
  An open file: its reader, and what \<^verbatim>\<open>Stat\<close> returns (\<open>None\<close> when it fails, otherwise whether it is
  a regular file and its size).
\<close>

record probe_source =
  ps_reader :: reader
  ps_stat :: "(bool \<times> int) option"

datatype probe_error = ErrAudio audio_error | ErrStat | ErrMediaType string

definition ProbeWAVFile :: "probe_source option \<Rightarrow> probe_error + Metadata" where
  "ProbeWAVFile file =
     (case file of
        None \<Rightarrow> Inl (ErrAudio (InvalidWAV ''file is nil''))
      | Some f \<Rightarrow>
        (case ps_stat f of
           None \<Rightarrow> Inl ErrStat
         | Some (regular, sz) \<Rightarrow>
           if \<not> regular then Inl (ErrAudio (InvalidWAV ''input is not a regular file''))
           else map_sum ErrAudio id (ProbeWAV (Some (ps_reader f)) sz)))"

definition ProbeM4AFile :: "probe_source option \<Rightarrow> probe_error + Metadata" where
  "ProbeM4AFile file =
     (case file of
        None \<Rightarrow> Inl (ErrAudio (InvalidM4A ''file is nil''))
      | Some f \<Rightarrow>
        (case ps_stat f of
           None \<Rightarrow> Inl ErrStat
         | Some (regular, sz) \<Rightarrow>
           if \<not> regular then Inl (ErrAudio (InvalidM4A ''input is not a regular file''))
           else map_sum ErrAudio id (ProbeM4A (Some (ps_reader f)) sz)))"

definition ProbeFile :: "probe_source option \<Rightarrow> string \<Rightarrow> probe_error + Metadata" where
  "ProbeFile file mimeType =
     (if mimeType = ''audio/wav'' \<or> mimeType = ''audio/x-wav'' then ProbeWAVFile file
      else if mimeType = ''audio/mp4'' then ProbeM4AFile file
      else Inl (ErrMediaType mimeType))"


subsection \<open>An example file\<close>

text \<open>
  A minimal M4A file: \<^verbatim>\<open>ftyp\<close>, a \<^verbatim>\<open>moov\<close> with one AAC-LC track (48 kHz, stereo, 2000 units of a
  millisecond) and an \<^verbatim>\<open>mdat\<close> of four bytes.
\<close>

definition m4a_example_bytes :: bytes where
  "m4a_example_bytes =
     [CHR 0x00, CHR 0x00, CHR 0x00, CHR 0x10, CHR 0x66, CHR 0x74, CHR 0x79, CHR 0x70, CHR 0x4D,
      CHR 0x34, CHR 0x41, CHR 0x20, CHR 0x00, CHR 0x00, CHR 0x00, CHR 0x00, CHR 0x00, CHR 0x00,
      CHR 0x00, CHR 0xB0, CHR 0x6D, CHR 0x6F, CHR 0x6F, CHR 0x76, CHR 0x00, CHR 0x00, CHR 0x00,
      CHR 0xA8, CHR 0x74, CHR 0x72, CHR 0x61, CHR 0x6B, CHR 0x00, CHR 0x00, CHR 0x00, CHR 0xA0,
      CHR 0x6D, CHR 0x64, CHR 0x69, CHR 0x61, CHR 0x00, CHR 0x00, CHR 0x00, CHR 0x1C, CHR 0x6D,
      CHR 0x64, CHR 0x68, CHR 0x64, CHR 0x00, CHR 0x00, CHR 0x00, CHR 0x00, CHR 0x00, CHR 0x00,
      CHR 0x00, CHR 0x00, CHR 0x00, CHR 0x00, CHR 0x00, CHR 0x00, CHR 0x00, CHR 0x00, CHR 0x03,
      CHR 0xE8, CHR 0x00, CHR 0x00, CHR 0x07, CHR 0xD0, CHR 0x00, CHR 0x00, CHR 0x00, CHR 0x14,
      CHR 0x68, CHR 0x64, CHR 0x6C, CHR 0x72, CHR 0x00, CHR 0x00, CHR 0x00, CHR 0x00, CHR 0x00,
      CHR 0x00, CHR 0x00, CHR 0x00, CHR 0x73, CHR 0x6F, CHR 0x75, CHR 0x6E, CHR 0x00, CHR 0x00,
      CHR 0x00, CHR 0x68, CHR 0x6D, CHR 0x69, CHR 0x6E, CHR 0x66, CHR 0x00, CHR 0x00, CHR 0x00,
      CHR 0x60, CHR 0x73, CHR 0x74, CHR 0x62, CHR 0x6C, CHR 0x00, CHR 0x00, CHR 0x00, CHR 0x58,
      CHR 0x73, CHR 0x74, CHR 0x73, CHR 0x64, CHR 0x00, CHR 0x00, CHR 0x00, CHR 0x00, CHR 0x00,
      CHR 0x00, CHR 0x00, CHR 0x01, CHR 0x00, CHR 0x00, CHR 0x00, CHR 0x48, CHR 0x6D, CHR 0x70,
      CHR 0x34, CHR 0x61, CHR 0x00, CHR 0x00, CHR 0x00, CHR 0x00, CHR 0x00, CHR 0x00, CHR 0x00,
      CHR 0x00, CHR 0x00, CHR 0x00, CHR 0x00, CHR 0x00, CHR 0x00, CHR 0x00, CHR 0x00, CHR 0x00,
      CHR 0x00, CHR 0x02, CHR 0x00, CHR 0x00, CHR 0x00, CHR 0x00, CHR 0x00, CHR 0x00, CHR 0xBB,
      CHR 0x80, CHR 0x00, CHR 0x00, CHR 0x00, CHR 0x00, CHR 0x00, CHR 0x24, CHR 0x65, CHR 0x73,
      CHR 0x64, CHR 0x73, CHR 0x00, CHR 0x00, CHR 0x00, CHR 0x00, CHR 0x03, CHR 0x16, CHR 0x00,
      CHR 0x00, CHR 0x00, CHR 0x04, CHR 0x11, CHR 0x40, CHR 0x15, CHR 0x00, CHR 0x00, CHR 0x00,
      CHR 0x00, CHR 0x00, CHR 0x00, CHR 0x00, CHR 0x00, CHR 0x00, CHR 0x00, CHR 0x00, CHR 0x05,
      CHR 0x02, CHR 0x11, CHR 0x90, CHR 0x00, CHR 0x00, CHR 0x00, CHR 0x0C, CHR 0x6D, CHR 0x64,
      CHR 0x61, CHR 0x74, CHR 0x00, CHR 0x00, CHR 0x00, CHR 0x00]"

definition m4a_example :: bytes where
  "m4a_example = m4a_example_bytes"

definition m4a_example_metadata :: Metadata where
  "m4a_example_metadata = \<lparr>m_Container = ''m4a'', m_Codec = ''aac'', m_SampleRate = 48000,
     m_Channels = 2, m_Bitrate = 16, m_DurationMS = 2000, m_DataBytes = 4\<rparr>"

lemma m4a_example_length: "length m4a_example = 204"
  by (simp add: m4a_example_def m4a_example_bytes_def)

lemma example_reader:
  "file_reader m4a_example off n = (if 0 \<le> off then take n (drop (nat off) m4a_example_bytes) else [])"
  by (simp add: file_reader_def m4a_example_def)

lemmas example_eval = readISOBox_def readAt_def example_reader m4a_example_bytes_def sub_bytes_def
  be_nat_def Let_def walkISOBoxes_def walk_loop.simps visit_unique_def

lemmas example_numeral =
  descriptor_length.simps(2) [where k = "pred_numeral n" for n, folded numeral_eq_Suc]
  bits_loop.simps(2) [where k = "pred_numeral n" for n, folded numeral_eq_Suc]

lemma example_two: "Suc (Suc 0) AND 127 = 2" "Suc (Suc 0) AND 128 = 0"
  by (simp_all flip: numeral_2_eq_2)

lemma example_asc: "parseAudioSpecificConfig [CHR 0x11, CHR 0x90] = Some (2, 48000, 2)"
  by (simp add: parseAudioSpecificConfig_def readAudioObjectType_def bits_read_def example_numeral
      aacSampleRates_def)

lemma example_stsd:
  "read_sample_description (file_reader m4a_example)
     \<lparr>b_kind = ''stsd'', b_start = 104, b_payloadStart = 112, b_end = 192\<rparr> = Inr (48000, 2)"
  by (simp add: read_sample_description_def example_eval visit_entry_def maxSampleEntries_def
      read_mp4a_entry_def minM4ASampleRate_def maxM4ASampleRate_def maxM4AChannels_def
      validateAACDescriptor_def maxESDSBytes_def readDescriptor_def example_numeral
      validateESDescriptor_def validateAACDecoderConfig_def find_asc.simps
      example_asc example_two supportedAACObjectType_def)

lemma example_track:
  "parseAudioTrack (file_reader m4a_example)
     \<lparr>b_kind = ''moov'', b_start = 16, b_payloadStart = 24, b_end = 192\<rparr>
   = Inr \<lparr>t_timescale = 1000, t_duration = 2000, t_sampleRate = 48000, t_channels = 2\<rparr>"
  by (simp add: parseAudioTrack_def parseTrack_def visit_trak_def parseMedia_def visit_media_def
      readHandlerType_def readMediaDuration_def mask_eq_exp_minus_1 readAudioSampleEntry_def
      example_eval example_stsd)

lemma ProbeM4A_example:
  "ProbeM4A (Some (file_reader m4a_example)) 204 = Inr m4a_example_metadata"
  by (simp add: ProbeM4A_def visit_top_def example_eval validateFileType_def maxBrandBytes_def
      supportedM4ABrand_def mask_eq_exp_minus_1 m4a_example_metadata_def milliseconds_def
      example_track)

subsection \<open>Walking over boxes\<close>

text \<open>
  The induction principle of a walk: an invariant of the callback's state and of the position,
  which every visited box (always inside the walked range) carries from its start to its end.
\<close>

lemma walk_loop_invariant:
  assumes "walk_loop rd off bnd visit st = Inr st'" "off \<le> bnd" "Q (unat off) st"
    and "\<And>b s s'. box_within (unat lo) (unat bnd) b \<Longrightarrow> Q (unat (b_start b)) s \<Longrightarrow> visit b s = Inr s'
      \<Longrightarrow> Q (unat (b_end b)) s'"
    and "lo \<le> off"
  shows "Q (unat bnd) st'"
  using assms
proof (induction rd off bnd visit st rule: walk_loop.induct)
  case (1 rd off bnd visit st)
  show ?case
  proof (cases "off < bnd")
    case False
    with "1.prems" have "off = bnd" "st' = st" by (auto simp: walk_loop.simps [of rd off])
    with "1.prems"(3) show ?thesis by simp
  next
    case True
    with "1.prems"(1) obtain b s where
      b: "readISOBox rd off bnd = Inr b" and s: "visit b st = Inr s" and
      w: "walk_loop rd (b_end b) bnd visit s = Inr st'"
      by (auto simp: walk_loop.simps [of rd off] split: sum.splits)
    note in_b = readISOBox_within [OF b True]
    have box: "box_within (unat lo) (unat bnd) b"
      using in_b "1.prems"(5) by (simp add: box_within_def word_le_nat_alt)
    have "Q (unat (b_end b)) s"
      using "1.prems"(4) [OF box _ s] "1.prems"(3) in_b(1) by simp
    then show ?thesis
      using "1.IH" [OF True b s w] box "1.prems"(4) by (auto simp: box_within_def word_le_nat_alt)
  qed
qed

lemma walk_unique_within:
  assumes "walkISOBoxes rd s e (visit_unique k msg) None = Inr (Some b)"
  shows "box_within (unat s) (unat e) b"
proof -
  have w: "walk_loop rd s e (visit_unique k msg) None = Inr (Some b)" and "s \<le> e"
    using assms by (auto simp: walkISOBoxes_def split: if_splits)
  have "\<forall>b'. Some b = Some b' \<longrightarrow> box_within (unat s) (unat e) b'"
    by (rule walk_loop_invariant [OF w \<open>s \<le> e\<close>,
          where Q = "\<lambda>_ f. \<forall>b'. f = Some b' \<longrightarrow> box_within (unat s) (unat e) b'" and lo = s])
      (auto simp: visit_unique_def split: if_splits)
  then show ?thesis by simp
qed

text \<open>The same for readers that agree inside the walked range.\<close>

lemma readISOBox_same:
  assumes same: "same_within sz rd rd'" and sz: "int (unat bnd) \<le> sz" "sz \<le> max_i64" and off: "off < bnd"
  shows "readISOBox rd off bnd = readISOBox rd' off bnd"
proof (cases "bnd - off < 8")
  case True
  then show ?thesis by (simp add: readISOBox_def)
next
  case False
  have h: "readAt rd 8 (sint off) = readAt rd' 8 (sint off)"
  proof (rule readAt_same_word [OF same _ sz(2)])
    have "unat off + 8 \<le> unat bnd" using unat_add_inside [OF off False] by simp
    then show "int (unat off) + int 8 \<le> sz" using sz(1) by linarith
  qed
  have x: "readAt rd 8 (sint (off + 8)) = readAt rd' 8 (sint (off + 8))" if "\<not> bnd - off < 16"
  proof (rule readAt_same_word [OF same _ sz(2)])
    have "unat (off + 8) = unat off + 8" "unat off + 16 \<le> unat bnd"
      using unat_add_inside [OF off False] unat_add_inside [OF off that] by simp_all
    then show "int (unat (off + 8)) + int 8 \<le> sz" using sz(1) by linarith
  qed
  show ?thesis
    unfolding readISOBox_def h by (simp add: x Let_def split: option.split)
qed

lemma walk_loop_same:
  assumes "same_within sz rd rd'" "int (unat bnd) \<le> sz" "sz \<le> max_i64" "lo \<le> off"
    and "\<And>b s. box_within (unat lo) (unat bnd) b \<Longrightarrow> visit b s = visit' b s"
  shows "walk_loop rd off bnd visit st = walk_loop rd' off bnd visit' st"
  using assms
proof (induction rd off bnd visit st rule: walk_loop.induct)
  case (1 rd off bnd visit st)
  show ?case
  proof (cases "off < bnd")
    case False
    then show ?thesis by (simp add: walk_loop.simps [of _ off])
  next
    case True
    have r: "readISOBox rd off bnd = readISOBox rd' off bnd"
      by (rule readISOBox_same [OF "1.prems"(1-3) True])
    show ?thesis
    proof (cases "readISOBox rd off bnd")
      case (Inl e)
      with True r [symmetric] show ?thesis by (simp add: walk_loop.simps [of _ off])
    next
      case (Inr b)
      note in_b = readISOBox_within [OF Inr True]
      have box: "box_within (unat lo) (unat bnd) b"
        using in_b "1.prems"(4) by (simp add: box_within_def word_le_nat_alt)
      then have "lo \<le> b_end b" by (simp add: box_within_def word_le_nat_alt)
      with "1.IH" [OF True Inr] "1.prems" "1.prems"(5) [OF box, of st] True Inr r [symmetric]
      show ?thesis by (auto simp: walk_loop.simps [of _ off] split: sum.split)
    qed
  qed
qed

lemma walkISOBoxes_same:
  assumes "same_within sz rd rd'" "int (unat bnd) \<le> sz" "sz \<le> max_i64"
    and "\<And>b s. box_within (unat off) (unat bnd) b \<Longrightarrow> visit b s = visit' b s"
  shows "walkISOBoxes rd off bnd visit st = walkISOBoxes rd' off bnd visit' st"
  unfolding walkISOBoxes_def using walk_loop_same [OF assms(1-3) order_refl assms(4)] by simp

text \<open>A field of a box: a range that starts in the box and ends before the box does.\<close>

lemma box_field_same:
  assumes "same_within sz rd rd'" "sz \<le> max_i64" "box_within lo hi b" "int hi \<le> sz"
    and "\<not> b_end b - b_payloadStart b < of_nat n" "n < 256"
  shows "readAt rd n (sint (b_payloadStart b)) = readAt rd' n (sint (b_payloadStart b))"
proof (rule readAt_same_word [OF assms(1) _ assms(2)])
  have le: "b_payloadStart b \<le> b_end b" using assms(3) by (simp add: box_within_def word_le_nat_alt)
  have "n \<le> unat (b_end b) - unat (b_payloadStart b)"
    using assms(5,6) unat_sub_no_wrap [OF le]
    by (simp add: word_less_nat_alt unat_of_nat take_bit_nat_eq_self)
  then show "int (unat (b_payloadStart b)) + int n \<le> sz"
    using assms(3,4) unfolding box_within_def by linarith
qed

lemma box_payload_same:
  assumes "same_within sz rd rd'" "sz \<le> max_i64" "box_within lo hi b" "int hi \<le> sz"
  shows "readAt rd (unat (b_end b - b_payloadStart b)) (sint (b_payloadStart b))
    = readAt rd' (unat (b_end b - b_payloadStart b)) (sint (b_payloadStart b))"
proof (rule readAt_same_word [OF assms(1) _ assms(2)])
  have le: "b_payloadStart b \<le> b_end b" using assms(3) by (simp add: box_within_def word_le_nat_alt)
  show "int (unat (b_payloadStart b)) + int (unat (b_end b - b_payloadStart b)) \<le> sz"
    using assms(3,4) unfolding box_within_def unat_sub_no_wrap [OF le] by linarith
qed


subsection \<open>The parser never reads outside the input\<close>

lemma box_in_file: "box_within lo (unat e) b \<Longrightarrow> int (unat e) \<le> sz \<Longrightarrow> int (unat (b_end b)) \<le> sz"
  unfolding box_within_def by linarith

lemma validateFileType_same:
  assumes "same_within sz rd rd'" "sz \<le> max_i64" "box_within lo hi b" "int hi \<le> sz"
  shows "validateFileType rd b = validateFileType rd' b"
  unfolding validateFileType_def Let_def box_payload_same [OF assms] ..

lemma readHandlerType_same:
  assumes "same_within sz rd rd'" "sz \<le> max_i64" "box_within lo hi b" "int hi \<le> sz"
  shows "readHandlerType rd b = readHandlerType rd' b"
  unfolding readHandlerType_def using box_field_same [OF assms, of 12] by simp

lemma readMediaDuration_same:
  assumes "same_within sz rd rd'" "sz \<le> max_i64" "box_within lo hi b" "int hi \<le> sz"
  shows "readMediaDuration rd b = readMediaDuration rd' b"
proof (cases "b_end b - b_payloadStart b < 20")
  case True
  then show ?thesis by (simp add: readMediaDuration_def)
next
  case False
  have "readAt rd 1 (sint (b_payloadStart b)) = readAt rd' 1 (sint (b_payloadStart b))"
    by (rule box_field_same [OF assms]) (use False in \<open>auto simp: word_less_nat_alt\<close>)
  moreover have "readAt rd 20 (sint (b_payloadStart b)) = readAt rd' 20 (sint (b_payloadStart b))"
    by (rule box_field_same [OF assms]) (use False in auto)
  moreover have "readAt rd 32 (sint (b_payloadStart b)) = readAt rd' 32 (sint (b_payloadStart b))"
    if "\<not> b_end b - b_payloadStart b < 32"
    by (rule box_field_same [OF assms]) (use that in auto)
  ultimately show ?thesis
    by (simp add: readMediaDuration_def Let_def cong: if_cong split: option.split)
qed

lemma validateAACDescriptor_same:
  assumes "same_within sz rd rd'" "sz \<le> max_i64" "int (unat (b_end b)) \<le> sz"
  shows "validateAACDescriptor rd b rate ch = validateAACDescriptor rd' b rate ch"
proof -
  have w: "walkISOBoxes rd (b_start b + 36) (b_end b) (visit_unique k m) None
      = walkISOBoxes rd' (b_start b + 36) (b_end b) (visit_unique k m) None" for k m
    by (rule walkISOBoxes_same [OF assms(1,3,2)]) simp
  show ?thesis
    unfolding validateAACDescriptor_def Let_def w
    using box_payload_same [OF assms(1,2) walk_unique_within assms(3)]
    by (auto split: sum.split option.split)
qed

lemma entry_field_same:
  assumes "same_within sz rd rd'" "sz \<le> max_i64" "box_within lo hi b" "int hi \<le> sz"
    and "\<not> b_end b - b_start b < 36" "k + n \<le> 36"
  shows "readAt rd n (sint (b_start b + of_nat k)) = readAt rd' n (sint (b_start b + of_nat k))"
proof (rule readAt_same_word [OF assms(1) _ assms(2)])
  have le: "b_start b < b_end b" using assms(3) by (simp add: box_within_def word_less_nat_alt)
  have "unat (b_start b) + 36 \<le> unat (b_end b)" using unat_add_inside [OF le assms(5)] by simp
  moreover have "\<not> b_end b - b_start b < of_nat k"
    using assms(5,6) by (simp add: word_less_nat_alt unat_of_nat take_bit_nat_eq_self)
  then have "unat (b_start b + of_nat k) = unat (b_start b) + k"
    using unat_add_inside(1) [OF le] assms(6) by (simp add: unat_of_nat take_bit_nat_eq_self)
  ultimately show "int (unat (b_start b + of_nat k)) + int n \<le> sz"
    using assms(3,4,6) unfolding box_within_def by linarith
qed

lemma read_mp4a_entry_same:
  assumes "same_within sz rd rd'" "sz \<le> max_i64" "box_within lo hi b" "int hi \<le> sz"
  shows "read_mp4a_entry rd b = read_mp4a_entry rd' b"
proof (cases "b_end b - b_start b < 36")
  case True
  then show ?thesis by (simp add: read_mp4a_entry_def)
next
  case False
  have "int (unat (b_end b)) \<le> sz" using assms(3,4) unfolding box_within_def by linarith
  note v = validateAACDescriptor_same [OF assms(1,2) this]
  show ?thesis
    unfolding read_mp4a_entry_def
    using entry_field_same [OF assms False, of 16 2] entry_field_same [OF assms False, of 24 12]
    by (simp add: v Let_def split: option.split)
qed

lemma walk_entry_within:
  assumes "walkISOBoxes rd s e visit_entry (n, None) = Inr (m, Some b)"
  shows "box_within (unat s) (unat e) b"
proof -
  have w: "walk_loop rd s e visit_entry (n, None) = Inr (m, Some b)" and "s \<le> e"
    using assms by (auto simp: walkISOBoxes_def split: if_splits)
  have "\<forall>b'. snd (m, Some b) = Some b' \<longrightarrow> box_within (unat s) (unat e) b'"
    by (rule walk_loop_invariant [OF w \<open>s \<le> e\<close>,
          where Q = "\<lambda>_ f. \<forall>b'. snd f = Some b' \<longrightarrow> box_within (unat s) (unat e) b'" and lo = s])
      (auto simp: visit_entry_def split: if_splits prod.splits)
  then show ?thesis by simp
qed

lemma read_sample_description_same:
  assumes "same_within sz rd rd'" "sz \<le> max_i64" "box_within lo hi b" "int hi \<le> sz"
  shows "read_sample_description rd b = read_sample_description rd' b"
proof (cases "b_end b - b_payloadStart b < 8")
  case True
  then show ?thesis by (simp add: read_sample_description_def)
next
  case False
  have sz: "int (unat (b_end b)) \<le> sz" using assms(3,4) unfolding box_within_def by linarith
  have h: "readAt rd 8 (sint (b_payloadStart b)) = readAt rd' 8 (sint (b_payloadStart b))"
    by (rule box_field_same [OF assms]) (use False in auto)
  have en: "walkISOBoxes rd s (b_end b) visit_entry (0, None) = walkISOBoxes rd' s (b_end b) visit_entry (0, None)"
    for s
    by (rule walkISOBoxes_same [OF assms(1) sz assms(2)]) simp
  show ?thesis
    unfolding read_sample_description_def h en Let_def
    using read_mp4a_entry_same [OF assms(1,2) walk_entry_within sz]
    by (auto split: option.split sum.split prod.split)
qed

lemma unique_case_same:
  assumes "same_within sz rd rd'" "sz \<le> max_i64" "int (unat e) \<le> sz"
    and F: "\<And>b. box_within (unat s) (unat e) b \<Longrightarrow> F b = F' b"
  shows "(case walkISOBoxes rd s e (visit_unique k m) None of
            Inl x \<Rightarrow> Inl x | Inr y \<Rightarrow> (case y of None \<Rightarrow> N | Some b \<Rightarrow> F b))
       = (case walkISOBoxes rd' s e (visit_unique k m) None of
            Inl x \<Rightarrow> Inl x | Inr y \<Rightarrow> (case y of None \<Rightarrow> N | Some b \<Rightarrow> F' b))"
proof -
  have "walkISOBoxes rd s e (visit_unique k m) None = walkISOBoxes rd' s e (visit_unique k m) None"
    by (rule walkISOBoxes_same [OF assms(1,3,2)]) simp
  then show ?thesis
    using F walk_unique_within [of rd' s e k m] by (auto split: sum.split option.split)
qed

lemma readAudioSampleEntry_same:
  assumes "same_within sz rd rd'" "sz \<le> max_i64" "int (unat (b_end b)) \<le> sz"
  shows "readAudioSampleEntry rd b = readAudioSampleEntry rd' b"
  unfolding readAudioSampleEntry_def
proof (rule unique_case_same [OF assms])
  fix t
  assume "box_within (unat (b_payloadStart b)) (unat (b_end b)) t"
  note t = box_in_file [OF this assms(3)]
  show "(case walkISOBoxes rd (b_payloadStart t) (b_end t) (visit_unique ''stsd'' ''duplicate stsd box'') None of
           Inl e \<Rightarrow> Inl e | Inr None \<Rightarrow> badM4A ''audio track is missing a valid stsd box''
         | Inr (Some stsd) \<Rightarrow> read_sample_description rd stsd)
      = (case walkISOBoxes rd' (b_payloadStart t) (b_end t) (visit_unique ''stsd'' ''duplicate stsd box'') None of
           Inl e \<Rightarrow> Inl e | Inr None \<Rightarrow> badM4A ''audio track is missing a valid stsd box''
         | Inr (Some stsd) \<Rightarrow> read_sample_description rd' stsd)"
    by (rule unique_case_same [OF assms(1,2) t]) (rule read_sample_description_same [OF assms(1,2) _ t])
qed

text \<open>The boxes \<^verbatim>\<open>parseMedia\<close> collects all lie inside the media box.\<close>

lemma walk_media_within:
  assumes "walkISOBoxes rd s e visit_media (None, None, None) = Inr (x, y, z)"
  shows "pred_option (box_within (unat s) (unat e)) x \<and> pred_option (box_within (unat s) (unat e)) y
    \<and> pred_option (box_within (unat s) (unat e)) z"
proof -
  let ?in = "pred_option (box_within (unat s) (unat e))"
  have w: "walk_loop rd s e visit_media (None, None, None) = Inr (x, y, z)" and "s \<le> e"
    using assms by (auto simp: walkISOBoxes_def split: if_splits)
  have "(\<lambda>(x, y, z). ?in x \<and> ?in y \<and> ?in z) (x, y, z)"
    by (rule walk_loop_invariant [OF w \<open>s \<le> e\<close>,
          where Q = "\<lambda>_ (x, y, z). ?in x \<and> ?in y \<and> ?in z" and lo = s])
      (auto simp: visit_media_def split: if_splits prod.splits)
  then show ?thesis by simp
qed

lemma parseMedia_same:
  assumes "same_within sz rd rd'" "sz \<le> max_i64" "int (unat (b_end b)) \<le> sz"
  shows "parseMedia rd b = parseMedia rd' b"
proof -
  have "walkISOBoxes rd (b_payloadStart b) (b_end b) visit_media (None, None, None)
      = walkISOBoxes rd' (b_payloadStart b) (b_end b) visit_media (None, None, None)"
    by (rule walkISOBoxes_same [OF assms(1,3,2)]) simp
  then show ?thesis
    unfolding parseMedia_def
    using walk_media_within [of rd' "b_payloadStart b" "b_end b"]
      readHandlerType_same [OF assms(1,2) _ assms(3)] readMediaDuration_same [OF assms(1,2) _ assms(3)]
      readAudioSampleEntry_same [OF assms(1,2) box_in_file [OF _ assms(3)]]
    by (fastforce split: sum.split option.split prod.split)
qed

lemma parseTrack_same:
  assumes "same_within sz rd rd'" "sz \<le> max_i64" "int (unat (b_end b)) \<le> sz"
  shows "parseTrack rd b = parseTrack rd' b"
  unfolding parseTrack_def
  by (intro unique_case_same [OF assms] parseMedia_same [OF assms(1,2)] box_in_file [OF _ assms(3)])

lemma parseAudioTrack_same:
  assumes "same_within sz rd rd'" "sz \<le> max_i64" "int (unat (b_end b)) \<le> sz"
  shows "parseAudioTrack rd b = parseAudioTrack rd' b"
proof -
  have "walkISOBoxes rd (b_payloadStart b) (b_end b) (visit_trak rd) []
      = walkISOBoxes rd' (b_payloadStart b) (b_end b) (visit_trak rd') []"
    by (rule walkISOBoxes_same [OF assms(1,3,2)])
      (simp add: visit_trak_def parseTrack_same [OF assms(1,2) box_in_file [OF _ assms(3)]])
  then show ?thesis by (simp add: parseAudioTrack_def)
qed

text \<open>What the walk over the top-level boxes has found when it reaches a position.\<close>

definition top_found :: "nat \<Rightarrow> nat \<Rightarrow> bool \<times> isoBox option \<times> u64 \<Rightarrow> bool" where
  "top_found hi pos st \<longleftrightarrow> (case st of (_, movie, mediaBytes) \<Rightarrow>
     pred_option (box_within 0 hi) movie \<and> unat mediaBytes \<le> pos)"

lemma visit_top_found:
  assumes "visit_top rd b st = Inr st'" "box_within 0 hi b" "top_found hi (unat (b_start b)) st"
  shows "top_found hi (unat (b_end b)) st'"
proof -
  obtain f m n where st: "st = (f, m, n)" by (cases st)
  have b: "unat (b_start b) \<le> unat (b_end b)" "b_payloadStart b \<le> b_end b"
    "unat (b_start b) \<le> unat (b_payloadStart b)"
    using assms(2) by (simp_all add: box_within_def word_le_nat_alt)
  show ?thesis
  proof (cases "b_kind b = ''mdat''")
    case False
    then show ?thesis
      using assms b by (auto simp: visit_top_def top_found_def st split: if_splits sum.splits)
  next
    case True
    let ?p = "b_end b - b_payloadStart b"
    have st': "st' = (f, m, n + ?p)" "\<not> mask 64 - ?p < n"
      using assms(1) True by (auto simp: visit_top_def st Let_def split: if_splits)
    have "unat (n + ?p) \<le> unat n + unat ?p"
      by (metis unat_word_ariths(1) mod_less_eq_dividend)
    then show ?thesis
      using assms(3) b(1,3) unat_sub_no_wrap [OF b(2)] b(2)
      unfolding top_found_def st st'(1) prod.case word_le_nat_alt by linarith
  qed
qed

lemma walk_top_found:
  assumes "walkISOBoxes rd 0 e (visit_top rd) (False, None, 0) = Inr st"
  shows "top_found (unat e) (unat e) st"
proof -
  have w: "walk_loop rd 0 e (visit_top rd) (False, None, 0) = Inr st"
    using assms by (auto simp: walkISOBoxes_def split: if_splits)
  show ?thesis
  proof (rule walk_loop_invariant [OF w, where lo = 0 and Q = "top_found (unat e)"])
    show "top_found (unat e) (unat (0 :: u64)) (False, None, 0)" by (simp add: top_found_def)
  qed (auto intro: visit_top_found)
qed

lemma walk_top_same:
  assumes "same_within sz rd rd'" "sz \<le> max_i64" "int (unat e) \<le> sz"
  shows "walkISOBoxes rd 0 e (visit_top rd) st = walkISOBoxes rd' 0 e (visit_top rd') st"
proof (rule walkISOBoxes_same [OF assms(1,3,2)])
  fix b s
  assume "box_within (unat (0 :: u64)) (unat e) b"
  from validateFileType_same [OF assms(1,2) this assms(3)]
  show "visit_top rd b s = visit_top rd' b s" by (cases s) (simp add: visit_top_def)
qed

text \<open>
  The M4A parser never reads outside the declared input.  Through all levels of nesting (movie,
  track, media, sample table, sample entry, descriptors) every box it enters lies inside its parent,
  so the result depends only on the first \<open>sz\<close> bytes.
\<close>

theorem ProbeM4A_reads_within:
  assumes "same_within sz rd rd'" "sz \<le> max_i64"
  shows "ProbeM4A (Some rd) sz = ProbeM4A (Some rd') sz"
proof (cases "sz < 8")
  case True
  then show ?thesis by (simp add: ProbeM4A_def)
next
  case False
  have e: "int (unat (of_int sz :: u64)) = sz"
    using False assms(2) by (simp add: max_i64_def uint_word_of_int_eq take_bit_int_eq_self)
  then have le: "int (unat (of_int sz :: u64)) \<le> sz" by simp
  have movie: "parseAudioTrack rd b = parseAudioTrack rd' b"
    if "walkISOBoxes rd' 0 (of_int sz) (visit_top rd') (False, None, 0) = Inr (f, Some b, n)" for f b n
    using walk_top_found [OF that] box_in_file [OF _ le]
    by (intro parseAudioTrack_same [OF assms]) (auto simp: top_found_def)
  show ?thesis
    unfolding ProbeM4A_def option.case walk_top_same [OF assms le]
    using movie by (auto split: sum.split option.split prod.split)
qed

text \<open>Bytes after the declared end of the file do not change the result.\<close>

theorem ProbeM4A_reads_within_witness:
  "ProbeM4A (Some (file_reader (m4a_example @ ''trailing''))) 204 = Inr m4a_example_metadata"
  using ProbeM4A_reads_within [OF file_reader_prefix [of m4a_example "''trailing''"]]
  by (simp add: m4a_example_length ProbeM4A_example max_i64_def)

subsection \<open>The duration in milliseconds\<close>

text \<open>
  As long as the exact quotient \<open>duration * 1000 div timescale\<close> fits 64 bits, \<^verbatim>\<open>milliseconds\<close> returns
  it exactly, and 0 (which the caller rejects) when it does not fit a signed 64-bit integer.
\<close>

theorem milliseconds_value:
  assumes "timescale \<noteq> 0" "unat duration * 1000 div unat timescale < 2 ^ 64"
  shows "milliseconds duration timescale =
    (let q = int (unat duration * 1000 div unat timescale) in if q \<le> max_i64 then q else 0)"
proof -
  let ?d = "unat duration" and ?t = "unat timescale"
  have t: "0 < ?t" "?t < 2 ^ 32" using assms(1) u32_bound [of timescale] by (auto simp: unat_gt_0)
  let ?w = "duration div ucast timescale" and ?r = "duration mod ucast timescale"
  have w: "unat ?w = ?d div ?t" by (simp add: unat_div unat_u32_u64)
  have r: "unat ?r = ?d mod ?t" by (simp add: unat_mod unat_u32_u64)
  have rt: "?d mod ?t < ?t" using t by simp
  have q: "?d * 1000 div ?t = ?d div ?t * 1000 + ?d mod ?t * 1000 div ?t"
  proof -
    have "?t * (?d div ?t * 1000) + ?d mod ?t * 1000 = (?t * (?d div ?t) + ?d mod ?t) * 1000"
      by (simp only: distrib_right mult.assoc)
    also have "\<dots> = ?d * 1000" by (simp only: mult_div_mod_eq)
    finally have "?d * 1000 = ?t * (?d div ?t * 1000) + ?d mod ?t * 1000" by (rule sym)
    then show ?thesis using t by simp
  qed
  have wle: "?d div ?t \<le> 18446744073709551" using assms(2) unfolding q by simp
  have r1000: "unat (?r * 1000) = ?d mod ?t * 1000"
    using rt t(2) by (simp add: unat_word_ariths(2) r)
  have rdiv: "unat (?r * 1000 div ucast timescale) = ?d mod ?t * 1000 div ?t"
    by (simp add: unat_div r1000 unat_u32_u64)
  have w1000: "unat (?w * 1000) = ?d div ?t * 1000"
    using wle by (simp add: unat_word_ariths(2) w)
  have v: "unat (?w * 1000 + ?r * 1000 div ucast timescale) = ?d * 1000 div ?t"
    using assms(2) unfolding q by (simp add: unat_word_ariths(1) w1000 rdiv)
  have g: "\<not> ?w > mask 64 div 1000"
    using wle by (simp add: word_less_nat_alt w mask_eq_exp_minus_1 unat_div)
  have c: "(?w * 1000 + ?r * 1000 div ucast timescale > drop_bit 1 (mask 64 :: u64))
     \<longleftrightarrow> int (?d * 1000 div ?t) > max_i64"
    by (simp add: word_less_nat_alt v max_i64_def mask_eq_exp_minus_1)
  have s: "sint (?w * 1000 + ?r * 1000 div ucast timescale) = int (?d * 1000 div ?t)"
    if "int (?d * 1000 div ?t) \<le> max_i64"
  proof (subst sint_small_u64)
    have "?d * 1000 div ?t < 9223372036854775808" using that unfolding max_i64_def by linarith
    then show "unat (?w * 1000 + ?r * 1000 div ucast timescale) < 9223372036854775808"
      unfolding v .
    show "uint (?w * 1000 + ?r * 1000 div ucast timescale) = int (?d * 1000 div ?t)"
      unfolding v [symmetric] by simp
  qed
  show ?thesis
    unfolding milliseconds_def Let_def using g c s by (simp add: not_less)
qed

theorem milliseconds_value_witness: "milliseconds 2000999 1000 = 2000999"
  using milliseconds_value [of 1000 2000999] by (simp add: max_i64_def)

text \<open>
  Beyond 64 bits the overflow guard of the code is not enough: a quotient just above
  \<open>2 ^ 64\<close> wraps around to a small positive duration instead of 0.
\<close>

lemma milliseconds_wraps: "milliseconds (999 * 18446744073709551 + 998) 999 = 382"
  by (simp add: milliseconds_def Let_def mask_eq_exp_minus_1)


subsection \<open>Soundness of accepted files\<close>

definition track_ok :: "m4aTrack \<Rightarrow> bool" where
  "track_ok t \<longleftrightarrow> t_timescale t \<noteq> 0 \<and> t_duration t \<noteq> 0 \<and> 1000 \<le> unat (t_sampleRate t) \<and>
     unat (t_sampleRate t) \<le> 65535 \<and> unat (t_channels t) \<in> {1, 2, 3, 4, 5, 6, 8}"

lemma readMediaDuration_ok:
  "readMediaDuration rd b = Inr (timescale, duration) \<Longrightarrow> timescale \<noteq> 0 \<and> duration \<noteq> 0"
  by (auto simp: readMediaDuration_def Let_def split: if_splits option.splits)

lemma u32_to_7: "(c :: u32) \<noteq> 0 \<Longrightarrow> \<not> 7 < c \<Longrightarrow> c \<noteq> 7 \<Longrightarrow> unat (ucast c :: u16) \<in> {1, 2, 3, 4, 5, 6}"
proof -
  assume "c \<noteq> 0" "\<not> 7 < c" "c \<noteq> 7"
  then have "unat c \<noteq> 0" "unat c \<le> 7" "unat c \<noteq> 7" by (simp_all add: word_less_nat_alt word_unat_eq_iff)
  moreover from \<open>unat c \<le> 7\<close> have "unat (ucast c :: u16) = unat c"
    by (simp add: unsigned_ucast_eq take_bit_nat_eq_self)
  ultimately show ?thesis by auto
qed

lemma parseAudioSpecificConfig_channels:
  assumes "parseAudioSpecificConfig data = Some (t, rate, ch)"
  shows "unat ch \<in> {1, 2, 3, 4, 5, 6, 8}"
proof -
  obtain c :: u32 where c: "c \<noteq> 0" "\<not> 7 < c" "ch = (if c = 7 then 8 else ucast c)"
    using assms that [of 7] unfolding parseAudioSpecificConfig_def
    by (auto split: option.splits if_splits prod.splits)
  then show ?thesis using u32_to_7 [of c] by (auto split: if_splits)
qed

lemma validateAACDescriptor_channels:
  assumes "validateAACDescriptor rd b rate ch = Inr u"
  shows "unat ch \<in> {1, 2, 3, 4, 5, 6, 8}"
proof -
  obtain p where p: "validateESDescriptor p rate ch = Inr u"
    using assms by (auto simp: validateAACDescriptor_def Let_def split: sum.splits option.splits if_splits)
  obtain q where q: "validateAACDecoderConfig q rate ch = Inr u"
    using p by (auto simp: validateESDescriptor_def Let_def split: sum.splits option.splits if_splits)
  obtain t d where "parseAudioSpecificConfig d = Some (t, rate, ch)"
    using q by (auto simp: validateAACDecoderConfig_def Let_def split: sum.splits option.splits if_splits)
  then show ?thesis by (rule parseAudioSpecificConfig_channels)
qed

lemma readAudioSampleEntry_ok:
  assumes "readAudioSampleEntry rd b = Inr (rate, ch)"
  shows "1000 \<le> unat rate \<and> unat rate \<le> 65535 \<and> unat ch \<in> {1, 2, 3, 4, 5, 6, 8}"
proof -
  obtain e where e: "read_mp4a_entry rd e = Inr (rate, ch)"
    using assms by (auto simp: readAudioSampleEntry_def read_sample_description_def Let_def
        split: sum.splits option.splits if_splits)
  obtain f :: u32 where f: "rate = drop_bit 16 f" "\<not> rate < 1000" "validateAACDescriptor rd e rate ch = Inr ()"
    using e by (auto simp: read_mp4a_entry_def Let_def minM4ASampleRate_def split: sum.splits option.splits if_splits)
  have "unat rate \<le> 65535"
    using u32_bound [of f] by (simp add: f(1) unat_div drop_bit_eq_div less_mult_imp_div_less flip: less_Suc_eq_le)
  then show ?thesis using f(2) validateAACDescriptor_channels [OF f(3)] by (simp add: word_less_nat_alt)
qed

lemma parseTrack_ok: "parseTrack rd b = Inr (Some t) \<Longrightarrow> track_ok t"
  by (auto simp: parseTrack_def parseMedia_def track_ok_def dest!: readMediaDuration_ok readAudioSampleEntry_ok
      split: sum.splits option.splits if_splits prod.splits)

lemma parseAudioTrack_ok:
  assumes "parseAudioTrack rd b = Inr t"
  shows "track_ok t"
proof -
  have w: "walk_loop rd (b_payloadStart b) (b_end b) (visit_trak rd) [] = Inr [t]"
    and le: "b_payloadStart b \<le> b_end b"
    using assms by (auto simp: parseAudioTrack_def walkISOBoxes_def split: sum.splits list.splits if_splits)
  have "list_all track_ok [t]"
    by (rule walk_loop_invariant [OF w le, where Q = "\<lambda>_. list_all track_ok" and lo = "b_payloadStart b"])
      (auto simp: visit_trak_def split: if_splits sum.splits option.splits dest: parseTrack_ok)
  then show ?thesis by simp
qed

definition m4a_metadata_ok :: "int \<Rightarrow> Metadata \<Rightarrow> bool" where
  "m4a_metadata_ok sz md \<longleftrightarrow> m_Container md = ''m4a'' \<and> m_Codec md = ''aac'' \<and>
     1000 \<le> unat (m_SampleRate md) \<and> unat (m_SampleRate md) \<le> 65535 \<and>
     unat (m_Channels md) \<in> {1, 2, 3, 4, 5, 6, 8} \<and>
     0 < m_DataBytes md \<and> m_DataBytes md \<le> sz \<and> 0 < m_DurationMS md \<and> m_DurationMS md \<le> max_i64 \<and>
     int (unat (m_Bitrate md)) = m_DataBytes md * 8000 div m_DurationMS md"

lemma milliseconds_le: "milliseconds d t \<le> max_i64"
proof -
  have "sint x \<le> max_i64" for x :: u64 using sint_lt [of x] by (simp add: max_i64_def)
  then show ?thesis by (simp add: milliseconds_def Let_def max_i64_def)
qed

text \<open>
  C18: every accepted M4A file has sane metadata: container, codec, a sample rate and channel count
  in range, a payload no larger than the file, a positive duration, and a bit rate that is exactly
  \<open>bytes * 8000 div duration\<close>, with no wrap-around on any word.
\<close>

theorem ProbeM4A_sound:
  assumes "ProbeM4A (Some rd) sz = Inr md" "sz \<le> max_i64"
  shows "m4a_metadata_ok sz md"
proof -
  have "\<not> sz < 8" using assms(1) by (auto simp: ProbeM4A_def)
  then have e: "int (unat (of_int sz :: u64)) = sz"
    using assms(2) by (simp add: max_i64_def uint_word_of_int_eq take_bit_int_eq_self)
  let ?ms = "\<lambda>t. milliseconds (t_duration t) (t_timescale t)"
  from assms(1) \<open>\<not> sz < 8\<close> obtain f moov n t where
    w: "walkISOBoxes rd 0 (of_int sz) (visit_top rd) (f, None, 0) = Inr (True, Some moov, n)" "f = False"
    and t: "parseAudioTrack rd moov = Inr t"
    and g: "n \<noteq> 0" "\<not> mask 64 div 8000 < n" "0 < ?ms t"
    and md: "md = \<lparr>m_Container = ''m4a'', m_Codec = ''aac'', m_SampleRate = t_sampleRate t,
                   m_Channels = t_channels t, m_Bitrate = n * 8000 div of_int (?ms t),
                   m_DurationMS = ?ms t, m_DataBytes = sint n\<rparr>"
    by (auto simp: ProbeM4A_def Let_def split: sum.splits option.splits if_splits prod.splits)
  have n: "unat n \<le> 2305843009213693" "0 < unat n"
    using g(1,2) by (auto simp: word_less_nat_alt mask_eq_exp_minus_1 unat_div unat_gt_0)
  have "unat n \<le> unat (of_int sz :: u64)"
    using walk_top_found [OF w(1) [unfolded w(2)]] by (simp add: top_found_def)
  then have nsz: "int (unat n) \<le> sz" using e by linarith
  have sn: "sint n = int (unat n)" using n by (subst sint_small_u64) simp_all
  have ms: "int (unat (of_int (?ms t) :: u64)) = ?ms t"
    using g(3) milliseconds_le [of "t_duration t" "t_timescale t"]
    by (simp add: max_i64_def uint_word_of_int_eq take_bit_int_eq_self)
  have "unat (n * 8000) = unat n * 8000" using n by (simp add: unat_word_ariths(2))
  then have "int (unat (n * 8000 div of_int (?ms t))) = sint n * 8000 div ?ms t"
    using ms sn by (simp add: unat_div zdiv_int)
  moreover have "0 < sint n" "sint n \<le> sz" unfolding sn using n nsz by linarith+
  ultimately show ?thesis
    using parseAudioTrack_ok [OF t] g(3) milliseconds_le [of "t_duration t" "t_timescale t"]
    unfolding m4a_metadata_ok_def md track_ok_def by simp
qed

theorem ProbeM4A_sound_witness: "m4a_metadata_ok 204 m4a_example_metadata"
  using ProbeM4A_sound [OF ProbeM4A_example] by (simp add: max_i64_def)

end
