(* ===== verification/Upload.thy ===== *)
theory Upload
  imports Upload_Repository Storage_Local Audio_M4A
begin

text \<open>
  \<^verbatim>\<open>internal/upload/service.go\<close>: uploads in parts, their completion and what becomes of them.

  The service is written against two interfaces.  The repository is the one of \<open>Upload_Repository\<close>.  The
  store is a record of functions, as the interfaces \<^verbatim>\<open>PartStore\<close> and \<^verbatim>\<open>CompletionStore\<close> are in the code; what
  they promise is the locale \<open>completion_store\<close>, which the local store satisfies.  A call counts the
  interactions with the outside; the environment says what every one of them meets: faults, clocks,
  random bytes and what other requests have done to the database and the store just before.
  An error is the list of the errors that \<^verbatim>\<open>errors.Is\<close> finds in it; an empty list is no error.
\<close>

subsection \<open>The store and the environment\<close>

record 's object_store =
  os_PutPart :: "nat \<Rightarrow> string \<Rightarrow> int \<Rightarrow> bytes \<times> bool \<Rightarrow> PutPartOptions \<Rightarrow> 's \<Rightarrow> 's \<times> (storage_error + stored_part)"
  os_Assemble :: "nat \<Rightarrow> string \<Rightarrow> string \<Rightarrow> PartRef list \<Rightarrow> PutPartOptions \<Rightarrow> 's \<Rightarrow> 's \<times> (storage_error + stored_object)"
  os_Open :: "nat \<Rightarrow> string \<Rightarrow> 's \<Rightarrow> storage_error + bytes"
  os_DeleteParts :: "nat \<Rightarrow> string \<Rightarrow> 's \<Rightarrow> 's \<times> storage_error option"
  os_DeleteObject :: "nat \<Rightarrow> string \<Rightarrow> int \<Rightarrow> string \<Rightarrow> 's \<Rightarrow> 's \<times> storage_error option"

record 's upload_env =
  ue_pg :: "nat \<Rightarrow> job_env"
  ue_others :: "nat \<Rightarrow> upload_db \<times> 's \<Rightarrow> upload_db \<times> 's"
  ue_inner :: "upload_db \<Rightarrow> upload_db"
    \<comment> \<open>what others commit inside a method of the repository\<close>
  ue_now :: "nat \<Rightarrow> go_time"
  ue_random :: "nat \<Rightarrow> bytes option"
  ue_lower :: "string \<Rightarrow> string"
    \<comment> \<open>\<^verbatim>\<open>strings.ToLower\<close> on text that is not ASCII\<close>
  ue_stat_fails :: bool
  ue_read_fails :: "int \<Rightarrow> nat \<Rightarrow> bool"
  ue_close_fails :: bool

type_synonym 'a outcome = "'a option \<times> upload_error list"

definition DefaultPartSize :: int where "DefaultPartSize = 5 * 1024 * 1024"
definition DefaultUploadTTL :: duration where "DefaultUploadTTL = 24 * hour"
definition MaxUploadBytes :: int where "MaxUploadBytes = 512 * 1024 * 1024"

definition ToLower :: "(string \<Rightarrow> string) \<Rightarrow> string \<Rightarrow> string" where
  "ToLower lower s = (if list_all (\<lambda>c. (of_char c :: nat) < 128) s then ascii_lower s else lower s)"

definition normalizeUUID :: "(string \<Rightarrow> string) \<Rightarrow> string \<Rightarrow> string" where
  "normalizeUUID lower v = ToLower lower (trim_space v)"

definition sha256Pattern :: "string \<Rightarrow> bool" where
  "sha256Pattern v \<longleftrightarrow> length v = 64 \<and> list_all is_hex_lower v"

subsection \<open>Parts\<close>

definition part_count :: "int \<Rightarrow> int \<Rightarrow> int" where
  "part_count totalSize partSize = quot (i64 (i64 (totalSize + partSize) - 1)) partSize"

definition expectedPartSize :: "int \<Rightarrow> int \<Rightarrow> int \<Rightarrow> int option" where
  "expectedPartSize totalSize partSize partNumber =
     (if totalSize \<le> 0 \<or> partSize \<le> 0 \<or> partNumber \<le> 0 then None
      else let partCount = part_count totalSize partSize in
      if partNumber > partCount then None
      else if partNumber < partCount then Some partSize
      else Some (i64 (totalSize - i64 ((partCount - 1) * partSize))))"

fun part_refs :: "int \<Rightarrow> int \<Rightarrow> int \<Rightarrow> UploadPart list \<Rightarrow> PartRef list option" where
  "part_refs expected partSize number [] = Some []"
| "part_refs expected partSize number (part # parts) =
     (case expectedPartSize expected partSize number of
        None \<Rightarrow> None
      | Some expectedSize \<Rightarrow>
      if part_Number part \<noteq> number \<or> part_SizeBytes part \<noteq> expectedSize \<or> part_StorageKey part = [] \<or> \<not> sha256Pattern (part_SHA256 part) then
        None
      else map_option (Cons \<lparr>pr_Number = part_Number part, pr_Key = part_StorageKey part, pr_Size = part_SizeBytes part,
             pr_SHA256 = part_SHA256 part\<rparr>) (part_refs expected partSize (number + 1) parts))"

definition completionPartRefs :: "UploadSession \<Rightarrow> UploadPart list \<Rightarrow> PartRef list option" where
  "completionPartRefs session parts =
     (if ses_ExpectedSize session \<le> 0 \<or> ses_PartSize session \<le> 0 then None
      else if int (length parts) \<noteq> part_count (ses_ExpectedSize session) (ses_PartSize session) then None
      else part_refs (ses_ExpectedSize session) (ses_PartSize session) 1 parts)"

subsection \<open>Declarations\<close>

record CreateUploadInput =
  ci_AssetID :: string
  ci_Filename :: string
  ci_MIMEType :: string
  ci_SizeBytes :: int
  ci_SHA256 :: string

definition validDeclaration :: "CreateUploadInput \<Rightarrow> bool" where
  "validDeclaration input \<longleftrightarrow>
     \<not> (\<not> IsUUID (ci_AssetID input) \<or> length (runes (ci_Filename input)) < 1 \<or> length (runes (ci_Filename input)) > 255
        \<or> CHR ''/'' \<in> set (ci_Filename input) \<or> CHR 0x5C \<in> set (ci_Filename input)
        \<or> ci_SizeBytes input < 44 \<or> ci_SizeBytes input > MaxUploadBytes
        \<or> (ci_MIMEType input \<noteq> ''audio/wav'' \<and> ci_MIMEType input \<noteq> ''audio/x-wav'' \<and> ci_MIMEType input \<noteq> ''audio/mp4'')
        \<or> \<not> sha256Pattern (ci_SHA256 input))
     \<and> list_all (\<lambda>r. \<not> is_control r) (runes (ci_Filename input))"

definition upload_idempotency_ok :: "string \<Rightarrow> bool" where
  "upload_idempotency_ok key \<longleftrightarrow> 1 \<le> length key \<and> length key \<le> 200 \<and> list_all (\<lambda>r. \<not> is_control r) (runes key)"

definition upload_request_hash :: "CreateUploadInput \<Rightarrow> string" where
  "upload_request_hash input = hex_encode (Sum256 (ci_AssetID input @ [CHR 0x00] @ ci_Filename input @ [CHR 0x00] @ ci_MIMEType input
     @ [CHR 0x00] @ show_int (ci_SizeBytes input) @ [CHR 0x00] @ ci_SHA256 input))"

definition shouldDeleteParts :: "UploadSession \<Rightarrow> go_time \<Rightarrow> bool" where
  "shouldDeleteParts session now \<longleftrightarrow>
     ses_State session = StateFailed \<or> ses_State session = StateCancelled \<or> ses_State session = StateCompleted
     \<or> (\<not> is_zero_time (ses_ExpiresAt session) \<and> \<not> ses_ExpiresAt session > now)"

definition upload_deleteParts ::
  "'s object_store \<Rightarrow> 's upload_env \<Rightarrow> nat \<Rightarrow> string \<Rightarrow> upload_db \<times> 's \<Rightarrow> (upload_db \<times> 's) \<times> upload_error list" where
  "upload_deleteParts st env k uploadID w0 =
     (case ue_others env k w0 of (db, s) \<Rightarrow>
      case os_DeleteParts st k uploadID s of
        (s1, None) \<Rightarrow> ((db, s1), [])
      | (s1, Some _) \<Rightarrow> ((db, s1), [UploadOther ''delete upload parts: %w'']))"

text \<open>\<^verbatim>\<open>joinCleanupError\<close>.\<close>

definition with_cleanup :: "upload_error \<Rightarrow> (upload_db \<times> 's) \<times> upload_error list \<Rightarrow> (upload_db \<times> 's) \<times> 'a outcome" where
  "with_cleanup cause cleaned = (case cleaned of (w, errs) \<Rightarrow> (w, (None, cause # errs)))"

text \<open>A call of the repository.\<close>

definition upload_call ::
  "'s upload_env \<Rightarrow> nat \<Rightarrow> (job_env \<Rightarrow> upload_db \<Rightarrow> upload_db \<times> 'r) \<Rightarrow> upload_db \<times> 's \<Rightarrow> (upload_db \<times> 's) \<times> 'r" where
  "upload_call env k method w0 =
     (case ue_others env k w0 of (db, s) \<Rightarrow> case method (ue_pg env k) db of (db1, r) \<Rightarrow> ((db1, s), r))"

definition upload_svc_Create ::
  "'s object_store \<Rightarrow> 's upload_env \<Rightarrow> principal \<Rightarrow> CreateUploadInput \<Rightarrow> string \<Rightarrow> upload_db \<times> 's
     \<Rightarrow> (upload_db \<times> 's) \<times> (UploadSession \<times> bool) outcome" where
  "upload_svc_Create st env actor input0 idempotencyKey0 w =
     (if \<not> Can actor ScopeAssetsWrite then (w, (None, [UploadForbidden]))
      else let lower = ue_lower env;
               input = \<lparr>ci_AssetID = normalizeUUID lower (ci_AssetID input0), ci_Filename = trim_space (ci_Filename input0),
                 ci_MIMEType = ToLower lower (trim_space (ci_MIMEType input0)), ci_SizeBytes = ci_SizeBytes input0,
                 ci_SHA256 = ToLower lower (trim_space (ci_SHA256 input0))\<rparr>;
               idempotencyKey = trim_space idempotencyKey0 in
      if \<not> validDeclaration input \<or> \<not> upload_idempotency_ok idempotencyKey then (w, (None, [UploadInvalidInput]))
      else case NewUUIDFrom (ue_random env 0) of
        Inl _ \<Rightarrow> (w, (None, [UploadOther ''generate identifier'']))
      | Inr sessionID \<Rightarrow>
      case NewUUIDFrom (ue_random env 1) of
        Inl _ \<Rightarrow> (w, (None, [UploadOther ''generate identifier'']))
      | Inr auditID \<Rightarrow>
      case upload_call env 0 (\<lambda>pg. upload_Create pg (ue_inner env)
             \<lparr>cu_SessionID = sessionID, cu_AuditID = auditID, cu_WorkspaceID = normalizeUUID lower (p_WorkspaceID actor),
              cu_CreatedBy = normalizeUUID lower (p_UserID actor), cu_AssetID = ci_AssetID input, cu_Filename = ci_Filename input,
              cu_MIMEType = ci_MIMEType input, cu_ExpectedSize = ci_SizeBytes input, cu_ExpectedSHA256 = ci_SHA256 input,
              cu_PartSize = DefaultPartSize, cu_IdempotencyKey = idempotencyKey, cu_RequestHash = upload_request_hash input,
              cu_ExpiresAt = ue_now env 0 + DefaultUploadTTL\<rparr>) w of
        (w1, Inl e) \<Rightarrow> (w1, (None, [e]))
      | (w1, Inr (result, replayed)) \<Rightarrow>
      if replayed \<and> shouldDeleteParts result (ue_now env 1) then
        (case upload_deleteParts st env 1 (normalizeUUID lower (ses_ID result)) w1 of
           (w2, []) \<Rightarrow> (w2, (Some (result, replayed), []))
         | (w2, errs) \<Rightarrow> (w2, (Some (result, True), errs)))
      else (w1, (Some (result, replayed), [])))"

definition upload_svc_Get ::
  "'s object_store \<Rightarrow> 's upload_env \<Rightarrow> principal \<Rightarrow> string \<Rightarrow> upload_db \<times> 's \<Rightarrow> (upload_db \<times> 's) \<times> UploadSession outcome" where
  "upload_svc_Get st env actor uploadID0 w =
     (if \<not> Can actor ScopeAssetsWrite then (w, (None, [UploadForbidden]))
      else let uploadID = normalizeUUID (ue_lower env) uploadID0 in
      if uploadID = [] then (w, (None, [UploadNotFound]))
      else case upload_call env 0 (\<lambda>pg. upload_Get pg (ue_inner env) (normalizeUUID (ue_lower env) (p_WorkspaceID actor)) uploadID) w of
        (w1, Inl e) \<Rightarrow> (w1, (None, [e]))
      | (w1, Inr (session, parts)) \<Rightarrow>
      if shouldDeleteParts session (ue_now env 0) then
        (case upload_deleteParts st env 1 uploadID w1 of
           (w2, []) \<Rightarrow> (w2, (Some (session\<lparr>ses_Parts := parts\<rparr>), []))
         | (w2, errs) \<Rightarrow> (w2, (None, errs)))
      else (w1, (Some (session\<lparr>ses_Parts := parts\<rparr>), [])))"

subsection \<open>PutPart\<close>

definition put_part_error :: "storage_error \<Rightarrow> upload_error" where
  "put_part_error e =
     (case e of
        StChecksumMismatch \<Rightarrow> UploadChecksumMismatch
      | StPartConflict \<Rightarrow> UploadPartConflict
      | StTooLarge \<Rightarrow> UploadPartTooLarge
      | StSizeMismatch \<Rightarrow> UploadInvalidPart
      | StInvalidArgument \<Rightarrow> UploadInvalidPart
      | _ \<Rightarrow> UploadOther ''store upload part: %w'')"

definition upload_svc_PutPart ::
  "'s object_store \<Rightarrow> 's upload_env \<Rightarrow> principal \<Rightarrow> string \<Rightarrow> int \<Rightarrow> string \<Rightarrow> (bytes \<times> bool) option \<Rightarrow> upload_db \<times> 's
     \<Rightarrow> (upload_db \<times> 's) \<times> (UploadPart \<times> bool) outcome" where
  "upload_svc_PutPart st env actor uploadID0 partNumber expectedSHA2560 source w =
     (if \<not> Can actor ScopeAssetsWrite then (w, (None, [UploadForbidden]))
      else let workspaceID = normalizeUUID (ue_lower env) (p_WorkspaceID actor); uploadID = normalizeUUID (ue_lower env) uploadID0;
               expectedSHA256 = ToLower (ue_lower env) (trim_space expectedSHA2560) in
      case source of
        None \<Rightarrow> (w, (None, [UploadInvalidPart]))
      | Some src \<Rightarrow>
      if uploadID = [] \<or> partNumber \<le> 0 \<or> \<not> sha256Pattern expectedSHA256 then (w, (None, [UploadInvalidPart]))
      else case upload_call env 0 (\<lambda>pg. upload_Get pg (ue_inner env) workspaceID uploadID) w of
        (w1, Inl e) \<Rightarrow> (w1, (None, [e]))
      | (w1, Inr (session, _)) \<Rightarrow>
      if ses_State session \<noteq> StateActive then
        (if ses_State session = StateFailed \<or> ses_State session = StateCancelled \<or> ses_State session = StateCompleted then
           with_cleanup UploadStateConflict (upload_deleteParts st env 1 uploadID w1)
         else (w1, (None, [UploadStateConflict])))
      else if \<not> ses_ExpiresAt session > ue_now env 0 then with_cleanup UploadExpired (upload_deleteParts st env 1 uploadID w1)
      else case expectedPartSize (ses_ExpectedSize session) (ses_PartSize session) partNumber of
        None \<Rightarrow> (w1, (None, [UploadInvalidPart]))
      | Some expectedSize \<Rightarrow>
      case ue_others env 1 w1 of (db, s) \<Rightarrow>
      case os_PutPart st 1 uploadID partNumber src
             \<lparr>po_ExpectedSize = expectedSize, po_ExpectedSHA256 = expectedSHA256, po_MaxBytes = expectedSize\<rparr> s of
        (s1, Inl e) \<Rightarrow> ((db, s1), (None, [put_part_error e]))
      | (s1, Inr stored) \<Rightarrow>
      case upload_call env 2 (\<lambda>pg. upload_RecordPart pg \<lparr>rp_WorkspaceID = workspaceID, rp_UploadID = uploadID,
             rp_Part = \<lparr>part_Number = sp_Number stored, part_SizeBytes = sp_Size stored, part_SHA256 = sp_SHA256 stored,
               part_CreatedAt = 0, part_StorageKey = sp_Key stored\<rparr>\<rparr>) (db, s1) of
        (w2, Inl e) \<Rightarrow>
          if e = UploadExpired then with_cleanup UploadExpired (upload_deleteParts st env 3 uploadID w2) else (w2, (None, [e]))
      | (w2, Inr (recorded, replayed)) \<Rightarrow> (w2, (Some (recorded, replayed \<or> sp_Reused stored), [])))"

subsection \<open>Complete\<close>

text \<open>The closure \<^verbatim>\<open>reset\<close>.\<close>

definition upload_reset ::
  "'s upload_env \<Rightarrow> nat \<Rightarrow> string \<Rightarrow> string \<Rightarrow> upload_error list \<Rightarrow> upload_db \<times> 's \<Rightarrow> (upload_db \<times> 's) \<times> 'a outcome" where
  "upload_reset env k workspaceID uploadID cause w =
     (case upload_call env k (\<lambda>pg. upload_ResetToActive pg workspaceID uploadID) w of
        (w1, Inl e) \<Rightarrow> (w1, (None, cause @ [e]))
      | (w1, Inr _) \<Rightarrow> (w1, (None, cause)))"

definition original_of :: "UploadSession \<Rightarrow> stored_object \<Rightarrow> Metadata \<Rightarrow> string \<Rightarrow> OriginalObject" where
  "original_of session object md objectID =
     \<lparr>og_ID = objectID, og_StorageBackend = sj_Backend object, og_StorageKey = sj_Key object, og_MIMEType = ses_MIMEType session,
      og_Container = m_Container md, og_Codec = m_Codec md, og_SampleRate = uint (m_SampleRate md),
      og_ChannelCount = uint (m_Channels md), og_Bitrate = i64 (uint (m_Bitrate md)), og_DurationMS = m_DurationMS md,
      og_FileSize = sj_Size object, og_SHA256 = sj_SHA256 object\<rparr>"

definition complete_finish ::
  "'s object_store \<Rightarrow> 's upload_env \<Rightarrow> string \<Rightarrow> string \<Rightarrow> string \<Rightarrow> UploadSession \<Rightarrow> stored_object \<Rightarrow> Metadata \<Rightarrow> upload_db \<times> 's
     \<Rightarrow> (upload_db \<times> 's) \<times> (UploadSession \<times> bool) outcome" where
  "complete_finish st env workspaceID actorID uploadID session object md w =
     (case NewUUIDFrom (ue_random env 1) of
        Inl _ \<Rightarrow> upload_reset env 6 workspaceID uploadID [UploadOther ''generate identifier''] w
      | Inr objectID \<Rightarrow>
      case NewUUIDFrom (ue_random env 2) of
        Inl _ \<Rightarrow> upload_reset env 6 workspaceID uploadID [UploadOther ''generate identifier''] w
      | Inr auditID \<Rightarrow>
      case NewUUIDFrom (ue_random env 3) of
        Inl _ \<Rightarrow> upload_reset env 6 workspaceID uploadID [UploadOther ''generate identifier''] w
      | Inr waveformJobID \<Rightarrow>
      case upload_call env 4 (\<lambda>pg. upload_Finish pg \<lparr>fi_WorkspaceID = workspaceID, fi_UploadID = uploadID, fi_ActorID = actorID,
             fi_AuditID = auditID, fi_WaveformJobID = waveformJobID, fi_Object = original_of session object md objectID\<rparr>) w of
        (w1, Inl e) \<Rightarrow> upload_reset env 6 workspaceID uploadID [e] w1
      | (w1, Inr completed) \<Rightarrow>
      case upload_deleteParts st env 5 uploadID w1 of (w2, errs) \<Rightarrow> (w2, (Some (completed, sj_Reused object), errs)))"

definition upload_file :: "'s upload_env \<Rightarrow> bytes \<Rightarrow> probe_source" where
  "upload_file env content =
     \<lparr>ps_reader = (\<lambda>off n. if ue_read_fails env off n then [] else file_reader content off n),
      ps_stat = (if ue_stat_fails env then None else Some (True, int (length content)))\<rparr>"

text \<open>The recording is not audio: the object is removed again and the session fails.\<close>

definition complete_unsupported ::
  "'s object_store \<Rightarrow> 's upload_env \<Rightarrow> string \<Rightarrow> string \<Rightarrow> string \<Rightarrow> stored_object \<Rightarrow> upload_db \<times> 's
     \<Rightarrow> (upload_db \<times> 's) \<times> (UploadSession \<times> bool) outcome" where
  "complete_unsupported st env workspaceID actorID uploadID object w =
     (case ue_others env 7 w of (db, s) \<Rightarrow>
      case os_DeleteObject st 7 (sj_Key object) (sj_Size object) (sj_SHA256 object) s of (s1, deleted) \<Rightarrow>
      let cleanupErr = (case deleted of None \<Rightarrow> [] | Some _ \<Rightarrow> [UploadOther ''delete object'']) in
      case NewUUIDFrom (ue_random env 0) of
        Inl _ \<Rightarrow> upload_reset env 6 workspaceID uploadID (UploadOther ''generate identifier'' # cleanupErr) (db, s1)
      | Inr failureAuditID \<Rightarrow>
      case upload_call env 8 (\<lambda>pg. upload_MarkFailed pg \<lparr>fu_WorkspaceID = workspaceID, fu_UploadID = uploadID, fu_ActorID = actorID,
             fu_AuditID = failureAuditID, fu_ErrorCode = ''invalid_audio''\<rparr>) (db, s1) of
        (w1, Inl e) \<Rightarrow> upload_reset env 6 workspaceID uploadID (UploadUnsupportedMedia # cleanupErr @ [e]) w1
      | (w1, Inr _) \<Rightarrow>
      case upload_deleteParts st env 5 uploadID w1 of (w2, errs) \<Rightarrow> (w2, (None, UploadUnsupportedMedia # cleanupErr @ errs)))"

definition complete_probe ::
  "'s object_store \<Rightarrow> 's upload_env \<Rightarrow> string \<Rightarrow> string \<Rightarrow> string \<Rightarrow> UploadSession \<Rightarrow> stored_object \<Rightarrow> upload_db \<times> 's
     \<Rightarrow> (upload_db \<times> 's) \<times> (UploadSession \<times> bool) outcome" where
  "complete_probe st env workspaceID actorID uploadID session object w0 =
     (case ue_others env 3 w0 of (db, s) \<Rightarrow>
      case os_Open st 3 (sj_Key object) s of
        Inl _ \<Rightarrow> upload_reset env 6 workspaceID uploadID [UploadOther ''open assembled audio: %w''] (db, s)
      | Inr content \<Rightarrow>
      case ProbeFile (Some (upload_file env content)) (ses_MIMEType session) of
        Inl (ErrAudio (InvalidWAV _)) \<Rightarrow> complete_unsupported st env workspaceID actorID uploadID object (db, s)
      | Inl (ErrAudio (InvalidM4A _)) \<Rightarrow> complete_unsupported st env workspaceID actorID uploadID object (db, s)
      | Inl _ \<Rightarrow> upload_reset env 6 workspaceID uploadID [UploadOther ''probe assembled audio: %w''] (db, s)
      | Inr md \<Rightarrow>
      if ue_close_fails env then upload_reset env 6 workspaceID uploadID [UploadOther ''close assembled audio: %w''] (db, s)
      else complete_finish st env workspaceID actorID uploadID session object md (db, s))"

definition assemble_error :: "storage_error \<Rightarrow> upload_error" where
  "assemble_error e =
     (case e of
        StChecksumMismatch \<Rightarrow> UploadChecksumMismatch
      | StSizeMismatch \<Rightarrow> UploadIncomplete
      | StPartsOutOfOrder \<Rightarrow> UploadIncomplete
      | StInvalidKey \<Rightarrow> UploadIncomplete
      | _ \<Rightarrow> UploadOther ''assemble original audio: %w'')"

definition complete_assemble ::
  "'s object_store \<Rightarrow> 's upload_env \<Rightarrow> string \<Rightarrow> string \<Rightarrow> string \<Rightarrow> UploadSession \<Rightarrow> PartRef list \<Rightarrow> upload_db \<times> 's
     \<Rightarrow> (upload_db \<times> 's) \<times> (UploadSession \<times> bool) outcome" where
  "complete_assemble st env workspaceID actorID uploadID session refs w0 =
     (case ue_others env 2 w0 of (db, s) \<Rightarrow>
      case os_Assemble st 2 (normalizeUUID (ue_lower env) (ses_AssetID session)) uploadID refs
             \<lparr>po_ExpectedSize = ses_ExpectedSize session, po_ExpectedSHA256 = ses_ExpectedSHA256 session, po_MaxBytes = MaxUploadBytes\<rparr> s of
        (s1, Inl e) \<Rightarrow> upload_reset env 6 workspaceID uploadID [assemble_error e] (db, s1)
      | (s1, Inr object) \<Rightarrow> complete_probe st env workspaceID actorID uploadID session object (db, s1))"

definition upload_svc_Complete ::
  "'s object_store \<Rightarrow> 's upload_env \<Rightarrow> principal \<Rightarrow> string \<Rightarrow> upload_db \<times> 's \<Rightarrow> (upload_db \<times> 's) \<times> (UploadSession \<times> bool) outcome" where
  "upload_svc_Complete st env actor uploadID0 w =
     (if \<not> Can actor ScopeAssetsWrite then (w, (None, [UploadForbidden]))
      else let workspaceID = normalizeUUID (ue_lower env) (p_WorkspaceID actor); actorID = normalizeUUID (ue_lower env) (p_UserID actor);
               uploadID = normalizeUUID (ue_lower env) uploadID0 in
      if uploadID = [] then (w, (None, [UploadInvalidInput]))
      else case upload_call env 0 (\<lambda>pg. upload_Get pg (ue_inner env) workspaceID uploadID) w of
        (w1, Inl e) \<Rightarrow> (w1, (None, [e]))
      | (w1, Inr (session, parts)) \<Rightarrow>
      if ses_State session = StateCompleted then
        (case upload_deleteParts st env 9 uploadID w1 of (w2, errs) \<Rightarrow> (w2, (Some (session, True), errs)))
      else if ses_State session \<noteq> StateActive then
        (if ses_State session = StateFailed \<or> ses_State session = StateCancelled then
           with_cleanup UploadStateConflict (upload_deleteParts st env 9 uploadID w1)
         else (w1, (None, [UploadStateConflict])))
      else if \<not> ses_ExpiresAt session > ue_now env 0 then with_cleanup UploadExpired (upload_deleteParts st env 9 uploadID w1)
      else case completionPartRefs session parts of
        None \<Rightarrow> (w1, (None, [UploadIncomplete]))
      | Some refs \<Rightarrow>
      case upload_call env 1 (\<lambda>pg. upload_MarkAssembling pg (ue_inner env) workspaceID uploadID) w1 of
        (w2, Inl e) \<Rightarrow>
          if e = UploadExpired then with_cleanup UploadExpired (upload_deleteParts st env 9 uploadID w2) else (w2, (None, [e]))
      | (w2, Inr _) \<Rightarrow> complete_assemble st env workspaceID actorID uploadID session refs w2)"

subsection \<open>The local store as the store of the service\<close>

definition local_backend :: "(nat \<Rightarrow> storage_env) \<Rightarrow> fs object_store" where
  "local_backend envs =
     \<lparr>os_PutPart = (\<lambda>k. local_PutPart (envs k)), os_Assemble = (\<lambda>k. local_Assemble (envs k)),
      os_Open = (\<lambda>k. local_Open (envs k)), os_DeleteParts = (\<lambda>k. local_DeleteParts (envs k)),
      os_DeleteObject = (\<lambda>k. local_DeleteObject (envs k))\<rparr>"

subsection \<open>What the service relies on\<close>

text \<open>
  What a store promises: an object it reports as assembled is held under the key of its asset with the
  declared size and checksum; opening a key delivers what is held; deleting the parts of an upload
  leaves the originals alone.
\<close>

locale completion_store =
  fixes st :: "'s object_store" and held :: "'s \<Rightarrow> string \<Rightarrow> bytes option" and key_of :: "string \<Rightarrow> string option" and sound :: "nat \<Rightarrow> bool"
  assumes assembled: "sound k \<Longrightarrow> os_Assemble st k a u parts opts s = (s', Inr object) \<Longrightarrow>
      key_of a = Some (sj_Key object) \<and> sj_Size object = po_ExpectedSize opts \<and> normalizeSHA256 (po_ExpectedSHA256 opts) = Some (sj_SHA256 object)
      \<and> (\<exists>b. held s' (sj_Key object) = Some b \<and> int (length b) = sj_Size object \<and> hashString b = sj_SHA256 object)"
    and opened: "held s p = Some b \<Longrightarrow> os_Open st k p s = Inr c \<Longrightarrow> c = b"
    and parts_deleted: "key_of a = Some p \<Longrightarrow> held s p = Some b \<Longrightarrow> held (fst (os_DeleteParts st k u s)) p = Some b"

text \<open>
  What a request relies on while it runs: other requests keep the tables consistent and let them only
  move forward, and nobody deletes the file under the key \<open>p\<close>.
\<close>

definition fair_others :: "('s \<Rightarrow> string \<Rightarrow> bytes option) \<Rightarrow> string \<Rightarrow> 's upload_env \<Rightarrow> bool" where
  "fair_others held p env \<longleftrightarrow>
     (\<forall>k db s. upload_inv db \<longrightarrow> sound_step db (fst (ue_others env k (db, s)))
        \<and> (\<forall>b. held s p = Some b \<longrightarrow> held (snd (ue_others env k (db, s))) p = Some b))
     \<and> (\<forall>db. upload_inv db \<longrightarrow> sound_step db (ue_inner env db))"

lemma fair_others_step:
  assumes "fair_others held p env" "upload_inv db" "ue_others env k (db, s) = (db', s')"
  shows "sound_step db db'" "upload_inv db'" "held s p = Some b \<Longrightarrow> held s' p = Some b"
proof -
  have "sound_step db (fst (ue_others env k (db, s))) \<and> (\<forall>b. held s p = Some b \<longrightarrow> held (snd (ue_others env k (db, s))) p = Some b)"
    using assms(1,2) by (simp add: fair_others_def)
  then show "sound_step db db'" "upload_inv db'" "held s p = Some b \<Longrightarrow> held s' p = Some b"
    using assms(3) by (simp_all add: sound_step_def)
qed

lemma upload_Get_step:
  assumes "upload_inv db" "\<And>d. upload_inv d \<Longrightarrow> sound_step d (others d)"
  shows "sound_step db (fst (upload_Get env others w u db))"
  using assms sound_step_refl [OF assms(1)] by (auto simp: upload_Get_def Let_def split: sum.split option.split)

lemma upload_call_step:
  assumes "fair_others held p env" "upload_inv db" "\<And>d. upload_inv d \<Longrightarrow> sound_step d (fst (method (ue_pg env k) d))"
    and "upload_call env k method (db, s) = ((db', s'), r)"
  shows "sound_step db db'" "held s p = Some b \<Longrightarrow> held s' p = Some b"
proof -
  obtain d0 s0 where o: "ue_others env k (db, s) = (d0, s0)" by (rule prod.exhaust)
  note f = fair_others_step [OF assms(1,2) o]
  have "db' = fst (method (ue_pg env k) d0)" "s' = s0"
    using assms(4) o by (auto simp: upload_call_def split: prod.splits)
  then show "sound_step db db'" "held s p = Some b \<Longrightarrow> held s' p = Some b"
    using f assms(3) sound_step_trans by auto
qed

text \<open>Where a session is later: same declaration, and an ended one is unchanged.\<close>

lemma later_session:
  assumes "sound_step db db'" "r \<in> set (ud_sessions db)"
  obtains s where "s \<in> set (ud_sessions db')" "kept_upload r s"
  using assms by (auto simp: sound_step_def upload_progress_def)

lemma later_same:
  assumes "sound_step db db'" "r \<in> set (ud_sessions db)" "s \<in> set (ud_sessions db')" "us_id s = us_id r"
  shows "same_upload r s"
proof -
  obtain t where t: "t \<in> set (ud_sessions db')" "kept_upload r t" using later_session [OF assms(1,2)] by blast
  then have "us_id t = us_id s" using assms(4) by (simp add: kept_upload_def same_upload_def)
  then have "t = s" using upload_inv_session t(1) assms(1,3) by (auto simp: sound_step_def)
  with t show ?thesis by (simp add: kept_upload_def)
qed

text \<open>The recording of a session is published: its row, and the file the row names.\<close>

definition published :: "('s \<Rightarrow> string \<Rightarrow> bytes option) \<Rightarrow> 's upload_env \<Rightarrow> session_row \<Rightarrow> string \<Rightarrow> upload_db \<times> 's \<Rightarrow> bool" where
  "published held env r p w \<longleftrightarrow>
     (\<exists>x\<in>set (jd_objects (ud_tables (fst w))). \<exists>b md.
        ob_asset_id x = us_asset_id r \<and> ob_kind x = ''original'' \<and> ob_key x = p
        \<and> ob_size x = us_expected_size r \<and> ob_sha256 x = us_expected_sha256 r
        \<and> held (snd w) p = Some b \<and> int (length b) = us_expected_size r \<and> hashString b = us_expected_sha256 r
        \<and> ProbeFile (Some (upload_file env b)) (us_mime_type r) = Inr md
        \<and> ob_sample_rate x = Some (uint (m_SampleRate md)) \<and> ob_channel_count x = Some (uint (m_Channels md))
        \<and> ob_duration_ms x = Some (m_DurationMS md))"

lemma hash_text_normalized: "hash_text v \<Longrightarrow> normalizeSHA256 v = Some h \<Longrightarrow> h = v"
proof -
  assume v: "hash_text v" "normalizeSHA256 v = Some h"
  then have "h = ascii_lower v" by (auto simp: normalizeSHA256_def split: if_splits)
  also have "\<dots> = v"
    using v(1) by (auto simp: hash_text_def ascii_lower_def list_all_iff intro: map_idI)
  finally show "h = v" .
qed

context completion_store
begin

lemma deleteParts_step:
  assumes "fair_others held p env" "upload_inv db" "key_of a = Some p" "upload_deleteParts st env k u (db, s) = ((db', s'), errs)"
  shows "sound_step db db'" "held s p = Some b \<Longrightarrow> held s' p = Some b"
proof -
  obtain d0 s0 where o: "ue_others env k (db, s) = (d0, s0)" by (rule prod.exhaust)
  note f = fair_others_step [OF assms(1,2) o]
  have e: "db' = d0" "s' = fst (os_DeleteParts st k u s0)"
    using assms(4) o by (auto simp: upload_deleteParts_def split: prod.splits option.splits)
  show "sound_step db db'" using f e by simp
  show "held s' p = Some b" if "held s p = Some b" using parts_deleted [OF assms(3) f(3) [OF that]] e by simp
qed

text \<open>From the probed file to the result.\<close>

lemma complete_finish_publishes:
  assumes fair: "fair_others held p env" and inv: "upload_inv db" and key: "key_of a = Some p"
    and run: "complete_finish st env ws actorID uid session object md (db, s) = ((db', s'), (Some (completed, reused), errs))"
    and object: "sj_Key object = p" "held s p = Some b" "int (length b) = sj_Size object" "hashString b = sj_SHA256 object"
    and probe: "ProbeFile (Some (upload_file env b)) (ses_MIMEType session) = Inr md"
    and earlier: "sound_step db0 db" "r0 \<in> set (ud_sessions db0)" "je_uuid (ue_pg env 4) uid = Some (us_id r0)"
    and session: "ses_MIMEType session = us_mime_type r0" "sj_Size object = us_expected_size r0" "sj_SHA256 object = us_expected_sha256 r0"
  shows "\<exists>r\<in>set (ud_sessions db'). completed = scan_upload r \<and> same_upload r0 r \<and> us_state r = StateCompleted \<and> published held env r p (db', s')"
proof -
  obtain i j k d1 s1 where call: "upload_call env 4 (\<lambda>pg. upload_Finish pg \<lparr>fi_WorkspaceID = ws, fi_UploadID = uid, fi_ActorID = actorID,
             fi_AuditID = j, fi_WaveformJobID = k, fi_Object = original_of session object md i\<rparr>) (db, s) = ((d1, s1), Inr completed)"
      and del: "upload_deleteParts st env 5 uid (d1, s1) = ((db', s'), errs)"
    using run by (auto simp: complete_finish_def upload_reset_def split: sum.splits prod.splits)
  define fp where "fp = \<lparr>fi_WorkspaceID = ws, fi_UploadID = uid, fi_ActorID = actorID, fi_AuditID = j, fi_WaveformJobID = k,
      fi_Object = original_of session object md i\<rparr>"
  have fp: "fi_UploadID fp = uid" "fi_WorkspaceID fp = ws" "fi_Object fp = original_of session object md i" by (simp_all add: fp_def)
  note call = call [folded fp_def]
  obtain d0 s0 where o: "ue_others env 4 (db, s) = (d0, s0)" by (rule prod.exhaust)
  note f = fair_others_step [OF fair inv o]
  have fin: "upload_Finish (ue_pg env 4) fp d0 = (d1, Inr completed)" and s1: "s1 = s0"
    using call o by (auto simp: upload_call_def split: prod.splits)
  from fin show ?thesis
  proof (cases rule: upload_Finish_cases)
    case (stored r t)
    let ?r = "completed_row (ue_pg env 4) r"
    note q = query_session_Some [OF stored(1)]
    have "us_id r = us_id r0" using q(2) fp earlier(3) by simp
    then have same: "same_upload r0 r" using later_same [OF sound_step_trans [OF earlier(1) f(1)] earlier(2) q(1)] by simp
    moreover have "same_upload r ?r" by (simp add: completed_row_def same_upload_def)
    ultimately have same': "same_upload r0 ?r" by (rule same_upload_trans)
    obtain msg au where audit: "upload_audit (ue_pg env 4) msg au (set_session ?r (d0\<lparr>ud_tables := t\<rparr>)) = Inr d1" using stored(4) by blast
    note fr = upload_audit_Inr [OF audit]
    have ids: "us_id ?r = us_id r" by (simp add: completed_row_def)
    have "?r \<in> set (ud_sessions (set_session ?r (d0\<lparr>ud_tables := t\<rparr>)))"
      using q(1) ids by (auto simp: set_session_def image_iff intro!: bexI [of _ r])
    then have mem1: "?r \<in> set (ud_sessions d1)" by (simp add: fr)
    have obj1: "original_row (ue_pg env 4) (us_asset_id r) (fi_Object fp) \<in> set (jd_objects (ud_tables d1))"
      using fr(3) finish_tables_Inr(2) [OF stored(3)] by (simp add: set_session_def)
    have inv1: "upload_inv d1" using upload_Finish_step [OF f(2), of "ue_pg env 4" fp] fin by (simp add: sound_step_def)
    note d = deleteParts_step [OF fair inv1 key del]
    have "\<exists>z\<in>set (ud_sessions db'). kept_upload ?r z" using d(1) mem1 by (auto simp: sound_step_def upload_progress_def)
    then have mem: "?r \<in> set (ud_sessions db')" by (auto simp: kept_upload_def completed_row_def upload_states)
    have obj: "original_row (ue_pg env 4) (us_asset_id r) (fi_Object fp) \<in> set (jd_objects (ud_tables db'))"
      using obj1 d(1) by (auto simp: sound_step_def upload_progress_def)
    have "held s' p = Some b" using f(3) [OF object(2)] d(2) s1 by simp
    then have "published held env ?r p (db', s')"
      unfolding published_def fst_conv snd_conv
      using obj object(1,3,4) probe session same' fp(3)
      by (intro bexI [OF _ obj] exI [of _ b] exI [of _ md]) (auto simp: original_row_def original_of_def same_upload_def completed_row_def)
    moreover have "completed = scan_upload ?r" "us_state ?r = StateCompleted" using stored(5) by (simp_all add: completed_row_def)
    ultimately show ?thesis using mem same' by blast
  qed simp
qed

end

lemma upload_reset_None: "upload_reset env k ws uid cause w \<noteq> (w', (Some x, errs))"
  by (auto simp: upload_reset_def split: prod.splits sum.splits)

lemma complete_unsupported_None: "complete_unsupported st env ws actorID uid object w \<noteq> (w', (Some x, errs))"
  by (auto simp: complete_unsupported_def upload_reset_None Let_def split: prod.splits sum.splits)

lemma with_cleanup_None: "with_cleanup e c \<noteq> (w', (Some x, errs))"
  by (auto simp: with_cleanup_def split: prod.splits)

lemma complete_probe_Some:
  assumes "complete_probe st env ws actorID uid session object w0 = (w', (Some x, errs))"
  obtains db s content md where "ue_others env 3 w0 = (db, s)" "os_Open st 3 (sj_Key object) s = Inr content"
    "ProbeFile (Some (upload_file env content)) (ses_MIMEType session) = Inr md"
    "complete_finish st env ws actorID uid session object md (db, s) = (w', (Some x, errs))"
  using assms
  by (auto simp: complete_probe_def upload_reset_None complete_unsupported_None
      split: prod.splits sum.splits probe_error.splits audio_error.splits if_splits)

text \<open>The run of \<^verbatim>\<open>Complete\<close> up to the store.\<close>

lemma Complete_Some:
  assumes "upload_svc_Complete st env actor uploadID w = (w', (Some (session, reused), errs))"
  obtains (replayed) w1 parts where
      "upload_call env 0 (\<lambda>pg. upload_Get pg (ue_inner env) (normalizeUUID (ue_lower env) (p_WorkspaceID actor)) (normalizeUUID (ue_lower env) uploadID)) w
        = (w1, Inr (session, parts))" "ses_State session = StateCompleted"
      "upload_deleteParts st env 9 (normalizeUUID (ue_lower env) uploadID) w1 = (w', errs)"
  | (fresh) w1 found parts refs w2 db s s1 object where
      "upload_call env 0 (\<lambda>pg. upload_Get pg (ue_inner env) (normalizeUUID (ue_lower env) (p_WorkspaceID actor)) (normalizeUUID (ue_lower env) uploadID)) w
        = (w1, Inr (found, parts))"
      "upload_call env 1 (\<lambda>pg. upload_MarkAssembling pg (ue_inner env) (normalizeUUID (ue_lower env) (p_WorkspaceID actor))
          (normalizeUUID (ue_lower env) uploadID)) w1 = (w2, Inr ())"
      "ue_others env 2 w2 = (db, s)"
      "os_Assemble st 2 (normalizeUUID (ue_lower env) (ses_AssetID found)) (normalizeUUID (ue_lower env) uploadID) refs
         \<lparr>po_ExpectedSize = ses_ExpectedSize found, po_ExpectedSHA256 = ses_ExpectedSHA256 found, po_MaxBytes = MaxUploadBytes\<rparr> s = (s1, Inr object)"
      "complete_probe st env (normalizeUUID (ue_lower env) (p_WorkspaceID actor)) (normalizeUUID (ue_lower env) (p_UserID actor))
         (normalizeUUID (ue_lower env) uploadID) found object (db, s1) = (w', (Some (session, reused), errs))"
  using assms
  by (auto simp: upload_svc_Complete_def Let_def with_cleanup_None complete_assemble_def upload_reset_None
      split: if_splits sum.splits prod.splits option.splits)

lemma upload_Get_Inr:
  assumes "upload_Get env others w u db = (db', Inr (session, parts))"
  obtains r where "r \<in> set (ud_sessions db)" "je_uuid env u = Some (us_id r)" "session = (scan_upload r)\<lparr>ses_Parts := parts\<rparr>" "db' = others db"
  using assms query_session_Some by (auto simp: upload_Get_def Let_def split: sum.splits option.splits if_splits) metis

context completion_store
begin

lemma Complete_publishes:
  assumes fair: "fair_others held p env" and inv: "upload_inv db" and sound: "sound 2"
    and uuid: "\<And>k. je_uuid (ue_pg env k) = uuid"
    and run: "upload_svc_Complete st env actor uploadID (db, s) = ((db', s'), (Some (session, reused), errs))"
    and key: "\<And>r. r \<in> set (ud_sessions (fst (ue_others env 0 (db, s)))) \<Longrightarrow> uuid (normalizeUUID (ue_lower env) uploadID) = Some (us_id r) \<Longrightarrow>
      key_of (normalizeUUID (ue_lower env) (us_asset_id r)) = Some p"
  shows "\<exists>r\<in>set (ud_sessions db'). us_state r = StateCompleted \<and> us_id r = ses_ID session
    \<and> uuid (normalizeUUID (ue_lower env) uploadID) = Some (us_id r)
    \<and> (r \<in> set (ud_sessions (fst (ue_others env 0 (db, s)))) \<or> published held env r p (db', s'))"
proof -
  let ?ws = "normalizeUUID (ue_lower env) (p_WorkspaceID actor)" and ?u = "normalizeUUID (ue_lower env) uploadID"
  obtain d0 s0 where o: "ue_others env 0 (db, s) = (d0, s0)" by (rule prod.exhaust)
  note f0 = fair_others_step [OF fair inv o]
  have inner: "sound_step d (ue_inner env d)" if "upload_inv d" for d using that fair by (simp add: fair_others_def)
  have get: "\<exists>r0\<in>set (ud_sessions d0). uuid ?u = Some (us_id r0) \<and> found = (scan_upload r0)\<lparr>ses_Parts := parts\<rparr>
      \<and> w1 = (ue_inner env d0, s0)"
    if "upload_call env 0 (\<lambda>pg. upload_Get pg (ue_inner env) ?ws ?u) (db, s) = (w1, Inr (found, parts))" for w1 found parts
  proof -
    have "upload_Get (ue_pg env 0) (ue_inner env) ?ws ?u d0 = (fst w1, Inr (found, parts))" "snd w1 = s0"
      using that o by (auto simp: upload_call_def split: prod.splits)
    then obtain r where "r \<in> set (ud_sessions d0)" "uuid ?u = Some (us_id r)" "found = (scan_upload r)\<lparr>ses_Parts := parts\<rparr>"
        "fst w1 = ue_inner env d0" using uuid by (auto elim!: upload_Get_Inr)
    then show ?thesis using \<open>snd w1 = s0\<close> by (intro bexI [of _ r]) (auto simp: prod_eq_iff)
  qed
  have step1: "sound_step d0 (ue_inner env d0)" using inner f0(2) by simp
  show ?thesis
    using run
  proof (cases rule: Complete_Some)
    case (replayed w1 parts)
    obtain r0 where r0: "r0 \<in> set (ud_sessions d0)" "uuid ?u = Some (us_id r0)" "session = (scan_upload r0)\<lparr>ses_Parts := parts\<rparr>"
        "w1 = (ue_inner env d0, s0)" using get [OF replayed(1)] by blast
    have k: "key_of (normalizeUUID (ue_lower env) (us_asset_id r0)) = Some p" using key o r0 by simp
    have "upload_inv (ue_inner env d0)" using step1 by (simp add: sound_step_def)
    from deleteParts_step(1) [OF fair this k replayed(3) [unfolded r0(4)]] have "sound_step d0 db'"
      using step1 sound_step_trans by blast
    then obtain z where z: "z \<in> set (ud_sessions db')" "kept_upload r0 z" using later_session r0(1) by blast
    have st0: "us_state r0 = StateCompleted" using replayed(2) r0(3) by (simp add: scan_upload_def)
    then have "z = r0" using z(2) by (simp add: kept_upload_def upload_states)
    then show ?thesis using z(1) st0 r0 o by (auto simp: scan_upload_def)
  next
    case (fresh w1 found parts refs w2 d s2 s3 object)
    obtain r0 where r0: "r0 \<in> set (ud_sessions d0)" "uuid ?u = Some (us_id r0)" "found = (scan_upload r0)\<lparr>ses_Parts := parts\<rparr>"
        "w1 = (ue_inner env d0, s0)" using get [OF fresh(1)] by blast
    have k: "key_of (normalizeUUID (ue_lower env) (us_asset_id r0)) = Some p" using key o r0 by simp
    have inv1: "upload_inv (ue_inner env d0)" using step1 by (simp add: sound_step_def)
    obtain dw sw where w2: "w2 = (dw, sw)" by (rule prod.exhaust)
    have 2: "sound_step (ue_inner env d0) dw"
      using upload_call_step(1) [OF fair inv1 _ fresh(2) [unfolded r0(4) w2]] upload_MarkAssembling_step inner by blast
    then have invw: "upload_inv dw" by (simp add: sound_step_def)
    note f2 = fair_others_step [OF fair invw fresh(3) [unfolded w2]]
    note as = assembled [OF sound fresh(4)]
    have pk: "sj_Key object = p" using as k r0(3) by (simp add: scan_upload_def)
    obtain b where b: "held s3 p = Some b" "int (length b) = sj_Size object" "hashString b = sj_SHA256 object" using as pk by blast
    have "hash_text (us_expected_sha256 r0)" using upload_invD(3) [OF f0(2) r0(1)] by (simp add: session_checks_def)
    then have sha: "sj_SHA256 object = us_expected_sha256 r0"
      using as r0(3) hash_text_normalized [of "us_expected_sha256 r0" "sj_SHA256 object"] by (simp add: scan_upload_def)
    have sz: "sj_Size object = us_expected_size r0" using as r0(3) by (simp add: scan_upload_def)
    from fresh(5) show ?thesis
    proof (cases rule: complete_probe_Some)
      case (1 d3 s4 content md)
      note f3 = fair_others_step [OF fair f2(2) 1(1)]
      have b4: "held s4 p = Some b" using f3(3) b(1) by simp
      have c: "content = b" using opened [OF b4] 1(2) pk by simp
      have early: "sound_step d0 d3" using sound_step_trans step1 2 f2(1) f3(1) by meson
      have mime: "ses_MIMEType found = us_mime_type r0" using r0(3) by (simp add: scan_upload_def)
      have "\<exists>r\<in>set (ud_sessions db'). session = scan_upload r \<and> same_upload r0 r \<and> us_state r = StateCompleted \<and> published held env r p (db', s')"
        using complete_finish_publishes [OF fair f3(2) k 1(4) pk b4 b(2,3) _ early r0(1) _ mime sz sha] 1(3) c uuid r0(2) by simp
      then show ?thesis using r0(2) by (auto simp: same_upload_def scan_upload_def)
    qed
  qed
qed

end

subsection \<open>The local store keeps the promise\<close>

lemma originals_beside_parts:
  assumes "generatedObjectKey a = Some p" "upload_directory u = Some d"
  shows "\<not> below d p"
proof -
  obtain i j where p: "p = path_Join [''objects'', take 2 (hex_encode (Sum256 i)), hex_encode (Sum256 i), ''original'']"
      and d: "d = path_Join [''parts'', take 2 (hex_encode (Sum256 j)), hex_encode (Sum256 j)]"
    using assms by (auto simp: generatedObjectKey_def upload_directory_def identifierDigest_def split: if_splits)
  have names: "plain_name ''objects''" "plain_name ''original''" "plain_name ''parts''" by (simp_all add: plain_name_def simple_name_def)
  have "p = join_slash [''objects'', take 2 (hex_encode (Sum256 i)), hex_encode (Sum256 i), ''original'']"
    unfolding p using plain_hex [of i] names by (intro plain_path(2)) auto
  moreover have "d = join_slash [''parts'', take 2 (hex_encode (Sum256 j)), hex_encode (Sum256 j)]"
    unfolding d using plain_hex [of j] names by (intro plain_path(2)) auto
  ultimately show ?thesis by (simp add: below_def)
qed

interpretation local_uploads: completion_store "local_backend envs" object_at generatedObjectKey "\<lambda>k. leaves_temporaries (envs k)" for envs
proof
  fix k a u parts opts s s' object
  assume "leaves_temporaries (envs k)" "os_Assemble (local_backend envs) k a u parts opts s = (s', Inr object)"
  then show "generatedObjectKey a = Some (sj_Key object) \<and> sj_Size object = po_ExpectedSize opts
      \<and> normalizeSHA256 (po_ExpectedSHA256 opts) = Some (sj_SHA256 object)
      \<and> (\<exists>b. object_at s' (sj_Key object) = Some b \<and> int (length b) = sj_Size object \<and> hashString b = sj_SHA256 object)"
    using local_Assemble_stored [of "envs k" a u parts opts s s' object] by (simp add: local_backend_def)
next
  fix s p b k c
  assume "object_at s p = Some b" "os_Open (local_backend envs) k p s = Inr c"
  then show "c = b"
    by (auto simp: local_backend_def local_Open_def object_at_Some split: if_splits option.splits fs_node.splits)
next
  fix a p s b k u
  assume "generatedObjectKey a = Some p" "object_at s p = Some b"
  then show "object_at (fst (os_DeleteParts (local_backend envs) k u s)) p = Some b"
    using originals_beside_parts [of a p u] by (auto simp: local_backend_def split: option.split intro!: local_DeleteParts_keeps)
qed

text \<open>
  C4: a completed upload is published.  When \<^verbatim>\<open>Complete\<close> reports a session, with the local store, with
  other requests running in between and with faults of the database and the file system at any point,
  then the session is completed in the database, and either it was already when the request read it, or
  the database has a row for its asset's original with exactly the declared size and checksum, the
  file under the key of the row has that size and checksum, and the probe accepted that file with the
  declared media type and gave the sample rate, channels and duration of the row.  The request relies on
  others only to keep the tables consistent and not to delete the file of this asset.
\<close>

theorem completed_upload_published:
  assumes "fair_others object_at p env" "upload_inv db" "leaves_temporaries (envs 2)" "\<forall>k. je_uuid (ue_pg env k) = uuid"
    and "upload_svc_Complete (local_backend envs) env actor uploadID (db, fs) = ((db', fs'), (Some (session, reused), errs))"
    and "\<forall>r\<in>set (ud_sessions (fst (ue_others env 0 (db, fs)))). uuid (normalizeUUID (ue_lower env) uploadID) = Some (us_id r) \<longrightarrow>
      generatedObjectKey (normalizeUUID (ue_lower env) (us_asset_id r)) = Some p"
  shows "\<exists>r\<in>set (ud_sessions db'). us_state r = StateCompleted \<and> us_id r = ses_ID session
    \<and> uuid (normalizeUUID (ue_lower env) uploadID) = Some (us_id r)
    \<and> (r \<in> set (ud_sessions (fst (ue_others env 0 (db, fs)))) \<or> published object_at env r p (db', fs'))"
  using local_uploads.Complete_publishes [OF assms(1,2) _ _ assms(5), of uuid] assms(3,4,6) by blast

subsection \<open>Parts cover the file\<close>

lemma part_count_div:
  assumes "0 < t" "0 < q" "t + q \<le> max_i64"
  shows "part_count t q = (t + q - 1) div q" "1 \<le> part_count t q" "(part_count t q - 1) * q < t" "t \<le> part_count t q * q"
proof -
  have "i64 (t + q) = t + q" "i64 (t + q - 1) = t + q - 1" using assms by (simp_all add: i64_id min_i64_def max_i64_def)
  then show c: "part_count t q = (t + q - 1) div q" using assms by (simp add: part_count_def quot_def)
  define n where "n = (t + q - 1) div q"
  have e: "t + q - 1 = n * q + (t + q - 1) mod q" by (simp add: n_def div_mult_mod_eq [symmetric])
  have b: "0 \<le> (t + q - 1) mod q" "(t + q - 1) mod q < q" using assms by simp_all
  have "(n - 1) * q < t" "t \<le> n * q" using e b by (simp_all add: left_diff_distrib)
  moreover have "1 \<le> n"
  proof (rule ccontr)
    assume "\<not> 1 \<le> n"
    then have "n * q \<le> 0" using assms by (simp add: mult_le_0_iff)
    then show False using \<open>t \<le> n * q\<close> assms by simp
  qed
  ultimately show "1 \<le> part_count t q" "(part_count t q - 1) * q < t" "t \<le> part_count t q * q" by (simp_all add: c n_def)
qed

lemma expectedPartSize_value:
  assumes "0 < t" "0 < q" "t + q \<le> max_i64"
  shows "expectedPartSize t q n = (if n \<le> 0 \<or> n > part_count t q then None else Some (min q (t - (n - 1) * q)))"
proof -
  note c = part_count_div [OF assms]
  have "0 \<le> (part_count t q - 1) * q" using c(2) assms(2) by simp
  then have w: "i64 ((part_count t q - 1) * q) = (part_count t q - 1) * q" "i64 (t - (part_count t q - 1) * q) = t - (part_count t q - 1) * q"
    using c(3) assms by (simp_all add: i64_id min_i64_def max_i64_def)
  have "q \<le> t - (n - 1) * q" if "n < part_count t q"
  proof -
    have "n * q \<le> (part_count t q - 1) * q" using that assms(2) by (intro mult_right_mono) simp_all
    then show ?thesis using c(3) by (simp add: left_diff_distrib)
  qed
  moreover have "t - (part_count t q - 1) * q \<le> q" using c(4) by (simp add: left_diff_distrib)
  ultimately show ?thesis using assms w by (auto simp: expectedPartSize_def Let_def)
qed

lemma part_refs_sum:
  assumes "0 < t" "0 < q" "t + q \<le> max_i64"
  shows "part_refs t q n parts = Some refs \<Longrightarrow> 1 \<le> n \<Longrightarrow> n + int (length parts) - 1 = part_count t q \<Longrightarrow>
    sum_list (map pr_Size refs) = (if parts = [] then 0 else t - (n - 1) * q) \<and> map pr_Number refs = map int [nat n..<nat n + length parts]"
proof (induction parts arbitrary: n refs)
  case (Cons part parts)
  note c = part_count_div [OF assms]
  obtain rest where r: "refs = \<lparr>pr_Number = n, pr_Key = part_StorageKey part, pr_Size = min q (t - (n - 1) * q), pr_SHA256 = part_SHA256 part\<rparr> # rest"
      "part_refs t q (n + 1) parts = Some rest"
    using Cons.prems(1) by (auto simp: expectedPartSize_value [OF assms] split: if_splits)
  have ih: "sum_list (map pr_Size rest) = (if parts = [] then 0 else t - n * q)" "map pr_Number rest = map int [nat (n + 1)..<nat (n + 1) + length parts]"
    using Cons.IH [OF r(2)] Cons.prems(2,3) by auto
  have "nat (n + 1) = Suc (nat n)" using Cons.prems(2) by simp
  then have "[nat n..<nat n + length (part # parts)] = nat n # [nat (n + 1)..<nat (n + 1) + length parts]"
    by (simp add: upt_conv_Cons del: upt_Suc)
  then have numbers: "map pr_Number refs = map int [nat n..<nat n + length (part # parts)]" using ih(2) r(1) Cons.prems(2) by simp
  have "min q (t - (n - 1) * q) = (if parts = [] then t - (n - 1) * q else q)"
  proof (cases "parts = []")
    case True
    then show ?thesis using c(4) Cons.prems(3) by (simp add: left_diff_distrib)
  next
    case False
    then have "1 \<le> int (length parts)" by (cases parts) simp_all
    then have "n * q \<le> (part_count t q - 1) * q" using Cons.prems(3) assms(2) by (intro mult_right_mono) simp_all
    then show ?thesis using c(3) False by (simp add: left_diff_distrib)
  qed
  then show ?case using numbers ih(1) r(1) by (simp add: left_diff_distrib)
qed simp

text \<open>
  C34: the parts cover the file exactly.  For every file size and part size of the limits, each part
  number from one to the number of parts has a size of at least one byte, every other number is refused,
  and when the parts of a session pass the check of \<^verbatim>\<open>Complete\<close>, they are numbered without gaps and their
  sizes add up to the declared size; nothing overflows.
\<close>

theorem parts_cover_file:
  assumes "0 < t" "0 < q" "t + q \<le> max_i64" "ses_ExpectedSize session = t" "ses_PartSize session = q"
  shows "(\<forall>n. expectedPartSize t q n = (if 1 \<le> n \<and> (n - 1) * q < t then Some (min q (t - (n - 1) * q)) else None))
    \<and> (\<forall>parts refs. completionPartRefs session parts = Some refs \<longrightarrow>
         map pr_Number refs = map int [1..<Suc (length parts)] \<and> sum_list (map pr_Size refs) = t)"
proof (intro conjI allI impI)
  note c = part_count_div [OF assms(1-3)]
  fix n
  have "n \<le> part_count t q" if "(n - 1) * q < t"
  proof (rule ccontr)
    assume "\<not> n \<le> part_count t q"
    then have "part_count t q * q \<le> (n - 1) * q" using assms(2) by (intro mult_right_mono) simp_all
    then show False using c(4) that by simp
  qed
  moreover have "(n - 1) * q < t" if "n \<le> part_count t q"
  proof -
    have "(n - 1) * q \<le> (part_count t q - 1) * q" using assms(2) that by (intro mult_right_mono) simp_all
    then show ?thesis using c(3) by simp
  qed
  ultimately show "expectedPartSize t q n = (if 1 \<le> n \<and> (n - 1) * q < t then Some (min q (t - (n - 1) * q)) else None)"
    by (auto simp: expectedPartSize_value [OF assms(1-3)])
next
  note c = part_count_div [OF assms(1-3)]
  fix parts refs assume r: "completionPartRefs session parts = Some refs"
  then have l: "int (length parts) = part_count t q" "part_refs t q 1 parts = Some refs"
    using assms by (auto simp: completionPartRefs_def split: if_splits)
  then have "parts \<noteq> []" using c(2) by auto
  then show "sum_list (map pr_Size refs) = t" "map pr_Number refs = map int [1..<Suc (length parts)]"
    using part_refs_sum [OF assms(1-3) l(2)] l(1) by simp_all
qed

subsection \<open>Sessions that stay in assembly\<close>

text \<open>Requests one after the other: nobody acts in between, and the database reads identifiers in one way.\<close>

definition alone :: "(string \<Rightarrow> string option) \<Rightarrow> 's upload_env \<Rightarrow> bool" where
  "alone uuid env \<longleftrightarrow> (\<forall>k w. ue_others env k w = w) \<and> (\<forall>d. ue_inner env d = d) \<and> (\<forall>k. je_uuid (ue_pg env k) = uuid)"

datatype 's upload_request =
    ReqCreate "'s upload_env" principal CreateUploadInput string
  | ReqGet "'s upload_env" principal string
  | ReqPutPart "'s upload_env" principal string int string "(bytes \<times> bool) option"
  | ReqComplete "'s upload_env" principal string

fun request_env :: "'s upload_request \<Rightarrow> 's upload_env" where
  "request_env (ReqCreate env _ _ _) = env"
| "request_env (ReqGet env _ _) = env"
| "request_env (ReqPutPart env _ _ _ _ _) = env"
| "request_env (ReqComplete env _ _) = env"

fun run_request :: "'s object_store \<Rightarrow> 's upload_request \<Rightarrow> upload_db \<times> 's \<Rightarrow> upload_db \<times> 's" where
  "run_request st (ReqCreate env actor input key) w = fst (upload_svc_Create st env actor input key w)"
| "run_request st (ReqGet env actor u) w = fst (upload_svc_Get st env actor u w)"
| "run_request st (ReqPutPart env actor u n sha src) w = fst (upload_svc_PutPart st env actor u n sha src w)"
| "run_request st (ReqComplete env actor u) w = fst (upload_svc_Complete st env actor u w)"

text \<open>The session stays where it is, and the tables stay consistent.\<close>

definition holds_session :: "session_row \<Rightarrow> upload_db \<Rightarrow> bool" where
  "holds_session r db \<longleftrightarrow> upload_inv db \<and> r \<in> set (ud_sessions db)"

lemma set_session_other: "us_id row \<noteq> us_id r \<Longrightarrow> r \<in> set (ud_sessions db) \<Longrightarrow> r \<in> set (ud_sessions (set_session row db))"
  by (auto simp: set_session_def image_iff)

lemma holds_stepI: "holds_session r db \<Longrightarrow> sound_step db db' \<Longrightarrow> r \<in> set (ud_sessions db') \<Longrightarrow> holds_session r db'"
  by (simp add: holds_session_def sound_step_def)

lemma upload_audit_sessions: "upload_audit env msg a db = Inr db1 \<Longrightarrow> ud_sessions db1 = ud_sessions db"
  by (rule upload_audit_Inr)

lemma Create_holds:
  assumes "holds_session r db"
  shows "holds_session r (fst (upload_Create env (\<lambda>d. d) p db))"
proof (rule holds_stepI [OF assms])
  show "sound_step db (fst (upload_Create env (\<lambda>d. d) p db))"
    using assms by (intro upload_Create_step) (auto simp: holds_session_def respects_lock_def sound_step_refl)
  have "set (ud_sessions db) \<subseteq> set (ud_sessions (fst (create_session env p asset db)))" for asset
    by (auto simp: create_session_def insert_session_def Let_def upload_commit_def
        split: option.split sum.split if_splits dest!: upload_audit_sessions)
  then show "r \<in> set (ud_sessions (fst (upload_Create env (\<lambda>d. d) p db)))"
    using assms by (auto simp: holds_session_def upload_Create_def split: option.split)
qed

lemma other_session: "query_session env msg w u db = Inr (Some q) \<Longrightarrow> je_uuid env u \<noteq> Some i \<Longrightarrow> us_id q \<noteq> i"
  using query_session_Some by fastforce

lemma RecordPart_holds:
  assumes "holds_session r db" "us_state r \<noteq> StateActive"
  shows "holds_session r (fst (upload_RecordPart env p db))"
proof (rule holds_stepI [OF assms(1)])
  have inv: "upload_inv db" "r \<in> set (ud_sessions db)" using assms by (simp_all add: holds_session_def)
  then show "sound_step db (fst (upload_RecordPart env p db))" by (intro upload_RecordPart_step)
  have "us_id (q\<lparr>us_updated_at := t\<rparr>) \<noteq> us_id r" if "query_session env msg w u db = Inr (Some q)" "us_state q = StateActive" for msg w u q t
    using upload_inv_session [OF inv(1) query_session_Some(1) [OF that(1)] inv(2)] that(2) assms(2) by auto
  moreover have "ud_sessions db1 = ud_sessions db" if "insert_part env row db = Inr (Some db1)" for row db1
    using that by (auto simp: insert_part_def split: if_splits)
  ultimately show "r \<in> set (ud_sessions (fst (upload_RecordPart env p db)))"
    using inv(2) set_session_other
    by (auto simp: upload_RecordPart_def Let_def upload_commit_def split: option.split sum.split)
qed

lemma update_session_other:
  assumes "je_uuid env u \<noteq> Some (us_id r)" "r \<in> set (ud_sessions db)" "\<And>q. us_id (f q) = us_id q"
  shows "r \<in> set (ud_sessions (fst (update_session env msg w u guard f db)))"
proof -
  have "r \<in> set (ud_sessions (set_session (f q) db))" if "session_of env w u db = Some q" for q
    using set_session_other [OF _ assms(2)] session_of_Some(2) [OF that] assms(1,3) by auto
  then show ?thesis using assms(2) by (auto simp: update_session_def Let_def split: option.split)
qed

lemma MarkAssembling_holds:
  assumes "holds_session r db" "je_uuid env u \<noteq> Some (us_id r)"
  shows "holds_session r (fst (upload_MarkAssembling env (\<lambda>d. d) w u db))"
proof (rule holds_stepI [OF assms(1)])
  show "sound_step db (fst (upload_MarkAssembling env (\<lambda>d. d) w u db))"
    using assms by (intro upload_MarkAssembling_step) (simp_all add: holds_session_def sound_step_refl)
  show "r \<in> set (ud_sessions (fst (upload_MarkAssembling env (\<lambda>d. d) w u db)))"
    using update_session_other [OF assms(2), of db "\<lambda>r. r\<lparr>us_state := StateAssembling, us_updated_at := pg_time (je_clock env 1)\<rparr>"
        "''mark upload assembling: %w''" w "\<lambda>r. us_state r = StateActive \<and> us_expires_at r > pg_time (je_clock env 0)"] assms(1)
    by (auto simp: upload_MarkAssembling_def holds_session_def Let_def split: prod.split sum.split bool.split)
qed

lemma ResetToActive_holds:
  assumes "holds_session r db" "je_uuid env u \<noteq> Some (us_id r)"
  shows "holds_session r (fst (upload_ResetToActive env w u db))"
proof (rule holds_stepI [OF assms(1)])
  show "sound_step db (fst (upload_ResetToActive env w u db))"
    using assms by (intro upload_ResetToActive_step) (simp add: holds_session_def)
  show "r \<in> set (ud_sessions (fst (upload_ResetToActive env w u db)))"
    using update_session_other [OF assms(2), of db "\<lambda>r. r\<lparr>us_state := StateActive, us_error_code := None, us_updated_at := pg_time (je_clock env 0)\<rparr>"
        "''reset upload active: %w''" w "\<lambda>r. us_state r = StateAssembling"] assms(1)
    by (auto simp: upload_ResetToActive_def holds_session_def split: prod.split sum.split bool.split)
qed

lemma Finish_holds:
  assumes "holds_session r db" "je_uuid env (fi_UploadID p) \<noteq> Some (us_id r)"
  shows "holds_session r (fst (upload_Finish env p db))"
proof (rule holds_stepI [OF assms(1)])
  show "sound_step db (fst (upload_Finish env p db))" using assms by (intro upload_Finish_step) (simp add: holds_session_def)
  obtain db' res where f: "upload_Finish env p db = (db', res)" by (rule prod.exhaust)
  then show "r \<in> set (ud_sessions (fst (upload_Finish env p db)))"
  proof (cases rule: upload_Finish_cases)
    case (stored q t)
    have "us_id (completed_row env q) \<noteq> us_id r" using other_session [OF stored(1) assms(2)] by (simp add: completed_row_def)
    then show ?thesis
      using set_session_other [of "completed_row env q" r "db\<lparr>ud_tables := t\<rparr>"] stored(4) f assms(1)
      by (auto simp: holds_session_def dest!: upload_audit_sessions)
  qed (use f assms in \<open>simp add: holds_session_def\<close>)
qed

lemma MarkFailed_holds:
  assumes "holds_session r db" "je_uuid env (fu_UploadID p) \<noteq> Some (us_id r)"
  shows "holds_session r (fst (upload_MarkFailed env p db))"
proof (rule holds_stepI [OF assms(1)])
  show "sound_step db (fst (upload_MarkFailed env p db))" using assms by (intro upload_MarkFailed_step) (simp add: holds_session_def)
  obtain db' res where f: "upload_MarkFailed env p db = (db', res)" by (rule prod.exhaust)
  then show "r \<in> set (ud_sessions (fst (upload_MarkFailed env p db)))"
  proof (cases rule: upload_MarkFailed_cases)
    case (failed q)
    have "us_id (failed_row env (fu_ErrorCode p) q) \<noteq> us_id r" using other_session [OF failed(1) assms(2)] by (simp add: failed_row_def)
    then show ?thesis
      using set_session_other [of "failed_row env (fu_ErrorCode p) q" r db] failed(4) f assms(1)
      by (auto simp: holds_session_def dest!: upload_audit_sessions)
  qed (use f assms in \<open>simp add: holds_session_def\<close>)
qed

lemma Get_holds: "holds_session r db \<Longrightarrow> fst (upload_Get env (\<lambda>d. d) w u db) = db"
  by (simp add: upload_Get_def Let_def split: sum.split option.split)

text \<open>One request after the other leaves a session in assembly alone.\<close>

lemma alone_call:
  assumes "alone uuid env" "upload_call env k method (db, s) = ((db', s'), r)"
  shows "method (ue_pg env k) db = (db', r)" "s' = s" "je_uuid (ue_pg env k) = uuid" "ue_inner env = (\<lambda>d. d)"
  using assms by (auto simp: alone_def upload_call_def split: prod.splits)

lemma alone_deleteParts:
  assumes "alone uuid env"
  shows "fst (fst (upload_deleteParts st env k u (db, s))) = db"
  using assms by (auto simp: alone_def upload_deleteParts_def split: prod.split option.split)

lemma with_cleanup_fst [simp]: "fst (with_cleanup e c) = fst c"
  by (simp add: with_cleanup_def split: prod.split)

lemma reset_holds:
  assumes "alone uuid env" "holds_session r db" "uuid u \<noteq> Some (us_id r)"
  shows "holds_session r (fst (fst (upload_reset env k ws u cause (db, s))))"
proof -
  obtain db' s' x where c: "upload_call env k (\<lambda>pg. upload_ResetToActive pg ws u) (db, s) = ((db', s'), x)" by (metis prod.exhaust)
  note a = alone_call [OF assms(1) c]
  have "holds_session r db'" using ResetToActive_holds [OF assms(2), of "ue_pg env k" u ws] a(1,3) assms(3) by simp
  then show ?thesis by (simp add: upload_reset_def c split: sum.split)
qed

lemma complete_finish_holds:
  assumes "alone uuid env" "holds_session r db" "uuid u \<noteq> Some (us_id r)"
  shows "holds_session r (fst (fst (complete_finish st env ws actorID u session object md (db, s))))"
proof -
  note reset = reset_holds [OF assms(1) _ assms(3)]
  have "holds_session r db'"
    if "upload_call env 4 (\<lambda>pg. upload_Finish pg \<lparr>fi_WorkspaceID = ws, fi_UploadID = u, fi_ActorID = actorID, fi_AuditID = j,
      fi_WaveformJobID = k, fi_Object = ob\<rparr>) (db, s) = ((db', s'), x)" for j k ob db' s' x
    using Finish_holds [OF assms(2), of "ue_pg env 4"] alone_call [OF assms(1) that] assms(3)
    by (metis FinishParams.select_convs(2) fst_conv)
  then show ?thesis
    unfolding complete_finish_def
    by (auto simp: reset assms(2) alone_deleteParts [OF assms(1)] split: sum.split prod.split) (metis alone_deleteParts [OF assms(1)] fst_conv)
qed

lemma complete_unsupported_holds:
  assumes "alone uuid env" "holds_session r db" "uuid u \<noteq> Some (us_id r)"
  shows "holds_session r (fst (fst (complete_unsupported st env ws actorID u object (db, s))))"
proof -
  note reset = reset_holds [OF assms(1) _ assms(3)]
  have "holds_session r db'"
    if "upload_call env 8 (\<lambda>pg. upload_MarkFailed pg \<lparr>fu_WorkspaceID = ws, fu_UploadID = u, fu_ActorID = actorID, fu_AuditID = j,
      fu_ErrorCode = c\<rparr>) (db, s1) = ((db', s'), x)" for j c s1 db' s' x
    using MarkFailed_holds [OF assms(2), of "ue_pg env 8"] alone_call [OF assms(1) that] assms(3)
    by (metis FailureParams.select_convs(2) fst_conv)
  moreover have "ue_others env 7 (db, s) = (db, s)" using assms(1) by (simp add: alone_def)
  ultimately show ?thesis
    unfolding complete_unsupported_def Let_def
    by (auto simp: reset assms(2) split: sum.split prod.split) (metis alone_deleteParts [OF assms(1)] fst_conv)
qed

lemma complete_assemble_holds:
  assumes "alone uuid env" "holds_session r db" "uuid u \<noteq> Some (us_id r)"
  shows "holds_session r (fst (fst (complete_assemble st env ws actorID u session refs (db, s))))"
proof -
  have o: "ue_others env k w = w" for k w using assms(1) unfolding alone_def by blast
  note reset = reset_holds [OF assms] and fin = complete_finish_holds [OF assms] and uns = complete_unsupported_holds [OF assms]
  have "holds_session r (fst (fst (complete_probe st env ws actorID u session object (db, s1))))" for object s1
    by (simp add: complete_probe_def o reset fin uns split: sum.split probe_error.split audio_error.split)
  then show ?thesis by (simp add: complete_assemble_def o reset split: sum.split prod.split)
qed

text \<open>A request for the session itself finds it in assembly and stops.\<close>

lemma Get_found:
  assumes "holds_session r db" "upload_Get env (\<lambda>d. d) w u db = (db', Inr (session, parts))"
  shows "db' = db" "je_uuid env u = Some (us_id r) \<Longrightarrow> ses_State session = us_state r"
proof -
  obtain q where q: "q \<in> set (ud_sessions db)" "je_uuid env u = Some (us_id q)" "session = (scan_upload q)\<lparr>ses_Parts := parts\<rparr>" "db' = db"
    using assms(2) by (rule upload_Get_Inr)
  then show "db' = db" by simp
  assume "je_uuid env u = Some (us_id r)"
  then have "q = r" using q upload_inv_session [of db q r] assms(1) by (simp add: holds_session_def)
  then show "ses_State session = us_state r" using q(3) by (simp add: scan_upload_def)
qed

lemma alone_Get:
  assumes "alone uuid env" "holds_session r db" "upload_call env k (\<lambda>pg. upload_Get pg (ue_inner env) ws u) (db, s) = ((db', s'), x)"
  shows "db' = db" "s' = s" "x = Inr (session, parts) \<Longrightarrow> uuid u = Some (us_id r) \<Longrightarrow> ses_State session = us_state r"
proof -
  note a = alone_call [OF assms(1,3)]
  show "db' = db" "s' = s" using a Get_holds [OF assms(2), of "ue_pg env k" ws u] by auto
  show "ses_State session = us_state r" if "x = Inr (session, parts)" "uuid u = Some (us_id r)"
    using Get_found(2) [OF assms(2), of "ue_pg env k" ws u db' session parts] a that by simp
qed

lemma Complete_holds:
  assumes "alone uuid env" "holds_session r db" "us_state r = StateAssembling"
  shows "holds_session r (fst (fst (upload_svc_Complete st env actor u (db, s))))"
proof -
  let ?ws = "normalizeUUID (ue_lower env) (p_WorkspaceID actor)" and ?u = "normalizeUUID (ue_lower env) u"
  obtain db1 s1 x where g: "upload_call env 0 (\<lambda>pg. upload_Get pg (ue_inner env) ?ws ?u) (db, s) = ((db1, s1), x)" by (metis prod.exhaust)
  note get = alone_Get [OF assms(1,2) g]
  obtain db2 s2 y where m: "upload_call env 1 (\<lambda>pg. upload_MarkAssembling pg (ue_inner env) ?ws ?u) (db, s) = ((db2, s2), y)" by (metis prod.exhaust)
  note am = alone_call [OF assms(1) m]
  have mark: "holds_session r db2" if "uuid ?u \<noteq> Some (us_id r)"
    using MarkAssembling_holds [OF assms(2), of "ue_pg env 1" ?u ?ws] am that by simp
  have asm: "holds_session r (fst (fst (complete_assemble st env ?ws a ?u session refs (db2, s2))))" if "uuid ?u \<noteq> Some (us_id r)" for a session refs
    using complete_assemble_holds [OF assms(1) mark [OF that] that] .
  have del: "fst (fst (upload_deleteParts st env k ?u (d, t))) = d" for k d t by (rule alone_deleteParts [OF assms(1)])
  have st: "StateAssembling \<notin> {StateCompleted, StateActive, StateFailed, StateCancelled}" by (simp add: upload_states)
  show ?thesis
  proof (cases "uuid ?u = Some (us_id r)")
    case True
    then show ?thesis
      using get(3) assms(2,3) st
      by (cases x) (auto simp: upload_svc_Complete_def Let_def g get(1,2) split: prod.split)
  next
    case False
    then show ?thesis
      using assms(2) mark asm
      by (cases x; cases y) (simp_all add: upload_svc_Complete_def Let_def g get(1,2) m [unfolded One_nat_def] del case_prod_beta split: option.split)
  qed
qed

lemma PutPart_holds:
  assumes "alone uuid env" "holds_session r db" "us_state r = StateAssembling"
  shows "holds_session r (fst (fst (upload_svc_PutPart st env actor u n sha src (db, s))))"
proof -
  let ?ws = "normalizeUUID (ue_lower env) (p_WorkspaceID actor)" and ?u = "normalizeUUID (ue_lower env) u"
  obtain db1 s1 x where g: "upload_call env 0 (\<lambda>pg. upload_Get pg (ue_inner env) ?ws ?u) (db, s) = ((db1, s1), x)" by (metis prod.exhaust)
  note get = alone_Get [OF assms(1,2) g]
  have o: "ue_others env k w = w" for k w using assms(1) unfolding alone_def by blast
  have del: "fst (fst (upload_deleteParts st env k ?u (d, t))) = d" for k d t by (rule alone_deleteParts [OF assms(1)])
  have rec: "holds_session r d" if "upload_call env 2 (\<lambda>pg. upload_RecordPart pg p) (db, t) = ((d, t'), y)" for p d t t' y
    using RecordPart_holds [OF assms(2), of "ue_pg env 2" p] alone_call(1) [OF assms(1) that] assms(3) by (simp add: upload_states)
  have rec: "holds_session r (fst (fst (upload_call env 2 (\<lambda>pg. upload_RecordPart pg p) (db, t))))" for p t
    using rec by (metis prod.collapse)
  have "fst (fst (upload_deleteParts st env k ?u w)) = fst w" for k w using del by (metis prod.collapse)
  then show ?thesis
    using assms(2) rec
    by (cases x) (simp_all add: upload_svc_PutPart_def Let_def g get(1,2) o case_prod_beta split: option.split sum.split)
qed

lemma run_request_holds:
  assumes "alone uuid (request_env req)" "holds_session r db" "us_state r = StateAssembling"
  shows "holds_session r (fst (run_request st req (db, s)))"
proof (cases req)
  case (ReqCreate env actor input key)
  with assms(1) have al: "alone uuid env" by simp
  have "holds_session r (fst (fst (upload_call env 0 (\<lambda>pg. upload_Create pg (ue_inner env) p) (db, s))))" for p
    using Create_holds [OF assms(2), of "ue_pg env 0" p] al by (simp add: upload_call_def alone_def case_prod_beta)
      (metis (no_types) ext)
  moreover have "fst (fst (upload_deleteParts st env k v w)) = fst w" for k v w using alone_deleteParts [OF al] by (metis prod.collapse)
  ultimately show ?thesis
    using assms(2) unfolding ReqCreate run_request.simps upload_svc_Create_def Let_def
    by (simp add: case_prod_beta split: sum.split list.split)
next
  case (ReqGet env actor u)
  with assms(1) have al: "alone uuid env" by simp
  obtain db1 s1 x where g: "upload_call env 0 (\<lambda>pg. upload_Get pg (ue_inner env) (normalizeUUID (ue_lower env) (p_WorkspaceID actor))
      (normalizeUUID (ue_lower env) u)) (db, s) = ((db1, s1), x)" by (metis prod.exhaust)
  have "fst (fst (upload_deleteParts st env k v w)) = fst w" for k v w using alone_deleteParts [OF al] by (metis prod.collapse)
  then show ?thesis
    using assms(2) alone_Get(1,2) [OF al assms(2) g] unfolding ReqGet run_request.simps upload_svc_Get_def Let_def g
    by (simp add: case_prod_beta split: sum.split list.split)
qed (use assms in \<open>simp_all add: PutPart_holds Complete_holds\<close>)

text \<open>
  C35: a session that is left in assembly is never released.  Only the request that put it there can take
  it out again.  If that request ends without doing so, because the process stops or the compensating
  statement fails, then no later sequence of requests changes the session, and no other session of the
  asset is ever opened: the asset can never be uploaded.
\<close>

theorem assembling_session_stuck:
  assumes "upload_inv db" "r \<in> set (ud_sessions db)" "us_state r = StateAssembling"
    and "\<forall>req\<in>set reqs. alone uuid (request_env req)" "fold (run_request st) reqs (db, s) = (db', s')"
  shows "r \<in> set (ud_sessions db')
    \<and> (\<forall>q\<in>set (ud_sessions db'). us_asset_id q = us_asset_id r \<and> us_workspace_id q = us_workspace_id r \<and> open_upload q \<longrightarrow> q = r)"
proof -
  have "holds_session r (fst (fold (run_request st) reqs (db, s)))"
    if "holds_session r db" for db s
    using that assms(4)
  proof (induction reqs arbitrary: db s)
    case (Cons req reqs)
    then have "holds_session r (fst (run_request st req (db, s)))" using run_request_holds [of uuid req r db st s] assms(3) by simp
    then show ?case using Cons by (cases "run_request st req (db, s)") simp
  qed simp
  then have h: "upload_inv db'" "r \<in> set (ud_sessions db')"
    using assms(1,2,5) by (metis fst_conv holds_session_def)+
  have "q = r" if "q \<in> set (ud_sessions db')" "us_asset_id q = us_asset_id r" "us_workspace_id q = us_workspace_id r" "open_upload q" for q
    using upload_invD(5) [OF h(1) that(1) h(2) that(2-4)] upload_inv_session [OF h(1) that(1) h(2)] assms(3) by (simp add: open_upload_def)
  with h(2) show ?thesis by blast
qed

subsection \<open>Samples\<close>

definition sample_wav :: bytes where
  "sample_wav = wav_file 1 1 8000 8 ''abc''"

lemma sample_wav_length: "length sample_wav = 48"
  by (simp add: sample_wav_def wav_file_def)

definition sample_metadata :: Metadata where
  "sample_metadata = \<lparr>m_Container = ''wav'', m_Codec = ''pcm_u8'', m_SampleRate = 8000, m_Channels = 1, m_Bitrate = 64000,
     m_DurationMS = 0, m_DataBytes = 3\<rparr>"

definition sample_env :: "fs upload_env" where
  "sample_env = \<lparr>ue_pg = \<lambda>_. sample_upload_env, ue_others = \<lambda>_ w. w, ue_inner = \<lambda>d. d, ue_now = \<lambda>_. 6000,
     ue_random = \<lambda>_. Some (replicate 16 CHR ''a''), ue_lower = \<lambda>s. s, ue_stat_fails = False, ue_read_fails = \<lambda>_ _. False, ue_close_fails = False\<rparr>"

lemma sample_probe: "ProbeFile (Some (upload_file sample_env sample_wav)) ''audio/wav'' = Inr sample_metadata"
proof -
  have "ProbeWAV (Some (file_reader sample_wav)) (int (length sample_wav)) = Inr sample_metadata"
    using ProbeWAV_wav_file [of 1 8 "''pcm_u8''" 1 8000 "''abc''"]
    by (simp add: wavCodec_def sample_wav_def sample_metadata_def)
  then show ?thesis by (simp add: ProbeFile_def ProbeWAVFile_def upload_file_def sample_env_def)
qed

definition sample_active :: session_row where
  "sample_active = sample_session\<lparr>us_expected_size := 48, us_expected_sha256 := hashString sample_wav\<rparr>"

definition sample_part :: part_row where
  "sample_part = \<lparr>pt_session_id = ''s'', pt_number = 1, pt_storage_key = the (generatedPartKey ''s'' 1), pt_size = 48,
     pt_sha256 = hashString sample_wav, pt_created_at = 5000\<rparr>"

definition sample_upload_db :: upload_db where
  "sample_upload_db = \<lparr>ud_tables = sample_tables, ud_sessions = [sample_active], ud_parts = [sample_part]\<rparr>"

lemma hashString_text: "hash_text (hashString b)" "sha256Pattern (hashString b)"
  using hex_encode_lower [of "Sum256 b"] by (simp_all add: hash_text_def sha256Pattern_def hashString_def Sum256_length)

lemma sample_part_key: obtains key where "generatedPartKey ''s'' 1 = Some key" "pg_text key" "key \<noteq> []"
proof -
  let ?d = "hex_encode (Sum256 ''s'')"
  have t: "trim_space ''s'' = ''s''" by (rule trim_ascii) (simp add: is_space_def)
  have names: "plain_name ''parts''" "plain_name ''1.part''" by (simp_all add: plain_name_def simple_name_def)
  have one: "show_int 1 = ''1''" by code_simp
  have key: "generatedPartKey ''s'' 1 = Some (join_slash [''parts'', take 2 ?d, ?d, ''1.part''])"
    unfolding generatedPartKey_def identifierDigest_def t using plain_hex [of "''s''"] names one
    by (simp add: plain_path(2))
  have "list_all (\<lambda>c. (of_char c :: nat) < 128 \<and> (of_char c :: nat) \<noteq> 0) ?d"
    using hex_encode_lower [of "Sum256 ''s''"] by (auto simp: list_all_iff is_hex_lower_def is_digit_def)
  then have "list_all (\<lambda>c. (of_char c :: nat) < 128 \<and> (of_char c :: nat) \<noteq> 0) (join_slash [''parts'', take 2 ?d, ?d, ''1.part''])"
    by (auto simp: list_all_iff dest: in_set_takeD)
  then show thesis using key that by (simp add: ascii_pg_text)
qed

lemma sample_upload_inv: "upload_inv sample_upload_db"
proof -
  obtain key where key: "generatedPartKey ''s'' 1 = Some key" "pg_text key" by (rule sample_part_key)
  have "us_state sample_session = StateActive" "us_expected_size sample_session \<ge> 44"
    by (simp_all add: sample_session_def new_session_def sample_upload_env_def sample_create_def)
  then have "session_checks sample_active"
    using sample_session_checks hashString_text(1) [of sample_wav] by (simp add: session_checks_def sample_active_def upload_states opt_check_def)
  moreover have "us_state sample_active = StateActive" "us_id sample_active = ''s''"
    by (simp_all add: sample_active_def sample_session_def new_session_def sample_upload_env_def sample_create_def)
  moreover have "part_checks sample_part" using key hashString_text(1) [of sample_wav] by (simp add: part_checks_def sample_part_def)
  ultimately show ?thesis
    by (simp add: upload_inv_def sample_upload_db_def sample_part_def upload_states)
qed

definition sample_actor :: principal where
  "sample_actor = \<lparr>p_UserID = ''u'', p_WorkspaceID = ''w'', p_Role = ''owner'', p_Email = [], p_Scopes = [ScopeAssetsWrite],
     p_CredentialType = [], p_CredentialID = []\<rparr>"

definition sample_assembling :: session_row where
  "sample_assembling = sample_active\<lparr>us_state := StateAssembling, us_updated_at := 5000\<rparr>"

abbreviation sample_backend :: "fs object_store" where
  "sample_backend \<equiv> local_backend (\<lambda>_. sample_storage_env)"

theorem assembling_session_stuck_witness:
  "sample_assembling \<in> set (ud_sessions (fst (fold (run_request sample_backend) [ReqComplete sample_env sample_actor ''s'', ReqComplete sample_env sample_actor ''s'']
      (set_session sample_assembling sample_upload_db, sample_fs sample_wav))))"
proof -
  have ids: "us_id sample_assembling = us_id sample_active" by (simp add: sample_assembling_def)
  have "sound_step sample_upload_db (set_session sample_assembling sample_upload_db)"
  proof (rule session_step [OF sample_upload_inv])
    show "sample_active \<in> set (ud_sessions sample_upload_db)" by (simp add: sample_upload_db_def)
    have "session_checks sample_active" "us_state sample_active = StateActive"
      using upload_invD(3) [OF sample_upload_inv, of sample_active]
      by (simp_all add: sample_upload_db_def sample_active_def sample_session_def new_session_def sample_upload_env_def sample_create_def)
    then show "upload_step sample_active sample_assembling" "session_checks sample_assembling"
      by (simp_all add: sample_assembling_def upload_step_def same_upload_def session_checks_def upload_states opt_check_def)
  qed (simp add: sample_assembling_def upload_states)
  then have inv: "upload_inv (set_session sample_assembling sample_upload_db)" by (simp add: sound_step_def)
  have mem: "sample_assembling \<in> set (ud_sessions (set_session sample_assembling sample_upload_db))"
    using ids by (simp add: set_session_def sample_upload_db_def)
  have al: "alone Some sample_env" by (simp add: alone_def sample_env_def sample_upload_env_def)
  show ?thesis
    using assembling_session_stuck [OF inv mem, of "[ReqComplete sample_env sample_actor ''s'', ReqComplete sample_env sample_actor ''s'']" Some sample_backend
        "sample_fs sample_wav"] al
    by (simp add: sample_assembling_def del: fold_simps run_request.simps) (metis prod.collapse)
qed

lemma sample_refs: "completionPartRefs (scan_upload sample_active) [scan_part sample_part]
    = Some [\<lparr>pr_Number = 1, pr_Key = pt_storage_key sample_part, pr_Size = 48, pr_SHA256 = hashString sample_wav\<rparr>]"
proof -
  obtain key where key: "generatedPartKey ''s'' 1 = Some key" "key \<noteq> []" by (rule sample_part_key)
  have count: "part_count 48 65536 = 1" using part_count_div(1) [of 48 65536] by (simp add: max_i64_def)
  then have size: "expectedPartSize 48 65536 1 = Some 48" using expectedPartSize_value [of 48 65536 1] by (simp add: max_i64_def)
  have "ses_ExpectedSize (scan_upload sample_active) = 48" "ses_PartSize (scan_upload sample_active) = 65536"
    by (simp_all add: scan_upload_def sample_active_def sample_session_def new_session_def sample_upload_env_def sample_create_def)
  then show ?thesis
    using key hashString_text(2) [of sample_wav]
    by (simp add: completionPartRefs_def count size scan_part_def sample_part_def)
qed

theorem parts_cover_file_witness:
  "\<exists>refs. completionPartRefs (scan_upload sample_active) [scan_part sample_part] = Some refs \<and> sum_list (map pr_Size refs) = 48"
proof -
  have "ses_ExpectedSize (scan_upload sample_active) = 48" "ses_PartSize (scan_upload sample_active) = 65536"
    by (simp_all add: scan_upload_def sample_active_def sample_session_def new_session_def sample_upload_env_def sample_create_def)
  then show ?thesis using parts_cover_file [of 48 65536 "scan_upload sample_active"] sample_refs by (auto simp: max_i64_def)
qed

lemma sample_env_simps [simp]:
  "ue_others sample_env k w = w" "ue_pg sample_env k = sample_upload_env" "ue_inner sample_env = (\<lambda>d. d)" "ue_now sample_env k = 6000"
  "ue_random sample_env k = Some (replicate 16 CHR ''a'')" "ue_lower sample_env = (\<lambda>s. s)" "\<not> ue_close_fails sample_env"
  "\<not> je_fails sample_upload_env i m" "je_uuid sample_upload_env = Some" "je_clock sample_upload_env i = 5000" "\<not> je_commit_lost sample_upload_env"
  by (simp_all add: sample_env_def sample_upload_env_def)

lemma sample_row [simp]:
  "us_id sample_active = ''s''" "us_asset_id sample_active = ''a''" "us_workspace_id sample_active = ''w''" "us_created_by sample_active = ''u''"
  "us_state sample_active = StateActive" "us_expires_at sample_active = pg_time 900000" "us_expected_size sample_active = 48"
  "us_expected_sha256 sample_active = hashString sample_wav" "us_mime_type sample_active = ''audio/wav''"
  by (simp_all add: sample_active_def sample_session_def new_session_def sample_upload_env_def sample_create_def)

lemma sample_normal:
  "normalizeUUID (\<lambda>s. s) ''a'' = ''a''" "normalizeUUID (\<lambda>s. s) ''s'' = ''s''" "normalizeUUID (\<lambda>s. s) ''w'' = ''w''"
  "normalizeUUID (\<lambda>s. s) ''u'' = ''u''"
  by (simp_all add: normalizeUUID_def trim_ascii is_space_def ToLower_def ascii_lower_def ascii_lower_char_def is_upper_def)

lemma sample_Get: "upload_Get sample_upload_env (\<lambda>d. d) ''w'' ''s'' sample_upload_db
    = (sample_upload_db, Inr ((scan_upload sample_active)\<lparr>ses_Parts := [scan_part sample_part]\<rparr>, [scan_part sample_part]))"
  by (simp add: upload_Get_def query_session_def session_of_def sample_upload_db_def Let_def sample_part_def)

lemma sample_Mark: "upload_MarkAssembling sample_upload_env (\<lambda>d. d) ''w'' ''s'' sample_upload_db
    = (set_session sample_assembling sample_upload_db, Inr ())"
  by (simp add: upload_MarkAssembling_def update_session_def session_of_def sample_upload_db_def sample_assembling_def pg_time_def microsecond_def)

definition sample_uuid :: string where
  "sample_uuid = (case NewUUIDFrom (Some (replicate 16 CHR ''a'')) of Inr v \<Rightarrow> v)"

lemma sample_uuid: "NewUUIDFrom (Some (replicate 16 CHR ''a'')) = Inr sample_uuid"
  by (simp add: sample_uuid_def NewUUIDFrom_def Let_def)

definition sample_object :: stored_object where
  "sample_object = \<lparr>sj_Backend = ''local'', sj_Key = sample_original, sj_Size = 48, sj_SHA256 = hashString sample_wav, sj_Reused = True\<rparr>"

definition sample_finish :: FinishParams where
  "sample_finish = \<lparr>fi_WorkspaceID = ''w'', fi_UploadID = ''s'', fi_ActorID = ''u'', fi_AuditID = sample_uuid, fi_WaveformJobID = sample_uuid,
     fi_Object = original_of ((scan_upload sample_active)\<lparr>ses_Parts := [scan_part sample_part]\<rparr>) sample_object sample_metadata sample_uuid\<rparr>"

lemma sample_original_text: "pg_text sample_original"
proof -
  have "list_all (\<lambda>c. (of_char c :: nat) < 128 \<and> (of_char c :: nat) \<noteq> 0) (hashString ''a'')"
    using hex_encode_lower [of "Sum256 ''a''"] by (auto simp: hashString_def list_all_iff is_hex_lower_def is_digit_def)
  then have "list_all (\<lambda>c. (of_char c :: nat) < 128 \<and> (of_char c :: nat) \<noteq> 0) sample_original"
    unfolding sample_original_def by (auto simp: list_all_iff dest: in_set_takeD)
  then show ?thesis by (rule ascii_pg_text)
qed

lemma sample_insert_object:
  "insert_object sample_upload_env msg (original_row sample_upload_env ''a'' (fi_Object sample_finish)) sample_tables
     = Inr (sample_tables\<lparr>jd_objects := [original_row sample_upload_env ''a'' (fi_Object sample_finish)]\<rparr>)"
  using sample_original_text hashString_text(1) [of sample_wav]
  by (simp add: insert_object_def original_row_def sample_finish_def original_of_def sample_object_def sample_metadata_def media_checks_def
      opt_check_def scan_upload_def ascii_pg_text sample_tables_def sample_job_db_def i64_id min_i64_def max_i64_def)

lemma sample_finish_tables: "\<exists>t. finish_tables sample_upload_env sample_finish ''w'' ''a'' sample_tables = Inr t \<and> jd_audits t = []"
proof -
  have kind: "pg_text KindGenerateWaveform" by (simp add: KindGenerateWaveform_def ascii_pg_text)
  have "job_checks (waveform_job sample_upload_env ''w'' ''a'' sample_finish)"
    by (simp add: job_checks_def waveform_job_def kind opt_check_def job_states)
  moreover have "update_asset ''a'' ''w'' f (sample_tables\<lparr>jd_objects := x\<rparr>)
      = sample_tables\<lparr>jd_objects := x, jd_assets := [f (sample_asset ''a'' ''draft'')]\<rparr>" for f x
    by (simp add: update_asset_def sample_tables_def sample_asset_def sample_job_db_def)
  moreover have "0 \<le> og_DurationMS (fi_Object sample_finish)" by (simp add: sample_finish_def original_of_def sample_metadata_def)
  moreover have "j_workspace_id (waveform_job sample_upload_env ''w'' ''a'' sample_finish) = ''w''"
      "j_created_by (waveform_job sample_upload_env ''w'' ''a'' sample_finish) = ''u''"
      "j_asset_id (waveform_job sample_upload_env ''w'' ''a'' sample_finish) = Some ''a''"
      "j_idempotency_key (waveform_job sample_upload_env ''w'' ''a'' sample_finish) = None"
    by (simp_all add: waveform_job_def sample_finish_def pg_id_def)
  ultimately show ?thesis
    by (simp add: finish_tables_def sample_insert_object Let_def insert_job_def)
      (simp add: active_clash_def sample_tables_def sample_job_db_def sample_asset_def touch_asset_def)
qed

lemma sample_Finish: "\<exists>db r. upload_Finish sample_upload_env sample_finish (set_session sample_assembling sample_upload_db) = (db, Inr r)"
proof -
  obtain t where t: "finish_tables sample_upload_env sample_finish ''w'' ''a'' sample_tables = Inr t" "jd_audits t = []" using sample_finish_tables by blast
  have "query_session sample_upload_env msg ''w'' ''s'' (set_session sample_assembling sample_upload_db) = Inr (Some sample_assembling)" for msg
    by (simp add: query_session_def session_of_def set_session_def sample_upload_db_def sample_assembling_def)
  moreover have "fi_WorkspaceID sample_finish = ''w''" "fi_UploadID sample_finish = ''s''" by (simp_all add: sample_finish_def)
  moreover have "us_state sample_assembling = StateAssembling" "us_workspace_id sample_assembling = ''w''" "us_asset_id sample_assembling = ''a''"
    by (simp_all add: sample_assembling_def)
  moreover have "ud_tables (set_session sample_assembling sample_upload_db) = sample_tables" by (simp add: set_session_def sample_upload_db_def)
  ultimately show ?thesis
    by (simp add: upload_Finish_def t Let_def upload_audit_def insert_audit_def upload_commit_def)
      (simp add: set_session_def t)
qed

lemma sample_valid: "validatePartRefs ''s'' [\<lparr>pr_Number = 1, pr_Key = pt_storage_key sample_part, pr_Size = 48, pr_SHA256 = hashString sample_wav\<rparr>]
    \<lparr>po_ExpectedSize = int (length sample_wav), po_ExpectedSHA256 = h, po_MaxBytes = MaxUploadBytes\<rparr> = None"
proof -
  obtain key where key: "generatedPartKey ''s'' 1 = Some key" by (rule sample_part_key)
  then show ?thesis by (simp add: validatePartRefs_def normalize_hash max_i64_def sample_wav_length sample_part_def MaxUploadBytes_def)
qed

lemma sample_Complete:
  "\<exists>db' fs' session errs. upload_svc_Complete sample_backend sample_env sample_actor ''s'' (sample_upload_db, sample_fs sample_wav)
      = ((db', fs'), (Some (session, True), errs))"
proof -
  let ?found = "(scan_upload sample_active)\<lparr>ses_Parts := [scan_part sample_part]\<rparr>"
  obtain db1 r where fin: "upload_Finish sample_upload_env sample_finish (set_session sample_assembling sample_upload_db) = (db1, Inr r)"
    using sample_Finish by blast
  obtain db2 fs2 errs where del: "upload_deleteParts sample_backend sample_env 5 ''s'' (db1, sample_fs sample_wav) = ((db2, fs2), errs)"
    by (metis prod.exhaust)
  have refs: "completionPartRefs ?found [scan_part sample_part]
      = Some [\<lparr>pr_Number = 1, pr_Key = pt_storage_key sample_part, pr_Size = 48, pr_SHA256 = hashString sample_wav\<rparr>]"
  proof -
    have "completionPartRefs (q\<lparr>ses_Parts := x\<rparr>) ps = completionPartRefs q ps" for q x ps by (simp add: completionPartRefs_def)
    then show ?thesis using sample_refs by simp
  qed
  have fields: "ses_State ?found = StateActive" "ses_ExpiresAt ?found = pg_time 900000" "ses_AssetID ?found = ''a''" "ses_ExpectedSize ?found = 48"
      "ses_ExpectedSHA256 ?found = hashString sample_wav" "ses_MIMEType ?found = ''audio/wav''"
    by (simp_all add: scan_upload_def)
  have asm: "os_Assemble sample_backend k ''a'' ''s'' [\<lparr>pr_Number = 1, pr_Key = pt_storage_key sample_part, pr_Size = 48, pr_SHA256 = hashString sample_wav\<rparr>]
      \<lparr>po_ExpectedSize = 48, po_ExpectedSHA256 = hashString sample_wav, po_MaxBytes = MaxUploadBytes\<rparr> (sample_fs sample_wav)
      = (sample_fs sample_wav, Inr sample_object)" for k
    unfolding sample_object_def local_backend_def
    using sample_Assemble [OF refl sample_valid] by (simp add: sample_wav_length MaxUploadBytes_def max_i64_def)
  have "complete_finish sample_backend sample_env ''w'' ''u'' ''s'' ?found sample_object sample_metadata
      (set_session sample_assembling sample_upload_db, sample_fs sample_wav) = ((db2, fs2), (Some (r, True), errs))"
    using fin del by (simp add: complete_finish_def sample_uuid upload_call_def sample_finish_def sample_object_def)
  then have "complete_probe sample_backend sample_env ''w'' ''u'' ''s'' ?found sample_object
      (set_session sample_assembling sample_upload_db, sample_fs sample_wav) = ((db2, fs2), (Some (r, True), errs))"
    using sample_probe by (simp add: complete_probe_def local_backend_def sample_object_def sample_Open fields)
  then have asm: "complete_assemble sample_backend sample_env ''w'' ''u'' ''s'' ?found
      [\<lparr>pr_Number = 1, pr_Key = pt_storage_key sample_part, pr_Size = 48, pr_SHA256 = hashString sample_wav\<rparr>]
      (set_session sample_assembling sample_upload_db, sample_fs sample_wav) = ((db2, fs2), (Some (r, True), errs))"
    by (simp add: complete_assemble_def sample_normal fields asm)
  have actor: "Can sample_actor ScopeAssetsWrite" "p_WorkspaceID sample_actor = ''w''" "p_UserID sample_actor = ''u''"
    by (simp_all add: sample_actor_def Can_def)
  have late: "\<not> \<not> pg_time 900000 > (6000 :: int)" "StateActive \<noteq> StateCompleted" by (simp_all add: pg_time_def microsecond_def upload_states)
  have "upload_svc_Complete sample_backend sample_env sample_actor ''s'' (sample_upload_db, sample_fs sample_wav)
      = ((db2, fs2), (Some (r, True), errs))"
    unfolding upload_svc_Complete_def Let_def upload_call_def actor sample_env_simps sample_normal prod.case sample_Get sum.case fields refs option.case
      sample_Mark asm if_not_P [OF late(1)] if_not_P [OF late(2)]
    using actor(1) by (simp add: del: part_refs.simps)
  then show ?thesis by blast
qed

text \<open>A whole run: the file is already stored, and the upload completes.\<close>

theorem completed_upload_published_witness:
  "\<exists>db' fs' session errs. upload_svc_Complete sample_backend sample_env sample_actor ''s'' (sample_upload_db, sample_fs sample_wav)
      = ((db', fs'), (Some (session, True), errs))
    \<and> (\<exists>r\<in>set (ud_sessions db'). us_id r = ''s'' \<and> us_state r = StateCompleted \<and> published object_at sample_env r sample_original (db', fs'))"
proof -
  obtain db2 fs2 r errs where run: "upload_svc_Complete sample_backend sample_env sample_actor ''s'' (sample_upload_db, sample_fs sample_wav)
      = ((db2, fs2), (Some (r, True), errs))" using sample_Complete by blast
  have fair: "fair_others object_at sample_original sample_env" by (simp add: fair_others_def sound_step_refl)
  have key: "\<forall>r\<in>set (ud_sessions (fst (ue_others sample_env 0 (sample_upload_db, sample_fs sample_wav)))).
      Some (normalizeUUID (ue_lower sample_env) ''s'') = Some (us_id r) \<longrightarrow>
      generatedObjectKey (normalizeUUID (ue_lower sample_env) (us_asset_id r)) = Some sample_original"
    by (simp add: sample_upload_db_def sample_normal sample_original(1))
  have uuid: "\<forall>k. je_uuid (ue_pg sample_env k) = Some" by simp
  obtain row where row: "row \<in> set (ud_sessions db2)" "us_state row = StateCompleted"
      "Some (normalizeUUID (ue_lower sample_env) ''s'') = Some (us_id row)"
      "row \<in> set (ud_sessions (fst (ue_others sample_env 0 (sample_upload_db, sample_fs sample_wav))))
        \<or> published object_at sample_env row sample_original (db2, fs2)"
    using completed_upload_published [where envs = "\<lambda>_. sample_storage_env" and uuid = Some, OF fair sample_upload_inv sample_quiet(2) _ run key] uuid
    by blast
  moreover have "us_id row = ''s''" using row(3) by (simp add: sample_normal)
  moreover have "row \<notin> set (ud_sessions sample_upload_db)"
  proof
    assume "row \<in> set (ud_sessions sample_upload_db)"
    then show False using row(2) by (simp add: sample_upload_db_def upload_states)
  qed
  ultimately show ?thesis using run by auto
qed

end
