(* ===== verification/Webhook_Repository.thy ===== *)
theory Webhook_Repository
  imports Job_Repository
begin

text \<open>
  \<^verbatim>\<open>internal/webhook/postgres_repository.go\<close> and \<^verbatim>\<open>migrations/000018_outbound_webhooks.up.sql\<close>: the
  endpoints of a workspace, the deliveries that wait for them, and the triggers between the tables.

  A method is one transaction.  Its environment says which statements fail, whether a commit took effect
  although its reply was lost, and what the database generates: clocks, identifiers, sequence numbers.
  The listings only read and are left out.
\<close>

subsection \<open>Errors and states\<close>

datatype webhook_error =
    WebhookForbidden | WebhookInvalidInput | WebhookNotFound | WebhookConflict | WebhookEncryptionUnavailable | WebhookConfiguration
  | NoDelivery | LeaseLost | WebhookOther string

definition StateEnabled :: string where "StateEnabled = ''enabled''"
definition StateDisabled :: string where "StateDisabled = ''disabled''"
definition EventJobSucceeded :: string where "EventJobSucceeded = ''job.succeeded''"
definition EventJobFailed :: string where "EventJobFailed = ''job.failed''"
definition EventJobCancelled :: string where "EventJobCancelled = ''job.cancelled''"
definition EventWebhookTest :: string where "EventWebhookTest = ''webhook.test''"
definition DeliveryPending :: string where "DeliveryPending = ''pending''"
definition DeliveryDelivering :: string where "DeliveryDelivering = ''delivering''"
definition DeliveryRetryWait :: string where "DeliveryRetryWait = ''retry_wait''"
definition DeliverySucceeded :: string where "DeliverySucceeded = ''succeeded''"
definition DeliveryFailed :: string where "DeliveryFailed = ''failed''"
definition DeliveryCancelled :: string where "DeliveryCancelled = ''cancelled''"

definition DeliveryErrorTimeout :: string where "DeliveryErrorTimeout = ''timeout''"
definition DeliveryErrorTransport :: string where "DeliveryErrorTransport = ''transport''"
definition DeliveryErrorUnsafeEndpoint :: string where "DeliveryErrorUnsafeEndpoint = ''unsafe_endpoint''"
definition DeliveryErrorConfiguration :: string where "DeliveryErrorConfiguration = ''configuration''"
definition DeliveryErrorHTTPClient :: string where "DeliveryErrorHTTPClient = ''http_client_error''"
definition DeliveryErrorHTTPServer :: string where "DeliveryErrorHTTPServer = ''http_server_error''"
definition DeliveryErrorResponseTooLarge :: string where "DeliveryErrorResponseTooLarge = ''response_too_large''"

lemmas delivery_states = DeliveryPending_def DeliveryDelivering_def DeliveryRetryWait_def DeliverySucceeded_def DeliveryFailed_def
  DeliveryCancelled_def
lemmas webhook_events = EventJobSucceeded_def EventJobFailed_def EventJobCancelled_def EventWebhookTest_def
lemmas delivery_errors = DeliveryErrorTimeout_def DeliveryErrorTransport_def DeliveryErrorUnsafeEndpoint_def DeliveryErrorConfiguration_def
  DeliveryErrorHTTPClient_def DeliveryErrorHTTPServer_def DeliveryErrorResponseTooLarge_def

definition allowedEvents :: "string list" where
  "allowedEvents = [EventJobSucceeded, EventJobFailed, EventJobCancelled]"

definition defaultDeliveryLease :: duration where "defaultDeliveryLease = 2 * minute"

subsection \<open>Values\<close>

text \<open>The request identifiers among the parameters are left out: no statement uses them.\<close>

record Endpoint =
  en_ID :: string
  en_WorkspaceID :: string
  en_DisplayName :: string
  en_URL :: string
  en_EventTypes :: "string list"
  en_State :: string
  en_Version :: int
  en_SecretConfigured :: bool
  en_CreatedAt :: go_time
  en_UpdatedAt :: go_time

record StoredEndpoint = Endpoint +
  en_SecretVersion :: int
  en_SecretCiphertext :: bytes

record Delivery =
  dl_ID :: string
  dl_WorkspaceID :: string
  dl_WebhookID :: string
  dl_WebhookVersion :: int
  dl_NotificationID :: "string option"
  dl_EventID :: string
  dl_EventType :: string
  dl_Payload :: bytes
  dl_State :: string
  dl_Attempts :: int
  dl_MaxAttempts :: int
  dl_AvailableAt :: go_time
  dl_ResponseStatus :: "int option"
  dl_LastErrorCode :: "string option"
  dl_DeliveredAt :: "go_time option"
  dl_CreatedAt :: go_time
  dl_UpdatedAt :: go_time

record DeliveryAttempt = Delivery +
  dl_EndpointURL :: string
  dl_SecretVersion :: int
  dl_SecretCiphertext :: bytes
  dl_LeaseOwner :: string

record CreateWebhookParams =
  cw_EndpointID :: string
  cw_AuditID :: string
  cw_WorkspaceID :: string
  cw_CreatedBy :: string
  cw_DisplayName :: string
  cw_URL :: string
  cw_EventTypes :: "string list"
  cw_State :: string
  cw_Version :: int
  cw_SecretCiphertext :: bytes

record UpdateWebhookParams =
  uw_EndpointID :: string
  uw_AuditID :: string
  uw_WorkspaceID :: string
  uw_UpdatedBy :: string
  uw_DisplayName :: string
  uw_URL :: string
  uw_EventTypes :: "string list"
  uw_State :: string
  uw_ExpectedVersion :: int

record RotateSecretParams =
  rs_EndpointID :: string
  rs_AuditID :: string
  rs_WorkspaceID :: string
  rs_UpdatedBy :: string
  rs_ExpectedVersion :: int
  rs_SecretVersion :: int
  rs_SecretCiphertext :: bytes

record EnqueueTestParams =
  et_DeliveryID :: string
  et_EventID :: string
  et_AuditID :: string
  et_WorkspaceID :: string
  et_WebhookID :: string
  et_WebhookVersion :: int
  et_CreatedBy :: string
  et_CreatedAt :: go_time
  et_Payload :: bytes

record ClaimDeliveryParams =
  cd_WorkerID :: string
  cd_Now :: go_time
  cd_LeaseDuration :: duration

record CompleteParams =
  cp_DeliveryID :: string
  cp_WorkerID :: string
  cp_Now :: go_time
  cp_ResponseStatus :: int

record FailDeliveryParams =
  fd_DeliveryID :: string
  fd_WorkerID :: string
  fd_Now :: go_time
  fd_RetryAt :: go_time
  fd_ResponseStatus :: "int option"
  fd_ErrorCode :: string
  fd_Retryable :: bool

subsection \<open>Tables\<close>

record endpoint_row =
  we_id :: string
  we_workspace_id :: string
  we_display_name :: string
  we_url :: string
  we_event_types :: "string list"
  we_state :: string
  we_version :: int
  we_secret_version :: int
  we_secret :: bytes
  we_created_by :: string
  we_created_at :: go_time
  we_updated_at :: go_time

record delivery_row =
  wd_sequence :: int
  wd_id :: string
  wd_workspace_id :: string
  wd_webhook_id :: string
  wd_webhook_version :: int
  wd_notification_id :: "string option"
  wd_event_id :: string
  wd_event_type :: string
  wd_payload :: bytes
  wd_state :: string
  wd_attempts :: int
  wd_max_attempts :: int
  wd_available_at :: go_time
  wd_lease_owner :: "string option"
  wd_lease_expires_at :: "go_time option"
  wd_response_status :: "int option"
  wd_last_error_code :: "string option"
  wd_delivered_at :: "go_time option"
  wd_created_at :: go_time
  wd_updated_at :: go_time

record webhook_db =
  wb_endpoints :: "endpoint_row list"
  wb_deliveries :: "delivery_row list"
  wb_audits :: "job_audit list"
  wb_memberships :: "(string \<times> string) list"

record webhook_env =
  wv_pg :: job_env
  wv_sequence :: "nat \<Rightarrow> int"
    \<comment> \<open>the identity column of the rows a statement inserts\<close>
  wv_uuid :: "nat \<Rightarrow> string"
    \<comment> \<open>\<^verbatim>\<open>gen_random_uuid()\<close> for them\<close>
  wv_interval :: "duration \<Rightarrow> duration"
    \<comment> \<open>what the database reads from the text of \<^verbatim>\<open>formatInterval\<close>\<close>
  wv_timestamp :: "go_time \<Rightarrow> string"
    \<comment> \<open>the text of a time in a JSON value of the database\<close>

definition endpoint_checks :: "endpoint_row \<Rightarrow> bool" where
  "endpoint_checks row \<longleftrightarrow>
     text_between 1 100 (we_display_name row)
     \<and> text_between 1 2048 (we_url row) \<and> take 8 (we_url row) = ''https://'' \<and> CHR ''?'' \<notin> set (we_url row) \<and> CHR ''#'' \<notin> set (we_url row)
     \<and> 1 \<le> length (we_event_types row) \<and> length (we_event_types row) \<le> 3 \<and> set (we_event_types row) \<subseteq> set allowedEvents
     \<and> we_state row \<in> {StateEnabled, StateDisabled}
     \<and> 0 < we_version row \<and> we_version row \<le> max_i64 \<and> 0 < we_secret_version row \<and> we_secret row \<noteq> []"

definition payload_checks :: "bytes \<Rightarrow> bool" where
  "payload_checks v \<longleftrightarrow> (case json_parse v of Some (JObj _) \<Rightarrow> True | _ \<Rightarrow> False) \<and> 2 \<le> length v \<and> length v \<le> 16384"

definition delivery_checks :: "delivery_row \<Rightarrow> bool" where
  "delivery_checks row \<longleftrightarrow>
     0 < wd_webhook_version row
     \<and> wd_event_type row \<in> {EventJobSucceeded, EventJobFailed, EventJobCancelled, EventWebhookTest}
     \<and> payload_checks (wd_payload row)
     \<and> wd_state row \<in> {DeliveryPending, DeliveryDelivering, DeliveryRetryWait, DeliverySucceeded, DeliveryFailed, DeliveryCancelled}
     \<and> 0 \<le> wd_attempts row \<and> wd_attempts row \<le> 5 \<and> wd_max_attempts row = 5
     \<and> opt_check pg_text (wd_lease_owner row)
     \<and> opt_check (\<lambda>v. 100 \<le> v \<and> v \<le> 599) (wd_response_status row)
     \<and> opt_check (\<lambda>v. v \<in> {DeliveryErrorTimeout, DeliveryErrorTransport, DeliveryErrorUnsafeEndpoint, DeliveryErrorConfiguration,
         DeliveryErrorHTTPClient, DeliveryErrorHTTPServer, DeliveryErrorResponseTooLarge}) (wd_last_error_code row)
     \<and> (wd_lease_owner row = None) = (wd_lease_expires_at row = None)
     \<and> (wd_state row = DeliveryDelivering) = (wd_lease_owner row \<noteq> None)
     \<and> wd_attempts row \<le> wd_max_attempts row
     \<and> (wd_state row = DeliverySucceeded) = (wd_delivered_at row \<noteq> None)"

text \<open>The trigger \<^verbatim>\<open>guard_webhook_delivery_projection\<close>: what an update must not change.\<close>

definition guard_projection :: "delivery_row \<Rightarrow> delivery_row \<Rightarrow> bool" where
  "guard_projection old new \<longleftrightarrow>
     wd_id new = wd_id old \<and> wd_workspace_id new = wd_workspace_id old \<and> wd_webhook_id new = wd_webhook_id old
     \<and> wd_webhook_version new = wd_webhook_version old \<and> wd_notification_id new = wd_notification_id old
     \<and> wd_event_id new = wd_event_id old \<and> wd_event_type new = wd_event_type old \<and> wd_payload new = wd_payload old
     \<and> wd_max_attempts new = wd_max_attempts old \<and> wd_created_at new = wd_created_at old"

definition scanEndpoint :: "endpoint_row \<Rightarrow> Endpoint" where
  "scanEndpoint row =
     \<lparr>en_ID = we_id row, en_WorkspaceID = we_workspace_id row, en_DisplayName = we_display_name row, en_URL = we_url row,
      en_EventTypes = we_event_types row, en_State = we_state row, en_Version = we_version row, en_SecretConfigured = True,
      en_CreatedAt = we_created_at row, en_UpdatedAt = we_updated_at row\<rparr>"

definition scanDelivery :: "delivery_row \<Rightarrow> Delivery" where
  "scanDelivery row =
     \<lparr>dl_ID = wd_id row, dl_WorkspaceID = wd_workspace_id row, dl_WebhookID = wd_webhook_id row, dl_WebhookVersion = wd_webhook_version row,
      dl_NotificationID = wd_notification_id row, dl_EventID = wd_event_id row, dl_EventType = wd_event_type row,
      dl_Payload = wd_payload row, dl_State = wd_state row, dl_Attempts = wd_attempts row, dl_MaxAttempts = wd_max_attempts row,
      dl_AvailableAt = wd_available_at row, dl_ResponseStatus = wd_response_status row, dl_LastErrorCode = wd_last_error_code row,
      dl_DeliveredAt = wd_delivered_at row, dl_CreatedAt = wd_created_at row, dl_UpdatedAt = wd_updated_at row\<rparr>"

definition set_delivery :: "delivery_row \<Rightarrow> webhook_db \<Rightarrow> webhook_db" where
  "set_delivery row db = db\<lparr>wb_deliveries := map (\<lambda>r. if wd_id r = wd_id row then row else r) (wb_deliveries db)\<rparr>"

definition set_endpoint :: "endpoint_row \<Rightarrow> webhook_db \<Rightarrow> webhook_db" where
  "set_endpoint row db = db\<lparr>wb_endpoints := map (\<lambda>e. if we_id e = we_id row then row else e) (wb_endpoints db)\<rparr>"

definition webhook_commit :: "job_env \<Rightarrow> string \<Rightarrow> webhook_db \<Rightarrow> webhook_db \<Rightarrow> 'a \<Rightarrow> webhook_db \<times> (webhook_error + 'a)" where
  "webhook_commit env msg old new result =
     (if je_fails env 0 msg then (if je_commit_lost env then new else old, Inl (WebhookOther msg)) else (new, Inr result))"

definition webhook_audit :: "job_env \<Rightarrow> string \<Rightarrow> string \<Rightarrow> string \<Rightarrow> string \<Rightarrow> string \<Rightarrow> webhook_db \<Rightarrow> webhook_error + webhook_db" where
  "webhook_audit env auditID workspaceID actorID action targetID db =
     (case (je_uuid env auditID, je_uuid env workspaceID, je_uuid env actorID, je_uuid env targetID) of
        (Some i, Some w, Some a, Some t) \<Rightarrow>
          if je_fails env 0 ''insert webhook audit: %w'' \<or> i \<in> set (map ja_id (wb_audits db)) then Inl (WebhookOther ''insert webhook audit: %w'')
          else Inr (db\<lparr>wb_audits := wb_audits db @ [\<lparr>ja_id = i, ja_workspace_id = w, ja_actor_id = Some a, ja_action = action, ja_target_id = t\<rparr>]\<rparr>)
      | _ \<Rightarrow> Inl (WebhookOther ''insert webhook audit: %w''))"

subsection \<open>Endpoints\<close>

definition new_endpoint :: "job_env \<Rightarrow> CreateWebhookParams \<Rightarrow> endpoint_row option" where
  "new_endpoint env p =
     (case (je_uuid env (cw_EndpointID p), je_uuid env (cw_WorkspaceID p), je_uuid env (cw_CreatedBy p)) of
        (Some i, Some w, Some c) \<Rightarrow>
          Some \<lparr>we_id = i, we_workspace_id = w, we_display_name = cw_DisplayName p, we_url = cw_URL p, we_event_types = cw_EventTypes p,
                we_state = cw_State p, we_version = cw_Version p, we_secret_version = cw_Version p, we_secret = cw_SecretCiphertext p,
                we_created_by = c, we_created_at = pg_time (je_clock env 0), we_updated_at = pg_time (je_clock env 1)\<rparr>
      | _ \<Rightarrow> None)"

definition webhook_Create :: "job_env \<Rightarrow> CreateWebhookParams \<Rightarrow> webhook_db \<Rightarrow> webhook_db \<times> (webhook_error + Endpoint)" where
  "webhook_Create env p db =
     (if je_fails env 0 ''begin webhook create: %w'' then (db, Inl (WebhookOther ''begin webhook create: %w''))
      else case new_endpoint env p of
        None \<Rightarrow> (db, Inl (WebhookOther ''insert webhook endpoint: %w''))
      | Some row \<Rightarrow>
      if je_fails env 0 ''insert webhook endpoint: %w'' \<or> \<not> endpoint_checks row then (db, Inl (WebhookOther ''insert webhook endpoint: %w''))
      else if we_id row \<in> set (map we_id (wb_endpoints db)) then (db, Inl WebhookConflict)
      else if (we_workspace_id row, we_created_by row) \<notin> set (wb_memberships db) then (db, Inl (WebhookOther ''insert webhook endpoint: %w''))
      else case webhook_audit env (cw_AuditID p) (cw_WorkspaceID p) (cw_CreatedBy p) ''webhook.created'' (cw_EndpointID p)
             (db\<lparr>wb_endpoints := wb_endpoints db @ [row]\<rparr>) of
        Inl e \<Rightarrow> (db, Inl e)
      | Inr db1 \<Rightarrow> webhook_commit env ''commit webhook create: %w'' db db1 (scanEndpoint row))"

definition webhook_GetStored :: "job_env \<Rightarrow> string \<Rightarrow> string \<Rightarrow> webhook_db \<Rightarrow> webhook_error + StoredEndpoint" where
  "webhook_GetStored env workspaceID endpointID db =
     (if je_fails env 0 ''query stored webhook: %w'' \<or> je_uuid env workspaceID = None \<or> je_uuid env endpointID = None then
        Inl (WebhookOther ''query stored webhook: %w'')
      else case find (\<lambda>e. Some (we_id e) = je_uuid env endpointID \<and> Some (we_workspace_id e) = je_uuid env workspaceID) (wb_endpoints db) of
        None \<Rightarrow> Inl WebhookNotFound
      | Some e \<Rightarrow> Inr (Endpoint.extend (scanEndpoint e) \<lparr>en_SecretVersion = we_secret_version e, en_SecretCiphertext = we_secret e\<rparr>))"

text \<open>The trigger \<^verbatim>\<open>cancel_stale_webhook_deliveries\<close>, after an update of the version of an endpoint.\<close>

definition cancel_stale :: "job_env \<Rightarrow> endpoint_row \<Rightarrow> endpoint_row \<Rightarrow> webhook_db \<Rightarrow> webhook_db" where
  "cancel_stale env old new db =
     (if we_version new = we_version old then db
      else db\<lparr>wb_deliveries := map (\<lambda>r. if wd_webhook_id r = we_id old \<and> wd_webhook_version r = we_version old
               \<and> wd_state r \<in> {DeliveryPending, DeliveryRetryWait} then
             r\<lparr>wd_state := DeliveryCancelled, wd_lease_owner := None, wd_lease_expires_at := None, wd_updated_at := pg_time (je_clock env 7)\<rparr>
           else r) (wb_deliveries db)\<rparr>)"

text \<open>
  \<^verbatim>\<open>Update\<close> and \<^verbatim>\<open>RotateSecret\<close> are the same transaction around different columns: an update of the row at
  the expected version, the trigger, the audit and the commit.
\<close>

definition change_endpoint ::
  "job_env \<Rightarrow> string \<Rightarrow> string \<Rightarrow> string \<Rightarrow> string \<Rightarrow> string \<Rightarrow> string \<Rightarrow> string \<Rightarrow> string \<Rightarrow> int \<Rightarrow> (endpoint_row \<Rightarrow> endpoint_row) \<Rightarrow> webhook_db
     \<Rightarrow> webhook_db \<times> (webhook_error + Endpoint)" where
  "change_endpoint env begin_msg msg commit_msg action auditID workspaceID actorID endpointID expectedVersion f db =
     (if je_fails env 0 begin_msg then (db, Inl (WebhookOther begin_msg))
      else if je_fails env 0 msg \<or> je_uuid env endpointID = None \<or> je_uuid env workspaceID = None then (db, Inl (WebhookOther msg))
      else case find (\<lambda>e. Some (we_id e) = je_uuid env endpointID \<and> Some (we_workspace_id e) = je_uuid env workspaceID
             \<and> we_version e = expectedVersion) (wb_endpoints db) of
        None \<Rightarrow> (db, Inl WebhookConflict)
      | Some e \<Rightarrow>
      let new = (f e)\<lparr>we_version := we_version e + 1, we_updated_at := pg_time (je_clock env 0)\<rparr> in
      if \<not> endpoint_checks new then (db, Inl (WebhookOther msg))
      else case webhook_audit env auditID workspaceID actorID action endpointID (cancel_stale env e new (set_endpoint new db)) of
        Inl err \<Rightarrow> (db, Inl err)
      | Inr db1 \<Rightarrow> webhook_commit env commit_msg db db1 (scanEndpoint new))"

definition webhook_Update :: "job_env \<Rightarrow> UpdateWebhookParams \<Rightarrow> webhook_db \<Rightarrow> webhook_db \<times> (webhook_error + Endpoint)" where
  "webhook_Update env p =
     change_endpoint env ''begin webhook update: %w'' ''update webhook endpoint: %w'' ''commit webhook update: %w'' ''webhook.updated''
       (uw_AuditID p) (uw_WorkspaceID p) (uw_UpdatedBy p) (uw_EndpointID p) (uw_ExpectedVersion p)
       (\<lambda>e. e\<lparr>we_display_name := uw_DisplayName p, we_url := uw_URL p, we_event_types := uw_EventTypes p, we_state := uw_State p\<rparr>)"

definition webhook_RotateSecret :: "job_env \<Rightarrow> RotateSecretParams \<Rightarrow> webhook_db \<Rightarrow> webhook_db \<times> (webhook_error + Endpoint)" where
  "webhook_RotateSecret env p =
     change_endpoint env ''begin webhook secret rotation: %w'' ''rotate webhook secret: %w'' ''commit webhook secret rotation: %w''
       ''webhook.secret_rotated'' (rs_AuditID p) (rs_WorkspaceID p) (rs_UpdatedBy p) (rs_EndpointID p) (rs_ExpectedVersion p)
       (\<lambda>e. e\<lparr>we_secret_version := rs_SecretVersion p, we_secret := rs_SecretCiphertext p\<rparr>)"

subsection \<open>New deliveries\<close>

definition insert_delivery :: "delivery_row \<Rightarrow> webhook_db \<Rightarrow> webhook_error + webhook_db" where
  "insert_delivery row db =
     (if \<not> delivery_checks row then Inl (WebhookOther ''insert webhook test delivery: %w'')
      else if wd_id row \<in> set (map wd_id (wb_deliveries db)) \<or> wd_sequence row \<in> set (map wd_sequence (wb_deliveries db))
          \<or> (wd_notification_id row \<noteq> None \<and> (\<exists>r\<in>set (wb_deliveries db). wd_webhook_id r = wd_webhook_id row
               \<and> wd_notification_id r = wd_notification_id row)) then Inl WebhookConflict
      else if \<not> (\<exists>e\<in>set (wb_endpoints db). we_id e = wd_webhook_id row \<and> we_workspace_id e = wd_workspace_id row) then
        Inl (WebhookOther ''insert webhook test delivery: %w'')
      else Inr (db\<lparr>wb_deliveries := wb_deliveries db @ [row]\<rparr>))"

definition pending_delivery ::
  "int \<Rightarrow> string \<Rightarrow> string \<Rightarrow> string \<Rightarrow> int \<Rightarrow> string option \<Rightarrow> string \<Rightarrow> string \<Rightarrow> bytes \<Rightarrow> go_time \<Rightarrow> delivery_row" where
  "pending_delivery sq i w h v n ev ty payload at =
     \<lparr>wd_sequence = sq, wd_id = i, wd_workspace_id = w, wd_webhook_id = h, wd_webhook_version = v, wd_notification_id = n,
      wd_event_id = ev, wd_event_type = ty, wd_payload = payload, wd_state = DeliveryPending, wd_attempts = 0, wd_max_attempts = 5,
      wd_available_at = at, wd_lease_owner = None, wd_lease_expires_at = None, wd_response_status = None, wd_last_error_code = None,
      wd_delivered_at = None, wd_created_at = at, wd_updated_at = at\<rparr>"

definition webhook_EnqueueTest :: "webhook_env \<Rightarrow> EnqueueTestParams \<Rightarrow> webhook_db \<Rightarrow> webhook_db \<times> (webhook_error + Delivery)" where
  "webhook_EnqueueTest wenv p db =
     (let env = wv_pg wenv in
      if je_fails env 0 ''begin webhook test enqueue: %w'' then (db, Inl (WebhookOther ''begin webhook test enqueue: %w''))
      else case (je_uuid env (et_DeliveryID p), je_uuid env (et_WorkspaceID p), je_uuid env (et_WebhookID p), je_uuid env (et_EventID p)) of
        (Some i, Some w, Some h, Some ev) \<Rightarrow>
          if je_fails env 0 ''insert webhook test delivery: %w'' then (db, Inl (WebhookOther ''insert webhook test delivery: %w''))
          else let row = pending_delivery (wv_sequence wenv 0) i w h (et_WebhookVersion p) None ev EventWebhookTest
                   (je_jsonb env (et_Payload p)) (pg_time (et_CreatedAt p)) in
          (case insert_delivery row db of
             Inl e \<Rightarrow> (db, Inl e)
           | Inr db1 \<Rightarrow>
           case webhook_audit env (et_AuditID p) (et_WorkspaceID p) (et_CreatedBy p) ''webhook.test_enqueued'' (et_DeliveryID p) db1 of
             Inl e \<Rightarrow> (db, Inl e)
           | Inr db2 \<Rightarrow> webhook_commit env ''commit webhook test enqueue: %w'' db db2 (scanDelivery row))
      | _ \<Rightarrow> (db, Inl (WebhookOther ''insert webhook test delivery: %w'')))"

text \<open>
  The trigger \<^verbatim>\<open>enqueue_notification_webhooks\<close> after the insertion of a notification; without a value it
  raises an exception and the transaction that inserted the notification fails.
\<close>

definition optional_field :: "string \<Rightarrow> string option \<Rightarrow> (string \<times> json) list" where
  "optional_field key v = (case v of None \<Rightarrow> [] | Some x \<Rightarrow> [(key, JStr x)])"

definition notification_payload :: "webhook_env \<Rightarrow> string \<Rightarrow> notification_row \<Rightarrow> bytes" where
  "notification_payload wenv nid n =
     je_jsonb (wv_pg wenv) (json_encode (JObj [(''id'', JStr nid), (''type'', JStr (''job.'' @ nt_state n)),
       (''created_at'', JStr (wv_timestamp wenv (nt_occurred_at n))),
       (''data'', JObj [(''job'', JObj ([(''id'', JStr (nt_job_id n)), (''kind'', JStr (nt_job_kind n)), (''state'', JStr (nt_state n))]
          @ optional_field ''asset_id'' (nt_asset_id n) @ optional_field ''result_revision_id'' (nt_result_revision_id n)
          @ optional_field ''error_code'' (nt_error_code n)))])]))"

fun enqueue_endpoints :: "webhook_env \<Rightarrow> string \<Rightarrow> notification_row \<Rightarrow> nat \<Rightarrow> endpoint_row list \<Rightarrow> webhook_db \<Rightarrow> webhook_db option" where
  "enqueue_endpoints wenv nid n k [] db = Some db"
| "enqueue_endpoints wenv nid n k (e # es) db =
     (case insert_delivery (pending_delivery (wv_sequence wenv k) (wv_uuid wenv k) (nt_workspace_id n) (we_id e) (we_version e) (Some nid)
             nid (''job.'' @ nt_state n) (notification_payload wenv nid n) (nt_occurred_at n)) db of
        Inl _ \<Rightarrow> None
      | Inr db1 \<Rightarrow> enqueue_endpoints wenv nid n (k + 1) es db1)"

definition enqueue_notification_webhooks :: "webhook_env \<Rightarrow> string \<Rightarrow> notification_row \<Rightarrow> webhook_db \<Rightarrow> webhook_db option" where
  "enqueue_notification_webhooks wenv nid n db =
     enqueue_endpoints wenv nid n 0 (filter (\<lambda>e. we_workspace_id e = nt_workspace_id n \<and> we_state e = StateEnabled
       \<and> ''job.'' @ nt_state n \<in> set (we_event_types e)) (wb_endpoints db)) db"

text \<open>
  The action \<^verbatim>\<open>ON DELETE SET NULL\<close> of the deliveries of a notification is an update like every other and
  passes through the guard; without a value the deletion of the notification fails.
\<close>

definition forget_notification :: "string \<Rightarrow> webhook_db \<Rightarrow> webhook_db option" where
  "forget_notification nid db =
     (let forget = (\<lambda>r. if wd_notification_id r = Some nid then r\<lparr>wd_notification_id := None\<rparr> else r) in
      if list_all (\<lambda>r. guard_projection r (forget r)) (wb_deliveries db) then Some (db\<lparr>wb_deliveries := map forget (wb_deliveries db)\<rparr>)
      else None)"

subsection \<open>Deliveries\<close>

definition deliverable :: "go_time \<Rightarrow> webhook_db \<Rightarrow> delivery_row \<Rightarrow> bool" where
  "deliverable now db r \<longleftrightarrow>
     (\<exists>e\<in>set (wb_endpoints db). we_id e = wd_webhook_id r \<and> we_workspace_id e = wd_workspace_id r \<and> we_state e = StateEnabled
        \<and> wd_webhook_version r = we_version e)
     \<and> wd_attempts r < wd_max_attempts r \<and> wd_available_at r \<le> now
     \<and> (wd_state r \<in> {DeliveryPending, DeliveryRetryWait}
        \<or> (wd_state r = DeliveryDelivering \<and> (case wd_lease_expires_at r of None \<Rightarrow> False | Some t \<Rightarrow> t \<le> now)))"

definition delivery_candidate :: "job_env \<Rightarrow> go_time \<Rightarrow> webhook_db \<Rightarrow> delivery_row option" where
  "delivery_candidate env now db =
     (let rows = filter (\<lambda>r. deliverable now db r \<and> \<not> je_locked env (wd_id r)) (wb_deliveries db) in
      if rows = [] then None else Some (arg_min_list wd_sequence rows))"

definition claimed_delivery :: "webhook_env \<Rightarrow> ClaimDeliveryParams \<Rightarrow> delivery_row \<Rightarrow> delivery_row" where
  "claimed_delivery wenv p r =
     (let now = pg_time (cd_Now p);
          leaseDuration = (if cd_LeaseDuration p \<le> 0 then defaultDeliveryLease else cd_LeaseDuration p) in
      r\<lparr>wd_state := DeliveryDelivering, wd_attempts := wd_attempts r + 1, wd_lease_owner := Some (cd_WorkerID p),
        wd_lease_expires_at := Some (now + wv_interval wenv leaseDuration), wd_updated_at := now\<rparr>)"

definition delivery_attempt :: "endpoint_row \<Rightarrow> delivery_row \<Rightarrow> DeliveryAttempt" where
  "delivery_attempt e r =
     Delivery.extend (scanDelivery r) \<lparr>dl_EndpointURL = we_url e, dl_SecretVersion = we_secret_version e, dl_SecretCiphertext = we_secret e,
       dl_LeaseOwner = (case wd_lease_owner r of None \<Rightarrow> [] | Some w \<Rightarrow> w)\<rparr>"

definition webhook_Claim :: "webhook_env \<Rightarrow> ClaimDeliveryParams \<Rightarrow> webhook_db \<Rightarrow> webhook_db \<times> (webhook_error + DeliveryAttempt)" where
  "webhook_Claim wenv p db =
     (let env = wv_pg wenv in
      if \<not> pg_text (cd_WorkerID p) then (db, Inl (WebhookOther ''claim webhook delivery: %w''))
      else case delivery_candidate env (pg_time (cd_Now p)) db of
        None \<Rightarrow> (db, Inl (if je_fails env 0 ''claim webhook delivery: %w'' then WebhookOther ''claim webhook delivery: %w'' else NoDelivery))
      | Some r \<Rightarrow>
      let new = claimed_delivery wenv p r in
      if \<not> delivery_checks new \<or> \<not> guard_projection r new then (db, Inl (WebhookOther ''claim webhook delivery: %w''))
      else if je_fails env 0 ''claim webhook delivery: %w'' then
        (if je_commit_lost env then set_delivery new db else db, Inl (WebhookOther ''claim webhook delivery: %w''))
      else case find (\<lambda>e. we_id e = wd_webhook_id r \<and> we_workspace_id e = wd_workspace_id r) (wb_endpoints db) of
        None \<Rightarrow> (db, Inl NoDelivery)
      | Some e \<Rightarrow> (set_delivery new db, Inr (delivery_attempt e new)))"

text \<open>\<^verbatim>\<open>Succeed\<close> and \<^verbatim>\<open>Fail\<close>: one statement on the delivery that the worker holds.\<close>

definition finish_delivery ::
  "job_env \<Rightarrow> string \<Rightarrow> string \<Rightarrow> string \<Rightarrow> (delivery_row \<Rightarrow> delivery_row) \<Rightarrow> webhook_db \<Rightarrow> webhook_db \<times> (webhook_error + unit)" where
  "finish_delivery env msg deliveryID workerID f db =
     (if je_uuid env deliveryID = None \<or> \<not> pg_text workerID then (db, Inl (WebhookOther msg))
      else case find (\<lambda>r. Some (wd_id r) = je_uuid env deliveryID \<and> wd_state r = DeliveryDelivering \<and> wd_lease_owner r = Some workerID)
             (wb_deliveries db) of
        None \<Rightarrow> (db, Inl (if je_fails env 0 msg then WebhookOther msg else LeaseLost))
      | Some r \<Rightarrow>
      let new = (f r)\<lparr>wd_lease_owner := None, wd_lease_expires_at := None\<rparr> in
      if \<not> delivery_checks new \<or> \<not> guard_projection r new then (db, Inl (WebhookOther msg))
      else if je_fails env 0 msg then (if je_commit_lost env then set_delivery new db else db, Inl (WebhookOther msg))
      else (set_delivery new db, Inr ()))"

definition webhook_Succeed :: "job_env \<Rightarrow> CompleteParams \<Rightarrow> webhook_db \<Rightarrow> webhook_db \<times> (webhook_error + unit)" where
  "webhook_Succeed env p =
     finish_delivery env ''mark webhook delivery succeeded: %w'' (cp_DeliveryID p) (cp_WorkerID p)
       (\<lambda>r. r\<lparr>wd_state := DeliverySucceeded, wd_response_status := Some (cp_ResponseStatus p), wd_delivered_at := Some (pg_time (cp_Now p)),
          wd_updated_at := pg_time (cp_Now p)\<rparr>)"

definition failed_delivery :: "FailDeliveryParams \<Rightarrow> delivery_row \<Rightarrow> delivery_row" where
  "failed_delivery p r =
     (let ended = \<not> fd_Retryable p \<or> wd_attempts r \<ge> wd_max_attempts r in
      r\<lparr>wd_state := (if ended then DeliveryFailed else DeliveryRetryWait),
        wd_available_at := (if ended then wd_available_at r else pg_time (fd_RetryAt p)),
        wd_response_status := fd_ResponseStatus p, wd_last_error_code := Some (fd_ErrorCode p), wd_updated_at := pg_time (fd_Now p)\<rparr>)"

definition webhook_Fail :: "job_env \<Rightarrow> FailDeliveryParams \<Rightarrow> webhook_db \<Rightarrow> webhook_db \<times> (webhook_error + unit)" where
  "webhook_Fail env p =
     finish_delivery env ''mark webhook delivery failed: %w'' (fd_DeliveryID p) (fd_WorkerID p) (failed_delivery p)"

subsection \<open>The invariant of the tables\<close>

definition ended_delivery :: "delivery_row \<Rightarrow> bool" where
  "ended_delivery r \<longleftrightarrow> wd_state r \<in> {DeliverySucceeded, DeliveryFailed, DeliveryCancelled}"

definition delivery_history :: "delivery_row \<Rightarrow> bool" where
  "delivery_history r \<longleftrightarrow>
     (wd_state r = DeliveryPending \<longrightarrow> wd_attempts r = 0)
     \<and> (wd_state r \<in> {DeliveryDelivering, DeliveryRetryWait, DeliverySucceeded, DeliveryFailed} \<longrightarrow> 1 \<le> wd_attempts r)
     \<and> (wd_state r \<in> {DeliveryRetryWait, DeliveryCancelled} \<longrightarrow> wd_attempts r < wd_max_attempts r)
     \<and> (wd_state r \<in> {DeliveryRetryWait, DeliveryFailed} \<longrightarrow> wd_last_error_code r \<noteq> None)"

definition endpoint_key :: "endpoint_row \<Rightarrow> string \<times> string" where
  "endpoint_key e = (we_id e, we_workspace_id e)"

definition notice_key :: "delivery_row \<Rightarrow> string \<times> string option" where
  "notice_key r = (wd_webhook_id r, wd_notification_id r)"

definition notices :: "delivery_row list \<Rightarrow> (string \<times> string option) list" where
  "notices rs = map notice_key (filter (\<lambda>r. wd_notification_id r \<noteq> None) rs)"

definition delivery_ok :: "endpoint_row list \<Rightarrow> delivery_row \<Rightarrow> bool" where
  "delivery_ok es r \<longleftrightarrow> delivery_checks r \<and> delivery_history r \<and> (wd_webhook_id r, wd_workspace_id r) \<in> set (map endpoint_key es)"

definition webhook_inv :: "webhook_db \<Rightarrow> bool" where
  "webhook_inv db \<longleftrightarrow>
     distinct (map we_id (wb_endpoints db)) \<and> list_all endpoint_checks (wb_endpoints db)
     \<and> distinct (map wd_id (wb_deliveries db)) \<and> distinct (map wd_sequence (wb_deliveries db))
     \<and> list_all (delivery_ok (wb_endpoints db)) (wb_deliveries db) \<and> distinct (notices (wb_deliveries db))"

definition kept_delivery :: "delivery_row \<Rightarrow> delivery_row \<Rightarrow> bool" where
  "kept_delivery r s \<longleftrightarrow>
     guard_projection r s \<and> wd_sequence s = wd_sequence r \<and> wd_attempts r \<le> wd_attempts s \<and> (ended_delivery r \<longrightarrow> s = r)"

definition kept_endpoint :: "endpoint_row \<Rightarrow> endpoint_row \<Rightarrow> bool" where
  "kept_endpoint e f \<longleftrightarrow>
     we_id f = we_id e \<and> we_workspace_id f = we_workspace_id e \<and> we_version e \<le> we_version f \<and> (we_version f = we_version e \<longrightarrow> f = e)"

definition webhook_progress :: "webhook_db \<Rightarrow> webhook_db \<Rightarrow> bool" where
  "webhook_progress db db' \<longleftrightarrow>
     (\<forall>r\<in>set (wb_deliveries db). \<exists>s\<in>set (wb_deliveries db'). kept_delivery r s)
     \<and> (\<forall>e\<in>set (wb_endpoints db). \<exists>f\<in>set (wb_endpoints db'). kept_endpoint e f)"

definition webhook_sound :: "webhook_db \<Rightarrow> webhook_db \<Rightarrow> bool" where
  "webhook_sound db db' \<longleftrightarrow> webhook_inv db' \<and> webhook_progress db db'"

lemma guard_refl [simp]: "guard_projection r r"
  by (simp add: guard_projection_def)

lemma kept_delivery_refl [simp]: "kept_delivery r r"
  by (simp add: kept_delivery_def)

lemma kept_endpoint_refl [simp]: "kept_endpoint e e"
  by (simp add: kept_endpoint_def)

lemma kept_delivery_trans: "kept_delivery r s \<Longrightarrow> kept_delivery s t \<Longrightarrow> kept_delivery r t"
  by (auto simp: kept_delivery_def guard_projection_def)

lemma kept_endpoint_trans: "kept_endpoint e f \<Longrightarrow> kept_endpoint f g \<Longrightarrow> kept_endpoint e g"
  by (auto simp: kept_endpoint_def)

lemma webhook_progress_refl [simp]: "webhook_progress db db"
  using kept_delivery_refl kept_endpoint_refl unfolding webhook_progress_def by blast

lemma webhook_progress_trans: "webhook_progress a b \<Longrightarrow> webhook_progress b c \<Longrightarrow> webhook_progress a c"
  unfolding webhook_progress_def using kept_delivery_trans kept_endpoint_trans by meson

lemma webhook_sound_refl: "webhook_inv db \<Longrightarrow> webhook_sound db db"
  by (simp add: webhook_sound_def)

lemma webhook_sound_trans: "webhook_sound a b \<Longrightarrow> webhook_sound b c \<Longrightarrow> webhook_sound a c"
  using webhook_progress_trans by (auto simp: webhook_sound_def)

lemma webhook_invD:
  assumes "webhook_inv db"
  shows "distinct (map we_id (wb_endpoints db))" "e \<in> set (wb_endpoints db) \<Longrightarrow> endpoint_checks e"
    and "distinct (map wd_id (wb_deliveries db))" "r \<in> set (wb_deliveries db) \<Longrightarrow> delivery_ok (wb_endpoints db) r"
  using assms by (simp_all add: webhook_inv_def list_all_iff)

lemma same_delivery:
  "webhook_inv db \<Longrightarrow> r \<in> set (wb_deliveries db) \<Longrightarrow> s \<in> set (wb_deliveries db) \<Longrightarrow> wd_id r = wd_id s \<Longrightarrow> r = s"
  using webhook_invD(3) [of db] by (simp add: distinct_map inj_on_def)

lemma same_endpoint:
  "webhook_inv db \<Longrightarrow> e \<in> set (wb_endpoints db) \<Longrightarrow> f \<in> set (wb_endpoints db) \<Longrightarrow> we_id e = we_id f \<Longrightarrow> e = f"
  using webhook_invD(1) [of db] by (simp add: distinct_map inj_on_def)

text \<open>What changes the rows of the deliveries one by one, of the endpoints one by one, or adds rows.\<close>

lemma deliveries_map:
  assumes "webhook_inv db" "db' = db\<lparr>wb_deliveries := map g (wb_deliveries db)\<rparr>"
    and "\<And>r. r \<in> set (wb_deliveries db) \<Longrightarrow> kept_delivery r (g r) \<and> delivery_checks (g r) \<and> delivery_history (g r)"
  shows "webhook_sound db db'"
proof -
  have g: "wd_id (g r) = wd_id r" "wd_sequence (g r) = wd_sequence r" "wd_notification_id (g r) = wd_notification_id r"
      "wd_webhook_id (g r) = wd_webhook_id r" "wd_workspace_id (g r) = wd_workspace_id r"
    if "r \<in> set (wb_deliveries db)" for r
    using assms(3) [OF that] by (simp_all add: kept_delivery_def guard_projection_def)
  have "map wd_id (map g (wb_deliveries db)) = map wd_id (wb_deliveries db)"
      "map wd_sequence (map g (wb_deliveries db)) = map wd_sequence (wb_deliveries db)" using g by simp_all
  moreover have "notices (map g rs) = notices rs" if "set rs \<subseteq> set (wb_deliveries db)" for rs
    using that g by (induction rs) (simp_all add: notices_def notice_key_def)
  moreover have "delivery_ok (wb_endpoints db) (g r)" if "r \<in> set (wb_deliveries db)" for r
    using webhook_invD(4) [OF assms(1) that] assms(3) [OF that] g [OF that] by (simp add: delivery_ok_def)
  ultimately have "webhook_inv db'"
    using assms(1) unfolding webhook_inv_def assms(2) by (simp add: list_all_iff del: map_map map_eq_conv)
  moreover have "webhook_progress db db'"
    using assms(3) kept_endpoint_refl unfolding webhook_progress_def assms(2) by (simp, blast)
  ultimately show ?thesis by (simp add: webhook_sound_def)
qed

lemma set_delivery_sound:
  assumes "webhook_inv db" "r \<in> set (wb_deliveries db)" "kept_delivery r new" "delivery_checks new" "delivery_history new"
  shows "webhook_sound db (set_delivery new db)"
proof (rule deliveries_map [OF assms(1)])
  show "set_delivery new db = db\<lparr>wb_deliveries := map (\<lambda>r. if wd_id r = wd_id new then new else r) (wb_deliveries db)\<rparr>"
    by (simp add: set_delivery_def)
  fix s assume s: "s \<in> set (wb_deliveries db)"
  have "wd_id new = wd_id r" using assms(3) by (simp add: kept_delivery_def guard_projection_def)
  then have "s = r" if "wd_id s = wd_id new" using that same_delivery [OF assms(1) s assms(2)] by simp
  then show "kept_delivery s (if wd_id s = wd_id new then new else s) \<and> delivery_checks (if wd_id s = wd_id new then new else s)
      \<and> delivery_history (if wd_id s = wd_id new then new else s)"
    using assms(3-5) webhook_invD(4) [OF assms(1) s] by (auto simp: delivery_ok_def)
qed

lemma set_endpoint_sound:
  assumes "webhook_inv db" "e \<in> set (wb_endpoints db)" "kept_endpoint e new" "endpoint_checks new"
  shows "webhook_sound db (set_endpoint new db)"
proof -
  let ?g = "\<lambda>f. if we_id f = we_id new then new else f"
  have k: "kept_endpoint f (?g f) \<and> endpoint_checks (?g f)" if f: "f \<in> set (wb_endpoints db)" for f
  proof (cases "we_id f = we_id new")
    case True
    then have "f = e" using same_endpoint [OF assms(1) f assms(2)] assms(3) by (simp add: kept_endpoint_def)
    then show ?thesis using True assms(3,4) by simp
  next
    case False
    then show ?thesis using webhook_invD(2) [OF assms(1) f] by simp
  qed
  then have ids: "we_id (?g f) = we_id f" "we_workspace_id (?g f) = we_workspace_id f" if "f \<in> set (wb_endpoints db)" for f
    using k [OF that] unfolding kept_endpoint_def by simp_all
  have "map we_id (map ?g (wb_endpoints db)) = map we_id (wb_endpoints db)" by (simp add: ids cong: map_cong)
  moreover have "map endpoint_key (map ?g (wb_endpoints db)) = map endpoint_key (wb_endpoints db)"
    unfolding map_map using ids by (intro map_cong refl) (simp add: endpoint_key_def)
  moreover have "list_all endpoint_checks (map ?g (wb_endpoints db))"
    using assms(4) webhook_invD(2) [OF assms(1)] by (auto simp: list_all_iff)
  ultimately have "webhook_inv (set_endpoint new db)"
    using assms(1) unfolding webhook_inv_def set_endpoint_def delivery_ok_def by (simp del: map_map map_eq_conv set_map)
  moreover have "\<exists>f'\<in>set (map ?g (wb_endpoints db)). kept_endpoint f f'" if "f \<in> set (wb_endpoints db)" for f
    unfolding set_map using k [OF that] that by (intro bexI [of _ "?g f"] imageI) blast+
  then have "webhook_progress db (set_endpoint new db)"
    using webhook_progress_refl [of db] unfolding webhook_progress_def set_endpoint_def by (simp del: set_map)
  ultimately show ?thesis by (simp add: webhook_sound_def)
qed

lemma webhook_frame:
  assumes "webhook_inv db" "wb_endpoints db' = wb_endpoints db" "wb_deliveries db' = wb_deliveries db"
  shows "webhook_sound db db'"
  using assms webhook_progress_refl [of db] unfolding webhook_sound_def webhook_inv_def webhook_progress_def by simp

lemma insert_endpoint_sound:
  assumes "webhook_inv db" "endpoint_checks e" "we_id e \<notin> set (map we_id (wb_endpoints db))"
  shows "webhook_sound db (db\<lparr>wb_endpoints := wb_endpoints db @ [e]\<rparr>)"
  using assms webhook_progress_refl [of db]
  unfolding webhook_sound_def webhook_progress_def webhook_inv_def delivery_ok_def by (simp add: list_all_iff)

lemma insert_delivery_sound:
  assumes "webhook_inv db" "insert_delivery row db = Inr db'" "delivery_history row"
  shows "webhook_sound db db'"
proof -
  have new: "delivery_checks row" "wd_id row \<notin> set (map wd_id (wb_deliveries db))" "wd_sequence row \<notin> set (map wd_sequence (wb_deliveries db))"
      "\<exists>e\<in>set (wb_endpoints db). we_id e = wd_webhook_id row \<and> we_workspace_id e = wd_workspace_id row"
      "db' = db\<lparr>wb_deliveries := wb_deliveries db @ [row]\<rparr>"
      "wd_notification_id row = None \<or> (\<forall>s\<in>set (wb_deliveries db). wd_webhook_id s = wd_webhook_id row \<longrightarrow> wd_notification_id s \<noteq> wd_notification_id row)"
    using assms(2) by (auto simp: insert_delivery_def split: if_splits)
  have "delivery_ok (wb_endpoints db) row" using new(1,4) assms(3) by (force simp: delivery_ok_def endpoint_key_def)
  moreover have "distinct (notices (wb_deliveries db @ [row]))"
    using assms(1) new(6) by (auto simp: webhook_inv_def notices_def notice_key_def)
  ultimately have "webhook_inv db'"
    using assms(1) new(2,3) unfolding webhook_inv_def new(5) by simp
  moreover have "webhook_progress db db'"
    using webhook_progress_refl [of db] unfolding webhook_progress_def new(5) by auto
  ultimately show ?thesis by (simp add: webhook_sound_def)
qed

subsection \<open>Every transaction keeps the invariant\<close>

lemma webhook_audit_frame:
  "webhook_audit env i w a act t db = Inr db' \<Longrightarrow> wb_endpoints db' = wb_endpoints db \<and> wb_deliveries db' = wb_deliveries db"
  by (auto simp: webhook_audit_def split: option.splits if_splits)

lemma audit_commit_sound:
  assumes "webhook_inv db" "webhook_sound db db1" "webhook_audit env i w a act t db1 = Inr db2"
  shows "webhook_sound db (fst (webhook_commit env msg db db2 x))"
proof -
  have "webhook_sound db1 db2"
    using webhook_audit_frame [OF assms(3)] assms(2) by (intro webhook_frame) (simp_all add: webhook_sound_def)
  then show ?thesis using webhook_sound_trans [OF assms(2)] webhook_sound_refl [OF assms(1)] by (simp add: webhook_commit_def)
qed

lemma cancel_stale_sound:
  assumes "webhook_inv db"
  shows "webhook_sound db (cancel_stale env old new db)"
proof (cases "we_version new = we_version old")
  case True
  then show ?thesis using assms by (simp add: cancel_stale_def webhook_sound_refl)
next
  case False
  let ?g = "\<lambda>r. if wd_webhook_id r = we_id old \<and> wd_webhook_version r = we_version old
      \<and> wd_state r \<in> {DeliveryPending, DeliveryRetryWait} then
      r\<lparr>wd_state := DeliveryCancelled, wd_lease_owner := None, wd_lease_expires_at := None, wd_updated_at := pg_time (je_clock env 7)\<rparr> else r"
  have "kept_delivery r (?g r) \<and> delivery_checks (?g r) \<and> delivery_history (?g r)" if r: "r \<in> set (wb_deliveries db)" for r
  proof -
    have ok: "delivery_checks r" "delivery_history r" using webhook_invD(4) [OF assms r] by (simp_all add: delivery_ok_def)
    have waiting: "wd_delivered_at r = None \<and> wd_attempts r < wd_max_attempts r \<and> \<not> ended_delivery r"
      if "wd_state r = DeliveryPending \<or> wd_state r = DeliveryRetryWait"
      using that
    proof
      assume "wd_state r = DeliveryPending"
      with ok show ?thesis by (simp add: delivery_checks_def delivery_history_def ended_delivery_def delivery_states)
    next
      assume "wd_state r = DeliveryRetryWait"
      with ok show ?thesis by (simp add: delivery_checks_def delivery_history_def ended_delivery_def delivery_states)
    qed
    show ?thesis
    proof (cases "wd_webhook_id r = we_id old \<and> wd_webhook_version r = we_version old \<and> wd_state r \<in> {DeliveryPending, DeliveryRetryWait}")
      case True
      with waiting have w: "wd_delivered_at r = None" "wd_attempts r < wd_max_attempts r" "\<not> ended_delivery r" by auto
      let ?c = "r\<lparr>wd_state := DeliveryCancelled, wd_lease_owner := None, wd_lease_expires_at := None, wd_updated_at := pg_time (je_clock env 7)\<rparr>"
      have "delivery_checks ?c" using ok(1) w(1) by (simp add: delivery_checks_def delivery_states opt_check_def)
      moreover have "delivery_history ?c" using w(2) by (simp add: delivery_history_def delivery_states)
      moreover have "kept_delivery r ?c" using w(3) by (simp add: kept_delivery_def guard_projection_def)
      ultimately show ?thesis using True by presburger
    next
      case False
      then show ?thesis using ok kept_delivery_refl by presburger
    qed
  qed
  then show ?thesis using False by (intro deliveries_map [OF assms, of _ ?g]) (simp_all add: cancel_stale_def)
qed

lemma change_endpoint_sound:
  assumes "webhook_inv db" "\<And>e. we_id (f e) = we_id e \<and> we_workspace_id (f e) = we_workspace_id e"
  shows "webhook_sound db (fst (change_endpoint env m1 m2 m3 act a w u i v f db))"
proof (cases "find (\<lambda>e. Some (we_id e) = je_uuid env i \<and> Some (we_workspace_id e) = je_uuid env w \<and> we_version e = v) (wb_endpoints db)")
  case None
  then show ?thesis using webhook_sound_refl [OF assms(1)] by (simp add: change_endpoint_def)
next
  case (Some e)
  define new where "new = (f e)\<lparr>we_version := we_version e + 1, we_updated_at := pg_time (je_clock env 0)\<rparr>"
  have "e \<in> set (wb_endpoints db)" using Some by (auto simp: find_Some_iff)
  moreover have "kept_endpoint e new" using assms(2) by (simp add: kept_endpoint_def new_def)
  ultimately have s: "webhook_sound db (set_endpoint new db)" if "endpoint_checks new" using that by (rule set_endpoint_sound [OF assms(1)])
  have "webhook_sound db (cancel_stale env e new (set_endpoint new db))" if "endpoint_checks new"
    using webhook_sound_trans [OF s [OF that] cancel_stale_sound] s [OF that] by (simp add: webhook_sound_def)
  then show ?thesis
    using webhook_sound_refl [OF assms(1)] Some
    by (simp add: change_endpoint_def Let_def new_def [symmetric] split: sum.split) (blast intro: audit_commit_sound [OF assms(1)])
qed

lemma webhook_Update_sound: "webhook_inv db \<Longrightarrow> webhook_sound db (fst (webhook_Update env p db))"
  unfolding webhook_Update_def by (rule change_endpoint_sound) simp_all

lemma webhook_RotateSecret_sound: "webhook_inv db \<Longrightarrow> webhook_sound db (fst (webhook_RotateSecret env p db))"
  unfolding webhook_RotateSecret_def by (rule change_endpoint_sound) simp_all

lemma webhook_Create_sound: "webhook_inv db \<Longrightarrow> webhook_sound db (fst (webhook_Create env p db))"
  using webhook_sound_refl [of db] insert_endpoint_sound [of db]
  by (simp add: webhook_Create_def split: option.split sum.split) (blast intro: audit_commit_sound)

lemma pending_history: "delivery_history (pending_delivery sq i w h v n ev ty payload at)"
  by (simp add: delivery_history_def pending_delivery_def delivery_states)

lemma webhook_EnqueueTest_sound: "webhook_inv db \<Longrightarrow> webhook_sound db (fst (webhook_EnqueueTest wenv p db))"
  using webhook_sound_refl [of db] insert_delivery_sound [OF _ _ pending_history, of db]
  by (simp add: webhook_EnqueueTest_def Let_def split: option.split sum.split) (blast intro: audit_commit_sound)

lemma enqueue_endpoints_sound: "webhook_inv db \<Longrightarrow> enqueue_endpoints wenv nid n k es db = Some db' \<Longrightarrow> webhook_sound db db'"
proof (induction wenv nid n k es db rule: enqueue_endpoints.induct)
  case (2 wenv nid n k e es db)
  then obtain db1 where db1: "insert_delivery (pending_delivery (wv_sequence wenv k) (wv_uuid wenv k) (nt_workspace_id n) (we_id e) (we_version e) (Some nid)
      nid (''job.'' @ nt_state n) (notification_payload wenv nid n) (nt_occurred_at n)) db = Inr db1"
      "enqueue_endpoints wenv nid n (k + 1) es db1 = Some db'"
    by (simp split: sum.splits)
  note s = insert_delivery_sound [OF 2(2) db1(1) pending_history]
  show ?case using webhook_sound_trans [OF s] 2(1) [OF db1(1) _ db1(2)] s by (simp add: webhook_sound_def)
qed (simp add: webhook_sound_refl)

lemma forget_notification_same: "forget_notification nid db = Some db' \<Longrightarrow> db' = db"
proof -
  assume "forget_notification nid db = Some db'"
  then have g: "\<forall>r\<in>set (wb_deliveries db). wd_notification_id r \<noteq> Some nid"
      "db' = db\<lparr>wb_deliveries := map (\<lambda>r. if wd_notification_id r = Some nid then r\<lparr>wd_notification_id := None\<rparr> else r) (wb_deliveries db)\<rparr>"
    by (auto simp: forget_notification_def list_all_iff guard_projection_def split: if_splits)
  then have "map (\<lambda>r. if wd_notification_id r = Some nid then r\<lparr>wd_notification_id := None\<rparr> else r) (wb_deliveries db) = wb_deliveries db"
    by (intro map_idI) simp
  with g(2) show ?thesis by simp
qed

lemma delivery_candidate_in:
  assumes "delivery_candidate env now db = Some r"
  shows "r \<in> set (wb_deliveries db)" "deliverable now db r" "\<not> je_locked env (wd_id r)"
proof -
  let ?rows = "filter (\<lambda>r. deliverable now db r \<and> \<not> je_locked env (wd_id r)) (wb_deliveries db)"
  have "?rows \<noteq> []" "r = arg_min_list wd_sequence ?rows" using assms by (auto simp: delivery_candidate_def Let_def split: if_splits)
  then have "r \<in> set ?rows" using arg_min_list_in [of ?rows] by simp
  then show "r \<in> set (wb_deliveries db)" "deliverable now db r" "\<not> je_locked env (wd_id r)" by simp_all
qed

lemma claimed_delivery_fields:
  "guard_projection r (claimed_delivery wenv p r)" "wd_sequence (claimed_delivery wenv p r) = wd_sequence r"
  "wd_attempts (claimed_delivery wenv p r) = wd_attempts r + 1" "wd_state (claimed_delivery wenv p r) = DeliveryDelivering"
  "wd_lease_owner (claimed_delivery wenv p r) = Some (cd_WorkerID p)"
  by (simp_all add: claimed_delivery_def Let_def guard_projection_def)

text \<open>What a claim can do: nothing, or lease the candidate.\<close>

lemma webhook_Claim_cases:
  obtains (same) "fst (webhook_Claim wenv p db) = db" "\<And>a. snd (webhook_Claim wenv p db) \<noteq> Inr a"
  | (claimed) r where "delivery_candidate (wv_pg wenv) (pg_time (cd_Now p)) db = Some r" "delivery_checks (claimed_delivery wenv p r)"
      "fst (webhook_Claim wenv p db) = set_delivery (claimed_delivery wenv p r) db"
proof (cases "delivery_candidate (wv_pg wenv) (pg_time (cd_Now p)) db")
  case None
  then show ?thesis by (intro same) (simp_all add: webhook_Claim_def Let_def)
next
  case (Some r)
  let ?new = "claimed_delivery wenv p r" and ?msg = "''claim webhook delivery: %w''"
  have g: "guard_projection r ?new" by (rule claimed_delivery_fields)
  show ?thesis
  proof (cases "pg_text (cd_WorkerID p) \<and> delivery_checks ?new")
    case False
    then show ?thesis using Some by (intro same) (auto simp: webhook_Claim_def Let_def)
  next
    case True
    let ?e = "find (\<lambda>e. we_id e = wd_webhook_id r \<and> we_workspace_id e = wd_workspace_id r) (wb_endpoints db)"
    show ?thesis
    proof (cases "(je_fails (wv_pg wenv) 0 ?msg \<longrightarrow> je_commit_lost (wv_pg wenv)) \<and> (\<not> je_fails (wv_pg wenv) 0 ?msg \<longrightarrow> ?e \<noteq> None)")
      case True
      then show ?thesis
        using Some g \<open>pg_text (cd_WorkerID p) \<and> delivery_checks ?new\<close> by (intro claimed) (auto simp: webhook_Claim_def Let_def)
    next
      case False
      then show ?thesis
        using Some g \<open>pg_text (cd_WorkerID p) \<and> delivery_checks ?new\<close> by (intro same) (auto simp: webhook_Claim_def Let_def)
    qed
  qed
qed

lemma webhook_Claim_sound: "webhook_inv db \<Longrightarrow> webhook_sound db (fst (webhook_Claim wenv p db))"
proof -
  assume inv: "webhook_inv db"
  show ?thesis
  proof (cases rule: webhook_Claim_cases [of wenv p db])
    case same
    then show ?thesis using webhook_sound_refl [OF inv] by simp
  next
    case (claimed r)
    note c = delivery_candidate_in [OF claimed(1)]
    note h = webhook_invD(4) [OF inv c(1)]
    have "\<not> ended_delivery r" using c(2) by (auto simp: deliverable_def ended_delivery_def delivery_states)
    then have "kept_delivery r (claimed_delivery wenv p r)" by (simp add: kept_delivery_def claimed_delivery_fields)
    moreover have "delivery_history (claimed_delivery wenv p r)"
      using h by (simp add: delivery_history_def claimed_delivery_fields delivery_states delivery_ok_def delivery_checks_def)
    ultimately show ?thesis using set_delivery_sound [OF inv c(1) _ claimed(2)] claimed(3) by simp
  qed
qed

lemma finish_delivery_cases:
  obtains (same) "fst (finish_delivery env msg i w f db) = db" "snd (finish_delivery env msg i w f db) \<noteq> Inr ()"
  | (finished) r where "r \<in> set (wb_deliveries db)" "Some (wd_id r) = je_uuid env i" "wd_state r = DeliveryDelivering"
      "wd_lease_owner r = Some w" "delivery_checks ((f r)\<lparr>wd_lease_owner := None, wd_lease_expires_at := None\<rparr>)"
      "guard_projection r ((f r)\<lparr>wd_lease_owner := None, wd_lease_expires_at := None\<rparr>)"
      "fst (finish_delivery env msg i w f db) = set_delivery ((f r)\<lparr>wd_lease_owner := None, wd_lease_expires_at := None\<rparr>) db"
proof (cases "find (\<lambda>r. Some (wd_id r) = je_uuid env i \<and> wd_state r = DeliveryDelivering \<and> wd_lease_owner r = Some w) (wb_deliveries db)")
  case None
  then show ?thesis by (intro same) (simp_all add: finish_delivery_def)
next
  case (Some r)
  then have r: "r \<in> set (wb_deliveries db)" "Some (wd_id r) = je_uuid env i" "wd_state r = DeliveryDelivering" "wd_lease_owner r = Some w"
    by (auto simp: find_Some_iff)
  let ?new = "(f r)\<lparr>wd_lease_owner := None, wd_lease_expires_at := None\<rparr>"
  show ?thesis
  proof (cases "delivery_checks ?new \<and> guard_projection r ?new \<and> fst (finish_delivery env msg i w f db) = set_delivery ?new db")
    case True
    then show ?thesis using finished r by blast
  next
    case False
    then show ?thesis using Some by (intro same) (auto simp: finish_delivery_def Let_def split: if_splits)
  qed
qed

lemma finish_delivery_sound:
  assumes "webhook_inv db"
    and "\<And>r. wd_sequence (f r) = wd_sequence r \<and> wd_attempts (f r) = wd_attempts r"
    and "\<And>r. delivery_ok (wb_endpoints db) r \<Longrightarrow> wd_state r = DeliveryDelivering \<Longrightarrow> delivery_history (f r)"
  shows "webhook_sound db (fst (finish_delivery env msg i w f db))"
proof (cases rule: finish_delivery_cases [of env msg i w f db])
  case same
  then show ?thesis using webhook_sound_refl [OF assms(1)] by simp
next
  case (finished r)
  let ?new = "(f r)\<lparr>wd_lease_owner := None, wd_lease_expires_at := None\<rparr>"
  have "kept_delivery r ?new" using finished(3,6) assms(2) [of r] by (simp add: kept_delivery_def ended_delivery_def delivery_states)
  moreover have "delivery_history ?new"
    using assms(3) [OF webhook_invD(4) [OF assms(1) finished(1)] finished(3)] by (simp add: delivery_history_def)
  ultimately show ?thesis using set_delivery_sound [OF assms(1) finished(1) _ finished(5)] finished(7) by simp
qed

lemma webhook_Succeed_sound: "webhook_inv db \<Longrightarrow> webhook_sound db (fst (webhook_Succeed env p db))"
  unfolding webhook_Succeed_def by (rule finish_delivery_sound) (simp_all add: delivery_ok_def delivery_history_def delivery_states)

lemma webhook_Fail_sound: "webhook_inv db \<Longrightarrow> webhook_sound db (fst (webhook_Fail env p db))"
  unfolding webhook_Fail_def
  by (rule finish_delivery_sound) (simp_all add: failed_delivery_def Let_def delivery_ok_def delivery_history_def delivery_states)

subsection \<open>Sequences of transactions\<close>

datatype webhook_tx =
    WhCreate job_env CreateWebhookParams
  | WhUpdate job_env UpdateWebhookParams
  | WhRotate job_env RotateSecretParams
  | WhTest webhook_env EnqueueTestParams
  | WhNotify webhook_env string notification_row
  | WhForget string
  | WhClaim webhook_env ClaimDeliveryParams
  | WhSucceed job_env CompleteParams
  | WhFail job_env FailDeliveryParams

fun run_webhook :: "webhook_tx \<Rightarrow> webhook_db \<Rightarrow> webhook_db" where
  "run_webhook (WhCreate env p) db = fst (webhook_Create env p db)"
| "run_webhook (WhUpdate env p) db = fst (webhook_Update env p db)"
| "run_webhook (WhRotate env p) db = fst (webhook_RotateSecret env p db)"
| "run_webhook (WhTest env p) db = fst (webhook_EnqueueTest env p db)"
| "run_webhook (WhNotify env nid n) db = (case enqueue_notification_webhooks env nid n db of None \<Rightarrow> db | Some db1 \<Rightarrow> db1)"
| "run_webhook (WhForget nid) db = (case forget_notification nid db of None \<Rightarrow> db | Some db1 \<Rightarrow> db1)"
| "run_webhook (WhClaim env p) db = fst (webhook_Claim env p db)"
| "run_webhook (WhSucceed env p) db = fst (webhook_Succeed env p db)"
| "run_webhook (WhFail env p) db = fst (webhook_Fail env p db)"

lemma run_webhook_sound: "webhook_inv db \<Longrightarrow> webhook_sound db (run_webhook tx db)"
proof (cases tx)
  case (WhNotify env nid n)
  assume "webhook_inv db"
  then show ?thesis
    unfolding WhNotify by (simp add: enqueue_notification_webhooks_def webhook_sound_refl enqueue_endpoints_sound split: option.split)
next
  case (WhForget nid)
  assume "webhook_inv db"
  then show ?thesis unfolding WhForget using forget_notification_same [of nid db] by (cases "forget_notification nid db") (auto simp: webhook_sound_refl)
qed (simp_all add: webhook_Create_sound webhook_Update_sound webhook_RotateSecret_sound webhook_EnqueueTest_sound webhook_Claim_sound
  webhook_Succeed_sound webhook_Fail_sound)

interpretation webhooks: transactions run_webhook webhook_inv webhook_progress "\<lambda>_. True"
  using run_webhook_sound webhook_progress_trans by unfold_locales (auto simp: webhook_sound_def)

definition empty_webhooks :: "(string \<times> string) list \<Rightarrow> webhook_db" where
  "empty_webhooks ms = \<lparr>wb_endpoints = [], wb_deliveries = [], wb_audits = [], wb_memberships = ms\<rparr>"

lemma empty_webhooks_inv: "webhook_inv (empty_webhooks ms)"
  by (simp add: webhook_inv_def empty_webhooks_def notices_def)

text \<open>
  C10: the tables of the webhooks stay consistent.  After every sequence of creations, changes and secret
  rotations of endpoints, test and notification deliveries, claims, successes and failures, with faults and
  lost replies, every constraint of the tables holds, a notification has at most one delivery per endpoint,
  and the attempts of a delivery fit its state.  Whatever runs later, a delivery keeps its event and
  payload, its attempts never decrease, one that has ended never changes, and the versions of the endpoints
  only grow.
\<close>

theorem webhook_tables_consistent:
  "webhook_inv (fold run_webhook txs (empty_webhooks ms))
   \<and> webhook_progress (fold run_webhook txs (empty_webhooks ms)) (fold run_webhook later (fold run_webhook txs (empty_webhooks ms)))"
proof -
  have inv: "webhook_inv (fold run_webhook txs (empty_webhooks ms))" by (rule webhooks.runs_inv [OF empty_webhooks_inv]) simp
  then show ?thesis using webhooks.runs_progress [OF inv] by simp
qed

subsection \<open>At most five attempts\<close>

fun handed_out :: "webhook_tx \<Rightarrow> webhook_db \<Rightarrow> string option" where
  "handed_out (WhClaim env p) db = (case snd (webhook_Claim env p db) of Inl _ \<Rightarrow> None | Inr a \<Rightarrow> Some (dl_ID a))"
| "handed_out _ db = None"

fun claims :: "string \<Rightarrow> webhook_tx list \<Rightarrow> webhook_db \<Rightarrow> nat" where
  "claims i [] db = 0"
| "claims i (tx # txs) db = (if handed_out tx db = Some i then 1 else 0) + claims i txs (run_webhook tx db)"

definition attempts_on :: "string \<Rightarrow> webhook_db \<Rightarrow> nat" where
  "attempts_on i db = (case find (\<lambda>r. wd_id r = i) (wb_deliveries db) of None \<Rightarrow> 0 | Some r \<Rightarrow> nat (wd_attempts r))"

lemma attempts_on_row: "webhook_inv db \<Longrightarrow> r \<in> set (wb_deliveries db) \<Longrightarrow> attempts_on (wd_id r) db = nat (wd_attempts r)"
proof -
  assume r: "webhook_inv db" "r \<in> set (wb_deliveries db)"
  then obtain s where s: "find (\<lambda>q. wd_id q = wd_id r) (wb_deliveries db) = Some s"
    by (cases "find (\<lambda>q. wd_id q = wd_id r) (wb_deliveries db)") (auto simp: find_None_iff)
  then have "s \<in> set (wb_deliveries db)" "wd_id s = wd_id r" by (auto simp: find_Some_iff)
  then have "s = r" using same_delivery [OF r(1) _ r(2)] by blast
  then show ?thesis using s by (simp add: attempts_on_def)
qed

lemma attempts_on_bound: "webhook_inv db \<Longrightarrow> attempts_on i db \<le> 5"
proof (cases "find (\<lambda>r. wd_id r = i) (wb_deliveries db)")
  case (Some r)
  assume "webhook_inv db"
  moreover have "r \<in> set (wb_deliveries db)" using Some by (auto simp: find_Some_iff)
  ultimately have "wd_attempts r \<le> 5" using webhook_invD(4) [of db r] by (simp add: delivery_ok_def delivery_checks_def)
  then show ?thesis using Some by (simp add: attempts_on_def)
qed (simp add: attempts_on_def)

lemma attempts_on_mono: "webhook_inv db \<Longrightarrow> webhook_sound db db' \<Longrightarrow> attempts_on i db \<le> attempts_on i db'"
proof (cases "find (\<lambda>r. wd_id r = i) (wb_deliveries db)")
  case (Some r)
  assume "webhook_inv db" "webhook_sound db db'"
  moreover have "r \<in> set (wb_deliveries db)" "wd_id r = i" using Some by (auto simp: find_Some_iff)
  moreover from this obtain s where "s \<in> set (wb_deliveries db')" "kept_delivery r s"
    using calculation(2) by (auto simp: webhook_sound_def webhook_progress_def)
  moreover from this have "wd_id s = i" "wd_attempts r \<le> wd_attempts s"
    using calculation(4) by (simp_all add: kept_delivery_def guard_projection_def)
  ultimately show ?thesis using attempts_on_row [of db r] attempts_on_row [of db' s] by (simp add: webhook_sound_def)
qed (simp add: attempts_on_def)

lemma set_delivery_mem: "r \<in> set (wb_deliveries db) \<Longrightarrow> wd_id new = wd_id r \<Longrightarrow> new \<in> set (wb_deliveries (set_delivery new db))"
  by (force simp: set_delivery_def)

lemma claim_counts:
  assumes "webhook_inv db"
  shows "(if handed_out tx db = Some i then 1 else 0) + attempts_on i db \<le> attempts_on i (run_webhook tx db)"
proof (cases "handed_out tx db = Some i")
  case True
  then obtain env p a where tx: "tx = WhClaim env p" "snd (webhook_Claim env p db) = Inr a" "dl_ID a = i"
    by (cases tx) (auto split: sum.splits)
  show ?thesis
  proof (cases rule: webhook_Claim_cases [of env p db])
    case same
    then show ?thesis using tx(2) by blast
  next
    case (claimed r)
    let ?new = "claimed_delivery env p r"
    note c = delivery_candidate_in(1) [OF claimed(1)]
    have new: "wd_id ?new = wd_id r" "wd_attempts ?new = wd_attempts r + 1" using claimed_delivery_fields(1,3) [where r = r and wenv = env and p = p] by (simp_all add: guard_projection_def)
    have "wd_id r = i" using tx(2,3) claimed(1) new(1)
      by (auto simp: webhook_Claim_def Let_def delivery_attempt_def Delivery.defs scanDelivery_def split: if_splits option.splits)
    moreover have "?new \<in> set (wb_deliveries (run_webhook tx db))" using set_delivery_mem [OF c new(1)] claimed(3) tx(1) by simp
    moreover have "webhook_inv (run_webhook tx db)" using run_webhook_sound [OF assms] by (simp add: webhook_sound_def)
    moreover have "0 \<le> wd_attempts r" using webhook_invD(4) [OF assms c] by (simp add: delivery_ok_def delivery_checks_def)
    ultimately show ?thesis using attempts_on_row [OF assms c] attempts_on_row [of "run_webhook tx db" ?new] new True by simp
  qed
qed (simp add: attempts_on_mono [OF assms run_webhook_sound [OF assms]])

lemma claims_bound: "webhook_inv db \<Longrightarrow> claims i txs db + attempts_on i db \<le> 5"
proof (induction txs arbitrary: db)
  case Nil
  then show ?case by (simp add: attempts_on_bound)
next
  case (Cons tx txs)
  then have "webhook_inv (run_webhook tx db)" using run_webhook_sound by (auto simp: webhook_sound_def)
  then show ?case using Cons.IH claim_counts [OF Cons.prems, of tx i] by fastforce
qed

text \<open>
  C36: no delivery is handed to a worker more than five times, over every sequence of transactions, however
  often workers stop, leases run out or replies are lost.
\<close>

theorem delivery_attempts_bounded: "claims i txs (empty_webhooks ms) \<le> 5"
  using claims_bound [OF empty_webhooks_inv, of i txs ms] by simp

subsection \<open>Which transactions leave a delivery alone\<close>

definition waiting_delivery :: "delivery_row \<Rightarrow> bool" where
  "waiting_delivery r \<longleftrightarrow> wd_state r \<in> {DeliveryPending, DeliveryRetryWait}"

definition current_endpoint :: "delivery_row \<Rightarrow> webhook_db \<Rightarrow> bool" where
  "current_endpoint r db \<longleftrightarrow> (\<exists>e\<in>set (wb_endpoints db). we_id e = wd_webhook_id r \<and> we_version e = wd_webhook_version r)"

fun spares_delivery :: "delivery_row \<Rightarrow> webhook_tx \<Rightarrow> webhook_db \<Rightarrow> bool" where
  "spares_delivery r (WhClaim env p) db \<longleftrightarrow> \<not> deliverable (pg_time (cd_Now p)) db r"
| "spares_delivery r (WhSucceed env p) db \<longleftrightarrow> \<not> (Some (wd_id r) = je_uuid env (cp_DeliveryID p) \<and> wd_lease_owner r = Some (cp_WorkerID p))"
| "spares_delivery r (WhFail env p) db \<longleftrightarrow> \<not> (Some (wd_id r) = je_uuid env (fd_DeliveryID p) \<and> wd_lease_owner r = Some (fd_WorkerID p))"
| "spares_delivery r (WhUpdate env p) db \<longleftrightarrow> \<not> (waiting_delivery r \<and> current_endpoint r db)"
| "spares_delivery r (WhRotate env p) db \<longleftrightarrow> \<not> (waiting_delivery r \<and> current_endpoint r db)"
| "spares_delivery r _ db \<longleftrightarrow> True"

lemma set_delivery_other: "r \<in> set (wb_deliveries db) \<Longrightarrow> wd_id r \<noteq> wd_id new \<Longrightarrow> r \<in> set (wb_deliveries (set_delivery new db))"
  by (force simp: set_delivery_def)

lemma commit_audit_deliveries:
  assumes "r \<in> set (wb_deliveries db)" "r \<in> set (wb_deliveries db1)" "webhook_audit env i w a act t db1 = Inr db2"
  shows "r \<in> set (wb_deliveries (fst (webhook_commit env msg db db2 x)))"
  using assms webhook_audit_frame [OF assms(3)] by (simp add: webhook_commit_def)

lemma insert_delivery_mem: "r \<in> set (wb_deliveries db) \<Longrightarrow> insert_delivery row db = Inr db' \<Longrightarrow> r \<in> set (wb_deliveries db')"
  by (auto simp: insert_delivery_def split: if_splits)

lemma change_endpoint_spares:
  assumes "r \<in> set (wb_deliveries db)" "\<not> (waiting_delivery r \<and> current_endpoint r db)"
  shows "r \<in> set (wb_deliveries (fst (change_endpoint env m1 m2 m3 act a w u i v f db)))"
proof (cases "find (\<lambda>e. Some (we_id e) = je_uuid env i \<and> Some (we_workspace_id e) = je_uuid env w \<and> we_version e = v) (wb_endpoints db)")
  case None
  then show ?thesis using assms(1) by (simp add: change_endpoint_def)
next
  case (Some e)
  then have "e \<in> set (wb_endpoints db)" by (auto simp: find_Some_iff)
  then have "\<not> (wd_webhook_id r = we_id e \<and> wd_webhook_version r = we_version e \<and> wd_state r \<in> {DeliveryPending, DeliveryRetryWait})"
    using assms(2) by (auto simp: current_endpoint_def waiting_delivery_def)
  then have "r \<in> set (wb_deliveries (cancel_stale env e new (set_endpoint new db)))" for new
    using assms(1) by (force simp: cancel_stale_def set_endpoint_def)
  then show ?thesis
    using assms(1) Some by (simp add: change_endpoint_def Let_def split: sum.split) (blast intro: commit_audit_deliveries)
qed

lemma finish_delivery_spares:
  assumes "webhook_inv db" "r \<in> set (wb_deliveries db)" "\<not> (Some (wd_id r) = je_uuid env i \<and> wd_lease_owner r = Some w)"
  shows "r \<in> set (wb_deliveries (fst (finish_delivery env msg i w f db)))"
proof (cases rule: finish_delivery_cases [of env msg i w f db])
  case same
  then show ?thesis using assms(2) by simp
next
  case (finished s)
  have "wd_id r \<noteq> wd_id s" using same_delivery [OF assms(1,2) finished(1)] finished(2,4) assms(3) by auto
  moreover have "wd_id ((f s)\<lparr>wd_lease_owner := None, wd_lease_expires_at := None\<rparr>) = wd_id s" using finished(6) by (simp add: guard_projection_def)
  ultimately show ?thesis using set_delivery_other [OF assms(2)] finished(7) by simp
qed

lemma webhook_Claim_spares:
  assumes "webhook_inv db" "r \<in> set (wb_deliveries db)" "\<not> deliverable (pg_time (cd_Now p)) db r"
  shows "r \<in> set (wb_deliveries (fst (webhook_Claim env p db)))"
proof (cases rule: webhook_Claim_cases [of env p db])
  case same
  then show ?thesis using assms(2) by simp
next
  case (claimed s)
  have "wd_id r \<noteq> wd_id s" using same_delivery [OF assms(1,2)] delivery_candidate_in [OF claimed(1)] assms(3) by auto
  moreover have "wd_id (claimed_delivery env p s) = wd_id s" using claimed_delivery_fields(1) [of s env p] by (simp add: guard_projection_def)
  ultimately show ?thesis using set_delivery_other [OF assms(2)] claimed(3) by simp
qed

lemma enqueue_endpoints_mem:
  "r \<in> set (wb_deliveries db) \<Longrightarrow> enqueue_endpoints wenv nid n k es db = Some db' \<Longrightarrow> r \<in> set (wb_deliveries db')"
  by (induction wenv nid n k es db rule: enqueue_endpoints.induct) (auto split: sum.splits dest: insert_delivery_mem)

lemma spares_delivery_keeps:
  assumes "webhook_inv db" "r \<in> set (wb_deliveries db)" "spares_delivery r tx db"
  shows "r \<in> set (wb_deliveries (run_webhook tx db))"
proof (cases tx)
  case (WhCreate env p)
  then show ?thesis using assms(2)
    by (simp add: webhook_Create_def split: option.split sum.split) (auto dest!: webhook_audit_frame simp: webhook_commit_def)
next
  case (WhTest env p)
  then show ?thesis using assms(2)
    by (simp add: webhook_EnqueueTest_def Let_def split: option.split sum.split) (blast intro: commit_audit_deliveries insert_delivery_mem)
next
  case (WhNotify env nid n)
  then show ?thesis using assms(2) by (auto simp: enqueue_notification_webhooks_def split: option.split dest: enqueue_endpoints_mem)
next
  case (WhForget nid)
  then show ?thesis using assms(2) forget_notification_same [of nid db] by (cases "forget_notification nid db") auto
qed (use assms in \<open>simp_all add: webhook_Update_def webhook_RotateSecret_def change_endpoint_spares webhook_Claim_spares webhook_Succeed_def
  webhook_Fail_def finish_delivery_spares\<close>)

lemma spared_forever:
  assumes "webhook_inv db" "P db" "r \<in> set (wb_deliveries db)"
    and "\<And>d tx. webhook_inv d \<Longrightarrow> P d \<Longrightarrow> r \<in> set (wb_deliveries d) \<Longrightarrow> tx \<in> set txs \<Longrightarrow> spares_delivery r tx d \<and> P (run_webhook tx d)"
  shows "r \<in> set (wb_deliveries (fold run_webhook txs db))"
  using assms
proof (induction txs arbitrary: db)
  case (Cons tx txs)
  have "webhook_inv (run_webhook tx db)" using run_webhook_sound [OF Cons.prems(1)] by (simp add: webhook_sound_def)
  moreover have "P (run_webhook tx db)" "r \<in> set (wb_deliveries (run_webhook tx db))"
    using Cons.prems(4) [OF Cons.prems(1-3)] spares_delivery_keeps [OF Cons.prems(1,3)] by simp_all
  ultimately show ?case using Cons.IH Cons.prems(4) by simp
qed simp

subsection \<open>A lease excludes everybody else\<close>

fun before_lease_end :: "delivery_row \<Rightarrow> webhook_tx \<Rightarrow> bool" where
  "before_lease_end r (WhClaim env p) \<longleftrightarrow> (case wd_lease_expires_at r of None \<Rightarrow> False | Some t \<Rightarrow> pg_time (cd_Now p) < t)"
| "before_lease_end r (WhSucceed env p) \<longleftrightarrow> wd_lease_owner r \<noteq> Some (cp_WorkerID p)"
| "before_lease_end r (WhFail env p) \<longleftrightarrow> wd_lease_owner r \<noteq> Some (fd_WorkerID p)"
| "before_lease_end r _ \<longleftrightarrow> True"

text \<open>
  While a worker holds the lease of a delivery, nobody else touches it.  Claims before the lease
  ends, results reported by other workers, changes of the endpoint, new deliveries, with any faults: after
  every sequence of them the row of the delivery is exactly as the claim left it.
\<close>

theorem delivery_lease_exclusive:
  assumes "webhook_inv db" "r \<in> set (wb_deliveries db)" "wd_state r = DeliveryDelivering" "\<forall>tx\<in>set txs. before_lease_end r tx"
  shows "r \<in> set (wb_deliveries (fold run_webhook txs db))"
proof (rule spared_forever [OF assms(1) TrueI assms(2)])
  fix d tx assume "tx \<in> set txs"
  then have "before_lease_end r tx" using assms(4) by blast
  then show "spares_delivery r tx d \<and> True"
    using assms(3) by (cases tx) (auto simp: deliverable_def waiting_delivery_def delivery_states split: option.splits)
qed

subsection \<open>Deliveries that are never ended\<close>

lemma current_endpoint_gone:
  assumes "webhook_inv db" "e \<in> set (wb_endpoints db)" "we_id e = wd_webhook_id r" "wd_webhook_version r < we_version e"
  shows "\<not> current_endpoint r db" "\<not> deliverable now db r"
  using same_endpoint [OF assms(1,2)] assms(3,4) by (auto simp: current_endpoint_def deliverable_def)

text \<open>
  C39: a delivery that waits for a version its endpoint no longer has is never ended.  The trigger
  cancels what waits at the moment of the change; a delivery that was with a worker then and is to be
  retried, or a test delivery enqueued for the version just replaced, waits afterwards.  No sequence of
  transactions delivers, fails or cancels it.
\<close>

theorem stale_delivery_stuck:
  assumes "webhook_inv db" "r \<in> set (wb_deliveries db)" "wd_state r \<in> {DeliveryPending, DeliveryRetryWait}"
    and "e \<in> set (wb_endpoints db)" "we_id e = wd_webhook_id r" "wd_webhook_version r < we_version e"
  shows "r \<in> set (wb_deliveries (fold run_webhook txs db))"
proof (rule spared_forever [where P = "\<lambda>d. \<exists>f\<in>set (wb_endpoints d). we_id f = wd_webhook_id r \<and> wd_webhook_version r < we_version f"])
  have "\<not> delivery_checks r" if "wd_lease_owner r \<noteq> None" using that assms(3) by (auto simp: delivery_checks_def delivery_states)
  then have free: "wd_lease_owner r = None" using webhook_invD(4) [OF assms(1,2)] by (cases "wd_lease_owner r") (auto simp: delivery_ok_def)
  fix d tx assume d: "webhook_inv d" "\<exists>f\<in>set (wb_endpoints d). we_id f = wd_webhook_id r \<and> wd_webhook_version r < we_version f"
  then have "spares_delivery r tx d"
    using current_endpoint_gone [OF d(1), of _ r] free by (cases tx) auto
  moreover have "\<exists>f\<in>set (wb_endpoints (run_webhook tx d)). we_id f = wd_webhook_id r \<and> wd_webhook_version r < we_version f"
    using d(2) run_webhook_sound [OF d(1), of tx] unfolding webhook_sound_def webhook_progress_def kept_endpoint_def by fastforce
  ultimately show "spares_delivery r tx d \<and> (\<exists>f\<in>set (wb_endpoints (run_webhook tx d)). we_id f = wd_webhook_id r \<and> wd_webhook_version r < we_version f)"
    by blast
qed (use assms in auto)

fun reports_on :: "delivery_row \<Rightarrow> webhook_tx \<Rightarrow> bool" where
  "reports_on r (WhSucceed env p) \<longleftrightarrow> wd_lease_owner r = Some (cp_WorkerID p)"
| "reports_on r (WhFail env p) \<longleftrightarrow> wd_lease_owner r = Some (fd_WorkerID p)"
| "reports_on r _ \<longleftrightarrow> False"

text \<open>
  A delivery whose last attempt is never reported stays in delivery for ever.  When the worker
  of the fifth attempt stops, or its report is refused, the expired lease is not taken over, because a
  claim wants an attempt to be left, and nothing else ends the delivery.
\<close>

theorem exhausted_delivery_stuck:
  assumes "webhook_inv db" "r \<in> set (wb_deliveries db)" "wd_state r = DeliveryDelivering" "wd_attempts r = 5"
    and "\<forall>tx\<in>set txs. \<not> reports_on r tx"
  shows "r \<in> set (wb_deliveries (fold run_webhook txs db))"
proof (rule spared_forever [OF assms(1) TrueI assms(2)])
  have "wd_max_attempts r = 5" using webhook_invD(4) [OF assms(1,2)] by (simp add: delivery_ok_def delivery_checks_def)
  fix d tx assume "tx \<in> set txs"
  then have "\<not> reports_on r tx" using assms(5) by blast
  then show "spares_delivery r tx d \<and> True"
    using assms(3,4) \<open>wd_max_attempts r = 5\<close> by (cases tx) (auto simp: deliverable_def waiting_delivery_def delivery_states)
qed

text \<open>
  C40: a notification with a delivery can never be deleted.  Its deletion would set the reference of the
  delivery to null, and the guard of the deliveries refuses that, now and after every sequence of
  transactions.  The purge of an asset deletes its jobs and with them their notifications, so it fails for
  every asset with a job that a webhook was told about.
\<close>

theorem notified_job_undeletable:
  assumes "webhook_inv db" "r \<in> set (wb_deliveries db)" "wd_notification_id r = Some nid"
  shows "forget_notification nid (fold run_webhook txs db) = None"
proof -
  obtain s where "s \<in> set (wb_deliveries (fold run_webhook txs db))" "kept_delivery r s"
    using webhooks.runs_progress [OF assms(1), of txs] assms(2) by (auto simp: webhook_progress_def)
  then have "\<not> guard_projection s (s\<lparr>wd_notification_id := None\<rparr>)" "wd_notification_id s = Some nid"
    using assms(3) by (simp_all add: kept_delivery_def guard_projection_def)
  with \<open>s \<in> _\<close> show ?thesis by (auto simp: forget_notification_def Let_def list_all_iff)
qed

subsection \<open>Samples\<close>

definition sample_endpoint :: endpoint_row where
  "sample_endpoint = \<lparr>we_id = ''h'', we_workspace_id = ''w'', we_display_name = ''x'', we_url = ''https://a'', we_event_types = [EventJobSucceeded],
     we_state = StateEnabled, we_version = 1, we_secret_version = 1, we_secret = ''k'', we_created_by = ''u'', we_created_at = 0, we_updated_at = 0\<rparr>"

definition sample_delivery :: delivery_row where
  "sample_delivery = pending_delivery 1 ''d'' ''w'' ''h'' 1 (Some ''n'') ''n'' EventJobSucceeded ''{}'' 0"

definition sample_webhooks :: webhook_db where
  "sample_webhooks = \<lparr>wb_endpoints = [sample_endpoint], wb_deliveries = [sample_delivery], wb_audits = [], wb_memberships = [(''w'', ''u'')]\<rparr>"

definition sample_webhook_env :: webhook_env where
  "sample_webhook_env = \<lparr>wv_pg = sample_job_env, wv_sequence = \<lambda>k. int k + 2, wv_uuid = \<lambda>_. ''d2'', wv_interval = \<lambda>d. d, wv_timestamp = \<lambda>_. []\<rparr>"

definition sample_delivery_claim :: ClaimDeliveryParams where
  "sample_delivery_claim = \<lparr>cd_WorkerID = ''x'', cd_Now = 6000, cd_LeaseDuration = 0\<rparr>"

definition sample_delivering :: delivery_row where
  "sample_delivering = claimed_delivery sample_webhook_env sample_delivery_claim sample_delivery"

lemma sample_endpoint_checks: "endpoint_checks sample_endpoint"
  by (simp add: endpoint_checks_def sample_endpoint_def text_between_ascii allowedEvents_def webhook_events StateEnabled_def max_i64_def)

lemma sample_payload: "payload_checks ''{}''"
proof -
  have "json_parse ''{}'' = Some (JObj [])" by code_simp
  then show ?thesis by (simp add: payload_checks_def)
qed

lemma sample_delivery_checks: "delivery_checks sample_delivery" "delivery_checks sample_delivering"
  using sample_payload sample_text(1)
  by (simp_all add: delivery_checks_def sample_delivering_def claimed_delivery_def sample_delivery_def pending_delivery_def sample_delivery_claim_def
      Let_def opt_check_def delivery_states webhook_events)

lemma sample_webhooks_inv: "webhook_inv sample_webhooks"
  using sample_endpoint_checks sample_delivery_checks(1)
  by (simp add: webhook_inv_def sample_webhooks_def delivery_ok_def delivery_history_def notices_def endpoint_key_def)
    (simp add: sample_delivery_def pending_delivery_def sample_endpoint_def delivery_states)

lemma sample_job_env_simps [simp]:
  "\<not> je_fails sample_job_env k m" "je_uuid sample_job_env = Some" "\<not> je_locked sample_job_env i"
  by (simp_all add: sample_job_env_def)

lemma sample_claim_run:
  "run_webhook (WhClaim sample_webhook_env sample_delivery_claim) sample_webhooks = sample_webhooks\<lparr>wb_deliveries := [sample_delivering]\<rparr>"
proof -
  have "deliverable (pg_time 6000) sample_webhooks sample_delivery"
    by (simp add: deliverable_def sample_webhooks_def sample_delivery_def pending_delivery_def sample_endpoint_def delivery_states pg_time_def microsecond_def)
  then have "delivery_candidate sample_job_env (pg_time 6000) sample_webhooks = Some sample_delivery"
    by (simp add: delivery_candidate_def sample_webhooks_def)
  moreover have "guard_projection sample_delivery sample_delivering" by (simp add: sample_delivering_def claimed_delivery_fields)
  moreover have "we_id sample_endpoint = wd_webhook_id sample_delivery" "we_workspace_id sample_endpoint = wd_workspace_id sample_delivery"
    by (simp_all add: sample_endpoint_def sample_delivery_def pending_delivery_def)
  moreover have "wd_id sample_delivering = wd_id sample_delivery"
    by (simp add: sample_delivering_def claimed_delivery_def Let_def)
  ultimately show ?thesis
    using sample_delivery_checks(2) sample_text(1)
    by (simp add: webhook_Claim_def Let_def sample_webhook_env_def sample_delivery_claim_def)
      (simp add: sample_delivering_def sample_webhook_env_def sample_delivery_claim_def set_delivery_def sample_webhooks_def)
qed

lemma sample_delivering_fields:
  "wd_id sample_delivering = ''d''" "wd_webhook_id sample_delivering = ''h''" "wd_webhook_version sample_delivering = 1"
  "wd_state sample_delivering = DeliveryDelivering" "wd_attempts sample_delivering = 1" "wd_max_attempts sample_delivering = 5"
  "wd_lease_owner sample_delivering = Some ''x''" "wd_lease_expires_at sample_delivering = Some (6000 + 2 * minute)"
  by (simp_all add: sample_delivering_def claimed_delivery_def Let_def sample_delivery_def pending_delivery_def sample_delivery_claim_def
      sample_webhook_env_def defaultDeliveryLease_def pg_time_def microsecond_def)

definition sample_leased :: webhook_db where
  "sample_leased = sample_webhooks\<lparr>wb_deliveries := [sample_delivering]\<rparr>"

lemma sample_leased_inv: "webhook_inv sample_leased"
  using run_webhook_sound [OF sample_webhooks_inv, of "WhClaim sample_webhook_env sample_delivery_claim"]
  unfolding sample_claim_run sample_leased_def by (simp add: webhook_sound_def)

theorem delivery_lease_exclusive_witness:
  "sample_delivering \<in> set (wb_deliveries (fold run_webhook [WhClaim sample_webhook_env (sample_delivery_claim\<lparr>cd_WorkerID := ''y'', cd_Now := 7000\<rparr>)] sample_leased))"
proof (rule delivery_lease_exclusive [OF sample_leased_inv])
  show "\<forall>tx\<in>set [WhClaim sample_webhook_env (sample_delivery_claim\<lparr>cd_WorkerID := ''y'', cd_Now := 7000\<rparr>)]. before_lease_end sample_delivering tx"
    by (simp add: sample_delivering_fields pg_time_def time_units)
qed (simp_all add: sample_leased_def sample_delivering_fields)

definition sample_update :: UpdateWebhookParams where
  "sample_update = \<lparr>uw_EndpointID = ''h'', uw_AuditID = ''q'', uw_WorkspaceID = ''w'', uw_UpdatedBy = ''u'', uw_DisplayName = ''x'', uw_URL = ''https://a'',
     uw_EventTypes = [EventJobSucceeded], uw_State = StateEnabled, uw_ExpectedVersion = 1\<rparr>"

definition sample_delivery_fail :: FailDeliveryParams where
  "sample_delivery_fail = \<lparr>fd_DeliveryID = ''d'', fd_WorkerID = ''x'', fd_Now = 7000, fd_RetryAt = 8000, fd_ResponseStatus = None,
     fd_ErrorCode = DeliveryErrorTransport, fd_Retryable = True\<rparr>"

text \<open>The endpoint changes while the delivery is with a worker, and the worker asks for a retry.\<close>

lemma sample_changed:
  "\<exists>a. run_webhook (WhUpdate sample_job_env sample_update) sample_leased
     = sample_leased\<lparr>wb_endpoints := [sample_endpoint\<lparr>we_version := 2, we_updated_at := pg_time 9000000\<rparr>], wb_audits := a\<rparr>"
proof -
  have "endpoint_checks (sample_endpoint\<lparr>we_version := 2, we_updated_at := pg_time 9000000\<rparr>)"
    using sample_endpoint_checks by (simp add: endpoint_checks_def sample_endpoint_def max_i64_def)
  moreover have "cancel_stale sample_job_env sample_endpoint (sample_endpoint\<lparr>we_version := 2, we_updated_at := t\<rparr>) db = db"
    if "wb_deliveries db = [sample_delivering]" for t db
    using that by (simp add: cancel_stale_def sample_delivering_fields delivery_states)
  moreover have "sample_endpoint\<lparr>we_display_name := ''x'', we_url := ''https://a'', we_event_types := [EventJobSucceeded], we_state := StateEnabled\<rparr> = sample_endpoint"
    by (simp add: sample_endpoint_def)
  moreover have "we_id sample_endpoint = ''h''" "we_workspace_id sample_endpoint = ''w''" "we_version sample_endpoint = 1" by (simp_all add: sample_endpoint_def)
  moreover have "je_clock sample_job_env k = 9000000" for k by (simp add: sample_job_env_def)
  ultimately show ?thesis
    by (simp add: webhook_Update_def change_endpoint_def sample_update_def sample_leased_def sample_webhooks_def set_endpoint_def Let_def webhook_audit_def
        webhook_commit_def)
qed

definition sample_retry :: delivery_row where
  "sample_retry = (failed_delivery sample_delivery_fail sample_delivering)\<lparr>wd_lease_owner := None, wd_lease_expires_at := None\<rparr>"

lemma sample_retried:
  assumes "wb_deliveries db = [sample_delivering]"
  shows "run_webhook (WhFail sample_job_env sample_delivery_fail) db = db\<lparr>wb_deliveries := [sample_retry]\<rparr>"
proof -
  have "delivery_checks sample_retry"
    using sample_delivery_checks(2)
    by (simp add: delivery_checks_def sample_retry_def failed_delivery_def Let_def sample_delivering_fields sample_delivery_fail_def delivery_states opt_check_def)
  moreover have "guard_projection sample_delivering sample_retry" "wd_id sample_retry = ''d''"
    by (simp_all add: sample_retry_def failed_delivery_def Let_def guard_projection_def sample_delivering_fields)
  ultimately show ?thesis
    using assms sample_text(1)
    by (simp add: webhook_Fail_def finish_delivery_def Let_def sample_delivering_fields sample_retry_def [symmetric])
      (simp add: sample_delivery_fail_def sample_delivering_fields set_delivery_def)
qed

theorem stale_delivery_stuck_witness:
  "sample_retry \<in> set (wb_deliveries (fold run_webhook [WhClaim sample_webhook_env (sample_delivery_claim\<lparr>cd_Now := 9000\<rparr>), WhUpdate sample_job_env sample_update]
     (fold run_webhook [WhUpdate sample_job_env sample_update, WhFail sample_job_env sample_delivery_fail] sample_leased)))"
proof -
  let ?db = "fold run_webhook [WhUpdate sample_job_env sample_update, WhFail sample_job_env sample_delivery_fail] sample_leased"
  have inv: "webhook_inv ?db" by (rule webhooks.runs_inv [OF sample_leased_inv]) simp
  let ?e = "sample_endpoint\<lparr>we_version := 2, we_updated_at := pg_time 9000000\<rparr>"
  obtain a where db: "?db = sample_leased\<lparr>wb_endpoints := [?e], wb_audits := a, wb_deliveries := [sample_retry]\<rparr>"
    using sample_changed sample_retried by (auto simp: sample_leased_def simp del: run_webhook.simps)
  show ?thesis
  proof (rule stale_delivery_stuck [OF inv])
    show "sample_retry \<in> set (wb_deliveries ?db)" "?e \<in> set (wb_endpoints ?db)" unfolding db by simp_all
    show "wd_state sample_retry \<in> {DeliveryPending, DeliveryRetryWait}" "we_id ?e = wd_webhook_id sample_retry" "wd_webhook_version sample_retry < we_version ?e"
      by (simp_all add: sample_retry_def failed_delivery_def Let_def sample_delivering_fields sample_delivery_fail_def sample_endpoint_def)
  qed
qed

definition sample_exhausted :: delivery_row where
  "sample_exhausted = sample_delivering\<lparr>wd_attempts := 5\<rparr>"

theorem exhausted_delivery_stuck_witness:
  "sample_exhausted \<in> set (wb_deliveries (fold run_webhook [WhClaim sample_webhook_env (sample_delivery_claim\<lparr>cd_WorkerID := ''y'', cd_Now := 10 * hour\<rparr>)]
     (sample_webhooks\<lparr>wb_deliveries := [sample_exhausted]\<rparr>)))"
proof (rule exhausted_delivery_stuck)
  have "delivery_checks sample_exhausted" using sample_delivery_checks(2) by (simp add: delivery_checks_def sample_exhausted_def sample_delivering_fields)
  then show "webhook_inv (sample_webhooks\<lparr>wb_deliveries := [sample_exhausted]\<rparr>)"
    using sample_endpoint_checks
    by (simp add: webhook_inv_def sample_webhooks_def delivery_ok_def delivery_history_def notices_def endpoint_key_def sample_exhausted_def
        sample_delivering_fields delivery_states) (simp add: sample_endpoint_def sample_delivering_def claimed_delivery_def Let_def sample_delivery_def pending_delivery_def)
qed (simp_all add: sample_exhausted_def sample_delivering_fields)

theorem notified_job_undeletable_witness:
  "forget_notification ''n'' (fold run_webhook [WhClaim sample_webhook_env sample_delivery_claim, WhForget ''n''] sample_webhooks) = None"
  by (rule notified_job_undeletable [OF sample_webhooks_inv, of sample_delivery])
    (simp_all add: sample_webhooks_def sample_delivery_def pending_delivery_def)

end
