(* ===== verification/Outbound_Http.thy ===== *)
theory Outbound_Http
  imports Go_Json
begin

text \<open>
  \<^verbatim>\<open>internal/platform/outboundhttp/outboundhttp.go\<close>: the guard of outbound connections.

  Addresses are the numbers of \<^verbatim>\<open>netip.Addr\<close>: 32 bits, or 128 bits with a zone; the predicates on them are
  those of the Go library.  What \<^verbatim>\<open>url.Parse\<close>, \<^verbatim>\<open>netip.ParseAddr\<close>, the resolver and the dialer answer is
  given by the environment.
\<close>

subsection \<open>Addresses\<close>

datatype addr = V4 u32 | V6 "128 word" string

text \<open>\<^verbatim>\<open>netip.Prefix.Contains\<close>: the leading bits agree, the families too, and there is no zone.\<close>

datatype prefix = P4 u32 nat | P6 "128 word" nat

fun prefix_contains :: "prefix \<Rightarrow> addr \<Rightarrow> bool" where
  "prefix_contains (P4 p n) (V4 a) \<longleftrightarrow> drop_bit (32 - n) a = drop_bit (32 - n) p"
| "prefix_contains (P6 p n) (V6 a zone) \<longleftrightarrow> zone = [] \<and> drop_bit (128 - n) a = drop_bit (128 - n) p"
| "prefix_contains _ _ \<longleftrightarrow> False"

definition is_4in6 :: "128 word \<Rightarrow> bool" where
  "is_4in6 a \<longleftrightarrow> drop_bit 32 a = 0xFFFF"

definition Unmap :: "addr \<Rightarrow> addr" where
  "Unmap a = (case a of V4 x \<Rightarrow> V4 x | V6 x zone \<Rightarrow> if is_4in6 x then V4 (ucast x) else V6 x zone)"

fun IsLoopback :: "addr \<Rightarrow> bool" where
  "IsLoopback (V4 a) \<longleftrightarrow> drop_bit 24 a = 127"
| "IsLoopback (V6 a zone) \<longleftrightarrow> (if is_4in6 a then drop_bit 24 (ucast a :: u32) = 127 else a = 1)"

fun IsMulticast :: "addr \<Rightarrow> bool" where
  "IsMulticast (V4 a) \<longleftrightarrow> drop_bit 28 a = 14"
| "IsMulticast (V6 a zone) \<longleftrightarrow> (if is_4in6 a then drop_bit 28 (ucast a :: u32) = 14 else drop_bit 120 a = 0xFF)"

fun IsLinkLocalUnicast :: "addr \<Rightarrow> bool" where
  "IsLinkLocalUnicast (V4 a) \<longleftrightarrow> drop_bit 16 a = 0xA9FE"
| "IsLinkLocalUnicast (V6 a zone) \<longleftrightarrow> (if is_4in6 a then drop_bit 16 (ucast a :: u32) = 0xA9FE else drop_bit 118 a = 0x3FA)"

fun IsLinkLocalMulticast :: "addr \<Rightarrow> bool" where
  "IsLinkLocalMulticast (V4 a) \<longleftrightarrow> drop_bit 8 a = 0xE00000"
| "IsLinkLocalMulticast (V6 a zone) \<longleftrightarrow>
     (if is_4in6 a then drop_bit 8 (ucast a :: u32) = 0xE00000
      else drop_bit 120 a = 0xFF \<and> unat (drop_bit 112 a) mod 16 = 2)"

fun IsPrivate :: "addr \<Rightarrow> bool" where
  "IsPrivate (V4 a) \<longleftrightarrow> drop_bit 24 a = 10 \<or> drop_bit 20 a = 0xAC1 \<or> drop_bit 16 a = 0xC0A8"
| "IsPrivate (V6 a zone) \<longleftrightarrow>
     (if is_4in6 a then (let x = (ucast a :: u32) in drop_bit 24 x = 10 \<or> drop_bit 20 x = 0xAC1 \<or> drop_bit 16 x = 0xC0A8)
      else drop_bit 121 a = 0x7E)"

definition IsUnspecified :: "addr \<Rightarrow> bool" where
  "IsUnspecified a \<longleftrightarrow> a = V4 0 \<or> a = V6 0 []"

definition IsGlobalUnicast :: "addr \<Rightarrow> bool" where
  "IsGlobalUnicast a0 =
     (let a = Unmap a0 in
      if a = V4 0 \<or> a = V4 0xFFFFFFFF then False
      else a \<noteq> V6 0 [] \<and> \<not> IsLoopback a \<and> \<not> IsMulticast a \<and> \<not> IsLinkLocalUnicast a)"

definition blockedPrefixes :: "prefix list" where
  "blockedPrefixes =
     [P4 0x00000000 8, P4 0x64400000 10, P4 0xC0000000 24, P4 0xC0000200 24, P4 0xC0586300 24, P4 0xC6120000 15,
      P4 0xC6336400 24, P4 0xCB007100 24, P4 0xF0000000 4,
      P6 (push_bit 112 0x100) 64, P6 (push_bit 80 0x200100020000) 48, P6 (push_bit 96 0x20010DB8) 32]"

definition unsafeAddress :: "addr \<Rightarrow> bool" where
  "unsafeAddress a \<longleftrightarrow>
     \<not> IsGlobalUnicast a \<or> IsUnspecified a \<or> IsLoopback a \<or> IsPrivate a \<or> IsLinkLocalUnicast a \<or> IsLinkLocalMulticast a \<or> IsMulticast a
     \<or> list_ex (\<lambda>p. prefix_contains p a) blockedPrefixes"

subsection \<open>The shape of an endpoint\<close>

record url =
  u_Scheme :: string
  u_Opaque :: string
  u_User :: bool
  u_Host :: string
  u_RawQuery :: string
  u_Fragment :: string
  u_String :: string

record outbound =
  ob_parse :: "string \<Rightarrow> url option"
  ob_addr :: "string \<Rightarrow> addr option"
  ob_lower :: "string \<Rightarrow> string"
    \<comment> \<open>\<^verbatim>\<open>strings.ToLower\<close> on text that is not ASCII\<close>

definition maxEndpointBytes :: nat where "maxEndpointBytes = 2048"

text \<open>\<^verbatim>\<open>URL.Hostname\<close> and \<^verbatim>\<open>URL.Port\<close>.\<close>

definition split_port :: "string \<Rightarrow> string \<times> string" where
  "split_port host =
     (let (port, rest) = (rev (takeWhile (\<lambda>c. c \<noteq> CHR '':'') (rev host)), rev (dropWhile (\<lambda>c. c \<noteq> CHR '':'') (rev host))) in
      if rest \<noteq> [] \<and> list_all is_digit port then (butlast rest, port) else (host, []))"

definition Hostname :: "url \<Rightarrow> string" where
  "Hostname u =
     (let h = fst (split_port (u_Host u)) in
      if h \<noteq> [] \<and> hd h = CHR ''['' \<and> last h = CHR '']'' \<and> 2 \<le> length h then butlast (tl h) else h)"

definition Port :: "url \<Rightarrow> string" where
  "Port u = snd (split_port (u_Host u))"

definition has_suffix :: "string \<Rightarrow> string \<Rightarrow> bool" where
  "has_suffix s suf \<longleftrightarrow> length suf \<le> length s \<and> drop (length s - length suf) s = suf"

definition outbound_lower :: "outbound \<Rightarrow> string \<Rightarrow> string" where
  "outbound_lower ob s = (if list_all (\<lambda>c. (of_char c :: nat) < 128) s then ascii_lower s else ob_lower ob s)"

text \<open>\<^verbatim>\<open>strconv.Atoi\<close> accepts a sign; a negative port is out of range.\<close>

definition port_ok :: "string \<Rightarrow> bool" where
  "port_ok port =
     (let ds = (case port of [] \<Rightarrow> [] | c # cs \<Rightarrow> if c = CHR ''+'' then cs else port) in
      ds \<noteq> [] \<and> list_all is_digit ds \<and> 1 \<le> digits_value ds \<and> digits_value ds \<le> 65535)"

definition ParsePublicHTTPSURL :: "outbound \<Rightarrow> string \<Rightarrow> url option" where
  "ParsePublicHTTPSURL ob value0 =
     (let v = trim_space value0 in
      if v = [] \<or> length v > maxEndpointBytes \<or> (\<exists>c\<in>set v. c \<in> {CHR 0x00, CHR 0x0D, CHR 0x0A, CHR 0x09}) then None
      else case ob_parse ob v of
        None \<Rightarrow> None
      | Some parsed \<Rightarrow>
      if u_Scheme parsed \<noteq> ''https'' \<or> u_Host parsed = [] \<or> u_User parsed \<or> u_Opaque parsed \<noteq> [] \<or> u_RawQuery parsed \<noteq> []
          \<or> u_Fragment parsed \<noteq> [] then None
      else let hostname = outbound_lower ob (Hostname parsed) in
      if hostname = [] \<or> has_suffix hostname ''.'' \<or> hostname = ''localhost'' \<or> CHR ''.'' \<notin> set hostname
          \<or> has_suffix hostname ''.localhost'' \<or> has_suffix hostname ''.local'' \<or> has_suffix hostname ''.internal''
          \<or> has_suffix hostname ''.lan'' then None
      else if Port parsed \<noteq> [] \<and> \<not> port_ok (Port parsed) then None
      else case ob_addr ob hostname of
        Some address \<Rightarrow> if unsafeAddress address then None else Some parsed
      | None \<Rightarrow> Some parsed)"

subsection \<open>Connections\<close>

text \<open>
  \<^verbatim>\<open>PublicDialContext\<close> on the endpoint \<^verbatim>\<open>host:port\<close>.  The resolver gives the addresses of a name, if it can;
  the dialer connects to an address or not, and the context may have ended after an attempt.  The result
  is the addresses that were dialled and the one that was connected.
\<close>

definition validated :: "addr list \<Rightarrow> addr list option" where
  "validated addresses =
     (let us = map Unmap addresses in
      if list_ex (\<lambda>a. (case a of V6 _ zone \<Rightarrow> zone \<noteq> [] | V4 _ \<Rightarrow> False) \<or> unsafeAddress a) us then None
      else Some (rev (remdups (rev us))))"

definition family_fits :: "string \<Rightarrow> addr \<Rightarrow> bool" where
  "family_fits network a \<longleftrightarrow>
     \<not> (network = ''tcp4'' \<and> (case a of V4 _ \<Rightarrow> False | V6 _ _ \<Rightarrow> True)) \<and> \<not> (network = ''tcp6'' \<and> (case a of V4 _ \<Rightarrow> True | V6 _ _ \<Rightarrow> False))"

fun dial_each :: "(addr \<Rightarrow> bool) \<Rightarrow> (addr \<Rightarrow> bool) \<Rightarrow> string \<Rightarrow> addr list \<Rightarrow> addr list \<times> addr option" where
  "dial_each dial ended network [] = ([], None)"
| "dial_each dial ended network (a # as) =
     (if \<not> family_fits network a then dial_each dial ended network as
      else if dial a then ([a], Some a)
      else if ended a then ([a], None)
      else (case dial_each dial ended network as of (tried, r) \<Rightarrow> (a # tried, r)))"

definition PublicDialContext ::
  "outbound \<Rightarrow> (string \<Rightarrow> addr list option) \<Rightarrow> (addr \<Rightarrow> bool) \<Rightarrow> (addr \<Rightarrow> bool) \<Rightarrow> string \<Rightarrow> string \<Rightarrow> string \<Rightarrow> addr list \<times> addr option" where
  "PublicDialContext ob lookup dial ended network host port =
     (if network \<notin> {''tcp'', ''tcp4'', ''tcp6''} \<or> host = [] \<or> \<not> port_ok port then ([], None)
      else let addresses = (case ob_addr ob host of Some literal \<Rightarrow> Some [literal] | None \<Rightarrow> lookup host) in
      case addresses of
        None \<Rightarrow> ([], None)
      | Some as \<Rightarrow>
      if as = [] then ([], None)
      else case validated as of None \<Rightarrow> ([], None) | Some vs \<Rightarrow> dial_each dial ended network vs)"

subsection \<open>Which IPv4 addresses are refused\<close>

text \<open>The special-purpose blocks as ranges of numbers: first address and first address behind.\<close>

definition special4 :: "(nat \<times> nat) list" where
  "special4 =
     [(0x00000000, 0x01000000), (0x0A000000, 0x0B000000), (0x64400000, 0x64800000), (0x7F000000, 0x80000000),
      (0xA9FE0000, 0xA9FF0000), (0xAC100000, 0xAC200000), (0xC0000000, 0xC0000100), (0xC0000200, 0xC0000300),
      (0xC0586300, 0xC0586400), (0xC0A80000, 0xC0A90000), (0xC6120000, 0xC6140000), (0xC6336400, 0xC6336500),
      (0xCB007100, 0xCB007200), (0xE0000000, 0x100000000)]"

definition in_range :: "nat \<Rightarrow> nat \<times> nat \<Rightarrow> bool" where
  "in_range x r \<longleftrightarrow> fst r \<le> x \<and> x < snd r"

lemma unat_drop_bit: "unat (drop_bit n (a :: u32)) = unat a div 2 ^ n"
  using unat_drop_bit_eq [of n a] by (simp add: drop_bit_eq_div [of n "unat a"] del: drop_bit_eq_div)

lemma div_range: "(x div m = (k :: nat)) = (k * m \<le> x \<and> x < (k + 1) * m)" if "0 < m"
  using that by (metis Suc_eq_plus1 add.commute div_nat_eqI dividend_less_times_div div_times_less_eq_dividend mult.commute mult_Suc_right)

lemma drop_bit_range:
  "(drop_bit n (a :: u32) = k) = (unat k * 2 ^ n \<le> unat a \<and> unat a < (unat k + 1) * 2 ^ n)"
proof -
  have "(drop_bit n a = k) = (unat a div 2 ^ n = unat k)" by (metis unat_drop_bit word_unat_eq_iff)
  then show ?thesis using div_range [of "2 ^ n" "unat a" "unat k"] by simp
qed

lemma blocked4:
  "list_ex (\<lambda>p. prefix_contains p (V4 a)) blockedPrefixes =
     (list_ex (in_range (unat a)) [(0x00000000, 0x01000000), (0x64400000, 0x64800000), (0xC0000000, 0xC0000100), (0xC0000200, 0xC0000300),
        (0xC0586300, 0xC0586400), (0xC6120000, 0xC6140000), (0xC6336400, 0xC6336500), (0xCB007100, 0xCB007200), (0xF0000000, 0x100000000)])"
  unfolding blockedPrefixes_def by (simp add: drop_bit_range unat_drop_bit in_range_def)

lemma predicates4:
  "IsLoopback (V4 a) = in_range (unat a) (0x7F000000, 0x80000000)"
  "IsMulticast (V4 a) = in_range (unat a) (0xE0000000, 0xF0000000)"
  "IsLinkLocalUnicast (V4 a) = in_range (unat a) (0xA9FE0000, 0xA9FF0000)"
  "IsLinkLocalMulticast (V4 a) = in_range (unat a) (0xE0000000, 0xE0000100)"
  "IsPrivate (V4 a) = list_ex (in_range (unat a)) [(0x0A000000, 0x0B000000), (0xAC100000, 0xAC200000), (0xC0A80000, 0xC0A90000)]"
  by (simp_all add: drop_bit_range in_range_def)

text \<open>
  Of the IPv4 addresses, exactly those in the blocks of special use are refused: this network, private
  networks, shared address space, loopback, link local, protocol assignments, documentation, 6to4 relays,
  benchmarks, multicast, reserved and broadcast.
\<close>

theorem unsafe_addresses4: "unsafeAddress (V4 a) = list_ex (in_range (unat a)) special4"
proof -
  let ?in = "in_range (unat a)"
  have global: "IsGlobalUnicast (V4 a) = (unat a \<noteq> 0 \<and> unat a \<noteq> 0xFFFFFFFF \<and> \<not> IsLoopback (V4 a) \<and> \<not> IsMulticast (V4 a) \<and> \<not> IsLinkLocalUnicast (V4 a))"
    unfolding IsGlobalUnicast_def Let_def by (simp add: Unmap_def word_unat_eq_iff)
  have "unat a < 0x100000000" using u32_bound [of a] by simp
  then have "unat a = 0 \<longrightarrow> ?in (0x00000000, 0x01000000)" "unat a = 0xFFFFFFFF \<longrightarrow> ?in (0xF0000000, 0x100000000)"
      "?in (0xE0000000, 0xE0000100) \<longrightarrow> ?in (0xE0000000, 0xF0000000)"
      "?in (0xE0000000, 0x100000000) = (?in (0xE0000000, 0xF0000000) \<or> ?in (0xF0000000, 0x100000000))"
    by (auto simp: in_range_def)
  moreover have "IsUnspecified (V4 a) = (unat a = 0)" by (simp add: IsUnspecified_def word_unat_eq_iff)
  ultimately show ?thesis
    unfolding unsafeAddress_def blocked4 global predicates4 special4_def list_ex_Nil_iff list_ex_Cons_iff by argo
qed

subsection \<open>Which addresses are dialled\<close>

definition zone_free :: "addr \<Rightarrow> bool" where
  "zone_free a \<longleftrightarrow> (case a of V4 _ \<Rightarrow> True | V6 _ zone \<Rightarrow> zone = [])"

lemma dial_each_tried:
  "dial_each dial ended network as = (tried, r) \<Longrightarrow> set tried \<subseteq> set as \<and> (\<forall>a. r = Some a \<longrightarrow> a \<in> set tried \<and> dial a)"
proof (induction dial ended network as arbitrary: tried r rule: dial_each.induct)
  case (2 dial ended network a as)
  then show ?case by (auto split: if_splits prod.splits)
qed simp

lemma validated_public:
  assumes "validated as = Some vs"
  shows "set vs = Unmap ` set as" "\<forall>a\<in>set vs. \<not> unsafeAddress a \<and> zone_free a"
proof -
  have v: "vs = rev (remdups (rev (map Unmap as)))" "\<not> list_ex (\<lambda>a. (case a of V6 _ zone \<Rightarrow> zone \<noteq> [] | V4 _ \<Rightarrow> False) \<or> unsafeAddress a) (map Unmap as)"
    using assms by (auto simp: validated_def Let_def split: if_splits)
  then show "set vs = Unmap ` set as" by simp
  with v(2) show "\<forall>a\<in>set vs. \<not> unsafeAddress a \<and> zone_free a"
    by (auto simp: list_ex_iff zone_free_def split: addr.splits)
qed

text \<open>
  C38: only public addresses are dialled.  Whatever the resolver answers, every address that a connection
  is tried to comes from the answer, or is the literal address of the endpoint, has no zone and is not
  refused by \<^verbatim>\<open>unsafeAddress\<close>; for IPv4 that means it lies in no block of special use.  One refused address in
  the answer is enough for nothing to be dialled, so a name cannot be bound to a local address beside a
  public one.
\<close>

theorem only_public_addresses_dialled:
  assumes "PublicDialContext ob lookup dial ended network host port = (tried, connected)"
  shows "(\<forall>a\<in>set tried. \<not> unsafeAddress a \<and> zone_free a
      \<and> (\<exists>b. Unmap b = a \<and> (ob_addr ob host = Some b \<or> (ob_addr ob host = None \<and> (\<exists>as. lookup host = Some as \<and> b \<in> set as))))
      \<and> (\<forall>x. a = V4 x \<longrightarrow> \<not> list_ex (in_range (unat x)) special4))
    \<and> (\<forall>a. connected = Some a \<longrightarrow> a \<in> set tried \<and> dial a)
    \<and> (ob_addr ob host = None \<and> (\<exists>as. lookup host = Some as \<and> (\<exists>b\<in>set as. unsafeAddress (Unmap b))) \<longrightarrow> tried = [])"
proof -
  have "tried = [] \<and> connected = None \<or> (\<exists>as vs. (ob_addr ob host = Some (hd as) \<and> as = [hd as] \<or> ob_addr ob host = None \<and> lookup host = Some as)
      \<and> validated as = Some vs \<and> dial_each dial ended network vs = (tried, connected))"
    using assms unfolding PublicDialContext_def Let_def
    by (auto split: if_splits option.splits) (metis list.sel(1) option.inject)+
  then consider "tried = []" "connected = None" | as vs where "ob_addr ob host = Some (hd as) \<and> as = [hd as] \<or> ob_addr ob host = None \<and> lookup host = Some as"
      "validated as = Some vs" "dial_each dial ended network vs = (tried, connected)" by blast
  then show ?thesis
  proof cases
    case 1
    then show ?thesis by simp
  next
    case 2
    note v = validated_public [OF 2(2)] and t = dial_each_tried [OF 2(3)]
    have "\<not> unsafeAddress a" "zone_free a" "\<exists>b. Unmap b = a \<and> b \<in> set as" if "a \<in> set tried" for a using v t that by auto
    moreover have "\<not> list_ex (in_range (unat x)) special4" if "V4 x \<in> set tried" for x
      using calculation(1) [OF that] unsafe_addresses4 [of x] by simp
    moreover have "b = hd as" if "as = [hd as]" "b \<in> set as" for b using that by (metis empty_iff empty_set set_ConsD)
    moreover have "\<forall>b\<in>set as. \<not> unsafeAddress (Unmap b)" using v by auto
    ultimately show ?thesis using 2(1) t by (smt (verit) option.distinct(1) option.inject)
  qed
qed

definition sample_outbound :: outbound where
  "sample_outbound = \<lparr>ob_parse = \<lambda>_. None, ob_addr = \<lambda>_. None, ob_lower = \<lambda>s. s\<rparr>"

lemma sample_dial:
  "PublicDialContext sample_outbound (\<lambda>_. Some [V4 0x08080808]) (\<lambda>_. True) (\<lambda>_. False) ''tcp'' ''dns.example'' ''443''
     = ([V4 0x08080808], Some (V4 0x08080808))"
  by code_simp

theorem only_public_addresses_dialled_witness:
  "PublicDialContext sample_outbound (\<lambda>_. Some [V4 0x08080808]) (\<lambda>_. True) (\<lambda>_. False) ''tcp'' ''dns.example'' ''443''
     = ([V4 0x08080808], Some (V4 0x08080808))
   \<and> \<not> unsafeAddress (V4 0x08080808) \<and> \<not> list_ex (in_range (unat (0x08080808 :: u32))) special4"
  using only_public_addresses_dialled [OF sample_dial] sample_dial by simp

text \<open>
  Some special blocks of IPv6 are not refused: an address that a translator maps to the IPv4 loopback
  address passes.
\<close>

lemma nat64_loopback_accepted: "\<not> unsafeAddress (V6 (push_bit 96 0x0064FF9B OR 0x7F000001) [])"
  by (simp add: unsafeAddress_def IsGlobalUnicast_def Let_def Unmap_def is_4in6_def IsUnspecified_def blockedPrefixes_def)

end
