(* ===== verification/Secretbox.thy ===== *)
theory Secretbox
  imports Go_Prelude
begin

text \<open>
  \<^verbatim>\<open>internal/platform/secretbox/secretbox.go\<close>: the envelope around the secrets the server keeps.

  The authenticated cipher is AES-256-GCM of the Go library; the model takes it as the record \<open>aead\<close> of the
  methods of \<^verbatim>\<open>cipher.AEAD\<close> that the envelope calls, with their documented behaviour as \<open>aead_law\<close>.
\<close>

record aead =
  ae_Seal :: "bytes \<Rightarrow> bytes \<Rightarrow> bytes \<Rightarrow> bytes"
    \<comment> \<open>nonce, plaintext, associated data\<close>
  ae_Open :: "bytes \<Rightarrow> bytes \<Rightarrow> bytes \<Rightarrow> bytes option"
  ae_NonceSize :: nat
  ae_Overhead :: nat

definition aead_law :: "aead \<Rightarrow> bool" where
  "aead_law a \<longleftrightarrow> (\<forall>n p ad. length n = ae_NonceSize a \<longrightarrow>
     ae_Open a n (ae_Seal a n p ad) ad = Some p \<and> length (ae_Seal a n p ad) = length p + ae_Overhead a)"

definition maxPlaintextBytes :: nat where "maxPlaintextBytes = 64 * 1024"

definition envelopeMagic :: bytes where "envelopeMagic = [CHR ''V'', CHR ''A'', CHR ''S'', CHR 0x01]"

text \<open>\<^verbatim>\<open>io.ReadFull\<close> of \<open>n\<close> bytes from a source that gives the bytes it has, or an error.\<close>

definition read_full :: "nat \<Rightarrow> bytes option \<Rightarrow> bytes option" where
  "read_full n random = (case random of None \<Rightarrow> None | Some bs \<Rightarrow> if length bs < n then None else Some (take n bs))"

lemma read_full_length: "read_full n random = Some bs \<Longrightarrow> length bs = n"
  by (auto simp: read_full_def split: option.splits if_splits)

definition secretbox_Seal :: "aead \<Rightarrow> bytes option \<Rightarrow> bytes \<Rightarrow> bytes \<Rightarrow> bytes option" where
  "secretbox_Seal a random plaintext associatedData =
     (if plaintext = [] \<or> length plaintext > maxPlaintextBytes \<or> associatedData = [] then None
      else case read_full (ae_NonceSize a) random of
        None \<Rightarrow> None
      | Some nonce \<Rightarrow> Some (envelopeMagic @ nonce @ ae_Seal a nonce plaintext associatedData))"

definition secretbox_Open :: "aead \<Rightarrow> bytes \<Rightarrow> bytes \<Rightarrow> bytes option" where
  "secretbox_Open a envelope associatedData =
     (if associatedData = [] then None
      else let headerBytes = length envelopeMagic + ae_NonceSize a in
      if length envelope < headerBytes + ae_Overhead a \<or> length envelope > headerBytes + maxPlaintextBytes + ae_Overhead a
          \<or> take (length envelopeMagic) envelope \<noteq> envelopeMagic then None
      else ae_Open a (take (ae_NonceSize a) (drop (length envelopeMagic) envelope)) (drop headerBytes envelope) associatedData)"

lemma envelopeMagic_length: "length envelopeMagic = 4"
  by (simp add: envelopeMagic_def)

text \<open>What was sealed opens again, and only under the same associated data if the cipher says so.\<close>

lemma secretbox_roundtrip:
  assumes "aead_law a" "secretbox_Seal a random p ad = Some envelope"
  shows "secretbox_Open a envelope ad = Some p" "envelope \<noteq> []"
proof -
  obtain nonce where e: "p \<noteq> []" "length p \<le> maxPlaintextBytes" "ad \<noteq> []" "envelope = envelopeMagic @ nonce @ ae_Seal a nonce p ad"
      and n: "length nonce = ae_NonceSize a"
    using assms(2) by (auto simp: secretbox_Seal_def split: if_splits option.splits dest: read_full_length)
  moreover have "ae_Open a nonce (ae_Seal a nonce p ad) ad = Some p" "length (ae_Seal a nonce p ad) = length p + ae_Overhead a"
    using assms(1) n by (simp_all add: aead_law_def)
  ultimately show "secretbox_Open a envelope ad = Some p" using n by (simp add: secretbox_Open_def Let_def envelopeMagic_length)
  show "envelope \<noteq> []" using e(4) by (simp add: envelopeMagic_def)
qed

text \<open>A cipher with the documented behaviour; it hides nothing.\<close>

definition sample_aead :: aead where
  "sample_aead = \<lparr>ae_Seal = \<lambda>n p ad. p, ae_Open = \<lambda>n c ad. Some c, ae_NonceSize = 12, ae_Overhead = 0\<rparr>"

lemma sample_aead_law: "aead_law sample_aead"
  by (simp add: aead_law_def sample_aead_def)

end
