(* ===== verification/Webhook.thy ===== *)
theory Webhook
  imports Webhook_Repository Outbound_Http Secretbox Identifier Go_Sha256 "HOL-Library.List_Lexorder" "HOL-Library.Char_ord"
begin

text \<open>
  \<^verbatim>\<open>internal/webhook/service.go\<close> and \<^verbatim>\<open>internal/webhook/delivery.go\<close>: the operations of the owner of a
  workspace on its webhooks, and the worker that delivers signed events.

  An operation reads the endpoint in one transaction and writes in another; the environment says which
  transactions of others run between the two, what the random source gives, whether a key is configured
  and how the library parses URLs.  The HTTP client is a function from requests to outcomes.
\<close>

subsection \<open>Requests of the owner\<close>

record CreateInput =
  ci_DisplayName :: string
  ci_URL :: string
  ci_EventTypes :: "string list"
  ci_State :: string

record UpdateInput =
  ui_DisplayName :: "string option"
  ui_URL :: "string option"
  ui_EventTypes :: "string list option"
  ui_State :: "string option"

record CreateResult =
  cr_Endpoint :: Endpoint
  cr_SigningSecret :: string

record webhook_svc =
  hs_read :: job_env
  hs_others :: "webhook_tx list"
  hs_write :: webhook_env
  hs_random :: "nat \<Rightarrow> bytes option"
    \<comment> \<open>the reads of \<^verbatim>\<open>service.random\<close>, in their order\<close>
  hs_cipher :: "aead option"
  hs_nonce :: "bytes option"
  hs_outbound :: outbound
  hs_now :: go_time

definition signingSecretPrefix :: string where "signingSecretPrefix = ''va_whsec_''"
definition signingSecretBytes :: nat where "signingSecretBytes = 32"

definition authorizeOwnerSession :: "principal \<Rightarrow> string \<Rightarrow> (string \<times> string) option" where
  "authorizeOwnerSession actor scope =
     (if p_CredentialType actor \<noteq> ''session'' \<or> p_Role actor \<noteq> ''owner'' \<or> \<not> Can actor scope then None
      else let (workspaceID, workspaceOK) = NormalizeUUID (p_WorkspaceID actor);
               (actorID, actorOK) = NormalizeUUID (p_UserID actor) in
      if \<not> workspaceOK \<or> \<not> actorOK then None else Some (workspaceID, actorID))"

definition normalizeEvents :: "string list \<Rightarrow> string list option" where
  "normalizeEvents values =
     (if values = [] \<or> length values > length allowedEvents then None
      else if \<not> list_all (\<lambda>v. trim_space v \<in> set allowedEvents) values then None
      else Some (sort (remdups (map trim_space values))))"

definition validDisplayName :: "string \<Rightarrow> bool" where
  "validDisplayName value \<longleftrightarrow>
     utf8_valid value \<and> 1 \<le> length (runes value) \<and> length (runes value) \<le> 100 \<and> \<not> list_ex is_control (runes value)"

definition hasUpdate :: "UpdateInput \<Rightarrow> bool" where
  "hasUpdate input \<longleftrightarrow> ui_DisplayName input \<noteq> None \<or> ui_URL input \<noteq> None \<or> ui_EventTypes input \<noteq> None \<or> ui_State input \<noteq> None"

definition webhook_validRequestID :: "string \<Rightarrow> bool" where
  "webhook_validRequestID value \<longleftrightarrow> value \<noteq> [] \<and> length value \<le> 200 \<and> trim_space value = value \<and> \<not> list_ex is_control (runes value)"

text \<open>\<^verbatim>\<open>base64.RawURLEncoding\<close>: the URL alphabet, without padding.\<close>

definition raw_url_encode :: "bytes \<Rightarrow> string" where
  "raw_url_encode bs =
     map (\<lambda>c. if c = CHR ''+'' then CHR ''-'' else if c = CHR ''/'' then CHR ''_'' else c) (filter (\<lambda>c. c \<noteq> CHR ''='') (b64_encode bs))"

definition generateSigningSecret :: "bytes option \<Rightarrow> string option" where
  "generateSigningSecret random = map_option (\<lambda>value. signingSecretPrefix @ raw_url_encode value) (read_full signingSecretBytes random)"

definition secretAssociatedData :: "string \<Rightarrow> string \<Rightarrow> int \<Rightarrow> bytes" where
  "secretAssociatedData workspaceID endpointID version =
     ''voiceasset/webhook-secret/v1'' @ [CHR 0x00] @ workspaceID @ [CHR 0x00] @ endpointID @ [CHR 0x00] @ show_int version"

definition webhook_sentinel :: "webhook_error list \<Rightarrow> string \<Rightarrow> webhook_error \<Rightarrow> webhook_error" where
  "webhook_sentinel known msg e = (if e \<in> set known then e else WebhookOther msg)"

definition new_id :: "webhook_svc \<Rightarrow> nat \<Rightarrow> string option" where
  "new_id svc k = (case NewUUIDFrom (read_full 16 (hs_random svc k)) of Inl _ \<Rightarrow> None | Inr u \<Rightarrow> Some u)"

definition svc_Create ::
  "webhook_svc \<Rightarrow> principal \<Rightarrow> CreateInput \<Rightarrow> string \<Rightarrow> webhook_db \<Rightarrow> webhook_db \<times> (webhook_error + CreateResult)" where
  "svc_Create svc actor input requestID db =
     (case authorizeOwnerSession actor ScopeAdminWrite of
        None \<Rightarrow> (db, Inl WebhookForbidden)
      | Some (workspaceID, actorID) \<Rightarrow>
      if requestID = [] \<or> length requestID > 200 then (db, Inl WebhookInvalidInput)
      else
        let displayName = trim_space (ci_DisplayName input);
            state = (if trim_space (ci_State input) = [] then StateDisabled else trim_space (ci_State input)) in
        (case (ParsePublicHTTPSURL (hs_outbound svc) (ci_URL input), normalizeEvents (ci_EventTypes input)) of
           (Some endpointURL, Some events) \<Rightarrow>
             if \<not> validDisplayName displayName \<or> (state \<noteq> StateEnabled \<and> state \<noteq> StateDisabled) then (db, Inl WebhookInvalidInput)
             else (case hs_cipher svc of
               None \<Rightarrow> (db, Inl WebhookEncryptionUnavailable)
             | Some cipher \<Rightarrow>
             (case new_id svc 0 of
               None \<Rightarrow> (db, Inl (WebhookOther ''generate webhook identifier: %w''))
             | Some endpointID \<Rightarrow>
             (case new_id svc 1 of
               None \<Rightarrow> (db, Inl (WebhookOther ''generate webhook audit identifier: %w''))
             | Some auditID \<Rightarrow>
             (case generateSigningSecret (hs_random svc 2) of
               None \<Rightarrow> (db, Inl (WebhookOther ''generate webhook signing secret: %w''))
             | Some secret \<Rightarrow>
             (case secretbox_Seal cipher (hs_nonce svc) secret (secretAssociatedData workspaceID endpointID 1) of
               None \<Rightarrow> (db, Inl WebhookConfiguration)
             | Some ciphertext \<Rightarrow>
             (case webhook_Create (wv_pg (hs_write svc)) \<lparr>cw_EndpointID = endpointID, cw_AuditID = auditID, cw_WorkspaceID = workspaceID,
                     cw_CreatedBy = actorID, cw_DisplayName = displayName, cw_URL = u_String endpointURL, cw_EventTypes = events,
                     cw_State = state, cw_Version = 1, cw_SecretCiphertext = ciphertext\<rparr> db of
               (db1, Inl e) \<Rightarrow> (db1, Inl (webhook_sentinel [WebhookConflict] ''create webhook: %w'' e))
             | (db1, Inr created) \<Rightarrow> (db1, Inr \<lparr>cr_Endpoint = created, cr_SigningSecret = secret\<rparr>)))))))
         | _ \<Rightarrow> (db, Inl WebhookInvalidInput)))"

definition svc_Update ::
  "webhook_svc \<Rightarrow> principal \<Rightarrow> string \<Rightarrow> int \<Rightarrow> UpdateInput \<Rightarrow> string \<Rightarrow> webhook_db \<Rightarrow> webhook_db \<times> (webhook_error + Endpoint)" where
  "svc_Update svc actor endpointID0 expectedVersion input requestID db =
     (case authorizeOwnerSession actor ScopeAdminWrite of
        None \<Rightarrow> (db, Inl WebhookForbidden)
      | Some (workspaceID, actorID) \<Rightarrow>
      if expectedVersion < 1 \<or> \<not> webhook_validRequestID requestID \<or> \<not> hasUpdate input then (db, Inl WebhookInvalidInput)
      else let (endpointID, validID) = NormalizeUUID endpointID0 in
      if \<not> validID then (db, Inl WebhookInvalidInput)
      else case webhook_GetStored (hs_read svc) workspaceID endpointID db of
        Inl e \<Rightarrow> (db, Inl (webhook_sentinel [WebhookNotFound] ''load webhook: %w'' e))
      | Inr stored \<Rightarrow>
      if en_Version stored \<noteq> expectedVersion then (db, Inl WebhookConflict)
      else
        let displayName = (case ui_DisplayName input of None \<Rightarrow> en_DisplayName stored | Some v \<Rightarrow> trim_space v);
            endpointURL = (case ui_URL input of None \<Rightarrow> Some (en_URL stored) | Some v \<Rightarrow> map_option u_String (ParsePublicHTTPSURL (hs_outbound svc) v));
            events = (case ui_EventTypes input of None \<Rightarrow> Some (en_EventTypes stored) | Some v \<Rightarrow> normalizeEvents v);
            state = (case ui_State input of None \<Rightarrow> en_State stored | Some v \<Rightarrow> trim_space v) in
        (case (endpointURL, events) of
           (Some endpointURL, Some events) \<Rightarrow>
             if \<not> validDisplayName displayName \<or> (state \<noteq> StateEnabled \<and> state \<noteq> StateDisabled) then (db, Inl WebhookInvalidInput)
             else (case new_id svc 0 of
               None \<Rightarrow> (db, Inl (WebhookOther ''generate webhook audit identifier: %w''))
             | Some auditID \<Rightarrow>
             (case webhook_Update (wv_pg (hs_write svc)) \<lparr>uw_EndpointID = endpointID, uw_AuditID = auditID, uw_WorkspaceID = workspaceID,
                     uw_UpdatedBy = actorID, uw_DisplayName = displayName, uw_URL = endpointURL, uw_EventTypes = events, uw_State = state,
                     uw_ExpectedVersion = expectedVersion\<rparr> (fold run_webhook (hs_others svc) db) of
               (db1, Inl e) \<Rightarrow> (db1, Inl (webhook_sentinel [WebhookConflict, WebhookNotFound] ''update webhook: %w'' e))
             | (db1, Inr updated) \<Rightarrow> (db1, Inr updated)))
         | _ \<Rightarrow> (db, Inl WebhookInvalidInput)))"

definition svc_RotateSecret ::
  "webhook_svc \<Rightarrow> principal \<Rightarrow> string \<Rightarrow> int \<Rightarrow> string \<Rightarrow> webhook_db \<Rightarrow> webhook_db \<times> (webhook_error + CreateResult)" where
  "svc_RotateSecret svc actor endpointID0 expectedVersion requestID db =
     (case authorizeOwnerSession actor ScopeAdminWrite of
        None \<Rightarrow> (db, Inl WebhookForbidden)
      | Some (workspaceID, actorID) \<Rightarrow>
      (case hs_cipher svc of
         None \<Rightarrow> (db, Inl WebhookEncryptionUnavailable)
       | Some cipher \<Rightarrow>
      if expectedVersion < 1 \<or> \<not> webhook_validRequestID requestID then (db, Inl WebhookInvalidInput)
      else let (endpointID, validID) = NormalizeUUID endpointID0 in
      if \<not> validID then (db, Inl WebhookInvalidInput)
      else case webhook_GetStored (hs_read svc) workspaceID endpointID db of
        Inl e \<Rightarrow> (db, Inl (webhook_sentinel [WebhookNotFound] ''load webhook for secret rotation: %w'' e))
      | Inr stored \<Rightarrow>
      if en_Version stored \<noteq> expectedVersion then (db, Inl WebhookConflict)
      else (case generateSigningSecret (hs_random svc 0) of
        None \<Rightarrow> (db, Inl (WebhookOther ''generate rotated webhook secret: %w''))
      | Some secret \<Rightarrow>
      let secretVersion = i64 (en_SecretVersion stored + 1) in
      if secretVersion < 1 then (db, Inl WebhookConfiguration)
      else (case secretbox_Seal cipher (hs_nonce svc) secret (secretAssociatedData workspaceID endpointID secretVersion) of
        None \<Rightarrow> (db, Inl WebhookConfiguration)
      | Some ciphertext \<Rightarrow>
      (case new_id svc 1 of
        None \<Rightarrow> (db, Inl (WebhookOther ''generate webhook rotation audit identifier: %w''))
      | Some auditID \<Rightarrow>
      (case webhook_RotateSecret (wv_pg (hs_write svc)) \<lparr>rs_EndpointID = endpointID, rs_AuditID = auditID, rs_WorkspaceID = workspaceID,
              rs_UpdatedBy = actorID, rs_ExpectedVersion = expectedVersion, rs_SecretVersion = secretVersion,
              rs_SecretCiphertext = ciphertext\<rparr> (fold run_webhook (hs_others svc) db) of
        (db1, Inl e) \<Rightarrow> (db1, Inl (webhook_sentinel [WebhookConflict, WebhookNotFound] ''rotate webhook secret: %w'' e))
      | (db1, Inr updated) \<Rightarrow> (db1, Inr \<lparr>cr_Endpoint = updated, cr_SigningSecret = secret\<rparr>)))))))"

definition test_payload :: "string \<Rightarrow> go_time \<Rightarrow> string \<Rightarrow> bytes option" where
  "test_payload eventID createdAt endpointID =
     map_option (\<lambda>at. json_encode (JObj [(''id'', JStr eventID), (''type'', JStr EventWebhookTest), (''created_at'', at),
        (''data'', JObj [(''webhook'', JObj [(''id'', JStr endpointID)])])])) (time_json createdAt)"

definition svc_EnqueueTest ::
  "webhook_svc \<Rightarrow> principal \<Rightarrow> string \<Rightarrow> string \<Rightarrow> webhook_db \<Rightarrow> webhook_db \<times> (webhook_error + Delivery)" where
  "svc_EnqueueTest svc actor endpointID0 requestID db =
     (case authorizeOwnerSession actor ScopeAdminWrite of
        None \<Rightarrow> (db, Inl WebhookForbidden)
      | Some (workspaceID, actorID) \<Rightarrow>
      if \<not> webhook_validRequestID requestID then (db, Inl WebhookInvalidInput)
      else let (endpointID, validID) = NormalizeUUID endpointID0 in
      if \<not> validID then (db, Inl WebhookInvalidInput)
      else case webhook_GetStored (hs_read svc) workspaceID endpointID db of
        Inl e \<Rightarrow> (db, Inl (webhook_sentinel [WebhookNotFound] ''load webhook test target: %w'' e))
      | Inr stored \<Rightarrow>
      if en_State stored \<noteq> StateEnabled \<or> en_SecretVersion stored < 1 \<or> en_SecretCiphertext stored = [] then (db, Inl WebhookConflict)
      else case new_id svc 0 of
        None \<Rightarrow> (db, Inl (WebhookOther ''generate webhook delivery identifier: %w''))
      | Some deliveryID \<Rightarrow>
      (case new_id svc 1 of
        None \<Rightarrow> (db, Inl (WebhookOther ''generate webhook event identifier: %w''))
      | Some eventID \<Rightarrow>
      (case new_id svc 2 of
        None \<Rightarrow> (db, Inl (WebhookOther ''generate webhook test audit identifier: %w''))
      | Some auditID \<Rightarrow>
      (case test_payload eventID (hs_now svc) endpointID of
        None \<Rightarrow> (db, Inl WebhookConfiguration)
      | Some payload \<Rightarrow>
        webhook_EnqueueTest (hs_write svc) \<lparr>et_DeliveryID = deliveryID, et_EventID = eventID, et_AuditID = auditID,
          et_WorkspaceID = workspaceID, et_WebhookID = endpointID, et_WebhookVersion = en_Version stored, et_CreatedBy = actorID,
          et_CreatedAt = hs_now svc, et_Payload = payload\<rparr> (fold run_webhook (hs_others svc) db)))))"

subsection \<open>Signatures and delays\<close>

definition maxDeliveryBodyBytes :: nat where "maxDeliveryBodyBytes = 64 * 1024"
definition maxDeliveryAttempts :: int where "maxDeliveryAttempts = 5"
definition baseRetryDelay :: duration where "baseRetryDelay = 5 * second"
definition maxRetryDelay :: duration where "maxRetryDelay = 5 * minute"

definition xor_bytes :: "nat \<Rightarrow> bytes \<Rightarrow> bytes" where
  "xor_bytes m = map (\<lambda>c. char_of ((of_char c :: nat) XOR m))"

definition hmac_sha256 :: "bytes \<Rightarrow> bytes \<Rightarrow> bytes" where
  "hmac_sha256 key msg =
     (let k0 = (if length key > 64 then Sum256 key else key); k = k0 @ replicate (64 - length k0) (CHR 0x00) in
      Sum256 (xor_bytes 0x5C k @ Sum256 (xor_bytes 0x36 k @ msg)))"

definition signPayload :: "bytes \<Rightarrow> string \<Rightarrow> bytes \<Rightarrow> string" where
  "signPayload secret timestamp payload = hex_encode (hmac_sha256 secret (timestamp @ ''.'' @ payload))"

text \<open>\<^verbatim>\<open>k\<close> counts the turns of the loop that are left.\<close>

fun retry_loop :: "nat \<Rightarrow> duration \<Rightarrow> duration" where
  "retry_loop 0 delay = (if delay > maxRetryDelay then maxRetryDelay else delay)"
| "retry_loop (Suc k) delay = (if delay \<ge> quot maxRetryDelay 2 then maxRetryDelay else retry_loop k (i64 (delay * 2)))"

definition retryDelay :: "int \<Rightarrow> duration" where
  "retryDelay attempt0 =
     (let attempt = (if attempt0 < 1 then 1 else attempt0) in retry_loop (nat (attempt - 1)) baseRetryDelay)"

definition unix_seconds :: "go_time \<Rightarrow> int" where
  "unix_seconds t = t div second - 62135596800"

subsection \<open>The worker\<close>

record http_request =
  rq_URL :: string
  rq_Delivery :: string
  rq_Event :: string
  rq_Timestamp :: string
  rq_Signature :: string
  rq_Body :: bytes

datatype http_outcome =
    HttpFailed bool
      \<comment> \<open>the client returned an error; whether a deadline had passed\<close>
  | HttpAnswered int "nat option"
      \<comment> \<open>the status and the length of the body, unless reading it failed within the limit\<close>

record delivery_worker =
  wk_claim :: webhook_env
  wk_others :: "webhook_tx list"
  wk_report :: job_env
  wk_id :: string
  wk_now :: go_time
  wk_lease :: duration
  wk_cipher :: aead
  wk_outbound :: outbound
  wk_accepts :: "string \<Rightarrow> bool"
    \<comment> \<open>whether \<^verbatim>\<open>http.NewRequestWithContext\<close> takes the URL\<close>
  wk_client :: "http_request \<Rightarrow> http_outcome"

definition worker_fail ::
  "delivery_worker \<Rightarrow> DeliveryAttempt \<Rightarrow> go_time \<Rightarrow> int option \<Rightarrow> string \<Rightarrow> bool \<Rightarrow> webhook_db \<Rightarrow> webhook_db \<times> (webhook_error + unit)" where
  "worker_fail w attempt now responseStatus errorCode retryable db =
     (let retryAt = (if retryable \<and> dl_Attempts attempt < maxDeliveryAttempts then now + retryDelay (dl_Attempts attempt) else now) in
      case webhook_Fail (wk_report w) \<lparr>fd_DeliveryID = dl_ID attempt, fd_WorkerID = dl_LeaseOwner attempt, fd_Now = now, fd_RetryAt = retryAt,
             fd_ResponseStatus = responseStatus, fd_ErrorCode = errorCode, fd_Retryable = retryable\<rparr> db of
        (db1, Inl _) \<Rightarrow> (db1, Inl (WebhookOther ''mark webhook delivery failed: %w''))
      | (db1, Inr _) \<Rightarrow> (db1, Inr ()))"

definition delivery_request :: "url \<Rightarrow> bytes \<Rightarrow> DeliveryAttempt \<Rightarrow> go_time \<Rightarrow> http_request" where
  "delivery_request endpoint secret attempt now =
     (let timestamp = show_int (unix_seconds now); signature = signPayload secret timestamp (dl_Payload attempt) in
      \<lparr>rq_URL = u_String endpoint, rq_Delivery = dl_ID attempt, rq_Event = dl_EventType attempt, rq_Timestamp = timestamp,
       rq_Signature = ''v1='' @ signature, rq_Body = dl_Payload attempt\<rparr>)"

definition report_response ::
  "delivery_worker \<Rightarrow> DeliveryAttempt \<Rightarrow> go_time \<Rightarrow> http_outcome \<Rightarrow> webhook_db \<Rightarrow> webhook_db \<times> (webhook_error + unit)" where
  "report_response w attempt now response db =
     (case response of
        HttpFailed deadline \<Rightarrow>
          worker_fail w attempt now None (if deadline then DeliveryErrorTimeout else DeliveryErrorTransport) True db
      | HttpAnswered status None \<Rightarrow> worker_fail w attempt now (Some status) DeliveryErrorTransport True db
      | HttpAnswered status (Some body) \<Rightarrow>
          if min body (maxDeliveryBodyBytes + 1) > maxDeliveryBodyBytes then
            worker_fail w attempt now (Some status) DeliveryErrorResponseTooLarge False db
          else if status \<ge> 200 \<and> status \<le> 299 then
            (case webhook_Succeed (wk_report w) \<lparr>cp_DeliveryID = dl_ID attempt, cp_WorkerID = dl_LeaseOwner attempt, cp_Now = now,
                    cp_ResponseStatus = status\<rparr> db of
               (db1, Inl _) \<Rightarrow> (db1, Inl (WebhookOther ''mark webhook delivery succeeded: %w''))
             | (db1, Inr _) \<Rightarrow> (db1, Inr ()))
          else
            let retryable = (status = 408 \<or> status = 425 \<or> status = 429 \<or> status \<ge> 500);
                errorCode = (if status \<ge> 500 then DeliveryErrorHTTPServer else DeliveryErrorHTTPClient) in
            worker_fail w attempt now (Some status) errorCode retryable db)"

text \<open>The request that is sent, if one is, and the report about the attempt.\<close>

definition deliver ::
  "delivery_worker \<Rightarrow> DeliveryAttempt \<Rightarrow> go_time \<Rightarrow> webhook_db \<Rightarrow> http_request option \<times> webhook_db \<times> (webhook_error + unit)" where
  "deliver w attempt now db =
     (case ParsePublicHTTPSURL (wk_outbound w) (dl_EndpointURL attempt) of
        None \<Rightarrow> (None, worker_fail w attempt now None DeliveryErrorUnsafeEndpoint False db)
      | Some endpoint \<Rightarrow>
      case secretbox_Open (wk_cipher w) (dl_SecretCiphertext attempt)
             (secretAssociatedData (dl_WorkspaceID attempt) (dl_WebhookID attempt) (dl_SecretVersion attempt)) of
        None \<Rightarrow> (None, worker_fail w attempt now None DeliveryErrorConfiguration False db)
      | Some secret \<Rightarrow>
      if secret = [] then (None, worker_fail w attempt now None DeliveryErrorConfiguration False db)
      else if \<not> wk_accepts w (u_String endpoint) then (None, worker_fail w attempt now None DeliveryErrorUnsafeEndpoint False db)
      else let request = delivery_request endpoint secret attempt now in
      (Some request, report_response w attempt now (wk_client w request) db))"

definition claim_params :: "delivery_worker \<Rightarrow> ClaimDeliveryParams" where
  "claim_params w =
     \<lparr>cd_WorkerID = wk_id w, cd_Now = wk_now w, cd_LeaseDuration = (if wk_lease w \<le> 0 then defaultDeliveryLease else wk_lease w)\<rparr>"

definition RunOnce :: "delivery_worker \<Rightarrow> webhook_db \<Rightarrow> http_request option \<times> webhook_db \<times> bool \<times> (webhook_error + unit)" where
  "RunOnce w db =
     (if trim_space (wk_id w) = [] then (None, db, False, Inl (WebhookOther ''webhook delivery worker is not configured''))
      else case webhook_Claim (wk_claim w) (claim_params w) db of
        (db1, Inl e) \<Rightarrow> (None, db1, False, if e = NoDelivery then Inr () else Inl (WebhookOther ''claim webhook delivery: %w''))
      | (db1, Inr attempt) \<Rightarrow>
      case deliver w attempt (wk_now w) (fold run_webhook (wk_others w) db1) of (request, db2, result) \<Rightarrow> (request, db2, True, result))"

subsection \<open>Doubling delays\<close>

lemma retry_loop_min:
  assumes "baseRetryDelay \<le> delay" "delay < maxRetryDelay"
  shows "retry_loop k delay = min (delay * 2 ^ k) maxRetryDelay"
  using assms
proof (induction k arbitrary: delay)
  case (Suc k)
  have q: "quot maxRetryDelay 2 = 150 * second" by (simp add: maxRetryDelay_def quot_def time_units)
  show ?case
  proof (cases "150 * second \<le> delay")
    case True
    have "(0 :: int) \<le> second" "(1 :: int) \<le> 2 ^ k" by (simp_all add: second_def)
    then have "delay * 2 \<le> delay * 2 * 2 ^ k" using Suc.prems(1) mult_left_mono [of 1 "2 ^ k" "delay * 2"] by (simp add: baseRetryDelay_def)
    moreover have "maxRetryDelay \<le> delay * 2" using True by (simp add: maxRetryDelay_def minute_def)
    ultimately show ?thesis using True by (simp add: q ac_simps)
  next
    case False
    then have "i64 (delay * 2) = delay * 2" using Suc.prems by (intro i64_id) (simp_all add: min_i64_def max_i64_def baseRetryDelay_def time_units)
    moreover have "retry_loop k (delay * 2) = min (delay * 2 * 2 ^ k) maxRetryDelay"
      using False Suc.prems(1) by (intro Suc.IH) (simp_all add: maxRetryDelay_def baseRetryDelay_def time_units)
    ultimately show ?thesis using False by (simp add: q ac_simps)
  qed
qed simp

text \<open>
  C37: the delay before the next attempt doubles from five seconds and stops at five minutes, for every
  attempt number; the loop never overflows.
\<close>

theorem retryDelay_doubles: "retryDelay attempt = min (5 * second * 2 ^ nat (attempt - 1)) (5 * minute)"
proof -
  have "retry_loop k baseRetryDelay = min (baseRetryDelay * 2 ^ k) maxRetryDelay" for k
    by (rule retry_loop_min) (simp_all add: baseRetryDelay_def maxRetryDelay_def time_units)
  then show ?thesis by (simp add: retryDelay_def Let_def baseRetryDelay_def maxRetryDelay_def)
qed

subsection \<open>Which transactions keep the secret of an endpoint\<close>

definition same_secret :: "endpoint_row \<Rightarrow> endpoint_row \<Rightarrow> bool" where
  "same_secret e f \<longleftrightarrow> we_id f = we_id e \<and> we_workspace_id f = we_workspace_id e \<and> we_secret f = we_secret e \<and> we_secret_version f = we_secret_version e"

fun rotates :: "string \<Rightarrow> webhook_tx \<Rightarrow> bool" where
  "rotates i (WhRotate env p) \<longleftrightarrow> je_uuid env (rs_EndpointID p) = Some i"
| "rotates i _ \<longleftrightarrow> False"

lemma same_secret_refl [simp]: "same_secret e e"
  by (simp add: same_secret_def)

lemma same_secretI [intro]: "e \<in> S \<Longrightarrow> \<exists>f\<in>S. same_secret e f"
  using same_secret_refl by blast

lemma change_endpoint_secret:
  assumes "webhook_inv db" "e \<in> set (wb_endpoints db)" "\<And>e. we_id (f e) = we_id e"
    and "je_uuid env i \<noteq> Some (we_id e) \<or> (\<forall>e. same_secret e (f e))"
  shows "\<exists>e'\<in>set (wb_endpoints (fst (change_endpoint env m1 m2 m3 act a w u i v f db))). same_secret e e'"
proof (cases "find (\<lambda>e. Some (we_id e) = je_uuid env i \<and> Some (we_workspace_id e) = je_uuid env w \<and> we_version e = v) (wb_endpoints db)")
  case None
  then show ?thesis using assms(2) by (auto simp: change_endpoint_def)
next
  case (Some o')
  define new where "new = (f o')\<lparr>we_version := we_version o' + 1, we_updated_at := pg_time (je_clock env 0)\<rparr>"
  have o': "o' \<in> set (wb_endpoints db)" "je_uuid env i = Some (we_id o')" using Some by (auto simp: find_Some_iff)
  have new: "we_id new = we_id o'" using assms(3) by (simp add: new_def)
  have "\<exists>e'\<in>set (wb_endpoints (cancel_stale env o' new (set_endpoint new db))). same_secret e e'"
  proof (cases "we_id e = we_id o'")
    case True
    then have "e = o'" using same_endpoint [OF assms(1,2) o'(1)] by blast
    moreover have "same_secret o' (f o')" using assms(4) o'(2) True by auto
    ultimately have "same_secret e new" by (simp add: same_secret_def new_def)
    moreover have "new \<in> set (wb_endpoints (cancel_stale env o' new (set_endpoint new db)))"
      using o'(1) new by (force simp: cancel_stale_def set_endpoint_def)
    ultimately show ?thesis by blast
  next
    case False
    then have "e \<in> set (wb_endpoints (cancel_stale env o' new (set_endpoint new db)))"
      using assms(2) new by (force simp: cancel_stale_def set_endpoint_def)
    then show ?thesis using same_secret_refl by blast
  qed
  moreover have "\<exists>e'\<in>set (wb_endpoints db). same_secret e e'" using assms(2) same_secret_refl by blast
  ultimately show ?thesis
    using Some by (auto simp: change_endpoint_def Let_def new_def [symmetric] webhook_commit_def dest!: webhook_audit_frame split: sum.split)
qed

lemma insert_delivery_endpoints: "insert_delivery row db = Inr db' \<Longrightarrow> wb_endpoints db' = wb_endpoints db"
  by (auto simp: insert_delivery_def split: if_splits)

lemma enqueue_endpoints_endpoints: "enqueue_endpoints wenv nid n k es db = Some db' \<Longrightarrow> wb_endpoints db' = wb_endpoints db"
  by (induction wenv nid n k es db rule: enqueue_endpoints.induct) (auto split: sum.splits dest: insert_delivery_endpoints)

lemma set_delivery_endpoints [simp]: "wb_endpoints (set_delivery new db) = wb_endpoints db"
  by (simp add: set_delivery_def)

lemma webhook_Claim_endpoints: "wb_endpoints (fst (webhook_Claim wenv p db)) = wb_endpoints db"
  by (cases rule: webhook_Claim_cases [of wenv p db]) simp_all

lemma finish_delivery_endpoints: "wb_endpoints (fst (finish_delivery env msg i w f db)) = wb_endpoints db"
  by (cases rule: finish_delivery_cases [of env msg i w f db]) simp_all

lemma webhook_Create_keeps: "set (wb_endpoints db) \<subseteq> set (wb_endpoints (fst (webhook_Create env p db)))"
  by (auto simp: webhook_Create_def webhook_commit_def dest!: webhook_audit_frame split: option.split sum.split)

lemma webhook_EnqueueTest_endpoints: "wb_endpoints (fst (webhook_EnqueueTest wenv p db)) = wb_endpoints db"
  by (auto simp: webhook_EnqueueTest_def Let_def webhook_commit_def dest!: webhook_audit_frame insert_delivery_endpoints split: option.split sum.split)

lemma run_webhook_secret:
  assumes "webhook_inv db" "e \<in> set (wb_endpoints db)" "\<not> rotates (we_id e) tx"
  shows "\<exists>f\<in>set (wb_endpoints (run_webhook tx db)). same_secret e f"
proof (cases tx)
  case (WhUpdate env p)
  then show ?thesis using assms unfolding webhook_Update_def
    by (simp add: webhook_Update_def) (rule change_endpoint_secret, simp_all add: same_secret_def)
next
  case (WhRotate env p)
  then show ?thesis using assms by (simp add: webhook_RotateSecret_def) (rule change_endpoint_secret, simp_all)
next
  case (WhCreate env p)
  then show ?thesis using assms(2) webhook_Create_keeps [of db env p] same_secret_refl by fastforce
next
  case (WhNotify env nid n)
  then show ?thesis using assms(2) same_secret_refl
    by (cases "enqueue_notification_webhooks env nid n db") (auto simp: enqueue_notification_webhooks_def dest!: enqueue_endpoints_endpoints)
next
  case (WhForget nid)
  then show ?thesis using assms(2) same_secret_refl forget_notification_same [of nid db] by (cases "forget_notification nid db") auto
qed (use assms(2) same_secret_refl in \<open>auto simp: webhook_EnqueueTest_endpoints webhook_Claim_endpoints webhook_Succeed_def webhook_Fail_def finish_delivery_endpoints\<close>)

lemma same_secret_trans: "same_secret e f \<Longrightarrow> same_secret f g \<Longrightarrow> same_secret e g"
  by (simp add: same_secret_def)

lemma runs_secret:
  assumes "webhook_inv db" "e \<in> set (wb_endpoints db)" "\<forall>tx\<in>set txs. \<not> rotates (we_id e) tx"
  shows "\<exists>f\<in>set (wb_endpoints (fold run_webhook txs db)). same_secret e f"
  using assms
proof (induction txs arbitrary: db e)
  case (Cons tx txs)
  obtain f where f: "f \<in> set (wb_endpoints (run_webhook tx db))" "same_secret e f"
    using run_webhook_secret [OF Cons.prems(1,2)] Cons.prems(3) by auto
  have "webhook_inv (run_webhook tx db)" using run_webhook_sound [OF Cons.prems(1)] by (simp add: webhook_sound_def)
  moreover have "\<forall>tx\<in>set txs. \<not> rotates (we_id f) tx" using Cons.prems(3) f(2) by (simp add: same_secret_def)
  ultimately obtain g where "g \<in> set (wb_endpoints (fold run_webhook txs (run_webhook tx db)))" "same_secret f g"
    using Cons.IH [of "run_webhook tx db" f] f(1) by blast
  then show ?case using same_secret_trans [OF f(2)] by auto
qed auto

subsection \<open>The secret from the owner to the signature\<close>

definition holds_secret :: "aead \<Rightarrow> string \<Rightarrow> endpoint_row \<Rightarrow> bool" where
  "holds_secret cipher secret e \<longleftrightarrow>
     secretbox_Open cipher (we_secret e) (secretAssociatedData (we_workspace_id e) (we_id e) (we_secret_version e)) = Some secret"

text \<open>A column of type \<^verbatim>\<open>uuid\<close> gives back the canonical text of an identifier.\<close>

definition reads_uuid :: "job_env \<Rightarrow> bool" where
  "reads_uuid env \<longleftrightarrow> (\<forall>u. NormalizeUUID u = (u, True) \<longrightarrow> je_uuid env u = Some u)"

lemma reads_uuidD: "reads_uuid env \<Longrightarrow> NormalizeUUID u = (u, True) \<Longrightarrow> je_uuid env u = Some u"
  by (simp add: reads_uuid_def)

lemma lower_hex_any: "hex_any (ascii_lower_char c) = hex_any c"
  by (cases "is_upper c") (auto simp: ascii_lower_char_def hex_any_def is_upper_def Let_def of_char_of)

lemma ascii_lower_idem: "ascii_lower (ascii_lower s) = ascii_lower s"
  by (auto simp: ascii_lower_def ascii_lower_char_def is_upper_def of_char_of)

lemma NormalizeUUID_idem: "NormalizeUUID v = (u, True) \<Longrightarrow> NormalizeUUID u = (u, True)"
proof -
  assume n: "NormalizeUUID v = (u, True)"
  then have u: "IsUUID v" "u = ascii_lower v" by (auto simp: NormalizeUUID_def split: if_splits)
  have "ascii_lower_char (CHR ''-'') = CHR ''-''" by (simp add: ascii_lower_char_def is_upper_def)
  then have "IsUUID u" using u by (auto simp: IsUUID_def ascii_lower_def lower_hex_any list_all_iff)
  then show ?thesis using u(2) by (simp add: NormalizeUUID_def ascii_lower_idem)
qed

lemma new_id_canonical:
  assumes "new_id svc k = Some u" shows "NormalizeUUID u = (u, True)"
proof -
  obtain v where v: "read_full 16 (hs_random svc k) = Some v" "NewUUIDFrom (Some v) = Inr u"
    using assms by (cases "read_full 16 (hs_random svc k)") (auto simp: new_id_def NewUUIDFrom_def split: sum.splits)
  then show ?thesis using NewUUIDFrom_canonical [of v] read_full_length [OF v(1)] by auto
qed

lemma authorize_canonical:
  "authorizeOwnerSession actor scope = Some (w, a) \<Longrightarrow> NormalizeUUID w = (w, True) \<and> NormalizeUUID a = (a, True)"
  by (auto simp: authorizeOwnerSession_def Let_def split: if_splits prod.splits intro: NormalizeUUID_idem)

lemma webhook_Create_stores:
  assumes "webhook_Create env p db = (db1, Inr created)" "new_endpoint env p = Some row"
  shows "row \<in> set (wb_endpoints db1)" "en_ID created = we_id row"
  using assms
  by (auto simp: webhook_Create_def webhook_commit_def scanEndpoint_def dest!: webhook_audit_frame split: if_splits sum.splits)

lemma svc_Create_cases:
  assumes "svc_Create svc actor input requestID db = (db1, Inr res)"
  obtains w a cipher i auditID envelope url events state where "authorizeOwnerSession actor ScopeAdminWrite = Some (w, a)"
    "hs_cipher svc = Some cipher" "new_id svc 0 = Some i" "new_id svc 1 = Some auditID"
    "generateSigningSecret (hs_random svc 2) = Some (cr_SigningSecret res)"
    "secretbox_Seal cipher (hs_nonce svc) (cr_SigningSecret res) (secretAssociatedData w i 1) = Some envelope"
    "webhook_Create (wv_pg (hs_write svc)) \<lparr>cw_EndpointID = i, cw_AuditID = auditID, cw_WorkspaceID = w, cw_CreatedBy = a,
       cw_DisplayName = trim_space (ci_DisplayName input), cw_URL = url, cw_EventTypes = events, cw_State = state, cw_Version = 1,
       cw_SecretCiphertext = envelope\<rparr> db = (db1, Inr (cr_Endpoint res))"
  using assms unfolding svc_Create_def Let_def
  by (auto split: option.splits if_splits prod.splits sum.splits)

lemma svc_Create_secret:
  assumes "svc_Create svc actor input requestID db = (db1, Inr res)" "hs_cipher svc = Some cipher" "aead_law cipher"
    and "reads_uuid (wv_pg (hs_write svc))"
  shows "\<exists>e\<in>set (wb_endpoints db1). we_id e = en_ID (cr_Endpoint res) \<and> holds_secret cipher (cr_SigningSecret res) e"
proof -
  obtain w a i auditID envelope url events state where c: "authorizeOwnerSession actor ScopeAdminWrite = Some (w, a)"
      "new_id svc 0 = Some i" "secretbox_Seal cipher (hs_nonce svc) (cr_SigningSecret res) (secretAssociatedData w i 1) = Some envelope"
      "webhook_Create (wv_pg (hs_write svc)) \<lparr>cw_EndpointID = i, cw_AuditID = auditID, cw_WorkspaceID = w, cw_CreatedBy = a,
         cw_DisplayName = trim_space (ci_DisplayName input), cw_URL = url, cw_EventTypes = events, cw_State = state, cw_Version = 1,
         cw_SecretCiphertext = envelope\<rparr> db = (db1, Inr (cr_Endpoint res))"
    using svc_Create_cases [OF assms(1)] assms(2) by (metis option.inject)
  let ?p = "\<lparr>cw_EndpointID = i, cw_AuditID = auditID, cw_WorkspaceID = w, cw_CreatedBy = a,
         cw_DisplayName = trim_space (ci_DisplayName input), cw_URL = url, cw_EventTypes = events, cw_State = state, cw_Version = 1,
         cw_SecretCiphertext = envelope\<rparr>"
  have "je_uuid (wv_pg (hs_write svc)) i = Some i" "je_uuid (wv_pg (hs_write svc)) w = Some w" "je_uuid (wv_pg (hs_write svc)) a = Some a"
    using reads_uuidD [OF assms(4)] new_id_canonical [OF c(2)] authorize_canonical [OF c(1)] by simp_all
  then obtain row where row: "new_endpoint (wv_pg (hs_write svc)) ?p = Some row" "we_id row = i" "we_workspace_id row = w" "we_secret row = envelope"
      "we_secret_version row = 1"
    by (simp add: new_endpoint_def)
  then have "holds_secret cipher (cr_SigningSecret res) row"
    using secretbox_roundtrip(1) [OF assms(3) c(3)] by (simp add: holds_secret_def)
  then show ?thesis using webhook_Create_stores [OF c(4) row(1)] by auto
qed

lemma change_endpoint_stores:
  assumes "change_endpoint env m1 m2 m3 act a w u i v f db = (db1, Inr updated)" "\<And>e. we_id (f e) = we_id e"
  obtains e where "e \<in> set (wb_endpoints db)" "Some (we_id e) = je_uuid env i" "Some (we_workspace_id e) = je_uuid env w"
    "(f e)\<lparr>we_version := we_version e + 1, we_updated_at := pg_time (je_clock env 0)\<rparr> \<in> set (wb_endpoints db1)" "en_ID updated = we_id e"
proof -
  obtain e where e: "find (\<lambda>e. Some (we_id e) = je_uuid env i \<and> Some (we_workspace_id e) = je_uuid env w \<and> we_version e = v) (wb_endpoints db) = Some e"
    using assms(1) by (cases "find (\<lambda>e. Some (we_id e) = je_uuid env i \<and> Some (we_workspace_id e) = je_uuid env w \<and> we_version e = v) (wb_endpoints db)")
      (simp_all add: change_endpoint_def split: if_splits)
  define new where "new = (f e)\<lparr>we_version := we_version e + 1, we_updated_at := pg_time (je_clock env 0)\<rparr>"
  have m: "e \<in> set (wb_endpoints db)" "Some (we_id e) = je_uuid env i" "Some (we_workspace_id e) = je_uuid env w"
    using e by (auto simp: find_Some_iff)
  have "new \<in> set (wb_endpoints (cancel_stale env e new (set_endpoint new db)))"
    using m(1) assms(2) by (force simp: cancel_stale_def set_endpoint_def new_def)
  then have "new \<in> set (wb_endpoints db1)" "en_ID updated = we_id new"
    using assms(1) e by (auto simp: change_endpoint_def Let_def new_def [symmetric] webhook_commit_def scanEndpoint_def
        dest!: webhook_audit_frame split: if_splits sum.splits)
  then show ?thesis using that [OF m] assms(2) by (simp add: new_def)
qed

lemma svc_RotateSecret_secret:
  assumes "svc_RotateSecret svc actor endpointID version requestID db = (db1, Inr res)" "hs_cipher svc = Some cipher" "aead_law cipher"
    and "reads_uuid (wv_pg (hs_write svc))"
  shows "\<exists>e\<in>set (wb_endpoints db1). we_id e = en_ID (cr_Endpoint res) \<and> holds_secret cipher (cr_SigningSecret res) e"
proof -
  obtain w a i sv auditID envelope where c: "authorizeOwnerSession actor ScopeAdminWrite = Some (w, a)" "NormalizeUUID endpointID = (i, True)"
      "secretbox_Seal cipher (hs_nonce svc) (cr_SigningSecret res) (secretAssociatedData w i sv) = Some envelope"
      "webhook_RotateSecret (wv_pg (hs_write svc)) \<lparr>rs_EndpointID = i, rs_AuditID = auditID, rs_WorkspaceID = w, rs_UpdatedBy = a,
         rs_ExpectedVersion = version, rs_SecretVersion = sv, rs_SecretCiphertext = envelope\<rparr> (fold run_webhook (hs_others svc) db)
         = (db1, Inr (cr_Endpoint res))"
    using assms(1,2) unfolding svc_RotateSecret_def Let_def by (auto split: option.splits if_splits prod.splits sum.splits)
  let ?env = "wv_pg (hs_write svc)" and ?f = "\<lambda>e. e\<lparr>we_secret_version := sv, we_secret := envelope\<rparr>"
  have ids: "je_uuid ?env i = Some i" "je_uuid ?env w = Some w"
    using reads_uuidD [OF assms(4)] NormalizeUUID_idem [OF c(2)] authorize_canonical [OF c(1)] by simp_all
  from c(4) obtain e where e: "Some (we_id e) = je_uuid ?env i" "Some (we_workspace_id e) = je_uuid ?env w"
      "(?f e)\<lparr>we_version := we_version e + 1, we_updated_at := pg_time (je_clock ?env 0)\<rparr> \<in> set (wb_endpoints db1)"
      "en_ID (cr_Endpoint res) = we_id e"
    unfolding webhook_RotateSecret_def by (auto elim!: change_endpoint_stores)
  then have "we_id e = i" "we_workspace_id e = w" using ids by auto
  then show ?thesis using e(3,4) secretbox_roundtrip(1) [OF assms(3) c(3)] by (intro bexI [OF _ e(3)]) (simp add: holds_secret_def)
qed

lemma svc_Create_inv: "webhook_inv db \<Longrightarrow> svc_Create svc actor input requestID db = (db1, Inr res) \<Longrightarrow> webhook_inv db1"
  by (erule svc_Create_cases) (metis fst_conv webhook_Create_sound webhook_sound_def)

lemma svc_RotateSecret_inv:
  assumes "webhook_inv db" "svc_RotateSecret svc actor endpointID version requestID db = (db1, Inr res)" shows "webhook_inv db1"
proof -
  obtain p where "webhook_RotateSecret (wv_pg (hs_write svc)) p (fold run_webhook (hs_others svc) db) = (db1, Inr (cr_Endpoint res))"
    using assms(2) unfolding svc_RotateSecret_def Let_def by (auto split: option.splits if_splits prod.splits sum.splits)
  moreover have "webhook_inv (fold run_webhook (hs_others svc) db)" by (rule webhooks.runs_inv [OF assms(1)]) simp
  ultimately show ?thesis using webhook_RotateSecret_sound by (metis fst_conv webhook_sound_def)
qed

text \<open>What a worker sends comes from the delivery and the endpoint that its claim found.\<close>

lemma webhook_Claim_attempt:
  assumes "webhook_Claim wenv p db = (db1, Inr attempt)"
  obtains r e where "delivery_candidate (wv_pg wenv) (pg_time (cd_Now p)) db = Some r" "e \<in> set (wb_endpoints db)"
    "we_id e = wd_webhook_id r" "we_workspace_id e = wd_workspace_id r" "attempt = delivery_attempt e (claimed_delivery wenv p r)"
    "delivery_checks (claimed_delivery wenv p r)" "db1 = set_delivery (claimed_delivery wenv p r) db"
proof -
  obtain r where r: "delivery_candidate (wv_pg wenv) (pg_time (cd_Now p)) db = Some r"
    using assms by (cases "delivery_candidate (wv_pg wenv) (pg_time (cd_Now p)) db") (auto simp: webhook_Claim_def Let_def split: if_splits)
  obtain e where e: "find (\<lambda>e. we_id e = wd_webhook_id r \<and> we_workspace_id e = wd_workspace_id r) (wb_endpoints db) = Some e"
      "attempt = delivery_attempt e (claimed_delivery wenv p r)" "delivery_checks (claimed_delivery wenv p r)"
      "db1 = set_delivery (claimed_delivery wenv p r) db"
    using assms r by (auto simp: webhook_Claim_def Let_def split: if_splits option.splits)
  moreover have "e \<in> set (wb_endpoints db)" "we_id e = wd_webhook_id r" "we_workspace_id e = wd_workspace_id r" using e(1) by (auto simp: find_Some_iff)
  ultimately show ?thesis using that r by blast
qed

lemma delivery_attempt_fields [simp]:
  "dl_ID (delivery_attempt e r) = wd_id r" "dl_WorkspaceID (delivery_attempt e r) = wd_workspace_id r"
  "dl_WebhookID (delivery_attempt e r) = wd_webhook_id r" "dl_Payload (delivery_attempt e r) = wd_payload r"
  "dl_EventType (delivery_attempt e r) = wd_event_type r" "dl_Attempts (delivery_attempt e r) = wd_attempts r"
  "dl_EndpointURL (delivery_attempt e r) = we_url e" "dl_SecretVersion (delivery_attempt e r) = we_secret_version e"
  "dl_SecretCiphertext (delivery_attempt e r) = we_secret e"
  "dl_LeaseOwner (delivery_attempt e r) = (case wd_lease_owner r of None \<Rightarrow> [] | Some w \<Rightarrow> w)"
  by (simp_all add: delivery_attempt_def Delivery.defs scanDelivery_def)

lemma RunOnce_request:
  assumes "RunOnce w db = (Some rq, db', worked, result)"
  obtains r e endpoint secret where "r \<in> set (wb_deliveries db)" "e \<in> set (wb_endpoints db)" "we_id e = wd_webhook_id r" "wd_id r = rq_Delivery rq"
    "ParsePublicHTTPSURL (wk_outbound w) (we_url e) = Some endpoint" "holds_secret (wk_cipher w) secret e"
    "rq = \<lparr>rq_URL = u_String endpoint, rq_Delivery = wd_id r, rq_Event = wd_event_type r, rq_Timestamp = show_int (unix_seconds (wk_now w)),
       rq_Signature = ''v1='' @ signPayload secret (show_int (unix_seconds (wk_now w))) (wd_payload r), rq_Body = wd_payload r\<rparr>"
proof -
  let ?p = "claim_params w"
  obtain db1 attempt where a: "webhook_Claim (wk_claim w) ?p db = (db1, Inr attempt)"
      "fst (deliver w attempt (wk_now w) (fold run_webhook (wk_others w) db1)) = Some rq"
    using assms by (auto simp: RunOnce_def Let_def split: if_splits sum.splits prod.splits)
  obtain r e where r: "delivery_candidate (wv_pg (wk_claim w)) (pg_time (cd_Now ?p)) db = Some r" "e \<in> set (wb_endpoints db)"
      "we_id e = wd_webhook_id r" "we_workspace_id e = wd_workspace_id r" "attempt = delivery_attempt e (claimed_delivery (wk_claim w) ?p r)"
    using webhook_Claim_attempt [OF a(1)] by metis
  have c: "wd_id (claimed_delivery (wk_claim w) ?p r) = wd_id r" "wd_payload (claimed_delivery (wk_claim w) ?p r) = wd_payload r"
      "wd_event_type (claimed_delivery (wk_claim w) ?p r) = wd_event_type r" "wd_webhook_id (claimed_delivery (wk_claim w) ?p r) = wd_webhook_id r"
      "wd_workspace_id (claimed_delivery (wk_claim w) ?p r) = wd_workspace_id r"
    using claimed_delivery_fields(1) [of r "wk_claim w" ?p] by (simp_all add: guard_projection_def)
  obtain endpoint secret where "ParsePublicHTTPSURL (wk_outbound w) (we_url e) = Some endpoint"
      "secretbox_Open (wk_cipher w) (we_secret e) (secretAssociatedData (wd_workspace_id r) (wd_webhook_id r) (we_secret_version e)) = Some secret"
      "rq = delivery_request endpoint secret attempt (wk_now w)"
    using a(2) unfolding r(5) deliver_def by (auto simp: c Let_def split: option.splits if_splits)
  then show ?thesis
    using that [OF delivery_candidate_in(1) [OF r(1)] r(2,3)] r(3,4,5) c by (simp add: holds_secret_def delivery_request_def Let_def)
qed

text \<open>
  C5: the receiver can check every event with the secret that the owner was shown.  A secret is shown once,
  by the creation of the endpoint or by a rotation; the database keeps it sealed under the identity of the
  endpoint.  Whatever happens next except another rotation of that endpoint, faults and other workers
  included, every request that a worker sends for one of its deliveries carries the event and the payload of
  the delivery, goes to the URL of the endpoint, and is signed with exactly that secret over the timestamp
  and the body.
\<close>

theorem signed_with_shown_secret:
  assumes cipher: "hs_cipher svc = Some cipher" "aead_law cipher" "wk_cipher w = cipher"
    and uuid: "reads_uuid (wv_pg (hs_write svc))"
    and shown: "svc_Create svc actor input requestID db = (db1, Inr res)
      \<or> svc_RotateSecret svc actor endpointID version requestID db = (db1, Inr res)"
    and "webhook_inv db" and later: "\<forall>tx\<in>set txs. \<not> rotates (en_ID (cr_Endpoint res)) tx"
    and sent: "RunOnce w (fold run_webhook txs db1) = (Some rq, db2, worked, result)"
    and delivery: "r \<in> set (wb_deliveries (fold run_webhook txs db1))" "wd_id r = rq_Delivery rq" "wd_webhook_id r = en_ID (cr_Endpoint res)"
  shows "rq_Signature rq = ''v1='' @ signPayload (cr_SigningSecret res) (rq_Timestamp rq) (rq_Body rq)
    \<and> rq_Timestamp rq = show_int (unix_seconds (wk_now w)) \<and> rq_Body rq = wd_payload r \<and> rq_Event rq = wd_event_type r
    \<and> (\<exists>e endpoint. e \<in> set (wb_endpoints (fold run_webhook txs db1)) \<and> we_id e = en_ID (cr_Endpoint res)
         \<and> ParsePublicHTTPSURL (wk_outbound w) (we_url e) = Some endpoint \<and> rq_URL rq = u_String endpoint)"
proof -
  let ?db = "fold run_webhook txs db1"
  have inv1: "webhook_inv db1" using shown svc_Create_inv [OF \<open>webhook_inv db\<close>] svc_RotateSecret_inv [OF \<open>webhook_inv db\<close>] by blast
  then have inv: "webhook_inv ?db" by (rule webhooks.runs_inv) simp
  obtain e where e: "e \<in> set (wb_endpoints db1)" "we_id e = en_ID (cr_Endpoint res)" "holds_secret cipher (cr_SigningSecret res) e"
    using shown svc_Create_secret [OF _ cipher(1,2) uuid] svc_RotateSecret_secret [OF _ cipher(1,2) uuid] by blast
  obtain f where f: "f \<in> set (wb_endpoints ?db)" "same_secret e f"
    using runs_secret [OF inv1 e(1)] later e(2) by auto
  then have secret: "holds_secret cipher (cr_SigningSecret res) f" "we_id f = en_ID (cr_Endpoint res)"
    using e(2,3) by (simp_all add: holds_secret_def same_secret_def)
  obtain r' e' endpoint s where w: "r' \<in> set (wb_deliveries ?db)" "e' \<in> set (wb_endpoints ?db)" "we_id e' = wd_webhook_id r'" "wd_id r' = rq_Delivery rq"
      "ParsePublicHTTPSURL (wk_outbound w) (we_url e') = Some endpoint" "holds_secret (wk_cipher w) s e'"
      "rq = \<lparr>rq_URL = u_String endpoint, rq_Delivery = wd_id r', rq_Event = wd_event_type r', rq_Timestamp = show_int (unix_seconds (wk_now w)),
         rq_Signature = ''v1='' @ signPayload s (show_int (unix_seconds (wk_now w))) (wd_payload r'), rq_Body = wd_payload r'\<rparr>"
    by (rule RunOnce_request [OF sent])
  have "r' = r" using same_delivery [OF inv w(1) delivery(1)] w(4) delivery(2) by simp
  then have "e' = f" using same_endpoint [OF inv w(2) f(1)] w(3) delivery(3) secret(2) by simp
  then have "s = cr_SigningSecret res" using w(6) secret(1) cipher(3) by (simp add: holds_secret_def)
  then show ?thesis using w \<open>r' = r\<close> delivery(3) by auto
qed

subsection \<open>What becomes of a delivery\<close>

text \<open>The meaning of an outcome: accepted by the receiver, worth another attempt, fit for the column of the status.\<close>

fun accepted :: "http_outcome \<Rightarrow> bool" where
  "accepted (HttpAnswered status (Some body)) \<longleftrightarrow> body \<le> 65536 \<and> 200 \<le> status \<and> status \<le> 299"
| "accepted _ \<longleftrightarrow> False"

fun worth_retrying :: "http_outcome \<Rightarrow> bool" where
  "worth_retrying (HttpAnswered status (Some body)) \<longleftrightarrow> body \<le> 65536 \<and> (status \<in> {408, 425, 429} \<or> 500 \<le> status)"
| "worth_retrying _ \<longleftrightarrow> True"

fun storable :: "http_outcome \<Rightarrow> bool" where
  "storable (HttpAnswered status _) \<longleftrightarrow> 100 \<le> status \<and> status \<le> 599"
| "storable (HttpFailed _) \<longleftrightarrow> True"

lemma finish_delivery_held:
  assumes "webhook_inv db" "r \<in> set (wb_deliveries db)" "wd_state r = DeliveryDelivering" "wd_lease_owner r = Some w" "pg_text w"
    and "je_uuid env (wd_id r) = Some (wd_id r)" "\<not> je_fails env 0 msg" "guard_projection r ((f r)\<lparr>wd_lease_owner := None, wd_lease_expires_at := None\<rparr>)"
  shows "finish_delivery env msg (wd_id r) w f db =
    (if delivery_checks ((f r)\<lparr>wd_lease_owner := None, wd_lease_expires_at := None\<rparr>)
     then (set_delivery ((f r)\<lparr>wd_lease_owner := None, wd_lease_expires_at := None\<rparr>) db, Inr ()) else (db, Inl (WebhookOther msg)))"
proof -
  let ?P = "\<lambda>q. Some (wd_id q) = je_uuid env (wd_id r) \<and> wd_state q = DeliveryDelivering \<and> wd_lease_owner q = Some w"
  have "find ?P (wb_deliveries db) \<noteq> None" using assms(2-4,6) by (auto simp: find_None_iff)
  then obtain s where s: "find ?P (wb_deliveries db) = Some s" by blast
  then have "s \<in> set (wb_deliveries db)" "wd_id s = wd_id r" using assms(6) by (auto simp: find_Some_iff)
  then have "s = r" using same_delivery [OF assms(1) _ assms(2)] by blast
  then show ?thesis using s assms(5-8) by (simp add: finish_delivery_def Let_def)
qed

lemma delivering_row:
  assumes "delivery_ok es r" "wd_state r = DeliveryDelivering"
  shows "wd_delivered_at r = None" "1 \<le> wd_attempts r" "wd_attempts r \<le> 5" "wd_max_attempts r = 5"
  using assms by (auto simp: delivery_ok_def delivery_checks_def delivery_history_def delivery_states)

lemma succeeded_checks:
  assumes "delivery_ok es r" "wd_state r = DeliveryDelivering"
  shows "delivery_checks (r\<lparr>wd_state := DeliverySucceeded, wd_response_status := Some s, wd_delivered_at := Some t, wd_updated_at := u,
      wd_lease_owner := None, wd_lease_expires_at := None\<rparr>) = (100 \<le> s \<and> s \<le> 599)"
  using assms by (auto simp: delivery_ok_def delivery_checks_def delivery_states opt_check_def)

lemma failed_checks:
  assumes "delivery_ok es r" "wd_state r = DeliveryDelivering"
    and "fd_ErrorCode p \<in> {DeliveryErrorTimeout, DeliveryErrorTransport, DeliveryErrorHTTPClient, DeliveryErrorHTTPServer, DeliveryErrorResponseTooLarge}"
  shows "delivery_checks ((failed_delivery p r)\<lparr>wd_lease_owner := None, wd_lease_expires_at := None\<rparr>)
    = opt_check (\<lambda>v. 100 \<le> v \<and> v \<le> 599) (fd_ResponseStatus p)"
  using assms delivering_row(1) [OF assms(1,2)]
  by (auto simp: delivery_ok_def delivery_checks_def failed_delivery_def Let_def delivery_states opt_check_def)

text \<open>A worker that holds a delivery reports its outcome.\<close>

definition report_spec :: "go_time \<Rightarrow> http_outcome \<Rightarrow> delivery_row \<Rightarrow> delivery_row \<Rightarrow> (webhook_error + unit) \<Rightarrow> bool" where
  "report_spec now outcome old new result \<longleftrightarrow>
     (if \<not> storable outcome then new = old \<and> result \<noteq> Inr ()
      else result = Inr () \<and> guard_projection old new \<and> wd_attempts new = wd_attempts old \<and> wd_lease_owner new = None
        \<and> (if accepted outcome then wd_state new = DeliverySucceeded \<and> wd_delivered_at new = Some (pg_time now)
           else if worth_retrying outcome \<and> wd_attempts old < 5 then
             wd_state new = DeliveryRetryWait \<and> wd_available_at new = pg_time (now + retryDelay (wd_attempts old))
           else wd_state new = DeliveryFailed))"

lemma set_delivery_at: "r \<in> set (wb_deliveries db) \<Longrightarrow> guard_projection r new \<Longrightarrow> new \<in> set (wb_deliveries (set_delivery new db))"
  by (rule set_delivery_mem) (simp_all add: guard_projection_def)

lemma worker_fail_held:
  assumes inv: "webhook_inv db" and r: "r \<in> set (wb_deliveries db)" "wd_state r = DeliveryDelivering" "wd_lease_owner r = Some (dl_LeaseOwner attempt)"
    and "pg_text (dl_LeaseOwner attempt)" "dl_ID attempt = wd_id r" "dl_Attempts attempt = wd_attempts r"
    and "je_uuid (wk_report w) (wd_id r) = Some (wd_id r)" "\<forall>msg. \<not> je_fails (wk_report w) 0 msg"
    and code: "code \<in> {DeliveryErrorTimeout, DeliveryErrorTransport, DeliveryErrorHTTPClient, DeliveryErrorHTTPServer, DeliveryErrorResponseTooLarge}"
    and outcome: "\<not> accepted outcome" "worth_retrying outcome = retryable" "storable outcome = opt_check (\<lambda>v. 100 \<le> v \<and> v \<le> 599) status"
  shows "\<exists>new. new \<in> set (wb_deliveries (fst (worker_fail w attempt now status code retryable db)))
    \<and> report_spec now outcome r new (snd (worker_fail w attempt now status code retryable db))"
proof -
  let ?p = "\<lparr>fd_DeliveryID = dl_ID attempt, fd_WorkerID = dl_LeaseOwner attempt, fd_Now = now,
      fd_RetryAt = if retryable \<and> dl_Attempts attempt < maxDeliveryAttempts then now + retryDelay (dl_Attempts attempt) else now,
      fd_ResponseStatus = status, fd_ErrorCode = code, fd_Retryable = retryable\<rparr>"
  let ?new = "(failed_delivery ?p r)\<lparr>wd_lease_owner := None, wd_lease_expires_at := None\<rparr>"
  note ok = webhook_invD(4) [OF inv r(1)]
  note row = delivering_row [OF ok r(2)]
  have g: "guard_projection r ?new" by (simp add: failed_delivery_def Let_def guard_projection_def)
  have "webhook_Fail (wk_report w) ?p db = (if storable outcome then (set_delivery ?new db, Inr ()) else (db, Inl (WebhookOther ''mark webhook delivery failed: %w'')))"
    using finish_delivery_held [OF inv r(1,2,3) assms(5,8), of "''mark webhook delivery failed: %w''" "failed_delivery ?p"] g assms(6,9) outcome(3)
      failed_checks [OF ok r(2), of ?p] code
    by (simp add: webhook_Fail_def)
  then have f: "worker_fail w attempt now status code retryable db =
      (if storable outcome then (set_delivery ?new db, Inr ()) else (db, Inl (WebhookOther ''mark webhook delivery failed: %w'')))"
    by (simp add: worker_fail_def Let_def)
  show ?thesis
  proof (cases "storable outcome")
    case True
    have "report_spec now outcome r ?new (Inr ())"
      using True outcome g assms(7) row by (auto simp: report_spec_def failed_delivery_def Let_def maxDeliveryAttempts_def)
    then show ?thesis using True set_delivery_at [OF r(1) g] unfolding f by auto
  next
    case False
    then show ?thesis using r(1) unfolding f by (auto simp: report_spec_def)
  qed
qed

lemma succeed_held:
  assumes inv: "webhook_inv db" and r: "r \<in> set (wb_deliveries db)" "wd_state r = DeliveryDelivering" "wd_lease_owner r = Some owner" "pg_text owner"
    and "je_uuid env (wd_id r) = Some (wd_id r)" "\<forall>msg. \<not> je_fails env 0 msg" "200 \<le> status" "status \<le> 299" "body \<le> 65536"
  shows "\<exists>new. webhook_Succeed env \<lparr>cp_DeliveryID = wd_id r, cp_WorkerID = owner, cp_Now = now, cp_ResponseStatus = status\<rparr> db = (set_delivery new db, Inr ())
    \<and> new \<in> set (wb_deliveries (set_delivery new db)) \<and> report_spec now (HttpAnswered status (Some body)) r new (Inr ())"
proof -
  let ?f = "\<lambda>r. r\<lparr>wd_state := DeliverySucceeded, wd_response_status := Some status, wd_delivered_at := Some (pg_time now), wd_updated_at := pg_time now\<rparr>"
  let ?new = "(?f r)\<lparr>wd_lease_owner := None, wd_lease_expires_at := None\<rparr>"
  have g: "guard_projection r ?new" by (simp add: guard_projection_def)
  have c: "delivery_checks ?new" using succeeded_checks [OF webhook_invD(4) [OF inv r(1)] r(2), where s = status] assms(7-9) by simp
  have "webhook_Succeed env \<lparr>cp_DeliveryID = wd_id r, cp_WorkerID = owner, cp_Now = now, cp_ResponseStatus = status\<rparr> db = (set_delivery ?new db, Inr ())"
    using finish_delivery_held [OF inv r assms(6), of "''mark webhook delivery succeeded: %w''" ?f] g c assms(7) by (simp add: webhook_Succeed_def)
  moreover have "report_spec now (HttpAnswered status (Some body)) r ?new (Inr ())" using g assms(8-10) by (simp add: report_spec_def)
  ultimately show ?thesis using set_delivery_at [OF r(1) g] by blast
qed

lemma report_response_held:
  assumes inv: "webhook_inv db" and r: "r \<in> set (wb_deliveries db)" "wd_state r = DeliveryDelivering" "wd_lease_owner r = Some (dl_LeaseOwner attempt)"
    and "pg_text (dl_LeaseOwner attempt)" "dl_ID attempt = wd_id r" "dl_Attempts attempt = wd_attempts r"
    and "je_uuid (wk_report w) (wd_id r) = Some (wd_id r)" "\<forall>msg. \<not> je_fails (wk_report w) 0 msg"
  shows "\<exists>new. new \<in> set (wb_deliveries (fst (report_response w attempt now outcome db)))
    \<and> report_spec now outcome r new (snd (report_response w attempt now outcome db))"
proof (cases outcome)
  case (HttpFailed deadline)
  then show ?thesis
    using worker_fail_held [OF assms, of "if deadline then DeliveryErrorTimeout else DeliveryErrorTransport" outcome True None now]
    by (simp add: report_response_def opt_check_def)
next
  case (HttpAnswered status body)
  note failed = worker_fail_held [OF assms, where outcome = outcome and status = "Some status" and now = now]
  show ?thesis
  proof (cases body)
    case None
    then show ?thesis using failed [of DeliveryErrorTransport True] HttpAnswered by (simp add: report_response_def opt_check_def)
  next
    case (Some n)
    show ?thesis
    proof (cases "n \<le> 65536 \<and> 200 \<le> status \<and> status \<le> 299")
      case True
      then show ?thesis
        using succeed_held [OF inv r assms(5,8,9), of status n now] HttpAnswered Some assms(6)
        by (auto simp: report_response_def maxDeliveryBodyBytes_def)
    next
      case False
      have "report_response w attempt now outcome db =
          worker_fail w attempt now (Some status) (if n > 65536 then DeliveryErrorResponseTooLarge
              else if status \<ge> 500 then DeliveryErrorHTTPServer else DeliveryErrorHTTPClient) (worth_retrying outcome) db"
        using False HttpAnswered Some by (auto simp: report_response_def maxDeliveryBodyBytes_def Let_def)
      then show ?thesis using failed False HttpAnswered Some by (simp add: opt_check_def)
    qed
  qed
qed

lemma RunOnce_deliver:
  assumes "RunOnce w db = (Some rq, db2, worked, result)" "webhook_Claim (wk_claim w) (claim_params w) db = (db1, Inr attempt)"
  shows "report_response w attempt (wk_now w) (wk_client w rq) (fold run_webhook (wk_others w) db1) = (db2, result)" "rq_Delivery rq = dl_ID attempt"
  using assms by (auto simp: RunOnce_def deliver_def delivery_request_def Let_def split: if_splits prod.splits option.splits)

text \<open>
  C9: every answer of a receiver is accounted for.  A worker has claimed a delivery and sent it, and other
  transactions ran meanwhile, none of them a claim after the lease or a report under the worker's own name.
  Then the delivery has succeeded exactly if the answer has a status 2xx and at most 64 KiB; after a
  transport error, a status 408, 425, 429 or 5xx it waits for the retry delay if fewer than five attempts
  were made, and has failed otherwise.  But a status outside 100 to 599 cannot be recorded: the report is
  refused as a whole and the row stays leased as the claim left it.
\<close>

theorem delivery_outcome:
  assumes "webhook_inv db" and claim: "webhook_Claim (wk_claim w) (claim_params w) db = (db1, Inr attempt)"
    and sent: "RunOnce w db = (Some rq, db2, worked, result)"
    and row: "row \<in> set (wb_deliveries db1)" "wd_id row = rq_Delivery rq"
    and others: "\<forall>tx\<in>set (wk_others w). before_lease_end row tx"
    and report: "je_uuid (wk_report w) (wd_id row) = Some (wd_id row)" "\<forall>msg. \<not> je_fails (wk_report w) 0 msg"
  shows "\<exists>new. new \<in> set (wb_deliveries db2) \<and> report_spec (wk_now w) (wk_client w rq) row new result"
proof -
  let ?db = "fold run_webhook (wk_others w) db1" and ?p = "claim_params w"
  have inv1: "webhook_inv db1" using webhook_Claim_sound [OF assms(1), of "wk_claim w" ?p] claim by (simp add: webhook_sound_def)
  then have inv: "webhook_inv ?db" by (rule webhooks.runs_inv) simp
  have named: "pg_text (wk_id w)" using claim by (auto simp: webhook_Claim_def claim_params_def Let_def split: if_splits)
  obtain r e where r: "delivery_candidate (wv_pg (wk_claim w)) (pg_time (cd_Now ?p)) db = Some r"
      "attempt = delivery_attempt e (claimed_delivery (wk_claim w) ?p r)" "db1 = set_delivery (claimed_delivery (wk_claim w) ?p r) db"
    using webhook_Claim_attempt [OF claim] by metis
  let ?c = "claimed_delivery (wk_claim w) ?p r"
  note c = claimed_delivery_fields [where r = r and wenv = "wk_claim w" and p = ?p]
  have "?c \<in> set (wb_deliveries db1)" using set_delivery_at [OF delivery_candidate_in(1) [OF r(1)] c(1)] r(3) by simp
  moreover have "rq_Delivery rq = wd_id ?c" using RunOnce_deliver(2) [OF sent claim] r(2) by simp
  ultimately have same: "row = ?c" using same_delivery [OF inv1 row(1)] row(2) by simp
  have owner: "wd_state row = DeliveryDelivering" "wd_lease_owner row = Some (wk_id w)" "dl_LeaseOwner attempt = wk_id w"
      "dl_ID attempt = wd_id row" "dl_Attempts attempt = wd_attempts row"
    using c r(2) same by (simp_all add: claim_params_def)
  then have "row \<in> set (wb_deliveries ?db)" using delivery_lease_exclusive [OF inv1 row(1) _ others] by simp
  then show ?thesis
    using report_response_held [OF inv _ owner(1) _ _ owner(4,5) report, of "wk_now w" "wk_client w rq"] owner named RunOnce_deliver(1) [OF sent claim] by simp
qed

subsection \<open>An endpoint from its creation to a delivery\<close>

definition sample_id :: "char \<Rightarrow> string" where
  "sample_id c = replicate 8 c @ ''-'' @ replicate 4 c @ ''-'' @ replicate 4 c @ ''-'' @ replicate 4 c @ ''-'' @ replicate 12 c"

definition sample_owner :: principal where
  "sample_owner = \<lparr>p_UserID = sample_id (CHR ''a''), p_WorkspaceID = sample_id (CHR ''b''), p_Role = ''owner'', p_Email = [], p_Scopes = [ScopeAdminWrite],
     p_CredentialType = ''session'', p_CredentialID = []\<rparr>"

definition sample_url :: url where
  "sample_url = \<lparr>u_Scheme = ''https'', u_Opaque = [], u_User = False, u_Host = ''hooks.example'', u_RawQuery = [], u_Fragment = [],
     u_String = ''https://hooks.example''\<rparr>"

definition sample_hooks_outbound :: outbound where
  "sample_hooks_outbound = \<lparr>ob_parse = \<lambda>_. Some sample_url, ob_addr = \<lambda>_. None, ob_lower = \<lambda>s. s\<rparr>"

definition sample_hook_svc :: webhook_svc where
  "sample_hook_svc = \<lparr>hs_read = sample_job_env, hs_others = [], hs_write = sample_webhook_env, hs_random = \<lambda>k. Some (replicate 32 (char_of (k + 1))),
     hs_cipher = Some sample_aead, hs_nonce = Some (replicate 12 (CHR ''n'')), hs_outbound = sample_hooks_outbound, hs_now = 0\<rparr>"

definition sample_hook_input :: CreateInput where
  "sample_hook_input = \<lparr>ci_DisplayName = ''hook'', ci_URL = ''https://hooks.example'', ci_EventTypes = [''job.failed''], ci_State = ''enabled''\<rparr>"

definition sample_hook_members :: "(string \<times> string) list" where
  "sample_hook_members = [(sample_id (CHR ''b''), sample_id (CHR ''a''))]"

lemma sample_hook_trims:
  "trim_space ''hook'' = ''hook''" "trim_space ''enabled'' = ''enabled''" "trim_space ''https://hooks.example'' = ''https://hooks.example''"
  "trim_space ''job.failed'' = ''job.failed''" "trim_space ''x'' = ''x''"
  by (rule trim_ascii, simp add: is_space_def)+

lemma sample_hook_parse: "ParsePublicHTTPSURL sample_hooks_outbound ''https://hooks.example'' = Some sample_url"
proof -
  have "outbound_lower sample_hooks_outbound (Hostname sample_url) = ''hooks.example''" "Port sample_url = []" by code_simp+
  then show ?thesis
    unfolding ParsePublicHTTPSURL_def Let_def sample_hook_trims
    by (simp add: sample_hooks_outbound_def sample_url_def maxEndpointBytes_def has_suffix_def)
qed

lemma sample_hook_events: "normalizeEvents [''job.failed''] = Some [''job.failed'']"
  by (simp add: normalizeEvents_def allowedEvents_def webhook_events sample_hook_trims)

lemma sample_hook_name: "validDisplayName ''hook''"
proof -
  have "chunks ''hook'' = map (\<lambda>c. (of_char c, [c])) ''hook''" by (rule chunks_ascii) simp
  then show ?thesis by (simp add: validDisplayName_def runes_def utf8_valid_def is_control_def rune_error_def)
qed

lemma sample_hook_owner: "authorizeOwnerSession sample_owner ScopeAdminWrite = Some (sample_id (CHR ''b''), sample_id (CHR ''a''))"
  by code_simp

definition sample_hook_secret :: string where
  "sample_hook_secret = signingSecretPrefix @ concat (replicate 10 ''AwMD'') @ ''AwM''"

lemma sample_hook_random:
  "new_id sample_hook_svc 0 = Some ''01010101-0101-4101-8101-010101010101''"
  "new_id sample_hook_svc 1 = Some ''02020202-0202-4202-8202-020202020202''"
  "generateSigningSecret (hs_random sample_hook_svc 2) = Some sample_hook_secret"
  by code_simp+

definition sample_hook_envelope :: bytes where
  "sample_hook_envelope = envelopeMagic @ replicate 12 (CHR ''n'') @ sample_hook_secret"

lemma sample_hook_seal: "secretbox_Seal sample_aead (Some (replicate 12 (CHR ''n''))) sample_hook_secret (secretAssociatedData w i v) = Some sample_hook_envelope"
proof -
  have "length sample_hook_secret = 52" by code_simp
  then show ?thesis
    by (cases "sample_hook_secret = []") (simp_all add: secretbox_Seal_def maxPlaintextBytes_def secretAssociatedData_def read_full_def sample_aead_def
      sample_hook_envelope_def)
qed

definition sample_hook_endpoint :: endpoint_row where
  "sample_hook_endpoint = \<lparr>we_id = ''01010101-0101-4101-8101-010101010101'', we_workspace_id = sample_id (CHR ''b''), we_display_name = ''hook'',
     we_url = ''https://hooks.example'', we_event_types = [''job.failed''], we_state = StateEnabled, we_version = 1, we_secret_version = 1,
     we_secret = sample_hook_envelope, we_created_by = sample_id (CHR ''a''), we_created_at = pg_time 9000000, we_updated_at = pg_time 9000000\<rparr>"

lemma sample_hook_endpoint_checks: "endpoint_checks sample_hook_endpoint"
  by (simp add: endpoint_checks_def sample_hook_endpoint_def text_between_ascii allowedEvents_def webhook_events StateEnabled_def max_i64_def
      sample_hook_envelope_def envelopeMagic_def)

definition sample_hook_db :: webhook_db where
  "sample_hook_db = \<lparr>wb_endpoints = [sample_hook_endpoint], wb_deliveries = [],
     wb_audits = [\<lparr>ja_id = ''02020202-0202-4202-8202-020202020202'', ja_workspace_id = sample_id (CHR ''b''), ja_actor_id = Some (sample_id (CHR ''a'')),
       ja_action = ''webhook.created'', ja_target_id = ''01010101-0101-4101-8101-010101010101''\<rparr>], wb_memberships = sample_hook_members\<rparr>"

lemma sample_hook_created:
  "svc_Create sample_hook_svc sample_owner sample_hook_input ''r'' (empty_webhooks sample_hook_members)
     = (sample_hook_db, Inr \<lparr>cr_Endpoint = scanEndpoint sample_hook_endpoint, cr_SigningSecret = sample_hook_secret\<rparr>)"
proof -
  have env: "hs_outbound sample_hook_svc = sample_hooks_outbound" "hs_cipher sample_hook_svc = Some sample_aead" "wv_pg (hs_write sample_hook_svc) = sample_job_env"
      "hs_nonce sample_hook_svc = Some (replicate 12 (CHR ''n''))"
    by (simp_all add: sample_hook_svc_def sample_webhook_env_def)
  have input: "ci_DisplayName sample_hook_input = ''hook''" "ci_URL sample_hook_input = ''https://hooks.example''"
      "ci_EventTypes sample_hook_input = [''job.failed'']" "ci_State sample_hook_input = ''enabled''" "u_String sample_url = ''https://hooks.example''"
    by (simp_all add: sample_hook_input_def sample_url_def)
  have "new_endpoint sample_job_env \<lparr>cw_EndpointID = ''01010101-0101-4101-8101-010101010101'', cw_AuditID = auditID, cw_WorkspaceID = sample_id (CHR ''b''),
      cw_CreatedBy = sample_id (CHR ''a''), cw_DisplayName = ''hook'', cw_URL = ''https://hooks.example'', cw_EventTypes = [''job.failed''], cw_State = ''enabled'',
      cw_Version = 1, cw_SecretCiphertext = sample_hook_envelope\<rparr> = Some sample_hook_endpoint" for auditID
    by (simp add: new_endpoint_def sample_hook_endpoint_def StateEnabled_def) (simp add: sample_job_env_def)
  moreover have "(we_workspace_id sample_hook_endpoint, we_created_by sample_hook_endpoint) \<in> set sample_hook_members"
    by (simp add: sample_hook_endpoint_def sample_hook_members_def)
  ultimately show ?thesis
    unfolding svc_Create_def sample_hook_owner Let_def input env sample_hook_parse sample_hook_events sample_hook_trims sample_hook_random
    by (simp add: input(5) sample_hook_name sample_hook_seal webhook_Create_def sample_hook_endpoint_checks webhook_audit_def webhook_commit_def empty_webhooks_def
        sample_hook_db_def StateEnabled_def)
qed

definition sample_hook_test :: webhook_tx where
  "sample_hook_test = WhTest sample_webhook_env \<lparr>et_DeliveryID = ''d'', et_EventID = ''e'', et_AuditID = ''q'', et_WorkspaceID = sample_id (CHR ''b''),
     et_WebhookID = ''01010101-0101-4101-8101-010101010101'', et_WebhookVersion = 1, et_CreatedBy = sample_id (CHR ''a''), et_CreatedAt = 5000,
     et_Payload = ''{}''\<rparr>"

definition sample_hook_pending :: delivery_row where
  "sample_hook_pending = pending_delivery 2 ''d'' (sample_id (CHR ''b'')) ''01010101-0101-4101-8101-010101010101'' 1 None ''e'' EventWebhookTest ''{}''
     (pg_time 5000)"

definition sample_hook_ready :: webhook_db where
  "sample_hook_ready = fold run_webhook [sample_hook_test] sample_hook_db"

lemma sample_hook_pending_checks: "delivery_checks sample_hook_pending"
  using sample_payload by (simp add: delivery_checks_def sample_hook_pending_def pending_delivery_def opt_check_def delivery_states webhook_events)

lemma sample_hook_ready_tables: "wb_endpoints sample_hook_ready = [sample_hook_endpoint]" "wb_deliveries sample_hook_ready = [sample_hook_pending]"
proof -
  have "insert_delivery sample_hook_pending sample_hook_db = Inr (sample_hook_db\<lparr>wb_deliveries := [sample_hook_pending]\<rparr>)"
    using sample_hook_pending_checks
    by (simp add: insert_delivery_def sample_hook_db_def) (simp add: sample_hook_pending_def pending_delivery_def sample_hook_endpoint_def)
  moreover have "je_jsonb sample_job_env = id" "wv_pg sample_webhook_env = sample_job_env" "wv_sequence sample_webhook_env 0 = 2"
    by (simp_all add: sample_job_env_def sample_webhook_env_def)
  moreover have "''q'' \<notin> set (map ja_id (wb_audits sample_hook_db))" by (simp add: sample_hook_db_def)
  ultimately show "wb_endpoints sample_hook_ready = [sample_hook_endpoint]" "wb_deliveries sample_hook_ready = [sample_hook_pending]"
    by (simp_all add: sample_hook_ready_def sample_hook_test_def webhook_EnqueueTest_def Let_def sample_hook_pending_def [symmetric] webhook_audit_def
        webhook_commit_def) (simp_all add: sample_hook_db_def)
qed

definition sample_hook_worker :: delivery_worker where
  "sample_hook_worker = \<lparr>wk_claim = sample_webhook_env, wk_others = [], wk_report = sample_job_env, wk_id = ''x'', wk_now = 6000, wk_lease = 0,
     wk_cipher = sample_aead, wk_outbound = sample_hooks_outbound, wk_accepts = \<lambda>_. True, wk_client = \<lambda>_. HttpAnswered 204 (Some 0)\<rparr>"

definition sample_hook_claimed :: delivery_row where
  "sample_hook_claimed = claimed_delivery sample_webhook_env (claim_params sample_hook_worker) sample_hook_pending"

lemma sample_hook_claimed_checks: "delivery_checks sample_hook_claimed"
  using sample_hook_pending_checks sample_text(1)
  by (simp add: delivery_checks_def sample_hook_claimed_def claimed_delivery_def Let_def opt_check_def claim_params_def sample_hook_worker_def)
    (simp add: sample_hook_pending_def pending_delivery_def delivery_states)

lemma sample_hook_claim:
  "webhook_Claim sample_webhook_env (claim_params sample_hook_worker) sample_hook_ready
     = (set_delivery sample_hook_claimed sample_hook_ready, Inr (delivery_attempt sample_hook_endpoint sample_hook_claimed))"
proof -
  let ?p = "claim_params sample_hook_worker"
  have p: "cd_WorkerID ?p = ''x''" "cd_Now ?p = 6000" "wv_pg sample_webhook_env = sample_job_env"
    by (simp_all add: claim_params_def sample_hook_worker_def sample_webhook_env_def)
  have same: "we_id sample_hook_endpoint = wd_webhook_id sample_hook_pending" "we_workspace_id sample_hook_endpoint = wd_workspace_id sample_hook_pending"
    by (simp_all add: sample_hook_endpoint_def sample_hook_pending_def pending_delivery_def)
  then have "deliverable (pg_time 6000) sample_hook_ready sample_hook_pending"
    using sample_hook_ready_tables
    by (simp add: deliverable_def) (simp add: sample_hook_pending_def pending_delivery_def sample_hook_endpoint_def delivery_states pg_time_def microsecond_def)
  then have "delivery_candidate sample_job_env (pg_time 6000) sample_hook_ready = Some sample_hook_pending"
    by (simp add: delivery_candidate_def sample_hook_ready_tables)
  moreover have "guard_projection sample_hook_pending sample_hook_claimed" by (simp add: sample_hook_claimed_def claimed_delivery_fields)
  ultimately show ?thesis
    using sample_hook_claimed_checks sample_text(1) same
    by (simp add: webhook_Claim_def Let_def p sample_hook_claimed_def [symmetric] sample_hook_ready_tables)
qed

definition sample_hook_request :: http_request where
  "sample_hook_request = delivery_request sample_url sample_hook_secret (delivery_attempt sample_hook_endpoint sample_hook_claimed) 6000"

lemma sample_hook_opens: "secretbox_Open sample_aead sample_hook_envelope (secretAssociatedData w i v) = Some sample_hook_secret"
  by (rule secretbox_roundtrip(1) [OF sample_aead_law sample_hook_seal])

lemma sample_hook_sent:
  "\<exists>db2 result. RunOnce sample_hook_worker sample_hook_ready = (Some sample_hook_request, db2, True, result)"
proof -
  let ?a = "delivery_attempt sample_hook_endpoint sample_hook_claimed"
  have w: "wk_claim sample_hook_worker = sample_webhook_env" "wk_id sample_hook_worker = ''x''" "wk_now sample_hook_worker = 6000"
      "wk_outbound sample_hook_worker = sample_hooks_outbound" "wk_cipher sample_hook_worker = sample_aead" "wk_accepts sample_hook_worker u"
      "we_url sample_hook_endpoint = ''https://hooks.example''" "we_secret sample_hook_endpoint = sample_hook_envelope" for u
    by (simp_all add: sample_hook_worker_def sample_hook_endpoint_def)
  have "sample_hook_secret \<noteq> []" by (simp add: sample_hook_secret_def signingSecretPrefix_def)
  then have "fst (deliver sample_hook_worker ?a 6000 db) = Some sample_hook_request" for db
    by (simp add: deliver_def w sample_hook_parse sample_hook_opens Let_def sample_hook_request_def)
  then show ?thesis by (auto simp: RunOnce_def w sample_hook_trims sample_hook_claim split: prod.split) (metis fst_conv)+
qed

lemma sample_hook_base: "webhook_inv (empty_webhooks sample_hook_members)" "reads_uuid sample_job_env"
  by (simp_all add: empty_webhooks_inv reads_uuid_def)

theorem signed_with_shown_secret_witness:
  "rq_Signature sample_hook_request = ''v1='' @ signPayload sample_hook_secret (rq_Timestamp sample_hook_request) (rq_Body sample_hook_request)"
proof -
  let ?res = "\<lparr>cr_Endpoint = scanEndpoint sample_hook_endpoint, cr_SigningSecret = sample_hook_secret\<rparr>"
  obtain db2 result where run: "RunOnce sample_hook_worker (fold run_webhook [sample_hook_test] sample_hook_db) = (Some sample_hook_request, db2, True, result)"
    using sample_hook_sent unfolding sample_hook_ready_def by blast
  have "sample_hook_pending \<in> set (wb_deliveries (fold run_webhook [sample_hook_test] sample_hook_db))"
    using sample_hook_ready_tables(2) unfolding sample_hook_ready_def by simp
  moreover have "wd_id sample_hook_pending = rq_Delivery sample_hook_request" "wd_webhook_id sample_hook_pending = en_ID (cr_Endpoint ?res)"
    by (simp_all add: sample_hook_request_def delivery_request_def Let_def sample_hook_claimed_def claimed_delivery_def scanEndpoint_def
        sample_hook_endpoint_def sample_hook_pending_def pending_delivery_def)
  ultimately show ?thesis
    using signed_with_shown_secret [of sample_hook_svc sample_aead sample_hook_worker sample_owner sample_hook_input "''r''" _ sample_hook_db ?res "[]" 1
        "[sample_hook_test]", OF _ sample_aead_law _ _ _ sample_hook_base(1) _ run] sample_hook_created sample_hook_base
    by (simp add: sample_hook_svc_def sample_webhook_env_def sample_hook_worker_def sample_hook_test_def)
qed

theorem delivery_outcome_witness:
  "\<exists>new. new \<in> set (wb_deliveries (fst (snd (RunOnce sample_hook_worker sample_hook_ready)))) \<and> wd_state new = DeliverySucceeded
     \<and> wd_delivered_at new = Some (pg_time 6000)"
proof -
  obtain db2 result where run: "RunOnce sample_hook_worker sample_hook_ready = (Some sample_hook_request, db2, True, result)"
    using sample_hook_sent by blast
  have w: "wk_claim sample_hook_worker = sample_webhook_env" "wk_report sample_hook_worker = sample_job_env" "wk_others sample_hook_worker = []"
      "wk_client sample_hook_worker q = HttpAnswered 204 (Some 0)" "wk_now sample_hook_worker = 6000" for q
    by (simp_all add: sample_hook_worker_def)
  have inv: "webhook_inv sample_hook_ready"
    using svc_Create_inv [OF sample_hook_base(1) sample_hook_created] webhooks.runs_inv [of sample_hook_db "[sample_hook_test]"]
    unfolding sample_hook_ready_def by simp
  have ids: "wd_id sample_hook_claimed = wd_id sample_hook_pending" by (simp add: sample_hook_claimed_def claimed_delivery_def Let_def)
  have row: "sample_hook_claimed \<in> set (wb_deliveries (set_delivery sample_hook_claimed sample_hook_ready))"
      "wd_id sample_hook_claimed = rq_Delivery sample_hook_request"
    by (simp_all add: set_delivery_def sample_hook_ready_tables ids sample_hook_request_def delivery_request_def Let_def)
  show ?thesis
    using delivery_outcome [OF inv _ run row] sample_hook_claim run by (auto simp: w report_spec_def)
qed

end
