(* ===== verification/Spec2Isabelle.thy ===== *)
theory Spec2Isabelle
  imports Login_Limiter Rt_Controller Job_System Upload Webhook
begin

text \<open>
  A verification development of the voice asset server, a Go service that stores recordings, probes
  their audio, transcribes them in background jobs and live over a message protocol, and notifies others.

  \<^bold>\<open>The program and its parts.\<close>  Clients upload audio in parts (\<^verbatim>\<open>internal/upload\<close>); the parts are kept in an
  object store (\<^verbatim>\<open>internal/storage\<close>), assembled, and accepted only after the file was probed
  (\<^verbatim>\<open>internal/audio\<close>).  Background jobs (\<^verbatim>\<open>internal/job\<close>) are rows of a table that workers lease, retry and
  finish; one kind transcribes a recording (\<^verbatim>\<open>internal/transcription\<close> over \<^verbatim>\<open>internal/asr\<close>), another draws its
  waveform (\<^verbatim>\<open>internal/waveform\<close>), and administrators retry failed ones (\<^verbatim>\<open>internal/operations\<close>).  The end of a
  job inserts a notification, and a trigger makes it a delivery for every webhook that asked for it
  (\<^verbatim>\<open>internal/webhook\<close>); a worker signs and sends it through a guarded HTTP client
  (\<^verbatim>\<open>internal/platform/outboundhttp\<close>) with a secret that is kept sealed (\<^verbatim>\<open>internal/platform/secretbox\<close>).  A live recording is a connection (\<^verbatim>\<open>internal/realtime/controller.go\<close>) that decodes
  messages (\<^verbatim>\<open>protocol.go\<close>), advances a persistent session (\<^verbatim>\<open>session.go\<close>, \<^verbatim>\<open>service.go\<close>,
  \<^verbatim>\<open>postgres_repository.go\<close>) and feeds a provider stream kept in a hub that survives reconnects
  (\<^verbatim>\<open>stream_hub.go\<close>).  Logins are rate limited (\<^verbatim>\<open>internal/platform/httpapi/login_limiter.go\<close>).

  \<^bold>\<open>The theories.\<close>
  \<^item> \<open>Go_Prelude\<close>, \<open>Go_Json\<close>, \<open>Go_Sha256\<close>: the parts of Go and its library the packages use: 64-bit
    arithmetic, UTF-8, time, \<^verbatim>\<open>encoding/json\<close>, \<^verbatim>\<open>encoding/base64\<close>, \<^verbatim>\<open>crypto/sha256\<close>.
  \<^item> \<open>Identifier\<close>: UUIDs, scopes of roles, principals.
  \<^item> \<open>Audio_Wav\<close>, \<open>Audio_M4A\<close>: the parsers of \<^verbatim>\<open>wav.go\<close>, \<^verbatim>\<open>m4a.go\<close>, \<^verbatim>\<open>probe.go\<close>, with machine words where the
    code has fixed-width integers.  Shown: the parsers read only inside the declared input, accept
    every canonical file with its parameters, and return only consistent metadata.
  \<^item> \<open>Login_Limiter\<close>: over all sequences of calls at most the limit is granted per window, waiting as
    told is enough, and the table stays bounded.
  \<^item> \<open>Rt_Protocol\<close>: decoding is strict and sound, frames round trip.
  \<^item> \<open>Rt_Session\<close>: the state machine as functions, its runs as an inductive relation; every reachable
    session is well formed and counts each frame exactly once.
  \<^item> \<open>Rt_Hub\<close>: the critical sections of the hub as steps of an interleaving; no stream leaks, stale
    leases never work again.
  \<^item> \<open>Rt_Repository\<close>: the tables with their constraints; the locale \<open>versioned_store\<close> states what a store
    with optimistic versions promises, its lemmas follow once, and the interpretation \<open>pg\<close> discharges it
    for the SQL statements.  Clients interleave arbitrarily, with faults and lost commits.
  \<^item> \<open>Rt_Service\<close>: the service over an environment that supplies clocks, random bytes, faults and the
    steps of other connections; every operation is a legal client of the store, acknowledged frames are
    durable, workspaces are isolated.
  \<^item> \<open>Rt_Controller\<close>: a whole connection; what it acknowledges or reports as final is stored, and it
    leaves no stream attached.
  \<^item> \<open>Job_Repository\<close>: jobs, attempts, leases and the notification trigger.  Shown: the invariant that
    the attempts of a job are its complete history, that a claim returns the right job or none, and
    that repeated requests replay.
  \<^item> \<open>Asr_Result\<close>, \<open>Transcription\<close>, \<open>Waveform\<close>, \<open>Job_Service\<close>: validation of provider results, the two workers with
    the transactions that publish what they produced, the requests for jobs and the administrative retry.
    Shown: a transcript is published by the holder of the lease, completely or not at all; two defects of
    the failure path are proved as they are.
  \<^item> \<open>Job_System\<close>: the job tables under all these transactions together.  Shown: they stay consistent, the
    history of a job only grows, and a cycle of the worker ends every claimed job or leaves a lease that
    runs out.
  \<^item> \<open>Storage_Local\<close>: the local object store on a file tree with faults and other processes.  The locale
    \<open>write_once\<close> states what a store of immutable objects promises; it is interpreted on the store.  Shown: an
    object never changes, and an assembled file is the concatenation of its parts.
  \<^item> \<open>Upload_Repository\<close>, \<open>Upload\<close>: sessions, parts and completion.  The service uses its store through the
    locale \<open>completion_store\<close>, interpreted on the local store.  Shown: a completed upload has its row and its
    file, the parts cover the file, the tables stay consistent.
  \<^item> \<open>Webhook_Repository\<close>: endpoints and deliveries with the triggers of their tables.  Shown: consistency over
    every sequence of transactions, at most five attempts, leases that exclude others, and which deliveries
    nothing ever ends.
  \<^item> \<open>Outbound_Http\<close>, \<open>Secretbox\<close>: the guard of outbound connections, with the address classes of \<^verbatim>\<open>net/netip\<close>,
    and the envelope of secrets over an authenticated cipher that is an argument.  Shown: only public
    addresses are dialled, and what was sealed opens.
  \<^item> \<open>Webhook\<close>: the operations of the owner and the delivery worker.  Shown: from the creation of an endpoint
    to the signature of a request the secret is the one the owner was shown, every outcome of an attempt is
    accounted for, and the backoff doubles up to its bound.

  The locale \<open>transactions\<close> of \<open>Go_Prelude\<close> carries an invariant and a progress relation over sequences of
  transactions; the jobs, the uploads and the webhooks interpret it.

  \<^bold>\<open>How the state corresponds.\<close>  A Go struct is a record with the same fields, a table row a record with a
  field per column, a nullable column or pointer an option.  A method returns the new state and a sum
  with \<open>Inl\<close> for the error; errors are kept up to \<^verbatim>\<open>errors.Is\<close>.  A transaction is a function on the
  database that returns it unchanged on every error path, which is what the rollback does; a commit may
  take effect although the client sees an error.  A critical section under a mutex is one step.

  \<^bold>\<open>Bounds and fuel.\<close>  The JSON parser uses fuel of twice the input length plus two, and
  \<open>parse_value_fuel\<close> shows that more never changes a result.  The box walk of M4A and the chunk loop of WAV
  terminate by measures on the remaining input; the loop of \<^verbatim>\<open>Claim\<close> by the number of running jobs.  The
  retry loop of \<^verbatim>\<open>AcceptAudio\<close> is bounded in the code.  Counters of a session are bounded by a number of
  frames below \<open>2 ^ 46\<close>, where 64-bit arithmetic does not wrap.

  \<^bold>\<open>Not modelled.\<close>  The HTTP layer and the commands are routing and wiring around the services.  The S3 store,
  the clients of the speech and language model vendors, ffmpeg and the backup archives are exchanges with
  external systems.  Accounts rest on password hashing and tokens of libraries.  Assets and their purge,
  corrections, reviews, exports, glossaries, profiles, workspaces and membership are services of the same
  kind as the modelled ones over further tables, left for later; listings of the modelled services only
  read.  PostgreSQL itself, its parser of UUIDs and its rendering of JSON and intervals are parameters; a
  statement sees the database its transaction has, and row locks appear as the atomicity of the statements
  that hold them.  AES-GCM, URL parsing, name resolution and the HTTP client are parameters too.
\<close>

end
